(* ===== verification/Prelude.thy ===== *)
theory Prelude
  imports "HOL-Library.Multiset" "HOL-Library.Word"
begin

text \<open>
  The prelude of the development: the pieces of the Rust standard library that several
  components of the runtime use (slice searches, \<open>Vec\<close> removal, \<open>Option\<close> and \<open>Result\<close> helpers,
  saturating subtraction), their laws, and the names of the shared types.  Instants and durations
  of the monotonic clock are natural numbers in one unit; their resolution is not observed.
\<close>

section \<open>Shared types\<close>

type_synonym instant = nat
type_synonym usize = "64 word"
type_synonym u32 = "32 word"
type_synonym u64 = "64 word"
type_synonym bytes = "8 word list"
type_synonym ('e, 'a) result = "'e + 'a"

abbreviation Ok :: "'a \<Rightarrow> ('e, 'a) result" where "Ok \<equiv> Inr"
abbreviation Err :: "'e \<Rightarrow> ('e, 'a) result" where "Err \<equiv> Inl"

definition is_ok :: "('e, 'a) result \<Rightarrow> bool" where
  "is_ok r = (case r of Inl _ \<Rightarrow> False | Inr _ \<Rightarrow> True)"

definition is_err :: "('e, 'a) result \<Rightarrow> bool" where
  "is_err r = (\<not> is_ok r)"

text \<open>The reasons for which a run ends early.  The type belongs to the crate that defines the worker
  interface; the constructors are the ones this runtime builds and matches on.\<close>

datatype termination_reason =
    CpuTimeLimit
  | WallClockTimeout
  | MemoryLimit
  | Aborted
  | MaxIterationsReached
  | Exception string
  | InitializationError string
  | Other string

text \<open>The collections of facts that the component proofs pass to the simplifier: definitions of the
  steps of a component, and the field-by-field effect of its operations.\<close>

named_theorems step_defs
named_theorems effect_simps

section \<open>Slices and vectors\<close>

text \<open>\<open>iter().position(p)\<close>: the index of the first element that satisfies \<open>p\<close>.\<close>

fun position :: "('a \<Rightarrow> bool) \<Rightarrow> 'a list \<Rightarrow> nat option" where
  "position P [] = None"
| "position P (x # xs) = (if P x then Some 0 else map_option Suc (position P xs))"

text \<open>\<open>iter().min_by_key(f)\<close>: the first of the elements whose key is least.\<close>

fun min_by_key :: "('a \<Rightarrow> 'k :: linorder) \<Rightarrow> 'a list \<Rightarrow> 'a option" where
  "min_by_key f [] = None"
| "min_by_key f (x # xs) =
     (case min_by_key f xs of
        None \<Rightarrow> Some x
      | Some y \<Rightarrow> if f x \<le> f y then Some x else Some y)"

text \<open>\<open>Vec::remove(i)\<close> and \<open>Vec::swap_remove(i)\<close> for an index in range, which is the only way the
  source calls them.\<close>

definition remove_at :: "nat \<Rightarrow> 'a list \<Rightarrow> 'a list" where
  "remove_at i xs = take i xs @ drop (Suc i) xs"

definition swap_remove :: "nat \<Rightarrow> 'a list \<Rightarrow> 'a list" where
  "swap_remove i xs = butlast (xs[i := last xs])"

text \<open>\<open>found.map(|idx| v.swap_remove(idx))\<close>: what is left of \<open>v\<close>.\<close>

definition swap_remove_opt :: "nat option \<Rightarrow> 'a list \<Rightarrow> 'a list" where
  "swap_remove_opt found xs = (case found of None \<Rightarrow> xs | Some idx \<Rightarrow> swap_remove idx xs)"

definition saturating_sub :: "nat \<Rightarrow> nat \<Rightarrow> nat" where
  "saturating_sub a b = (if b \<le> a then a - b else 0)"

lemma is_ok_simps [simp]: "is_ok (Inr x)" "\<not> is_ok (Inl e)" "is_err (Inl e)" "\<not> is_err (Inr x)"
  by (simp_all add: is_ok_def is_err_def)

lemma is_ok_iff: "is_ok r \<longleftrightarrow> (\<exists>x. r = Inr x)"
  by (cases r) auto

lemma saturating_sub_eq [simp]: "saturating_sub a b = a - b"
  by (simp add: saturating_sub_def)

lemma position_None_iff: "position P xs = None \<longleftrightarrow> (\<forall>x \<in> set xs. \<not> P x)"
  by (induction xs) auto

lemma position_Some_iff:
  "position P xs = Some i \<longleftrightarrow> i < length xs \<and> P (xs ! i) \<and> (\<forall>j < i. \<not> P (xs ! j))"
proof (induction xs arbitrary: i)
  case (Cons x xs)
  then show ?case
    by (cases i) (auto simp: less_Suc_eq_0_disj)
qed simp

lemma position_SomeD:
  assumes "position P xs = Some i"
  shows "i < length xs" "P (xs ! i)"
  using assms by (simp_all add: position_Some_iff)

lemma min_by_key_None_iff [simp]: "min_by_key f xs = None \<longleftrightarrow> xs = []"
  by (cases xs) (auto split: option.splits)

lemma min_by_key_split:
  assumes "min_by_key f xs = Some y"
  shows "\<exists>ys zs. xs = ys @ y # zs \<and> (\<forall>x \<in> set ys. f y < f x) \<and> (\<forall>x \<in> set zs. f y \<le> f x)"
  using assms
proof (induction xs arbitrary: y)
  case (Cons x xs)
  show ?case
  proof (cases "min_by_key f xs")
    case None
    with Cons.prems show ?thesis by (intro exI [of _ "[]"]) auto
  next
    case (Some z)
    from Cons.IH [OF Some] obtain ys zs where split: "xs = ys @ z # zs"
      "\<forall>x \<in> set ys. f z < f x" "\<forall>x \<in> set zs. f z \<le> f x" by blast
    show ?thesis
    proof (cases "f x \<le> f z")
      case True
      with split have "\<forall>w \<in> set xs. f x \<le> f w" by force
      with Cons.prems Some True show ?thesis by (intro exI [of _ "[]"] exI [of _ xs]) simp
    next
      case False
      with Cons.prems Some split show ?thesis
        by (intro exI [of _ "x # ys"] exI [of _ zs]) auto
    qed
  qed
qed simp

lemma min_by_key_SomeD:
  assumes "min_by_key f xs = Some y"
  shows "y \<in> set xs" "x \<in> set xs \<Longrightarrow> f y \<le> f x"
  using min_by_key_split [OF assms] by (auto simp: less_imp_le)

lemma length_remove_at [simp]: "i < length xs \<Longrightarrow> length (remove_at i xs) = length xs - 1"
  by (auto simp: remove_at_def)

lemma mset_remove_at: "i < length xs \<Longrightarrow> mset xs = add_mset (xs ! i) (mset (remove_at i xs))"
  using arg_cong [OF id_take_nth_drop, of i xs mset] by (simp add: remove_at_def)

lemma set_remove_at_subset: "set (remove_at i xs) \<subseteq> set xs"
  unfolding remove_at_def using set_take_subset set_drop_subset by fastforce

lemma distinct_remove_at:
  assumes "distinct xs" "i < length xs"
  shows "distinct (remove_at i xs)" "set (remove_at i xs) = set xs - {xs ! i}"
proof -
  have xs: "xs = take i xs @ xs ! i # drop (Suc i) xs"
    using assms(2) by (rule id_take_nth_drop)
  have *: "distinct (take i xs @ xs ! i # drop (Suc i) xs)"
    using assms(1) xs by simp
  show "distinct (remove_at i xs)"
    using * by (auto simp: remove_at_def)
  have "set xs = set (take i xs @ xs ! i # drop (Suc i) xs)"
    using xs by simp
  with * show "set (remove_at i xs) = set xs - {xs ! i}"
    by (auto simp: remove_at_def)
qed

lemma length_swap_remove [simp]: "i < length xs \<Longrightarrow> length (swap_remove i xs) = length xs - 1"
  by (simp add: swap_remove_def)

lemma swap_remove_snoc [simp]:
  "swap_remove i (xs @ [x]) = (if i = length xs then xs else xs[i := x])"
  by (cases "i < length xs")
    (auto simp: swap_remove_def list_update_append butlast_append list_update_beyond split: nat.splits)

lemma mset_swap_remove:
  assumes "i < length xs"
  shows "mset xs = add_mset (xs ! i) (mset (swap_remove i xs))"
proof (cases xs rule: rev_cases)
  case (snoc ys y)
  show ?thesis
  proof (cases "i = length ys")
    case False
    with assms snoc have lt: "i < length ys" by simp
    then have "add_mset (ys ! i) (mset ys - {#ys ! i#}) = mset ys" by simp
    with lt snoc show ?thesis by (simp add: mset_update nth_append add_mset_commute)
  qed (simp add: snoc)
qed (use assms in simp)

lemma set_swap_remove_subset: "i < length xs \<Longrightarrow> set (swap_remove i xs) \<subseteq> set xs"
  by (metis mset_swap_remove set_mset_mset set_mset_add_mset_insert subset_insertI)

lemma swap_remove_opt_subset:
  assumes "\<And>i. found = Some i \<Longrightarrow> i < length xs"
  shows "set (swap_remove_opt found xs) \<subseteq> set xs" "length (swap_remove_opt found xs) \<le> length xs"
  using assms set_swap_remove_subset [of _ xs] by (auto simp: swap_remove_opt_def split: option.splits)

lemma filter_swap_remove:
  assumes "i < length xs"
  shows "filter_mset P (mset xs) =
    (if P (xs ! i) then add_mset (xs ! i) (filter_mset P (mset (swap_remove i xs)))
     else filter_mset P (mset (swap_remove i xs)))"
  using mset_swap_remove [OF assms] by simp

text \<open>Removing the elements of an ascending list of indices from the back keeps exactly the
  elements at the other indices, in order.\<close>

lemma fold_remove_at_nths:
  assumes "sorted_wrt (<) is" "\<forall>i \<in> set is. i < length xs"
  shows "fold remove_at (rev is) xs = nths xs (- set is)"
  using assms
proof (induction "is" arbitrary: xs rule: rev_induct)
  case Nil
  then show ?case by (simp add: nths_all)
next
  case (snoc i "is")
  let ?ys = "remove_at i xs"
  from snoc.prems have sorted: "sorted_wrt (<) is" and lt: "\<forall>j \<in> set is. j < i" "i < length xs"
    by (auto simp: sorted_wrt_append)
  then have "\<forall>j \<in> set is. j < length ?ys" by fastforce
  then have "fold remove_at (rev (is @ [i])) xs = nths ?ys (- set is)"
    using snoc.IH [of ?ys] sorted by simp
  also have "\<dots> = nths (take i xs) (- set is) @ drop (Suc i) xs"
  proof -
    have "nths (drop (Suc i) xs) {j. j + i \<in> - set is} = drop (Suc i) xs"
      using lt by (intro nths_all) auto
    then show ?thesis using lt by (simp add: remove_at_def nths_append min_def)
  qed
  also have "nths (take i xs) (- set is) = nths (take i xs) (- set (is @ [i]))"
  proof -
    have "\<forall>p \<in> set (zip (take i xs) [0..<length (take i xs)]). snd p \<noteq> i"
      by (auto dest: set_zip_rightD)
    then show ?thesis by (auto simp: nths_def intro!: arg_cong [of _ _ "map fst"] filter_cong)
  qed
  also have "drop (Suc i) xs = nths (xs ! i # drop (Suc i) xs) {j. j + i \<in> - set (is @ [i])}"
  proof -
    have "nths (drop (Suc i) xs) {j. Suc j + i \<in> - set (is @ [i])} = drop (Suc i) xs"
      using lt by (intro nths_all) auto
    then show ?thesis by (simp add: nths_Cons)
  qed
  also have "nths (take i xs) (- set (is @ [i])) @ \<dots> =
      nths (take i xs @ xs ! i # drop (Suc i) xs) (- set (is @ [i]))"
    using lt by (simp add: nths_append min_def)
  also have "take i xs @ xs ! i # drop (Suc i) xs = xs"
    using id_take_nth_drop [OF lt(2)] by simp
  finally show ?case .
qed

section \<open>Words as counters\<close>

lemma unat_plus_1_less:
  fixes x y :: "'a :: len word"
  assumes "x < y"
  shows "unat (x + 1) = Suc (unat x)"
proof -
  have "Suc (unat x) \<le> unat y" using assms by (simp add: word_less_nat_alt)
  then have "Suc (unat x) < 2 ^ LENGTH('a)" using unsigned_less le_less_trans by blast
  then show ?thesis by (simp add: unat_word_ariths(1))
qed

lemma unat_minus_1_pos: "x \<noteq> 0 \<Longrightarrow> unat (x - 1) = unat x - 1" for x :: "'a :: len word"
  by (rule unat_minus_one)

lemma plus_1_le: "x < y \<Longrightarrow> x + 1 \<le> y" for x y :: "'a :: len word"
  by (rule inc_le)

lemma minus_1_le: "x \<noteq> 0 \<Longrightarrow> x \<le> y \<Longrightarrow> x - 1 \<le> y" for x y :: "'a :: len word"
  by (simp add: unat_minus_1_pos word_le_nat_alt)

lemma length_filter_update:
  "t < length ts \<Longrightarrow>
    length (filter P (ts[t := x])) + (if P (ts ! t) then 1 else 0) =
    length (filter P ts) + (if P x then 1 else 0)"
proof (induction ts arbitrary: t)
  case (Cons y ts)
  then show ?case by (cases t) auto
qed simp

lemma length_filter_mono:
  "(\<And>x. x \<in> set xs \<Longrightarrow> P x \<Longrightarrow> Q x) \<Longrightarrow> length (filter P xs) \<le> length (filter Q xs)"
  by (induction xs) (auto simp: le_SucI)

lemma length_filter_remove_at:
  "i < length xs \<Longrightarrow>
    length (filter P (remove_at i xs)) + (if P (xs ! i) then 1 else 0) = length (filter P xs)"
  using arg_cong [OF mset_remove_at, of i xs "\<lambda>M. size (filter_mset P M)"]
  by (simp flip: mset_filter size_mset)

lemma fold_invariant:
  assumes "P s" "\<And>x s. P s \<Longrightarrow> P (f x s)"
  shows "P (fold f xs s)"
  using assms by (induction xs arbitrary: s) auto

lemma max_word_least: "x < - 1 \<longleftrightarrow> x \<noteq> - 1" for x :: "'a :: len word"
  by (metis max_word_max order_le_imp_less_or_eq order_less_irrefl)

lemma less_plus_1: "x \<noteq> - 1 \<Longrightarrow> x < x + 1" for x :: "'a :: len word"
  using unat_plus_1_less [of x "- 1"] by (simp add: word_less_nat_alt [of x "x + 1"] max_word_least)

lemma unat_plus_one: "unat x + 1 < 2 ^ 64 \<Longrightarrow> unat (x + 1) = unat x + 1" for x :: u64
  by (simp add: unat_word_ariths)

end
