(* ===== verification/Pool_Policy.thy ===== *)
theory Pool_Policy
  imports Prelude
begin

text \<open>
  The decisions of the isolate pool, from \<open>src/src/pool_policy.rs\<close>: which isolate a request takes
  (\<open>acquire\<close>), which idle isolates go once the pool stands past its ceiling (\<open>reclaim\<close>), and the
  rules of the warm-context cache (\<open>warm_hit\<close>, \<open>superseded\<close>, \<open>keep_context\<close>, \<open>cache_evict\<close>).  The
  functions are pure in the source and are translated one by one.  Each is characterised by a
  declarative specification that quantifies over indices.
\<close>

section \<open>Data\<close>

record isolate_load =
  il_owner :: string
  il_has_capacity :: bool
  il_idle_since :: "instant option"

record pool_limits =
  max_isolates :: nat
  max_per_owner :: "nat option"
  overcommit :: bool

record pool_load =
  pl_isolates :: "isolate_load list"
  pl_limits :: pool_limits

datatype refusal = OwnerAtLimit | PoolFull

datatype acquire_choice = Reuse nat | Build | Evict nat | Overcommit | Refuse refusal

definition message :: "refusal \<Rightarrow> string" where
  "message r = (case r of
     OwnerAtLimit \<Rightarrow> ''Pool at capacity: the owner is at its isolate limit''
   | PoolFull \<Rightarrow> ''Pool at capacity: every isolate is in use'')"

record context_key =
  ck_worker_id :: string
  ck_version :: int
  ck_env_updated_at :: "int option"

section \<open>Choosing an isolate\<close>

definition owned :: "isolate_load list \<Rightarrow> string \<Rightarrow> nat" where
  "owned isos owner = length (filter (\<lambda>i. il_owner i = owner) isos)"

definition idle_isolates :: "isolate_load list \<Rightarrow> (nat \<times> instant) list" where
  "idle_isolates isos =
     List.map_filter (\<lambda>(index, i). map_option (Pair index) (il_idle_since i)) (enumerate 0 isos)"

definition acquire :: "pool_load \<Rightarrow> string \<Rightarrow> acquire_choice" where
  "acquire load owner =
     (let limits = pl_limits load; isos = pl_isolates load in
      case position (\<lambda>i. il_owner i = owner \<and> il_has_capacity i) isos of
        Some index \<Rightarrow> Reuse index
      | None \<Rightarrow>
          if (case max_per_owner limits of None \<Rightarrow> False | Some limit \<Rightarrow> owned isos owner \<ge> limit)
          then Refuse OwnerAtLimit
          else if length isos < max_isolates limits then Build
          else (case min_by_key snd (idle_isolates isos) of
                  Some (index, _) \<Rightarrow> Evict index
                | None \<Rightarrow> if overcommit limits then Overcommit else Refuse PoolFull))"

definition reclaim :: "pool_load \<Rightarrow> nat list" where
  "reclaim load =
     (let excess = saturating_sub (length (pl_isolates load)) (max_isolates (pl_limits load)) in
      take excess (map fst (filter (\<lambda>(_, i). il_idle_since i \<noteq> None) (enumerate 0 (pl_isolates load)))))"

section \<open>Warm contexts\<close>

definition warm_hit :: "(context_key \<times> u32) list \<Rightarrow> context_key \<Rightarrow> u32 \<Rightarrow> nat option" where
  "warm_hit cached wanted max_reuses =
     position (\<lambda>(key, reuses). key = wanted \<and> reuses < max_reuses) cached"

definition superseded :: "context_key \<Rightarrow> context_key \<Rightarrow> bool" where
  "superseded cached wanted =
     (if ck_worker_id cached \<noteq> ck_worker_id wanted then False
      else if ck_version cached \<noteq> ck_version wanted then ck_version cached < ck_version wanted
      else (case (ck_env_updated_at cached, ck_env_updated_at wanted) of
              (Some cached_env, Some wanted_env) \<Rightarrow> cached_env < wanted_env
            | (cached_env, wanted_env) \<Rightarrow> cached_env \<noteq> wanted_env))"

definition keep_context :: "u32 \<Rightarrow> u32 \<Rightarrow> nat \<Rightarrow> bool" where
  "keep_context reuses max_reuses max_cached = (max_cached > 0 \<and> reuses < max_reuses)"

definition cache_evict :: "instant list \<Rightarrow> nat \<Rightarrow> nat option" where
  "cache_evict last_used max_cached =
     (if length last_used < max_cached then None
      else map_option fst (min_by_key snd (enumerate 0 last_used)))"

section \<open>Indexed minima\<close>

lemma sorted_enumerate: "sorted_wrt (\<lambda>p q. fst p < fst q) (enumerate n xs)"
  by (induction xs arbitrary: n) (auto simp: in_set_enumerate_eq)

lemma sorted_map_filter:
  assumes "sorted_wrt (\<lambda>p q. fst p < fst q) ps"
    and "\<And>p q. f p = Some q \<Longrightarrow> fst q = fst p"
  shows "sorted_wrt (\<lambda>p q. fst p < fst q) (List.map_filter f ps)"
  using assms(1)
proof (induction ps)
  case (Cons p ps)
  have "fst r = fst q" if "r = the (f q)" "f q \<noteq> None" for q r
    using that assms(2) by auto
  with Cons show ?case
    using assms(2) by (auto simp: map_filter_def split: option.splits)
qed (simp add: map_filter_def)

lemma idle_isolates_sorted: "sorted_wrt (\<lambda>p q. fst p < fst q) (idle_isolates isos)"
  unfolding idle_isolates_def by (rule sorted_map_filter [OF sorted_enumerate]) auto

lemma in_set_idle_isolates:
  "(i, t) \<in> set (idle_isolates isos) \<longleftrightarrow> i < length isos \<and> il_idle_since (isos ! i) = Some t"
  by (force simp: idle_isolates_def map_filter_def in_set_enumerate_eq split: prod.splits)

text \<open>In a list of index-key pairs that is sorted by index, the entry that \<open>min_by_key\<close> returns is
  the one with the least key and, among those, the least index.\<close>

lemma min_by_key_indexed:
  fixes ps :: "(nat \<times> 'k :: linorder) list"
  assumes "sorted_wrt (\<lambda>p q. fst p < fst q) ps"
  shows "min_by_key snd ps = Some (i, t) \<longleftrightarrow>
    (i, t) \<in> set ps \<and> (\<forall>j u. (j, u) \<in> set ps \<longrightarrow> t \<le> u \<and> (j < i \<longrightarrow> t < u))" (is "?l \<longleftrightarrow> ?r")
proof
  assume ?l
  from min_by_key_split [OF this] obtain ys zs where split: "ps = ys @ (i, t) # zs"
    "\<forall>x \<in> set ys. t < snd x" "\<forall>x \<in> set zs. t \<le> snd x" by auto
  with assms have "\<forall>q \<in> set zs. i < fst q" by (auto simp: sorted_wrt_append)
  with split show ?r by fastforce
next
  assume r: ?r
  then obtain q where q: "min_by_key snd ps = Some q" by (cases "min_by_key snd ps") auto
  obtain i' t' where q': "q = (i', t')" by fastforce
  from min_by_key_split [OF q] obtain ys zs where split: "ps = ys @ q # zs"
    "\<forall>x \<in> set ys. t' < snd x" "\<forall>x \<in> set zs. t' \<le> snd x" using q' by auto
  from r q' split have "t \<le> t'" "i' < i \<longrightarrow> t < t'" "t' \<le> t"
    using min_by_key_SomeD [OF q] by fastforce+
  then have "t = t'" "\<not> i' < i" by auto
  moreover from r split have "(i, t) \<in> set ys \<or> (i, t) = q \<or> (i, t) \<in> set zs" by auto
  ultimately show ?l
    using assms split q q' by (auto simp: sorted_wrt_append)
qed

section \<open>The choice, characterised\<close>

text \<open>The declarative specification of \<open>acquire\<close>: what each answer means, over indices.\<close>

definition first_free :: "isolate_load list \<Rightarrow> string \<Rightarrow> nat \<Rightarrow> bool" where
  "first_free isos owner i \<longleftrightarrow>
     i < length isos \<and> il_owner (isos ! i) = owner \<and> il_has_capacity (isos ! i) \<and>
     (\<forall>j < i. il_owner (isos ! j) = owner \<longrightarrow> \<not> il_has_capacity (isos ! j))"

definition no_slot :: "isolate_load list \<Rightarrow> string \<Rightarrow> bool" where
  "no_slot isos owner \<longleftrightarrow> (\<forall>i \<in> set isos. il_owner i = owner \<longrightarrow> \<not> il_has_capacity i)"

definition at_owner_limit :: "pool_load \<Rightarrow> string \<Rightarrow> bool" where
  "at_owner_limit load owner \<longleftrightarrow>
     (\<exists>limit. max_per_owner (pl_limits load) = Some limit \<and> limit \<le> owned (pl_isolates load) owner)"

definition longest_idle :: "isolate_load list \<Rightarrow> nat \<Rightarrow> bool" where
  "longest_idle isos i \<longleftrightarrow>
     i < length isos \<and>
     (\<exists>t. il_idle_since (isos ! i) = Some t \<and>
        (\<forall>j u. j < length isos \<and> il_idle_since (isos ! j) = Some u \<longrightarrow> t \<le> u \<and> (j < i \<longrightarrow> t < u)))"

definition must_build :: "pool_load \<Rightarrow> string \<Rightarrow> bool" where
  "must_build load owner \<longleftrightarrow> no_slot (pl_isolates load) owner \<and> \<not> at_owner_limit load owner"

definition pool_full :: "pool_load \<Rightarrow> bool" where
  "pool_full load \<longleftrightarrow>
     max_isolates (pl_limits load) \<le> length (pl_isolates load) \<and>
     (\<forall>i \<in> set (pl_isolates load). il_idle_since i = None)"

fun acquire_spec :: "pool_load \<Rightarrow> string \<Rightarrow> acquire_choice \<Rightarrow> bool" where
  "acquire_spec load owner (Reuse i) \<longleftrightarrow> first_free (pl_isolates load) owner i"
| "acquire_spec load owner Build \<longleftrightarrow>
     must_build load owner \<and> length (pl_isolates load) < max_isolates (pl_limits load)"
| "acquire_spec load owner (Evict i) \<longleftrightarrow>
     must_build load owner \<and> max_isolates (pl_limits load) \<le> length (pl_isolates load) \<and>
     longest_idle (pl_isolates load) i"
| "acquire_spec load owner Overcommit \<longleftrightarrow>
     must_build load owner \<and> pool_full load \<and> overcommit (pl_limits load)"
| "acquire_spec load owner (Refuse OwnerAtLimit) \<longleftrightarrow>
     no_slot (pl_isolates load) owner \<and> at_owner_limit load owner"
| "acquire_spec load owner (Refuse PoolFull) \<longleftrightarrow>
     must_build load owner \<and> pool_full load \<and> \<not> overcommit (pl_limits load)"

lemma position_first_free:
  "position (\<lambda>i. il_owner i = owner \<and> il_has_capacity i) isos = Some i \<longleftrightarrow> first_free isos owner i"
  by (auto simp: position_Some_iff first_free_def)

lemma position_no_slot:
  "position (\<lambda>i. il_owner i = owner \<and> il_has_capacity i) isos = None \<longleftrightarrow> no_slot isos owner"
  by (auto simp: position_None_iff no_slot_def)

lemma oldest_idle:
  "min_by_key snd (idle_isolates isos) = Some (i, t) \<longleftrightarrow>
     longest_idle isos i \<and> il_idle_since (isos ! i) = Some t"
  unfolding min_by_key_indexed [OF idle_isolates_sorted] in_set_idle_isolates longest_idle_def
  by (metis option.inject)

lemma no_idle: "idle_isolates isos = [] \<longleftrightarrow> (\<forall>i \<in> set isos. il_idle_since i = None)"
proof -
  have "idle_isolates isos = [] \<longleftrightarrow> (\<forall>i t. (i, t) \<notin> set (idle_isolates isos))"
    by (cases "idle_isolates isos") auto
  also have "\<dots> \<longleftrightarrow> (\<forall>i \<in> set isos. il_idle_since i = None)"
    by (auto simp: in_set_idle_isolates all_set_conv_all_nth)
  finally show ?thesis .
qed

lemma acquire_meets_spec: "acquire_spec load owner (acquire load owner)"
proof (cases "position (\<lambda>i. il_owner i = owner \<and> il_has_capacity i) (pl_isolates load)")
  case (Some i)
  then show ?thesis by (simp add: acquire_def Let_def flip: position_first_free)
next
  case None
  then have free: "no_slot (pl_isolates load) owner" by (simp add: position_no_slot)
  show ?thesis
  proof (cases "at_owner_limit load owner")
    case True
    with None free show ?thesis
      by (auto simp: acquire_def Let_def at_owner_limit_def)
  next
    case False
    with None free have "must_build load owner"
      and "\<not> (case max_per_owner (pl_limits load) of None \<Rightarrow> False
              | Some limit \<Rightarrow> owned (pl_isolates load) owner \<ge> limit)"
      by (auto simp: must_build_def at_owner_limit_def split: option.splits)
    with None show ?thesis
      using no_idle [of "pl_isolates load"]
      by (cases "min_by_key snd (idle_isolates (pl_isolates load))")
        (auto simp: acquire_def Let_def oldest_idle pool_full_def)
  qed
qed

lemma longest_idle_unique: "longest_idle isos i \<Longrightarrow> longest_idle isos j \<Longrightarrow> i = j"
  unfolding longest_idle_def by (metis linorder_neqE_nat not_less option.inject)

lemma first_free_unique: "first_free isos owner i \<Longrightarrow> first_free isos owner j \<Longrightarrow> i = j"
  by (metis first_free_def linorder_neqE_nat)

lemma first_free_no_slot: "first_free isos owner i \<Longrightarrow> \<not> no_slot isos owner"
  by (auto simp: first_free_def no_slot_def)

lemma longest_idle_not_full: "longest_idle (pl_isolates load) i \<Longrightarrow> \<not> pool_full load"
  by (auto simp: longest_idle_def pool_full_def)

lemma pool_full_not_under: "pool_full load \<Longrightarrow> \<not> length (pl_isolates load) < max_isolates (pl_limits load)"
  by (simp add: pool_full_def)

lemma acquire_spec_unique:
  assumes "acquire_spec load owner a" "acquire_spec load owner b"
  shows "a = b"
  using assms
  by (cases "(load, owner, a)" rule: acquire_spec.cases;
      cases "(load, owner, b)" rule: acquire_spec.cases)
    (auto simp: must_build_def dest: first_free_unique first_free_no_slot longest_idle_unique
      longest_idle_not_full pool_full_not_under)

lemma acquire_eqD: "acquire load owner = a \<Longrightarrow> acquire_spec load owner a"
  using acquire_meets_spec by blast

text \<open>C17: The pool's choice is the documented one and no other.  \<open>acquire\<close> answers \<open>a\<close> exactly when
  the specification allows \<open>a\<close>: the first isolate of the owner with capacity; else a refusal if the
  owner is at its limit; else a build under the ceiling; else the eviction of the isolate idle for
  longest (the first of equally old ones); else an overcommit or a refusal, according to the
  limits.\<close>

theorem acquire_correct: "acquire load owner = a \<longleftrightarrow> acquire_spec load owner a"
  using acquire_meets_spec acquire_spec_unique by blast

section \<open>Reclaiming\<close>

lemma sorted_fst_strict: "sorted_wrt (\<lambda>p q. fst p < fst q) ps \<Longrightarrow> sorted_wrt (<) (map fst ps)"
  by (simp add: sorted_wrt_map)

lemma reclaim_sorted: "sorted_wrt (<) (reclaim load)"
  unfolding reclaim_def Let_def
  by (intro sorted_wrt_take sorted_fst_strict sorted_wrt_filter sorted_enumerate)

lemma reclaim_idle:
  "i \<in> set (reclaim load) \<Longrightarrow>
     i < length (pl_isolates load) \<and> il_idle_since (pl_isolates load ! i) \<noteq> None"
  by (auto simp: reclaim_def in_set_enumerate_eq dest!: in_set_takeD)

lemma length_filter_enumerate:
  "length (filter (\<lambda>(_, x). P x) (enumerate n xs)) = length (filter P xs)"
  by (induction xs arbitrary: n) auto

lemma length_reclaim:
  "length (reclaim load) =
     min (length (filter (\<lambda>i. il_idle_since i \<noteq> None) (pl_isolates load)))
       (length (pl_isolates load) - max_isolates (pl_limits load))"
  by (simp add: reclaim_def length_filter_enumerate)

section \<open>The warm-context rules\<close>

lemma warm_hit_SomeD:
  assumes "warm_hit cached wanted max_reuses = Some i"
  shows "i < length cached" "fst (cached ! i) = wanted" "snd (cached ! i) < max_reuses"
  using position_SomeD [OF assms [unfolded warm_hit_def]] by (auto split: prod.splits)

lemma superseded_neq: "superseded cached wanted \<Longrightarrow> cached \<noteq> wanted"
  by (cases "ck_env_updated_at wanted") (auto simp: superseded_def)

lemma cache_evict_Some_iff:
  "cache_evict last_used max_cached = Some i \<longleftrightarrow>
     max_cached \<le> length last_used \<and> i < length last_used \<and>
     (\<forall>j < length last_used. last_used ! i \<le> last_used ! j \<and> (j < i \<longrightarrow> last_used ! i < last_used ! j))"
proof -
  have "(\<exists>t. min_by_key snd (enumerate 0 last_used) = Some (i, t)) \<longleftrightarrow>
      i < length last_used \<and>
      (\<forall>j < length last_used. last_used ! i \<le> last_used ! j \<and> (j < i \<longrightarrow> last_used ! i < last_used ! j))"
    unfolding min_by_key_indexed [OF sorted_enumerate] by (auto simp: in_set_enumerate_eq)
  then show ?thesis by (auto simp: cache_evict_def)
qed

lemma cache_evict_None_iff:
  "cache_evict last_used max_cached = None \<longleftrightarrow> length last_used < max_cached \<or> last_used = []"
proof -
  have "enumerate 0 last_used = [] \<longleftrightarrow> last_used = []" by (cases last_used) auto
  then show ?thesis by (simp add: cache_evict_def)
qed

text \<open>Replacement among dated deployments of a worker is the lexicographic order on version and
  environment timestamp: a cached context is superseded exactly when the wanted deployment of the
  same worker has a newer version, or the same version and a newer environment.  In particular the
  wanted context itself and every newer deployment stay.\<close>

lemma superseded_dated:
  assumes "ck_env_updated_at cached = Some e" "ck_env_updated_at wanted = Some e'"
  shows "superseded cached wanted \<longleftrightarrow>
    ck_worker_id cached = ck_worker_id wanted \<and>
    (ck_version cached < ck_version wanted \<or> ck_version cached = ck_version wanted \<and> e < e')"
  using assms by (auto simp: superseded_def)

text \<open>A request without an environment timestamp still compares environments.  It never takes a
  cached context that has a timestamp, and it drops that context: every cached context of the same
  worker and version with a timestamp counts as superseded.\<close>

lemma undated_request_checks_env:
  assumes "ck_env_updated_at wanted = None"
    and "ck_env_updated_at key = Some e"
    and "ck_worker_id key = ck_worker_id wanted" "ck_version key = ck_version wanted"
  shows "warm_hit [(key, n)] wanted max_reuses = None \<and> superseded key wanted"
  using assms by (auto simp: warm_hit_def superseded_def)

text \<open>A context goes back to the cache exactly when the cache has room for any and a later
  request for the same deployment could take it: the new entry by itself is a warm hit.\<close>

lemma keep_context_iff_hit:
  "keep_context reuses max_reuses max_cached \<longleftrightarrow>
     max_cached > 0 \<and> warm_hit [(key, reuses)] key max_reuses = Some 0"
  by (auto simp: keep_context_def warm_hit_def)

end
