(* ===== verification/Async_Waiter.thy ===== *)
theory Async_Waiter
  imports Prelude
begin

text \<open>
  The fair queue of \<open>src/src/async_waiter.rs\<close>: a flag and a queue of wakers that serialise the
  polls of the requests that share one isolate.  A waker is identified by the task it wakes.  The
  interface that the event loops rely on is the locale \<open>turn_gate\<close>, interpreted on the model.
\<close>

section \<open>Model\<close>

type_synonym waker = nat

record async_waiter =
  aw_queue :: "waker list"
  aw_locked :: bool

definition async_waiter_new :: async_waiter where
  "async_waiter_new = \<lparr>aw_queue = [], aw_locked = False\<rparr>"

definition try_lock :: "waker \<Rightarrow> async_waiter \<Rightarrow> async_waiter \<times> bool" where
  "try_lock cx w =
     (if \<not> aw_locked w then (w\<lparr>aw_locked := True\<rparr>, True)
      else (w\<lparr>aw_queue := aw_queue w @ [cx]\<rparr>, False))"

definition unlock :: "async_waiter \<Rightarrow> async_waiter \<times> waker option" where
  "unlock w =
     (case aw_queue w of
        [] \<Rightarrow> (w\<lparr>aw_locked := False\<rparr>, None)
      | cx # rest \<Rightarrow> (w\<lparr>aw_locked := False, aw_queue := rest\<rparr>, Some cx))"

definition aw_is_free :: "async_waiter \<Rightarrow> bool" where
  "aw_is_free w = (\<not> aw_locked w)"

definition queue_len :: "async_waiter \<Rightarrow> nat" where
  "queue_len w = length (aw_queue w)"

text \<open>A history of calls on a gate: what was granted, registered and woken, in order.\<close>

datatype gate_call = TryLock waker | Unlock

record 's gate_history =
  gate :: 's
  granted :: "waker list"
  registered :: "waker list"
  woken :: "waker list"
  released :: nat

definition gate_call_step ::
    "(waker \<Rightarrow> 's \<Rightarrow> 's \<times> bool) \<Rightarrow> ('s \<Rightarrow> 's \<times> waker option) \<Rightarrow> gate_call \<Rightarrow> 's gate_history \<Rightarrow> 's gate_history"
  where
  "gate_call_step lock release c h =
     (case c of
        TryLock cx \<Rightarrow>
          (let (s, ok) = lock cx (gate h) in
           if ok then h\<lparr>gate := s, granted := granted h @ [cx]\<rparr>
           else h\<lparr>gate := s, registered := registered h @ [cx]\<rparr>)
      | Unlock \<Rightarrow>
          (let (s, next) = release (gate h) in
           h\<lparr>gate := s, released := Suc (released h),
             woken := woken h @ (case next of None \<Rightarrow> [] | Some cx \<Rightarrow> [cx])\<rparr>))"

definition gate_start :: "'s \<Rightarrow> 's gate_history" where
  "gate_start s = \<lparr>gate = s, granted = [], registered = [], woken = [], released = 0\<rparr>"

section \<open>The interface\<close>

text \<open>What the event loops rely on: a free gate grants the turn, a held gate queues the caller at
  the back, and a release frees the gate and wakes the caller at the front.\<close>

locale turn_gate =
  fixes lock :: "waker \<Rightarrow> 's \<Rightarrow> 's \<times> bool"
    and release :: "'s \<Rightarrow> 's \<times> waker option"
    and held :: "'s \<Rightarrow> bool"
    and waiting :: "'s \<Rightarrow> waker list"
  assumes lock_free: "\<not> held s \<Longrightarrow>
      snd (lock cx s) \<and> held (fst (lock cx s)) \<and> waiting (fst (lock cx s)) = waiting s"
    and lock_held: "held s \<Longrightarrow>
      \<not> snd (lock cx s) \<and> held (fst (lock cx s)) \<and> waiting (fst (lock cx s)) = waiting s @ [cx]"
    and release_law: "\<not> held (fst (release s)) \<and>
      waiting s = (case snd (release s) of None \<Rightarrow> [] | Some cx \<Rightarrow> [cx]) @ waiting (fst (release s))"
begin

lemma step_fifo:
  assumes "registered h = woken h @ waiting (gate h)"
  shows "registered (gate_call_step lock release c h) =
    woken (gate_call_step lock release c h) @ waiting (gate (gate_call_step lock release c h))"
proof (cases c)
  case (TryLock cx)
  then show ?thesis
    using assms lock_free [of "gate h" cx] lock_held [of "gate h" cx]
    by (cases "held (gate h)") (auto simp: gate_call_step_def split: prod.splits)
next
  case Unlock
  then show ?thesis
    using assms release_law [of "gate h"]
    by (auto simp: gate_call_step_def split: prod.splits)
qed

lemma run_fifo:
  assumes "waiting s = []"
  shows "registered (fold (gate_call_step lock release) cs (gate_start s)) =
    woken (fold (gate_call_step lock release) cs (gate_start s)) @
    waiting (gate (fold (gate_call_step lock release) cs (gate_start s)))"
  using assms
  by (induction cs rule: rev_induct) (auto simp: gate_start_def intro: step_fifo)

text \<open>A caller that releases only while it holds: the calls of the event loops, each of which pairs
  one granted lock with one release.\<close>

lemma step_exclusive:
  assumes "length (granted h) = released h + (if held (gate h) then 1 else 0)"
    and "c = Unlock \<longrightarrow> held (gate h)"
  shows "length (granted (gate_call_step lock release c h)) =
    released (gate_call_step lock release c h) +
    (if held (gate (gate_call_step lock release c h)) then 1 else 0)"
proof (cases c)
  case (TryLock cx)
  then show ?thesis
    using assms lock_free [of "gate h" cx] lock_held [of "gate h" cx]
    by (cases "held (gate h)") (auto simp: gate_call_step_def split: prod.splits)
next
  case Unlock
  then show ?thesis
    using assms release_law [of "gate h"]
    by (auto simp: gate_call_step_def split: prod.splits)
qed

end

interpretation fair: turn_gate try_lock unlock aw_locked aw_queue
  by unfold_locales (auto simp: try_lock_def unlock_def split: list.splits)

section \<open>Properties\<close>

definition waiter_history :: "gate_call list \<Rightarrow> async_waiter gate_history" where
  "waiter_history cs = fold (gate_call_step try_lock unlock) cs (gate_start async_waiter_new)"

text \<open>Calls in which every release is made by the current holder.\<close>

fun disciplined :: "gate_call list \<Rightarrow> async_waiter gate_history \<Rightarrow> bool" where
  "disciplined [] h = True"
| "disciplined (c # cs) h =
     ((c = Unlock \<longrightarrow> aw_locked (gate h)) \<and> disciplined cs (gate_call_step try_lock unlock c h))"

lemma disciplined_exclusive:
  assumes "disciplined cs h" "length (granted h) = released h + (if aw_locked (gate h) then 1 else 0)"
  shows "length (granted (fold (gate_call_step try_lock unlock) cs h)) =
    released (fold (gate_call_step try_lock unlock) cs h) +
    (if aw_locked (gate (fold (gate_call_step try_lock unlock) cs h)) then 1 else 0)"
  using assms
proof (induction cs arbitrary: h)
  case (Cons c cs)
  then show ?case using fair.step_exclusive [of h c] by simp
qed simp

text \<open>The waiters are woken in the order in which they registered.  After any sequence of calls
  the wakers registered so far are the woken ones followed by the ones still in the queue.\<close>

lemma wake_order_fifo:
  "registered (waiter_history cs) = woken (waiter_history cs) @ aw_queue (gate (waiter_history cs))"
  unfolding waiter_history_def by (rule fair.run_fifo) (simp add: async_waiter_new_def)

text \<open>At most one request has the turn.  As long as only the holder releases, the turns granted
  so far exceed the turns released by one while the gate is locked, and are equal to them while it
  is free.\<close>

lemma turn_exclusive:
  assumes "disciplined cs (gate_start async_waiter_new)"
  shows "length (granted (waiter_history cs)) =
    released (waiter_history cs) + (if aw_locked (gate (waiter_history cs)) then 1 else 0)"
  unfolding waiter_history_def
  using assms by (intro disciplined_exclusive) (simp_all add: gate_start_def async_waiter_new_def)

end
