(* ===== verification/Concurrency_State.thy ===== *)
theory Concurrency_State
  imports Async_Waiter
begin

text \<open>
  The slots of one isolate, \<open>ConcurrencyState\<close> of \<open>src/src/pool.rs\<close>: a counter at machine width, its
  ceiling and, above one slot, the fair queue.  The counter is taken by a compare-and-exchange loop.
  The loop is modelled twice: as the function a caller sees, and as a step relation of threads that
  interleave their loads, exchanges and releases.  The relation is shown to keep the counter equal
  to the number of holders, and a thread that runs alone to end as the function says.
\<close>

section \<open>Model\<close>

record concurrency_state =
  cs_active :: usize
  cs_max_concurrent :: usize
  cs_async_waiter :: "async_waiter option"

definition concurrency_new :: "usize \<Rightarrow> concurrency_state" where
  "concurrency_new max_concurrent =
     \<lparr>cs_active = 0, cs_max_concurrent = max_concurrent,
      cs_async_waiter = (if max_concurrent > 1 then Some async_waiter_new else None)\<rparr>"

definition cs_try_acquire :: "concurrency_state \<Rightarrow> concurrency_state \<times> bool" where
  "cs_try_acquire c =
     (if cs_active c \<ge> cs_max_concurrent c then (c, False)
      else (c\<lparr>cs_active := cs_active c + 1\<rparr>, True))"

definition cs_release :: "concurrency_state \<Rightarrow> concurrency_state" where
  "cs_release c = c\<lparr>cs_active := cs_active c - 1\<rparr>"

definition cs_is_free :: "concurrency_state \<Rightarrow> bool" where
  "cs_is_free c = (cs_active c = 0)"

definition cs_has_capacity :: "concurrency_state \<Rightarrow> bool" where
  "cs_has_capacity c = (cs_active c < cs_max_concurrent c)"

section \<open>The loop, interleaved\<close>

text \<open>Where a thread stands in \<open>try_acquire\<close>: about to load, about to exchange the value it loaded,
  holding a slot, or refused.\<close>

datatype cas_pc = Loading | Exchanging usize | Holding | Refused

record cas_system =
  cas_active :: usize
  cas_threads :: "cas_pc list"

inductive cas_step :: "usize \<Rightarrow> cas_system \<Rightarrow> cas_system \<Rightarrow> bool" for limit :: usize where
  cas_full: "\<lbrakk>t < length (cas_threads s); cas_threads s ! t = Loading; cas_active s \<ge> limit\<rbrakk>
    \<Longrightarrow> cas_step limit s (s\<lparr>cas_threads := (cas_threads s)[t := Refused]\<rparr>)"
| cas_load: "\<lbrakk>t < length (cas_threads s); cas_threads s ! t = Loading; cas_active s < limit\<rbrakk>
    \<Longrightarrow> cas_step limit s (s\<lparr>cas_threads := (cas_threads s)[t := Exchanging (cas_active s)]\<rparr>)"
| cas_success: "\<lbrakk>t < length (cas_threads s); cas_threads s ! t = Exchanging current; cas_active s = current\<rbrakk>
    \<Longrightarrow> cas_step limit s (s\<lparr>cas_active := current + 1, cas_threads := (cas_threads s)[t := Holding]\<rparr>)"
| cas_failure: "\<lbrakk>t < length (cas_threads s); cas_threads s ! t = Exchanging current\<rbrakk>
    \<Longrightarrow> cas_step limit s (s\<lparr>cas_threads := (cas_threads s)[t := Loading]\<rparr>)"
| cas_release: "\<lbrakk>t < length (cas_threads s); cas_threads s ! t = Holding\<rbrakk>
    \<Longrightarrow> cas_step limit s (s\<lparr>cas_active := cas_active s - 1, cas_threads := (cas_threads s)[t := Loading]\<rparr>)"
| cas_retry: "\<lbrakk>t < length (cas_threads s); cas_threads s ! t = Refused\<rbrakk>
    \<Longrightarrow> cas_step limit s (s\<lparr>cas_threads := (cas_threads s)[t := Loading]\<rparr>)"

definition cas_start :: "nat \<Rightarrow> cas_system" where
  "cas_start n = \<lparr>cas_active = 0, cas_threads = replicate n Loading\<rparr>"

definition holders :: "cas_pc list \<Rightarrow> nat" where
  "holders ts = length (filter ((=) Holding) ts)"

definition cas_inv :: "usize \<Rightarrow> cas_system \<Rightarrow> bool" where
  "cas_inv limit s \<longleftrightarrow>
     unat (cas_active s) = holders (cas_threads s) \<and> cas_active s \<le> limit \<and>
     (\<forall>current. Exchanging current \<in> set (cas_threads s) \<longrightarrow> current < limit)"

section \<open>Slots\<close>

lemma try_acquire_Some_iff: "snd (cs_try_acquire c) \<longleftrightarrow> cs_has_capacity c"
  by (auto simp: cs_try_acquire_def cs_has_capacity_def)

lemma holders_update:
  "t < length ts \<Longrightarrow>
    holders (ts[t := x]) + (if ts ! t = Holding then 1 else 0) = holders ts + (if x = Holding then 1 else 0)"
  using length_filter_update [of t ts "(=) Holding" x] by (auto simp: holders_def eq_commute)

lemma Exchanging_update:
  "Exchanging c \<in> set (ts[t := x]) \<Longrightarrow> x = Exchanging c \<or> Exchanging c \<in> set ts"
  using set_update_subset_insert [of ts t x] by auto

lemma cas_inv_move:
  assumes "cas_inv limit s" "t < length (cas_threads s)" "cas_threads s ! t \<noteq> Holding"
    and "x \<noteq> Holding" "\<forall>current. x = Exchanging current \<longrightarrow> current < limit"
  shows "cas_inv limit (s\<lparr>cas_threads := (cas_threads s)[t := x]\<rparr>)"
  using assms holders_update [of t "cas_threads s" x]
  by (auto simp: cas_inv_def dest!: Exchanging_update)

lemma cas_step_inv:
  assumes "cas_step limit s s'" "cas_inv limit s"
  shows "cas_inv limit s'"
  using assms
proof (induction rule: cas_step.induct)
  case (cas_success t s current)
  then have "current < limit" by (auto simp: cas_inv_def dest: nth_mem)
  with cas_success show ?case
    using holders_update [of t "cas_threads s" Holding]
    by (auto simp: cas_inv_def unat_plus_1_less plus_1_le dest!: Exchanging_update)
next
  case (cas_release t s)
  then have "Holding \<in> set (cas_threads s)" by (auto dest: nth_mem)
  then have "holders (cas_threads s) \<noteq> 0" by (auto simp: holders_def filter_empty_conv)
  with cas_release have "cas_active s \<noteq> 0" by (auto simp: cas_inv_def)
  with cas_release show ?case
    using holders_update [of t "cas_threads s" Loading]
    by (auto simp: cas_inv_def unat_minus_1_pos minus_1_le dest!: Exchanging_update)
qed (auto intro: cas_inv_move)

lemma cas_start_inv: "cas_inv limit (cas_start n)"
  by (auto simp: cas_inv_def cas_start_def holders_def)

lemma cas_reach_inv: "(cas_step limit)\<^sup>*\<^sup>* (cas_start n) s \<Longrightarrow> cas_inv limit s"
  by (induction rule: rtranclp_induct) (auto intro: cas_step_inv cas_start_inv)

text \<open>However the threads interleave, an isolate never serves more requests than its ceiling.
  In every state that any number of threads reach by loads, exchanges (which may fail spuriously)
  and releases, the counter equals the number of threads that hold a slot and is at most the
  ceiling, so it never wraps.\<close>

lemma slots_never_exceeded:
  assumes "(cas_step limit)\<^sup>*\<^sup>* (cas_start n) s"
  shows "unat (cas_active s) = holders (cas_threads s) \<and> holders (cas_threads s) \<le> unat limit"
  using cas_reach_inv [OF assms] by (auto simp: cas_inv_def word_le_nat_alt)

text \<open>A thread that runs alone from the load on ends as \<open>cs_try_acquire\<close> says.\<close>

lemma cas_alone:
  "(cas_step (cs_max_concurrent c))\<^sup>*\<^sup>* \<lparr>cas_active = cs_active c, cas_threads = [Loading]\<rparr>
     \<lparr>cas_active = cs_active (fst (cs_try_acquire c)),
      cas_threads = [if snd (cs_try_acquire c) then Holding else Refused]\<rparr>"
proof (cases "cs_active c \<ge> cs_max_concurrent c")
  case True
  then show ?thesis
    using cas_full [of 0 "\<lparr>cas_active = cs_active c, cas_threads = [Loading]\<rparr>" "cs_max_concurrent c"]
    by (auto simp: cs_try_acquire_def)
next
  case False
  let ?s1 = "\<lparr>cas_active = cs_active c, cas_threads = [Exchanging (cs_active c)]\<rparr>"
  from False have "cas_step (cs_max_concurrent c) \<lparr>cas_active = cs_active c, cas_threads = [Loading]\<rparr> ?s1"
    using cas_load [of 0 "\<lparr>cas_active = cs_active c, cas_threads = [Loading]\<rparr>" "cs_max_concurrent c"]
    by simp
  moreover have "cas_step (cs_max_concurrent c) ?s1 \<lparr>cas_active = cs_active c + 1, cas_threads = [Holding]\<rparr>"
    using cas_success [of 0 ?s1 "cs_active c" "cs_max_concurrent c"] by simp
  ultimately show ?thesis
    using False by (auto simp: cs_try_acquire_def)
qed

end
