(* ===== verification/Pool.thy ===== *)
theory Pool
  imports Pool_Policy Concurrency_State
begin

text \<open>
  The isolate pool of \<open>src/src/pool.rs\<close> and the types of \<open>src/src/pool_common.rs\<close>.  A thread-local
  pool is a list of references to isolates; the isolates are shared between the pool and the
  requests that run on them, so they live in a heap indexed by the references.  What V8 does with a
  request (the reset of a warm context, the creation of a new one, the run and its drain) is an
  argument of the model.  A failed \<open>assert!\<close> or \<open>expect\<close> is the value None.
\<close>

section \<open>Data\<close>

record pinned_pool_config =
  pc_max_per_thread :: nat
  pc_max_per_owner :: "nat option"
  pc_max_concurrent_per_isolate :: usize
  pc_max_cached_contexts :: nat
  pc_overcommit :: bool
  pc_max_context_reuses :: u32

record pinned_execute_request =
  rq_owner_id :: string
  rq_worker_id :: string
  rq_version :: int
  rq_env_updated_at :: "int option"
  rq_ops :: nat

record cached_context =
  cc_request :: nat
  cc_worker_id :: string
  cc_version :: int
  cc_reuse_count :: u32
  cc_last_used :: instant
  cc_ops :: nat
  cc_env_updated_at :: "int option"

record tagged_isolate =
  ti_owner_id :: string
  ti_concurrency :: concurrency_state
  ti_inner_locked :: bool
  ti_cached_contexts :: "cached_context list"
  ti_max_cached :: nat
  ti_created_at :: instant
  ti_last_used :: instant
  ti_total_requests :: u64

type_synonym isolate_ref = nat

record thread_local_pool =
  tlp_isolates :: "isolate_ref list"
  tlp_policy :: pool_limits
  tlp_heap :: "tagged_isolate list"

record local_pool_stats =
  st_total :: nat
  st_in_use :: nat
  st_cached_contexts :: nat
  st_capacity :: nat

section \<open>One isolate\<close>

definition tagged_isolate_new :: "string \<Rightarrow> usize \<Rightarrow> nat \<Rightarrow> instant \<Rightarrow> tagged_isolate" where
  "tagged_isolate_new owner max_concurrent max_cached now =
     \<lparr>ti_owner_id = owner, ti_concurrency = concurrency_new max_concurrent, ti_inner_locked = False,
      ti_cached_contexts = [], ti_max_cached = max_cached, ti_created_at = now, ti_last_used = now,
      ti_total_requests = 0\<rparr>"

definition ti_try_acquire :: "tagged_isolate \<Rightarrow> tagged_isolate option" where
  "ti_try_acquire ti =
     (let (c, ok) = cs_try_acquire (ti_concurrency ti) in
      if ok then Some (ti\<lparr>ti_concurrency := c\<rparr>) else None)"

definition ti_release :: "tagged_isolate \<Rightarrow> tagged_isolate" where
  "ti_release ti = ti\<lparr>ti_concurrency := cs_release (ti_concurrency ti)\<rparr>"

definition ti_is_free :: "tagged_isolate \<Rightarrow> bool" where
  "ti_is_free ti = cs_is_free (ti_concurrency ti)"

definition ti_load :: "tagged_isolate \<Rightarrow> isolate_load" where
  "ti_load ti =
     \<lparr>il_owner = ti_owner_id ti, il_has_capacity = cs_has_capacity (ti_concurrency ti),
      il_idle_since =
        (if ti_is_free ti then (if ti_inner_locked ti then None else Some (ti_last_used ti)) else None)\<rparr>"

definition ti_drop :: "tagged_isolate \<Rightarrow> tagged_isolate" where
  "ti_drop ti = (if ti_inner_locked ti then ti else ti\<lparr>ti_cached_contexts := []\<rparr>)"

section \<open>The thread-local pool\<close>

definition tlp_new :: "pool_limits \<Rightarrow> thread_local_pool" where
  "tlp_new policy = \<lparr>tlp_isolates = [], tlp_policy = policy, tlp_heap = []\<rparr>"

definition tlp_load :: "thread_local_pool \<Rightarrow> pool_load" where
  "tlp_load p =
     \<lparr>pl_isolates = map (\<lambda>r. ti_load (tlp_heap p ! r)) (tlp_isolates p), pl_limits = tlp_policy p\<rparr>"

definition tlp_build ::
    "pinned_pool_config \<Rightarrow> instant \<Rightarrow> string \<Rightarrow> thread_local_pool \<Rightarrow> (thread_local_pool \<times> isolate_ref) option"
  where
  "tlp_build config now owner p =
     (case ti_try_acquire (tagged_isolate_new owner (pc_max_concurrent_per_isolate config)
             (pc_max_cached_contexts config) now) of
        None \<Rightarrow> None
      | Some ti \<Rightarrow>
          Some (p\<lparr>tlp_isolates := tlp_isolates p @ [length (tlp_heap p)],
                  tlp_heap := tlp_heap p @ [ti]\<rparr>, length (tlp_heap p)))"

text \<open>\<open>isolates.remove(index)\<close>, whose result is dropped.\<close>

definition tlp_remove :: "nat \<Rightarrow> thread_local_pool \<Rightarrow> thread_local_pool" where
  "tlp_remove index p =
     (let r = tlp_isolates p ! index in
      p\<lparr>tlp_isolates := remove_at index (tlp_isolates p),
        tlp_heap := (tlp_heap p)[r := ti_drop (tlp_heap p ! r)]\<rparr>)"

definition tlp_acquire ::
    "pinned_pool_config \<Rightarrow> instant \<Rightarrow> string \<Rightarrow> thread_local_pool \<Rightarrow>
       (thread_local_pool \<times> (refusal, isolate_ref \<times> bool) result) option"
  where
  "tlp_acquire config now owner p =
     (let miss = map_option (\<lambda>(p', r). (p', Ok (r, False))) in
      case acquire (tlp_load p) owner of
        Reuse index \<Rightarrow>
          (let r = tlp_isolates p ! index in
           case ti_try_acquire (tlp_heap p ! r) of
             None \<Rightarrow> None
           | Some ti \<Rightarrow> Some (p\<lparr>tlp_heap := (tlp_heap p)[r := ti]\<rparr>, Ok (r, True)))
      | Build \<Rightarrow> miss (tlp_build config now owner p)
      | Evict index \<Rightarrow> miss (tlp_build config now owner (tlp_remove index p))
      | Overcommit \<Rightarrow> miss (tlp_build config now owner p)
      | Refuse refusal \<Rightarrow> Some (p, Err refusal))"

definition tlp_reclaim :: "thread_local_pool \<Rightarrow> thread_local_pool" where
  "tlp_reclaim p = fold tlp_remove (rev (reclaim (tlp_load p))) p"

definition tlp_stats :: "thread_local_pool \<Rightarrow> local_pool_stats" where
  "tlp_stats p =
     (let tis = map ((!) (tlp_heap p)) (tlp_isolates p) in
      \<lparr>st_total = length tis,
       st_in_use = length (filter (\<lambda>ti. \<not> ti_is_free ti) tis),
       st_cached_contexts =
         sum_list (map (\<lambda>ti. length (ti_cached_contexts ti)) (filter (\<lambda>ti. \<not> ti_inner_locked ti) tis)),
       st_capacity = max_isolates (tlp_policy p)\<rparr>)"

text \<open>\<open>release_to_local_pool\<close>: the slot goes back, then the isolates past the ceiling that are now
  idle go.\<close>

definition tlp_release :: "isolate_ref \<Rightarrow> thread_local_pool \<Rightarrow> thread_local_pool" where
  "tlp_release r p = tlp_reclaim (p\<lparr>tlp_heap := (tlp_heap p)[r := ti_release (tlp_heap p ! r)]\<rparr>)"

section \<open>Warm contexts of an isolate\<close>

definition cached_key :: "cached_context \<Rightarrow> context_key" where
  "cached_key c =
     \<lparr>ck_worker_id = cc_worker_id c, ck_version = cc_version c, ck_env_updated_at = cc_env_updated_at c\<rparr>"

definition wanted_key :: "pinned_execute_request \<Rightarrow> context_key" where
  "wanted_key req =
     \<lparr>ck_worker_id = rq_worker_id req, ck_version = rq_version req, ck_env_updated_at = rq_env_updated_at req\<rparr>"

text \<open>The loop over \<open>idx\<close> that moves superseded contexts out with \<open>swap_remove\<close>.\<close>

function superseded_loop ::
    "context_key \<Rightarrow> nat \<Rightarrow> cached_context list \<Rightarrow> cached_context list \<Rightarrow> cached_context list \<times> cached_context list"
  where
  "superseded_loop wanted idx cached gone =
     (if idx < length cached then
        (if superseded (cached_key (cached ! idx)) wanted
         then superseded_loop wanted idx (swap_remove idx cached) (gone @ [cached ! idx])
         else superseded_loop wanted (Suc idx) cached gone)
      else (cached, gone))"
  by pat_completeness auto

termination
  by (relation "measure (\<lambda>(wanted, idx, cached, gone). length cached - idx)") auto

text \<open>The bookkeeping of a request under the inner lock: counters, the warm context to take, the
  superseded ones to drop.\<close>

definition checkout ::
    "pinned_pool_config \<Rightarrow> pinned_execute_request \<Rightarrow> instant \<Rightarrow> tagged_isolate \<Rightarrow>
       tagged_isolate \<times> cached_context option \<times> cached_context list"
  where
  "checkout config req now ti =
     (let ti = ti\<lparr>ti_total_requests := ti_total_requests ti + 1, ti_last_used := now\<rparr>;
          keys = map (\<lambda>c. (cached_key c, cc_reuse_count c)) (ti_cached_contexts ti);
          found = warm_hit keys (wanted_key req) (pc_max_context_reuses config);
          hit = map_option (\<lambda>idx. ti_cached_contexts ti ! idx) found;
          rest = swap_remove_opt found (ti_cached_contexts ti);
          (kept, gone) = superseded_loop (wanted_key req) 0 rest []
      in (ti\<lparr>ti_cached_contexts := kept\<rparr>, hit, gone))"

text \<open>Saving a context: make room if the cache is full, then push.\<close>

definition save_context :: "cached_context \<Rightarrow> tagged_isolate \<Rightarrow> tagged_isolate" where
  "save_context c ti =
     (let cached = ti_cached_contexts ti;
          room = swap_remove_opt (cache_evict (map cc_last_used cached) (ti_max_cached ti)) cached
      in ti\<lparr>ti_cached_contexts := room @ [c]\<rparr>)"

section \<open>Executing a request\<close>

text \<open>What V8 answers in the course of one request: the reset of a warm context, the creation of a
  new context (with its identity), the run of the event and the drain of its background work.\<close>

record run_outcome =
  ro_reset :: "(string, unit) result"
  ro_new :: "(termination_reason, nat) result"
  ro_exec :: "(termination_reason, unit) result"
  ro_drain :: "(termination_reason, unit) result"

text \<open>The warm path: the context to save, if any, and the result.\<close>

definition warm_path ::
    "pinned_pool_config \<Rightarrow> instant \<Rightarrow> run_outcome \<Rightarrow> cached_context \<Rightarrow>
       cached_context option \<times> (termination_reason, unit) result"
  where
  "warm_path config now out c =
     (let reuse_cnt = cc_reuse_count c + 1;
          save_to_cache =
            (if is_err (ro_exec out) then False
             else if is_err (ro_drain out) then False
             else keep_context reuse_cnt (pc_max_context_reuses config) (pc_max_cached_contexts config))
      in (if save_to_cache then Some (c\<lparr>cc_reuse_count := reuse_cnt, cc_last_used := now\<rparr>) else None,
          ro_exec out))"

text \<open>The cold path.\<close>

definition cold_path ::
    "pinned_pool_config \<Rightarrow> pinned_execute_request \<Rightarrow> instant \<Rightarrow> run_outcome \<Rightarrow>
       cached_context option \<times> (termination_reason, unit) result"
  where
  "cold_path config req now out =
     (case ro_new out of
        Inl e \<Rightarrow> (None, Err e)
      | Inr ctx \<Rightarrow>
          (let result = ro_exec out;
               keep = keep_context 1 (pc_max_context_reuses config) (pc_max_cached_contexts config)
           in if is_ok result then
                (case ro_drain out of
                   Inr _ \<Rightarrow>
                     if \<not> keep then (None, result)
                     else (Some \<lparr>cc_request = ctx, cc_worker_id = rq_worker_id req, cc_version = rq_version req,
                                 cc_reuse_count = 1, cc_last_used = now, cc_ops = rq_ops req,
                                 cc_env_updated_at = rq_env_updated_at req\<rparr>, result)
                 | Inl _ \<Rightarrow> (None, Ok ()))
              else (None, result)))"

text \<open>A request whose warm context fails to reset takes the cold path.\<close>

definition run_request ::
    "pinned_pool_config \<Rightarrow> pinned_execute_request \<Rightarrow> instant \<Rightarrow> run_outcome \<Rightarrow> cached_context option \<Rightarrow>
       cached_context option \<times> (termination_reason, unit) result"
  where
  "run_request config req now out hit =
     (case hit of
        Some c \<Rightarrow> (if is_ok (ro_reset out) then warm_path config now out c else cold_path config req now out)
      | None \<Rightarrow> cold_path config req now out)"

section \<open>The process\<close>

record pool_world =
  POOL_CONFIG :: "pinned_pool_config option"
  LOCAL_POOL :: "thread_local_pool option"
  TOTAL_REQUESTS :: usize
  CACHE_HITS :: usize
  CACHE_MISSES :: usize

definition pool_world_new :: pool_world where
  "pool_world_new =
     \<lparr>POOL_CONFIG = None, LOCAL_POOL = None, TOTAL_REQUESTS = 0, CACHE_HITS = 0, CACHE_MISSES = 0\<rparr>"

definition init_pinned_pool :: "pinned_pool_config \<Rightarrow> pool_world \<Rightarrow> pool_world option" where
  "init_pinned_pool config w =
     (if \<not> (pc_max_concurrent_per_isolate config \<ge> 1) then None
      else (case POOL_CONFIG w of
              None \<Rightarrow> Some (w\<lparr>POOL_CONFIG := Some config\<rparr>)
            | Some _ \<Rightarrow> Some w))"

definition config_policy :: "pinned_pool_config \<Rightarrow> pool_limits" where
  "config_policy config =
     \<lparr>max_isolates = pc_max_per_thread config, max_per_owner = pc_max_per_owner config,
      overcommit = pc_overcommit config\<rparr>"

definition ensure_pool_initialized :: "pool_world \<Rightarrow> pool_world option" where
  "ensure_pool_initialized w =
     (case LOCAL_POOL w of
        Some _ \<Rightarrow> Some w
      | None \<Rightarrow> (case POOL_CONFIG w of
                   None \<Rightarrow> None
                 | Some config \<Rightarrow> Some (w\<lparr>LOCAL_POOL := Some (tlp_new (config_policy config))\<rparr>)))"

text \<open>The synchronous start of \<open>execute_pinned\<close>, up to the first await: count the request, take an
  isolate or report the refusal.\<close>

definition execute_start ::
    "pinned_execute_request \<Rightarrow> instant \<Rightarrow> pool_world \<Rightarrow>
       (pool_world \<times> (termination_reason, isolate_ref) result) option"
  where
  "execute_start req now w0 =
     (case ensure_pool_initialized (w0\<lparr>TOTAL_REQUESTS := TOTAL_REQUESTS w0 + 1\<rparr>) of
        None \<Rightarrow> None
      | Some w \<Rightarrow>
          (case (POOL_CONFIG w, LOCAL_POOL w) of
             (Some config, Some p) \<Rightarrow>
               (case tlp_acquire config now (rq_owner_id req) p of
                  None \<Rightarrow> None
                | Some (p', Inl refusal) \<Rightarrow>
                    Some (w\<lparr>LOCAL_POOL := Some p'\<rparr>, Err (Other (message refusal)))
                | Some (p', Inr (r, is_hit)) \<Rightarrow>
                    Some (if is_hit then w\<lparr>LOCAL_POOL := Some p', CACHE_HITS := CACHE_HITS w + 1\<rparr>
                          else w\<lparr>LOCAL_POOL := Some p', CACHE_MISSES := CACHE_MISSES w + 1\<rparr>, Ok r))
           | _ \<Rightarrow> None))"

text \<open>The section under the inner lock, and the end of the request: save, then release.\<close>

definition execute_checkout ::
    "pinned_pool_config \<Rightarrow> pinned_execute_request \<Rightarrow> instant \<Rightarrow> isolate_ref \<Rightarrow> thread_local_pool \<Rightarrow>
       thread_local_pool \<times> cached_context option"
  where
  "execute_checkout config req now r p =
     (let (ti, hit, gone) = checkout config req now (tlp_heap p ! r)
      in (p\<lparr>tlp_heap := (tlp_heap p)[r := ti]\<rparr>, hit))"

definition execute_finish ::
    "pinned_pool_config \<Rightarrow> pinned_execute_request \<Rightarrow> instant \<Rightarrow> run_outcome \<Rightarrow> isolate_ref \<Rightarrow>
       cached_context option \<Rightarrow> thread_local_pool \<Rightarrow> thread_local_pool \<times> (termination_reason, unit) result"
  where
  "execute_finish config req now out r hit p =
     (let (save, result) = run_request config req now out hit;
          p = (case save of
                 None \<Rightarrow> p
               | Some c \<Rightarrow> p\<lparr>tlp_heap := (tlp_heap p)[r := save_context c (tlp_heap p ! r)]\<rparr>)
      in (tlp_release r p, result))"

text \<open>\<open>execute_pinned\<close> run without another request in between.\<close>

definition execute_pinned ::
    "pinned_execute_request \<Rightarrow> instant \<Rightarrow> run_outcome \<Rightarrow> pool_world \<Rightarrow>
       (pool_world \<times> (termination_reason, unit) result) option"
  where
  "execute_pinned req now out w =
     (case execute_start req now w of
        None \<Rightarrow> None
      | Some (w, Inl e) \<Rightarrow> Some (w, Err e)
      | Some (w, Inr r) \<Rightarrow>
          (case (POOL_CONFIG w, LOCAL_POOL w) of
             (Some config, Some p) \<Rightarrow>
               (let (p, hit) = execute_checkout config req now r p;
                    (p, result) = execute_finish config req now out r hit p
                in Some (w\<lparr>LOCAL_POOL := Some p\<rparr>, result))
           | _ \<Rightarrow> None))"

section \<open>Requests interleaved\<close>

text \<open>Where a request stands between its awaits: it has a slot and waits for the inner lock, it runs
  with the warm context it took, or it is over.  A caller that drops the future in an await leaves it
  \<open>Dropped\<close>: nothing of it runs any more, and no destructor gives its slot back.\<close>

datatype pool_task =
    AwaitingInner pinned_execute_request isolate_ref
  | Running pinned_execute_request isolate_ref "cached_context option"
  | Finished "(termination_reason, unit) result"
  | Dropped pinned_execute_request isolate_ref

record pool_sys =
  ps_world :: pool_world
  ps_tasks :: "pool_task list"

inductive pool_step :: "pool_sys \<Rightarrow> pool_sys \<Rightarrow> bool" where
  ps_start: "execute_start req now (ps_world s) = Some (w, Inr r)
    \<Longrightarrow> pool_step s \<lparr>ps_world = w, ps_tasks = ps_tasks s @ [AwaitingInner req r]\<rparr>"
| ps_refuse: "execute_start req now (ps_world s) = Some (w, Inl e)
    \<Longrightarrow> pool_step s \<lparr>ps_world = w, ps_tasks = ps_tasks s @ [Finished (Err e)]\<rparr>"
| ps_checkout: "\<lbrakk>t < length (ps_tasks s); ps_tasks s ! t = AwaitingInner req r;
      POOL_CONFIG (ps_world s) = Some config; LOCAL_POOL (ps_world s) = Some p;
      execute_checkout config req now r p = (p', hit)\<rbrakk>
    \<Longrightarrow> pool_step s \<lparr>ps_world = (ps_world s)\<lparr>LOCAL_POOL := Some p'\<rparr>,
                      ps_tasks = (ps_tasks s)[t := Running req r hit]\<rparr>"
| ps_finish: "\<lbrakk>t < length (ps_tasks s); ps_tasks s ! t = Running req r hit;
      POOL_CONFIG (ps_world s) = Some config; LOCAL_POOL (ps_world s) = Some p;
      execute_finish config req now out r hit p = (p', result)\<rbrakk>
    \<Longrightarrow> pool_step s \<lparr>ps_world = (ps_world s)\<lparr>LOCAL_POOL := Some p'\<rparr>,
                      ps_tasks = (ps_tasks s)[t := Finished result]\<rparr>"
| ps_drop: "\<lbrakk>t < length (ps_tasks s); ps_tasks s ! t = AwaitingInner req r \<or> ps_tasks s ! t = Running req r hit\<rbrakk>
    \<Longrightarrow> pool_step s (s\<lparr>ps_tasks := (ps_tasks s)[t := Dropped req r]\<rparr>)"

definition pool_sys_start :: "pinned_pool_config \<Rightarrow> pool_sys" where
  "pool_sys_start config = \<lparr>ps_world = pool_world_new\<lparr>POOL_CONFIG := Some config\<rparr>, ps_tasks = []\<rparr>"

fun task_isolate :: "pool_task \<Rightarrow> isolate_ref option" where
  "task_isolate (AwaitingInner req r) = Some r"
| "task_isolate (Running req r hit) = Some r"
| "task_isolate (Finished result) = None"
| "task_isolate (Dropped req r) = Some r"

fun task_owner :: "pool_task \<Rightarrow> string option" where
  "task_owner (AwaitingInner req r) = Some (rq_owner_id req)"
| "task_owner (Running req r hit) = Some (rq_owner_id req)"
| "task_owner (Finished result) = None"
| "task_owner (Dropped req r) = Some (rq_owner_id req)"

definition users :: "pool_task list \<Rightarrow> isolate_ref \<Rightarrow> nat" where
  "users ts r = length (filter (\<lambda>t. task_isolate t = Some r) ts)"

definition busy :: "thread_local_pool \<Rightarrow> nat" where
  "busy p = length (filter (\<lambda>r. \<not> ti_is_free (tlp_heap p ! r)) (tlp_isolates p))"

definition owned_in :: "thread_local_pool \<Rightarrow> string \<Rightarrow> nat" where
  "owned_in p owner = length (filter (\<lambda>r. ti_owner_id (tlp_heap p ! r) = owner) (tlp_isolates p))"

end
