(* ===== verification/Pool_Invariant.thy ===== *)
theory Pool_Invariant
  imports Pool
begin

text \<open>
  The invariant of the isolate pool and its preservation by every step of every request, in any
  interleaving.  \<open>pool_ok config n p\<close> says what holds of a pool \<open>p\<close> in which \<open>n r\<close> requests run on
  the isolate \<open>r\<close>: the slot counters count those requests, no isolate in use has left the pool, the
  pool respects its ceilings, and the warm caches respect theirs.
\<close>

section \<open>The invariant\<close>

definition iso_ok :: "pinned_pool_config \<Rightarrow> nat \<Rightarrow> tagged_isolate \<Rightarrow> bool" where
  "iso_ok config n ti \<longleftrightarrow>
     unat (cs_active (ti_concurrency ti)) = n \<and>
     cs_active (ti_concurrency ti) \<le> cs_max_concurrent (ti_concurrency ti) \<and>
     cs_max_concurrent (ti_concurrency ti) = pc_max_concurrent_per_isolate config \<and>
     \<not> ti_inner_locked ti \<and>
     ti_max_cached ti = pc_max_cached_contexts config \<and>
     length (ti_cached_contexts ti) \<le> ti_max_cached ti \<and>
     (\<forall>c \<in> set (ti_cached_contexts ti). cc_reuse_count c < pc_max_context_reuses config)"

text \<open>Everything but the bound that \<open>reclaim\<close> restores after a release.\<close>

definition pool_core :: "pinned_pool_config \<Rightarrow> (isolate_ref \<Rightarrow> nat) \<Rightarrow> thread_local_pool \<Rightarrow> bool" where
  "pool_core config n p \<longleftrightarrow>
     distinct (tlp_isolates p) \<and>
     tlp_policy p = config_policy config \<and>
     (\<forall>r \<in> set (tlp_isolates p). r < length (tlp_heap p) \<and> iso_ok config (n r) (tlp_heap p ! r)) \<and>
     (\<forall>r. 0 < n r \<longrightarrow> r \<in> set (tlp_isolates p)) \<and>
     (\<forall>owner limit. pc_max_per_owner config = Some limit \<longrightarrow> owned_in p owner \<le> limit) \<and>
     (\<not> pc_overcommit config \<longrightarrow> length (tlp_isolates p) \<le> pc_max_per_thread config)"

definition pool_ok :: "pinned_pool_config \<Rightarrow> (isolate_ref \<Rightarrow> nat) \<Rightarrow> thread_local_pool \<Rightarrow> bool" where
  "pool_ok config n p \<longleftrightarrow>
     pool_core config n p \<and> length (tlp_isolates p) \<le> max (pc_max_per_thread config) (busy p)"

text \<open>The owner of an isolate never changes, and isolates are only ever added to the heap.\<close>

definition heap_grows :: "thread_local_pool \<Rightarrow> thread_local_pool \<Rightarrow> bool" where
  "heap_grows p p' \<longleftrightarrow>
     length (tlp_heap p) \<le> length (tlp_heap p') \<and>
     (\<forall>r < length (tlp_heap p). ti_owner_id (tlp_heap p' ! r) = ti_owner_id (tlp_heap p ! r))"

definition sys_inv :: "pinned_pool_config \<Rightarrow> pool_sys \<Rightarrow> bool" where
  "sys_inv config s \<longleftrightarrow>
     pc_max_concurrent_per_isolate config \<ge> 1 \<and>
     POOL_CONFIG (ps_world s) = Some config \<and>
     (case LOCAL_POOL (ps_world s) of
        None \<Rightarrow> \<forall>t \<in> set (ps_tasks s). task_isolate t = None
      | Some p \<Rightarrow>
          pool_ok config (users (ps_tasks s)) p \<and>
          (\<forall>t \<in> set (ps_tasks s). \<forall>r. task_isolate t = Some r \<longrightarrow>
             task_owner t = Some (ti_owner_id (tlp_heap p ! r))))"

section \<open>Isolates\<close>

lemma heap_grows_refl [simp]: "heap_grows p p"
  by (simp add: heap_grows_def)

lemma heap_grows_trans: "heap_grows p q \<Longrightarrow> heap_grows q r \<Longrightarrow> heap_grows p r"
  by (auto simp: heap_grows_def)

lemma ti_try_acquire_iff:
  "ti_try_acquire ti = Some ti' \<longleftrightarrow>
     cs_has_capacity (ti_concurrency ti) \<and>
     ti' = ti\<lparr>ti_concurrency := (ti_concurrency ti)\<lparr>cs_active := cs_active (ti_concurrency ti) + 1\<rparr>\<rparr>"
  by (auto simp: ti_try_acquire_def cs_try_acquire_def cs_has_capacity_def Let_def)

lemma ti_try_acquire_ok:
  assumes "iso_ok config n ti" "ti_try_acquire ti = Some ti'"
  shows "iso_ok config (Suc n) ti'" "\<not> ti_is_free ti'" "ti_owner_id ti' = ti_owner_id ti"
proof -
  have less: "cs_active (ti_concurrency ti) < cs_max_concurrent (ti_concurrency ti)"
    using assms by (simp add: ti_try_acquire_iff cs_has_capacity_def)
  show "iso_ok config (Suc n) ti'"
    using assms less by (simp add: ti_try_acquire_iff iso_ok_def unat_plus_1_less plus_1_le)
  have "unat (cs_active (ti_concurrency ti) + 1) \<noteq> 0"
    using less by (simp add: unat_plus_1_less)
  then show "\<not> ti_is_free ti'"
    using assms by (auto simp: ti_try_acquire_iff ti_is_free_def cs_is_free_def)
  show "ti_owner_id ti' = ti_owner_id ti"
    using assms by (simp add: ti_try_acquire_iff)
qed

lemma ti_release_ok:
  assumes "iso_ok config (Suc n) ti"
  shows "iso_ok config n (ti_release ti)"
proof -
  have "cs_active (ti_concurrency ti) \<noteq> 0" using assms by (auto simp: iso_ok_def)
  then show ?thesis
    using assms by (auto simp: ti_release_def cs_release_def iso_ok_def unat_minus_1_pos minus_1_le)
qed

lemma iso_ok_free_iff: "iso_ok config n ti \<Longrightarrow> ti_is_free ti \<longleftrightarrow> n = 0"
  by (auto simp: iso_ok_def ti_is_free_def cs_is_free_def unat_eq_0)

lemma ti_load_simps:
  assumes "iso_ok config n ti"
  shows "il_owner (ti_load ti) = ti_owner_id ti"
    and "il_has_capacity (ti_load ti) \<longleftrightarrow> cs_has_capacity (ti_concurrency ti)"
    and "il_idle_since (ti_load ti) = None \<longleftrightarrow> \<not> ti_is_free ti"
  using assms by (auto simp: ti_load_def iso_ok_def)

lemma new_isolate_ok:
  assumes "pc_max_concurrent_per_isolate config \<ge> 1"
  shows "iso_ok config 0
      (tagged_isolate_new owner (pc_max_concurrent_per_isolate config) (pc_max_cached_contexts config) now)"
    and "\<exists>ti. ti_try_acquire
      (tagged_isolate_new owner (pc_max_concurrent_per_isolate config) (pc_max_cached_contexts config) now) = Some ti"
  using assms
  by (auto simp: iso_ok_def tagged_isolate_new_def concurrency_new_def ti_try_acquire_iff
      cs_has_capacity_def word_less_nat_alt word_le_nat_alt)

section \<open>The pool\<close>

lemma pool_coreD:
  assumes "pool_core config n p"
  shows "distinct (tlp_isolates p)" "tlp_policy p = config_policy config"
    and "r \<in> set (tlp_isolates p) \<Longrightarrow> r < length (tlp_heap p)"
    and "r \<in> set (tlp_isolates p) \<Longrightarrow> iso_ok config (n r) (tlp_heap p ! r)"
    and "0 < n r \<Longrightarrow> r \<in> set (tlp_isolates p)"
    and "pc_max_per_owner config = Some limit \<Longrightarrow> owned_in p owner \<le> limit"
    and "\<not> pc_overcommit config \<Longrightarrow> length (tlp_isolates p) \<le> pc_max_per_thread config"
  using assms by (auto simp: pool_core_def)

lemma pool_okD:
  assumes "pool_ok config n p"
  shows "pool_core config n p"
    and "length (tlp_isolates p) \<le> max (pc_max_per_thread config) (busy p)"
  using assms by (auto simp: pool_ok_def)

lemma pl_isolates_load: "pl_isolates (tlp_load p) = map (\<lambda>r. ti_load (tlp_heap p ! r)) (tlp_isolates p)"
  by (simp add: tlp_load_def)

lemma pl_limits_load: "pool_core config n p \<Longrightarrow> pl_limits (tlp_load p) = config_policy config"
  by (simp add: tlp_load_def pool_core_def)

lemma config_policy_simps [simp]:
  "max_isolates (config_policy config) = pc_max_per_thread config"
  "max_per_owner (config_policy config) = pc_max_per_owner config"
  "overcommit (config_policy config) = pc_overcommit config"
  by (simp_all add: config_policy_def)

lemma owned_load:
  "owned (pl_isolates (tlp_load p)) owner = owned_in p owner"
  by (simp add: owned_def owned_in_def pl_isolates_load filter_map comp_def ti_load_def)

text \<open>Changing the isolate of one reference keeps the pool, given what its own invariant needs.\<close>

lemma busy_cong:
  "\<lbrakk>tlp_isolates p' = tlp_isolates p;
    \<And>r. r \<in> set (tlp_isolates p) \<Longrightarrow> ti_is_free (tlp_heap p' ! r) = ti_is_free (tlp_heap p ! r)\<rbrakk>
   \<Longrightarrow> busy p' = busy p"
  unfolding busy_def by (metis (mono_tags, lifting) filter_cong)

lemma owned_in_cong:
  "\<lbrakk>tlp_isolates p' = tlp_isolates p;
    \<And>r. r \<in> set (tlp_isolates p) \<Longrightarrow> ti_owner_id (tlp_heap p' ! r) = ti_owner_id (tlp_heap p ! r)\<rbrakk>
   \<Longrightarrow> owned_in p' owner = owned_in p owner"
  unfolding owned_in_def by (metis (mono_tags, lifting) filter_cong)

lemma heap_update_simps:
  "r \<noteq> q \<Longrightarrow> (tlp_heap p)[r := ti] ! q = tlp_heap p ! q"
  "r < length (tlp_heap p) \<Longrightarrow> (tlp_heap p)[r := ti] ! r = ti"
  by simp_all

lemma heap_grows_update:
  "ti_owner_id ti = ti_owner_id (tlp_heap p ! r) \<Longrightarrow> heap_grows p (p\<lparr>tlp_heap := (tlp_heap p)[r := ti]\<rparr>)"
  unfolding heap_grows_def by (simp, metis nth_list_update_eq nth_list_update_neq)

lemma pool_core_update:
  assumes core: "pool_core config n p" and r: "r \<in> set (tlp_isolates p)"
    and ti: "iso_ok config m ti" "ti_owner_id ti = ti_owner_id (tlp_heap p ! r)"
  shows "pool_core config (n(r := m)) (p\<lparr>tlp_heap := (tlp_heap p)[r := ti]\<rparr>)"
proof -
  let ?p = "p\<lparr>tlp_heap := (tlp_heap p)[r := ti]\<rparr>"
  note D = pool_coreD [OF core]
  have rl: "r < length (tlp_heap p)" using D(3) r .
  have "owned_in ?p owner = owned_in p owner" for owner
    using ti(2) rl by (intro owned_in_cong) (auto simp: nth_list_update)
  then show ?thesis
    using D r rl ti(1) unfolding pool_core_def by (auto simp: nth_list_update)
qed

lemma pool_ok_update:
  assumes ok: "pool_ok config n p" and r: "r \<in> set (tlp_isolates p)"
    and ti: "iso_ok config m ti" "ti_owner_id ti = ti_owner_id (tlp_heap p ! r)"
    and free: "ti_is_free ti \<Longrightarrow> ti_is_free (tlp_heap p ! r)"
  shows "pool_ok config (n(r := m)) (p\<lparr>tlp_heap := (tlp_heap p)[r := ti]\<rparr>)"
proof -
  have "r < length (tlp_heap p)" using pool_coreD(3) [OF pool_okD(1) [OF ok] r] .
  then have "busy p \<le> busy (p\<lparr>tlp_heap := (tlp_heap p)[r := ti]\<rparr>)"
    unfolding busy_def using free by (auto simp: nth_list_update intro!: length_filter_mono)
  with pool_okD(2) [OF ok] pool_core_update [OF pool_okD(1) [OF ok] r ti] show ?thesis
    by (auto simp: pool_ok_def)
qed

lemma tlp_remove_core:
  assumes core: "pool_core config n p" and i: "i < length (tlp_isolates p)" and idle: "n (tlp_isolates p ! i) = 0"
  shows "pool_core config n (tlp_remove i p)" "heap_grows p (tlp_remove i p)"
    and "length (tlp_isolates (tlp_remove i p)) = length (tlp_isolates p) - 1"
    and "busy (tlp_remove i p) = busy p"
    and "owned_in (tlp_remove i p) owner \<le> owned_in p owner"
    and "r \<in> set (tlp_isolates (tlp_remove i p)) \<Longrightarrow> tlp_heap (tlp_remove i p) ! r = tlp_heap p ! r"
proof -
  let ?r = "tlp_isolates p ! i" and ?p = "tlp_remove i p"
  note D = pool_coreD [OF core]
  have isos: "tlp_isolates ?p = remove_at i (tlp_isolates p)"
    and len: "length (tlp_heap ?p) = length (tlp_heap p)"
    and set: "set (tlp_isolates ?p) = set (tlp_isolates p) - {?r}"
    and dist: "distinct (tlp_isolates ?p)"
    using distinct_remove_at [OF D(1) i] by (auto simp: tlp_remove_def Let_def)
  show same: "tlp_heap ?p ! r = tlp_heap p ! r" if "r \<in> set (tlp_isolates ?p)" for r
    using that unfolding set by (simp add: tlp_remove_def Let_def)
  have free: "ti_is_free (tlp_heap p ! ?r)"
    using D(4) [of ?r] i idle by (simp add: iso_ok_free_iff)
  have count: "length (filter (\<lambda>r. P (tlp_heap ?p ! r)) (tlp_isolates ?p)) =
      length (filter (\<lambda>r. P (tlp_heap p ! r)) (remove_at i (tlp_isolates p)))" for P
    using same isos by (intro arg_cong [of _ _ length]) (auto intro!: filter_cong)
  show busy: "busy ?p = busy p"
    using length_filter_remove_at [OF i, of "\<lambda>r. \<not> ti_is_free (tlp_heap p ! r)"] free
      count [of "\<lambda>ti. \<not> ti_is_free ti"]
    unfolding busy_def by simp
  show owned: "owned_in ?p owner \<le> owned_in p owner" for owner
    using length_filter_remove_at [OF i, of "\<lambda>r. ti_owner_id (tlp_heap p ! r) = owner"]
      count [of "\<lambda>ti. ti_owner_id ti = owner"]
    unfolding owned_in_def by simp
  show length: "length (tlp_isolates ?p) = length (tlp_isolates p) - 1"
    using isos i by simp
  show "heap_grows p ?p"
    using heap_grows_update [of "ti_drop (tlp_heap p ! ?r)" p ?r]
    by (simp add: heap_grows_def tlp_remove_def Let_def ti_drop_def)
  have pol: "tlp_policy ?p = tlp_policy p" by (simp add: tlp_remove_def Let_def)
  have members: "\<forall>r \<in> set (tlp_isolates ?p). r < length (tlp_heap ?p) \<and> iso_ok config (n r) (tlp_heap ?p ! r)"
    using D(3,4) same set len by auto
  have used: "\<forall>r. 0 < n r \<longrightarrow> r \<in> set (tlp_isolates ?p)"
    using D(5) set idle by auto
  have limits: "\<forall>owner limit. pc_max_per_owner config = Some limit \<longrightarrow> owned_in ?p owner \<le> limit"
    using D(6) owned le_trans by blast
  show "pool_core config n ?p"
    unfolding pool_core_def pol using D(2,7) length dist members used limits by auto
qed

lemma tlp_build_ok:
  assumes core: "pool_core config n p" and conc: "pc_max_concurrent_per_isolate config \<ge> 1"
    and owner: "\<And>limit. pc_max_per_owner config = Some limit \<Longrightarrow> owned_in p owner < limit"
    and room: "length (tlp_isolates p) < max (pc_max_per_thread config) (Suc (busy p))"
    and ceiling: "\<not> pc_overcommit config \<Longrightarrow> length (tlp_isolates p) < pc_max_per_thread config"
  shows "\<exists>p' r. tlp_build config now owner p = Some (p', r) \<and> pool_ok config (n(r := Suc (n r))) p' \<and>
    heap_grows p p' \<and> r \<in> set (tlp_isolates p') \<and> ti_owner_id (tlp_heap p' ! r) = owner"
proof -
  note D = pool_coreD [OF core]
  let ?new = "tagged_isolate_new owner (pc_max_concurrent_per_isolate config) (pc_max_cached_contexts config) now"
  obtain ti where ti: "ti_try_acquire ?new = Some ti"
    using new_isolate_ok(2) [OF conc] by blast
  note ti_ok = ti_try_acquire_ok [OF new_isolate_ok(1) [OF conc] ti]
  let ?r = "length (tlp_heap p)"
  let ?p = "p\<lparr>tlp_isolates := tlp_isolates p @ [?r], tlp_heap := tlp_heap p @ [ti]\<rparr>"
  have fresh: "?r \<notin> set (tlp_isolates p)" using D(3) by blast
  then have zero: "n ?r = 0" using D(5) by blast
  have old: "\<And>r. r \<in> set (tlp_isolates p) \<Longrightarrow> (tlp_heap p @ [ti]) ! r = tlp_heap p ! r"
    using D(3) by (simp add: nth_append)
  have count: "filter (\<lambda>r. P ((tlp_heap p @ [ti]) ! r)) (tlp_isolates p) =
      filter (\<lambda>r. P (tlp_heap p ! r)) (tlp_isolates p)" for P
    using old by (intro filter_cong) auto
  have busy: "busy ?p = Suc (busy p)"
    using ti_ok(2) count [of "\<lambda>ti. \<not> ti_is_free ti"] by (simp add: busy_def)
  have own: "owned_in ?p o' = owned_in p o' + (if o' = owner then 1 else 0)" for o'
    using ti_ok(3) count [of "\<lambda>ti. ti_owner_id ti = o'"] by (simp add: owned_in_def tagged_isolate_new_def)
  have "distinct (tlp_isolates ?p)" using D(1) fresh by simp
  moreover have "\<forall>r \<in> set (tlp_isolates ?p). r < length (tlp_heap ?p) \<and>
      iso_ok config ((n(?r := Suc (n ?r))) r) (tlp_heap ?p ! r)"
    using D(3,4) old ti_ok(1) zero by (auto simp: less_SucI)
  moreover have "\<forall>r. 0 < (n(?r := Suc (n ?r))) r \<longrightarrow> r \<in> set (tlp_isolates ?p)"
    using D(5) by auto
  moreover have "\<forall>o' limit. pc_max_per_owner config = Some limit \<longrightarrow> owned_in ?p o' \<le> limit"
    using D(6) owner by (fastforce simp: own)
  ultimately have "pool_ok config (n(?r := Suc (n ?r))) ?p"
    unfolding pool_ok_def pool_core_def busy using D(2) room ceiling by auto
  moreover have "heap_grows p ?p" by (simp add: heap_grows_def nth_append)
  moreover have "ti_owner_id (tlp_heap ?p ! ?r) = owner"
    using ti_ok(3) by (simp add: tagged_isolate_new_def)
  ultimately show ?thesis by (simp add: tlp_build_def ti)
qed

lemma load_idle_iff:
  assumes "pool_core config n p" "i < length (tlp_isolates p)"
  shows "il_idle_since (pl_isolates (tlp_load p) ! i) = None \<longleftrightarrow> 0 < n (tlp_isolates p ! i)"
  using pool_coreD(4) [OF assms(1) nth_mem [OF assms(2)]] assms(2)
  by (auto simp: pl_isolates_load ti_load_simps iso_ok_free_iff)

lemma not_at_limit:
  assumes "pool_core config n p" "\<not> at_owner_limit (tlp_load p) owner" "pc_max_per_owner config = Some limit"
  shows "owned_in p owner < limit"
  using assms by (auto simp: at_owner_limit_def pl_limits_load owned_load)

lemma pool_full_busy:
  assumes "pool_core config n p" "pool_full (tlp_load p)"
  shows "busy p = length (tlp_isolates p)"
proof -
  have "\<not> ti_is_free (tlp_heap p ! r)" if "r \<in> set (tlp_isolates p)" for r
    using assms(2) that pool_coreD(4) [OF assms(1) that]
    by (auto simp: pool_full_def pl_isolates_load ti_load_simps)
  then show ?thesis by (simp add: busy_def)
qed

definition acquired ::
    "pinned_pool_config \<Rightarrow> (isolate_ref \<Rightarrow> nat) \<Rightarrow> string \<Rightarrow> thread_local_pool \<Rightarrow> thread_local_pool \<Rightarrow>
       isolate_ref \<Rightarrow> bool"
  where
  "acquired config n owner p p' r \<longleftrightarrow>
     pool_ok config (n(r := Suc (n r))) p' \<and> heap_grows p p' \<and> r \<in> set (tlp_isolates p') \<and>
     ti_owner_id (tlp_heap p' ! r) = owner"

lemma tlp_build_acquired:
  assumes "pool_core config n q" "pc_max_concurrent_per_isolate config \<ge> 1" "heap_grows p q"
    and "\<And>limit. pc_max_per_owner config = Some limit \<Longrightarrow> owned_in q owner < limit"
    and "length (tlp_isolates q) < max (pc_max_per_thread config) (Suc (busy q))"
    and "\<not> pc_overcommit config \<Longrightarrow> length (tlp_isolates q) < pc_max_per_thread config"
  shows "\<exists>p' r. tlp_build config now owner q = Some (p', r) \<and> acquired config n owner p p' r"
  using tlp_build_ok [OF assms(1,2,4-6), of now] assms(3) heap_grows_trans
  unfolding acquired_def by blast

lemma tlp_reuse_acquired:
  assumes ok: "pool_ok config n p" and free: "first_free (pl_isolates (tlp_load p)) owner i"
  shows "\<exists>ti. ti_try_acquire (tlp_heap p ! (tlp_isolates p ! i)) = Some ti \<and>
    acquired config n owner p (p\<lparr>tlp_heap := (tlp_heap p)[tlp_isolates p ! i := ti]\<rparr>) (tlp_isolates p ! i)"
proof -
  let ?r = "tlp_isolates p ! i"
  have r: "?r \<in> set (tlp_isolates p)" using free by (simp add: first_free_def pl_isolates_load)
  note core = pool_okD(1) [OF ok]
  note iso = pool_coreD(4) [OF core r]
  have own: "ti_owner_id (tlp_heap p ! ?r) = owner" and cap: "cs_has_capacity (ti_concurrency (tlp_heap p ! ?r))"
    using free iso by (auto simp: first_free_def pl_isolates_load ti_load_simps)
  then obtain ti where ti: "ti_try_acquire (tlp_heap p ! ?r) = Some ti"
    using ti_try_acquire_iff by blast
  note ti_ok = ti_try_acquire_ok [OF iso ti]
  have "pool_ok config (n(?r := Suc (n ?r))) (p\<lparr>tlp_heap := (tlp_heap p)[?r := ti]\<rparr>)"
    using ti_ok by (intro pool_ok_update [OF ok r]) auto
  with ti ti_ok own r pool_coreD(3) [OF core r] show ?thesis
    by (auto simp: acquired_def heap_grows_update)
qed

lemma tlp_acquire_ok:
  assumes ok: "pool_ok config n p" and conc: "pc_max_concurrent_per_isolate config \<ge> 1"
  obtains (refused) e where "tlp_acquire config now owner p = Some (p, Inl e)"
  | (taken) p' r hit where "tlp_acquire config now owner p = Some (p', Inr (r, hit))"
      "acquired config n owner p p' r"
proof (cases "acquire (tlp_load p) owner")
  case (Reuse i)
  from tlp_reuse_acquired [OF ok, of owner i] acquire_eqD [OF Reuse] Reuse taken show ?thesis
    by (auto simp: tlp_acquire_def Let_def)
next
  case Build
  note spec = acquire_eqD [OF Build] and core = pool_okD(1) [OF ok]
  have "\<exists>p' r. tlp_build config now owner p = Some (p', r) \<and> acquired config n owner p p' r"
    using spec pl_limits_load [OF core]
    by (intro tlp_build_acquired [OF core conc heap_grows_refl] not_at_limit [OF core])
      (auto simp: must_build_def pl_isolates_load)
  with Build taken show ?thesis by (auto simp: tlp_acquire_def)
next
  case (Evict i)
  note spec = acquire_eqD [OF Evict] and core = pool_okD(1) [OF ok]
  have i: "i < length (tlp_isolates p)" using spec by (simp add: longest_idle_def pl_isolates_load)
  have idle: "n (tlp_isolates p ! i) = 0"
    using spec load_idle_iff [OF core i] by (auto simp: longest_idle_def)
  note rem = tlp_remove_core [OF core i idle]
  have "\<exists>p' r. tlp_build config now owner (tlp_remove i p) = Some (p', r) \<and> acquired config n owner p p' r"
    using spec rem(3,4) pool_okD(2) [OF ok] pool_coreD(7) [OF core] i
    by (intro tlp_build_acquired [OF rem(1) conc rem(2)] le_less_trans [OF rem(5)] not_at_limit [OF core])
      (auto simp: must_build_def)
  with Evict taken show ?thesis by (auto simp: tlp_acquire_def)
next
  case Overcommit
  note spec = acquire_eqD [OF Overcommit] and core = pool_okD(1) [OF ok]
  have "\<exists>p' r. tlp_build config now owner p = Some (p', r) \<and> acquired config n owner p p' r"
    using spec pl_limits_load [OF core] pool_full_busy [OF core]
    by (intro tlp_build_acquired [OF core conc heap_grows_refl] not_at_limit [OF core])
      (auto simp: must_build_def)
  with Overcommit taken show ?thesis by (auto simp: tlp_acquire_def)
next
  case (Refuse e)
  with refused show ?thesis by (simp add: tlp_acquire_def)
qed

section \<open>Release and reclaim\<close>

lemma fold_remove_core:
  assumes "pool_core config n p" "sorted_wrt (>) is"
    and "\<forall>i \<in> set is. i < length (tlp_isolates p) \<and> n (tlp_isolates p ! i) = 0"
  shows "pool_core config n (fold tlp_remove is p) \<and> heap_grows p (fold tlp_remove is p) \<and>
    length (tlp_isolates (fold tlp_remove is p)) = length (tlp_isolates p) - length is \<and>
    busy (fold tlp_remove is p) = busy p"
  using assms
proof (induction "is" arbitrary: p)
  case (Cons i "is")
  from Cons.prems have i: "i < length (tlp_isolates p)" "n (tlp_isolates p ! i) = 0" by auto
  note rem = tlp_remove_core [OF Cons.prems(1) i]
  have "tlp_isolates (tlp_remove i p) ! j = tlp_isolates p ! j \<and> j < length (tlp_isolates (tlp_remove i p))"
    if "j \<in> set is" for j
    using that Cons.prems(2) i(1) by (auto simp: tlp_remove_def Let_def remove_at_def nth_append)
  then have "\<forall>j \<in> set is. j < length (tlp_isolates (tlp_remove i p)) \<and> n (tlp_isolates (tlp_remove i p) ! j) = 0"
    using Cons.prems(3) by auto
  from Cons.IH [OF rem(1) _ this] Cons.prems(2) rem(2-4) heap_grows_trans [OF rem(2)] show ?case
    by auto
qed simp

lemma length_filter_not: "length (filter P xs) + length (filter (\<lambda>x. \<not> P x) xs) = length xs"
  by (induction xs) auto

lemma length_reclaim_load:
  assumes "pool_core config n p"
  shows "length (reclaim (tlp_load p)) =
    min (length (tlp_isolates p) - busy p) (length (tlp_isolates p) - pc_max_per_thread config)"
proof -
  have "length (filter (\<lambda>i. il_idle_since i \<noteq> None) (pl_isolates (tlp_load p))) =
      length (filter (\<lambda>r. ti_is_free (tlp_heap p ! r)) (tlp_isolates p))"
    unfolding pl_isolates_load filter_map comp_def length_map
    by (intro arg_cong [of _ _ length] filter_cong)
      (simp_all only: ti_load_simps(3) [OF pool_coreD(4) [OF assms]] not_not)
  also have "\<dots> = length (tlp_isolates p) - busy p"
    using length_filter_not [of "\<lambda>r. ti_is_free (tlp_heap p ! r)" "tlp_isolates p"] by (simp add: busy_def)
  finally show ?thesis
    unfolding length_reclaim pl_limits_load [OF assms] by (simp add: pl_isolates_load)
qed

lemma tlp_reclaim_ok:
  assumes core: "pool_core config n p"
  shows "pool_ok config n (tlp_reclaim p)" "heap_grows p (tlp_reclaim p)"
    and "busy (tlp_reclaim p) = busy p"
    and "length (tlp_isolates (tlp_reclaim p)) =
      min (length (tlp_isolates p)) (max (pc_max_per_thread config) (busy p))"
proof -
  let ?is = "rev (reclaim (tlp_load p))"
  have "i < length (tlp_isolates p) \<and> n (tlp_isolates p ! i) = 0" if "i \<in> set ?is" for i
    using reclaim_idle [of i "tlp_load p"] that load_idle_iff [OF core, of i]
    by (auto simp: pl_isolates_load)
  moreover have "sorted_wrt (>) ?is"
    using reclaim_sorted [of "tlp_load p"] by (simp add: sorted_wrt_rev)
  ultimately have *: "pool_core config n (tlp_reclaim p) \<and> heap_grows p (tlp_reclaim p) \<and>
      length (tlp_isolates (tlp_reclaim p)) = length (tlp_isolates p) - length (reclaim (tlp_load p)) \<and>
      busy (tlp_reclaim p) = busy p"
    using fold_remove_core [OF core, of ?is] unfolding tlp_reclaim_def by auto
  have "busy p \<le> length (tlp_isolates p)" by (simp add: busy_def)
  with * show len: "length (tlp_isolates (tlp_reclaim p)) =
      min (length (tlp_isolates p)) (max (pc_max_per_thread config) (busy p))"
    using length_reclaim_load [OF core] by auto
  show "pool_ok config n (tlp_reclaim p)" using * len by (auto simp: pool_ok_def)
  show "heap_grows p (tlp_reclaim p)" "busy (tlp_reclaim p) = busy p" using * by auto
qed

lemma tlp_release_ok:
  assumes ok: "pool_ok config n p" and n: "n r = Suc m"
  shows "pool_ok config (n(r := m)) (tlp_release r p)" "heap_grows p (tlp_release r p)"
proof -
  note core = pool_okD(1) [OF ok]
  have r: "r \<in> set (tlp_isolates p)" using pool_coreD(5) [OF core] n by simp
  have "iso_ok config m (ti_release (tlp_heap p ! r))"
    using pool_coreD(4) [OF core r] n by (intro ti_release_ok) simp
  then have *: "pool_core config (n(r := m)) (p\<lparr>tlp_heap := (tlp_heap p)[r := ti_release (tlp_heap p ! r)]\<rparr>)"
    by (intro pool_core_update [OF core r]) (auto simp: ti_release_def)
  show "pool_ok config (n(r := m)) (tlp_release r p)"
    unfolding tlp_release_def by (rule tlp_reclaim_ok(1) [OF *])
  have "heap_grows p (p\<lparr>tlp_heap := (tlp_heap p)[r := ti_release (tlp_heap p ! r)]\<rparr>)"
    by (rule heap_grows_update) (simp add: ti_release_def)
  then show "heap_grows p (tlp_release r p)"
    unfolding tlp_release_def using tlp_reclaim_ok(2) [OF *] heap_grows_trans by blast
qed

section \<open>Warm caches\<close>

declare superseded_loop.simps [simp del]

lemma superseded_loop_correct:
  assumes "superseded_loop wanted idx cached gone = (kept, out)"
    and "\<forall>j < idx. j < length cached \<longrightarrow> \<not> superseded (cached_key (cached ! j)) wanted"
  shows "mset kept = filter_mset (\<lambda>c. \<not> superseded (cached_key c) wanted) (mset cached) \<and>
    mset out = mset gone + filter_mset (\<lambda>c. superseded (cached_key c) wanted) (mset cached)"
  using assms
proof (induction wanted idx cached gone rule: superseded_loop.induct)
  case (1 wanted idx cached gone)
  let ?S = "\<lambda>c. superseded (cached_key c) wanted"
  consider (stop) "\<not> idx < length cached" | (drop) "idx < length cached" "?S (cached ! idx)"
    | (keep) "idx < length cached" "\<not> ?S (cached ! idx)" by blast
  then show ?case
  proof cases
    case stop
    then have "\<forall>c \<in> set cached. \<not> ?S c"
      using "1.prems"(2) by (auto simp: in_set_conv_nth)
    with stop "1.prems"(1) show ?thesis
      by (simp add: superseded_loop.simps [of wanted idx] flip: mset_filter)
  next
    case drop
    have "\<forall>j < idx. j < length (swap_remove idx cached) \<longrightarrow> \<not> ?S (swap_remove idx cached ! j)"
      using "1.prems"(2) drop(1) by (auto simp: swap_remove_def nth_butlast)
    with "1.IH"(1) [OF drop] "1.prems"(1) drop filter_swap_remove [OF drop(1), of ?S]
      filter_swap_remove [OF drop(1), of "\<lambda>c. \<not> ?S c"]
    show ?thesis by (simp add: superseded_loop.simps [of wanted idx cached])
  next
    case keep
    then have "\<forall>j < Suc idx. j < length cached \<longrightarrow> \<not> ?S (cached ! j)"
      using "1.prems"(2) by (auto simp: less_Suc_eq)
    with "1.IH"(2) [OF keep] "1.prems"(1) keep show ?thesis
      by (simp add: superseded_loop.simps [of wanted idx cached])
  qed
qed

lemma superseded_loop_start:
  assumes "superseded_loop wanted 0 cached [] = (kept, out)"
  shows "mset kept = filter_mset (\<lambda>c. \<not> superseded (cached_key c) wanted) (mset cached)"
    and "set kept = {c \<in> set cached. \<not> superseded (cached_key c) wanted}"
    and "length kept \<le> length cached"
proof -
  show *: "mset kept = filter_mset (\<lambda>c. \<not> superseded (cached_key c) wanted) (mset cached)"
    using superseded_loop_correct [OF assms] by simp
  show "set kept = {c \<in> set cached. \<not> superseded (cached_key c) wanted}"
    using arg_cong [OF *, of set_mset] by simp
  show "length kept \<le> length cached"
    using arg_cong [OF *, of size] by (metis size_filter_mset_lesseq size_mset)
qed

text \<open>What \<open>checkout\<close> takes out of a cache, and what it leaves.\<close>

lemma checkout_cases:
  assumes "checkout config req now ti = (ti', hit, gone)"
  obtains rest where
    "set (ti_cached_contexts ti') = {c \<in> set rest. \<not> superseded (cached_key c) (wanted_key req)}"
    "length (ti_cached_contexts ti') \<le> length (ti_cached_contexts ti)" "set rest \<subseteq> set (ti_cached_contexts ti)"
    "\<And>c. hit = Some c \<Longrightarrow> c \<in> set (ti_cached_contexts ti) \<and> cached_key c = wanted_key req \<and>
       cc_reuse_count c < pc_max_context_reuses config"
proof -
  let ?cached = "ti_cached_contexts ti"
  let ?found = "warm_hit (map (\<lambda>c. (cached_key c, cc_reuse_count c)) ?cached) (wanted_key req)
    (pc_max_context_reuses config)"
  let ?rest = "swap_remove_opt ?found ?cached"
  have loop: "superseded_loop (wanted_key req) 0 ?rest [] = (ti_cached_contexts ti', gone)"
    and hit: "hit = map_option ((!) ?cached) ?found"
    using assms by (auto simp: checkout_def Let_def split: prod.splits)
  have found: "idx < length ?cached \<and> cached_key (?cached ! idx) = wanted_key req \<and>
      cc_reuse_count (?cached ! idx) < pc_max_context_reuses config" if "?found = Some idx" for idx
    using warm_hit_SomeD [OF that] by simp
  then have sub: "set ?rest \<subseteq> set ?cached \<and> length ?rest \<le> length ?cached"
    by (intro conjI swap_remove_opt_subset) blast+
  have taken: "c \<in> set ?cached \<and> cached_key c = wanted_key req \<and>
      cc_reuse_count c < pc_max_context_reuses config" if "hit = Some c" for c
  proof -
    from that hit obtain idx where "?found = Some idx" "c = ?cached ! idx"
      by (cases ?found) auto
    with found [of idx] show ?thesis by simp
  qed
  show thesis
    using superseded_loop_start(2,3) [OF loop] sub taken by (intro that [of ?rest]) auto
qed

lemma checkout_ok:
  assumes "iso_ok config n ti" "checkout config req now ti = (ti', hit, gone)"
  shows "iso_ok config n ti'" "ti_owner_id ti' = ti_owner_id ti" "ti_is_free ti' = ti_is_free ti"
proof -
  have same: "ti_concurrency ti' = ti_concurrency ti" "ti_inner_locked ti' = ti_inner_locked ti"
    "ti_max_cached ti' = ti_max_cached ti" "ti_owner_id ti' = ti_owner_id ti"
    using assms(2) by (auto simp: checkout_def Let_def split: prod.splits)
  then show "ti_owner_id ti' = ti_owner_id ti" "ti_is_free ti' = ti_is_free ti"
    by (simp_all add: ti_is_free_def)
  from assms(2) show "iso_ok config n ti'"
    by (rule checkout_cases) (use assms(1) same in \<open>auto simp: iso_ok_def\<close>)
qed

lemma cache_evict_room:
  assumes "length xs \<le> limit" "0 < limit"
  shows "length (swap_remove_opt (cache_evict (map f xs) limit) xs) < limit"
proof (cases "cache_evict (map f xs) limit")
  case None
  then have "length xs < limit" using assms by (auto simp: cache_evict_None_iff)
  with None show ?thesis by (simp add: swap_remove_opt_def)
next
  case (Some idx)
  then have "idx < length xs" by (simp add: cache_evict_Some_iff)
  with Some assms show ?thesis by (simp add: swap_remove_opt_def)
qed

lemma save_context_ok:
  assumes "iso_ok config n ti" "cc_reuse_count c < pc_max_context_reuses config" "0 < pc_max_cached_contexts config"
  shows "iso_ok config n (save_context c ti)" "ti_owner_id (save_context c ti) = ti_owner_id ti"
    and "ti_is_free (save_context c ti) = ti_is_free ti"
proof -
  let ?cached = "ti_cached_contexts ti"
  let ?evict = "cache_evict (map cc_last_used ?cached) (ti_max_cached ti)"
  let ?room = "swap_remove_opt ?evict ?cached"
  have "set ?room \<subseteq> set ?cached"
    by (rule swap_remove_opt_subset) (simp add: cache_evict_Some_iff)
  moreover have "length ?room < ti_max_cached ti"
    using assms by (intro cache_evict_room) (auto simp: iso_ok_def)
  ultimately have "set ?room \<subseteq> set ?cached \<and> length ?room < ti_max_cached ti" ..
  then show "iso_ok config n (save_context c ti)"
    using assms by (auto simp: iso_ok_def save_context_def Let_def)
  show "ti_owner_id (save_context c ti) = ti_owner_id ti"
    "ti_is_free (save_context c ti) = ti_is_free ti"
    by (simp_all add: save_context_def Let_def ti_is_free_def)
qed

lemma run_request_save:
  assumes "run_request config req now out hit = (Some c, result)"
  shows "cc_reuse_count c < pc_max_context_reuses config" "0 < pc_max_cached_contexts config" "result = Ok ()"
  using assms
  by (auto simp: run_request_def warm_path_def cold_path_def Let_def keep_context_def is_err_def is_ok_iff
      split: option.splits if_splits sum.splits)

section \<open>The steps of a request\<close>

lemma users_append [simp]: "users (ts @ [t]) r = users ts r + (if task_isolate t = Some r then 1 else 0)"
  by (simp add: users_def)

lemma users_update:
  assumes "t < length ts"
  shows "users (ts[t := x]) r + (if task_isolate (ts ! t) = Some r then 1 else 0) =
    users ts r + (if task_isolate x = Some r then 1 else 0)"
  using length_filter_update [OF assms, of "\<lambda>t. task_isolate t = Some r" x] by (simp add: users_def)

lemma users_update_same:
  assumes "t < length ts" "task_isolate x = task_isolate (ts ! t)"
  shows "users (ts[t := x]) = users ts"
  using users_update [OF assms(1), of x] assms(2) by (intro ext) auto

lemma users_update_none:
  assumes "t < length ts" "task_isolate (ts ! t) = Some r" "task_isolate x = None"
  shows "\<exists>m. users ts r = Suc m \<and> users (ts[t := x]) = (users ts)(r := m)"
proof -
  from users_update [OF assms(1), of x r] assms have "users ts r = Suc (users (ts[t := x]) r)" by simp
  moreover have "users (ts[t := x]) q = users ts q" if "q \<noteq> r" for q
    using users_update [OF assms(1), of x q] assms that by auto
  ultimately show ?thesis by (intro exI [of _ "users (ts[t := x]) r"]) auto
qed

lemma users_pos: "\<lbrakk>t \<in> set ts; task_isolate t = Some r\<rbrakk> \<Longrightarrow> 0 < users ts r"
  by (auto simp: users_def filter_empty_conv)

lemma sys_inv_pool:
  assumes "sys_inv config s" "LOCAL_POOL (ps_world s) = Some p"
  shows "pool_ok config (users (ps_tasks s)) p" "POOL_CONFIG (ps_world s) = Some config"
    and "\<lbrakk>t \<in> set (ps_tasks s); task_isolate t = Some r\<rbrakk> \<Longrightarrow> r \<in> set (tlp_isolates p)"
    and "\<lbrakk>t \<in> set (ps_tasks s); task_isolate t = Some r\<rbrakk> \<Longrightarrow> r < length (tlp_heap p)"
    and "\<lbrakk>t \<in> set (ps_tasks s); task_isolate t = Some r\<rbrakk>
      \<Longrightarrow> task_owner t = Some (ti_owner_id (tlp_heap p ! r))"
proof -
  show ok: "pool_ok config (users (ps_tasks s)) p" and "POOL_CONFIG (ps_world s) = Some config"
    using assms by (auto simp: sys_inv_def)
  show mem: "r \<in> set (tlp_isolates p)" if "t \<in> set (ps_tasks s)" "task_isolate t = Some r"
    using users_pos [OF that] pool_coreD(5) [OF pool_okD(1) [OF ok]] by blast
  show "r < length (tlp_heap p)" if "t \<in> set (ps_tasks s)" "task_isolate t = Some r"
    using mem [OF that] pool_coreD(3) [OF pool_okD(1) [OF ok]] by blast
  show "task_owner t = Some (ti_owner_id (tlp_heap p ! r))"
    if "t \<in> set (ps_tasks s)" "task_isolate t = Some r"
    using assms that by (auto simp: sys_inv_def)
qed

text \<open>To re-establish the invariant of the system it is enough to give the pool for the new tasks, a
  heap that has only grown, and tasks that are the old ones up to one that fits.\<close>

lemma sys_invI:
  assumes inv: "sys_inv config s" and pool: "LOCAL_POOL (ps_world s) = Some p"
    and ok: "pool_ok config (users ts) p'" and grows: "heap_grows p p'"
    and tasks: "\<And>t. t \<in> set ts \<Longrightarrow> t \<notin> set (ps_tasks s) \<Longrightarrow>
      (\<forall>r. task_isolate t = Some r \<longrightarrow> task_owner t = Some (ti_owner_id (tlp_heap p' ! r)))"
    and w: "POOL_CONFIG w = POOL_CONFIG (ps_world s)" "LOCAL_POOL w = Some p'"
  shows "sys_inv config \<lparr>ps_world = w, ps_tasks = ts\<rparr>"
proof -
  note D = sys_inv_pool [OF inv pool]
  have "task_owner t = Some (ti_owner_id (tlp_heap p' ! r))" if "t \<in> set ts" "task_isolate t = Some r" for t r
  proof (cases "t \<in> set (ps_tasks s)")
    case True
    with that D(4,5) [of t r] grows show ?thesis by (auto simp: heap_grows_def)
  next
    case False
    with that tasks show ?thesis by blast
  qed
  with inv ok w show ?thesis by (auto simp: sys_inv_def)
qed

lemma pool_ok_new: "pool_ok config (\<lambda>_. 0) (tlp_new (config_policy config))"
  by (auto simp: pool_ok_def pool_core_def tlp_new_def owned_in_def)

lemma ensure_pool_initialized_ok:
  assumes inv: "sys_inv config s"
  obtains w p where
    "ensure_pool_initialized ((ps_world s)\<lparr>TOTAL_REQUESTS := TOTAL_REQUESTS (ps_world s) + 1\<rparr>) = Some w"
    "POOL_CONFIG w = Some config" "LOCAL_POOL w = Some p" "sys_inv config (s\<lparr>ps_world := w\<rparr>)"
proof (cases "LOCAL_POOL (ps_world s)")
  case (Some p)
  with inv show thesis
    by (intro that [of "(ps_world s)\<lparr>TOTAL_REQUESTS := TOTAL_REQUESTS (ps_world s) + 1\<rparr>" p])
      (auto simp: ensure_pool_initialized_def sys_inv_def)
next
  case None
  with inv have "users (ps_tasks s) = (\<lambda>_. 0)"
    by (auto simp: sys_inv_def users_def filter_empty_conv)
  with None inv pool_ok_new [of config] show thesis
    by (intro that [of "(ps_world s)\<lparr>TOTAL_REQUESTS := TOTAL_REQUESTS (ps_world s) + 1,
          LOCAL_POOL := Some (tlp_new (config_policy config))\<rparr>"])
      (auto simp: ensure_pool_initialized_def sys_inv_def)
qed

lemma users_append_acquired:
  "task_isolate t = Some r \<Longrightarrow> users (ts @ [t]) = (users ts)(r := Suc (users ts r))"
  by (intro ext) simp

lemma execute_start_ok:
  assumes inv: "sys_inv config s"
  obtains (refused) w e where "execute_start req now (ps_world s) = Some (w, Inl e)"
      "sys_inv config \<lparr>ps_world = w, ps_tasks = ps_tasks s @ [Finished (Err e)]\<rparr>"
  | (taken) w r where "execute_start req now (ps_world s) = Some (w, Inr r)"
      "sys_inv config \<lparr>ps_world = w, ps_tasks = ps_tasks s @ [AwaitingInner req r]\<rparr>"
proof -
  from inv obtain w p where w: "ensure_pool_initialized
      ((ps_world s)\<lparr>TOTAL_REQUESTS := TOTAL_REQUESTS (ps_world s) + 1\<rparr>) = Some w"
    "POOL_CONFIG w = Some config" "LOCAL_POOL w = Some p" and inv': "sys_inv config (s\<lparr>ps_world := w\<rparr>)"
    by (rule ensure_pool_initialized_ok)
  have pool: "LOCAL_POOL (ps_world (s\<lparr>ps_world := w\<rparr>)) = Some p" using w(3) by simp
  note D = sys_inv_pool [OF inv' pool]
  have ok: "pool_ok config (users (ps_tasks s)) p" using D(1) by simp
  have conc: "pc_max_concurrent_per_isolate config \<ge> 1" using inv by (simp add: sys_inv_def)
  show thesis
  proof (rule tlp_acquire_ok [OF ok conc, of now "rq_owner_id req"], goal_cases)
    case (1 e)
    then have "execute_start req now (ps_world s) = Some (w, Inl (Other (message e)))"
      using w by (simp add: execute_start_def)
    then show thesis
    proof (rule refused)
      have "users (ps_tasks s @ [Finished (Err (Other (message e)))]) = users (ps_tasks s)" by (intro ext) simp
      then show "sys_inv config \<lparr>ps_world = w, ps_tasks = ps_tasks s @ [Finished (Err (Other (message e)))]\<rparr>"
        using ok w by (intro sys_invI [OF inv' pool _ heap_grows_refl]) auto
    qed
  next
    case (2 p' r hit)
    let ?w = "if hit then w\<lparr>LOCAL_POOL := Some p', CACHE_HITS := CACHE_HITS w + 1\<rparr>
      else w\<lparr>LOCAL_POOL := Some p', CACHE_MISSES := CACHE_MISSES w + 1\<rparr>"
    from 2 w have "execute_start req now (ps_world s) = Some (?w, Inr r)"
      by (simp add: execute_start_def)
    then show thesis
    proof (rule taken)
      show "sys_inv config \<lparr>ps_world = ?w, ps_tasks = ps_tasks s @ [AwaitingInner req r]\<rparr>"
        using 2(2) by (intro sys_invI [OF inv' pool]) (auto simp: acquired_def users_append_acquired)
    qed
  qed
qed

lemma execute_checkout_ok:
  assumes ok: "pool_ok config n p" and r: "r \<in> set (tlp_isolates p)"
    and co: "execute_checkout config req now r p = (p', hit)"
  shows "pool_ok config n p'" "heap_grows p p'"
proof -
  obtain ti gone where ti: "checkout config req now (tlp_heap p ! r) = (ti, hit, gone)"
    and p': "p' = p\<lparr>tlp_heap := (tlp_heap p)[r := ti]\<rparr>"
    using co by (auto simp: execute_checkout_def split: prod.splits)
  note iso = checkout_ok [OF pool_coreD(4) [OF pool_okD(1) [OF ok] r] ti]
  from pool_ok_update [OF ok r iso(1,2)] iso(3) show "pool_ok config n p'" by (simp add: p')
  from iso(2) show "heap_grows p p'" unfolding p' by (rule heap_grows_update)
qed

lemma execute_finish_ok:
  assumes ok: "pool_ok config n p" and n: "n r = Suc m"
    and fin: "execute_finish config req now out r hit p = (p', result)"
  shows "pool_ok config (n(r := m)) p'" "heap_grows p p'"
proof -
  note core = pool_okD(1) [OF ok]
  have r: "r \<in> set (tlp_isolates p)" using pool_coreD(5) [OF core] n by simp
  obtain save where run: "run_request config req now out hit = (save, result)"
    using fin by (auto simp: execute_finish_def split: prod.splits)
  let ?q = "case save of None \<Rightarrow> p
    | Some c \<Rightarrow> p\<lparr>tlp_heap := (tlp_heap p)[r := save_context c (tlp_heap p ! r)]\<rparr>"
  have p': "p' = tlp_release r ?q" using fin run by (simp add: execute_finish_def)
  have "pool_ok config n ?q \<and> heap_grows p ?q"
  proof (cases save)
    case (Some c)
    note save = save_context_ok [OF pool_coreD(4) [OF core r] run_request_save(1,2) [OF run [unfolded Some]]]
    show ?thesis
      using pool_ok_update [OF ok r save(1,2)] save(3) heap_grows_update [OF save(2)] Some by simp
  qed (use ok in simp)
  with tlp_release_ok [of config n ?q r m] n heap_grows_trans
  show "pool_ok config (n(r := m)) p'" "heap_grows p p'" unfolding p' by blast+
qed

lemma pool_step_inv:
  assumes "pool_step s s'" "sys_inv config s"
  shows "sys_inv config s'"
  using assms
proof (induction rule: pool_step.induct)
  case (ps_start req now s w r)
  from ps_start.prems show ?case
    by (rule execute_start_ok [of config s req now]) (use ps_start.hyps in auto)
next
  case (ps_refuse req now s w e)
  from ps_refuse.prems show ?case
    by (rule execute_start_ok [of config s req now]) (use ps_refuse.hyps in auto)
next
  case (ps_checkout t s req r config' p now p' hit)
  have mem: "ps_tasks s ! t \<in> set (ps_tasks s)" using ps_checkout.hyps(1) by (rule nth_mem)
  note D = sys_inv_pool [OF ps_checkout.prems ps_checkout.hyps(4)]
  have r: "r \<in> set (tlp_isolates p)" "r < length (tlp_heap p)"
    and own: "Some (rq_owner_id req) = Some (ti_owner_id (tlp_heap p ! r))"
    using D(3,4,5) [OF mem] ps_checkout.hyps(2) by auto
  have "config' = config" using D(2) ps_checkout.hyps by simp
  note co = execute_checkout_ok [OF D(1) r(1) ps_checkout.hyps(5) [unfolded this]]
  show ?case
    using co ps_checkout.hyps own r(2)
    by (intro sys_invI [OF ps_checkout.prems ps_checkout.hyps(4) _ co(2)])
      (auto simp: users_update_same heap_grows_def dest!: set_update_subset_insert [THEN subsetD])
next
  case (ps_finish t s req r hit config' p now out p' result)
  note D = sys_inv_pool [OF ps_finish.prems ps_finish.hyps(4)]
  have "config' = config" using D(2) ps_finish.hyps by simp
  note fin = ps_finish.hyps(5) [unfolded this]
  from users_update_none [OF ps_finish.hyps(1), of r "Finished result"] ps_finish.hyps(2) obtain m where
    m: "users (ps_tasks s) r = Suc m"
    "users ((ps_tasks s)[t := Finished result]) = (users (ps_tasks s))(r := m)" by auto
  note f = execute_finish_ok [OF D(1) m(1) fin]
  show ?case
    using f m(2)
    by (intro sys_invI [OF ps_finish.prems ps_finish.hyps(4) _ f(2)])
      (auto dest!: set_update_subset_insert [THEN subsetD])
next
  case (ps_drop t s req r hit)
  have mem: "ps_tasks s ! t \<in> set (ps_tasks s)" using ps_drop.hyps(1) by (rule nth_mem)
  have task: "task_isolate (ps_tasks s ! t) = Some r" "task_owner (ps_tasks s ! t) = Some (rq_owner_id req)"
    using ps_drop.hyps(2) by auto
  then obtain p where p: "LOCAL_POOL (ps_world s) = Some p"
    using ps_drop.prems mem by (auto simp: sys_inv_def split: option.splits)
  note D = sys_inv_pool [OF ps_drop.prems p]
  have "sys_inv config \<lparr>ps_world = ps_world s, ps_tasks = (ps_tasks s)[t := Dropped req r]\<rparr>"
    using D(1) D(5) [OF mem task(1)] task p ps_drop.hyps(1)
    by (intro sys_invI [OF ps_drop.prems p, where p' = p])
      (auto simp: users_update_same heap_grows_def dest!: set_update_subset_insert [THEN subsetD])
  then show ?case by (cases s) simp
qed

lemma pool_sys_start_inv: "1 \<le> pc_max_concurrent_per_isolate config \<Longrightarrow> sys_inv config (pool_sys_start config)"
  by (simp add: sys_inv_def pool_sys_start_def pool_world_new_def)

lemma pool_reach_inv:
  assumes "pool_step\<^sup>*\<^sup>* (pool_sys_start config) s" "1 \<le> pc_max_concurrent_per_isolate config"
  shows "sys_inv config s"
  using assms by (induction rule: rtranclp_induct) (auto intro: pool_step_inv pool_sys_start_inv)

lemma dropped_step:
  assumes "pool_step s s'" "t < length (ps_tasks s)" "ps_tasks s ! t = Dropped req r"
  shows "t < length (ps_tasks s') \<and> ps_tasks s' ! t = Dropped req r"
  using assms by (induction rule: pool_step.induct) (auto simp: nth_append nth_list_update)

lemma dropped_run:
  assumes "pool_step\<^sup>*\<^sup>* s s'" "t < length (ps_tasks s)" "ps_tasks s ! t = Dropped req r"
  shows "t < length (ps_tasks s') \<and> ps_tasks s' ! t = Dropped req r"
  using assms by (induction rule: rtranclp_induct) (auto dest: dropped_step)

end
