(* ===== verification/Pool_Properties.thy ===== *)
theory Pool_Properties
  imports Pool_Invariant
begin

text \<open>
  What the pool promises: isolation of owners, the ceilings, the absence of panics, the return of
  every slot, and the rules of the warm cache, for every interleaving of requests and every answer
  of V8.
\<close>

section \<open>A concrete run\<close>

text \<open>A pool of one isolate with overcommit, and a first request on it.\<close>

definition sample_config :: pinned_pool_config where
  "sample_config =
     \<lparr>pc_max_per_thread = 1, pc_max_per_owner = Some 2, pc_max_concurrent_per_isolate = 1,
      pc_max_cached_contexts = 2, pc_overcommit = True, pc_max_context_reuses = 10\<rparr>"

definition sample_request :: pinned_execute_request where
  "sample_request =
     \<lparr>rq_owner_id = ''tenant'', rq_worker_id = ''w'', rq_version = 1, rq_env_updated_at = None, rq_ops = 0\<rparr>"

definition sample_isolate :: tagged_isolate where
  "sample_isolate = (tagged_isolate_new ''tenant'' 1 2 7)\<lparr>ti_concurrency :=
     \<lparr>cs_active = 1, cs_max_concurrent = 1, cs_async_waiter = None\<rparr>\<rparr>"

definition sample_pool :: thread_local_pool where
  "sample_pool =
     \<lparr>tlp_isolates = [0], tlp_policy = config_policy sample_config, tlp_heap = [sample_isolate]\<rparr>"

definition sample_sys :: pool_sys where
  "sample_sys =
     \<lparr>ps_world = \<lparr>POOL_CONFIG = Some sample_config, LOCAL_POOL = Some sample_pool,
        TOTAL_REQUESTS = 1, CACHE_HITS = 0, CACHE_MISSES = 1\<rparr>,
      ps_tasks = [AwaitingInner sample_request 0]\<rparr>"

lemma sample_reachable: "pool_step\<^sup>*\<^sup>* (pool_sys_start sample_config) sample_sys"
proof -
  have "execute_start sample_request 7 (ps_world (pool_sys_start sample_config)) =
      Some (ps_world sample_sys, Inr 0)"
    by code_simp
  from ps_start [OF this] show ?thesis by (simp add: sample_sys_def pool_sys_start_def)
qed

text \<open>The same request carried to its end: it runs without error and its context is cached.\<close>

definition sample_outcome :: run_outcome where
  "sample_outcome = \<lparr>ro_reset = Ok (), ro_new = Ok 5, ro_exec = Ok (), ro_drain = Ok ()\<rparr>"

definition sample_checkout :: "thread_local_pool \<times> cached_context option" where
  "sample_checkout = execute_checkout sample_config sample_request 8 0 sample_pool"

definition sample_finish :: "thread_local_pool \<times> (termination_reason, unit) result" where
  "sample_finish =
     execute_finish sample_config sample_request 9 sample_outcome 0 (snd sample_checkout) (fst sample_checkout)"

definition sample_done :: pool_sys where
  "sample_done =
     \<lparr>ps_world = (ps_world sample_sys)\<lparr>LOCAL_POOL := Some (fst sample_finish)\<rparr>,
      ps_tasks = [Finished (snd sample_finish)]\<rparr>"

lemma sample_finish_isolates: "tlp_isolates (fst sample_finish) = [0]"
  by code_simp

lemma sample_done_reachable: "pool_step\<^sup>*\<^sup>* (pool_sys_start sample_config) sample_done"
proof -
  let ?mid = "\<lparr>ps_world = (ps_world sample_sys)\<lparr>LOCAL_POOL := Some (fst sample_checkout)\<rparr>,
    ps_tasks = [Running sample_request 0 (snd sample_checkout)]\<rparr>"
  have "pool_step sample_sys ?mid"
    using ps_checkout [of 0 sample_sys sample_request 0 sample_config sample_pool 8
        "fst sample_checkout" "snd sample_checkout"]
    by (simp add: sample_sys_def sample_checkout_def)
  moreover have "pool_step ?mid sample_done"
    using ps_finish [of 0 ?mid sample_request 0 "snd sample_checkout" sample_config "fst sample_checkout" 9
        sample_outcome "fst sample_finish" "snd sample_finish"]
    by (simp add: sample_sys_def sample_finish_def sample_done_def)
  ultimately show ?thesis
    using sample_reachable by (meson rtranclp.rtrancl_into_rtrancl)
qed

section \<open>Isolation and ceilings\<close>

text \<open>C1: Isolates serve their owner only, and no request loses its isolate.  In every state that any
  interleaving of requests reaches, a request that has taken an isolate finds it in the pool, the
  isolate belongs to the request's owner, and its counter is exactly the number of requests that took it and
  have not given it back, those dropped in an await included, which is at most the configured concurrency.\<close>

theorem requests_isolated:
  assumes "pool_step\<^sup>*\<^sup>* (pool_sys_start config) s" "1 \<le> pc_max_concurrent_per_isolate config"
    and "t \<in> set (ps_tasks s)" "task_isolate t = Some r"
  shows "\<exists>p. LOCAL_POOL (ps_world s) = Some p \<and> r \<in> set (tlp_isolates p) \<and>
    task_owner t = Some (ti_owner_id (tlp_heap p ! r)) \<and>
    unat (cs_active (ti_concurrency (tlp_heap p ! r))) = users (ps_tasks s) r \<and>
    users (ps_tasks s) r \<le> unat (pc_max_concurrent_per_isolate config)"
proof -
  have inv: "sys_inv config s" using assms(1,2) by (rule pool_reach_inv)
  with assms(3,4) obtain p where p: "LOCAL_POOL (ps_world s) = Some p"
    by (auto simp: sys_inv_def split: option.splits)
  note D = sys_inv_pool [OF inv p]
  have "iso_ok config (users (ps_tasks s) r) (tlp_heap p ! r)"
    using pool_coreD(4) [OF pool_okD(1) [OF D(1)] D(3) [OF assms(3,4)]] .
  with p D(3,5) [OF assms(3,4)] show ?thesis
    by (auto simp: iso_ok_def word_le_nat_alt)
qed

theorem requests_isolated_witness:
  "\<exists>p. LOCAL_POOL (ps_world sample_sys) = Some p \<and> 0 \<in> set (tlp_isolates p) \<and>
     task_owner (AwaitingInner sample_request 0) = Some (ti_owner_id (tlp_heap p ! 0)) \<and>
     unat (cs_active (ti_concurrency (tlp_heap p ! 0))) = users (ps_tasks sample_sys) 0 \<and>
     users (ps_tasks sample_sys) 0 \<le> unat (pc_max_concurrent_per_isolate sample_config)"
  by (rule requests_isolated [OF sample_reachable]) (simp_all add: sample_config_def sample_sys_def)

text \<open>C11: The pool keeps its ceilings.  In every reachable state it holds at most \<open>max_per_thread\<close>
  isolates or, past that, only isolates in use; without overcommit it never passes the ceiling; and
  no owner has more isolates than its limit.\<close>

theorem pool_ceilings:
  assumes "pool_step\<^sup>*\<^sup>* (pool_sys_start config) s" "1 \<le> pc_max_concurrent_per_isolate config"
    and "LOCAL_POOL (ps_world s) = Some p"
  shows "length (tlp_isolates p) \<le> max (pc_max_per_thread config) (st_in_use (tlp_stats p)) \<and>
    (pc_overcommit config \<or> length (tlp_isolates p) \<le> pc_max_per_thread config) \<and>
    (case pc_max_per_owner config of None \<Rightarrow> True | Some limit \<Rightarrow> owned_in p owner \<le> limit)"
proof -
  note ok = sys_inv_pool(1) [OF pool_reach_inv [OF assms(1,2)] assms(3)]
  have "st_in_use (tlp_stats p) = busy p"
    by (simp add: tlp_stats_def Let_def busy_def filter_map comp_def)
  with pool_okD(2) [OF ok] pool_coreD(6,7) [OF pool_okD(1) [OF ok]] show ?thesis
    by (auto split: option.splits)
qed

theorem pool_ceilings_witness:
  "length (tlp_isolates sample_pool) \<le> max 1 (st_in_use (tlp_stats sample_pool)) \<and>
   owned_in sample_pool ''tenant'' \<le> 2"
  using pool_ceilings [OF sample_reachable, of sample_pool "''tenant''"]
  by (simp add: sample_config_def sample_sys_def)

text \<open>C20: When every request has run to its end, every slot is back and the pool is within its ceiling: in a
  reachable state where no request is under way and none was dropped in an await, no
  isolate of the pool is in use, and the isolates built past the ceiling are gone.\<close>

theorem pool_quiescent:
  assumes "pool_step\<^sup>*\<^sup>* (pool_sys_start config) s" "1 \<le> pc_max_concurrent_per_isolate config"
    and "LOCAL_POOL (ps_world s) = Some p" "\<forall>t \<in> set (ps_tasks s). task_isolate t = None"
  shows "st_in_use (tlp_stats p) = 0 \<and> length (tlp_isolates p) \<le> pc_max_per_thread config"
proof -
  note ok = sys_inv_pool(1) [OF pool_reach_inv [OF assms(1,2)] assms(3)]
  have "users (ps_tasks s) r = 0" for r
    using assms(4) by (simp add: users_def filter_empty_conv)
  then have "ti_is_free (tlp_heap p ! r)" if "r \<in> set (tlp_isolates p)" for r
    using iso_ok_free_iff [OF pool_coreD(4) [OF pool_okD(1) [OF ok] that]] by simp
  then have "busy p = 0" "st_in_use (tlp_stats p) = 0"
    by (auto simp: busy_def tlp_stats_def Let_def filter_empty_conv)
  with pool_okD(2) [OF ok] show ?thesis by simp
qed

theorem pool_quiescent_witness:
  "\<exists>p. LOCAL_POOL (ps_world sample_done) = Some p \<and> tlp_isolates p = [0] \<and>
     st_in_use (tlp_stats p) = 0 \<and> length (tlp_isolates p) \<le> 1"
  using pool_quiescent [OF sample_done_reachable, of "fst sample_finish"] sample_finish_isolates
  by (auto simp: sample_done_def sample_config_def)

text \<open>C34: A request whose future is dropped in an await keeps its slot for ever.  After any further steps of any
  requests, its isolate is still in the pool, counts as in use and has one slot less for the others, so it is
  neither evicted nor given to another owner.\<close>

theorem dropped_request_keeps_slot:
  assumes "pool_step\<^sup>*\<^sup>* (pool_sys_start config) s" "1 \<le> pc_max_concurrent_per_isolate config"
    and "t < length (ps_tasks s)" "ps_tasks s ! t = Dropped req r" "pool_step\<^sup>*\<^sup>* s s'"
  shows "\<exists>p. LOCAL_POOL (ps_world s') = Some p \<and> r \<in> set (tlp_isolates p) \<and> \<not> ti_is_free (tlp_heap p ! r) \<and>
    ti_owner_id (tlp_heap p ! r) = rq_owner_id req \<and>
    unat (cs_active (ti_concurrency (tlp_heap p ! r))) = users (ps_tasks s') r \<and> 0 < users (ps_tasks s') r"
proof -
  have inv: "sys_inv config s'" using assms(1,2,5) by (meson pool_reach_inv rtranclp_trans)
  have "t < length (ps_tasks s')" "ps_tasks s' ! t = Dropped req r" using dropped_run [OF assms(5,3,4)] by simp_all
  then have mem: "Dropped req r \<in> set (ps_tasks s')" by (metis nth_mem)
  with inv obtain p where p: "LOCAL_POOL (ps_world s') = Some p"
    by (auto simp: sys_inv_def split: option.splits)
  note D = sys_inv_pool [OF inv p]
  have ok: "iso_ok config (users (ps_tasks s') r) (tlp_heap p ! r)"
    using pool_coreD(4) [OF pool_okD(1) [OF D(1)] D(3) [OF mem]] by simp
  have "0 < users (ps_tasks s') r" using users_pos [OF mem] by simp
  with ok iso_ok_free_iff [OF ok] p D(3,5) [OF mem] show ?thesis by (auto simp: iso_ok_def)
qed

text \<open>A pool of one isolate without overcommit: its only request is dropped, and from then on every other owner is
  refused.\<close>

definition small_config :: pinned_pool_config where
  "small_config = sample_config\<lparr>pc_overcommit := False\<rparr>"

definition small_start :: pool_world where
  "small_start = fst (the (execute_start sample_request 7 (ps_world (pool_sys_start small_config))))"

definition other_request :: pinned_execute_request where
  "other_request = sample_request\<lparr>rq_owner_id := ''other''\<rparr>"

definition small_later :: "pool_world \<times> (termination_reason, isolate_ref) result" where
  "small_later = the (execute_start other_request 99 small_start)"

theorem dropped_request_keeps_slot_witness:
  "snd small_later = Err (Other (message PoolFull)) \<and>
   (\<exists>p. LOCAL_POOL (fst small_later) = Some p \<and> 0 \<in> set (tlp_isolates p) \<and> \<not> ti_is_free (tlp_heap p ! 0))"
proof -
  let ?s1 = "\<lparr>ps_world = small_start, ps_tasks = [AwaitingInner sample_request 0]\<rparr>"
  let ?s2 = "\<lparr>ps_world = small_start, ps_tasks = [Dropped sample_request 0]\<rparr>"
  let ?s3 = "\<lparr>ps_world = fst small_later, ps_tasks = [Dropped sample_request 0, Finished (Err (Other (message PoolFull)))]\<rparr>"
  have "execute_start sample_request 7 (ps_world (pool_sys_start small_config)) = Some (small_start, Inr 0)" by code_simp
  from ps_start [OF this] have 1: "pool_step (pool_sys_start small_config) ?s1" by (simp add: pool_sys_start_def)
  have 2: "pool_step ?s1 ?s2" using ps_drop [of 0 ?s1 sample_request 0] by simp
  have "execute_start other_request 99 small_start = Some (fst small_later, snd small_later)"
    and refused: "snd small_later = Err (Other (message PoolFull))" by code_simp+
  then have 3: "pool_step ?s2 ?s3" using ps_refuse [of other_request 99 ?s2] by simp
  have "1 \<le> pc_max_concurrent_per_isolate small_config" by code_simp
  moreover have "pool_step\<^sup>*\<^sup>* (pool_sys_start small_config) ?s2" using 1 2 by (meson rtranclp.rtrancl_into_rtrancl rtranclp.rtrancl_refl)
  moreover have "pool_step\<^sup>*\<^sup>* ?s2 ?s3" using 3 by (rule r_into_rtranclp)
  ultimately show ?thesis using dropped_request_keeps_slot [of small_config ?s2 0 sample_request 0 ?s3] refused by auto
qed

text \<open>The assertions of the pool never fail.  Once the pool has been initialised with a positive
  concurrency, a new request in any reachable state either takes an isolate or is refused: no
  \<open>assert!\<close> or \<open>expect\<close> on the way can panic.\<close>

lemma execute_start_total:
  assumes "pool_step\<^sup>*\<^sup>* (pool_sys_start config) s" "1 \<le> pc_max_concurrent_per_isolate config"
  shows "execute_start req now (ps_world s) \<noteq> None"
  by (rule execute_start_ok [OF pool_reach_inv [OF assms], of req now]) auto

section \<open>The warm cache\<close>

text \<open>The warm cache stays bounded.  In every reachable state each isolate of the pool holds at
  most \<open>max_cached_contexts\<close> contexts, and every one of them has served fewer than
  \<open>max_context_reuses\<close> requests, so the next request for its deployment can take it.\<close>

lemma warm_cache_bounded:
  assumes "pool_step\<^sup>*\<^sup>* (pool_sys_start config) s" "1 \<le> pc_max_concurrent_per_isolate config"
    and "LOCAL_POOL (ps_world s) = Some p" "r \<in> set (tlp_isolates p)"
  shows "length (ti_cached_contexts (tlp_heap p ! r)) \<le> pc_max_cached_contexts config \<and>
    list_all (\<lambda>c. cc_reuse_count c < pc_max_context_reuses config) (ti_cached_contexts (tlp_heap p ! r))"
proof -
  note ok = sys_inv_pool(1) [OF pool_reach_inv [OF assms(1,2)] assms(3)]
  from pool_coreD(4) [OF pool_okD(1) [OF ok] assms(4)] show ?thesis
    by (auto simp: iso_ok_def list_all_iff)
qed

lemma checkout_rest:
  assumes "checkout config req now ti = (ti', hit, gone)"
  shows "mset (ti_cached_contexts ti) =
    mset (ti_cached_contexts ti') + mset gone + (case hit of None \<Rightarrow> {#} | Some c \<Rightarrow> {#c#})"
    and "\<forall>c \<in> set (ti_cached_contexts ti'). \<not> superseded (cached_key c) (wanted_key req)"
    and "\<forall>c \<in> set gone. superseded (cached_key c) (wanted_key req)"
proof -
  let ?cached = "ti_cached_contexts ti" and ?S = "\<lambda>c. superseded (cached_key c) (wanted_key req)"
  let ?found = "warm_hit (map (\<lambda>c. (cached_key c, cc_reuse_count c)) ?cached) (wanted_key req)
    (pc_max_context_reuses config)"
  let ?rest = "swap_remove_opt ?found ?cached"
  have loop: "superseded_loop (wanted_key req) 0 ?rest [] = (ti_cached_contexts ti', gone)"
    and hit: "hit = map_option ((!) ?cached) ?found"
    using assms by (auto simp: checkout_def Let_def split: prod.splits)
  have kept: "mset (ti_cached_contexts ti') = filter_mset (\<lambda>c. \<not> ?S c) (mset ?rest)"
    and out: "mset gone = filter_mset ?S (mset ?rest)"
    using superseded_loop_correct [OF loop] by simp_all
  have rest: "mset ?cached = mset ?rest + (case hit of None \<Rightarrow> {#} | Some c \<Rightarrow> {#c#})"
  proof (cases ?found)
    case (Some i)
    then have "i < length ?cached" using warm_hit_SomeD(1) by fastforce
    with Some hit show ?thesis by (simp add: swap_remove_opt_def mset_swap_remove)
  qed (simp add: hit swap_remove_opt_def)
  show "mset ?cached = mset (ti_cached_contexts ti') + mset gone + (case hit of None \<Rightarrow> {#} | Some c \<Rightarrow> {#c#})"
    unfolding rest kept out using multiset_partition [of "mset ?rest" "\<lambda>c. \<not> ?S c"] by simp
  show "\<forall>c \<in> set (ti_cached_contexts ti'). \<not> ?S c" "\<forall>c \<in> set gone. ?S c"
    using arg_cong [OF kept, of set_mset] arg_cong [OF out, of set_mset] by auto
qed

lemma checkout_hit:
  assumes "checkout config req now ti = (ti', hit, gone)"
  shows "hit = None \<longleftrightarrow> (\<forall>c \<in> set (ti_cached_contexts ti). \<not> (cached_key c = wanted_key req \<and>
      cc_reuse_count c < pc_max_context_reuses config))"
    and "hit = Some c \<Longrightarrow> cached_key c = wanted_key req \<and> cc_reuse_count c < pc_max_context_reuses config"
proof -
  have "hit = map_option ((!) (ti_cached_contexts ti))
      (warm_hit (map (\<lambda>c. (cached_key c, cc_reuse_count c)) (ti_cached_contexts ti)) (wanted_key req)
        (pc_max_context_reuses config))"
    using assms by (auto simp: checkout_def Let_def split: prod.splits)
  then show "hit = None \<longleftrightarrow> (\<forall>c \<in> set (ti_cached_contexts ti). \<not> (cached_key c = wanted_key req \<and>
      cc_reuse_count c < pc_max_context_reuses config))"
    by (simp add: warm_hit_def position_None_iff)
  show "hit = Some c \<Longrightarrow> cached_key c = wanted_key req \<and> cc_reuse_count c < pc_max_context_reuses config"
    by (rule checkout_cases [OF assms]) auto
qed

text \<open>Taking a warm context loses nothing and mixes nothing up.  The contexts of the isolate are
  split into the ones that stay, the superseded ones and the one taken; the one taken was built for
  exactly the wanted worker, version and environment and may still be reused; none is taken only if
  there is none to take; what goes is superseded and what stays is not.\<close>

lemma checkout_correct:
  assumes "checkout config req now ti = (ti', hit, gone)"
  shows "mset (ti_cached_contexts ti) =
      mset (ti_cached_contexts ti') + mset gone + (case hit of None \<Rightarrow> {#} | Some c \<Rightarrow> {#c#}) \<and>
    (case hit of
       Some c \<Rightarrow> cached_key c = wanted_key req \<and> cc_reuse_count c < pc_max_context_reuses config
     | None \<Rightarrow> \<not> list_ex (\<lambda>c. cached_key c = wanted_key req \<and> cc_reuse_count c < pc_max_context_reuses config)
                 (ti_cached_contexts ti)) \<and>
    list_all (\<lambda>c. superseded (cached_key c) (wanted_key req)) gone \<and>
    \<not> list_ex (\<lambda>c. superseded (cached_key c) (wanted_key req)) (ti_cached_contexts ti')"
  using checkout_rest [OF assms] checkout_hit [OF assms]
  by (auto simp: list_all_iff list_ex_iff split: option.splits)

definition sample_context :: "int \<Rightarrow> cached_context" where
  "sample_context version =
     \<lparr>cc_request = 1, cc_worker_id = ''w'', cc_version = version, cc_reuse_count = 3, cc_last_used = 4,
      cc_ops = 0, cc_env_updated_at = None\<rparr>"

lemma run_request_key:
  assumes "run_request config req now out hit = (Some c, result)"
    and "\<And>c. hit = Some c \<Longrightarrow> cached_key c = wanted_key req"
  shows "cached_key c = wanted_key req"
  using assms
  by (auto simp: run_request_def warm_path_def cold_path_def Let_def cached_key_def wanted_key_def
      split: option.splits if_splits sum.splits)

text \<open>A cached context is found again.  A request checks out an isolate, runs, and leaves a
  context to save.  Once that context is saved, the next request for the same deployment on that
  isolate takes a warm context, whatever else the isolate holds by then.\<close>

lemma saved_context_is_taken:
  assumes "checkout config req now ti = (ti', hit, gone)"
    and "run_request config req now' out hit = (Some c, result)"
    and "wanted_key req' = wanted_key req"
    and "checkout config req' later (save_context c ti2) = (ti3, hit', gone')"
  shows "hit' \<noteq> None"
proof -
  have "c \<in> set (ti_cached_contexts (save_context c ti2))" by (simp add: save_context_def Let_def)
  moreover have "cached_key c = wanted_key req'"
    using run_request_key [OF assms(2)] checkout_hit(2) [OF assms(1)] assms(3) by auto
  ultimately show ?thesis
    using checkout_hit(1) [OF assms(4)] run_request_save(1) [OF assms(2)] by auto
qed

text \<open>A context is cached only after a clean run.  If a request leaves a context to save, then its
  event and its background work both ended without error and the request reports success; and the
  use count written to the cache is the old one plus one, which does not wrap.\<close>

lemma only_clean_contexts_cached:
  assumes "checkout config req now ti = (ti', hit, gone)"
    and "run_request config req now' out hit = (Some c, result)"
  shows "ro_exec out = Ok () \<and> ro_drain out = Ok () \<and> result = Ok () \<and>
    (if hit \<noteq> None \<and> is_ok (ro_reset out)
     then unat (cc_reuse_count c) = Suc (unat (cc_reuse_count (the hit)))
     else cc_reuse_count c = 1)"
  using assms(2) checkout_hit(2) [OF assms(1)]
  by (auto simp: run_request_def warm_path_def cold_path_def Let_def is_err_def is_ok_iff unat_plus_1_less
      split: option.splits if_splits sum.splits)

end
