(* ===== verification/Turn.thy ===== *)
theory Turn
  imports Prelude
begin

text \<open>
  Which request runs JS on an isolate, from \<open>src/src/security/turn.rs\<close>, and the memory limits that
  stop it, from \<open>src/src/security/heap_limit.rs\<close> and \<open>src/src/security/array_buffer_allocator.rs\<close>.
  The isolate handle is represented by whether a termination is pending on it: the runtime requests
  one with \<open>terminate_execution\<close> and withdraws it with \<open>cancel_terminate_execution\<close>.
\<close>

section \<open>The turn\<close>

record turn =
  tn_terminating :: bool
  tn_holder :: "u64 option"
  tn_memory_limit_hit :: bool

definition turn_new :: turn where
  "turn_new = \<lparr>tn_terminating = False, tn_holder = None, tn_memory_limit_hit = False\<rparr>"

definition turn_begin :: "u64 \<Rightarrow> turn \<Rightarrow> turn" where
  "turn_begin request t = t\<lparr>tn_holder := Some request, tn_terminating := False\<rparr>"

definition turn_end :: "turn \<Rightarrow> turn \<times> bool" where
  "turn_end t = (t\<lparr>tn_holder := None, tn_memory_limit_hit := False\<rparr>, tn_memory_limit_hit t)"

definition turn_terminate :: "u64 \<Rightarrow> turn \<Rightarrow> turn \<times> bool" where
  "turn_terminate request t =
     (if tn_holder t \<noteq> Some request then (t, False) else (t\<lparr>tn_terminating := True\<rparr>, True))"

definition next_request_id :: "u64 \<Rightarrow> u64 \<times> u64" where
  "next_request_id NEXT = (NEXT + 1, NEXT)"

section \<open>The heap limit\<close>

record heap_limit_state =
  hl_invocation_count :: u32
  hl_max_heap_bytes :: usize

definition heap_limit_state_new :: "usize \<Rightarrow> heap_limit_state" where
  "heap_limit_state_new max_heap_bytes =
     \<lparr>hl_invocation_count = 0, hl_max_heap_bytes = max_heap_bytes\<rparr>"

definition TERMINATION_HEADROOM :: usize where
  "TERMINATION_HEADROOM = 2 * 1024 * 1024"

text \<open>The flag and the termination go to the isolate whose turn is passed along.\<close>

definition near_heap_limit_callback ::
    "usize \<Rightarrow> heap_limit_state \<Rightarrow> turn \<Rightarrow> heap_limit_state \<times> turn \<times> usize" where
  "near_heap_limit_callback current_heap_limit st t =
     (st\<lparr>hl_invocation_count := hl_invocation_count st + 1\<rparr>,
      t\<lparr>tn_memory_limit_hit := True, tn_terminating := True\<rparr>,
      current_heap_limit + TERMINATION_HEADROOM)"

section \<open>The ArrayBuffer allocator\<close>

record custom_allocator =
  ca_max :: usize
  ca_count :: usize

definition custom_allocator_new :: "usize \<Rightarrow> custom_allocator" where
  "custom_allocator_new max_bytes = \<lparr>ca_max = max_bytes, ca_count = 0\<rparr>"

text \<open>\<open>allocate\<close> and \<open>allocate_uninitialized\<close>, which differ only in the contents of the memory.  The
  answer is whether the allocation is granted (False is the null pointer).\<close>

definition ca_allocate :: "usize \<Rightarrow> custom_allocator \<Rightarrow> turn \<Rightarrow> custom_allocator \<times> turn \<times> bool" where
  "ca_allocate n a t =
     (let a = a\<lparr>ca_count := ca_count a + n\<rparr>; count_loaded = ca_count a in
      if count_loaded > ca_max a
      then (a\<lparr>ca_count := ca_count a - n\<rparr>, t\<lparr>tn_memory_limit_hit := True\<rparr>, False)
      else (a, t, True))"

definition ca_free :: "usize \<Rightarrow> custom_allocator \<Rightarrow> custom_allocator" where
  "ca_free n a = a\<lparr>ca_count := ca_count a - n\<rparr>"

text \<open>A run of the allocator over the requests of V8, with the sizes of the buffers alive.\<close>

datatype alloc_call = Allocate usize | Free nat

definition ca_run_step :: "alloc_call \<Rightarrow> custom_allocator \<times> usize list \<Rightarrow> custom_allocator \<times> usize list" where
  "ca_run_step c s =
     (case (c, s) of
        (Allocate n, (a, live)) \<Rightarrow>
          (let (a', t', granted) = ca_allocate n a turn_new in (a', if granted then live @ [n] else live))
      | (Free i, (a, live)) \<Rightarrow>
          (if i < length live then (ca_free (live ! i) a, remove_at i live) else (a, live)))"

definition live_bytes :: "usize list \<Rightarrow> nat" where
  "live_bytes live = sum_list (map unat live)"

definition ca_inv :: "custom_allocator \<times> usize list \<Rightarrow> bool" where
  "ca_inv s \<longleftrightarrow> unat (ca_count (fst s)) = live_bytes (snd s) \<and> ca_count (fst s) \<le> ca_max (fst s)"

section \<open>Lemmas\<close>

lemma turn_terminate_simps [effect_simps]:
  "tn_holder (fst (turn_terminate r t)) = tn_holder t"
  "tn_memory_limit_hit (fst (turn_terminate r t)) = tn_memory_limit_hit t"
  "tn_terminating (fst (turn_terminate r t)) \<longleftrightarrow> tn_terminating t \<or> tn_holder t = Some r"
  by (auto simp: turn_terminate_def)

lemma turn_begin_simps [effect_simps]:
  "tn_holder (turn_begin r t) = Some r"
  "\<not> tn_terminating (turn_begin r t)"
  "tn_memory_limit_hit (turn_begin r t) = tn_memory_limit_hit t"
  by (simp_all add: turn_begin_def)

lemma turn_end_simps [effect_simps]:
  "tn_holder (fst (turn_end t)) = None"
  "\<not> tn_memory_limit_hit (fst (turn_end t))"
  "tn_terminating (fst (turn_end t)) = tn_terminating t"
  "snd (turn_end t) = tn_memory_limit_hit t"
  by (simp_all add: turn_end_def)

lemma unat_plus_small:
  fixes x y :: "'a :: len word"
  assumes "unat x + unat y < 2 ^ LENGTH('a)"
  shows "unat (x + y) = unat x + unat y"
  using assms by (simp add: unat_word_ariths(1))

lemma unat_minus_small:
  fixes x y :: "'a :: len word"
  assumes "unat y \<le> unat x"
  shows "unat (x - y) = unat x - unat y"
  using assms by (simp add: unat_sub word_le_nat_alt)

lemma live_bytes_remove_at:
  "i < length live \<Longrightarrow> live_bytes live = unat (live ! i) + live_bytes (remove_at i live)"
  unfolding live_bytes_def
  using arg_cong [OF mset_remove_at, of i live "\<lambda>M. sum_mset (image_mset unat M)"]
  by (simp flip: sum_mset_sum_list)

lemma half_sum:
  assumes "unat (x :: usize) < 2 ^ 63" "unat (y :: usize) < 2 ^ 63"
  shows "unat (x + y) = unat x + unat y"
  using assms by (intro unat_plus_small) simp

lemma ca_allocate_exact:
  assumes "ca_inv (a, live)" "unat (ca_max a) < 2 ^ 63" "unat n < 2 ^ 63"
  shows "snd (snd (ca_allocate n a t)) \<longleftrightarrow> live_bytes live + unat n \<le> unat (ca_max a)"
proof -
  have "unat (ca_count a) < 2 ^ 63" using assms by (auto simp: ca_inv_def word_le_nat_alt)
  then have "unat (ca_count a + n) = live_bytes live + unat n"
    using half_sum assms by (auto simp: ca_inv_def)
  then show ?thesis by (simp add: ca_allocate_def Let_def word_less_nat_alt not_less)
qed

lemma ca_run_step_inv:
  assumes inv: "ca_inv s" and limit: "unat (ca_max (fst s)) < 2 ^ 63"
    and n: "\<And>n. c = Allocate n \<Longrightarrow> unat n < 2 ^ 63"
  shows "ca_inv (ca_run_step c s) \<and> ca_max (fst (ca_run_step c s)) = ca_max (fst s)"
proof -
  obtain a live where s: "s = (a, live)" by fastforce
  show ?thesis
  proof (cases c)
    case (Allocate n)
    have "unat (ca_count a) < 2 ^ 63" using inv limit by (auto simp: s ca_inv_def word_le_nat_alt)
    with inv n [OF Allocate] have "unat (ca_count a + n) = live_bytes live + unat n"
      using half_sum by (auto simp: s ca_inv_def)
    with inv show ?thesis
      by (auto simp: Allocate s ca_run_step_def ca_allocate_def ca_inv_def Let_def live_bytes_def not_less)
  next
    case (Free i)
    show ?thesis
    proof (cases "i < length live")
      case True
      note bytes = live_bytes_remove_at [OF True]
      have "unat (ca_count a - live ! i) = live_bytes (remove_at i live)"
        using inv bytes by (subst unat_minus_small) (auto simp: s ca_inv_def)
      with inv bytes True show ?thesis
        by (auto simp: Free s ca_run_step_def ca_free_def ca_inv_def word_le_nat_alt)
    next
      case False
      with inv show ?thesis by (auto simp: Free s ca_run_step_def)
    qed
  qed
qed

lemma ca_run_inv:
  assumes "unat limit < 2 ^ 63" "\<forall>n. Allocate n \<in> set cs \<longrightarrow> unat n < 2 ^ 63"
  shows "ca_inv (fold ca_run_step cs (custom_allocator_new limit, [])) \<and>
    ca_max (fst (fold ca_run_step cs (custom_allocator_new limit, []))) = limit"
  using assms
proof (induction cs rule: rev_induct)
  case Nil
  show ?case by (simp add: ca_inv_def custom_allocator_new_def live_bytes_def)
next
  case (snoc c cs)
  then show ?case
    using ca_run_step_inv [of "fold ca_run_step cs (custom_allocator_new limit, [])" c] by auto
qed

section \<open>Properties\<close>

text \<open>ArrayBuffers never pass their limit, and the limit refuses only what passes it.  After any
  sequence of allocations and frees, with a limit and sizes below half the address space, the
  counter is the sum of the live buffers and at most the limit; the next allocation is granted
  exactly when it fits next to them.  A refusal therefore leaves the quota as it was.\<close>

lemma array_buffers_bounded:
  assumes "unat limit < 2 ^ 63" "\<forall>n. Allocate n \<in> set cs \<longrightarrow> unat n < 2 ^ 63" "unat n < 2 ^ 63"
    and "fold ca_run_step cs (custom_allocator_new limit, []) = (a, live)"
  shows "unat (ca_count a) = live_bytes live \<and> live_bytes live \<le> unat limit \<and>
    (snd (snd (ca_allocate n a t)) \<longleftrightarrow> live_bytes live + unat n \<le> unat limit)"
proof -
  have inv: "ca_inv (a, live)" "ca_max a = limit" using ca_run_inv [OF assms(1,2)] assms(4) by auto
  with ca_allocate_exact [OF inv(1), of n t] assms(1,3) show ?thesis
    by (auto simp: ca_inv_def word_le_nat_alt)
qed

text \<open>The near-heap-limit callback always gives V8 room to unwind.  For a limit that leaves the
  headroom addressable it returns a strictly larger limit, and it has marked the isolate's memory
  flag and requested termination by then.\<close>

lemma heap_callback_makes_room:
  assumes "unat current_heap_limit + unat TERMINATION_HEADROOM < 2 ^ 64"
    and "near_heap_limit_callback current_heap_limit st t = (st', t', new_limit)"
  shows "current_heap_limit < new_limit \<and> tn_memory_limit_hit t' \<and> tn_terminating t' \<and>
    tn_holder t' = tn_holder t"
proof -
  have "unat new_limit = unat current_heap_limit + unat TERMINATION_HEADROOM"
    using assms unat_plus_small [of current_heap_limit TERMINATION_HEADROOM]
    by (auto simp: near_heap_limit_callback_def)
  moreover have "0 < unat TERMINATION_HEADROOM" by (simp add: TERMINATION_HEADROOM_def)
  ultimately have "current_heap_limit < new_limit" by (simp add: word_less_nat_alt)
  with assms(2) show ?thesis by (auto simp: near_heap_limit_callback_def)
qed

end
