(* ===== verification/Cpu_Enforcer.thy ===== *)
theory Cpu_Enforcer
  imports Turn
begin

text \<open>
  The CPU limit of one request, from \<open>src/src/security/cpu_enforcer.rs\<close>, and the turn guard of
  \<open>src/src/security/turn.rs\<close> that drives it.  Durations are natural numbers of nanoseconds.  A
  reading of the thread's CPU clock is an argument, None where the platform has no such clock.  The
  Linux timer is what it is armed with.  The macOS watchdog is modelled by its check of a slot and
  by the protocol with which it parks.
\<close>

section \<open>The enforcer\<close>

record cpu_enforcer =
  ce_budget :: nat
  ce_remaining :: nat
  ce_turn_started :: "nat option"
  ce_terminated :: bool
  ce_timer :: "nat option"

definition timer_set :: "nat \<Rightarrow> cpu_enforcer \<Rightarrow> cpu_enforcer" where
  "timer_set after ce = ce\<lparr>ce_timer := (if after = 0 then None else Some after)\<rparr>"

definition timer_arm :: "nat \<Rightarrow> cpu_enforcer \<Rightarrow> cpu_enforcer" where
  "timer_arm after ce = timer_set (max after 1000) ce"

definition timer_disarm :: "cpu_enforcer \<Rightarrow> cpu_enforcer" where
  "timer_disarm ce = timer_set 0 ce"

definition cpu_enforcer_new :: "nat option \<Rightarrow> bool \<Rightarrow> u64 \<Rightarrow> cpu_enforcer option" where
  "cpu_enforcer_new clock timer_created timeout_ms =
     (if timeout_ms = 0 then None
      else if clock = None then None
      else if \<not> timer_created then None
      else (let budget = unat timeout_ms * 1000000 in
            Some \<lparr>ce_budget = budget, ce_remaining = budget, ce_turn_started = None,
                  ce_terminated = False, ce_timer = None\<rparr>))"

definition begin_turn :: "nat option \<Rightarrow> cpu_enforcer \<Rightarrow> cpu_enforcer" where
  "begin_turn clock ce = timer_arm (ce_remaining ce) (ce\<lparr>ce_turn_started := clock\<rparr>)"

definition end_turn :: "nat option \<Rightarrow> cpu_enforcer \<Rightarrow> cpu_enforcer" where
  "end_turn clock ce =
     (let ce' = (timer_disarm ce)\<lparr>ce_turn_started := None\<rparr> in
      case (ce_turn_started ce, clock) of
        (Some started, Some now) \<Rightarrow>
          (let left = saturating_sub (ce_remaining ce) (saturating_sub now started) in
           ce'\<lparr>ce_remaining := left, ce_terminated := (left = 0 \<or> ce_terminated ce)\<rparr>)
      | _ \<Rightarrow> ce')"

definition ce_refill :: "cpu_enforcer \<Rightarrow> cpu_enforcer" where
  "ce_refill ce = (if \<not> ce_terminated ce then ce\<lparr>ce_remaining := ce_budget ce\<rparr> else ce)"

text \<open>The signal thread, for a signal of the timer of this enforcer: the first one marks the request
  and terminates it through the turn.\<close>

definition timer_signal :: "u64 \<Rightarrow> cpu_enforcer \<Rightarrow> turn \<Rightarrow> cpu_enforcer \<times> turn" where
  "timer_signal request ce t =
     (if \<not> ce_terminated ce then (ce\<lparr>ce_terminated := True\<rparr>, fst (turn_terminate request t)) else (ce, t))"

section \<open>The turn guard\<close>

definition guard_begin ::
    "u64 \<Rightarrow> nat option \<Rightarrow> turn \<Rightarrow> cpu_enforcer option \<Rightarrow> turn \<times> cpu_enforcer option" where
  "guard_begin request clock t cpu = (turn_begin request t, map_option (begin_turn clock) cpu)"

definition guard_drop ::
    "nat option \<Rightarrow> turn \<Rightarrow> cpu_enforcer option \<Rightarrow> bool \<Rightarrow> turn \<times> cpu_enforcer option \<times> bool" where
  "guard_drop clock t cpu memory_hit =
     (let cpu = map_option (end_turn clock) cpu; (t, hit) = turn_end t in
      (t, cpu, if hit then True else memory_hit))"

section \<open>The macOS watchdog\<close>

record armed_turn =
  am_start :: nat
  am_budget :: nat
  am_request :: u64

record cpu_slot =
  sl_armed :: "armed_turn option"
  sl_errors :: nat

text \<open>\<open>Target::new\<close>: a request whose watchdog is gone starts terminated.\<close>

definition target_new :: "bool \<Rightarrow> cpu_enforcer \<Rightarrow> cpu_enforcer" where
  "target_new alive ce = (if \<not> alive then ce\<lparr>ce_terminated := True\<rparr> else ce)"

definition slot_arm :: "u64 \<Rightarrow> nat \<Rightarrow> nat \<Rightarrow> cpu_slot \<Rightarrow> cpu_slot" where
  "slot_arm request start budget sl =
     sl\<lparr>sl_armed := Some \<lparr>am_start = start div 1000, am_budget = budget div 1000, am_request = request\<rparr>\<rparr>"

definition slot_disarm :: "cpu_slot \<Rightarrow> cpu_slot" where
  "slot_disarm sl = sl\<lparr>sl_armed := None\<rparr>"

text \<open>\<open>check\<close>: \<open>now\<close> is the CPU time of the thread in microseconds, or None when \<open>thread_info\<close> fails;
  \<open>terminated\<close> is the flag of the armed request.  The answer is whether the slot is armed.\<close>

definition slot_check :: "nat option \<Rightarrow> cpu_slot \<Rightarrow> bool \<Rightarrow> turn \<Rightarrow> cpu_slot \<times> bool \<times> turn \<times> bool" where
  "slot_check now sl terminated t =
     (case sl_armed sl of
        None \<Rightarrow> (sl, terminated, t, False)
      | Some armed \<Rightarrow>
          (case now of
             Some now \<Rightarrow>
               (if saturating_sub now (am_start armed) \<ge> am_budget armed \<and> \<not> terminated
                then (sl, True, fst (turn_terminate (am_request armed) t), True)
                else (sl, terminated, t, True))
           | None \<Rightarrow> (sl\<lparr>sl_errors := Suc (sl_errors sl)\<rparr>, terminated, t, True)))"

text \<open>The parking of the watchdog after \<open>IDLE_TICKS\<close> idle ticks, against a turn that arms its slot.
  The watchdog takes the wake lock, marks itself parked, looks for an armed slot, and waits only if
  there is none.  The turn arms its slot, reads the mark, and notifies under the wake lock.\<close>

datatype watchdog_pc = Ticking | WakeLocked | MarkedParked | Looked bool | Waiting | Woken

datatype arming_pc = Disarmed | SlotSet | SawParked | HoldsWakeLock | ArmedDone

datatype lock_owner = Nobody | ByWatchdog | ByTurn

record park_sys =
  pk_watchdog :: watchdog_pc
  pk_turn :: arming_pc
  pk_lock :: lock_owner
  pk_parked :: bool
  pk_armed :: bool

definition park_start :: park_sys where
  "park_start = \<lparr>pk_watchdog = Ticking, pk_turn = Disarmed, pk_lock = Nobody, pk_parked = False, pk_armed = False\<rparr>"

inductive park_step :: "park_sys \<Rightarrow> park_sys \<Rightarrow> bool" where
  wd_lock: "\<lbrakk>pk_watchdog s = Ticking; pk_lock s = Nobody\<rbrakk>
    \<Longrightarrow> park_step s (s\<lparr>pk_watchdog := WakeLocked, pk_lock := ByWatchdog\<rparr>)"
| wd_mark: "pk_watchdog s = WakeLocked \<Longrightarrow> park_step s (s\<lparr>pk_watchdog := MarkedParked, pk_parked := True\<rparr>)"
| wd_look: "pk_watchdog s = MarkedParked \<Longrightarrow> park_step s (s\<lparr>pk_watchdog := Looked (pk_armed s)\<rparr>)"
| wd_stay: "pk_watchdog s = Looked True
    \<Longrightarrow> park_step s (s\<lparr>pk_watchdog := Ticking, pk_parked := False, pk_lock := Nobody\<rparr>)"
| wd_wait: "pk_watchdog s = Looked False \<Longrightarrow> park_step s (s\<lparr>pk_watchdog := Waiting, pk_lock := Nobody\<rparr>)"
| wd_spurious: "pk_watchdog s = Waiting \<Longrightarrow> park_step s (s\<lparr>pk_watchdog := Woken\<rparr>)"
| wd_resume: "\<lbrakk>pk_watchdog s = Woken; pk_lock s = Nobody\<rbrakk>
    \<Longrightarrow> park_step s (s\<lparr>pk_watchdog := Ticking, pk_parked := False\<rparr>)"
| arm_slot: "pk_turn s = Disarmed \<Longrightarrow> park_step s (s\<lparr>pk_turn := SlotSet, pk_armed := True\<rparr>)"
| arm_unparked: "\<lbrakk>pk_turn s = SlotSet; \<not> pk_parked s\<rbrakk> \<Longrightarrow> park_step s (s\<lparr>pk_turn := ArmedDone\<rparr>)"
| arm_parked: "\<lbrakk>pk_turn s = SlotSet; pk_parked s\<rbrakk> \<Longrightarrow> park_step s (s\<lparr>pk_turn := SawParked\<rparr>)"
| arm_lock: "\<lbrakk>pk_turn s = SawParked; pk_lock s = Nobody\<rbrakk>
    \<Longrightarrow> park_step s (s\<lparr>pk_turn := HoldsWakeLock, pk_lock := ByTurn\<rparr>)"
| arm_notify: "pk_turn s = HoldsWakeLock
    \<Longrightarrow> park_step s (s\<lparr>pk_turn := ArmedDone, pk_lock := Nobody,
                       pk_watchdog := (if pk_watchdog s = Waiting then Woken else pk_watchdog s)\<rparr>)"
| disarm_slot: "pk_turn s = ArmedDone \<Longrightarrow> park_step s (s\<lparr>pk_turn := Disarmed, pk_armed := False\<rparr>)"

fun wd_holds_lock :: "watchdog_pc \<Rightarrow> bool" where
  "wd_holds_lock Ticking = False"
| "wd_holds_lock WakeLocked = True"
| "wd_holds_lock MarkedParked = True"
| "wd_holds_lock (Looked _) = True"
| "wd_holds_lock Waiting = False"
| "wd_holds_lock Woken = False"

fun wd_is_marked :: "watchdog_pc \<Rightarrow> bool" where
  "wd_is_marked Ticking = False"
| "wd_is_marked WakeLocked = False"
| "wd_is_marked _ = True"

definition park_inv :: "park_sys \<Rightarrow> bool" where
  "park_inv s \<longleftrightarrow>
     (pk_lock s = ByWatchdog \<longleftrightarrow> wd_holds_lock (pk_watchdog s)) \<and>
     (pk_lock s = ByTurn \<longleftrightarrow> pk_turn s = HoldsWakeLock) \<and>
     (wd_is_marked (pk_watchdog s) \<longrightarrow> pk_parked s) \<and>
     (pk_armed s \<longleftrightarrow> pk_turn s \<noteq> Disarmed) \<and>
     (pk_watchdog s = Looked False \<or> pk_watchdog s = Waiting \<longrightarrow> pk_turn s \<noteq> ArmedDone)"

section \<open>Accounting\<close>

text \<open>The turns of one request, as the clock readings at their starts and ends.\<close>

definition run_turns :: "(nat \<times> nat) list \<Rightarrow> cpu_enforcer \<Rightarrow> cpu_enforcer" where
  "run_turns = fold (\<lambda>(started, ended) ce. end_turn (Some ended) (begin_turn (Some started) ce))"

definition cpu_spent :: "(nat \<times> nat) list \<Rightarrow> nat" where
  "cpu_spent ts = sum_list (map (\<lambda>(started, ended). ended - started) ts)"

lemma turn_effect [effect_simps]:
  "ce_remaining (end_turn (Some e) (begin_turn (Some b) ce)) = ce_remaining ce - (e - b)"
  "ce_terminated (end_turn (Some e) (begin_turn (Some b) ce)) \<longleftrightarrow>
     ce_remaining ce \<le> e - b \<or> ce_terminated ce"
  "ce_budget (end_turn (Some e) (begin_turn (Some b) ce)) = ce_budget ce"
  "ce_timer (end_turn (Some e) (begin_turn (Some b) ce)) = None"
  by (auto simp: end_turn_def begin_turn_def timer_arm_def timer_disarm_def timer_set_def Let_def)

lemma run_turns_effect:
  "ce_remaining (run_turns ts ce) = ce_remaining ce - cpu_spent ts \<and>
   (ce_terminated (run_turns ts ce) \<longleftrightarrow> ce_terminated ce \<or> ts \<noteq> [] \<and> ce_remaining ce \<le> cpu_spent ts)"
proof (induction ts rule: rev_induct)
  case (snoc t ts)
  obtain b e where "t = (b, e)" by fastforce
  with snoc show ?case by (auto simp: run_turns_def cpu_spent_def effect_simps)
qed (simp add: run_turns_def cpu_spent_def)

text \<open>A request is charged exactly the CPU time of its own turns.  After any turns, what remains
  of its budget is the budget less the sum of the turns' durations, and it is marked terminated
  exactly when that sum has reached the budget.\<close>

lemma cpu_accounting:
  assumes "cpu_enforcer_new clock timer_created timeout_ms = Some ce"
  shows "ce_remaining (run_turns ts ce) = unat timeout_ms * 1000000 - cpu_spent ts \<and>
    (ce_terminated (run_turns ts ce) \<longleftrightarrow> unat timeout_ms * 1000000 \<le> cpu_spent ts)"
proof -
  have "timeout_ms \<noteq> 0" "ce_remaining ce = unat timeout_ms * 1000000" "\<not> ce_terminated ce"
    using assms by (auto simp: cpu_enforcer_new_def Let_def split: if_splits)
  moreover from this have "0 < unat timeout_ms" by (simp add: unat_gt_0)
  ultimately show ?thesis
    using run_turns_effect [of ts ce] by (cases ts) (auto simp: cpu_spent_def)
qed

lemma park_step_inv: "park_step s s' \<Longrightarrow> park_inv s \<Longrightarrow> park_inv s'"
proof (induction rule: park_step.induct)
  case (arm_unparked s)
  then show ?case by (cases "pk_watchdog s") (simp_all add: park_inv_def)
next
  case (arm_notify s)
  then show ?case by (cases "pk_watchdog s") (auto simp: park_inv_def)
qed (unfold park_inv_def, (elim conjE, simp)+)

lemma park_start_inv: "park_inv park_start"
  by (simp add: park_inv_def park_start_def)

lemma park_reach_inv: "park_step\<^sup>*\<^sup>* park_start s \<Longrightarrow> park_inv s"
  by (induction rule: rtranclp_induct) (auto intro: park_step_inv park_start_inv)

text \<open>The watchdog never sleeps through a turn.  In every interleaving of the watchdog that parks
  with turns that arm and disarm their slot, the watchdog does not wait unnotified while a slot is
  armed and its arming is complete.\<close>

lemma armed_turn_is_watched:
  assumes "park_step\<^sup>*\<^sup>* park_start s" "pk_turn s = ArmedDone"
  shows "pk_armed s \<and> pk_watchdog s \<noteq> Waiting"
  using park_reach_inv [OF assms(1)] assms(2) by (auto simp: park_inv_def)

text \<open>A spent budget stays spent, and an armed timer always fires.  Refilling gives back the whole
  budget to a request that is not terminated and changes nothing for one that is; and a turn arms
  its timer with what remains or, when nothing does, with the shortest positive time.\<close>

lemma refill_and_arm:
  "ce_terminated (ce_refill ce) = ce_terminated ce \<and>
   ce_remaining (ce_refill ce) = (if ce_terminated ce then ce_remaining ce else ce_budget ce) \<and>
   ce_timer (begin_turn clock ce) = Some (max (ce_remaining ce) 1000) \<and>
   ce_timer (end_turn clock' (begin_turn clock ce)) = None"
  by (auto simp: ce_refill_def begin_turn_def end_turn_def timer_arm_def timer_disarm_def timer_set_def Let_def
      split: option.splits)

end
