(* ===== verification/Ordered_Map.thy ===== *)
theory Ordered_Map
  imports Prelude
begin

text \<open>
  The ordered map of the Rust standard library (\<open>BTreeMap\<close>) as a list of pairs sorted by key, with
  the operations the runtime uses.  Its contract is the locale \<open>ordered_map\<close>; the wall-clock watchdog
  relies on that contract only.
\<close>

type_synonym ('k, 'v) omap = "('k \<times> 'v) list"

fun om_insert :: "'k :: linorder \<Rightarrow> 'v \<Rightarrow> ('k, 'v) omap \<Rightarrow> ('k, 'v) omap" where
  "om_insert k v [] = [(k, v)]"
| "om_insert k v ((k', v') # m) =
     (if k < k' then (k, v) # (k', v') # m
      else if k = k' then (k, v) # m
      else (k', v') # om_insert k v m)"

definition om_remove :: "'k \<Rightarrow> ('k, 'v) omap \<Rightarrow> ('k, 'v) omap" where
  "om_remove k m = filter (\<lambda>p. fst p \<noteq> k) m"

text \<open>\<open>split_off(k)\<close>: what stays (the keys below \<open>k\<close>) and what is returned.\<close>

definition om_split_off :: "'k :: linorder \<Rightarrow> ('k, 'v) omap \<Rightarrow> ('k, 'v) omap \<times> ('k, 'v) omap" where
  "om_split_off k m = (takeWhile (\<lambda>p. fst p < k) m, dropWhile (\<lambda>p. fst p < k) m)"

definition om_first :: "('k, 'v) omap \<Rightarrow> 'k option" where
  "om_first m = (case m of [] \<Rightarrow> None | (k, _) # _ \<Rightarrow> Some k)"

definition om_inv :: "('k :: linorder, 'v) omap \<Rightarrow> bool" where
  "om_inv m \<longleftrightarrow> sorted_wrt (<) (map fst m)"

locale ordered_map =
  fixes inv :: "'m \<Rightarrow> bool"
    and lookup :: "'m \<Rightarrow> 'k :: linorder \<Rightarrow> 'v option"
    and insert :: "'k \<Rightarrow> 'v \<Rightarrow> 'm \<Rightarrow> 'm"
    and remove :: "'k \<Rightarrow> 'm \<Rightarrow> 'm"
    and split_off :: "'k \<Rightarrow> 'm \<Rightarrow> 'm \<times> 'm"
    and first :: "'m \<Rightarrow> 'k option"
  assumes inv_insert: "inv m \<Longrightarrow> inv (insert k v m)"
    and inv_remove: "inv m \<Longrightarrow> inv (remove k m)"
    and inv_split: "inv m \<Longrightarrow> inv (fst (split_off k m)) \<and> inv (snd (split_off k m))"
    and lookup_insert: "inv m \<Longrightarrow> lookup (insert k v m) = (lookup m)(k \<mapsto> v)"
    and lookup_remove: "inv m \<Longrightarrow> lookup (remove k m) = (lookup m)(k := None)"
    and lookup_below: "inv m \<Longrightarrow> lookup (fst (split_off k m)) = (\<lambda>q. if q < k then lookup m q else None)"
    and lookup_above: "inv m \<Longrightarrow> lookup (snd (split_off k m)) = (\<lambda>q. if q < k then None else lookup m q)"
    and first_least: "inv m \<Longrightarrow> first m = Some k \<longleftrightarrow>
      lookup m k \<noteq> None \<and> (\<forall>q. lookup m q \<noteq> None \<longrightarrow> k \<le> q)"
    and first_none: "inv m \<Longrightarrow> first m = None \<longleftrightarrow> lookup m = (\<lambda>_. None)"
begin

lemma first_exists:
  assumes "inv m" "lookup m k \<noteq> None"
  shows "\<exists>q. first m = Some q \<and> q \<le> k"
proof (cases "first m")
  case None
  with assms show ?thesis using first_none by fastforce
next
  case (Some q)
  with assms show ?thesis using first_least [of m q] by blast
qed

text \<open>An insertion that does not become the least key leaves the least key as it was.\<close>

lemma first_insert:
  assumes "inv m" "first (insert k v m) \<noteq> Some k"
  shows "\<exists>q. first m = Some q \<and> first (insert k v m) = Some q \<and> q < k"
proof -
  have inv': "inv (insert k v m)" using assms(1) by (rule inv_insert)
  obtain q where q: "first (insert k v m) = Some q" "q \<le> k"
    using first_exists [OF inv', of k] lookup_insert [OF assms(1)] by auto
  with assms(2) have "q < k" by auto
  moreover have "first m = Some q"
  proof -
    have "lookup (insert k v m) q \<noteq> None" and least: "\<And>x. lookup (insert k v m) x \<noteq> None \<Longrightarrow> q \<le> x"
      using q(1) first_least [OF inv', of q] by auto
    then have "lookup m q \<noteq> None" using \<open>q < k\<close> lookup_insert [OF assms(1), of k v]
      by (auto split: if_splits)
    moreover have "q \<le> x" if "lookup m x \<noteq> None" for x
      using least [of x] that lookup_insert [OF assms(1), of k v] by auto
    ultimately show ?thesis using first_least [OF assms(1), of q] by blast
  qed
  ultimately show ?thesis using q by blast
qed

text \<open>The least key of what \<open>split_off\<close> returns is not below the split.\<close>

lemma first_above: "inv m \<Longrightarrow> first (snd (split_off k m)) = Some q \<Longrightarrow> \<not> q < k"
  using first_least [of "snd (split_off k m)" q] inv_split [of m k] lookup_above [of m k]
  by (auto split: if_splits)

end

section \<open>Interpretation on sorted lists\<close>

lemma om_insert_keys: "fst ` set (om_insert k v m) = insert k (fst ` set m)"
  by (induction k v m rule: om_insert.induct) auto

lemma om_inv_insert: "om_inv m \<Longrightarrow> om_inv (om_insert k v m)"
proof (induction k v m rule: om_insert.induct)
  case (2 k v k' v' m)
  have keys: "set (map fst (om_insert k v m)) = insert k (set (map fst m))"
    using om_insert_keys [of k v m] by simp
  with 2 show ?case
    by (cases "k < k'"; cases "k = k'") (auto simp: om_inv_def keys simp del: set_map)
qed (simp add: om_inv_def)

lemma om_lookup_insert: "om_inv m \<Longrightarrow> map_of (om_insert k v m) = (map_of m)(k \<mapsto> v)"
proof (induction k v m rule: om_insert.induct)
  case (2 k v k' v' m)
  then show ?case by (auto simp: om_inv_def fun_upd_twist)
qed simp

lemma om_lookup_remove: "map_of (om_remove k m) = (map_of m)(k := None)"
  by (induction m) (auto simp: om_remove_def)

lemma om_inv_filter: "om_inv m \<Longrightarrow> om_inv (filter P m)"
  by (simp add: om_inv_def sorted_wrt_map sorted_wrt_filter)

lemma om_split_filter:
  assumes "om_inv m"
  shows "om_split_off k m = (filter (\<lambda>p. fst p < k) m, filter (\<lambda>p. \<not> fst p < k) m)"
  using assms
proof (induction m)
  case (Cons p m)
  then have "om_inv m" "\<forall>q \<in> set m. fst p < fst q" by (auto simp: om_inv_def)
  moreover from this(2) have "\<not> fst p < k \<Longrightarrow> filter (\<lambda>p. fst p < k) m = []"
    "\<not> fst p < k \<Longrightarrow> filter (\<lambda>p. \<not> fst p < k) m = m"
    by (auto simp: filter_empty_conv filter_id_conv dest: less_trans)
  ultimately show ?case
    using Cons.IH by (cases "fst p < k") (simp_all add: om_split_off_def)
qed (simp add: om_split_off_def)

lemma map_of_filter_key: "map_of (filter (\<lambda>p. P (fst p)) m) = (\<lambda>q. if P q then map_of m q else None)"
  by (induction m) (auto simp: fun_eq_iff)

lemma om_first_least:
  assumes "om_inv m"
  shows "om_first m = Some k \<longleftrightarrow> map_of m k \<noteq> None \<and> (\<forall>q. map_of m q \<noteq> None \<longrightarrow> k \<le> q)"
proof (cases m)
  case (Cons p m')
  with assms have "\<forall>q \<in> fst ` set m'. fst p < q" by (auto simp: om_inv_def)
  then have "map_of m' q \<noteq> None \<Longrightarrow> fst p \<le> q" for q
    by (metis less_imp_le map_of_eq_None_iff)
  with Cons show ?thesis
    by (cases p) (auto simp: om_first_def intro: order.antisym)
qed (simp add: om_first_def)

interpretation btree: ordered_map om_inv map_of om_insert om_remove om_split_off om_first
proof (unfold_locales, goal_cases)
  case (1 m k v)
  then show ?case by (rule om_inv_insert)
next
  case (2 m k)
  then show ?case unfolding om_remove_def by (rule om_inv_filter)
next
  case (3 m k)
  then show ?case by (simp add: om_split_filter om_inv_filter)
next
  case (4 m k v)
  then show ?case by (rule om_lookup_insert)
next
  case (5 m k)
  show ?case by (rule om_lookup_remove)
next
  case (6 m k)
  then show ?case using map_of_filter_key [of "\<lambda>q. q < k" m] by (simp add: om_split_filter)
next
  case (7 m k)
  then show ?case using map_of_filter_key [of "\<lambda>q. \<not> q < k" m] by (auto simp: om_split_filter fun_eq_iff)
next
  case (8 m k)
  then show ?case by (rule om_first_least)
next
  case (9 m)
  then show ?case by (cases m) (auto simp: om_first_def fun_eq_iff split: prod.splits if_splits)
qed

end
