(* ===== verification/Timeout_Guard.thy ===== *)
theory Timeout_Guard
  imports Turn Ordered_Map "HOL-Library.Product_Lexorder"
begin

text \<open>
  The wall-clock watchdog and its guards, from \<open>src/src/security/timeout_guard.rs\<close>.  Instants are
  milliseconds.  The flags that the guards share with the watchdog are a list, and the turns of the
  isolates a function of their index; an entry of the map refers to both.
\<close>

section \<open>Model\<close>

type_synonym deadline_key = "instant \<times> u64"

record wd_entry =
  we_turn :: nat
  we_request :: u64
  we_triggered :: nat
  we_timeout_ms :: u64

record watchdog =
  wd_deadlines :: "(deadline_key, wd_entry) omap"
  wd_next_key :: u64
  wd_flags :: "bool list"

record timeout_guard =
  tg_key :: "deadline_key option"
  tg_triggered :: nat
  tg_deadline :: "instant option"

definition watchdog_new :: watchdog where
  "watchdog_new = \<lparr>wd_deadlines = [], wd_next_key = 0, wd_flags = []\<rparr>"

text \<open>The two instants are the two readings of the clock; the last component is whether the watchdog
  is notified.\<close>

definition timeout_guard_new ::
    "instant \<Rightarrow> instant \<Rightarrow> nat \<Rightarrow> u64 \<Rightarrow> u64 \<Rightarrow> watchdog \<Rightarrow> watchdog \<times> timeout_guard \<times> bool" where
  "timeout_guard_new now now' t request timeout_ms wd =
     (let triggered = length (wd_flags wd); wd = wd\<lparr>wd_flags := wd_flags wd @ [False]\<rparr> in
      if timeout_ms = 0 then (wd, \<lparr>tg_key = None, tg_triggered = triggered, tg_deadline = None\<rparr>, False)
      else
        (let timeout = unat timeout_ms;
             key = (now + timeout, wd_next_key wd);
             entry = \<lparr>we_turn = t, we_request = request, we_triggered = triggered, we_timeout_ms = timeout_ms\<rparr>;
             deadlines = om_insert key entry (wd_deadlines wd)
         in (wd\<lparr>wd_next_key := wd_next_key wd + 1, wd_deadlines := deadlines\<rparr>,
             \<lparr>tg_key = Some key, tg_triggered = triggered, tg_deadline = Some (now' + timeout)\<rparr>,
             om_first deadlines = Some key)))"

definition tg_expire :: "timeout_guard \<Rightarrow> watchdog \<Rightarrow> watchdog" where
  "tg_expire g wd = wd\<lparr>wd_flags := (wd_flags wd)[tg_triggered g := True]\<rparr>"

definition was_triggered :: "timeout_guard \<Rightarrow> watchdog \<Rightarrow> bool" where
  "was_triggered g wd = wd_flags wd ! tg_triggered g"

definition tg_drop :: "timeout_guard \<Rightarrow> watchdog \<Rightarrow> watchdog" where
  "tg_drop g wd =
     (case tg_key g of None \<Rightarrow> wd | Some key \<Rightarrow> wd\<lparr>wd_deadlines := om_remove key (wd_deadlines wd)\<rparr>)"

text \<open>One pass of \<open>watch\<close>: the entries that are due leave the map under the lock; outside the lock
  each one sets its flag and terminates its request through the turn; with none due, the watchdog
  waits until the first deadline.\<close>

definition watch_split :: "instant \<Rightarrow> watchdog \<Rightarrow> watchdog \<times> wd_entry list" where
  "watch_split now wd =
     (let (due, later) = om_split_off (now, - 1) (wd_deadlines wd) in
      (wd\<lparr>wd_deadlines := later\<rparr>, map snd due))"

definition watch_fire :: "wd_entry \<Rightarrow> watchdog \<times> (nat \<Rightarrow> turn) \<Rightarrow> watchdog \<times> (nat \<Rightarrow> turn)" where
  "watch_fire e s =
     (let (wd, turns) = s in
      (wd\<lparr>wd_flags := (wd_flags wd)[we_triggered e := True]\<rparr>,
       turns(we_turn e := fst (turn_terminate (we_request e) (turns (we_turn e))))))"

definition watch_wait :: "instant \<Rightarrow> watchdog \<Rightarrow> nat option" where
  "watch_wait now wd = map_option (\<lambda>(at, _). saturating_sub at now) (om_first (wd_deadlines wd))"

section \<open>The watchdog against its guards\<close>

text \<open>The watchdog thread is awake, or sleeps until an instant (None: until notified).  Guards come
  and go meanwhile.  Time is the argument of each step and only grows.\<close>

datatype wd_state = Awake | Sleeping "instant option"

record wd_sys =
  ws_now :: instant
  ws_watchdog :: watchdog
  ws_state :: wd_state

inductive wd_step :: "wd_sys \<Rightarrow> wd_sys \<Rightarrow> bool" where
  wd_tick: "\<lbrakk>ws_now s \<le> now; \<And>t. ws_state s = Sleeping (Some t) \<Longrightarrow> now \<le> t\<rbrakk>
    \<Longrightarrow> wd_step s (s\<lparr>ws_now := now\<rparr>)"
| wd_guard: "\<lbrakk>timeout_guard_new (ws_now s) now' t r ms (ws_watchdog s) = (wd, g, notify)\<rbrakk>
    \<Longrightarrow> wd_step s (s\<lparr>ws_watchdog := wd, ws_state := (if notify then Awake else ws_state s)\<rparr>)"
| wd_drop: "wd_step s (s\<lparr>ws_watchdog := tg_drop g (ws_watchdog s)\<rparr>)"
| wd_due: "\<lbrakk>ws_state s = Awake; watch_split (ws_now s) (ws_watchdog s) = (wd, due)\<rbrakk>
    \<Longrightarrow> wd_step s (s\<lparr>ws_watchdog := wd\<rparr>)"
| wd_sleep: "\<lbrakk>ws_state s = Awake; watch_split (ws_now s) (ws_watchdog s) = (wd, [])\<rbrakk>
    \<Longrightarrow> wd_step s (s\<lparr>ws_watchdog := wd,
          ws_state := Sleeping (map_option ((+) (ws_now s)) (watch_wait (ws_now s) wd))\<rparr>)"
| wd_wake: "wd_step s (s\<lparr>ws_state := Awake\<rparr>)"

definition wd_start :: wd_sys where
  "wd_start = \<lparr>ws_now = 0, ws_watchdog = watchdog_new, ws_state = Awake\<rparr>"

definition covers :: "instant option \<Rightarrow> (deadline_key, wd_entry) omap \<Rightarrow> bool" where
  "covers until m \<longleftrightarrow> (\<forall>key. map_of m key \<noteq> None \<longrightarrow> (\<exists>t. until = Some t \<and> t \<le> fst key))"

definition wd_inv :: "wd_sys \<Rightarrow> bool" where
  "wd_inv s \<longleftrightarrow>
     om_inv (wd_deadlines (ws_watchdog s)) \<and>
     (\<forall>until. ws_state s = Sleeping until \<longrightarrow> covers until (wd_deadlines (ws_watchdog s)))"

section \<open>Lemmas\<close>

lemma guard_new_deadlines:
  assumes "timeout_guard_new now now' t r ms wd = (wd', g, notify)"
  obtains (disabled) "ms = 0" "wd_deadlines wd' = wd_deadlines wd" "\<not> notify" "tg_key g = None"
  | (enabled) key e where "ms \<noteq> 0" "key = (now + unat ms, wd_next_key wd)"
      "wd_deadlines wd' = om_insert key e (wd_deadlines wd)" "we_request e = r"
      "we_triggered e = length (wd_flags wd)"
      "notify \<longleftrightarrow> om_first (wd_deadlines wd') = Some key" "tg_key g = Some key"
  using assms by (cases "ms = 0") (auto simp: timeout_guard_new_def Let_def)

lemma key_due_iff: "key < (now, - 1) \<longleftrightarrow> fst key < now \<or> fst key = now \<and> snd key \<noteq> - 1"
  for key :: deadline_key
  by (cases key) (auto simp: less_prod_def max_word_least)

lemma watch_split_deadlines:
  "watch_split now wd = (wd', due) \<Longrightarrow>
     wd_deadlines wd' = snd (om_split_off (now, - 1) (wd_deadlines wd)) \<and>
     due = map snd (fst (om_split_off (now, - 1) (wd_deadlines wd)))"
  by (auto simp: watch_split_def split: prod.splits)

lemma coversD: "covers until m \<Longrightarrow> map_of m key \<noteq> None \<Longrightarrow> \<exists>t. until = Some t \<and> t \<le> fst key"
  unfolding covers_def by blast

lemma covers_insert:
  assumes "om_inv m" "covers until m" "map_of m q \<noteq> None" "fst q \<le> fst key"
  shows "covers until (om_insert key e m)"
  unfolding covers_def
proof (intro allI impI)
  fix k assume k: "map_of (om_insert key e m) k \<noteq> None"
  obtain t where t: "until = Some t" "t \<le> fst q" using coversD [OF assms(2,3)] by blast
  show "\<exists>t. until = Some t \<and> t \<le> fst k"
  proof (cases "k = key")
    case True
    with t assms(4) show ?thesis by auto
  next
    case False
    with k assms(1) have "map_of m k \<noteq> None" by (simp add: om_lookup_insert)
    with assms(2) show ?thesis by (rule coversD)
  qed
qed

lemma covers_remove: "covers until m \<Longrightarrow> covers until (om_remove key m)"
  unfolding covers_def om_lookup_remove by (metis fun_upd_apply)

lemma wd_step_inv: "wd_step s s' \<Longrightarrow> wd_inv s \<Longrightarrow> wd_inv s'"
proof (induction rule: wd_step.induct)
  case (wd_guard s now' t r ms wd g notify)
  let ?m = "wd_deadlines (ws_watchdog s)"
  have inv: "om_inv ?m" using wd_guard.prems by (simp add: wd_inv_def)
  from wd_guard.hyps show ?case
  proof (cases rule: guard_new_deadlines)
    case disabled
    with wd_guard.prems show ?thesis by (simp add: wd_inv_def)
  next
    case (enabled key e)
    show ?thesis
    proof (cases notify)
      case True
      with enabled inv show ?thesis by (simp add: wd_inv_def om_inv_insert)
    next
      case False
      with enabled btree.first_insert [OF inv, of key e] obtain q where q: "om_first ?m = Some q" "q < key"
        by auto
      then have "map_of ?m q \<noteq> None" "fst q \<le> fst key"
        using btree.first_least [OF inv] by (auto simp: less_prod_def)
      with wd_guard.prems enabled(3) False show ?thesis
        using covers_insert [OF inv, of _ q key e] by (auto simp: wd_inv_def om_inv_insert)
    qed
  qed
next
  case (wd_drop s g)
  then show ?case
    by (auto simp: wd_inv_def tg_drop_def btree.inv_remove covers_remove split: option.splits)
next
  case (wd_due s wd due)
  then show ?case
    using btree.inv_split [of "wd_deadlines (ws_watchdog s)"]
    by (auto simp: wd_inv_def dest!: watch_split_deadlines)
next
  case (wd_sleep s wd)
  have inv: "om_inv (wd_deadlines wd)"
    using wd_sleep btree.inv_split [of "wd_deadlines (ws_watchdog s)"]
    by (auto simp: wd_inv_def dest!: watch_split_deadlines)
  have "\<exists>t. map_option ((+) (ws_now s)) (watch_wait (ws_now s) wd) = Some t \<and> t \<le> fst key"
    if some: "map_of (wd_deadlines wd) key \<noteq> None" for key
  proof -
    obtain q where q: "om_first (wd_deadlines wd) = Some q" "q \<le> key"
      using btree.first_exists [OF inv some] by blast
    then have "\<not> q < (ws_now s, - 1)"
      using btree.first_above [of "wd_deadlines (ws_watchdog s)" "(ws_now s, - 1)" q] wd_sleep
      by (auto simp: wd_inv_def dest!: watch_split_deadlines)
    then have "ws_now s \<le> fst q" by (auto simp: key_due_iff not_less)
    moreover have "fst q \<le> fst key" using q(2) by (auto simp: less_eq_prod_def)
    ultimately show ?thesis using q(1) by (auto simp: watch_wait_def split: prod.splits)
  qed
  then have "covers (map_option ((+) (ws_now s)) (watch_wait (ws_now s) wd)) (wd_deadlines wd)"
    unfolding covers_def by blast
  with inv show ?case by (simp add: wd_inv_def)
qed (auto simp: wd_inv_def)

lemma wd_reach_inv: "wd_step\<^sup>*\<^sup>* wd_start s \<Longrightarrow> wd_inv s"
proof (induction rule: rtranclp_induct)
  case base
  show ?case by (simp add: wd_inv_def wd_start_def watchdog_new_def om_inv_def)
qed (rule wd_step_inv)

section \<open>Properties\<close>

text \<open>C29: No deadline is slept through.  However guards come and go, whenever the watchdog sleeps it
  wakes by itself no later than every deadline in the map; a guard that adds an earlier one
  notifies it.\<close>

theorem no_deadline_slept_through:
  assumes "wd_step\<^sup>*\<^sup>* wd_start s" "ws_state s = Sleeping until"
    and "map_of (wd_deadlines (ws_watchdog s)) key = Some e"
  shows "\<exists>t. until = Some t \<and> t \<le> fst key"
  using wd_reach_inv [OF assms(1)] assms(2,3) coversD [of until _ key] by (auto simp: wd_inv_def)

theorem no_deadline_slept_through_witness:
  "\<exists>s key e. wd_step\<^sup>*\<^sup>* wd_start s \<and> ws_state s = Sleeping (Some 50) \<and>
     map_of (wd_deadlines (ws_watchdog s)) key = Some e \<and> 50 \<le> fst key"
proof -
  let ?e = "\<lparr>we_turn = 0, we_request = 7, we_triggered = 0, we_timeout_ms = 50\<rparr>"
  let ?wd = "\<lparr>wd_deadlines = [((50, 0), ?e)], wd_next_key = 1, wd_flags = [False]\<rparr>"
  let ?s1 = "\<lparr>ws_now = 0, ws_watchdog = ?wd, ws_state = Awake\<rparr>"
  let ?s2 = "\<lparr>ws_now = 0, ws_watchdog = ?wd, ws_state = Sleeping (Some 50)\<rparr>"
  have "timeout_guard_new 0 0 0 7 50 watchdog_new =
      (?wd, \<lparr>tg_key = Some (50, 0), tg_triggered = 0, tg_deadline = Some 50\<rparr>, True)"
    by code_simp
  from wd_guard [of wd_start, simplified wd_start_def wd_sys.simps, OF this]
  have "wd_step wd_start ?s1" by (simp add: wd_start_def)
  moreover have "watch_split 0 ?wd = (?wd, [])" by code_simp
  then have "wd_step ?s1 ?s2" using wd_sleep [of ?s1 ?wd] by (simp add: watch_wait_def om_first_def)
  ultimately have reach: "wd_step\<^sup>*\<^sup>* wd_start ?s2"
    by (meson converse_rtranclp_into_rtranclp rtranclp.rtrancl_refl)
  have "map_of (wd_deadlines (ws_watchdog ?s2)) (50, 0) = Some ?e" by simp
  with no_deadline_slept_through [OF reach _ this, of "Some 50"] reach show ?thesis
    by (intro exI [of _ ?s2] exI [of _ "(50, 0)"] exI [of _ ?e]) simp
qed

text \<open>A pass of the watchdog takes exactly the deadlines that have passed, in order.  What leaves
  the map are the entries whose deadline is at most now, earliest first; every later entry stays.\<close>

lemma watch_takes_exactly_the_due:
  assumes "om_inv (wd_deadlines wd)" "\<forall>p \<in> set (wd_deadlines wd). snd (fst p) \<noteq> - 1"
    and "watch_split now wd = (wd', due)"
  shows "due = map snd (filter (\<lambda>p. fst (fst p) \<le> now) (wd_deadlines wd)) \<and>
    wd_deadlines wd' = filter (\<lambda>p. now < fst (fst p)) (wd_deadlines wd)"
proof -
  have "filter (\<lambda>p. fst p < (now, - 1)) (wd_deadlines wd) = filter (\<lambda>p. fst (fst p) \<le> now) (wd_deadlines wd)"
    using assms(2) by (intro filter_cong) (auto simp: key_due_iff)
  moreover have "filter (\<lambda>p. \<not> fst p < (now, - 1)) (wd_deadlines wd) =
      filter (\<lambda>p. now < fst (fst p)) (wd_deadlines wd)"
    using assms(2) by (intro filter_cong) (auto simp: key_due_iff)
  ultimately show ?thesis
    using watch_split_deadlines [OF assms(3)] om_split_filter [OF assms(1)] by simp
qed

definition sample_entry :: "u64 \<Rightarrow> wd_entry" where
  "sample_entry r = \<lparr>we_turn = 0, we_request = r, we_triggered = 0, we_timeout_ms = 10\<rparr>"

end
