(* ===== verification/Guards.thy ===== *)
theory Guards
  imports Cpu_Enforcer Timeout_Guard
begin

text \<open>
  The limits together: requests that share an isolate take turns on it, each with its CPU enforcer,
  its memory flag and its wall-clock guard, while the signal thread and the watchdog run beside
  them.  The steps are the operations of \<open>Turn\<close>, \<open>TurnGuard\<close>, \<open>CpuEnforcer\<close>, \<open>TimeoutGuard\<close> and \<open>watch\<close>;
  the watchdog fires the entries it has taken one by one, outside its lock, so that other steps come
  in between.  The theory shows that a limit of one request never stops another.
\<close>

section \<open>The system\<close>

record guard_sys =
  gs_turn :: turn
  gs_cpu :: "u64 \<Rightarrow> cpu_enforcer option"
  gs_memory_hit :: "u64 \<Rightarrow> bool"
  gs_guard :: "u64 \<Rightarrow> timeout_guard option"
  gs_watchdog :: watchdog
  gs_taken :: "wd_entry list"
  gs_fired :: "u64 list"
  gs_over_memory :: "u64 list"

text \<open>The last two components record the requests whose deadline has fired and the requests in whose
  turn a memory limit was hit.\<close>

definition guard_sys_start :: "(u64 \<Rightarrow> cpu_enforcer option) \<Rightarrow> guard_sys" where
  "guard_sys_start cpus =
     \<lparr>gs_turn = turn_new, gs_cpu = cpus, gs_memory_hit = (\<lambda>_. False), gs_guard = (\<lambda>_. None),
      gs_watchdog = watchdog_new, gs_taken = [], gs_fired = [], gs_over_memory = []\<rparr>"

inductive guard_step :: "guard_sys \<Rightarrow> guard_sys \<Rightarrow> bool" where
  gs_begin: "\<lbrakk>tn_holder (gs_turn s) = None; guard_begin r clock (gs_turn s) (gs_cpu s r) = (t, cpu)\<rbrakk>
    \<Longrightarrow> guard_step s (s\<lparr>gs_turn := t, gs_cpu := (gs_cpu s)(r := cpu)\<rparr>)"
| gs_end: "\<lbrakk>tn_holder (gs_turn s) = Some r;
      guard_drop clock (gs_turn s) (gs_cpu s r) (gs_memory_hit s r) = (t, cpu, hit)\<rbrakk>
    \<Longrightarrow> guard_step s (s\<lparr>gs_turn := t, gs_cpu := (gs_cpu s)(r := cpu),
                         gs_memory_hit := (gs_memory_hit s)(r := hit)\<rparr>)"
| gs_refill: "gs_cpu s r = Some ce \<Longrightarrow> guard_step s (s\<lparr>gs_cpu := (gs_cpu s)(r \<mapsto> ce_refill ce)\<rparr>)"
| gs_signal: "\<lbrakk>gs_cpu s r = Some ce; timer_signal r ce (gs_turn s) = (ce', t)\<rbrakk>
    \<Longrightarrow> guard_step s (s\<lparr>gs_turn := t, gs_cpu := (gs_cpu s)(r \<mapsto> ce')\<rparr>)"
| gs_heap: "\<lbrakk>tn_holder (gs_turn s) = Some r; near_heap_limit_callback limit st (gs_turn s) = (st', t, limit')\<rbrakk>
    \<Longrightarrow> guard_step s (s\<lparr>gs_turn := t, gs_over_memory := r # gs_over_memory s\<rparr>)"
| gs_alloc: "\<lbrakk>tn_holder (gs_turn s) = Some r; ca_allocate n a (gs_turn s) = (a', t, granted)\<rbrakk>
    \<Longrightarrow> guard_step s (s\<lparr>gs_turn := t,
          gs_over_memory := (if granted then gs_over_memory s else r # gs_over_memory s)\<rparr>)"
| gs_arm: "timeout_guard_new now now' 0 r ms (gs_watchdog s) = (wd, g, notify)
    \<Longrightarrow> guard_step s (s\<lparr>gs_watchdog := wd, gs_guard := (gs_guard s)(r \<mapsto> g)\<rparr>)"
| gs_drop: "gs_guard s r = Some g
    \<Longrightarrow> guard_step s (s\<lparr>gs_watchdog := tg_drop g (gs_watchdog s), gs_guard := (gs_guard s)(r := None)\<rparr>)"
| gs_expire: "gs_guard s r = Some g
    \<Longrightarrow> guard_step s (s\<lparr>gs_watchdog := tg_expire g (gs_watchdog s)\<rparr>)"
| gs_take: "\<lbrakk>gs_taken s = []; watch_split now (gs_watchdog s) = (wd, due)\<rbrakk>
    \<Longrightarrow> guard_step s (s\<lparr>gs_watchdog := wd, gs_taken := due\<rparr>)"
| gs_fire: "\<lbrakk>gs_taken s = e # rest; watch_fire e (gs_watchdog s, \<lambda>_. gs_turn s) = (wd, turns)\<rbrakk>
    \<Longrightarrow> guard_step s (s\<lparr>gs_watchdog := wd, gs_turn := turns (we_turn e), gs_taken := rest,
                         gs_fired := we_request e # gs_fired s\<rparr>)"

text \<open>Whether the CPU budget of a request is spent.\<close>

definition cpu_over :: "guard_sys \<Rightarrow> u64 \<Rightarrow> bool" where
  "cpu_over s r = (case gs_cpu s r of None \<Rightarrow> False | Some ce \<Rightarrow> ce_terminated ce)"

definition guard_inv :: "guard_sys \<Rightarrow> bool" where
  "guard_inv s \<longleftrightarrow>
     (\<forall>r. tn_terminating (gs_turn s) \<and> tn_holder (gs_turn s) = Some r \<longrightarrow>
        cpu_over s r \<or> r \<in> set (gs_fired s) \<or> tn_memory_limit_hit (gs_turn s)) \<and>
     (\<forall>r. gs_memory_hit s r \<longrightarrow> r \<in> set (gs_over_memory s)) \<and>
     (tn_memory_limit_hit (gs_turn s) \<longrightarrow>
        (\<exists>r. tn_holder (gs_turn s) = Some r \<and> r \<in> set (gs_over_memory s)))"

section \<open>Lemmas\<close>

lemma terminated_mono [effect_simps]:
  "ce_terminated (begin_turn clock ce) = ce_terminated ce"
  "ce_terminated ce \<Longrightarrow> ce_terminated (end_turn clock ce)"
  "ce_terminated (ce_refill ce) = ce_terminated ce"
  by (auto simp: begin_turn_def end_turn_def ce_refill_def timer_arm_def timer_disarm_def timer_set_def
      Let_def split: option.splits)

lemma ca_allocate_turn:
  "ca_allocate n a t = (a', t', granted) \<Longrightarrow>
     t' = (if granted then t else t\<lparr>tn_memory_limit_hit := True\<rparr>)"
  by (auto simp: ca_allocate_def Let_def split: if_splits)

lemma guard_step_inv: "guard_step s s' \<Longrightarrow> guard_inv s \<Longrightarrow> guard_inv s'"
proof (induction rule: guard_step.induct)
  case (gs_begin s r clock t cpu)
  then show ?case by (auto simp: guard_inv_def guard_begin_def effect_simps)
next
  case (gs_end s r clock t cpu hit)
  then show ?case
    by (auto simp: guard_inv_def guard_drop_def turn_end_def split: if_splits)
next
  case (gs_refill s r ce)
  then show ?case by (auto simp: guard_inv_def cpu_over_def effect_simps)
next
  case (gs_signal s r ce ce' t)
  then show ?case
    by (auto simp: guard_inv_def cpu_over_def timer_signal_def effect_simps split: if_splits)
next
  case (gs_heap s r limit st st' t limit')
  then show ?case by (auto simp: guard_inv_def near_heap_limit_callback_def)
next
  case (gs_alloc s r n a a' t granted)
  then show ?case
    by (auto simp: guard_inv_def cpu_over_def dest!: ca_allocate_turn)
next
  case (gs_fire s e rest wd turns)
  then show ?case
    by (auto simp: guard_inv_def cpu_over_def watch_fire_def effect_simps)
qed (auto simp: guard_inv_def cpu_over_def)

lemma guard_start_inv: "guard_inv (guard_sys_start cpus)"
  by (simp add: guard_inv_def guard_sys_start_def turn_new_def)

lemma guard_reach_inv: "guard_step\<^sup>*\<^sup>* (guard_sys_start cpus) s \<Longrightarrow> guard_inv s"
  by (induction rule: rtranclp_induct) (auto intro: guard_step_inv guard_start_inv)

lemma guard_reach_step: "guard_step s t \<Longrightarrow> guard_step\<^sup>*\<^sup>* t u \<Longrightarrow> guard_step\<^sup>*\<^sup>* s u"
  by (rule converse_rtranclp_into_rtranclp)

section \<open>Properties\<close>

text \<open>C12: A limit of one request never stops another.  In every interleaving of the turns of requests
  that share an isolate with the CPU signals, the memory limits and the watchdog, a termination that
  is pending while a request holds the turn is due to that request: its own CPU budget is spent, one
  of its own deadlines has fired, or a memory limit was hit during its turn.\<close>

theorem termination_is_own:
  assumes "guard_step\<^sup>*\<^sup>* (guard_sys_start cpus) s"
    and "tn_holder (gs_turn s) = Some r" "tn_terminating (gs_turn s)"
  shows "cpu_over s r \<or> r \<in> set (gs_fired s) \<or>
    tn_memory_limit_hit (gs_turn s) \<and> r \<in> set (gs_over_memory s)"
  using guard_reach_inv [OF assms(1)] assms(2,3) by (auto simp: guard_inv_def)

definition sample_enforcer :: cpu_enforcer where
  "sample_enforcer = \<lparr>ce_budget = 1000000, ce_remaining = 1000000, ce_turn_started = None,
     ce_terminated = False, ce_timer = None\<rparr>"

theorem termination_is_own_witness:
  "\<exists>s. guard_step\<^sup>*\<^sup>* (guard_sys_start (\<lambda>_. Some sample_enforcer)) s \<and>
     tn_holder (gs_turn s) = Some 4 \<and> tn_terminating (gs_turn s) \<and>
     (cpu_over s 4 \<or> 4 \<in> set (gs_fired s) \<or> tn_memory_limit_hit (gs_turn s) \<and> 4 \<in> set (gs_over_memory s))"
proof -
  let ?s0 = "guard_sys_start (\<lambda>_. Some sample_enforcer)"
  let ?s1 = "?s0\<lparr>gs_turn := turn_begin 4 turn_new,
    gs_cpu := (\<lambda>_. Some sample_enforcer)(4 \<mapsto> begin_turn (Some 5) sample_enforcer)\<rparr>"
  let ?s2 = "?s1\<lparr>gs_turn := (turn_begin 4 turn_new)\<lparr>tn_terminating := True\<rparr>,
    gs_cpu := (gs_cpu ?s1)(4 \<mapsto> (begin_turn (Some 5) sample_enforcer)\<lparr>ce_terminated := True\<rparr>)\<rparr>"
  have "guard_step ?s0 ?s1"
    using gs_begin [of ?s0 4 "Some 5"] by (simp add: guard_sys_start_def guard_begin_def turn_new_def)
  moreover have "guard_step ?s1 ?s2"
    using gs_signal [of ?s1 4 "begin_turn (Some 5) sample_enforcer"]
    by (simp add: timer_signal_def effect_simps sample_enforcer_def turn_terminate_def)
  ultimately have reach: "guard_step\<^sup>*\<^sup>* ?s0 ?s2"
    by (meson converse_rtranclp_into_rtranclp rtranclp.rtrancl_refl)
  have "tn_holder (gs_turn ?s2) = Some 4" "tn_terminating (gs_turn ?s2)"
    by (simp_all add: turn_begin_def)
  with termination_is_own [OF reach this] reach show ?thesis by blast
qed

text \<open>A memory limit is charged to the request that ran into it.  A request's memory flag is set
  only if a heap or ArrayBuffer limit was hit during one of its own turns.\<close>

lemma memory_hit_is_own:
  assumes "guard_step\<^sup>*\<^sup>* (guard_sys_start cpus) s" "gs_memory_hit s r"
  shows "r \<in> set (gs_over_memory s)"
  using guard_reach_inv [OF assms(1)] assms(2) by (auto simp: guard_inv_def)

text \<open>C35: With one wall-clock guard per turn, a deadline of an earlier turn can stop a later one.  There
  is an interleaving in which the watchdog takes the entry of a turn that then ends in time and drops
  its guard; the request begins its next turn with a new guard; and the entry fires.  The request is
  then being terminated although its current guard is not triggered, its CPU budget is not spent and
  no memory limit was hit.\<close>

theorem stale_deadline_stops_next_turn:
  "\<exists>s g. guard_step\<^sup>*\<^sup>* (guard_sys_start (\<lambda>_. None)) s \<and>
     tn_holder (gs_turn s) = Some 4 \<and> tn_terminating (gs_turn s) \<and>
     gs_guard s 4 = Some g \<and> \<not> was_triggered g (gs_watchdog s) \<and>
     \<not> cpu_over s 4 \<and> \<not> tn_memory_limit_hit (gs_turn s) \<and> \<not> gs_memory_hit s 4"
proof -
  let ?e0 = "\<lparr>we_turn = 0, we_request = 4, we_triggered = 0, we_timeout_ms = 10\<rparr>"
  let ?e1 = "\<lparr>we_turn = 0, we_request = 4, we_triggered = 1, we_timeout_ms = 10\<rparr>"
  let ?g0 = "\<lparr>tg_key = Some (10, 0), tg_triggered = 0, tg_deadline = Some 10\<rparr>"
  let ?g1 = "\<lparr>tg_key = Some (20, 1), tg_triggered = 1, tg_deadline = Some 20\<rparr>"
  let ?wd1 = "\<lparr>wd_deadlines = [((10, 0), ?e0)], wd_next_key = 1, wd_flags = [False]\<rparr>"
  let ?wd2 = "\<lparr>wd_deadlines = [], wd_next_key = 1, wd_flags = [False]\<rparr>"
  let ?wd3 = "\<lparr>wd_deadlines = [((20, 1), ?e1)], wd_next_key = 2, wd_flags = [False, False]\<rparr>"
  let ?wd4 = "\<lparr>wd_deadlines = [((20, 1), ?e1)], wd_next_key = 2, wd_flags = [True, False]\<rparr>"
  let ?S = "\<lambda>t m g wd taken fired. \<lparr>gs_turn = t, gs_cpu = \<lambda>_. None, gs_memory_hit = m, gs_guard = g,
    gs_watchdog = wd, gs_taken = taken, gs_fired = fired, gs_over_memory = []\<rparr>"
  let ?F = "\<lambda>_ :: u64. False" and ?T = "\<lparr>tn_terminating = False, tn_holder = Some 4, tn_memory_limit_hit = False\<rparr>"
  let ?G = "\<lambda>g. (\<lambda>_ :: u64. None)(4 := g)"
  have s1: "guard_step (guard_sys_start (\<lambda>_. None)) (?S turn_new ?F (?G (Some ?g0)) ?wd1 [] [])"
  proof -
    have "timeout_guard_new 0 0 0 4 10 watchdog_new = (?wd1, ?g0, True)" by code_simp
    with gs_arm [of 0 0 4 10 "guard_sys_start (\<lambda>_. None)"] show ?thesis by (simp add: guard_sys_start_def)
  qed
  have s2: "guard_step (?S turn_new ?F (?G (Some ?g0)) ?wd1 [] [])
      (?S ?T ?F (?G (Some ?g0)) ?wd1 [] [])"
    using gs_begin [of "?S turn_new ?F (?G (Some ?g0)) ?wd1 [] []" 4 None]
    by (simp add: guard_begin_def turn_begin_def turn_new_def fun_upd_idem)
  have s3: "guard_step (?S ?T ?F (?G (Some ?g0)) ?wd1 [] [])
      (?S ?T ?F (?G (Some ?g0)) ?wd2 [?e0] [])"
  proof -
    have "watch_split 10 ?wd1 = (?wd2, [?e0])" by code_simp
    with gs_take [of "?S ?T ?F (?G (Some ?g0)) ?wd1 [] []" 10] show ?thesis by simp
  qed
  have s4: "guard_step (?S ?T ?F (?G (Some ?g0)) ?wd2 [?e0] [])
      (?S turn_new ?F (?G (Some ?g0)) ?wd2 [?e0] [])"
    using gs_end [of "?S ?T ?F (?G (Some ?g0)) ?wd2 [?e0] []" 4 None turn_new None False]
    by (simp add: guard_drop_def turn_end_def turn_new_def fun_upd_idem)
  have s5: "guard_step (?S turn_new ?F (?G (Some ?g0)) ?wd2 [?e0] [])
      (?S turn_new ?F (?G None) ?wd2 [?e0] [])"
    using gs_drop [of "?S turn_new ?F (?G (Some ?g0)) ?wd2 [?e0] []" 4 ?g0]
    by (simp add: tg_drop_def om_remove_def)
  have s6: "guard_step (?S turn_new ?F (?G None) ?wd2 [?e0] [])
      (?S turn_new ?F (?G (Some ?g1)) ?wd3 [?e0] [])"
  proof -
    have "timeout_guard_new 10 10 0 4 10 ?wd2 = (?wd3, ?g1, True)" by code_simp
    with gs_arm [of 10 10 4 10 "?S turn_new ?F (?G None) ?wd2 [?e0] []"] show ?thesis by simp
  qed
  have s7: "guard_step (?S turn_new ?F (?G (Some ?g1)) ?wd3 [?e0] [])
      (?S ?T ?F (?G (Some ?g1)) ?wd3 [?e0] [])"
    using gs_begin [of "?S turn_new ?F (?G (Some ?g1)) ?wd3 [?e0] []" 4 None]
    by (simp add: guard_begin_def turn_begin_def turn_new_def fun_upd_idem)
  have s8: "guard_step (?S ?T ?F (?G (Some ?g1)) ?wd3 [?e0] [])
      (?S (?T\<lparr>tn_terminating := True\<rparr>) ?F (?G (Some ?g1)) ?wd4 [] [4])"
    using gs_fire [of "?S ?T ?F (?G (Some ?g1)) ?wd3 [?e0] []" ?e0 "[]"]
    by (simp add: watch_fire_def turn_terminate_def)
  have "guard_step\<^sup>*\<^sup>* (guard_sys_start (\<lambda>_. None))
      (?S (?T\<lparr>tn_terminating := True\<rparr>) ?F (?G (Some ?g1)) ?wd4 [] [4])"
    by (rule guard_reach_step [OF s1 guard_reach_step [OF s2 guard_reach_step [OF s3 guard_reach_step [OF s4
        guard_reach_step [OF s5 guard_reach_step [OF s6 guard_reach_step [OF s7 guard_reach_step [OF s8
        rtranclp.rtrancl_refl]]]]]]]])
  then show ?thesis
    by (intro exI [of _ "?S (?T\<lparr>tn_terminating := True\<rparr>) ?F (?G (Some ?g1)) ?wd4 [] [4]"] exI [of _ ?g1])
      (simp add: was_triggered_def cpu_over_def)
qed

end
