(* ===== verification/Object_Queue.thy ===== *)
theory Object_Queue
  imports Prelude "HOL-Library.Sublist"
begin

text \<open>
  The queue of a Durable Object, from \<open>src/src/runtime/scheduler.rs\<close>: storage and socket operations
  run one at a time in the order the guest made them, and an outbound call waits behind a barrier
  for the writes made before it (output gate).  The host that performs the operations is an argument
  of the model, with a state of its own.
\<close>

section \<open>Model\<close>

type_synonym callback_id = u64
type_synonym payload = nat

text \<open>The storage operations: the two that write, and the others.\<close>

datatype object_storage_op = StorageWrite payload | SetAlarm payload | StorageRead payload

datatype object_storage_result = ObjectStorageError string | ObjectStorageValue payload

datatype object_socket_op = SocketAttach u64 nat | SocketOther payload

text \<open>\<open>Waiting\<close> counts the bytes of a socket operation while it is queued.  A barrier is named by the
  channel it opens: the gate of an outbound call, or the one of a reply of the object.\<close>

datatype gate = CallGate nat | ReplyGate nat

datatype queued =
    QStorage callback_id object_storage_op
  | QSocket object_socket_op "usize option"
  | QBarrier gate

definition STORAGE_FAILED :: string where
  "STORAGE_FAILED = ''a storage write of the Durable Object failed''"

definition UNEXPECTED_STORAGE :: string where
  "UNEXPECTED_STORAGE = ''Unexpected result type for object storage''"

text \<open>What the host answers to a storage operation: a storage result, or a result of another kind.\<close>

datatype storage_answer = StorageAnswer object_storage_result | OtherAnswer

record 's object_host =
  oh_storage :: "object_storage_op \<Rightarrow> 's \<Rightarrow> 's \<times> storage_answer"
  oh_socket :: "object_socket_op \<Rightarrow> 's \<Rightarrow> 's"

record 's object_queue =
  oq_failed :: bool
  oq_host :: 's
  oq_handled :: "queued list"
  oq_answers :: "(callback_id \<times> object_storage_result) list"
  oq_opened :: "gate list"
  oq_closed :: "gate list"
  oq_waiting :: usize

definition writes :: "object_storage_op \<Rightarrow> bool" where
  "writes op = (case op of StorageWrite _ \<Rightarrow> True | SetAlarm _ \<Rightarrow> True | StorageRead _ \<Rightarrow> False)"

definition is_storage_error :: "object_storage_result \<Rightarrow> bool" where
  "is_storage_error r = (case r of ObjectStorageError _ \<Rightarrow> True | ObjectStorageValue _ \<Rightarrow> False)"

definition waiting_bytes :: "usize option \<Rightarrow> usize" where
  "waiting_bytes w = (case w of None \<Rightarrow> 0 | Some bytes \<Rightarrow> bytes)"

text \<open>The queue when it is created, with the bytes of the work that will go through it.\<close>

definition object_queue_new :: "'s \<Rightarrow> usize \<Rightarrow> 's object_queue" where
  "object_queue_new host waiting =
     \<lparr>oq_failed = False, oq_host = host, oq_handled = [], oq_answers = [], oq_opened = [], oq_closed = [],
      oq_waiting = waiting\<rparr>"

text \<open>One item of \<open>run_object_queue\<close>.  An item that is dropped drops its \<open>Waiting\<close> or its barrier.\<close>

definition object_queue_step :: "'s object_host \<Rightarrow> queued \<Rightarrow> 's object_queue \<Rightarrow> 's object_queue" where
  "object_queue_step h work q =
     (case work of
        QStorage callback_id op \<Rightarrow>
          if oq_failed q
          then q\<lparr>oq_answers := oq_answers q @ [(callback_id, ObjectStorageError STORAGE_FAILED)]\<rparr>
          else
            (let (host, answer) = oh_storage h op (oq_host q);
                 result = (case answer of StorageAnswer r \<Rightarrow> r | OtherAnswer \<Rightarrow> ObjectStorageError UNEXPECTED_STORAGE)
             in q\<lparr>oq_host := host, oq_handled := oq_handled q @ [work],
                  oq_failed := (writes op \<and> is_storage_error result),
                  oq_answers := oq_answers q @ [(callback_id, result)]\<rparr>)
      | QSocket op waiting \<Rightarrow>
          if oq_failed q then q\<lparr>oq_waiting := oq_waiting q - waiting_bytes waiting\<rparr>
          else q\<lparr>oq_host := oh_socket h op (oq_host q), oq_handled := oq_handled q @ [work],
                 oq_waiting := oq_waiting q - waiting_bytes waiting\<rparr>
      | QBarrier open_tx \<Rightarrow>
          if oq_failed q then q\<lparr>oq_closed := oq_closed q @ [open_tx]\<rparr>
          else q\<lparr>oq_opened := oq_opened q @ [open_tx]\<rparr>)"

definition run_object_queue :: "'s object_host \<Rightarrow> queued list \<Rightarrow> 's object_queue \<Rightarrow> 's object_queue" where
  "run_object_queue h works q = fold (object_queue_step h) works q"

text \<open>\<open>after\<close>: an outbound call runs once its gate opens, and not at all if the gate closes.\<close>

datatype gate_state = GateOpen | GateClosed

definition after :: "gate_state option \<Rightarrow> 'a \<Rightarrow> 'a option" where
  "after gate work = (case gate of None \<Rightarrow> Some work | Some GateOpen \<Rightarrow> Some work | Some GateClosed \<Rightarrow> None)"

section \<open>Lemmas\<close>

lemma run_object_queue_append:
  "run_object_queue h (xs @ ys) q = run_object_queue h ys (run_object_queue h xs q)"
  by (simp add: run_object_queue_def)

lemma run_object_queue_Cons:
  "run_object_queue h (x # xs) q = run_object_queue h xs (object_queue_step h x q)"
  by (simp add: run_object_queue_def)

lemma run_object_queue_Nil [simp]: "run_object_queue h [] q = q"
  by (simp add: run_object_queue_def)

definition storage_ids :: "queued list \<Rightarrow> callback_id list" where
  "storage_ids works = List.map_filter (\<lambda>w. case w of QStorage i _ \<Rightarrow> Some i | _ \<Rightarrow> None) works"

definition barriers :: "queued list \<Rightarrow> gate list" where
  "barriers works = List.map_filter (\<lambda>w. case w of QBarrier g \<Rightarrow> Some g | _ \<Rightarrow> None) works"

definition operations :: "queued list \<Rightarrow> queued list" where
  "operations works = filter (\<lambda>w. case w of QBarrier _ \<Rightarrow> False | _ \<Rightarrow> True) works"

lemma queued_lists [simp]:
  "storage_ids [] = []" "storage_ids (QStorage i op # ws) = i # storage_ids ws"
  "storage_ids (QSocket s w # ws) = storage_ids ws" "storage_ids (QBarrier g # ws) = storage_ids ws"
  "barriers [] = []" "barriers (QStorage i op # ws) = barriers ws"
  "barriers (QSocket s w # ws) = barriers ws" "barriers (QBarrier g # ws) = g # barriers ws"
  "operations [] = []" "operations (QStorage i op # ws) = QStorage i op # operations ws"
  "operations (QSocket s w # ws) = QSocket s w # operations ws" "operations (QBarrier g # ws) = operations ws"
  by (simp_all add: storage_ids_def barriers_def operations_def map_filter_def)

text \<open>Once a write has failed, the queue is closed for good.\<close>

lemma run_failed:
  assumes "oq_failed q"
  shows "oq_failed (run_object_queue h ws q) \<and> oq_host (run_object_queue h ws q) = oq_host q \<and>
    oq_handled (run_object_queue h ws q) = oq_handled q \<and> oq_opened (run_object_queue h ws q) = oq_opened q \<and>
    oq_closed (run_object_queue h ws q) = oq_closed q @ barriers ws \<and>
    oq_answers (run_object_queue h ws q) =
      oq_answers q @ map (\<lambda>i. (i, ObjectStorageError STORAGE_FAILED)) (storage_ids ws)"
  using assms
proof (induction ws arbitrary: q)
  case (Cons w ws)
  show ?case
  proof (cases w)
    case (QStorage i op)
    with Cons.IH [of "object_queue_step h w q"] Cons.prems show ?thesis
      by (simp add: run_object_queue_Cons object_queue_step_def)
  next
    case (QSocket op waiting)
    with Cons.IH [of "object_queue_step h w q"] Cons.prems show ?thesis
      by (simp add: run_object_queue_Cons object_queue_step_def)
  next
    case (QBarrier g)
    with Cons.IH [of "object_queue_step h w q"] Cons.prems show ?thesis
      by (simp add: run_object_queue_Cons object_queue_step_def)
  qed
qed simp

text \<open>While no write has failed, everything is performed.\<close>

lemma run_not_failed:
  assumes "\<not> oq_failed (run_object_queue h ws q)"
  shows "\<not> oq_failed q \<and>
    oq_handled (run_object_queue h ws q) = oq_handled q @ operations ws \<and>
    oq_opened (run_object_queue h ws q) = oq_opened q @ barriers ws \<and>
    oq_closed (run_object_queue h ws q) = oq_closed q"
  using assms
proof (induction ws arbitrary: q)
  case (Cons w ws)
  have "\<not> oq_failed q" using run_failed [of q h "w # ws"] Cons.prems by blast
  with Cons.IH [of "object_queue_step h w q"] Cons.prems show ?case
    by (cases w) (auto simp: run_object_queue_Cons object_queue_step_def Let_def split: prod.splits)
qed simp

lemma handled_prefix: "prefix (oq_handled (run_object_queue h ws q)) (oq_handled (run_object_queue h (ws @ vs) q))"
proof (induction vs rule: rev_induct)
  case (snoc v vs)
  have "prefix (oq_handled q') (oq_handled (object_queue_step h v q'))" for q'
    by (cases v) (auto simp: object_queue_step_def Let_def split: prod.splits)
  moreover have "run_object_queue h (ws @ vs @ [v]) q = object_queue_step h v (run_object_queue h (ws @ vs) q)"
    by (simp add: run_object_queue_def)
  ultimately show ?case using snoc prefix_order.trans by metis
qed simp

lemma step_answers:
  "map fst (oq_answers (object_queue_step h w q)) = map fst (oq_answers q) @ storage_ids [w]"
  by (cases w) (auto simp: object_queue_step_def Let_def split: prod.splits)

lemma run_answers:
  "map fst (oq_answers (run_object_queue h ws q)) = map fst (oq_answers q) @ storage_ids ws"
proof (induction ws arbitrary: q)
  case (Cons w ws)
  have "storage_ids (w # ws) = storage_ids [w] @ storage_ids ws" by (cases w) auto
  with Cons show ?case by (simp add: run_object_queue_Cons step_answers)
qed simp

definition total_waiting :: "queued list \<Rightarrow> usize" where
  "total_waiting ws = sum_list (map (\<lambda>w. case w of QSocket _ b \<Rightarrow> waiting_bytes b | _ \<Rightarrow> 0) ws)"

lemma run_waiting: "oq_waiting (run_object_queue h ws q) = oq_waiting q - total_waiting ws"
proof (induction ws arbitrary: q)
  case (Cons w ws)
  have "oq_waiting (object_queue_step h w q) =
      oq_waiting q - (case w of QSocket _ b \<Rightarrow> waiting_bytes b | _ \<Rightarrow> 0)"
    by (cases w) (auto simp: object_queue_step_def Let_def split: prod.splits)
  with Cons show ?case by (simp add: run_object_queue_Cons total_waiting_def diff_diff_eq)
qed (simp add: total_waiting_def)

section \<open>Properties\<close>

text \<open>After a failed write, nothing more is written and nothing leaves.  If a write of the object
  has failed by the end of some work, then whatever is queued behind it, the host performs no further
  operation, no further barrier opens and every barrier closes, and every further storage operation is
  answered with the failure.\<close>

lemma failed_write_closes_the_object:
  assumes "oq_failed (run_object_queue h xs (object_queue_new host waiting))"
  shows "let q = run_object_queue h xs (object_queue_new host waiting);
             q' = run_object_queue h (xs @ ys) (object_queue_new host waiting)
    in oq_failed q' \<and> oq_host q' = oq_host q \<and> oq_handled q' = oq_handled q \<and> oq_opened q' = oq_opened q \<and>
       oq_closed q' = oq_closed q @ barriers ys \<and>
       oq_answers q' = oq_answers q @ map (\<lambda>i. (i, ObjectStorageError STORAGE_FAILED)) (storage_ids ys)"
  using run_failed [OF assms] by (simp add: Let_def run_object_queue_append)

definition failing_host :: "nat object_host" where
  "failing_host =
     \<lparr>oh_storage = (\<lambda>op n. (Suc n, StorageAnswer (if n = 1 then ObjectStorageError ''disk'' else ObjectStorageValue n))),
      oh_socket = (\<lambda>_ n. Suc n)\<rparr>"

text \<open>As long as no write fails, the object's operations run in the order the guest made them and
  every outbound call waits for exactly the writes before it.  If no write has failed by the end of
  the work, the operations performed are the queued ones in order, and the barriers opened are all
  the barriers, in order.\<close>

lemma queue_runs_in_order:
  assumes "\<not> oq_failed (run_object_queue h ws (object_queue_new host waiting))"
  shows "oq_handled (run_object_queue h ws (object_queue_new host waiting)) = operations ws \<and>
    oq_opened (run_object_queue h ws (object_queue_new host waiting)) = barriers ws \<and>
    oq_closed (run_object_queue h ws (object_queue_new host waiting)) = []"
  using run_not_failed [OF assms] by (simp add: object_queue_new_def)

text \<open>Every storage operation of the object is answered exactly once, in order, whatever fails; and
  the bytes counted for queued socket operations are all given back.\<close>

lemma storage_answered_once:
  "map fst (oq_answers (run_object_queue h ws (object_queue_new host (total_waiting ws)))) = storage_ids ws \<and>
   oq_waiting (run_object_queue h ws (object_queue_new host (total_waiting ws))) = 0"
  by (simp add: run_answers run_waiting object_queue_new_def)

end
