(* ===== verification/WebSocket.thy ===== *)
theory WebSocket
  imports Object_Queue
begin

text \<open>
  The task that owns one WebSocket, from \<open>src/src/runtime/scheduler.rs\<close>: \<open>run_websocket\<close> connects a
  client socket, \<open>run_server_websocket\<close> keeps the server end of a pair until the response gives it a
  socket, and \<open>pump_websocket\<close> moves the messages.  Each function is one iteration of its \<open>select\<close>,
  with the branches in the order of the biased select; the environment (the guest's commands, the
  peer, the cancellation of the request) is a step relation around them.
\<close>

section \<open>Model\<close>

type_synonym ws_id = u64
type_synonym u16 = "16 word"

datatype ws_end = Client | Server

datatype ws_outgoing = OutMessage payload | OutClose u16 string

datatype ws_incoming = InMessage payload | InError string | InClosed u16 string

datatype ws_command = Attach nat | Accept | Send ws_outgoing | CloseCommand u16 string

datatype ws_phase = Connecting | AwaitUpgrade | Pumping | Ended

text \<open>What the task tells the guest: the outcome of a connect, and the events of the socket.\<close>

datatype ws_event = Connected | ConnectError string | WsEvent ws_incoming

datatype connect_answer = ConnectOk | ConnectErr string | ConnectOther

record ws_task =
  wt_phase :: ws_phase
  wt_end :: ws_end
  wt_accepted :: bool
  wt_upgrade :: "nat option"
  wt_early :: "ws_outgoing list"
  wt_cmds :: "ws_command list"
  wt_cmds_open :: bool
  wt_incoming :: "ws_incoming list"
  wt_incoming_open :: bool
  wt_cancelled :: bool
  wt_frames :: "ws_outgoing list"
  wt_events :: "ws_event list"
  wt_issued :: "ws_outgoing list"

definition CANCELLED :: string where
  "CANCELLED = ''Operation cancelled''"

definition ws_task_new :: "ws_phase \<Rightarrow> ws_end \<Rightarrow> bool \<Rightarrow> ws_task" where
  "ws_task_new phase e cmds_open =
     \<lparr>wt_phase = phase, wt_end = e, wt_accepted = False, wt_upgrade = None, wt_early = [], wt_cmds = [],
      wt_cmds_open = cmds_open, wt_incoming = [], wt_incoming_open = True, wt_cancelled = False,
      wt_frames = [], wt_events = [], wt_issued = []\<rparr>"

definition wt_tell :: "ws_event \<Rightarrow> ws_task \<Rightarrow> ws_task" where
  "wt_tell e t = t\<lparr>wt_events := wt_events t @ [e]\<rparr>"

definition wt_finish :: "ws_event \<Rightarrow> ws_task \<Rightarrow> ws_task" where
  "wt_finish e t = (wt_tell e t)\<lparr>wt_phase := Ended\<rparr>"

definition wt_put :: "ws_outgoing \<Rightarrow> ws_task \<Rightarrow> ws_task" where
  "wt_put m t = t\<lparr>wt_frames := wt_frames t @ [m]\<rparr>"

text \<open>Phase 1 of \<open>run_websocket\<close>; the answer of the host is None while it is pending.\<close>

definition run_websocket :: "connect_answer option \<Rightarrow> ws_task \<Rightarrow> ws_task" where
  "run_websocket answer t =
     (if wt_cancelled t then wt_finish (ConnectError CANCELLED) t
      else case answer of
        None \<Rightarrow> t
      | Some ConnectOk \<Rightarrow> (wt_tell Connected t)\<lparr>wt_phase := Pumping\<rparr>
      | Some (ConnectErr e) \<Rightarrow> wt_finish (ConnectError e) t
      | Some ConnectOther \<Rightarrow> wt_finish (ConnectError ''Unexpected result type for WebSocket connect'') t)"

definition closed_1006 :: "string \<Rightarrow> ws_task \<Rightarrow> ws_task" where
  "closed_1006 reason t = wt_finish (WsEvent (InClosed 1006 reason)) t"

text \<open>The wait of the server end; the upgrade is None while pending, then whether it gave a socket.\<close>

definition run_server_websocket :: "bool option \<Rightarrow> ws_task \<Rightarrow> ws_task" where
  "run_server_websocket upgraded t =
     (if wt_cancelled t then closed_1006 CANCELLED t
      else if wt_upgrade t \<noteq> None \<and> upgraded = Some True
        then t\<lparr>wt_frames := wt_frames t @ wt_early t, wt_early := [], wt_phase := Pumping\<rparr>
      else if wt_upgrade t \<noteq> None \<and> upgraded = Some False then closed_1006 ''The client did not upgrade'' t
      else case wt_cmds t of
        cmd # cmds \<Rightarrow>
          (let t = t\<lparr>wt_cmds := cmds\<rparr> in
           case cmd of
             Attach socket \<Rightarrow> t\<lparr>wt_upgrade := Some socket\<rparr>
           | Accept \<Rightarrow> t\<lparr>wt_accepted := True\<rparr>
           | Send msg \<Rightarrow> t\<lparr>wt_early := wt_early t @ [msg]\<rparr>
           | CloseCommand code reason \<Rightarrow> wt_finish (WsEvent (InClosed code reason)) t)
      | [] \<Rightarrow> if wt_cmds_open t then t else closed_1006 ''The response did not carry the socket'' t)"

definition cancel_close :: "ws_end \<Rightarrow> u16 \<times> string" where
  "cancel_close e = (case e of Client \<Rightarrow> (1001, CANCELLED) | Server \<Rightarrow> (1011, ''The worker stopped''))"

definition pump_websocket :: "ws_task \<Rightarrow> ws_task" where
  "pump_websocket t =
     (if wt_cancelled t
      then (let (code, reason) = cancel_close (wt_end t) in closed_1006 reason (wt_put (OutClose code reason) t))
      else case wt_cmds t of
        cmd # cmds \<Rightarrow>
          (let t = t\<lparr>wt_cmds := cmds\<rparr> in
           case cmd of
             Attach _ \<Rightarrow> t
           | Accept \<Rightarrow> t\<lparr>wt_accepted := True\<rparr>
           | Send msg \<Rightarrow> wt_put msg t
           | CloseCommand code reason \<Rightarrow> wt_finish (WsEvent (InClosed code reason)) (wt_put (OutClose code reason) t))
      | [] \<Rightarrow>
          if \<not> wt_cmds_open t then t\<lparr>wt_phase := Ended\<rparr>
          else if wt_accepted t then
            (case wt_incoming t of
               InMessage m # rest \<Rightarrow> wt_tell (WsEvent (InMessage m)) (t\<lparr>wt_incoming := rest\<rparr>)
             | InError err # rest \<Rightarrow> wt_tell (WsEvent (InError err)) (t\<lparr>wt_incoming := rest\<rparr>)
             | InClosed code reason # rest \<Rightarrow> wt_finish (WsEvent (InClosed code reason)) (t\<lparr>wt_incoming := rest\<rparr>)
             | [] \<Rightarrow> if wt_incoming_open t then t else closed_1006 [] t)
          else t)"

text \<open>A code that passes the check of \<open>close()\<close> (\<open>src/src/runtime/bindings/websocket.rs\<close>) and the
  conversion behind it.  A code that is not a number passes the check, and converts to 0.\<close>

definition close_code_ok :: "u16 \<Rightarrow> bool" where
  "close_code_ok code \<longleftrightarrow> code = 1000 \<or> (3000 \<le> code \<and> code \<le> 4999) \<or> code = 0"

definition guest_command_ok :: "ws_command \<Rightarrow> bool" where
  "guest_command_ok cmd =
     (case cmd of
        Attach _ \<Rightarrow> True | Accept \<Rightarrow> True
      | Send (OutMessage _) \<Rightarrow> True | Send (OutClose _ _) \<Rightarrow> False
      | CloseCommand code _ \<Rightarrow> close_code_ok code)"

definition sends :: "ws_command list \<Rightarrow> ws_outgoing list" where
  "sends cmds = List.map_filter (\<lambda>c. case c of Send m \<Rightarrow> Some m | _ \<Rightarrow> None) cmds"

definition wt_push :: "ws_command \<Rightarrow> ws_task \<Rightarrow> ws_task" where
  "wt_push cmd t = t\<lparr>wt_cmds := wt_cmds t @ [cmd], wt_issued := wt_issued t @ sends [cmd]\<rparr>"

inductive ws_step :: "ws_task \<Rightarrow> ws_task \<Rightarrow> bool" where
  command: "wt_cmds_open t \<Longrightarrow> guest_command_ok cmd \<Longrightarrow> ws_step t (wt_push cmd t)"
| drop_commands: "ws_step t (t\<lparr>wt_cmds_open := False\<rparr>)"
| peer: "wt_incoming_open t \<Longrightarrow> ws_step t (t\<lparr>wt_incoming := wt_incoming t @ [m]\<rparr>)"
| peer_gone: "ws_step t (t\<lparr>wt_incoming_open := False\<rparr>)"
| cancel: "ws_step t (t\<lparr>wt_cancelled := True\<rparr>)"
| connecting: "wt_phase t = Connecting \<Longrightarrow> ws_step t (run_websocket answer t)"
| waiting: "wt_phase t = AwaitUpgrade \<Longrightarrow> ws_step t (run_server_websocket upgraded t)"
| pumping: "wt_phase t = Pumping \<Longrightarrow> ws_step t (pump_websocket t)"

abbreviation ws_reachable :: "ws_task \<Rightarrow> ws_task \<Rightarrow> bool" where
  "ws_reachable \<equiv> ws_step\<^sup>*\<^sup>*"

section \<open>Invariant\<close>

definition is_closed_event :: "ws_event \<Rightarrow> bool" where
  "is_closed_event e = (case e of WsEvent (InClosed _ _) \<Rightarrow> True | ConnectError _ \<Rightarrow> True | _ \<Rightarrow> False)"

definition is_message_event :: "ws_event \<Rightarrow> bool" where
  "is_message_event e = (case e of WsEvent (InMessage _) \<Rightarrow> True | WsEvent (InError _) \<Rightarrow> True | _ \<Rightarrow> False)"

definition frame_ok :: "ws_outgoing \<Rightarrow> bool" where
  "frame_ok f = (case f of OutMessage _ \<Rightarrow> True | OutClose code _ \<Rightarrow> close_code_ok code \<or> code = 1001 \<or> code = 1011)"

definition is_message_frame :: "ws_outgoing \<Rightarrow> bool" where
  "is_message_frame f = (case f of OutMessage _ \<Rightarrow> True | OutClose _ _ \<Rightarrow> False)"

text \<open>While the task runs, the frames, the kept messages and the waiting commands are what the guest
  sent; when it has ended, the frames are a prefix of it, followed by at most one close.\<close>

definition frames_ended :: "ws_outgoing list \<Rightarrow> ws_outgoing list \<Rightarrow> bool" where
  "frames_ended issued frames \<longleftrightarrow>
     (\<exists>sent rest. issued = sent @ rest \<and>
        (frames = sent \<or> (\<exists>code reason. frames = sent @ [OutClose code reason] \<and> frame_ok (OutClose code reason))))"

definition ws_inv :: "ws_task \<Rightarrow> bool" where
  "ws_inv t \<longleftrightarrow>
     (\<forall>c \<in> set (wt_cmds t). guest_command_ok c) \<and>
     (\<forall>m \<in> set (wt_issued t). is_message_frame m) \<and>
     (wt_phase t \<in> {Connecting, Pumping} \<longrightarrow> wt_early t = []) \<and>
     (if wt_phase t = Ended then frames_ended (wt_issued t) (wt_frames t)
      else wt_frames t @ wt_early t @ sends (wt_cmds t) = wt_issued t)"

definition ws_events_inv :: "ws_task \<Rightarrow> bool" where
  "ws_events_inv t \<longleftrightarrow>
     (wt_accepted t \<or> filter is_message_event (wt_events t) = []) \<and>
     (if wt_phase t = Ended
      then (\<forall>e \<in> set (butlast (wt_events t)). \<not> is_closed_event e)
      else (\<forall>e \<in> set (wt_events t). \<not> is_closed_event e))"

lemma sends_simps [simp]:
  "sends [] = []" "sends (Send m # cs) = m # sends cs" "sends (Attach n # cs) = sends cs"
  "sends (Accept # cs) = sends cs" "sends (CloseCommand co r # cs) = sends cs"
  "sends (cs @ ds) = sends cs @ sends ds"
  by (simp_all add: sends_def map_filter_def)

lemmas ws_defs = wt_tell_def wt_finish_def wt_put_def closed_1006_def wt_push_def cancel_close_def

lemma ws_inv_new: "ws_inv (ws_task_new phase e op) \<and> ws_events_inv (ws_task_new phase e op)"
  by (simp add: ws_inv_def ws_events_inv_def ws_task_new_def frames_ended_def)

lemma guest_send_message: "guest_command_ok (Send m) = is_message_frame m"
  by (cases m) (simp_all add: guest_command_ok_def is_message_frame_def)

lemma frames_ended_plain: "frames @ rest = issued \<Longrightarrow> frames_ended issued frames"
  by (auto simp: frames_ended_def)

lemma frames_ended_close:
  "sent @ rest = issued \<Longrightarrow> frame_ok (OutClose code reason) \<Longrightarrow> frames_ended issued (sent @ [OutClose code reason])"
  by (auto simp: frames_ended_def)

lemma frames_ended_more: "frames_ended issued frames \<Longrightarrow> frames_ended (issued @ further) frames"
  by (force simp: frames_ended_def)

lemma cancel_close_ok: "cancel_close e = (code, reason) \<Longrightarrow> frame_ok (OutClose code reason)"
  by (cases e) (auto simp: cancel_close_def frame_ok_def)

lemma close_command_ok: "guest_command_ok (CloseCommand code reason) \<Longrightarrow> frame_ok (OutClose code reason)"
  by (simp add: guest_command_ok_def frame_ok_def)

lemma ws_inv_push:
  assumes "ws_inv t" "guest_command_ok cmd"
  shows "ws_inv (wt_push cmd t)"
proof -
  have issued: "\<forall>m \<in> set (sends [cmd]). is_message_frame m"
    using assms(2) guest_send_message by (cases cmd) auto
  show ?thesis
    using assms issued by (auto simp: ws_inv_def wt_push_def frames_ended_more)
qed

lemma ws_inv_connecting:
  assumes "ws_inv t" "wt_phase t = Connecting"
  shows "ws_inv (run_websocket answer t)"
  using assms frames_ended_plain [of "wt_frames t" "sends (wt_cmds t)" "wt_issued t"]
  unfolding ws_inv_def run_websocket_def ws_defs
  by (auto split: option.splits connect_answer.splits)

lemma ws_inv_waiting:
  assumes "ws_inv t" "wt_phase t = AwaitUpgrade"
  shows "ws_inv (run_server_websocket upgraded t)"
  using assms frames_ended_plain [of "wt_frames t" "wt_early t @ sends (wt_cmds t)" "wt_issued t"]
  unfolding ws_inv_def run_server_websocket_def ws_defs Let_def
  by (auto split: list.splits ws_command.splits)

lemma ws_inv_pump:
  assumes "ws_inv t" "wt_phase t = Pumping"
  shows "ws_inv (pump_websocket t)"
proof (cases "wt_cancelled t")
  case True
  then show ?thesis
    using assms frames_ended_close [of "wt_frames t" "sends (wt_cmds t)" "wt_issued t"] cancel_close_ok [of "wt_end t"]
    by (auto simp: ws_inv_def pump_websocket_def wt_tell_def wt_finish_def wt_put_def closed_1006_def split: prod.splits)
next
  case False
  show ?thesis
  proof (cases "wt_cmds t")
    case Nil
    then show ?thesis
      using assms False frames_ended_plain [of "wt_frames t" "[]" "wt_issued t"]
      by (auto simp: ws_inv_def pump_websocket_def wt_tell_def wt_finish_def closed_1006_def
          split: list.splits ws_incoming.splits)
  next
    case (Cons cmd cmds)
    then show ?thesis
      using assms False frames_ended_close [of "wt_frames t" "sends cmds" "wt_issued t"] close_command_ok
      by (auto simp: ws_inv_def pump_websocket_def wt_tell_def wt_finish_def wt_put_def Let_def split: ws_command.splits)
  qed
qed

lemma ws_inv_step:
  assumes "ws_step t t'" "ws_inv t"
  shows "ws_inv t'"
  using assms
proof (induction rule: ws_step.induct)
  case (command t cmd)
  then show ?case by (simp add: ws_inv_push)
next
  case (connecting t answer)
  then show ?case by (simp add: ws_inv_connecting)
next
  case (waiting t upgraded)
  then show ?case by (simp add: ws_inv_waiting)
next
  case (pumping t)
  then show ?case by (simp add: ws_inv_pump)
qed (auto simp: ws_inv_def)

lemma events_finish:
  assumes "ws_events_inv t" "wt_phase t \<noteq> Ended" "wt_events t' = wt_events t @ [e]" "wt_phase t' = Ended"
    "wt_accepted t' = wt_accepted t" "\<not> is_message_event e"
  shows "ws_events_inv t'"
  using assms by (simp add: ws_events_inv_def)

lemma events_tell:
  assumes "ws_events_inv t" "wt_phase t \<noteq> Ended" "wt_events t' = wt_events t @ [e]" "wt_phase t' \<noteq> Ended"
    "wt_accepted t' = wt_accepted t" "is_message_event e \<longrightarrow> wt_accepted t" "\<not> is_closed_event e"
  shows "ws_events_inv t'"
  using assms by (auto simp: ws_events_inv_def)

lemma events_same:
  assumes "ws_events_inv t" "wt_phase t \<noteq> Ended" "wt_events t' = wt_events t" "wt_accepted t \<longrightarrow> wt_accepted t'"
  shows "ws_events_inv t'"
  using assms by (auto simp: ws_events_inv_def dest: in_set_butlastD)

lemma event_kinds [simp]:
  "\<not> is_message_event (ConnectError r)" "\<not> is_message_event Connected" "\<not> is_message_event (WsEvent (InClosed c r))"
  "is_message_event (WsEvent (InMessage m))" "is_message_event (WsEvent (InError r))" "is_closed_event (ConnectError r)" "\<not> is_closed_event Connected"
  "is_closed_event (WsEvent (InClosed c r))" "\<not> is_closed_event (WsEvent (InMessage m))"
  "\<not> is_closed_event (WsEvent (InError r))"
  by (simp_all add: is_message_event_def is_closed_event_def)

lemma ws_events_connecting:
  assumes "ws_events_inv t" "wt_phase t = Connecting"
  shows "ws_events_inv (run_websocket answer t)"
  using assms
  by (auto simp: run_websocket_def ws_defs split: option.splits connect_answer.splits
      intro: events_finish events_tell)

lemma ws_events_waiting:
  assumes "ws_events_inv t" "wt_phase t = AwaitUpgrade"
  shows "ws_events_inv (run_server_websocket upgraded t)"
  using assms
  by (auto simp: run_server_websocket_def ws_defs Let_def split: list.split ws_command.split
      intro: events_finish events_same)

lemma ws_events_pump:
  assumes "ws_events_inv t" "wt_phase t = Pumping"
  shows "ws_events_inv (pump_websocket t)"
proof (cases "wt_cancelled t \<or> wt_cmds t \<noteq> []")
  case True
  with assms show ?thesis
    by (auto simp: pump_websocket_def ws_defs Let_def split: list.split ws_command.split prod.split
        intro: events_finish events_same)
next
  case False
  with assms show ?thesis
    by (auto simp: pump_websocket_def ws_defs split: list.split ws_incoming.split
        intro: events_finish events_same events_tell)
qed

lemma ws_events_inv_step:
  assumes "ws_step t t'" "ws_events_inv t"
  shows "ws_events_inv t'"
  using assms
proof (induction rule: ws_step.induct)
  case (connecting t answer)
  then show ?case by (simp add: ws_events_connecting)
next
  case (waiting t upgraded)
  then show ?case by (simp add: ws_events_waiting)
next
  case (pumping t)
  then show ?case by (simp add: ws_events_pump)
qed (simp_all add: ws_events_inv_def wt_push_def)

lemma ws_reachable_inv:
  assumes "ws_reachable t t'" "ws_inv t \<and> ws_events_inv t"
  shows "ws_inv t' \<and> ws_events_inv t'"
  using assms by (induction rule: rtranclp_induct) (auto intro: ws_inv_step ws_events_inv_step)

lemma ws_inv_frames:
  assumes "ws_inv t"
  shows "\<exists>sent rest. wt_issued t = sent @ rest \<and> (\<forall>m \<in> set sent. is_message_frame m) \<and>
    (wt_frames t = sent \<or> (\<exists>code reason. wt_frames t = sent @ [OutClose code reason] \<and> frame_ok (OutClose code reason)))"
proof (cases "wt_phase t = Ended")
  case True
  with assms obtain sent rest where "wt_issued t = sent @ rest"
    "wt_frames t = sent \<or> (\<exists>co r. wt_frames t = sent @ [OutClose co r] \<and> frame_ok (OutClose co r))"
    by (auto simp: ws_inv_def frames_ended_def)
  moreover have "\<forall>m \<in> set (wt_issued t). is_message_frame m" using assms by (simp add: ws_inv_def)
  ultimately show ?thesis by auto
next
  case False
  then have "wt_issued t = wt_frames t @ (wt_early t @ sends (wt_cmds t))" using assms by (simp add: ws_inv_def)
  moreover have "\<forall>m \<in> set (wt_issued t). is_message_frame m" using assms by (simp add: ws_inv_def)
  ultimately show ?thesis by auto
qed

lemma frame_not_1006: "frame_ok (OutClose code reason) \<Longrightarrow> code \<noteq> 1006"
  by (auto simp: frame_ok_def close_code_ok_def)

lemma message_not_close: "is_message_frame m \<Longrightarrow> m \<noteq> OutClose code reason"
  by (auto simp: is_message_frame_def)

section \<open>Properties\<close>

text \<open>C22: What the guest sends on a socket reaches the connection in order, complete, and with at most
  one close frame behind it.  From the creation of a client socket or of a pair, in every state that
  commands, the peer, cancellation and the task itself can lead to: the message frames handed to the
  connection are a prefix of the messages the guest sent; while the task runs, the frames, the
  messages kept until the upgrade and the waiting commands are together exactly what the guest sent;
  only the last frame can be a close, and its code is never 1006, which must not go on the wire.\<close>

theorem ws_messages_in_order:
  assumes "ws_reachable (ws_task_new phase e op) t"
  shows "prefix (filter is_message_frame (wt_frames t)) (wt_issued t) \<and>
    (wt_phase t \<noteq> Ended \<longrightarrow> wt_frames t @ wt_early t @ sends (wt_cmds t) = wt_issued t) \<and>
    (\<forall>f \<in> set (butlast (wt_frames t)). is_message_frame f) \<and>
    (\<forall>reason. OutClose 1006 reason \<notin> set (wt_frames t))"
proof -
  have inv: "ws_inv t" using ws_reachable_inv [OF assms ws_inv_new] by simp
  from ws_inv_frames [OF inv] obtain sent rest where issued: "wt_issued t = sent @ rest"
    and sent: "\<forall>m \<in> set sent. is_message_frame m"
    and frames: "wt_frames t = sent \<or> (\<exists>co r. wt_frames t = sent @ [OutClose co r] \<and> frame_ok (OutClose co r))"
    by blast
  have "filter is_message_frame sent = sent" using sent by simp
  then have "filter is_message_frame (wt_frames t) = sent" using frames by (auto simp: is_message_frame_def)
  moreover have "\<forall>f \<in> set (butlast (wt_frames t)). is_message_frame f"
    using frames sent by (auto dest: in_set_butlastD)
  moreover have "OutClose 1006 reason \<notin> set (wt_frames t)" for reason
    using frames sent message_not_close frame_not_1006 by fastforce
  moreover have "wt_phase t \<noteq> Ended \<longrightarrow> wt_frames t @ wt_early t @ sends (wt_cmds t) = wt_issued t"
    using inv by (simp add: ws_inv_def)
  ultimately show ?thesis using issued by simp
qed

theorem ws_messages_in_order_witness:
  "\<exists>t. ws_reachable (ws_task_new AwaitUpgrade Server True) t \<and> wt_early t = [OutMessage 7] \<and>
     wt_frames t @ wt_early t @ sends (wt_cmds t) = wt_issued t"
proof -
  let ?t0 = "ws_task_new AwaitUpgrade Server True"
  let ?t1 = "wt_push (Send (OutMessage 7)) ?t0"
  let ?t2 = "run_server_websocket None ?t1"
  have "ws_step ?t0 ?t1" by (rule ws_step.command) (simp_all add: ws_task_new_def guest_command_ok_def)
  moreover have "ws_step ?t1 ?t2" by (rule ws_step.waiting) (simp add: ws_task_new_def wt_push_def)
  ultimately have reach: "ws_reachable ?t0 ?t2"
    by (meson converse_rtranclp_into_rtranclp rtranclp.rtrancl_refl)
  have "wt_early ?t2 = [OutMessage 7]" "wt_phase ?t2 = AwaitUpgrade" by code_simp+
  with ws_messages_in_order [OF reach] reach show ?thesis by auto
qed

text \<open>The guest hears of the end of a socket at most once, as the last thing it hears, and hears no
  message before it accepted the socket.  In every reachable state the events of the socket hold no
  close before the last one, and no message unless the guest accepted; and a cancelled request ends
  the task at its next turn, whatever it waits for, with a close event as the last event.\<close>

lemma ws_guest_told_once:
  assumes "ws_reachable (ws_task_new phase e op) t"
  shows "(\<forall>x \<in> set (butlast (wt_events t)). \<not> is_closed_event x) \<and>
    (\<not> wt_accepted t \<longrightarrow> filter is_message_event (wt_events t) = []) \<and>
    (wt_cancelled t \<longrightarrow>
       (\<forall>t' \<in> {run_websocket answer t, run_server_websocket upgraded t, pump_websocket t}.
          wt_phase t' = Ended \<and> is_closed_event (last (wt_events t'))))"
proof -
  have inv: "ws_events_inv t" using ws_reachable_inv [OF assms ws_inv_new] by simp
  then have "\<forall>x \<in> set (butlast (wt_events t)). \<not> is_closed_event x"
    by (auto simp: ws_events_inv_def dest: in_set_butlastD split: if_splits)
  moreover have "\<not> wt_accepted t \<longrightarrow> filter is_message_event (wt_events t) = []"
    using inv unfolding ws_events_inv_def by blast
  ultimately show ?thesis
    by (simp add: run_websocket_def run_server_websocket_def pump_websocket_def ws_defs is_closed_event_def
        split: prod.split ws_end.split)
qed

end
