(* ===== verification/Channel.thy ===== *)
theory Channel
  imports Prelude
begin

text \<open>
  The bounded multi-producer channel that the runtime takes from its async library, as the runtime
  uses it: a buffer with a capacity, a count of live senders, and whether the receiver is alive.  The
  contract the streams rely on is the locale \<open>bounded_fifo\<close>.  A send or receive that cannot complete
  answers that it is pending and changes nothing.
\<close>

section \<open>Model\<close>

record 'a channel =
  ch_cap :: nat
  ch_buf :: "'a list"
  ch_senders :: nat
  ch_rx_open :: bool

datatype send_result = Sent | SendFull | SendClosed

datatype 'a recv_result = Received 'a | RecvPending | RecvClosed

definition channel_new :: "nat \<Rightarrow> 'a channel" where
  "channel_new cap = \<lparr>ch_cap = cap, ch_buf = [], ch_senders = 1, ch_rx_open = True\<rparr>"

definition ch_capacity :: "'a channel \<Rightarrow> nat" where
  "ch_capacity c = ch_cap c - length (ch_buf c)"

definition ch_try_send :: "'a \<Rightarrow> 'a channel \<Rightarrow> 'a channel \<times> send_result" where
  "ch_try_send x c =
     (if \<not> ch_rx_open c then (c, SendClosed)
      else if ch_capacity c = 0 then (c, SendFull)
      else (c\<lparr>ch_buf := ch_buf c @ [x]\<rparr>, Sent))"

definition ch_recv :: "'a channel \<Rightarrow> 'a channel \<times> 'a recv_result" where
  "ch_recv c =
     (case ch_buf c of
        x # xs \<Rightarrow> (c\<lparr>ch_buf := xs\<rparr>, Received x)
      | [] \<Rightarrow> (c, if ch_senders c = 0 then RecvClosed else RecvPending))"

definition ch_clone_sender :: "'a channel \<Rightarrow> 'a channel" where
  "ch_clone_sender c = c\<lparr>ch_senders := Suc (ch_senders c)\<rparr>"

definition ch_drop_sender :: "'a channel \<Rightarrow> 'a channel" where
  "ch_drop_sender c = c\<lparr>ch_senders := ch_senders c - 1\<rparr>"

definition ch_drop_receiver :: "'a channel \<Rightarrow> 'a channel" where
  "ch_drop_receiver c = c\<lparr>ch_rx_open := False, ch_buf := []\<rparr>"

text \<open>A history of sends and receives: what was accepted and what was delivered.\<close>

datatype 'a fifo_op = FSend 'a | FRecv

record ('s, 'a) fifo_run =
  fr_state :: 's
  fr_accepted :: "'a list"
  fr_delivered :: "'a list"

definition fifo_step ::
    "('a \<Rightarrow> 's \<Rightarrow> 's \<times> send_result) \<Rightarrow> ('s \<Rightarrow> 's \<times> 'a recv_result) \<Rightarrow> 'a fifo_op \<Rightarrow> ('s, 'a) fifo_run \<Rightarrow> ('s, 'a) fifo_run"
  where
  "fifo_step send recv op h =
     (case op of
        FSend x \<Rightarrow> (let (s, res) = send x (fr_state h) in
          if res = Sent then h\<lparr>fr_state := s, fr_accepted := fr_accepted h @ [x]\<rparr> else h\<lparr>fr_state := s\<rparr>)
      | FRecv \<Rightarrow> (let (s, res) = recv (fr_state h) in
          case res of Received x \<Rightarrow> h\<lparr>fr_state := s, fr_delivered := fr_delivered h @ [x]\<rparr>
          | _ \<Rightarrow> h\<lparr>fr_state := s\<rparr>))"

section \<open>The contract\<close>

locale bounded_fifo =
  fixes send :: "'a \<Rightarrow> 's \<Rightarrow> 's \<times> send_result"
    and recv :: "'s \<Rightarrow> 's \<times> 'a recv_result"
    and items :: "'s \<Rightarrow> 'a list"
    and cap :: "'s \<Rightarrow> nat"
  assumes send_sent: "snd (send x s) = Sent \<Longrightarrow> items (fst (send x s)) = items s @ [x] \<and> length (items s) < cap s"
    and send_not: "snd (send x s) \<noteq> Sent \<Longrightarrow> items (fst (send x s)) = items s"
    and send_cap: "cap (fst (send x s)) = cap s"
    and recv_some: "snd (recv s) = Received x \<Longrightarrow> items s = x # items (fst (recv s))"
    and recv_none: "\<forall>x. snd (recv s) \<noteq> Received x \<Longrightarrow> items (fst (recv s)) = items s \<and> items s = []"
    and recv_cap: "cap (fst (recv s)) = cap s"
begin

lemma step_fifo_law:
  assumes "fr_accepted h = fr_delivered h @ items (fr_state h)"
  shows "fr_accepted (fifo_step send recv op h) =
    fr_delivered (fifo_step send recv op h) @ items (fr_state (fifo_step send recv op h))"
proof (cases op)
  case (FSend x)
  then show ?thesis
    using assms send_sent [of x "fr_state h"] send_not [of x "fr_state h"]
    by (auto simp: fifo_step_def split: prod.splits)
next
  case FRecv
  then show ?thesis
    using assms recv_some [of "fr_state h"] recv_none [of "fr_state h"]
    by (auto simp: fifo_step_def split: prod.splits recv_result.splits)
qed

lemma run_fifo_law:
  assumes "items s = []"
  shows "let h = fold (fifo_step send recv) ops \<lparr>fr_state = s, fr_accepted = [], fr_delivered = []\<rparr>
    in fr_accepted h = fr_delivered h @ items (fr_state h)"
  using assms by (induction ops rule: rev_induct) (auto simp: Let_def intro: step_fifo_law)

lemma step_bounded:
  assumes "length (items (fr_state h)) \<le> cap (fr_state h)"
  shows "length (items (fr_state (fifo_step send recv op h))) \<le> cap (fr_state (fifo_step send recv op h))"
proof (cases op)
  case (FSend x)
  then show ?thesis
    using assms send_sent [of x "fr_state h"] send_not [of x "fr_state h"] send_cap [of x "fr_state h"]
    by (auto simp: fifo_step_def split: prod.splits)
next
  case FRecv
  then show ?thesis
    using assms recv_some [of "fr_state h"] recv_none [of "fr_state h"] recv_cap [of "fr_state h"]
    by (auto simp: fifo_step_def split: prod.splits recv_result.splits)
qed

end

interpretation mpsc: bounded_fifo ch_try_send ch_recv ch_buf ch_cap
  by unfold_locales
    (auto simp: ch_try_send_def ch_recv_def ch_capacity_def split: if_splits list.splits)

end
