(* ===== verification/Hash_Map.thy ===== *)
theory Hash_Map
  imports Prelude
begin

text \<open>
  The hash map of the Rust standard library, for the tables of the runtime that are keyed by an id:
  an association list without duplicate keys.  The order of the list is never observed.  Clients
  rely on the contract \<open>key_table\<close>, and on what it gives for tables whose ids come from a counter.
\<close>

type_synonym ('k, 'v) hash_map = "('k \<times> 'v) list"

definition hm_remove :: "'k \<Rightarrow> ('k, 'v) hash_map \<Rightarrow> ('k, 'v) hash_map" where
  "hm_remove k m = filter (\<lambda>p. fst p \<noteq> k) m"

definition hm_insert :: "'k \<Rightarrow> 'v \<Rightarrow> ('k, 'v) hash_map \<Rightarrow> ('k, 'v) hash_map" where
  "hm_insert k v m = (k, v) # hm_remove k m"

definition hm_get :: "('k, 'v) hash_map \<Rightarrow> 'k \<Rightarrow> 'v option" where
  "hm_get m k = map_of m k"

definition hm_wf :: "('k, 'v) hash_map \<Rightarrow> bool" where
  "hm_wf m \<longleftrightarrow> distinct (map fst m)"

text \<open>\<open>remove\<close> with the value it returns.\<close>

definition hm_take :: "'k \<Rightarrow> ('k, 'v) hash_map \<Rightarrow> ('k, 'v) hash_map \<times> 'v option" where
  "hm_take k m = (hm_remove k m, hm_get m k)"

locale key_table =
  fixes wf :: "'m \<Rightarrow> bool"
    and empty :: 'm
    and get :: "'m \<Rightarrow> 'k \<Rightarrow> 'v option"
    and insert :: "'k \<Rightarrow> 'v \<Rightarrow> 'm \<Rightarrow> 'm"
    and remove :: "'k \<Rightarrow> 'm \<Rightarrow> 'm"
    and size :: "'m \<Rightarrow> nat"
  assumes wf_empty: "wf empty"
    and wf_insert: "wf m \<Longrightarrow> wf (insert k v m)"
    and wf_remove: "wf m \<Longrightarrow> wf (remove k m)"
    and get_empty: "get empty k = None"
    and get_insert: "get (insert k v m) q = (if q = k then Some v else get m q)"
    and get_remove: "get (remove k m) q = (if q = k then None else get m q)"
    and size_card: "wf m \<Longrightarrow> size m = card {k. get m k \<noteq> None} \<and> finite {k. get m k \<noteq> None}"
begin

lemma size_insert_fresh: "wf m \<Longrightarrow> get m k = None \<Longrightarrow> size (insert k v m) = Suc (size m)"
proof -
  assume wf: "wf m" and k: "get m k = None"
  have "{q. get (insert k v m) q \<noteq> None} = Set.insert k {q. get m q \<noteq> None}"
    by (auto simp: get_insert)
  with size_card [OF wf] size_card [OF wf_insert [OF wf], of k v] k show ?thesis by simp
qed

lemma size_remove_present: "wf m \<Longrightarrow> get m k \<noteq> None \<Longrightarrow> Suc (size (remove k m)) = size m"
proof -
  assume wf: "wf m" and k: "get m k \<noteq> None"
  have "{q. get (remove k m) q \<noteq> None} = {q. get m q \<noteq> None} - {k}"
    by (auto simp: get_remove)
  moreover have "k \<in> {q. get m q \<noteq> None}" using k by simp
  ultimately show ?thesis
    using size_card [OF wf] size_card [OF wf_remove [OF wf], of k] by (metis card_Suc_Diff1)
qed

end

lemma hm_get_insert [simp]: "hm_get (hm_insert k v m) q = (if q = k then Some v else hm_get m q)"
  by (induction m) (auto simp: hm_get_def hm_insert_def hm_remove_def)

lemma hm_get_remove [simp]: "hm_get (hm_remove k m) q = (if q = k then None else hm_get m q)"
  by (induction m) (auto simp: hm_get_def hm_remove_def)

lemma hm_get_empty [simp]: "hm_get [] k = None"
  by (simp add: hm_get_def)

lemma hm_wf_remove [simp]: "hm_wf m \<Longrightarrow> hm_wf (hm_remove k m)"
  by (simp add: hm_wf_def hm_remove_def distinct_map_filter)

lemma hm_wf_insert [simp]: "hm_wf m \<Longrightarrow> hm_wf (hm_insert k v m)"
  using hm_wf_remove [of m k] by (auto simp: hm_wf_def hm_insert_def hm_remove_def)

lemma hm_get_dom: "{k. hm_get m k \<noteq> None} = fst ` set m"
  by (auto simp: hm_get_def map_of_eq_None_iff)

interpretation hash_table: key_table hm_wf "[]" hm_get hm_insert hm_remove length
proof (unfold_locales, goal_cases)
  case (7 m)
  then have "card (fst ` set m) = length m"
    using distinct_card [of "map fst m"] by (simp add: hm_wf_def)
  with hm_get_dom [of m] show ?case by simp
qed (simp_all add: hm_wf_def [of "[]"])

end
