(* ===== verification/Stream_Manager.thy ===== *)
theory Stream_Manager
  imports Channel Hash_Map
begin

text \<open>
  The streams of a context, from \<open>src/src/runtime/stream_manager.rs\<close>: a table of senders and one of
  receivers, by stream id, over bounded channels.  The channels live in a list, because senders and
  receivers leave the tables while a write or a read waits on them.  An operation that waits is
  split into its start and one poll of it; the poll answers None while it is pending.
\<close>

section \<open>Model\<close>

type_synonym stream_id = u64

datatype stream_chunk = Data bytes | Done | Error string

datatype stream_error =
    StreamNotFound stream_id
  | ChannelClosed
  | BufferFull
  | ClosedUnexpectedly
  | NotFoundOrBeingRead stream_id

record stream_manager =
  sm_senders :: "(stream_id, nat) hash_map"
  sm_receivers :: "(stream_id, nat) hash_map"
  sm_metadata :: "(stream_id, string) hash_map"
  sm_next_id :: stream_id
  sm_high_water_mark :: nat
  sm_channels :: "stream_chunk channel list"
  sm_wakes :: nat

definition DEFAULT_HIGH_WATER_MARK :: nat where
  "DEFAULT_HIGH_WATER_MARK = 16"

definition with_high_water_mark :: "nat \<Rightarrow> stream_manager" where
  "with_high_water_mark hwm =
     \<lparr>sm_senders = [], sm_receivers = [], sm_metadata = [], sm_next_id = 1,
      sm_high_water_mark = hwm, sm_channels = [], sm_wakes = 0\<rparr>"

definition stream_manager_new :: stream_manager where
  "stream_manager_new = with_high_water_mark DEFAULT_HIGH_WATER_MARK"

definition update_channel :: "nat \<Rightarrow> (stream_chunk channel \<Rightarrow> stream_chunk channel) \<Rightarrow> stream_manager \<Rightarrow> stream_manager"
  where
  "update_channel c f sm = sm\<lparr>sm_channels := (sm_channels sm)[c := f (sm_channels sm ! c)]\<rparr>"

text \<open>Removing an entry of a table drops the handle that was in it, and so does replacing it.\<close>

definition remove_sender :: "stream_id \<Rightarrow> stream_manager \<Rightarrow> stream_manager" where
  "remove_sender i sm =
     (case hm_get (sm_senders sm) i of
        None \<Rightarrow> sm
      | Some c \<Rightarrow> update_channel c ch_drop_sender (sm\<lparr>sm_senders := hm_remove i (sm_senders sm)\<rparr>))"

definition remove_receiver :: "stream_id \<Rightarrow> stream_manager \<Rightarrow> stream_manager" where
  "remove_receiver i sm =
     (case hm_get (sm_receivers sm) i of
        None \<Rightarrow> sm
      | Some c \<Rightarrow> update_channel c ch_drop_receiver (sm\<lparr>sm_receivers := hm_remove i (sm_receivers sm)\<rparr>))"

definition insert_sender :: "stream_id \<Rightarrow> nat \<Rightarrow> stream_manager \<Rightarrow> stream_manager" where
  "insert_sender i c sm =
     (let sm = remove_sender i sm in sm\<lparr>sm_senders := hm_insert i c (sm_senders sm)\<rparr>)"

definition insert_receiver :: "stream_id \<Rightarrow> nat \<Rightarrow> stream_manager \<Rightarrow> stream_manager" where
  "insert_receiver i c sm =
     (let sm = remove_receiver i sm in sm\<lparr>sm_receivers := hm_insert i c (sm_receivers sm)\<rparr>)"

definition create_stream :: "string \<Rightarrow> stream_manager \<Rightarrow> stream_manager \<times> stream_id" where
  "create_stream url sm =
     (let c = length (sm_channels sm);
          sm = sm\<lparr>sm_channels := sm_channels sm @ [channel_new (sm_high_water_mark sm + 1)]\<rparr>;
          i = sm_next_id sm;
          sm = sm\<lparr>sm_next_id := i + 1\<rparr>;
          sm = insert_receiver i c (insert_sender i c sm)
      in (sm\<lparr>sm_metadata := hm_insert i url (sm_metadata sm)\<rparr>, i))"

text \<open>\<open>write_chunk\<close>: the start clones the sender; a poll sends, waits, or finds the channel closed and
  removes the sender that is then in the table.\<close>

definition write_begin :: "stream_id \<Rightarrow> stream_manager \<Rightarrow> stream_manager \<times> nat option" where
  "write_begin i sm =
     (case hm_get (sm_senders sm) i of
        None \<Rightarrow> (sm, None)
      | Some c \<Rightarrow> (update_channel c ch_clone_sender sm, Some c))"

definition write_poll ::
    "nat \<Rightarrow> stream_id \<Rightarrow> stream_chunk \<Rightarrow> stream_manager \<Rightarrow> stream_manager \<times> (stream_error, unit) result option"
  where
  "write_poll c i chunk sm =
     (case ch_try_send chunk (sm_channels sm ! c) of
        (ch, Sent) \<Rightarrow> (update_channel c (\<lambda>_. ch_drop_sender ch) sm, Some (Ok ()))
      | (ch, SendFull) \<Rightarrow> (sm, None)
      | (ch, SendClosed) \<Rightarrow> (update_channel c ch_drop_sender (remove_sender i sm), Some (Err ChannelClosed)))"

definition write_chunk ::
    "stream_id \<Rightarrow> stream_chunk \<Rightarrow> stream_manager \<Rightarrow> stream_manager \<times> (stream_error, unit) result option"
  where
  "write_chunk i chunk sm =
     (case write_begin i sm of
        (sm, Some c) \<Rightarrow> write_poll c i chunk sm
      | (sm, None) \<Rightarrow> (sm, Some (Err (StreamNotFound i))))"

definition terminal :: "stream_chunk \<Rightarrow> bool" where
  "terminal chunk = (case chunk of Data _ \<Rightarrow> False | Done \<Rightarrow> True | Error _ \<Rightarrow> True)"

definition try_write_chunk ::
    "stream_id \<Rightarrow> stream_chunk \<Rightarrow> stream_manager \<Rightarrow> stream_manager \<times> (stream_error, unit) result"
  where
  "try_write_chunk i chunk sm =
     (case hm_get (sm_senders sm) i of
        None \<Rightarrow> (sm, Err (StreamNotFound i))
      | Some c \<Rightarrow>
          if \<not> terminal chunk \<and> ch_capacity (sm_channels sm ! c) \<le> 1 then (sm, Err BufferFull)
          else (case ch_try_send chunk (sm_channels sm ! c) of
                  (ch, Sent) \<Rightarrow> (update_channel c (\<lambda>_. ch) sm, Ok ())
                | (ch, SendFull) \<Rightarrow> (sm, Err BufferFull)
                | (ch, SendClosed) \<Rightarrow> (remove_sender i sm, Err ChannelClosed)))"

definition take_receiver :: "stream_id \<Rightarrow> stream_manager \<Rightarrow> stream_manager \<times> nat option" where
  "take_receiver i sm = (sm\<lparr>sm_receivers := hm_remove i (sm_receivers sm)\<rparr>, hm_get (sm_receivers sm) i)"

definition read_poll ::
    "nat \<Rightarrow> stream_id \<Rightarrow> stream_manager \<Rightarrow> stream_manager \<times> (stream_error, stream_chunk) result option"
  where
  "read_poll c i sm =
     (case ch_recv (sm_channels sm ! c) of
        (ch, Received chunk) \<Rightarrow>
          (if terminal chunk then (update_channel c (\<lambda>_. ch_drop_receiver ch) sm, Some (Ok chunk))
           else (insert_receiver i c (update_channel c (\<lambda>_. ch) sm), Some (Ok chunk)))
      | (ch, RecvPending) \<Rightarrow> (sm, None)
      | (ch, RecvClosed) \<Rightarrow> (update_channel c ch_drop_receiver sm, Some (Err ClosedUnexpectedly)))"

definition read_chunk ::
    "stream_id \<Rightarrow> stream_manager \<Rightarrow> stream_manager \<times> (stream_error, stream_chunk) result option"
  where
  "read_chunk i sm =
     (case take_receiver i sm of
        (sm, Some c) \<Rightarrow> read_poll c i sm
      | (sm, None) \<Rightarrow> (sm, Some (Err (NotFoundOrBeingRead i))))"

definition close_stream :: "stream_id \<Rightarrow> stream_manager \<Rightarrow> stream_manager" where
  "close_stream i sm =
     (let sm = remove_receiver i (remove_sender i sm) in
      sm\<lparr>sm_metadata := hm_remove i (sm_metadata sm), sm_wakes := Suc (sm_wakes sm)\<rparr>)"

definition get_stream_info :: "stream_id \<Rightarrow> stream_manager \<Rightarrow> string option" where
  "get_stream_info i sm = hm_get (sm_metadata sm) i"

definition has_sender :: "stream_id \<Rightarrow> stream_manager \<Rightarrow> bool" where
  "has_sender i sm = (hm_get (sm_senders sm) i \<noteq> None)"

definition active_count :: "stream_manager \<Rightarrow> nat" where
  "active_count sm = length (sm_senders sm)"

definition sm_sender :: "stream_id \<Rightarrow> stream_manager \<Rightarrow> nat option" where
  "sm_sender i sm = hm_get (sm_senders sm) i"

text \<open>\<open>clear\<close> drops every handle of the tables.  Handles that a waiting write or read took out stay.\<close>

definition drop_handles ::
    "(stream_id, nat) hash_map \<Rightarrow> (stream_chunk channel \<Rightarrow> stream_chunk channel) \<Rightarrow>
       stream_chunk channel list \<Rightarrow> stream_chunk channel list" where
  "drop_handles table f chs = fold (\<lambda>(_, c) chs. chs[c := f (chs ! c)]) table chs"

definition sm_clear :: "stream_manager \<Rightarrow> stream_manager" where
  "sm_clear sm =
     sm\<lparr>sm_channels := drop_handles (sm_receivers sm) ch_drop_receiver
          (drop_handles (sm_senders sm) ch_drop_sender (sm_channels sm)),
        sm_senders := [], sm_receivers := [], sm_metadata := [], sm_next_id := 1\<rparr>"

text \<open>\<open>pump_request_body\<close> over the items of the upstream channel, with the write as an argument: it
  answers whether the write went through.\<close>

fun pump_loop ::
    "(stream_chunk \<Rightarrow> 's \<Rightarrow> 's \<times> bool) \<Rightarrow> (string, bytes) result list \<Rightarrow> 's \<Rightarrow> 's" where
  "pump_loop write [] s = fst (write Done s)"
| "pump_loop write (Inr b # items) s =
     (let (s, ok) = write (Data b) s in if \<not> ok then fst (write Done s) else pump_loop write items s)"
| "pump_loop write (Inl e # items) s = (let (s, _) = write (Error e) s in fst (write Done s))"

section \<open>One open stream\<close>

definition stream_ok :: "stream_id \<Rightarrow> nat \<Rightarrow> stream_manager \<Rightarrow> bool" where
  "stream_ok i c sm \<longleftrightarrow>
     hm_get (sm_senders sm) i = Some c \<and> hm_get (sm_receivers sm) i = Some c \<and> c < length (sm_channels sm) \<and>
     ch_rx_open (sm_channels sm ! c) \<and> ch_cap (sm_channels sm ! c) = sm_high_water_mark sm + 1"

definition buffered :: "nat \<Rightarrow> stream_manager \<Rightarrow> stream_chunk list" where
  "buffered c sm = ch_buf (sm_channels sm ! c)"

lemmas stream_defs =
  update_channel_def remove_sender_def remove_receiver_def insert_sender_def insert_receiver_def
  take_receiver_def Let_def

text \<open>Every id below the counter may be in use; the counter itself is free.\<close>

definition ids_fresh :: "stream_manager \<Rightarrow> bool" where
  "ids_fresh sm \<longleftrightarrow> (\<forall>i. hm_get (sm_senders sm) i \<noteq> None \<or> hm_get (sm_receivers sm) i \<noteq> None \<longrightarrow> i < sm_next_id sm)"

lemma create_stream_ok:
  assumes "create_stream url sm = (sm', i)" "ids_fresh sm"
  shows "i = sm_next_id sm" "stream_ok i (length (sm_channels sm)) sm'" "buffered (length (sm_channels sm)) sm' = []"
    and "hm_get (sm_senders sm) i = None" "hm_get (sm_receivers sm) i = None"
    and "sm_high_water_mark sm' = sm_high_water_mark sm"
    and "sm_channels sm' = sm_channels sm @ [channel_new (sm_high_water_mark sm + 1)]"
proof -
  have "\<not> sm_next_id sm < sm_next_id sm" by simp
  then have fresh: "hm_get (sm_senders sm) (sm_next_id sm) = None" "hm_get (sm_receivers sm) (sm_next_id sm) = None"
    using assms(2) unfolding ids_fresh_def by blast+
  with assms(1) show "i = sm_next_id sm" "hm_get (sm_senders sm) i = None" "hm_get (sm_receivers sm) i = None"
    "stream_ok i (length (sm_channels sm)) sm'" "buffered (length (sm_channels sm)) sm' = []"
    "sm_high_water_mark sm' = sm_high_water_mark sm"
    "sm_channels sm' = sm_channels sm @ [channel_new (sm_high_water_mark sm + 1)]"
    by (auto simp: create_stream_def stream_defs stream_ok_def buffered_def channel_new_def)
qed

text \<open>The effect of a write and of a read on an open stream.\<close>

lemma try_write_open:
  assumes "stream_ok i c sm"
  shows "try_write_chunk i chunk sm =
    (if length (buffered c sm) + (if terminal chunk then 0 else 1) \<le> sm_high_water_mark sm
     then (update_channel c (\<lambda>ch. ch\<lparr>ch_buf := ch_buf ch @ [chunk]\<rparr>) sm, Ok ())
     else (sm, Err BufferFull))"
  using assms
  by (auto simp: try_write_chunk_def stream_ok_def buffered_def ch_try_send_def ch_capacity_def update_channel_def)

lemma update_buf_ok:
  assumes "stream_ok i c sm"
  shows "stream_ok i c (update_channel c (\<lambda>ch. ch\<lparr>ch_buf := xs ch\<rparr>) sm)"
    and "buffered c (update_channel c (\<lambda>ch. ch\<lparr>ch_buf := xs ch\<rparr>) sm) = xs (sm_channels sm ! c)"
    and "sm_high_water_mark (update_channel c (\<lambda>ch. ch\<lparr>ch_buf := xs ch\<rparr>) sm) = sm_high_water_mark sm"
  using assms by (auto simp: stream_ok_def buffered_def update_channel_def)

lemma read_open_data:
  assumes "stream_ok i c sm" "buffered c sm = chunk # rest" "\<not> terminal chunk"
  shows "\<exists>sm'. read_chunk i sm = (sm', Some (Ok chunk)) \<and> stream_ok i c sm' \<and> buffered c sm' = rest \<and>
    sm_high_water_mark sm' = sm_high_water_mark sm"
  using assms
  by (auto simp: read_chunk_def read_poll_def stream_defs ch_recv_def stream_ok_def buffered_def)

lemma read_open_terminal:
  assumes "stream_ok i c sm" "buffered c sm = chunk # rest" "terminal chunk"
  shows "\<exists>sm'. read_chunk i sm = (sm', Some (Ok chunk)) \<and> hm_get (sm_receivers sm') i = None \<and>
    \<not> ch_rx_open (sm_channels sm' ! c)"
  using assms
  by (auto simp: read_chunk_def read_poll_def stream_defs ch_recv_def stream_ok_def buffered_def ch_drop_receiver_def)

lemma read_open_empty:
  assumes "stream_ok i c sm" "buffered c sm = []" "ch_senders (sm_channels sm ! c) \<noteq> 0"
  shows "\<exists>sm'. read_chunk i sm = (sm', None)"
  using assms by (auto simp: read_chunk_def read_poll_def take_receiver_def ch_recv_def stream_ok_def buffered_def)

section \<open>Runs on one stream\<close>

text \<open>A JavaScript producer that writes without waiting, and a consumer that reads a chunk that is
  there.  A read of an empty stream waits, so it is not a step.\<close>

datatype stream_op = WriteData bytes | ReadOne

definition stream_op_step :: "stream_id \<Rightarrow> nat \<Rightarrow> stream_op \<Rightarrow> stream_manager \<Rightarrow> stream_manager" where
  "stream_op_step i c op sm =
     (case op of
        WriteData b \<Rightarrow> fst (try_write_chunk i (Data b) sm)
      | ReadOne \<Rightarrow> if buffered c sm = [] then sm else fst (read_chunk i sm))"

definition only_data :: "stream_chunk list \<Rightarrow> bool" where
  "only_data chunks \<longleftrightarrow> list_all (\<lambda>chunk. \<not> terminal chunk) chunks"

lemma stream_op_step_inv:
  assumes "stream_ok i c sm" "only_data (buffered c sm)" "length (buffered c sm) \<le> sm_high_water_mark sm"
  shows "stream_ok i c (stream_op_step i c op sm) \<and> only_data (buffered c (stream_op_step i c op sm)) \<and>
    length (buffered c (stream_op_step i c op sm)) \<le> sm_high_water_mark (stream_op_step i c op sm) \<and>
    sm_high_water_mark (stream_op_step i c op sm) = sm_high_water_mark sm"
proof (cases op)
  case (WriteData b)
  with assms show ?thesis
    using update_buf_ok [OF assms(1), of "\<lambda>ch. ch_buf ch @ [Data b]"]
    by (auto simp: stream_op_step_def try_write_open terminal_def only_data_def buffered_def [symmetric])
next
  case ReadOne
  show ?thesis
  proof (cases "buffered c sm")
    case Nil
    with ReadOne assms show ?thesis by (simp add: stream_op_step_def)
  next
    case (Cons chunk rest)
    with assms(2) have "\<not> terminal chunk" by (simp add: only_data_def)
    from read_open_data [OF assms(1) Cons this] Cons ReadOne assms show ?thesis
      by (auto simp: stream_op_step_def only_data_def)
  qed
qed

lemma stream_ops_inv:
  assumes "stream_ok i c sm" "buffered c sm = []"
  shows "stream_ok i c (fold (stream_op_step i c) ops sm) \<and>
    only_data (buffered c (fold (stream_op_step i c) ops sm)) \<and>
    length (buffered c (fold (stream_op_step i c) ops sm)) \<le> sm_high_water_mark sm \<and>
    sm_high_water_mark (fold (stream_op_step i c) ops sm) = sm_high_water_mark sm"
proof (induction ops rule: rev_induct)
  case Nil
  then show ?case using assms by (simp add: only_data_def)
next
  case (snoc op ops)
  then show ?case using stream_op_step_inv [of i c "fold (stream_op_step i c) ops sm" op] by auto
qed

section \<open>Properties\<close>

text \<open>A stream can always be ended.  Whatever data the producer has tried to write to a new stream
  and however much of it has been read, the buffer holds at most the high water mark of data chunks,
  and writing the terminal chunk without waiting succeeds.\<close>

lemma stream_can_always_end:
  assumes "create_stream url sm = (sm', i)" "ids_fresh sm" "terminal chunk"
  shows "length (buffered (length (sm_channels sm)) (fold (stream_op_step i (length (sm_channels sm))) ops sm'))
      \<le> sm_high_water_mark sm \<and>
    snd (try_write_chunk i chunk (fold (stream_op_step i (length (sm_channels sm))) ops sm')) = Ok ()"
proof -
  note new = create_stream_ok [OF assms(1,2)]
  note inv = stream_ops_inv [OF new(2,3), of ops]
  then show ?thesis using assms(3) try_write_open new(6) by auto
qed

text \<open>Everything the producers got accepted and everything the consumer got, over any sequence of
  writes that wait, writes that do not, and reads.\<close>

datatype stream_call = TryWrite bytes | AwaitWrite bytes | ReadNext

record stream_history =
  sh_manager :: stream_manager
  sh_accepted :: "stream_chunk list"
  sh_delivered :: "stream_chunk list"

definition stream_call_step :: "stream_id \<Rightarrow> nat \<Rightarrow> stream_call \<Rightarrow> stream_history \<Rightarrow> stream_history" where
  "stream_call_step i c call h =
     (case call of
        TryWrite b \<Rightarrow> (let (sm, res) = try_write_chunk i (Data b) (sh_manager h) in
          h\<lparr>sh_manager := sm, sh_accepted := sh_accepted h @ (if res = Ok () then [Data b] else [])\<rparr>)
      | AwaitWrite b \<Rightarrow> (let (sm, res) = write_chunk i (Data b) (sh_manager h) in
          h\<lparr>sh_manager := sm, sh_accepted := sh_accepted h @ (if res = Some (Ok ()) then [Data b] else [])\<rparr>)
      | ReadNext \<Rightarrow>
          if buffered c (sh_manager h) = [] then h
          else (case read_chunk i (sh_manager h) of
                  (sm, Some (Inr chunk)) \<Rightarrow> h\<lparr>sh_manager := sm, sh_delivered := sh_delivered h @ [chunk]\<rparr>
                | (sm, _) \<Rightarrow> h\<lparr>sh_manager := sm\<rparr>))"

definition fifo_inv :: "stream_id \<Rightarrow> nat \<Rightarrow> stream_history \<Rightarrow> bool" where
  "fifo_inv i c h \<longleftrightarrow>
     stream_ok i c (sh_manager h) \<and> only_data (buffered c (sh_manager h)) \<and>
     sh_accepted h = sh_delivered h @ buffered c (sh_manager h)"

lemma write_open:
  assumes "stream_ok i c sm"
  shows "stream_ok i c (fst (write_chunk i (Data b) sm)) \<and>
    buffered c (fst (write_chunk i (Data b) sm)) =
      buffered c sm @ (if snd (write_chunk i (Data b) sm) = Some (Ok ()) then [Data b] else [])"
  using assms
  by (auto simp: write_chunk_def write_begin_def write_poll_def ch_try_send_def ch_capacity_def ch_clone_sender_def
      ch_drop_sender_def update_channel_def stream_ok_def buffered_def)

lemma stream_call_step_inv:
  assumes "fifo_inv i c h"
  shows "fifo_inv i c (stream_call_step i c call h)"
proof -
  from assms have ok: "stream_ok i c (sh_manager h)" and data: "only_data (buffered c (sh_manager h))"
    and fifo: "sh_accepted h = sh_delivered h @ buffered c (sh_manager h)" by (auto simp: fifo_inv_def)
  show ?thesis
  proof (cases call)
    case (TryWrite b)
    with fifo data ok update_buf_ok [OF ok, of "\<lambda>ch. ch_buf ch @ [Data b]"] show ?thesis
      by (auto simp: stream_call_step_def fifo_inv_def try_write_open only_data_def terminal_def
          buffered_def [symmetric])
  next
    case (AwaitWrite b)
    with fifo data write_open [OF ok, of b] show ?thesis
      by (auto simp: stream_call_step_def fifo_inv_def only_data_def terminal_def split: prod.splits if_splits)
  next
    case ReadNext
    show ?thesis
    proof (cases "buffered c (sh_manager h)")
      case Nil
      with ReadNext assms show ?thesis by (simp add: stream_call_step_def)
    next
      case (Cons chunk rest)
      with data have "\<not> terminal chunk" by (simp add: only_data_def)
      from read_open_data [OF ok Cons this] Cons ReadNext data fifo show ?thesis
        by (auto simp: stream_call_step_def fifo_inv_def only_data_def)
    qed
  qed
qed

text \<open>A stream delivers what was written, in order, and nothing else.  Over any sequence of writes
  and reads on a new stream, the accepted chunks are the delivered ones followed by the ones still
  buffered.\<close>

lemma stream_fifo:
  assumes "create_stream url sm = (sm', i)" "ids_fresh sm"
    and "h = fold (stream_call_step i (length (sm_channels sm))) calls
      \<lparr>sh_manager = sm', sh_accepted = [], sh_delivered = []\<rparr>"
  shows "sh_accepted h = sh_delivered h @ buffered (length (sm_channels sm)) (sh_manager h)"
proof -
  note new = create_stream_ok [OF assms(1,2)]
  have "fifo_inv i (length (sm_channels sm)) (fold (stream_call_step i (length (sm_channels sm))) calls
      \<lparr>sh_manager = sm', sh_accepted = [], sh_delivered = []\<rparr>)"
    using new
    by (intro fold_invariant [where P = "fifo_inv i (length (sm_channels sm))"] stream_call_step_inv)
      (simp_all add: fifo_inv_def only_data_def)
  then show ?thesis by (simp add: fifo_inv_def assms(3))
qed

lemma ids_fresh_create:
  assumes "create_stream url sm = (sm', i)" "ids_fresh sm" "sm_next_id sm \<noteq> - 1"
  shows "ids_fresh sm'"
proof -
  have less: "sm_next_id sm < sm_next_id sm + 1"
    using assms(3) by (rule less_plus_1)
  have "hm_get (sm_senders sm') j \<noteq> None \<or> hm_get (sm_receivers sm') j \<noteq> None \<longrightarrow>
      j = sm_next_id sm \<or> hm_get (sm_senders sm) j \<noteq> None \<or> hm_get (sm_receivers sm) j \<noteq> None" for j
    using assms(1) by (auto simp: create_stream_def stream_defs split: option.splits if_splits)
  moreover have "sm_next_id sm' = sm_next_id sm + 1"
    using assms(1) by (auto simp: create_stream_def stream_defs split: option.splits)
  ultimately show ?thesis
    using assms(2) less unfolding ids_fresh_def by (metis less_trans)
qed

text \<open>C36: Clearing a manager makes its ids available again, so a writer of the previous request reaches
  a stream of the next one.  After \<open>clear\<close> the first stream gets the id 1 again, and a write that the
  body pump of an earlier request addresses to its own id 1 lands in the new stream.\<close>

theorem cleared_id_is_reused:
  assumes "create_stream ''request_body'' (with_high_water_mark hwm) = (sm1, i)"
    and "create_stream url (sm_clear sm1) = (sm2, j)"
  shows "j = i \<and> snd (write_chunk i (Data b) sm2) = Some (Ok ()) \<and>
    buffered (length (sm_channels (sm_clear sm1))) (fst (write_chunk i (Data b) sm2)) = [Data b]"
proof -
  have fresh: "ids_fresh (with_high_water_mark hwm)" "ids_fresh (sm_clear sm1)"
    by (simp_all add: ids_fresh_def with_high_water_mark_def sm_clear_def)
  note new = create_stream_ok [OF assms(2) fresh(2)]
  have "i = 1" using create_stream_ok(1) [OF assms(1) fresh(1)] by (simp add: with_high_water_mark_def)
  moreover have "j = 1" using new(1) by (simp add: sm_clear_def)
  moreover have "snd (write_chunk j (Data b) sm2) = Some (Ok ())"
    using new(2,3) by (auto simp: write_chunk_def write_begin_def write_poll_def ch_try_send_def ch_capacity_def
        ch_clone_sender_def stream_ok_def buffered_def update_channel_def)
  ultimately show ?thesis using write_open [OF new(2), of b] new(3) by auto
qed

theorem cleared_id_is_reused_witness:
  "\<exists>sm1 sm2. create_stream ''request_body'' (with_high_water_mark 16) = (sm1, 1) \<and>
     create_stream ''request_body'' (sm_clear sm1) = (sm2, 1) \<and> snd (write_chunk 1 (Data [7]) sm2) = Some (Ok ())"
proof -
  obtain sm1 i where 1: "create_stream ''request_body'' (with_high_water_mark 16) = (sm1, i)" by fastforce
  obtain sm2 j where 2: "create_stream ''request_body'' (sm_clear sm1) = (sm2, j)" by fastforce
  have "i = 1" using 1 by (auto simp: create_stream_def with_high_water_mark_def Let_def)
  with cleared_id_is_reused [OF 1 2, of "[7]"] 1 2 show ?thesis by auto
qed

end
