(* ===== verification/Event_Loop.thy ===== *)
theory Event_Loop
  imports Object_Queue WebSocket Stream_Manager
begin

text \<open>
  The event loop of a context, from \<open>src/src/runtime/scheduler.rs\<close>: the messages the guest sends, the
  timers, the tasks they spawn and what each task sends back.  A spawned task is a value that names
  what it waits for (the cancellation of its request, its output gate, the answer of the host); the
  host's answers, the peers and the clock are the choices of a step relation.
\<close>

section \<open>Messages and results\<close>

datatype binding_result = BindingError string | BindingValue payload

datatype d1_error_kind = D1Type | D1Range | D1Sql | D1Interrupted | D1Overloaded | D1Unavailable

datatype d1_result = D1Error d1_error_kind string | D1Value payload

datatype response_body = BodyNone | BodyBytes bytes | BodyStream nat

record http_response =
  hr_status :: u16
  hr_headers :: payload
  hr_body :: response_body

record http_response_meta =
  hm_status :: u16
  hm_status_text :: string
  hm_headers :: payload

datatype operation_result =
    OrHttp "(string, http_response) result"
  | OrAck
  | OrStorage binding_result
  | OrKv binding_result
  | OrDatabase binding_result
  | OrD1 d1_result
  | OrWebSocket connect_answer
  | OrImages payload
  | OrInvoke binding_result
  | OrObjectStorage object_storage_result
  | OrUpgrade http_response nat

datatype callback_message =
    ExecuteTimeout callback_id
  | ExecuteInterval callback_id
  | FetchError callback_id string
  | FetchStreamingSuccess callback_id http_response_meta stream_id
  | BindingUpgrade callback_id http_response_meta ws_id
  | StreamChunkMsg callback_id stream_chunk
  | StorageResult callback_id binding_result
  | KvResult callback_id binding_result
  | DatabaseResult callback_id binding_result
  | D1ResultMsg callback_id d1_result
  | InvokeResult callback_id binding_result
  | ObjectStorageMsg callback_id object_storage_result
  | WebSocketConnected callback_id ws_id
  | WebSocketConnectError callback_id string
  | WebSocketEvent ws_id ws_incoming

datatype scheduler_message =
    ScheduleTimeout callback_id nat
  | ScheduleWritable callback_id stream_id
  | ScheduleInterval callback_id nat
  | ClearTimer callback_id
  | FetchStreaming callback_id payload
  | BindingFetch callback_id string payload
  | BindingStorage callback_id string payload
  | BindingKv callback_id string payload
  | BindingDatabase callback_id string payload
  | BindingD1 callback_id string payload
  | BindingWorker callback_id string payload
  | BindingInvoke callback_id payload
  | BindingDurableObject callback_id string string payload
  | ObjectStorage callback_id object_storage_op
  | ObjectSocket object_socket_op "usize option"
  | ObjectUpgrade ws_id nat
  | OutputBarrier nat
  | StreamRead callback_id stream_id
  | StreamCancel stream_id
  | WebSocketConnect callback_id ws_id string payload
  | WebSocketPair ws_id
  | WebSocketUpgrade "(ws_id \<times> nat) option"
  | WebSocketAccept ws_id
  | WebSocketSend ws_id ws_outgoing
  | WebSocketClose ws_id u16 string
  | BeginRequest "nat option"
  | Shutdown

section \<open>State\<close>

record timer =
  t_id :: callback_id
  t_is_interval :: bool
  t_interval_ms :: nat
  t_due :: instant

text \<open>A spawned task: what it does, the answer it owes, the token that cancels it and its gate.\<close>

datatype task_kind =
    KFetch payload
  | KBindingFetch string payload
  | KStorage string payload
  | KKv string payload
  | KDatabase string payload
  | KD1 string payload
  | KInvoke payload
  | KWorker string payload
  | KDurableObject string string payload
  | KStreamRead stream_id
  | KConnect ws_id string payload nat
  | KWritable callback_id stream_id "nat option"
  | KPair ws_id nat
  | KForward nat nat
  | KAbortLink nat
  | KStreamReader stream_id nat

record task =
  tk_kind :: task_kind
  tk_answer :: "callback_id option"
  tk_token :: "nat option"
  tk_gate :: "gate option"

text \<open>The command channel of a socket, seen from the loop.\<close>

record ws_channel =
  wc_cmds :: "ws_command list"
  wc_tx_open :: bool

text \<open>\<open>el_requested\<close>, \<open>el_enqueued\<close> and \<open>el_calls\<close> record the history: the answers asked for, the work
  given to the object's queue, and for each gated call what had been given to it when the call was made.\<close>

record 's event_loop =
  el_inbox :: "scheduler_message list"
  el_inbox_open :: bool
  el_running :: bool
  el_now :: instant
  el_timers :: "timer list"
  el_cancelled :: "callback_id set"
  el_shutdown :: bool
  el_root :: bool
  el_tokens :: "bool list"
  el_request :: nat
  el_ws_commands :: "(ws_id, nat) hash_map"
  el_channels :: "ws_channel list"
  el_queue :: bool
  el_pending :: "queued list"
  el_object :: "'s object_queue"
  el_relays :: "(ws_id, nat) hash_map"
  el_pairs :: "ws_id set option"
  el_tasks :: "task list"
  el_streams :: stream_manager
  el_callbacks :: "callback_message list"
  el_replies :: "nat list"
  el_next_socket :: ws_id
  el_requested :: "callback_id list"
  el_enqueued :: "queued list"
  el_calls :: "(gate \<times> queued list) list"

definition run_event_loop_start :: "'s \<Rightarrow> ws_id \<Rightarrow> 's event_loop" where
  "run_event_loop_start host next_socket =
     \<lparr>el_inbox = [], el_inbox_open = True, el_running = True, el_now = 0, el_timers = [], el_cancelled = {},
      el_shutdown = False, el_root = False, el_tokens = [False], el_request = 0, el_ws_commands = [],
      el_channels = [], el_queue = False, el_pending = [], el_object = object_queue_new host 0,
      el_relays = [], el_pairs = Some {}, el_tasks = [], el_streams = stream_manager_new, el_callbacks = [],
      el_replies = [], el_next_socket = next_socket, el_requested = [], el_enqueued = [], el_calls = []\<rparr>"

definition callback_send :: "callback_message \<Rightarrow> 's event_loop \<Rightarrow> 's event_loop" where
  "callback_send m e = e\<lparr>el_callbacks := el_callbacks e @ [m]\<rparr>"

definition spawn_task :: "task \<Rightarrow> 's event_loop \<Rightarrow> 's event_loop" where
  "spawn_task t e = e\<lparr>el_tasks := el_tasks e @ [t]\<rparr>"

text \<open>A task that owes the guest an answer, with the token of the current request.\<close>

definition spawn_answer :: "task_kind \<Rightarrow> callback_id \<Rightarrow> gate option \<Rightarrow> 's event_loop \<Rightarrow> 's event_loop" where
  "spawn_answer k i gate e =
     spawn_task \<lparr>tk_kind = k, tk_answer = Some i, tk_token = Some (el_request e), tk_gate = gate\<rparr>
       (e\<lparr>el_requested := el_requested e @ [i]\<rparr>)"

section \<open>The object's queue\<close>

definition queue_send :: "queued \<Rightarrow> 's event_loop \<Rightarrow> 's event_loop" where
  "queue_send work e = e\<lparr>el_pending := el_pending e @ [work], el_enqueued := el_enqueued e @ [work]\<rparr>"

definition enqueue :: "queued \<Rightarrow> 's event_loop \<Rightarrow> 's event_loop" where
  "enqueue work e = queue_send work (e\<lparr>el_queue := True\<rparr>)"

definition output_gate :: "'s event_loop \<Rightarrow> 's event_loop \<times> gate option" where
  "output_gate e =
     (if \<not> el_queue e then (e, None)
      else (let g = CallGate (length (el_calls e)) in
            ((queue_send (QBarrier g) e)\<lparr>el_calls := el_calls e @ [(g, el_enqueued e)]\<rparr>, Some g)))"

definition spawn_gated :: "task_kind \<Rightarrow> callback_id \<Rightarrow> 's event_loop \<Rightarrow> 's event_loop" where
  "spawn_gated k i e = (let (e, gate) = output_gate e in spawn_answer k i gate e)"

definition forward :: "nat \<Rightarrow> nat \<Rightarrow> 's event_loop \<Rightarrow> 's event_loop" where
  "forward upgrade socket e =
     spawn_task \<lparr>tk_kind = KForward upgrade socket, tk_answer = None, tk_token = None, tk_gate = None\<rparr> e"

section \<open>Messages\<close>

definition create_timer :: "callback_id \<Rightarrow> nat \<Rightarrow> bool \<Rightarrow> instant \<Rightarrow> timer" where
  "create_timer i delay_ms is_interval now =
     \<lparr>t_id = i, t_is_interval = is_interval, t_interval_ms = delay_ms, t_due = now + delay_ms\<rparr>"

definition schedule_timer :: "callback_id \<Rightarrow> nat \<Rightarrow> bool \<Rightarrow> 's event_loop \<Rightarrow> 's event_loop" where
  "schedule_timer i delay_ms is_interval e =
     e\<lparr>el_cancelled := el_cancelled e - {i},
       el_timers := el_timers e @ [create_timer i delay_ms is_interval (el_now e)]\<rparr>"

definition schedule_writable :: "callback_id \<Rightarrow> stream_id \<Rightarrow> 's event_loop \<Rightarrow> 's event_loop" where
  "schedule_writable i stream e =
     (let sender = sm_sender stream (el_streams e);
          e = (case sender of None \<Rightarrow> e | Some c \<Rightarrow> e\<lparr>el_streams := update_channel c ch_clone_sender (el_streams e)\<rparr>)
      in spawn_task \<lparr>tk_kind = KWritable i stream sender, tk_answer = None, tk_token = Some (el_request e), tk_gate = None\<rparr> e)"

definition ws_send :: "ws_id \<Rightarrow> ws_command \<Rightarrow> 's event_loop \<Rightarrow> 's event_loop" where
  "ws_send ws cmd e =
     (case hm_get (el_ws_commands e) ws of
        None \<Rightarrow> e
      | Some c \<Rightarrow> e\<lparr>el_channels := (el_channels e)[c := (el_channels e ! c)\<lparr>wc_cmds := wc_cmds (el_channels e ! c) @ [cmd]\<rparr>]\<rparr>)"

text \<open>Removing a sender of commands from the table drops it, which closes the channel.\<close>

definition drop_commands :: "ws_id \<Rightarrow> 's event_loop \<Rightarrow> 's event_loop" where
  "drop_commands ws e =
     (case hm_get (el_ws_commands e) ws of
        None \<Rightarrow> e
      | Some c \<Rightarrow> e\<lparr>el_ws_commands := hm_remove ws (el_ws_commands e),
                    el_channels := (el_channels e)[c := (el_channels e ! c)\<lparr>wc_tx_open := False\<rparr>]\<rparr>)"

definition insert_commands :: "ws_id \<Rightarrow> nat \<Rightarrow> 's event_loop \<Rightarrow> 's event_loop" where
  "insert_commands ws c e =
     (let e = drop_commands ws e in e\<lparr>el_ws_commands := hm_insert ws c (el_ws_commands e)\<rparr>)"

definition web_socket_connect :: "callback_id \<Rightarrow> ws_id \<Rightarrow> string \<Rightarrow> payload \<Rightarrow> 's event_loop \<Rightarrow> 's event_loop" where
  "web_socket_connect i ws url headers e =
     (let c = length (el_channels e);
          e = e\<lparr>el_channels := el_channels e @ [\<lparr>wc_cmds = [], wc_tx_open = True\<rparr>]\<rparr>
      in spawn_answer (KConnect ws url headers c) i None (insert_commands ws c e))"

definition web_socket_pair :: "ws_id \<Rightarrow> 's event_loop \<Rightarrow> 's event_loop" where
  "web_socket_pair ws e =
     (let c = length (el_channels e);
          kept = (el_pairs e \<noteq> None);
          e = e\<lparr>el_channels := el_channels e @ [\<lparr>wc_cmds = [], wc_tx_open = kept\<rparr>]\<rparr>;
          e = (case el_pairs e of None \<Rightarrow> e | Some ps \<Rightarrow> insert_commands ws c (e\<lparr>el_pairs := Some (insert ws ps)\<rparr>))
      in spawn_task \<lparr>tk_kind = KPair ws c, tk_answer = None, tk_token = Some (el_request e), tk_gate = None\<rparr> e)"

text \<open>The iteration over the unused pairs drops each one's commands; its order is never observed.\<close>

definition drop_all_commands :: "ws_id set \<Rightarrow> 's event_loop \<Rightarrow> 's event_loop" where
  "drop_all_commands unused e =
     fold (\<lambda>ws e. if ws \<in> unused then drop_commands ws e else e) (map fst (el_ws_commands e)) e"

definition web_socket_upgrade :: "(ws_id \<times> nat) option \<Rightarrow> 's event_loop \<Rightarrow> 's event_loop" where
  "web_socket_upgrade upgrade e =
     (let unused = (case el_pairs e of None \<Rightarrow> {} | Some ps \<Rightarrow> ps);
          relays = el_relays e;
          e = e\<lparr>el_pairs := None, el_relays := []\<rparr>
      in case upgrade of
           None \<Rightarrow> drop_all_commands unused e
         | Some (ws, u) \<Rightarrow>
             if ws \<in> unused \<and> hm_get (el_ws_commands e) ws \<noteq> None
             then drop_all_commands (unused - {ws}) (ws_send ws (Attach u) e)
             else (case hm_get relays ws of
                     Some socket \<Rightarrow> drop_all_commands (unused - {ws}) (forward u socket e)
                   | None \<Rightarrow> drop_all_commands (unused - {ws}) e))"

definition object_upgrade :: "ws_id \<Rightarrow> nat \<Rightarrow> 's event_loop \<Rightarrow> 's event_loop" where
  "object_upgrade ws upgrade e =
     (let relay = hm_get (el_relays e) ws;
          e = e\<lparr>el_relays := hm_remove ws (el_relays e)\<rparr>
      in case relay of
           Some socket \<Rightarrow> forward upgrade socket e
         | None \<Rightarrow> enqueue (QSocket (SocketAttach ws upgrade) None) e)"

definition output_barrier :: "nat \<Rightarrow> 's event_loop \<Rightarrow> 's event_loop" where
  "output_barrier open_tx e =
     (if el_queue e then queue_send (QBarrier (ReplyGate open_tx)) e
      else e\<lparr>el_replies := el_replies e @ [open_tx]\<rparr>)"

definition begin_request :: "nat option \<Rightarrow> 's event_loop \<Rightarrow> 's event_loop" where
  "begin_request abort e =
     (let e = e\<lparr>el_tokens := (el_tokens e)[el_request e := True] @ [el_root e], el_request := length (el_tokens e)\<rparr>;
          e = drop_all_commands (set (map fst (el_ws_commands e))) e;
          e = e\<lparr>el_pairs := Some {}\<rparr>
      in case abort of
           None \<Rightarrow> e
         | Some a \<Rightarrow> spawn_task \<lparr>tk_kind = KAbortLink a, tk_answer = None, tk_token = Some (el_request e), tk_gate = None\<rparr> e)"

definition handle_timers :: "scheduler_message \<Rightarrow> 's event_loop \<Rightarrow> 's event_loop" where
  "handle_timers m e =
     (case m of
        ScheduleTimeout i delay_ms \<Rightarrow> schedule_timer i delay_ms False e
      | ScheduleInterval i interval_ms \<Rightarrow> schedule_timer i interval_ms True e
      | ScheduleWritable i stream \<Rightarrow> schedule_writable i stream e
      | ClearTimer i \<Rightarrow> e\<lparr>el_cancelled := insert i (el_cancelled e)\<rparr>
      | _ \<Rightarrow> e)"

definition handle_calls :: "scheduler_message \<Rightarrow> 's event_loop \<Rightarrow> 's event_loop" where
  "handle_calls m e =
     (case m of
        FetchStreaming i req \<Rightarrow> spawn_gated (KFetch req) i e
      | BindingFetch i b req \<Rightarrow> spawn_gated (KBindingFetch b req) i e
      | BindingWorker i b req \<Rightarrow> spawn_gated (KWorker b req) i e
      | BindingDurableObject i b oid req \<Rightarrow> spawn_gated (KDurableObject b oid req) i e
      | _ \<Rightarrow> e)"

definition handle_bindings :: "scheduler_message \<Rightarrow> 's event_loop \<Rightarrow> 's event_loop" where
  "handle_bindings m e =
     (case m of
        BindingStorage i b op \<Rightarrow> spawn_answer (KStorage b op) i None e
      | BindingKv i b op \<Rightarrow> spawn_answer (KKv b op) i None e
      | BindingDatabase i b op \<Rightarrow> spawn_answer (KDatabase b op) i None e
      | BindingInvoke i call \<Rightarrow> spawn_answer (KInvoke call) i None e
      | BindingD1 i b op \<Rightarrow> spawn_answer (KD1 b op) i None e
      | _ \<Rightarrow> e)"

definition handle_object :: "scheduler_message \<Rightarrow> 's event_loop \<Rightarrow> 's event_loop" where
  "handle_object m e =
     (case m of
        ObjectStorage i op \<Rightarrow> enqueue (QStorage i op) (e\<lparr>el_requested := el_requested e @ [i]\<rparr>)
      | ObjectSocket op waiting \<Rightarrow> enqueue (QSocket op waiting) e
      | OutputBarrier open_tx \<Rightarrow> output_barrier open_tx e
      | ObjectUpgrade ws upgrade \<Rightarrow> object_upgrade ws upgrade e
      | _ \<Rightarrow> e)"

definition handle_sockets :: "scheduler_message \<Rightarrow> 's event_loop \<Rightarrow> 's event_loop" where
  "handle_sockets m e =
     (case m of
        WebSocketConnect i ws url headers \<Rightarrow> web_socket_connect i ws url headers e
      | WebSocketPair ws \<Rightarrow> web_socket_pair ws e
      | WebSocketUpgrade upgrade \<Rightarrow> web_socket_upgrade upgrade e
      | WebSocketAccept ws \<Rightarrow> ws_send ws Accept e
      | WebSocketSend ws msg \<Rightarrow> ws_send ws (Send msg) e
      | WebSocketClose ws code reason \<Rightarrow> drop_commands ws (ws_send ws (CloseCommand code reason) e)
      | _ \<Rightarrow> e)"

text \<open>One message of the loop.  Each group handles its own messages and leaves the others alone.\<close>

definition handle_message :: "scheduler_message \<Rightarrow> 's event_loop \<Rightarrow> 's event_loop" where
  "handle_message m e =
     (case m of
        StreamRead i stream \<Rightarrow> spawn_answer (KStreamRead stream) i None e
      | StreamCancel stream \<Rightarrow> e\<lparr>el_streams := close_stream stream (el_streams e)\<rparr>
      | BeginRequest abort \<Rightarrow> begin_request abort e
      | Shutdown \<Rightarrow> e\<lparr>el_shutdown := True\<rparr>
      | _ \<Rightarrow> handle_sockets m (handle_object m (handle_bindings m (handle_calls m (handle_timers m e)))))"

section \<open>The loop\<close>

definition exit_check :: "'s event_loop \<Rightarrow> 's event_loop" where
  "exit_check e = (if el_shutdown e \<and> el_timers e = [] then e\<lparr>el_running := False\<rparr> else e)"

text \<open>The message branch, which is taken whenever a message is there.\<close>

definition loop_message :: "'s event_loop \<Rightarrow> 's event_loop" where
  "loop_message e =
     (case el_inbox e of
        m # rest \<Rightarrow> exit_check (handle_message m (e\<lparr>el_inbox := rest\<rparr>))
      | [] \<Rightarrow> if el_inbox_open e then e else e\<lparr>el_running := False\<rparr>)"

text \<open>The timer branch for the timer at a position.  A cancelled timer continues with the next
  iteration at once, past the exit check.\<close>

definition loop_timer :: "nat \<Rightarrow> 's event_loop \<Rightarrow> 's event_loop" where
  "loop_timer n e =
     (let t = el_timers e ! n;
          e = e\<lparr>el_timers := remove_at n (el_timers e)\<rparr>
      in if t_id t \<in> el_cancelled e then e\<lparr>el_cancelled := el_cancelled e - {t_id t}\<rparr>
         else if t_is_interval t
         then exit_check (let e = callback_send (ExecuteInterval (t_id t)) e in
                e\<lparr>el_timers := el_timers e @ [create_timer (t_id t) (t_interval_ms t) True (el_now e)]\<rparr>)
         else exit_check (callback_send (ExecuteTimeout (t_id t)) e))"

section \<open>Spawned tasks\<close>

definition status_text :: "u16 \<Rightarrow> string" where
  "status_text status =
     (case map_of
        [(100, ''Continue''), (101, ''Switching Protocols''), (200, ''OK''), (201, ''Created''),
         (202, ''Accepted''), (204, ''No Content''), (206, ''Partial Content''), (301, ''Moved Permanently''),
         (302, ''Found''), (303, ''See Other''), (304, ''Not Modified''), (307, ''Temporary Redirect''),
         (308, ''Permanent Redirect''), (400, ''Bad Request''), (401, ''Unauthorized''), (403, ''Forbidden''),
         (404, ''Not Found''), (405, ''Method Not Allowed''), (408, ''Request Timeout''), (409, ''Conflict''),
         (410, ''Gone''), (413, ''Payload Too Large''), (415, ''Unsupported Media Type''),
         (422, ''Unprocessable Entity''), (429, ''Too Many Requests''), (500, ''Internal Server Error''),
         (501, ''Not Implemented''), (502, ''Bad Gateway''), (503, ''Service Unavailable''),
         (504, ''Gateway Timeout'')] status of
        Some text \<Rightarrow> text | None \<Rightarrow> [])"

definition spawn_stream_reader :: "nat \<Rightarrow> stream_id \<Rightarrow> nat option \<Rightarrow> 's event_loop \<Rightarrow> 's event_loop" where
  "spawn_stream_reader rx stream token e =
     spawn_task \<lparr>tk_kind = KStreamReader stream rx, tk_answer = None, tk_token = token, tk_gate = None\<rparr> e"

text \<open>The loop of the stream reader over what its select yields, with the write as an argument: it
  answers whether the write went through.  No more input means that it waits.\<close>

datatype reader_input = ReaderCancelled | ReaderChunk "(string, bytes) result" | ReaderEnd

fun stream_reader :: "(stream_chunk \<Rightarrow> 's \<Rightarrow> 's \<times> bool) \<Rightarrow> reader_input list \<Rightarrow> 's \<Rightarrow> 's" where
  "stream_reader write [] s = s"
| "stream_reader write (ReaderCancelled # inputs) s = fst (write Done s)"
| "stream_reader write (ReaderEnd # inputs) s = fst (write Done s)"
| "stream_reader write (ReaderChunk (Inr b) # inputs) s =
     (let (s, ok) = write (Data b) s in if ok then stream_reader write inputs s else fst (write Done s))"
| "stream_reader write (ReaderChunk (Inl err) # inputs) s = fst (write (Error err) s)"

text \<open>The body of a response becomes a stream: the writes of a body that is there, or a reader task.\<close>

definition response_stream ::
    "string \<Rightarrow> response_body \<Rightarrow> nat option \<Rightarrow> 's event_loop \<Rightarrow> 's event_loop \<times> stream_id" where
  "response_stream label body token e =
     (let (sm, stream) = create_stream label (el_streams e) in
      case body of
        BodyNone \<Rightarrow> (e\<lparr>el_streams := fst (write_chunk stream Done sm)\<rparr>, stream)
      | BodyBytes b \<Rightarrow>
          (e\<lparr>el_streams := fst (write_chunk stream Done (fst (write_chunk stream (Data b) sm)))\<rparr>, stream)
      | BodyStream rx \<Rightarrow> (spawn_stream_reader rx stream token (e\<lparr>el_streams := sm\<rparr>), stream))"

definition convert_fetch_result_to_stream ::
    "operation_result \<Rightarrow> nat option \<Rightarrow> 's event_loop \<Rightarrow>
       's event_loop \<times> (string, http_response_meta \<times> stream_id) result" where
  "convert_fetch_result_to_stream r token e =
     (case r of
        OrHttp (Inl err) \<Rightarrow> (e, Err err)
      | OrHttp (Inr response) \<Rightarrow>
          (let meta = \<lparr>hm_status = hr_status response, hm_status_text = status_text (hr_status response),
                       hm_headers = hr_headers response\<rparr>;
               (e, stream) = response_stream ''ops_fetch'' (hr_body response) token e
           in (e, Ok (meta, stream)))
      | OrAck \<Rightarrow> (e, Err ''Unexpected Ack result for fetch'')
      | OrStorage _ \<Rightarrow> (e, Err ''Unexpected Storage result for fetch'')
      | OrKv _ \<Rightarrow> (e, Err ''Unexpected Kv result for fetch'')
      | OrDatabase _ \<Rightarrow> (e, Err ''Unexpected Database result for fetch'')
      | OrD1 _ \<Rightarrow> (e, Err ''Unexpected D1 result for fetch'')
      | OrWebSocket _ \<Rightarrow> (e, Err ''Unexpected WebSocket result for fetch'')
      | OrImages _ \<Rightarrow> (e, Err ''Unexpected Images result for fetch'')
      | OrInvoke _ \<Rightarrow> (e, Err ''Unexpected Invoke result for fetch'')
      | OrObjectStorage _ \<Rightarrow> (e, Err ''Unexpected ObjectStorage result for fetch'')
      | OrUpgrade _ _ \<Rightarrow> (e, Err ''Unexpected Upgrade result for fetch''))"

definition answer_fetch :: "callback_id \<Rightarrow> operation_result \<Rightarrow> nat option \<Rightarrow> 's event_loop \<Rightarrow> 's event_loop" where
  "answer_fetch i r token e =
     (case convert_fetch_result_to_stream r token e of
        (e, Inr (meta, stream)) \<Rightarrow> callback_send (FetchStreamingSuccess i meta stream) e
      | (e, Inl err) \<Rightarrow> callback_send (FetchError i err) e)"

definition answer_binding_request ::
    "callback_id \<Rightarrow> operation_result \<Rightarrow> nat option \<Rightarrow> 's event_loop \<Rightarrow> 's event_loop" where
  "answer_binding_request i r token e =
     (case r of
        OrHttp (Inr response) \<Rightarrow>
          (let meta = \<lparr>hm_status = hr_status response, hm_status_text = [], hm_headers = hr_headers response\<rparr>;
               (e, stream) = response_stream ''binding_request'' (hr_body response) token e
           in callback_send (FetchStreamingSuccess i meta stream) e)
      | OrUpgrade response socket \<Rightarrow>
          (let ws = el_next_socket e;
               e = e\<lparr>el_next_socket := ws + 1, el_relays := hm_insert ws socket (el_relays e)\<rparr>;
               meta = \<lparr>hm_status = hr_status response, hm_status_text = [], hm_headers = hr_headers response\<rparr>
           in callback_send (BindingUpgrade i meta ws) e)
      | OrHttp (Inl err) \<Rightarrow> callback_send (FetchError i err) e
      | _ \<Rightarrow> callback_send (FetchError i ''Unexpected result type for a binding request'') e)"

definition UNEXPECTED :: string where
  "UNEXPECTED = ''Unexpected result type''"

text \<open>The answer of a binding operation whose result is used as it is.  The future of an invoke binding
  yields an invoke result or panics, which is every other outcome here.\<close>

definition binding_answer :: "task_kind \<Rightarrow> callback_id \<Rightarrow> operation_result \<Rightarrow> callback_message" where
  "binding_answer k i r =
     (case k of
        KStorage _ _ \<Rightarrow> StorageResult i (case r of OrStorage x \<Rightarrow> x | _ \<Rightarrow> BindingError UNEXPECTED)
      | KKv _ _ \<Rightarrow> KvResult i (case r of OrKv x \<Rightarrow> x | _ \<Rightarrow> BindingError UNEXPECTED)
      | KDatabase _ _ \<Rightarrow> DatabaseResult i (case r of OrDatabase x \<Rightarrow> x | _ \<Rightarrow> BindingError UNEXPECTED)
      | KD1 _ _ \<Rightarrow> D1ResultMsg i (case r of OrD1 x \<Rightarrow> x | _ \<Rightarrow> D1Error D1Unavailable UNEXPECTED)
      | KInvoke _ \<Rightarrow> InvokeResult i
          (case r of OrInvoke x \<Rightarrow> x | _ \<Rightarrow> BindingError ''invoke: the host function panicked'')
      | KConnect ws _ _ _ \<Rightarrow>
          (case r of OrWebSocket ConnectOk \<Rightarrow> WebSocketConnected i ws
           | OrWebSocket (ConnectErr err) \<Rightarrow> WebSocketConnectError i err
           | _ \<Rightarrow> WebSocketConnectError i ''Unexpected result type for WebSocket connect'')
      | _ \<Rightarrow> FetchError i UNEXPECTED)"

text \<open>The cancelled branch of a task that owes an answer.\<close>

definition cancelled_answer :: "task_kind \<Rightarrow> callback_id \<Rightarrow> callback_message" where
  "cancelled_answer k i =
     (case k of
        KStorage _ _ \<Rightarrow> StorageResult i (BindingError CANCELLED)
      | KKv _ _ \<Rightarrow> KvResult i (BindingError CANCELLED)
      | KDatabase _ _ \<Rightarrow> DatabaseResult i (BindingError CANCELLED)
      | KD1 _ _ \<Rightarrow> D1ResultMsg i (D1Error D1Interrupted CANCELLED)
      | KInvoke _ \<Rightarrow> InvokeResult i (BindingError CANCELLED)
      | KStreamRead _ \<Rightarrow> StreamChunkMsg i (Error CANCELLED)
      | KConnect _ _ _ _ \<Rightarrow> WebSocketConnectError i CANCELLED
      | _ \<Rightarrow> FetchError i CANCELLED)"

definition answer_result :: "task \<Rightarrow> callback_id \<Rightarrow> operation_result \<Rightarrow> 's event_loop \<Rightarrow> 's event_loop" where
  "answer_result t i r e =
     (case tk_kind t of
        KFetch _ \<Rightarrow> answer_fetch i r (tk_token t) e
      | KBindingFetch _ _ \<Rightarrow> answer_fetch i r (tk_token t) e
      | KWorker _ _ \<Rightarrow> answer_binding_request i r (tk_token t) e
      | KDurableObject _ _ _ \<Rightarrow> answer_binding_request i r (tk_token t) e
      | k \<Rightarrow> callback_send (binding_answer k i r) e)"

definition task_cancelled :: "'s event_loop \<Rightarrow> task \<Rightarrow> bool" where
  "task_cancelled e t = (case tk_token t of None \<Rightarrow> False | Some k \<Rightarrow> el_tokens e ! k)"

definition task_gate_state :: "'s event_loop \<Rightarrow> task \<Rightarrow> gate_state option option" where
  "task_gate_state e t =
     (case tk_gate t of
        None \<Rightarrow> Some None
      | Some g \<Rightarrow> if g \<in> set (oq_opened (el_object e)) then Some (Some GateOpen)
                 else if g \<in> set (oq_closed (el_object e)) then Some (Some GateClosed)
                 else None)"

text \<open>A task may use its result when its request is not cancelled and \<open>after\<close> lets the work run.\<close>

definition task_ready :: "'s event_loop \<Rightarrow> task \<Rightarrow> bool" where
  "task_ready e t \<longleftrightarrow>
     \<not> task_cancelled e t \<and> (case task_gate_state e t of None \<Rightarrow> False | Some gate \<Rightarrow> after gate () = Some ())"

definition task_refused :: "'s event_loop \<Rightarrow> task \<Rightarrow> bool" where
  "task_refused e t \<longleftrightarrow>
     \<not> task_cancelled e t \<and> (case task_gate_state e t of None \<Rightarrow> False | Some gate \<Rightarrow> after gate () = None)"

text \<open>\<open>StreamRead\<close>: the read of the stream manager, None while it waits.\<close>

definition answer_read :: "callback_id \<Rightarrow> (stream_error, stream_chunk) result \<Rightarrow> (stream_error \<Rightarrow> string) \<Rightarrow> callback_message" where
  "answer_read i r text = StreamChunkMsg i (case r of Inr chunk \<Rightarrow> chunk | Inl err \<Rightarrow> Error (text err))"

definition end_task :: "nat \<Rightarrow> 's event_loop \<Rightarrow> 's event_loop" where
  "end_task n e = e\<lparr>el_tasks := remove_at n (el_tasks e)\<rparr>"

text \<open>The end of a wait for room in a response stream; the reserved permits and the sender drop.\<close>

definition end_writable :: "nat \<Rightarrow> 's event_loop \<Rightarrow> 's event_loop" where
  "end_writable n e =
     (case tk_kind (el_tasks e ! n) of
        KWritable i stream sender \<Rightarrow>
          (let e' = (case sender of
                 None \<Rightarrow> e
               | Some c \<Rightarrow>
                   (let e = (if task_cancelled e (el_tasks e ! n)
                             then e\<lparr>el_streams := close_stream stream (el_streams e)\<rparr> else e)
                    in e\<lparr>el_streams := update_channel c ch_drop_sender (el_streams e)\<rparr>))
           in callback_send (ExecuteTimeout i) (end_task n e'))
      | _ \<Rightarrow> e)"

definition writable_ready :: "'s event_loop \<Rightarrow> task \<Rightarrow> bool" where
  "writable_ready e t =
     (case tk_kind t of
        KWritable i stream sender \<Rightarrow>
          (case sender of
             None \<Rightarrow> True
           | Some c \<Rightarrow> task_cancelled e t \<or> 2 \<le> ch_capacity (sm_channels (el_streams e) ! c) \<or>
               \<not> ch_rx_open (sm_channels (el_streams e) ! c))
      | _ \<Rightarrow> False)"

section \<open>Steps\<close>

definition is_host_call :: "task_kind \<Rightarrow> bool" where
  "is_host_call k =
     (case k of KStreamRead _ \<Rightarrow> False | KWritable _ _ _ \<Rightarrow> False | KPair _ _ \<Rightarrow> False | KForward _ _ \<Rightarrow> False
      | KAbortLink _ \<Rightarrow> False | KStreamReader _ _ \<Rightarrow> False | _ \<Rightarrow> True)"

text \<open>The object's queue performs its next item.\<close>

definition queue_run :: "'s object_host \<Rightarrow> 's event_loop \<Rightarrow> 's event_loop" where
  "queue_run h e =
     (case el_pending e of
        [] \<Rightarrow> e
      | work # rest \<Rightarrow>
          (let q = object_queue_step h work (el_object e) in
           e\<lparr>el_pending := rest, el_object := q,
             el_callbacks := el_callbacks e @
               map (\<lambda>(i, r). ObjectStorageMsg i r) (drop (length (oq_answers (el_object e))) (oq_answers q))\<rparr>))"

text \<open>The guest sends a message; \<open>Waiting::new\<close> counts the bytes of a socket operation when it is made.\<close>

definition guest_send :: "scheduler_message \<Rightarrow> 's event_loop \<Rightarrow> 's event_loop" where
  "guest_send m e =
     e\<lparr>el_inbox := el_inbox e @ [m],
       el_object := (case m of
          ObjectSocket op waiting \<Rightarrow> (el_object e)\<lparr>oq_waiting := oq_waiting (el_object e) + waiting_bytes waiting\<rparr>
        | _ \<Rightarrow> el_object e)\<rparr>"

text \<open>The steps: the guest sends a message; the loop takes a message, or a due timer if no message
  is there; a task ends; the object's queue performs an item; a token is cancelled; time passes.
  A socket's task, modelled on its own, sends events of the socket.\<close>

inductive el_step :: "'s object_host \<Rightarrow> 's event_loop \<Rightarrow> 's event_loop \<Rightarrow> bool" for h where
  send: "el_inbox_open e \<Longrightarrow> el_step h e (guest_send m e)"
| senders_gone: "el_step h e (e\<lparr>el_inbox_open := False\<rparr>)"
| message: "el_running e \<Longrightarrow> el_step h e (loop_message e)"
| timer: "el_running e \<Longrightarrow> el_inbox e = [] \<Longrightarrow> n < length (el_timers e) \<Longrightarrow> t_due (el_timers e ! n) \<le> el_now e
    \<Longrightarrow> el_step h e (loop_timer n e)"
| tick: "el_step h e (e\<lparr>el_now := el_now e + d\<rparr>)"
| queue: "el_step h e (queue_run h e)"
| cancelled: "n < length (el_tasks e) \<Longrightarrow> tk_answer (el_tasks e ! n) = Some i \<Longrightarrow> task_cancelled e (el_tasks e ! n)
    \<Longrightarrow> el_step h e (callback_send (cancelled_answer (tk_kind (el_tasks e ! n)) i) (end_task n e))"
| refused: "n < length (el_tasks e) \<Longrightarrow> tk_answer (el_tasks e ! n) = Some i \<Longrightarrow> task_refused e (el_tasks e ! n)
    \<Longrightarrow> el_step h e (callback_send (FetchError i STORAGE_FAILED) (end_task n e))"
| answered: "n < length (el_tasks e) \<Longrightarrow> tk_answer (el_tasks e ! n) = Some i \<Longrightarrow> is_host_call (tk_kind (el_tasks e ! n))
    \<Longrightarrow> task_ready e (el_tasks e ! n) \<Longrightarrow> el_step h e (answer_result (el_tasks e ! n) i r (end_task n e))"
| read: "n < length (el_tasks e) \<Longrightarrow> tk_answer (el_tasks e ! n) = Some i \<Longrightarrow> tk_kind (el_tasks e ! n) = KStreamRead stream
    \<Longrightarrow> task_ready e (el_tasks e ! n) \<Longrightarrow> read_chunk stream (el_streams e) = (sm, Some r)
    \<Longrightarrow> el_step h e (callback_send (answer_read i r text) ((end_task n e)\<lparr>el_streams := sm\<rparr>))"
| writable: "n < length (el_tasks e) \<Longrightarrow> tk_answer (el_tasks e ! n) = None \<Longrightarrow> writable_ready e (el_tasks e ! n) \<Longrightarrow> el_step h e (end_writable n e)"
| other_task: "n < length (el_tasks e) \<Longrightarrow> tk_answer (el_tasks e ! n) = None \<Longrightarrow> el_step h e (end_task n e)"
| socket_event: "el_step h e (callback_send (WebSocketEvent ws m) e)"
| abort: "k < length (el_tokens e) \<Longrightarrow> el_step h e (e\<lparr>el_tokens := (el_tokens e)[k := True]\<rparr>)"
| context_gone: "el_step h e (e\<lparr>el_root := True, el_tokens := map (\<lambda>_. True) (el_tokens e)\<rparr>)"
| streams: "el_step h e (e\<lparr>el_streams := sm\<rparr>)"

abbreviation el_reachable :: "'s object_host \<Rightarrow> 's event_loop \<Rightarrow> 's event_loop \<Rightarrow> bool" where
  "el_reachable h \<equiv> (el_step h)\<^sup>*\<^sup>*"

end
