(* ===== verification/Event_Ledger.thy ===== *)
theory Event_Ledger
  imports Event_Loop "HOL-Library.Multiset"
begin

text \<open>
  The contract of the event loop as an abstract machine, the ledger: what was asked, what is owed and
  by which task, what the object's queue was given, and which request is current.  Every step of the
  event loop is simulated by steps of the ledger, so the ledger's invariants hold of the loop.
\<close>

section \<open>The ledger\<close>

record 's ledger =
  lg_requested :: "callback_id list"
  lg_answered :: "callback_id list"
  lg_tasks :: "task list"
  lg_pending :: "queued list"
  lg_enqueued :: "queued list"
  lg_calls :: "(gate \<times> queued list) list"
  lg_tokens :: "bool list"
  lg_request :: nat
  lg_root :: bool
  lg_object :: "'s object_queue"
  lg_queue :: bool

definition answer_of :: "callback_message \<Rightarrow> callback_id option" where
  "answer_of m =
     (case m of ExecuteTimeout _ \<Rightarrow> None | ExecuteInterval _ \<Rightarrow> None | WebSocketEvent _ _ \<Rightarrow> None
      | FetchError i _ \<Rightarrow> Some i | FetchStreamingSuccess i _ _ \<Rightarrow> Some i | BindingUpgrade i _ _ \<Rightarrow> Some i
      | StreamChunkMsg i _ \<Rightarrow> Some i | StorageResult i _ \<Rightarrow> Some i | KvResult i _ \<Rightarrow> Some i
      | DatabaseResult i _ \<Rightarrow> Some i | D1ResultMsg i _ \<Rightarrow> Some i | InvokeResult i _ \<Rightarrow> Some i
      | ObjectStorageMsg i _ \<Rightarrow> Some i | WebSocketConnected i _ \<Rightarrow> Some i | WebSocketConnectError i _ \<Rightarrow> Some i)"

definition answered_ids :: "callback_message list \<Rightarrow> callback_id list" where
  "answered_ids ms = List.map_filter answer_of ms"

definition task_ids :: "task list \<Rightarrow> callback_id list" where
  "task_ids ts = List.map_filter tk_answer ts"

abbreviation uncounted :: "'s object_queue \<Rightarrow> 's object_queue" where
  "uncounted q \<equiv> q\<lparr>oq_waiting := 0\<rparr>"

definition ledger_of :: "'s event_loop \<Rightarrow> 's ledger" where
  "ledger_of e =
     \<lparr>lg_requested = el_requested e, lg_answered = answered_ids (el_callbacks e), lg_tasks = el_tasks e,
      lg_pending = el_pending e, lg_enqueued = el_enqueued e, lg_calls = el_calls e, lg_tokens = el_tokens e,
      lg_request = el_request e, lg_root = el_root e, lg_object = uncounted (el_object e), lg_queue = el_queue e\<rparr>"

definition lg_give :: "queued \<Rightarrow> 's ledger \<Rightarrow> 's ledger" where
  "lg_give work l = l\<lparr>lg_pending := lg_pending l @ [work], lg_enqueued := lg_enqueued l @ [work]\<rparr>"

definition lg_ask :: "callback_id \<Rightarrow> task_kind \<Rightarrow> gate option \<Rightarrow> 's ledger \<Rightarrow> 's ledger" where
  "lg_ask i k gate l =
     l\<lparr>lg_requested := lg_requested l @ [i],
       lg_tasks := lg_tasks l @ [\<lparr>tk_kind = k, tk_answer = Some i, tk_token = Some (lg_request l), tk_gate = gate\<rparr>]\<rparr>"

inductive lg_step :: "'s object_host \<Rightarrow> 's ledger \<Rightarrow> 's ledger \<Rightarrow> bool" for h where
  ask: "lg_step h l (lg_ask i k None l)"
| call: "lg_queue l \<Longrightarrow> g = CallGate (length (lg_calls l)) \<Longrightarrow>
    lg_step h l (lg_ask i k (Some g) ((lg_give (QBarrier g) l)\<lparr>lg_calls := lg_calls l @ [(g, lg_enqueued l)]\<rparr>))"
| store: "lg_step h l ((lg_give (QStorage i op) l)\<lparr>lg_requested := lg_requested l @ [i], lg_queue := True\<rparr>)"
| socket: "lg_step h l ((lg_give (QSocket op w) l)\<lparr>lg_queue := True\<rparr>)"
| reply: "lg_queue l \<Longrightarrow> lg_step h l (lg_give (QBarrier (ReplyGate n)) l)"
| spawn: "tk_answer t = None \<Longrightarrow> tk_gate t = None \<Longrightarrow> (\<forall>k. tk_token t = Some k \<longrightarrow> k < length (lg_tokens l)) \<Longrightarrow>
    lg_step h l (l\<lparr>lg_tasks := lg_tasks l @ [t]\<rparr>)"
| answer: "n < length (lg_tasks l) \<Longrightarrow> tk_answer (lg_tasks l ! n) = Some i \<Longrightarrow>
    lg_step h l (l\<lparr>lg_tasks := remove_at n (lg_tasks l), lg_answered := lg_answered l @ [i]\<rparr>)"
| finish: "n < length (lg_tasks l) \<Longrightarrow> tk_answer (lg_tasks l ! n) = None \<Longrightarrow>
    lg_step h l (l\<lparr>lg_tasks := remove_at n (lg_tasks l)\<rparr>)"
| run: "lg_pending l = work # rest \<Longrightarrow>
    lg_step h l (l\<lparr>lg_pending := rest, lg_object := uncounted (object_queue_step h work (lg_object l)),
      lg_answered := lg_answered l @ storage_ids [work]\<rparr>)"
| begin_scope: "lg_step h l (l\<lparr>lg_tokens := (lg_tokens l)[lg_request l := True] @ [lg_root l], lg_request := length (lg_tokens l)\<rparr>)"
| cancel: "lg_step h l (l\<lparr>lg_tokens := (lg_tokens l)[k := True]\<rparr>)"
| gone: "lg_step h l (l\<lparr>lg_root := True, lg_tokens := map (\<lambda>_. True) (lg_tokens l)\<rparr>)"

abbreviation lg_steps :: "'s object_host \<Rightarrow> 's ledger \<Rightarrow> 's ledger \<Rightarrow> bool" where
  "lg_steps h \<equiv> (lg_step h)\<^sup>*\<^sup>*"

section \<open>Invariants of the ledger\<close>

text \<open>What was asked is answered, owed by a task, or waits in the object's queue.\<close>

definition balanced :: "'s ledger \<Rightarrow> bool" where
  "balanced l \<longleftrightarrow> mset (lg_requested l) = mset (lg_answered l) + mset (task_ids (lg_tasks l)) + mset (storage_ids (lg_pending l))"

text \<open>Only the current request's token may be live, and every task's token exists.\<close>

definition scoped :: "'s ledger \<Rightarrow> bool" where
  "scoped l \<longleftrightarrow> lg_request l < length (lg_tokens l) \<and>
     (\<forall>k < length (lg_tokens l). k \<noteq> lg_request l \<longrightarrow> lg_tokens l ! k) \<and>
     (\<forall>t \<in> set (lg_tasks l). \<forall>k. tk_token t = Some k \<longrightarrow> k < length (lg_tokens l))"

lemma task_ids_simps [simp]:
  "task_ids [] = []" "task_ids (ts @ us) = task_ids ts @ task_ids us"
  "task_ids (t # ts) = (case tk_answer t of None \<Rightarrow> task_ids ts | Some i \<Rightarrow> i # task_ids ts)"
  by (simp_all add: task_ids_def map_filter_def split: option.split)

lemma answered_ids_simps [simp]:
  "answered_ids [] = []" "answered_ids (ms @ ns) = answered_ids ms @ answered_ids ns"
  "answered_ids (m # ms) = (case answer_of m of None \<Rightarrow> answered_ids ms | Some i \<Rightarrow> i # answered_ids ms)"
  by (simp_all add: answered_ids_def map_filter_def split: option.split)

lemma storage_ids_append [simp]: "storage_ids (ws @ vs) = storage_ids ws @ storage_ids vs"
  by (simp add: storage_ids_def map_filter_def)

lemma barriers_append [simp]: "barriers (ws @ vs) = barriers ws @ barriers vs"
  by (simp add: barriers_def map_filter_def)

lemma task_ids_remove_at:
  assumes "n < length ts"
  shows "mset (task_ids ts) =
    mset (task_ids (remove_at n ts)) + (case tk_answer (ts ! n) of None \<Rightarrow> {#} | Some i \<Rightarrow> {#i#})"
proof -
  have "ts = take n ts @ ts ! n # drop (Suc n) ts" using assms by (simp add: id_take_nth_drop)
  then have "task_ids ts = task_ids (take n ts) @ task_ids (ts ! n # drop (Suc n) ts)"
    using task_ids_simps(2) by metis
  then show ?thesis by (simp add: remove_at_def split: option.split)
qed

lemma set_remove_at: "set (remove_at n ts) \<subseteq> set ts"
  unfolding remove_at_def using set_take_subset set_drop_subset by fastforce

lemma balanced_step:
  assumes "lg_step h l l'" "balanced l"
  shows "balanced l'"
  using assms
proof (induction rule: lg_step.induct)
  case (answer n l i)
  then show ?case using task_ids_remove_at [of n "lg_tasks l"] by (simp add: balanced_def)
next
  case (finish n l)
  then show ?case using task_ids_remove_at [of n "lg_tasks l"] by (simp add: balanced_def)
next
  case (run l work rest)
  then show ?case by (cases work) (simp_all add: balanced_def)
qed (simp_all add: balanced_def lg_ask_def lg_give_def)

lemma scoped_step:
  assumes "lg_step h l l'" "scoped l"
  shows "scoped l'"
  using assms
proof (induction rule: lg_step.induct)
  case (answer n l i)
  then show ?case using set_remove_at [of n "lg_tasks l"] by (auto simp: scoped_def)
next
  case (finish n l)
  then show ?case using set_remove_at [of n "lg_tasks l"] by (auto simp: scoped_def)
next
  case (begin_scope l)
  then show ?case by (auto simp: scoped_def nth_append nth_list_update less_Suc_eq)
next
  case (cancel l k)
  then show ?case by (cases "k < length (lg_tokens l)") (auto simp: scoped_def nth_list_update)
qed (auto simp: scoped_def lg_ask_def lg_give_def)

text \<open>The object is where the work done so far leads, and every gated call has its barrier right behind
  what had been given to the queue when the call was made.\<close>

definition work_done :: "'s object_host \<Rightarrow> 's \<Rightarrow> queued list \<Rightarrow> queued list \<Rightarrow> 's object_queue \<Rightarrow> bool" where
  "work_done h host enqueued pending q \<longleftrightarrow>
     (\<exists>ws. enqueued = ws @ pending \<and> q = uncounted (run_object_queue h ws (object_queue_new host 0)))"

definition barrier_after :: "queued list \<Rightarrow> gate \<Rightarrow> queued list \<Rightarrow> bool" where
  "barrier_after enqueued g made \<longleftrightarrow>
     QBarrier g \<notin> set made \<and> (\<exists>post. enqueued = made @ QBarrier g # post \<and> QBarrier g \<notin> set post)"

definition gates_bounded :: "queued list \<Rightarrow> nat \<Rightarrow> bool" where
  "gates_bounded enqueued n \<longleftrightarrow> (\<forall>k. QBarrier (CallGate k) \<in> set enqueued \<longrightarrow> k < n)"

definition gates_known :: "task list \<Rightarrow> (gate \<times> queued list) list \<Rightarrow> bool" where
  "gates_known ts calls \<longleftrightarrow> (\<forall>t \<in> set ts. \<forall>g. tk_gate t = Some g \<longrightarrow> g \<in> fst ` set calls)"

definition gated :: "'s object_host \<Rightarrow> 's \<Rightarrow> 's ledger \<Rightarrow> bool" where
  "gated h host l \<longleftrightarrow>
     work_done h host (lg_enqueued l) (lg_pending l) (lg_object l) \<and>
     map fst (lg_calls l) = map CallGate [0..<length (lg_calls l)] \<and>
     gates_bounded (lg_enqueued l) (length (lg_calls l)) \<and>
     (\<forall>(g, made) \<in> set (lg_calls l). barrier_after (lg_enqueued l) g made) \<and>
     gates_known (lg_tasks l) (lg_calls l)"

lemma work_done_give: "work_done h host enq pend q \<Longrightarrow> work_done h host (enq @ [w]) (pend @ [w]) q"
  by (auto simp: work_done_def)

lemma barrier_after_give: "barrier_after enq g made \<Longrightarrow> w \<noteq> QBarrier g \<Longrightarrow> barrier_after (enq @ [w]) g made"
  by (auto simp: barrier_after_def)

lemma barrier_after_new: "QBarrier g \<notin> set enq \<Longrightarrow> barrier_after (enq @ [QBarrier g]) g enq"
  by (auto simp: barrier_after_def)

lemma uncounted_step: "uncounted (object_queue_step h w (uncounted q)) = uncounted (object_queue_step h w q)"
  by (cases w) (simp_all add: object_queue_step_def Let_def split: prod.split)

lemma call_gates_calls:
  assumes "gated h host l" "(g, made) \<in> set (lg_calls l)"
  shows "\<exists>n < length (lg_calls l). g = CallGate n"
proof -
  have "g \<in> set (map fst (lg_calls l))" using assms(2) by force
  also have "map fst (lg_calls l) = map CallGate [0..<length (lg_calls l)]" using assms(1) by (simp add: gated_def)
  finally show ?thesis by auto
qed

text \<open>Work that is no barrier of a call keeps the invariant.\<close>

lemma gated_give:
  assumes "gated h host l" "\<And>n. work \<noteq> QBarrier (CallGate n)" "lg_pending l' = lg_pending l @ [work]"
    "lg_enqueued l' = lg_enqueued l @ [work]" "lg_object l' = lg_object l" "lg_calls l' = lg_calls l" "lg_tasks l' = lg_tasks l"
  shows "gated h host l'"
proof -
  have "barrier_after (lg_enqueued l @ [work]) g made" if "(g, made) \<in> set (lg_calls l)" for g made
    using call_gates_calls [OF assms(1) that] assms(1,2) that by (auto simp: gated_def intro!: barrier_after_give)
  moreover have "gates_bounded (lg_enqueued l @ [work]) (length (lg_calls l))"
    using assms(1) assms(2) [THEN not_sym] unfolding gated_def gates_bounded_def by auto
  ultimately show ?thesis
    using assms(1,3-) work_done_give [of h host "lg_enqueued l" "lg_pending l" "lg_object l" work]
    by (auto simp: gated_def)
qed

lemma gated_call:
  assumes "gated h host l" "g = CallGate (length (lg_calls l))"
  shows "gated h host (lg_ask i k (Some g) ((lg_give (QBarrier g) l)\<lparr>lg_calls := lg_calls l @ [(g, lg_enqueued l)]\<rparr>))"
proof -
  have new: "QBarrier g \<notin> set (lg_enqueued l)" using assms unfolding gated_def gates_bounded_def by blast
  have "barrier_after (lg_enqueued l @ [QBarrier g]) g' made" if "(g', made) \<in> set (lg_calls l)" for g' made
    using call_gates_calls [OF assms(1) that] assms that by (auto simp: gated_def intro!: barrier_after_give)
  moreover have "gates_bounded (lg_enqueued l @ [QBarrier g]) (Suc (length (lg_calls l)))"
    using assms unfolding gated_def gates_bounded_def by (auto simp: less_Suc_eq)
  moreover have "gates_known (lg_tasks l @ [\<lparr>tk_kind = k, tk_answer = Some i, tk_token = Some (lg_request l), tk_gate = Some g\<rparr>])
      (lg_calls l @ [(g, lg_enqueued l)])"
    using assms(1) unfolding gated_def gates_known_def by auto
  ultimately show ?thesis
    using assms new work_done_give [of h host "lg_enqueued l" "lg_pending l" "lg_object l" "QBarrier g"]
    by (auto simp: gated_def lg_ask_def lg_give_def intro: barrier_after_new)
qed

lemma gated_same:
  assumes "gated h host l" "lg_pending l' = lg_pending l" "lg_enqueued l' = lg_enqueued l" "lg_object l' = lg_object l"
    "lg_calls l' = lg_calls l" "\<forall>t \<in> set (lg_tasks l'). t \<in> set (lg_tasks l) \<or> tk_gate t = None"
  shows "gated h host l'"
proof -
  have "gates_known (lg_tasks l') (lg_calls l)" using assms(1,6) unfolding gated_def gates_known_def by force
  with assms(1-5) show ?thesis by (simp add: gated_def)
qed

lemma gated_run:
  assumes "gated h host l" "lg_pending l = work # rest"
  shows "gated h host (l\<lparr>lg_pending := rest, lg_object := uncounted (object_queue_step h work (lg_object l)),
      lg_answered := lg_answered l @ storage_ids [work]\<rparr>)"
proof -
  obtain ws where ws: "lg_enqueued l = ws @ work # rest"
    "lg_object l = uncounted (run_object_queue h ws (object_queue_new host 0))"
    using assms unfolding gated_def work_done_def by metis
  then have "lg_enqueued l = (ws @ [work]) @ rest \<and> uncounted (object_queue_step h work (lg_object l)) =
      uncounted (run_object_queue h (ws @ [work]) (object_queue_new host 0))"
    by (simp add: run_object_queue_append run_object_queue_Cons uncounted_step)
  then have "work_done h host (lg_enqueued l) rest (uncounted (object_queue_step h work (lg_object l)))"
    unfolding work_done_def by blast
  with assms show ?thesis by (simp add: gated_def)
qed

lemma gated_step:
  assumes "lg_step h l l'" "gated h host l"
  shows "gated h host l'"
  using assms
proof (induction rule: lg_step.induct)
  case (call l g i k)
  then show ?case by (simp add: gated_call)
next
  case (store l i op)
  show ?case by (rule gated_give [OF store, where work = "QStorage i op"]) (simp_all add: lg_give_def)
next
  case (socket l op w)
  show ?case by (rule gated_give [OF socket, where work = "QSocket op w"]) (simp_all add: lg_give_def)
next
  case (reply l n)
  show ?case by (rule gated_give [OF reply(2), where work = "QBarrier (ReplyGate n)"]) (simp_all add: lg_give_def)
next
  case (run l work rest)
  then show ?case by (simp add: gated_run)
next
  case (answer n l i)
  show ?case by (rule gated_same [OF answer(3)]) (use set_remove_at [of n "lg_tasks l"] in auto)
next
  case (finish n l)
  show ?case by (rule gated_same [OF finish(3)]) (use set_remove_at [of n "lg_tasks l"] in auto)
next
  case (ask l i k)
  show ?case by (rule gated_same [OF ask]) (auto simp: lg_ask_def)
next
  case (spawn t l)
  show ?case by (rule gated_same [OF spawn(4)]) (use spawn in auto)
next
  case (begin_scope l)
  show ?case by (rule gated_same [OF begin_scope]) auto
next
  case (cancel l k)
  show ?case by (rule gated_same [OF cancel]) auto
next
  case (gone l)
  show ?case by (rule gated_same [OF gone]) auto
qed

text \<open>An open gate: the work before its barrier went through.\<close>

lemma opened_after_work:
  assumes "g \<in> set (oq_opened (run_object_queue h ws (object_queue_new host waiting)))"
  shows "\<exists>pre post. ws = pre @ QBarrier g # post \<and> \<not> oq_failed (run_object_queue h pre (object_queue_new host waiting))"
  using assms
proof (induction ws rule: rev_induct)
  case Nil
  then show ?case by (simp add: object_queue_new_def)
next
  case (snoc w ws)
  let ?q = "run_object_queue h ws (object_queue_new host waiting)"
  have "g \<in> set (oq_opened ?q) \<or> (w = QBarrier g \<and> \<not> oq_failed ?q)"
    using snoc.prems
    by (cases w)
      (auto simp: run_object_queue_append run_object_queue_Cons object_queue_step_def Let_def
        split: prod.splits if_splits)
  with snoc.IH show ?case by (metis append.assoc append_Cons append_self_conv)
qed

lemma open_gate:
  assumes "gated h host l" "(g, made) \<in> set (lg_calls l)" "g \<in> set (oq_opened (lg_object l))"
  shows "\<not> oq_failed (run_object_queue h made (object_queue_new host 0)) \<and>
    prefix (operations made) (oq_handled (lg_object l))"
proof -
  obtain ws where ws: "lg_enqueued l = ws @ lg_pending l"
    and obj: "lg_object l = uncounted (run_object_queue h ws (object_queue_new host 0))"
    using assms(1) unfolding gated_def work_done_def by metis
  then obtain pre post where pre: "ws = pre @ QBarrier g # post"
    and ok: "\<not> oq_failed (run_object_queue h pre (object_queue_new host 0))"
    using opened_after_work assms(3) by fastforce
  obtain tail where made: "lg_enqueued l = made @ QBarrier g # tail" "QBarrier g \<notin> set made" "QBarrier g \<notin> set tail"
    using assms(1,2) unfolding gated_def barrier_after_def by blast
  have "made @ QBarrier g # tail = pre @ QBarrier g # (post @ lg_pending l)" using made(1) ws pre by simp
  then have "made = pre" using made(2,3) by (simp add: append_Cons_eq_iff)
  moreover have "prefix (oq_handled (run_object_queue h pre (object_queue_new host 0))) (oq_handled (lg_object l))"
    unfolding obj pre using handled_prefix by simp
  moreover have "oq_handled (run_object_queue h pre (object_queue_new host 0)) = operations pre"
    using run_not_failed [OF ok] by (simp add: object_queue_new_def)
  ultimately show ?thesis using ok by simp
qed

end
