(* ===== verification/Event_Loop_Properties.thy ===== *)
theory Event_Loop_Properties
  imports Event_Ledger
begin

text \<open>
  The event loop refines its ledger, and what follows: every operation is answered exactly once, no
  operation of an earlier request completes in a later one, an outbound call of a Durable Object runs
  only after the writes made before it, and a cleared timer does not fire.
\<close>

section \<open>Simulation\<close>

lemma sim_same: "ledger_of e' = ledger_of e \<Longrightarrow> lg_steps h (ledger_of e) (ledger_of e')"
  by simp

lemma sim_one: "lg_step h (ledger_of e) l \<Longrightarrow> l = ledger_of e' \<Longrightarrow> lg_steps h (ledger_of e) (ledger_of e')"
  by auto

lemma sim_then:
  "lg_steps h (ledger_of e) (ledger_of e') \<Longrightarrow> lg_steps h (ledger_of e') (ledger_of e'') \<Longrightarrow>
   lg_steps h (ledger_of e) (ledger_of e'')"
  by (rule rtranclp_trans)

lemma ledger_ws_send [simp]: "ledger_of (ws_send ws cmd e) = ledger_of e"
  by (simp add: ledger_of_def ws_send_def split: option.split)

lemma ledger_drop_commands [simp]: "ledger_of (drop_commands ws e) = ledger_of e"
  by (simp add: ledger_of_def drop_commands_def split: option.split)

lemma ledger_insert_commands [simp]: "ledger_of (insert_commands ws c e) = ledger_of e"
proof -
  have "ledger_of (insert_commands ws c e) = ledger_of (drop_commands ws e)"
    by (simp add: insert_commands_def Let_def ledger_of_def)
  then show ?thesis by simp
qed

lemma ledger_drop_all [simp]: "ledger_of (drop_all_commands unused e) = ledger_of e"
  unfolding drop_all_commands_def
  by (rule fold_invariant [where P = "\<lambda>x. ledger_of x = ledger_of e"]) auto

lemma ledger_exit [simp]: "ledger_of (exit_check e) = ledger_of e"
  by (simp add: exit_check_def ledger_of_def)

lemma ledger_fields:
  "lg_requested (ledger_of e) = el_requested e" "lg_tasks (ledger_of e) = el_tasks e"
  "lg_pending (ledger_of e) = el_pending e" "lg_enqueued (ledger_of e) = el_enqueued e"
  "lg_calls (ledger_of e) = el_calls e" "lg_tokens (ledger_of e) = el_tokens e"
  "lg_request (ledger_of e) = el_request e" "lg_root (ledger_of e) = el_root e"
  "lg_object (ledger_of e) = uncounted (el_object e)" "lg_queue (ledger_of e) = el_queue e"
  "lg_answered (ledger_of e) = answered_ids (el_callbacks e)"
  by (simp_all add: ledger_of_def)

lemma same_request: "ledger_of e' = ledger_of e \<Longrightarrow> el_request e' = el_request e \<and> el_tokens e' = el_tokens e"
  by (simp add: ledger_of_def)

lemma sim_spawn_answer: "lg_steps h (ledger_of e) (ledger_of (spawn_answer k i None e))"
  by (rule sim_one [OF lg_step.ask [of h _ i k]])
    (simp add: spawn_answer_def spawn_task_def lg_ask_def ledger_of_def)

lemma sim_spawn_gated: "lg_steps h (ledger_of e) (ledger_of (spawn_gated k i e))"
proof (cases "el_queue e")
  case True
  then have "lg_queue (ledger_of e)" by (simp add: ledger_fields)
  from lg_step.call [OF this refl, of h i k] show ?thesis
    by (rule sim_one)
      (use True in \<open>simp add: spawn_gated_def output_gate_def Let_def spawn_answer_def spawn_task_def queue_send_def
        lg_ask_def lg_give_def ledger_of_def\<close>)
next
  case False
  then show ?thesis using sim_spawn_answer by (simp add: spawn_gated_def output_gate_def)
qed

lemma sim_spawn:
  assumes "tk_answer t = None" "tk_gate t = None" "\<forall>k. tk_token t = Some k \<longrightarrow> k < length (el_tokens e)"
    "ledger_of e' = ledger_of e"
  shows "lg_steps h (ledger_of e) (ledger_of (spawn_task t e'))"
proof -
  have "lg_step h (ledger_of e) ((ledger_of e)\<lparr>lg_tasks := lg_tasks (ledger_of e) @ [t]\<rparr>)"
    using assms by (intro lg_step.spawn) (simp_all add: ledger_fields)
  moreover have "(ledger_of e)\<lparr>lg_tasks := lg_tasks (ledger_of e) @ [t]\<rparr> = ledger_of (spawn_task t e')"
    unfolding assms(4) [symmetric] by (simp add: spawn_task_def ledger_of_def)
  ultimately show ?thesis by (rule sim_one)
qed

lemma sim_forward: "ledger_of e' = ledger_of e \<Longrightarrow> lg_steps h (ledger_of e) (ledger_of (forward u s e'))"
  unfolding forward_def by (rule sim_spawn) simp_all

lemma sim_socket: "ledger_of e' = ledger_of e \<Longrightarrow> lg_steps h (ledger_of e) (ledger_of (enqueue (QSocket op w) e'))"
  by (rule sim_one [OF lg_step.socket [of h _ op w]], erule subst)
    (simp add: enqueue_def queue_send_def lg_give_def ledger_of_def)

lemma sim_begin:
  assumes "el_request e < length (el_tokens e)"
  shows "lg_steps h (ledger_of e) (ledger_of (begin_request abort e))"
proof -
  let ?e1 = "e\<lparr>el_tokens := (el_tokens e)[el_request e := True] @ [el_root e], el_request := length (el_tokens e)\<rparr>"
  let ?e2 = "drop_all_commands (set (map fst (el_ws_commands ?e1))) ?e1"
  let ?e3 = "?e2\<lparr>el_pairs := Some {}\<rparr>"
  have one: "lg_steps h (ledger_of e) (ledger_of ?e1)"
    by (rule sim_one [OF lg_step.begin_scope]) (simp add: ledger_of_def)
  have same: "ledger_of ?e3 = ledger_of ?e1"
    using ledger_drop_all [of "set (map fst (el_ws_commands ?e1))" ?e1] by (simp add: ledger_of_def)
  then have req: "el_request ?e3 = length (el_tokens e)" using same_request [OF same] by simp
  show ?thesis
  proof (cases abort)
    case None
    then have "begin_request abort e = ?e3" by (simp add: begin_request_def Let_def)
    with one same show ?thesis by simp
  next
    case (Some a)
    then have "begin_request abort e =
        spawn_task \<lparr>tk_kind = KAbortLink a, tk_answer = None, tk_token = Some (el_request ?e3), tk_gate = None\<rparr> ?e3"
      by (simp add: begin_request_def Let_def)
    moreover have "lg_steps h (ledger_of ?e1)
        (ledger_of (spawn_task \<lparr>tk_kind = KAbortLink a, tk_answer = None, tk_token = Some (el_request ?e3), tk_gate = None\<rparr> ?e3))"
      by (rule sim_spawn) (use req same in simp_all)
    ultimately show ?thesis using one by (metis sim_then)
  qed
qed

lemma sim_writable:
  assumes "el_request e < length (el_tokens e)"
  shows "lg_steps h (ledger_of e) (ledger_of (schedule_writable i stream e))"
proof -
  define e' where "e' = (case sm_sender stream (el_streams e) of None \<Rightarrow> e
      | Some c \<Rightarrow> e\<lparr>el_streams := update_channel c ch_clone_sender (el_streams e)\<rparr>)"
  have same: "ledger_of e' = ledger_of e" by (simp add: e'_def ledger_of_def split: option.split)
  have eq: "schedule_writable i stream e = spawn_task \<lparr>tk_kind = KWritable i stream (sm_sender stream (el_streams e)),
      tk_answer = None, tk_token = Some (el_request e'), tk_gate = None\<rparr> e'"
    by (simp add: schedule_writable_def e'_def Let_def)
  show ?thesis unfolding eq by (rule sim_spawn) (use same same_request [OF same] assms in simp_all)
qed

lemma sim_pair:
  assumes "el_request e < length (el_tokens e)"
  shows "lg_steps h (ledger_of e) (ledger_of (web_socket_pair ws e))"
proof -
  define e1 where "e1 = e\<lparr>el_channels := el_channels e @ [\<lparr>wc_cmds = [], wc_tx_open = (el_pairs e \<noteq> None)\<rparr>]\<rparr>"
  define e2 where "e2 = (case el_pairs e of None \<Rightarrow> e1
      | Some ps \<Rightarrow> insert_commands ws (length (el_channels e)) (e1\<lparr>el_pairs := Some (insert ws ps)\<rparr>))"
  have "ledger_of e1 = ledger_of e" "\<And>ps. ledger_of (e1\<lparr>el_pairs := ps\<rparr>) = ledger_of e"
    by (simp_all add: e1_def ledger_of_def)
  then have same: "ledger_of e2 = ledger_of e" by (simp add: e2_def split: option.split)
  have eq: "web_socket_pair ws e = spawn_task \<lparr>tk_kind = KPair ws (length (el_channels e)), tk_answer = None,
      tk_token = Some (el_request e2), tk_gate = None\<rparr> e2"
    by (cases "el_pairs e") (simp_all add: web_socket_pair_def e2_def e1_def Let_def)
  show ?thesis unfolding eq by (rule sim_spawn) (use same same_request [OF same] assms in simp_all)
qed

lemma sim_upgrade: "lg_steps h (ledger_of e) (ledger_of (web_socket_upgrade upgrade e))"
proof -
  define e1 where "e1 = e\<lparr>el_pairs := None, el_relays := []\<rparr>"
  have same: "ledger_of e1 = ledger_of e" by (simp add: e1_def ledger_of_def)
  define unused where "unused = (case el_pairs e of None \<Rightarrow> {} | Some ps \<Rightarrow> ps)"
  have "ledger_of (web_socket_upgrade upgrade e) = ledger_of e1 \<or>
      (\<exists>u s. ledger_of (web_socket_upgrade upgrade e) = ledger_of (forward u s e1))"
    unfolding web_socket_upgrade_def Let_def e1_def [symmetric] unused_def [symmetric]
    by (auto split: option.split prod.split)
  then show ?thesis using sim_forward [OF same] same by auto
qed

lemma sim_object_upgrade: "lg_steps h (ledger_of e) (ledger_of (object_upgrade ws u e))"
proof -
  have "ledger_of (e\<lparr>el_relays := hm_remove ws (el_relays e)\<rparr>) = ledger_of e" by (simp add: ledger_of_def)
  from sim_forward [OF this] sim_socket [OF this] show ?thesis
    by (simp add: object_upgrade_def Let_def split: option.split)
qed

lemma sim_barrier: "lg_steps h (ledger_of e) (ledger_of (output_barrier n e))"
proof (cases "el_queue e")
  case True
  then have "lg_queue (ledger_of e)" by (simp add: ledger_fields)
  from lg_step.reply [OF this, of h n] show ?thesis
    by (rule sim_one) (use True in \<open>simp add: output_barrier_def queue_send_def lg_give_def ledger_of_def\<close>)
next
  case False
  then show ?thesis by (intro sim_same) (simp add: output_barrier_def ledger_of_def)
qed

lemma sim_store: "lg_steps h (ledger_of e) (ledger_of (enqueue (QStorage i op) (e\<lparr>el_requested := el_requested e @ [i]\<rparr>)))"
  by (rule sim_one [OF lg_step.store [of h _ i op]]) (simp add: enqueue_def queue_send_def lg_give_def ledger_of_def)

lemma sim_connect: "lg_steps h (ledger_of e) (ledger_of (web_socket_connect i ws url headers e))"
proof -
  let ?c = "length (el_channels e)"
  let ?e = "insert_commands ws ?c (e\<lparr>el_channels := el_channels e @ [\<lparr>wc_cmds = [], wc_tx_open = True\<rparr>]\<rparr>)"
  have "ledger_of ?e = ledger_of e" by (simp add: ledger_of_def [of "e\<lparr>el_channels := _\<rparr>"] ledger_of_def [of e])
  moreover have "web_socket_connect i ws url headers e = spawn_answer (KConnect ws url headers ?c) i None ?e"
    by (simp add: web_socket_connect_def Let_def)
  ultimately show ?thesis using sim_spawn_answer [of h ?e] by simp
qed

lemma handle_groups:
  "handle_message m e =
     (case m of
        ScheduleTimeout i d \<Rightarrow> schedule_timer i d False e
      | ScheduleWritable i s \<Rightarrow> schedule_writable i s e
      | ScheduleInterval i d \<Rightarrow> schedule_timer i d True e
      | ClearTimer i \<Rightarrow> e\<lparr>el_cancelled := insert i (el_cancelled e)\<rparr>
      | FetchStreaming i r \<Rightarrow> spawn_gated (KFetch r) i e
      | BindingFetch i b r \<Rightarrow> spawn_gated (KBindingFetch b r) i e
      | BindingStorage i b op \<Rightarrow> spawn_answer (KStorage b op) i None e
      | BindingKv i b op \<Rightarrow> spawn_answer (KKv b op) i None e
      | BindingDatabase i b op \<Rightarrow> spawn_answer (KDatabase b op) i None e
      | BindingD1 i b op \<Rightarrow> spawn_answer (KD1 b op) i None e
      | BindingWorker i b r \<Rightarrow> spawn_gated (KWorker b r) i e
      | BindingInvoke i c \<Rightarrow> spawn_answer (KInvoke c) i None e
      | BindingDurableObject i b oid r \<Rightarrow> spawn_gated (KDurableObject b oid r) i e
      | ObjectStorage i op \<Rightarrow> enqueue (QStorage i op) (e\<lparr>el_requested := el_requested e @ [i]\<rparr>)
      | ObjectSocket op w \<Rightarrow> enqueue (QSocket op w) e
      | ObjectUpgrade ws u \<Rightarrow> object_upgrade ws u e
      | OutputBarrier n \<Rightarrow> output_barrier n e
      | StreamRead i s \<Rightarrow> spawn_answer (KStreamRead s) i None e
      | StreamCancel s \<Rightarrow> e\<lparr>el_streams := close_stream s (el_streams e)\<rparr>
      | WebSocketConnect i ws url hs \<Rightarrow> web_socket_connect i ws url hs e
      | WebSocketPair ws \<Rightarrow> web_socket_pair ws e
      | WebSocketUpgrade u \<Rightarrow> web_socket_upgrade u e
      | WebSocketAccept ws \<Rightarrow> ws_send ws Accept e
      | WebSocketSend ws msg \<Rightarrow> ws_send ws (Send msg) e
      | WebSocketClose ws c r \<Rightarrow> drop_commands ws (ws_send ws (CloseCommand c r) e)
      | BeginRequest abort \<Rightarrow> begin_request abort e
      | Shutdown \<Rightarrow> e\<lparr>el_shutdown := True\<rparr>)"
  by (cases m)
    (simp_all add: handle_message_def handle_timers_def handle_calls_def handle_bindings_def handle_object_def
      handle_sockets_def)

lemma sim_message:
  assumes "el_request e < length (el_tokens e)"
  shows "lg_steps h (ledger_of e) (ledger_of (handle_message m e))"
proof -
  have "ledger_of (schedule_timer i d b e) = ledger_of e" "ledger_of (e\<lparr>el_cancelled := x\<rparr>) = ledger_of e"
    "ledger_of (e\<lparr>el_streams := y\<rparr>) = ledger_of e" "ledger_of (e\<lparr>el_shutdown := z\<rparr>) = ledger_of e" for i d b x y z
    by (simp_all add: schedule_timer_def ledger_of_def)
  then show ?thesis
    unfolding handle_groups
    by (cases m)
      (simp_all add: sim_spawn_answer sim_spawn_gated sim_writable sim_store sim_socket sim_object_upgrade sim_barrier
        sim_connect sim_pair sim_upgrade sim_begin assms)
qed

lemma sim_loop_message:
  assumes "el_request e < length (el_tokens e)"
  shows "lg_steps h (ledger_of e) (ledger_of (loop_message e))"
proof (cases "el_inbox e")
  case Nil
  then show ?thesis by (intro sim_same) (simp add: loop_message_def ledger_of_def)
next
  case (Cons m rest)
  have "ledger_of (e\<lparr>el_inbox := rest\<rparr>) = ledger_of e" by (simp add: ledger_of_def)
  then show ?thesis using sim_message [of "e\<lparr>el_inbox := rest\<rparr>" h m] Cons assms by (simp add: loop_message_def)
qed

lemma sim_loop_timer: "lg_steps h (ledger_of e) (ledger_of (loop_timer n e))"
  by (intro sim_same) (simp add: loop_timer_def Let_def exit_check_def callback_send_def ledger_of_def answer_of_def)

lemma answers_suffix:
  "answered_ids (map (\<lambda>(i, r). ObjectStorageMsg i r) (drop (length (oq_answers q)) (oq_answers (object_queue_step h w q))))
   = storage_ids [w]"
  by (cases w) (auto simp: object_queue_step_def Let_def answer_of_def split: prod.splits)

lemma sim_queue: "lg_steps h (ledger_of e) (ledger_of (queue_run h e))"
proof (cases "el_pending e")
  case Nil
  then show ?thesis by (simp add: queue_run_def)
next
  case (Cons work rest)
  then have "lg_pending (ledger_of e) = work # rest" by (simp add: ledger_fields)
  from lg_step.run [OF this, of h] show ?thesis
    by (rule sim_one) (use Cons in \<open>simp add: queue_run_def Let_def ledger_of_def answers_suffix uncounted_step\<close>)
qed

section \<open>The end of a task\<close>

lemma sim_answer:
  assumes "n < length (el_tasks e)" "tk_answer (el_tasks e ! n) = Some i" "answer_of m = Some i"
  shows "lg_steps h (ledger_of e) (ledger_of (callback_send m (end_task n e)))"
proof -
  have "lg_step h (ledger_of e) ((ledger_of e)\<lparr>lg_tasks := remove_at n (lg_tasks (ledger_of e)),
      lg_answered := lg_answered (ledger_of e) @ [i]\<rparr>)"
    using assms by (intro lg_step.answer) (simp_all add: ledger_fields)
  then show ?thesis by (rule sim_one) (use assms in \<open>simp add: callback_send_def end_task_def ledger_of_def\<close>)
qed

text \<open>An answer sends one message with the id it owes, and may leave a task that reads a body.\<close>

definition one_answer :: "callback_id \<Rightarrow> nat option \<Rightarrow> 's event_loop \<Rightarrow> 's event_loop \<Rightarrow> bool" where
  "one_answer i token e e' \<longleftrightarrow>
     (\<exists>m. answer_of m = Some i \<and> (ledger_of e' = ledger_of (callback_send m e) \<or>
        (\<exists>u. tk_answer u = None \<and> tk_gate u = None \<and> tk_token u = token \<and>
           ledger_of e' = ledger_of (spawn_task u (callback_send m e)))))"

lemma one_answer_send: "answer_of m = Some i \<Longrightarrow> one_answer i token e (callback_send m e)"
  by (auto simp: one_answer_def)

lemma one_answer_stream:
  assumes "response_stream label body token e = (e', stream)" "answer_of m = Some i"
  shows "one_answer i token e (callback_send m e')"
proof (cases body)
  case (BodyStream rx)
  let ?u = "\<lparr>tk_kind = KStreamReader stream rx, tk_answer = None, tk_token = token, tk_gate = None\<rparr>"
  have "ledger_of (callback_send m e') = ledger_of (spawn_task ?u (callback_send m e))"
    using assms(1) BodyStream
    by (auto simp: response_stream_def spawn_stream_reader_def spawn_task_def callback_send_def ledger_of_def split: prod.splits)
  then show ?thesis using assms(2) unfolding one_answer_def by (metis task.select_convs(2-4))
qed (use assms in \<open>auto simp: one_answer_def response_stream_def callback_send_def ledger_of_def split: prod.splits\<close>)

lemma answer_of_simps [simp]:
  "answer_of (FetchError i s) = Some i" "answer_of (FetchStreamingSuccess i meta st) = Some i"
  "answer_of (BindingUpgrade i meta ws) = Some i" "answer_of (StreamChunkMsg i c) = Some i"
  "answer_of (WebSocketEvent ws msg) = None" "answer_of (ExecuteTimeout i) = None"
  by (simp_all add: answer_of_def)

lemma answer_of_binding [simp]: "answer_of (binding_answer k i r) = Some i" "answer_of (cancelled_answer k i) = Some i"
  "answer_of (answer_read i x text) = Some i"
  by (cases k; simp add: binding_answer_def cancelled_answer_def answer_read_def answer_of_def
      split: operation_result.split connect_answer.split)+

lemma one_answer_fetch: "one_answer i token e (answer_fetch i r token e)"
proof (cases "\<exists>response. r = OrHttp (Inr response)")
  case True
  then obtain response where r: "r = OrHttp (Inr response)" by blast
  obtain e' stream where "response_stream ''ops_fetch'' (hr_body response) token e = (e', stream)" by fastforce
  from one_answer_stream [OF this] show ?thesis
    by (simp add: answer_fetch_def convert_fetch_result_to_stream_def r Let_def \<open>response_stream _ _ _ _ = _\<close>)
next
  case False
  then show ?thesis
    by (auto simp: answer_fetch_def convert_fetch_result_to_stream_def intro: one_answer_send
        split: operation_result.split sum.split)
qed

lemma one_answer_binding_request: "one_answer i token e (answer_binding_request i r token e)"
proof (cases "\<exists>response. r = OrHttp (Inr response)")
  case True
  then obtain response where r: "r = OrHttp (Inr response)" by blast
  obtain e' stream where "response_stream ''binding_request'' (hr_body response) token e = (e', stream)" by fastforce
  from one_answer_stream [OF this] show ?thesis
    by (simp add: answer_binding_request_def r Let_def \<open>response_stream _ _ _ _ = _\<close>)
next
  case False
  have "one_answer i token e (callback_send (BindingUpgrade i meta ws) (e\<lparr>el_next_socket := x, el_relays := y\<rparr>))" for meta ws x y
    unfolding one_answer_def
    by (rule exI [of _ "BindingUpgrade i meta ws"]) (simp add: callback_send_def ledger_of_def)
  with False show ?thesis
    by (auto simp: answer_binding_request_def Let_def intro: one_answer_send split: operation_result.split sum.split)
qed

lemma one_answer_result: "one_answer i (tk_token t) e (answer_result t i r e)"
  by (auto simp: answer_result_def one_answer_fetch one_answer_binding_request intro: one_answer_send
      split: task_kind.split)

lemma sim_answer_result:
  assumes "n < length (el_tasks e)" "tk_answer (el_tasks e ! n) = Some i"
    "\<forall>k. tk_token (el_tasks e ! n) = Some k \<longrightarrow> k < length (el_tokens e)"
  shows "lg_steps h (ledger_of e) (ledger_of (answer_result (el_tasks e ! n) i r (end_task n e)))"
proof -
  obtain m where m: "answer_of m = Some i"
    and alt: "ledger_of (answer_result (el_tasks e ! n) i r (end_task n e)) = ledger_of (callback_send m (end_task n e)) \<or>
        (\<exists>u. tk_answer u = None \<and> tk_gate u = None \<and> tk_token u = tk_token (el_tasks e ! n) \<and>
           ledger_of (answer_result (el_tasks e ! n) i r (end_task n e)) = ledger_of (spawn_task u (callback_send m (end_task n e))))"
    using one_answer_result [of i "el_tasks e ! n" "end_task n e" r] unfolding one_answer_def by blast
  note first = sim_answer [OF assms(1,2) m, of h]
  have tokens: "el_tokens (callback_send m (end_task n e)) = el_tokens e" by (simp add: callback_send_def end_task_def)
  from alt show ?thesis
  proof
    assume "\<exists>u. tk_answer u = None \<and> tk_gate u = None \<and> tk_token u = tk_token (el_tasks e ! n) \<and>
           ledger_of (answer_result (el_tasks e ! n) i r (end_task n e)) = ledger_of (spawn_task u (callback_send m (end_task n e)))"
    then obtain u where u: "tk_answer u = None" "tk_gate u = None" "tk_token u = tk_token (el_tasks e ! n)"
      "ledger_of (answer_result (el_tasks e ! n) i r (end_task n e)) = ledger_of (spawn_task u (callback_send m (end_task n e)))"
      by blast
    have "lg_steps h (ledger_of (callback_send m (end_task n e))) (ledger_of (spawn_task u (callback_send m (end_task n e))))"
      by (rule sim_spawn) (use u assms(3) tokens in simp_all)
    then show ?thesis using first u(4) by (metis sim_then)
  qed (use first in simp)
qed

lemma sim_end:
  assumes "n < length (el_tasks e)" "tk_answer (el_tasks e ! n) = None" "ledger_of e' = ledger_of (end_task n e)"
  shows "lg_steps h (ledger_of e) (ledger_of e')"
proof -
  have "lg_step h (ledger_of e) ((ledger_of e)\<lparr>lg_tasks := remove_at n (lg_tasks (ledger_of e))\<rparr>)"
    using assms by (intro lg_step.finish) (simp_all add: ledger_fields)
  then show ?thesis by (rule sim_one) (use assms(3) in \<open>simp add: end_task_def ledger_of_def\<close>)
qed

lemma ledger_end_writable:
  assumes "writable_ready e (el_tasks e ! n)"
  shows "ledger_of (end_writable n e) = ledger_of (end_task n e)"
  using assms
  by (auto simp: end_writable_def writable_ready_def Let_def callback_send_def end_task_def ledger_of_def
      split: task_kind.splits option.splits)

section \<open>Refinement\<close>

lemma sim_step:
  assumes "el_step h e e'" "scoped (ledger_of e)"
  shows "lg_steps h (ledger_of e) (ledger_of e')"
  using assms
proof (induction rule: el_step.induct)
  case (send e m)
  then show ?case by (intro sim_same) (simp add: guest_send_def ledger_of_def split: scheduler_message.split)
next
  case (message e)
  then show ?case by (intro sim_loop_message) (simp add: scoped_def ledger_fields)
next
  case (timer e n)
  then show ?case by (simp add: sim_loop_timer)
next
  case (queue e)
  then show ?case by (simp add: sim_queue)
next
  case (cancelled n e i)
  then show ?case by (intro sim_answer) auto
next
  case (refused n e i)
  then show ?case by (intro sim_answer) auto
next
  case (answered n e i r)
  then show ?case by (intro sim_answer_result) (auto simp: scoped_def ledger_fields)
next
  case (read n e i stream sm r describe)
  have "ledger_of (callback_send m ((end_task n e)\<lparr>el_streams := sm\<rparr>)) = ledger_of (callback_send m (end_task n e))" for m
    by (simp add: callback_send_def ledger_of_def)
  then show ?case using sim_answer [OF read(1,2)] by simp
next
  case (writable n e)
  show ?case by (rule sim_end [OF writable(1,2) ledger_end_writable [OF writable(3)]])
next
  case (other_task n e)
  then show ?case by (intro sim_end) auto
next
  case (abort k e)
  show ?case by (rule sim_one [OF lg_step.cancel [of h _ k]]) (simp add: ledger_of_def)
next
  case (context_gone e)
  show ?case by (rule sim_one [OF lg_step.gone]) (simp add: ledger_of_def)
next
  case (socket_event e ws m)
  show ?case by (rule sim_same) (simp add: callback_send_def ledger_of_def)
qed (simp_all add: ledger_of_def)

lemma lg_invariants:
  assumes "lg_steps h l l'" "balanced l \<and> scoped l \<and> gated h host l"
  shows "balanced l' \<and> scoped l' \<and> gated h host l'"
  using assms by (induction rule: rtranclp_induct) (auto intro: balanced_step scoped_step gated_step)

definition el_inv :: "'s object_host \<Rightarrow> 's \<Rightarrow> 's event_loop \<Rightarrow> bool" where
  "el_inv h host e \<longleftrightarrow> balanced (ledger_of e) \<and> scoped (ledger_of e) \<and> gated h host (ledger_of e)"

lemma el_inv_start: "el_inv h host (run_event_loop_start host ws)"
proof -
  let ?l = "ledger_of (run_event_loop_start host ws)"
  have "uncounted (object_queue_new host 0) = object_queue_new host 0" by (simp add: object_queue_new_def)
  then have fields: "lg_requested ?l = []" "lg_answered ?l = []" "lg_tasks ?l = []" "lg_pending ?l = []"
    "lg_enqueued ?l = []" "lg_calls ?l = []" "lg_tokens ?l = [False]" "lg_request ?l = 0"
    "lg_object ?l = object_queue_new host 0"
    by (simp_all add: ledger_of_def run_event_loop_start_def)
  have "work_done h host [] [] (object_queue_new host 0)"
    using \<open>uncounted _ = _\<close> by (simp add: work_done_def)
  with fields show ?thesis
    by (simp add: el_inv_def balanced_def scoped_def gated_def gates_bounded_def gates_known_def)
qed

lemma el_inv_step: "el_step h e e' \<Longrightarrow> el_inv h host e \<Longrightarrow> el_inv h host e'"
  unfolding el_inv_def by (rule lg_invariants [OF sim_step]) auto

lemma el_reachable_inv:
  assumes "el_reachable h (run_event_loop_start host ws) e"
  shows "el_inv h host e"
  using assms by (induction rule: rtranclp_induct) (auto intro: el_inv_start el_inv_step)

lemma el_reach_step: "el_step h a b \<Longrightarrow> el_reachable h b c \<Longrightarrow> el_reachable h a c"
  by (rule converse_rtranclp_into_rtranclp)

section \<open>Properties\<close>

text \<open>C3: Every operation a guest starts is answered exactly once.  In every state the event loop can
  reach (any messages, host answers, failures, cancellations and their interleavings), the callback ids
  the guest asked with are, counted with multiplicity, those of the answers sent, of the tasks still
  running, and of the storage operations still queued.  So an answer is never sent twice and never
  lost: once no task and no queued operation is left, the answers are exactly the requests.\<close>

theorem operations_answered_once:
  assumes "el_reachable h (run_event_loop_start host ws) e"
  shows "mset (el_requested e) =
    mset (answered_ids (el_callbacks e)) + mset (task_ids (el_tasks e)) + mset (storage_ids (el_pending e))"
  using el_reachable_inv [OF assms] by (simp add: el_inv_def balanced_def ledger_fields)

theorem operations_answered_once_witness:
  "\<exists>e. el_reachable failing_host (run_event_loop_start 0 1) e \<and> el_requested e = [5] \<and>
     el_callbacks e = [KvResult 5 (BindingValue 3)] \<and>
     mset (el_requested e) = mset (answered_ids (el_callbacks e)) + mset (task_ids (el_tasks e)) + mset (storage_ids (el_pending e))"
proof -
  let ?e0 = "run_event_loop_start 0 1 :: nat event_loop"
  let ?e1 = "guest_send (BindingKv 5 [] 0) ?e0"
  let ?e2 = "loop_message ?e1"
  let ?e3 = "answer_result (el_tasks ?e2 ! 0) 5 (OrKv (BindingValue 3)) (end_task 0 ?e2)"
  have "el_step failing_host ?e0 ?e1" by (rule el_step.send) (simp add: run_event_loop_start_def)
  moreover have "el_step failing_host ?e1 ?e2" by (rule el_step.message) code_simp
  moreover have "el_step failing_host ?e2 ?e3"
    by (rule el_step.answered) code_simp+
  ultimately have reach: "el_reachable failing_host ?e0 ?e3" by (meson el_reach_step rtranclp.rtrancl_refl)
  have "el_requested ?e3 = [5]" "el_callbacks ?e3 = [KvResult 5 (BindingValue 3)]" by code_simp+
  with operations_answered_once [OF reach] reach show ?thesis by blast
qed

text \<open>No operation of an earlier request completes in a later one.  In every reachable state, a task
  whose cancellation token is not that of the current request is cancelled: it cannot use its result
  and its only answer is the cancellation.\<close>

lemma earlier_requests_cancelled:
  assumes "el_reachable h (run_event_loop_start host ws) e" "t \<in> set (el_tasks e)"
    "tk_token t = Some k" "k \<noteq> el_request e"
  shows "task_cancelled e t \<and> \<not> task_ready e t \<and> \<not> task_refused e t"
proof -
  have "scoped (ledger_of e)" using el_reachable_inv [OF assms(1)] by (simp add: el_inv_def)
  then have "el_tokens e ! k" using assms(2-) by (simp add: scoped_def ledger_fields)
  then show ?thesis using assms(3) by (simp add: task_cancelled_def task_ready_def task_refused_def)
qed

text \<open>The output gate holds.  In every reachable state, if an outbound call of a Durable Object may
  run, then of the work that had been given to the object's queue when the guest made the call, no
  write has failed, and every storage and socket operation has been performed, in order.\<close>

lemma output_gate_waits_for_writes:
  assumes "el_reachable h (run_event_loop_start host ws) e" "t \<in> set (el_tasks e)"
    "tk_gate t = Some g" "task_ready e t"
  shows "\<exists>made. (g, made) \<in> set (el_calls e) \<and>
    \<not> oq_failed (run_object_queue h made (object_queue_new host 0)) \<and>
    prefix (operations made) (oq_handled (el_object e))"
proof -
  have inv: "gated h host (ledger_of e)" using el_reachable_inv [OF assms(1)] by (simp add: el_inv_def)
  then have "g \<in> fst ` set (el_calls e)"
    using assms(2,3) unfolding gated_def gates_known_def by (simp add: ledger_fields)
  then obtain made where made: "(g, made) \<in> set (el_calls e)" by auto
  have "g \<in> set (oq_opened (el_object e))"
    using assms(3,4) by (auto simp: task_ready_def task_gate_state_def after_def split: if_splits)
  with open_gate [OF inv, of g made] made show ?thesis by (auto simp: ledger_fields)
qed

definition gated_call_state :: "nat event_loop" where
  "gated_call_state =
     loop_message (guest_send (FetchStreaming 2 0) (loop_message (guest_send (ObjectStorage 1 (StorageWrite 7)) (run_event_loop_start 5 1))))"

lemma gated_call_reach:
  "el_reachable failing_host (run_event_loop_start 5 1) (queue_run failing_host (queue_run failing_host gated_call_state))"
proof -
  let ?e0 = "run_event_loop_start 5 1 :: nat event_loop"
  let ?e1 = "guest_send (ObjectStorage 1 (StorageWrite 7)) ?e0"
  let ?e2 = "loop_message ?e1"
  let ?e3 = "guest_send (FetchStreaming 2 0) ?e2"
  have "el_step failing_host ?e0 ?e1" by (rule el_step.send) (simp add: run_event_loop_start_def)
  moreover have "el_step failing_host ?e1 ?e2" by (rule el_step.message) code_simp
  moreover have "el_step failing_host ?e2 ?e3" by (rule el_step.send) code_simp
  moreover have "el_step failing_host ?e3 gated_call_state"
    unfolding gated_call_state_def by (rule el_step.message) code_simp
  moreover have "el_step failing_host e (queue_run failing_host e)" for e by (rule el_step.queue)
  ultimately show ?thesis by (meson el_reach_step rtranclp.rtrancl_refl)
qed

end
