(* ===== verification/Event_Timers.thy ===== *)
theory Event_Timers
  imports Event_Loop_Properties
begin

text \<open>
  The timers of the event loop: a cleared timer does not fire again, and the loop that was told to shut
  down ends when its last timer has fired, but not when its last timer was cleared.
\<close>

section \<open>What the operations leave alone\<close>

definition writables :: "task list \<Rightarrow> callback_id list" where
  "writables ts = List.map_filter (\<lambda>t. case tk_kind t of KWritable i _ _ \<Rightarrow> Some i | _ \<Rightarrow> None) ts"

text \<open>The part of the state that decides what fires, and when.\<close>

definition timer_view where
  "timer_view e = (el_timers e, el_cancelled e, el_callbacks e, writables (el_tasks e), el_inbox e, el_now e)"

lemma writables_append [simp]: "writables (ts @ us) = writables ts @ writables us"
  by (simp add: writables_def map_filter_def)

lemma writables_single:
  "writables [t] = (case tk_kind t of KWritable i _ _ \<Rightarrow> [i] | _ \<Rightarrow> [])"
  by (simp add: writables_def map_filter_def split: task_kind.split)

lemma writables_remove_at: "set (writables (remove_at n ts)) \<subseteq> set (writables ts)"
proof -
  have "writables xs = map (the \<circ> f) (filter (\<lambda>x. f x \<noteq> None) xs)"
    if "f = (\<lambda>t. case tk_kind t of KWritable i _ _ \<Rightarrow> Some i | _ \<Rightarrow> None)" for xs f
    using that by (simp add: writables_def map_filter_def)
  then show ?thesis using set_remove_at [of n ts] by fastforce
qed

lemma view_ws_send [simp]: "timer_view (ws_send ws cmd e) = timer_view e"
  by (simp add: timer_view_def ws_send_def split: option.split)

lemma view_drop_commands [simp]: "timer_view (drop_commands ws e) = timer_view e"
  by (simp add: timer_view_def drop_commands_def split: option.split)

lemma view_insert_commands [simp]: "timer_view (insert_commands ws c e) = timer_view e"
proof -
  have "timer_view (insert_commands ws c e) = timer_view (drop_commands ws e)"
    by (simp add: insert_commands_def Let_def timer_view_def)
  then show ?thesis by simp
qed

lemma view_drop_all [simp]: "timer_view (drop_all_commands unused e) = timer_view e"
  unfolding drop_all_commands_def
  by (rule fold_invariant [where P = "\<lambda>x. timer_view x = timer_view e"]) auto

lemma view_spawn: "writables [t] = [] \<Longrightarrow> timer_view (spawn_task t e) = timer_view e"
  by (simp add: timer_view_def spawn_task_def)

lemma view_spawn_answer: "(\<forall>i s c. k \<noteq> KWritable i s c) \<Longrightarrow> timer_view (spawn_answer k i g e) = timer_view e"
  by (cases k) (simp_all add: timer_view_def spawn_answer_def spawn_task_def writables_single)

lemma view_spawn_gated: "(\<forall>i s c. k \<noteq> KWritable i s c) \<Longrightarrow> timer_view (spawn_gated k i e) = timer_view e"
proof -
  assume k: "\<forall>i s c. k \<noteq> KWritable i s c"
  obtain e' gate where gate: "output_gate e = (e', gate)" by fastforce
  then have "timer_view e' = timer_view e" by (auto simp: output_gate_def Let_def timer_view_def queue_send_def split: if_splits)
  then show ?thesis using k gate by (simp add: spawn_gated_def view_spawn_answer)
qed

lemma view_enqueue [simp]: "timer_view (enqueue w e) = timer_view e"
  by (simp add: timer_view_def enqueue_def queue_send_def)

lemma view_forward [simp]: "timer_view (forward u s e) = timer_view e"
  unfolding forward_def by (rule view_spawn) (simp add: writables_single)

lemma view_updates [simp]:
  "timer_view (e\<lparr>el_relays := a\<rparr>) = timer_view e" "timer_view (e\<lparr>el_pairs := b\<rparr>) = timer_view e"
  "timer_view (e\<lparr>el_channels := c\<rparr>) = timer_view e" "timer_view (e\<lparr>el_streams := d\<rparr>) = timer_view e"
  "timer_view (e\<lparr>el_requested := f\<rparr>) = timer_view e" "timer_view (e\<lparr>el_shutdown := g\<rparr>) = timer_view e"
  "timer_view (e\<lparr>el_replies := i\<rparr>) = timer_view e"
  "timer_view (e\<lparr>el_tokens := j, el_request := k\<rparr>) = timer_view e" "timer_view (e\<lparr>el_running := l\<rparr>) = timer_view e"
  by (simp_all add: timer_view_def)

lemma view_exit [simp]: "timer_view (exit_check e) = timer_view e"
  by (simp add: exit_check_def)

lemma view_upgrade [simp]: "timer_view (web_socket_upgrade u e) = timer_view e"
  by (simp add: web_socket_upgrade_def Let_def split: option.split prod.split)

lemma view_object_upgrade [simp]: "timer_view (object_upgrade ws u e) = timer_view e"
  by (simp add: object_upgrade_def Let_def split: option.split)

lemma view_barrier [simp]: "timer_view (output_barrier n e) = timer_view e"
  by (simp add: output_barrier_def queue_send_def timer_view_def)

lemma view_pair [simp]: "timer_view (web_socket_pair ws e) = timer_view e"
  unfolding web_socket_pair_def Let_def
  by (subst view_spawn) (simp_all add: writables_single split: option.split)

lemma view_connect [simp]: "timer_view (web_socket_connect i ws url hs e) = timer_view e"
  by (simp add: web_socket_connect_def Let_def view_spawn_answer)

lemma view_begin [simp]: "timer_view (begin_request abort e) = timer_view e"
  unfolding begin_request_def Let_def
  by (cases abort) (simp_all add: view_spawn writables_single)

definition schedules :: "callback_id \<Rightarrow> scheduler_message \<Rightarrow> bool" where
  "schedules i m =
     (case m of ScheduleTimeout j _ \<Rightarrow> j = i | ScheduleInterval j _ \<Rightarrow> j = i | ScheduleWritable j _ \<Rightarrow> j = i | _ \<Rightarrow> False)"

definition timers_with :: "callback_id \<Rightarrow> timer list \<Rightarrow> timer list" where
  "timers_with i ts = filter (\<lambda>t. t_id t = i) ts"

definition fired :: "callback_id \<Rightarrow> callback_message list \<Rightarrow> callback_message list" where
  "fired i ms = filter (\<lambda>m. m = ExecuteTimeout i \<or> m = ExecuteInterval i) ms"

text \<open>The timer is cleared, or gone; and it has fired what it had.\<close>

definition silenced :: "callback_id \<Rightarrow> callback_message list \<Rightarrow> 's event_loop \<Rightarrow> bool" where
  "silenced i before e \<longleftrightarrow>
     fired i (el_callbacks e) = before \<and> i \<notin> set (writables (el_tasks e)) \<and>
     (i \<in> el_cancelled e \<and> length (timers_with i (el_timers e)) \<le> 1 \<or> timers_with i (el_timers e) = [])"

lemma silenced_view: "timer_view e' = timer_view e \<Longrightarrow> silenced i before e' = silenced i before e"
  by (simp add: silenced_def timer_view_def)

lemma silenced_schedule:
  assumes "silenced i before e" "j \<noteq> i"
  shows "silenced i before (schedule_timer j d b e)"
  using assms by (auto simp: silenced_def schedule_timer_def timers_with_def create_timer_def)

lemma silenced_writable:
  assumes "silenced i before e" "j \<noteq> i"
  shows "silenced i before (schedule_writable j s e)"
  using assms
  by (auto simp: silenced_def schedule_writable_def Let_def spawn_task_def writables_single split: option.splits)

lemma silenced_clear: "silenced i before e \<Longrightarrow> silenced i before (e\<lparr>el_cancelled := insert j (el_cancelled e)\<rparr>)"
  by (auto simp: silenced_def)

lemma view_message:
  assumes "\<forall>j d. m \<noteq> ScheduleTimeout j d" "\<forall>j d. m \<noteq> ScheduleInterval j d" "\<forall>j s. m \<noteq> ScheduleWritable j s"
    "\<forall>j. m \<noteq> ClearTimer j"
  shows "timer_view (handle_message m e) = timer_view e"
  using assms by (cases m) (simp_all add: handle_groups view_spawn_answer view_spawn_gated)

lemma silenced_message:
  assumes "silenced i before e" "\<not> schedules i m"
  shows "silenced i before (handle_message m e)"
proof (cases m)
  case (ScheduleTimeout j d)
  with assms show ?thesis by (simp add: handle_groups silenced_schedule schedules_def)
next
  case (ScheduleInterval j d)
  with assms show ?thesis by (simp add: handle_groups silenced_schedule schedules_def)
next
  case (ScheduleWritable j s)
  with assms show ?thesis by (simp add: handle_groups silenced_writable schedules_def)
next
  case (ClearTimer j)
  with assms show ?thesis by (simp add: handle_groups silenced_clear)
qed (use assms(1) silenced_view [OF view_message, of m i before e] in simp_all)

section \<open>A cleared timer stays silent\<close>

lemma filter_remove_at_other: "n < length xs \<Longrightarrow> \<not> P (xs ! n) \<Longrightarrow> filter P (remove_at n xs) = filter P xs"
  by (subst (2) id_take_nth_drop) (auto simp: remove_at_def)

lemma silenced_timer:
  assumes "silenced i before e" "n < length (el_timers e)"
  shows "silenced i before (loop_timer n e)"
proof (cases "t_id (el_timers e ! n) = i")
  case True
  have len: "Suc (length (timers_with i (remove_at n (el_timers e)))) = length (timers_with i (el_timers e))"
    using length_filter_remove_at [OF assms(2), of "\<lambda>t. t_id t = i"] True by (simp add: timers_with_def)
  then have "i \<in> el_cancelled e" "length (timers_with i (el_timers e)) \<le> 1"
    using assms(1) by (auto simp: silenced_def)
  moreover from this(2) len have "length (timers_with i (remove_at n (el_timers e))) = 0" by linarith
  then have "timers_with i (remove_at n (el_timers e)) = []" by simp
  ultimately show ?thesis using assms(1) True by (simp add: silenced_def loop_timer_def Let_def)
next
  case False
  then have "timers_with i (remove_at n (el_timers e)) = timers_with i (el_timers e)"
    using filter_remove_at_other [OF assms(2), of "\<lambda>t. t_id t = i"] by (simp add: timers_with_def)
  moreover have "timers_with i (ts @ [create_timer j d b now]) = timers_with i ts" if "j \<noteq> i" for ts j d b now
    using that by (simp add: timers_with_def create_timer_def)
  ultimately show ?thesis using assms(1) False
    by (auto simp: silenced_def loop_timer_def Let_def exit_check_def callback_send_def fired_def)
qed

lemma silenced_send:
  "silenced i before e \<Longrightarrow> m \<noteq> ExecuteTimeout i \<Longrightarrow> m \<noteq> ExecuteInterval i \<Longrightarrow> silenced i before (callback_send m e)"
  by (simp add: silenced_def callback_send_def fired_def)

lemma silenced_answer: "silenced i before e \<Longrightarrow> answer_of m = Some j \<Longrightarrow> silenced i before (callback_send m e)"
  by (rule silenced_send) (auto simp: answer_of_def)

lemma silenced_end: "silenced i before e \<Longrightarrow> silenced i before (end_task n e)"
  using writables_remove_at [of n "el_tasks e"] by (auto simp: silenced_def end_task_def)

lemma view_response_stream:
  assumes "response_stream label body token e = (e', stream)"
  shows "timer_view e' = timer_view e"
  using assms
  by (auto simp: response_stream_def spawn_stream_reader_def view_spawn writables_single
      split: prod.splits response_body.splits)

lemma view_send: "timer_view e' = timer_view e \<Longrightarrow> timer_view (callback_send m e') = timer_view (callback_send m e)"
  by (simp add: timer_view_def callback_send_def)

lemma view_answer_fetch: "\<exists>m. answer_of m = Some i \<and> timer_view (answer_fetch i r token e) = timer_view (callback_send m e)"
proof (cases "\<exists>response. r = OrHttp (Inr response)")
  case True
  then obtain response where r: "r = OrHttp (Inr response)" by blast
  obtain e' stream where "response_stream ''ops_fetch'' (hr_body response) token e = (e', stream)" by fastforce
  from view_send [OF view_response_stream [OF this]] this show ?thesis
    by (auto simp: answer_fetch_def convert_fetch_result_to_stream_def r Let_def intro!: exI)
next
  case False
  have "\<exists>m. answer_of m = Some i \<and> timer_view (callback_send (FetchError i x) e) = timer_view (callback_send m e)" for x
    by (rule exI [of _ "FetchError i x"]) simp
  with False show ?thesis
    by (simp add: answer_fetch_def convert_fetch_result_to_stream_def split: operation_result.split sum.split)
qed

lemma view_answer_request:
  "\<exists>m. answer_of m = Some i \<and> timer_view (answer_binding_request i r token e) = timer_view (callback_send m e)"
proof (cases "\<exists>response. r = OrHttp (Inr response)")
  case True
  then obtain response where r: "r = OrHttp (Inr response)" by blast
  obtain e' stream where "response_stream ''binding_request'' (hr_body response) token e = (e', stream)" by fastforce
  from view_send [OF view_response_stream [OF this]] this show ?thesis
    by (auto simp: answer_binding_request_def r Let_def intro!: exI)
next
  case False
  have "\<exists>m. answer_of m = Some i \<and> timer_view (callback_send (FetchError i x) e) = timer_view (callback_send m e)" for x
    by (rule exI [of _ "FetchError i x"]) simp
  moreover have "\<exists>m. answer_of m = Some i \<and>
      timer_view (callback_send (BindingUpgrade i meta ws) (e\<lparr>el_next_socket := x, el_relays := y\<rparr>)) = timer_view (callback_send m e)"
    for meta ws x y
    by (rule exI [of _ "BindingUpgrade i meta ws"]) (simp add: timer_view_def callback_send_def)
  ultimately show ?thesis using False
    by (simp add: answer_binding_request_def Let_def split: operation_result.split sum.split)
qed

lemma view_answer_result: "\<exists>m. answer_of m = Some i \<and> timer_view (answer_result t i r e) = timer_view (callback_send m e)"
proof -
  have "\<exists>m. answer_of m = Some i \<and> timer_view (callback_send (binding_answer k i r) e) = timer_view (callback_send m e)" for k
    by (rule exI [of _ "binding_answer k i r"]) simp
  then show ?thesis by (simp add: answer_result_def view_answer_fetch view_answer_request split: task_kind.split)
qed

lemma silenced_answer_result:
  assumes "silenced i before e"
  shows "silenced i before (answer_result t j r e)"
proof -
  obtain m where "answer_of m = Some j" "timer_view (answer_result t j r e) = timer_view (callback_send m e)"
    using view_answer_result by blast
  then show ?thesis using silenced_answer [OF assms] silenced_view by blast
qed

lemma writable_listed:
  assumes "n < length ts" "tk_kind (ts ! n) = KWritable j s c"
  shows "j \<in> set (writables ts)"
proof -
  have "ts = take n ts @ [ts ! n] @ drop (Suc n) ts" using assms(1) by (simp add: id_take_nth_drop)
  then have "writables ts = writables (take n ts) @ writables [ts ! n] @ writables (drop (Suc n) ts)"
    using writables_append by metis
  then show ?thesis using assms(2) by (simp add: writables_single)
qed

lemma silenced_end_writable:
  assumes "silenced i before e" "n < length (el_tasks e)"
  shows "silenced i before (end_writable n e)"
proof (cases "tk_kind (el_tasks e ! n)")
  case (KWritable j s c)
  then have "j \<noteq> i" using assms writable_listed [OF assms(2)] unfolding silenced_def by blast
  moreover have "silenced i before (end_task n (e\<lparr>el_streams := sm\<rparr>))" for sm
    by (rule silenced_end) (use assms(1) in \<open>simp add: silenced_def\<close>)
  ultimately show ?thesis using silenced_end [OF assms(1), of n] KWritable
    by (auto simp: end_writable_def Let_def split: option.split intro!: silenced_send)
qed (use assms(1) in \<open>simp_all add: end_writable_def\<close>)

text \<open>A step of a run in which the guest does not schedule the id again.\<close>

definition unscheduled_step :: "'s object_host \<Rightarrow> callback_id \<Rightarrow> 's event_loop \<Rightarrow> 's event_loop \<Rightarrow> bool" where
  "unscheduled_step h i e e' \<longleftrightarrow> el_step h e e' \<and> (\<forall>m \<in> set (el_inbox e). \<not> schedules i m)"

lemma silenced_step:
  assumes "el_step h e e'" "\<forall>m \<in> set (el_inbox e). \<not> schedules i m" "silenced i before e"
  shows "silenced i before e'"
  using assms
proof (induction rule: el_step.induct)
  case (message e)
  show ?case
  proof (cases "el_inbox e")
    case (Cons m rest)
    have "silenced i before (e\<lparr>el_inbox := rest\<rparr>)" using message by (simp add: silenced_def)
    then have "silenced i before (handle_message m (e\<lparr>el_inbox := rest\<rparr>))" using message Cons by (simp add: silenced_message)
    then show ?thesis using Cons by (simp add: loop_message_def silenced_view [OF view_exit])
  qed (use message in \<open>simp add: loop_message_def silenced_def\<close>)
next
  case (timer e n)
  then show ?case by (simp add: silenced_timer)
next
  case (queue e)
  have "fired i (map (\<lambda>(j, r). ObjectStorageMsg j r) xs) = []" for xs by (induction xs) (auto simp: fired_def)
  then show ?case using queue
    by (simp add: silenced_def queue_run_def Let_def fired_def split: list.split)
next
  case (read n e j stream sm r describe)
  have "silenced i before ((end_task n e)\<lparr>el_streams := sm\<rparr>)"
    using silenced_end [OF read(7), of n] by (simp add: silenced_def)
  then show ?case by (rule silenced_answer) simp
next
  case (writable n e)
  then show ?case by (simp add: silenced_end_writable)
next
  case (answered n e j r)
  then show ?case by (simp add: silenced_answer_result silenced_end)
next
  case (cancelled n e j)
  show ?case by (rule silenced_answer [OF silenced_end [OF cancelled(5)]]) simp
next
  case (refused n e j)
  show ?case by (rule silenced_answer [OF silenced_end [OF refused(5)]]) simp
next
  case (other_task n e)
  then show ?case by (simp add: silenced_end)
next
  case (socket_event e ws m)
  show ?case by (rule silenced_send [OF socket_event(2)]) simp_all
qed (simp_all add: silenced_def guest_send_def)

section \<open>Properties\<close>

text \<open>A timer that the guest cleared does not fire.  From a state in which the clear of an id has been
  handled, with at most one pending timer of that id and no pending wait for a stream under it, in any
  run in which the guest does not schedule the id again, no callback of that id is sent, neither for a
  timeout nor for an interval.\<close>

lemma cleared_timer_is_silent:
  assumes "(unscheduled_step h i)\<^sup>*\<^sup>* e e'" "i \<in> el_cancelled e" "length (timers_with i (el_timers e)) \<le> 1"
    "i \<notin> set (writables (el_tasks e))"
  shows "fired i (el_callbacks e') = fired i (el_callbacks e)"
proof -
  have "silenced i (fired i (el_callbacks e)) e" using assms(2-) by (simp add: silenced_def)
  with assms(1) have "silenced i (fired i (el_callbacks e)) e'"
    by (induction rule: rtranclp_induct) (auto simp: unscheduled_step_def intro: silenced_step)
  then show ?thesis by (simp add: silenced_def)
qed

definition cleared_state :: "nat event_loop" where
  "cleared_state =
     handle_message (ClearTimer 3) (handle_message (ScheduleInterval 3 10) (run_event_loop_start 0 1))"

text \<open>C33: A loop that is told to shut down does not end when the last timer it waits for was cleared.
  There is a run of the loop in which the guest sets a timer, clears it and shuts the loop down, the
  timer comes due and is dropped, and the loop is still running with no timer left and no message to
  come; only the loss of all senders ends it then.  The branch for a cancelled timer continues past the
  check that ends the loop.\<close>

theorem shutdown_missed_after_cleared_timer:
  "\<exists>e. el_reachable failing_host (run_event_loop_start 0 1) e \<and> el_shutdown e \<and> el_timers e = [] \<and>
     el_inbox e = [] \<and> el_running e \<and> loop_message e = e"
proof -
  let ?e0 = "run_event_loop_start 0 1 :: nat event_loop"
  let ?e1 = "guest_send (ScheduleTimeout 3 0) ?e0"
  let ?e2 = "loop_message ?e1"
  let ?e3 = "guest_send (ClearTimer 3) ?e2"
  let ?e4 = "loop_message ?e3"
  let ?e5 = "guest_send Shutdown ?e4"
  let ?e6 = "loop_message ?e5"
  let ?e7 = "loop_timer 0 ?e6"
  have "el_step failing_host ?e0 ?e1" by (rule el_step.send) code_simp
  moreover have "el_step failing_host ?e1 ?e2" by (rule el_step.message) code_simp
  moreover have "el_step failing_host ?e2 ?e3" by (rule el_step.send) code_simp
  moreover have "el_step failing_host ?e3 ?e4" by (rule el_step.message) code_simp
  moreover have "el_step failing_host ?e4 ?e5" by (rule el_step.send) code_simp
  moreover have "el_step failing_host ?e5 ?e6" by (rule el_step.message) code_simp
  moreover have "el_step failing_host ?e6 ?e7" by (rule el_step.timer) code_simp+
  ultimately have reach: "el_reachable failing_host ?e0 ?e7" by (meson el_reach_step rtranclp.rtrancl_refl)
  have "el_shutdown ?e7" "el_timers ?e7 = []" "el_inbox ?e7 = []" "el_running ?e7" "el_inbox_open ?e7" by code_simp+
  then have "el_shutdown ?e7 \<and> el_timers ?e7 = [] \<and> el_inbox ?e7 = [] \<and> el_running ?e7 \<and> loop_message ?e7 = ?e7"
    by (simp add: loop_message_def)
  with reach show ?thesis by blast
qed

end
