(* ===== verification/Dispatch.thy ===== *)
theory Dispatch
  imports Event_Ledger
begin

text \<open>
  The dispatch of a callback message to the guest, from \<open>src/src/runtime/dispatch.rs\<close> and
  \<open>src/src/runtime/mod.rs\<close>, and the registration of callbacks from
  \<open>src/src/runtime/bindings/fetch.rs\<close> and \<open>src/src/runtime/bindings/streams.rs\<close>.  A guest function is a
  number; what it does when called is an argument; the calls made are recorded in order.  Callbacks that
  the guest registers while it runs are steps of their own: a dispatch takes its callbacks out of the
  tables before it calls them.
\<close>

section \<open>Model\<close>

datatype guest = Returned | Threw | Terminated

datatype guest_arg =
    ArgTimer callback_id
  | ArgError string
  | ArgMeta http_response_meta stream_id
  | ArgUpgrade http_response_meta ws_id
  | ArgChunk stream_chunk
  | ArgValue
  | ArgSocket ws_id
  | ArgThrown
  | ArgEvent ws_incoming

type_synonym guest_fn = nat
type_synonym guest_code = "guest_fn \<Rightarrow> guest_arg \<Rightarrow> guest"

record tables =
  tb_fetch :: "(callback_id, guest_fn) hash_map"
  tb_fetch_error :: "(callback_id, guest_fn) hash_map"
  tb_stream :: "(callback_id, guest_fn) hash_map"
  tb_ws_event :: "(ws_id, guest_fn) hash_map"
  tb_next_id :: callback_id
  tb_calls :: "(guest_fn \<times> guest_arg) list"

definition tables_new :: tables where
  "tables_new = \<lparr>tb_fetch = [], tb_fetch_error = [], tb_stream = [], tb_ws_event = [], tb_next_id = 1, tb_calls = []\<rparr>"

definition call_guest :: "guest_code \<Rightarrow> guest_fn \<Rightarrow> guest_arg \<Rightarrow> tables \<Rightarrow> tables \<times> guest" where
  "call_guest code f arg t = (t\<lparr>tb_calls := tb_calls t @ [(f, arg)]\<rparr>, code f arg)"

text \<open>A resolve that throws is followed by the reject, if there is one.\<close>

definition resolve_or_reject :: "guest_code \<Rightarrow> guest_fn \<Rightarrow> guest_arg \<Rightarrow> guest_fn option \<Rightarrow> tables \<Rightarrow> tables" where
  "resolve_or_reject code resolve arg reject t =
     (case call_guest code resolve arg t of
        (t, Threw) \<Rightarrow> (case reject of Some f \<Rightarrow> fst (call_guest code f ArgThrown t) | None \<Rightarrow> t)
      | (t, _) \<Rightarrow> t)"

definition dispatch_binding_callbacks ::
    "guest_code \<Rightarrow> callback_id \<Rightarrow> string option \<Rightarrow> guest_arg option \<Rightarrow> tables \<Rightarrow> tables" where
  "dispatch_binding_callbacks code i error_msg result_value t =
     (let resolve = hm_get (tb_fetch t) i;
          reject = hm_get (tb_fetch_error t) i;
          t = t\<lparr>tb_fetch := hm_remove i (tb_fetch t), tb_fetch_error := hm_remove i (tb_fetch_error t)\<rparr>
      in case error_msg of
           Some err \<Rightarrow> (case reject of Some f \<Rightarrow> fst (call_guest code f (ArgError err) t) | None \<Rightarrow> t)
         | None \<Rightarrow>
             (case (result_value, resolve) of
                (Some v, Some f) \<Rightarrow> resolve_or_reject code f v reject t
              | _ \<Rightarrow> t))"

text \<open>\<open>settle_invoke\<close>: \<open>json\<close> is whether the value fits a V8 string.\<close>

definition settle_invoke :: "guest_code \<Rightarrow> bool \<Rightarrow> callback_id \<Rightarrow> binding_result \<Rightarrow> tables \<Rightarrow> tables" where
  "settle_invoke code json i result t =
     (case result of
        BindingError message \<Rightarrow> dispatch_binding_callbacks code i (Some message) None t
      | BindingValue _ \<Rightarrow>
          if json then dispatch_binding_callbacks code i None (Some ArgValue) t
          else dispatch_binding_callbacks code i (Some ''invoke: the answer is too large'') None t)"

definition settle_binding :: "guest_code \<Rightarrow> callback_id \<Rightarrow> binding_result \<Rightarrow> tables \<Rightarrow> tables" where
  "settle_binding code i result t =
     (case result of
        BindingError err \<Rightarrow> dispatch_binding_callbacks code i (Some err) None t
      | BindingValue _ \<Rightarrow> dispatch_binding_callbacks code i None (Some ArgValue) t)"

definition dispatch_ws_event :: "guest_code \<Rightarrow> ws_id \<Rightarrow> ws_incoming \<Rightarrow> tables \<Rightarrow> tables" where
  "dispatch_ws_event code ws incoming t =
     (let callback = hm_get (tb_ws_event t) ws;
          t = (case incoming of InClosed _ _ \<Rightarrow> t\<lparr>tb_ws_event := hm_remove ws (tb_ws_event t)\<rparr> | _ \<Rightarrow> t)
      in case callback of None \<Rightarrow> t | Some f \<Rightarrow> fst (call_guest code f (ArgEvent incoming) t))"

definition dispatch_fetch_error :: "guest_code \<Rightarrow> callback_id \<Rightarrow> string \<Rightarrow> tables \<Rightarrow> tables" where
  "dispatch_fetch_error code i error_msg t =
     (let callback = hm_get (tb_fetch_error t) i;
          t = t\<lparr>tb_fetch := hm_remove i (tb_fetch t), tb_fetch_error := hm_remove i (tb_fetch_error t)\<rparr>
      in case callback of None \<Rightarrow> t | Some f \<Rightarrow> fst (call_guest code f (ArgError error_msg) t))"

definition dispatch_fetch_success :: "guest_code \<Rightarrow> callback_id \<Rightarrow> guest_arg \<Rightarrow> tables \<Rightarrow> tables" where
  "dispatch_fetch_success code i arg t =
     (let callback = hm_get (tb_fetch t) i;
          on_error = hm_get (tb_fetch_error t) i;
          t = t\<lparr>tb_fetch := hm_remove i (tb_fetch t), tb_fetch_error := hm_remove i (tb_fetch_error t)\<rparr>
      in case callback of None \<Rightarrow> t | Some f \<Rightarrow> resolve_or_reject code f arg on_error t)"

text \<open>An upgrade calls the resolve alone: the reject is dropped before the call.\<close>

definition dispatch_upgrade :: "guest_code \<Rightarrow> callback_id \<Rightarrow> guest_arg \<Rightarrow> tables \<Rightarrow> tables" where
  "dispatch_upgrade code i arg t =
     (let callback = hm_get (tb_fetch t) i;
          t = t\<lparr>tb_fetch := hm_remove i (tb_fetch t), tb_fetch_error := hm_remove i (tb_fetch_error t)\<rparr>
      in case callback of None \<Rightarrow> t | Some f \<Rightarrow> fst (call_guest code f arg t))"

definition dispatch_chunk :: "guest_code \<Rightarrow> callback_id \<Rightarrow> stream_chunk \<Rightarrow> tables \<Rightarrow> tables" where
  "dispatch_chunk code i chunk t =
     (let callback = hm_get (tb_stream t) i;
          t = t\<lparr>tb_stream := hm_remove i (tb_stream t)\<rparr>
      in case callback of None \<Rightarrow> t | Some f \<Rightarrow> fst (call_guest code f (ArgChunk chunk) t))"

definition d1_error_message :: "d1_error_kind \<Rightarrow> string \<Rightarrow> string" where
  "d1_error_message kind message =
     (case kind of D1Type \<Rightarrow> ''D1_TYPE_ERROR'' | D1Range \<Rightarrow> ''D1_RANGE_ERROR'' | _ \<Rightarrow> ''D1_ERROR'') @ '': '' @ message"

text \<open>\<open>execute_timer\<close> is the guest's timer function, None if it is not a function.\<close>

definition dispatch :: "guest_code \<Rightarrow> guest_fn option \<Rightarrow> bool \<Rightarrow> callback_message \<Rightarrow> tables \<Rightarrow> tables" where
  "dispatch code execute_timer json m t =
     (case m of
        ExecuteTimeout i \<Rightarrow> (case execute_timer of None \<Rightarrow> t | Some f \<Rightarrow> fst (call_guest code f (ArgTimer i) t))
      | ExecuteInterval i \<Rightarrow> (case execute_timer of None \<Rightarrow> t | Some f \<Rightarrow> fst (call_guest code f (ArgTimer i) t))
      | FetchError i error_msg \<Rightarrow> dispatch_fetch_error code i error_msg t
      | FetchStreamingSuccess i meta stream \<Rightarrow> dispatch_fetch_success code i (ArgMeta meta stream) t
      | BindingUpgrade i meta ws \<Rightarrow> dispatch_upgrade code i (ArgUpgrade meta ws) t
      | StreamChunkMsg i chunk \<Rightarrow> dispatch_chunk code i chunk t
      | StorageResult i r \<Rightarrow> settle_binding code i r t
      | KvResult i r \<Rightarrow> settle_binding code i r t
      | DatabaseResult i r \<Rightarrow> settle_binding code i r t
      | InvokeResult i r \<Rightarrow> settle_invoke code json i r t
      | D1ResultMsg i r \<Rightarrow>
          (case r of
             D1Error kind err \<Rightarrow> dispatch_binding_callbacks code i (Some (d1_error_message kind err)) None t
           | D1Value _ \<Rightarrow> dispatch_binding_callbacks code i None (Some ArgValue) t)
      | ObjectStorageMsg i r \<Rightarrow>
          (case r of
             ObjectStorageError message \<Rightarrow> dispatch_binding_callbacks code i (Some message) None t
           | ObjectStorageValue _ \<Rightarrow> dispatch_binding_callbacks code i None (Some ArgValue) t)
      | WebSocketConnected i ws \<Rightarrow> dispatch_binding_callbacks code i None (Some (ArgSocket ws)) t
      | WebSocketConnectError i error_msg \<Rightarrow> dispatch_binding_callbacks code i (Some error_msg) None t
      | WebSocketEvent ws incoming \<Rightarrow> dispatch_ws_event code ws incoming t)"

section \<open>Registration\<close>

definition register_callback :: "guest_fn \<Rightarrow> tables \<Rightarrow> tables \<times> callback_id" where
  "register_callback success t =
     (let i = tb_next_id t in (t\<lparr>tb_next_id := i + 1, tb_fetch := hm_insert i success (tb_fetch t)\<rparr>, i))"

definition register_callbacks_with_error :: "guest_fn \<Rightarrow> guest_fn \<Rightarrow> tables \<Rightarrow> tables \<times> callback_id" where
  "register_callbacks_with_error success failure t =
     (let (t, i) = register_callback success t in
      (t\<lparr>tb_fetch_error := hm_insert i failure (tb_fetch_error t)\<rparr>, i))"

definition register_stream_read :: "guest_fn \<Rightarrow> tables \<Rightarrow> tables \<times> callback_id" where
  "register_stream_read f t =
     (let i = tb_next_id t in (t\<lparr>tb_next_id := i + 1, tb_stream := hm_insert i f (tb_stream t)\<rparr>, i))"

text \<open>The part of \<open>reset\<close> that clears the tables; the counter keeps counting.\<close>

definition clear_tables :: "tables \<Rightarrow> tables" where
  "clear_tables t = t\<lparr>tb_fetch := [], tb_fetch_error := [], tb_stream := [], tb_ws_event := []\<rparr>"

section \<open>Lemmas\<close>

lemma hm_simps [simp]:
  "hm_get (hm_remove k m) q = (if q = k then None else hm_get m q)"
  "hm_get (hm_insert k v m) q = (if q = k then Some v else hm_get m q)"
  "hm_get [] q = None"
  using hash_table.get_remove hash_table.get_insert hash_table.get_empty by auto

lemmas dispatch_defs =
  dispatch_def dispatch_binding_callbacks_def settle_binding_def settle_invoke_def dispatch_fetch_error_def
  dispatch_fetch_success_def dispatch_upgrade_def dispatch_chunk_def dispatch_ws_event_def resolve_or_reject_def
  call_guest_def Let_def

text \<open>The shape of what a settling message does with a registered pair.\<close>

definition settles ::
    "guest_code \<Rightarrow> guest_fn \<Rightarrow> guest_fn \<Rightarrow> (guest_fn \<times> guest_arg) list \<Rightarrow> bool" where
  "settles code f g calls \<longleftrightarrow>
     (\<exists>arg. calls = [(f, arg)] \<and> code f arg \<noteq> Threw) \<or>
     (\<exists>arg. calls = [(f, arg), (g, ArgThrown)] \<and> code f arg = Threw) \<or>
     (\<exists>err. calls = [(g, ArgError err)])"

definition settled_tables :: "callback_id \<Rightarrow> tables \<Rightarrow> tables \<Rightarrow> bool" where
  "settled_tables i t t' \<longleftrightarrow>
     tb_fetch t' = hm_remove i (tb_fetch t) \<and> tb_fetch_error t' = hm_remove i (tb_fetch_error t) \<and>
     tb_stream t' = tb_stream t \<and> tb_ws_event t' = tb_ws_event t \<and> tb_next_id t' = tb_next_id t"

lemma resolve_settles:
  assumes "settled_tables i t u" "tb_calls u = tb_calls t"
  shows "settled_tables i t (resolve_or_reject code f arg (Some g) u) \<and>
    (\<exists>calls. tb_calls (resolve_or_reject code f arg (Some g) u) = tb_calls t @ calls \<and> settles code f g calls)"
  using assms
  by (cases "code f arg") (auto simp: resolve_or_reject_def call_guest_def settles_def settled_tables_def)

lemma reject_settles:
  assumes "settled_tables i t u" "tb_calls u = tb_calls t"
  shows "settled_tables i t (fst (call_guest code g (ArgError err) u)) \<and>
    (\<exists>calls. tb_calls (fst (call_guest code g (ArgError err) u)) = tb_calls t @ calls \<and> settles code f g calls)"
  using assms by (auto simp: call_guest_def settles_def settled_tables_def)

lemma binding_settles:
  assumes "hm_get (tb_fetch t) i = Some f" "hm_get (tb_fetch_error t) i = Some g" "error_msg \<noteq> None \<or> value_arg \<noteq> None"
  shows "settled_tables i t (dispatch_binding_callbacks code i error_msg value_arg t) \<and>
    (\<exists>calls. tb_calls (dispatch_binding_callbacks code i error_msg value_arg t) = tb_calls t @ calls \<and> settles code f g calls)"
proof -
  let ?u = "t\<lparr>tb_fetch := hm_remove i (tb_fetch t), tb_fetch_error := hm_remove i (tb_fetch_error t)\<rparr>"
  have u: "settled_tables i t ?u" "tb_calls ?u = tb_calls t" by (simp_all add: settled_tables_def)
  show ?thesis
    using assms resolve_settles [OF u] reject_settles [OF u, where f = f]
    by (cases error_msg) (auto simp: dispatch_binding_callbacks_def Let_def)
qed

lemma fetch_settles:
  assumes "hm_get (tb_fetch t) i = Some f" "hm_get (tb_fetch_error t) i = Some g"
  shows "settled_tables i t (dispatch_fetch_success code i arg t) \<and>
      (\<exists>calls. tb_calls (dispatch_fetch_success code i arg t) = tb_calls t @ calls \<and> settles code f g calls)"
    "settled_tables i t (dispatch_fetch_error code i err t) \<and>
      (\<exists>calls. tb_calls (dispatch_fetch_error code i err t) = tb_calls t @ calls \<and> settles code f g calls)"
proof -
  let ?u = "t\<lparr>tb_fetch := hm_remove i (tb_fetch t), tb_fetch_error := hm_remove i (tb_fetch_error t)\<rparr>"
  have u: "settled_tables i t ?u" "tb_calls ?u = tb_calls t" by (simp_all add: settled_tables_def)
  show "settled_tables i t (dispatch_fetch_success code i arg t) \<and>
      (\<exists>calls. tb_calls (dispatch_fetch_success code i arg t) = tb_calls t @ calls \<and> settles code f g calls)"
    "settled_tables i t (dispatch_fetch_error code i err t) \<and>
      (\<exists>calls. tb_calls (dispatch_fetch_error code i err t) = tb_calls t @ calls \<and> settles code f g calls)"
    using assms resolve_settles [OF u] reject_settles [OF u, where f = f]
    by (simp_all add: dispatch_fetch_success_def dispatch_fetch_error_def Let_def)
qed

text \<open>The tables hold no id below a bound: what \<open>reset\<close> leaves and registration keeps.\<close>

definition tables_from :: "callback_id \<Rightarrow> tables \<Rightarrow> bool" where
  "tables_from n t \<longleftrightarrow> n \<le> tb_next_id t \<and>
     (\<forall>i. hm_get (tb_fetch t) i \<noteq> None \<or> hm_get (tb_fetch_error t) i \<noteq> None \<or> hm_get (tb_stream t) i \<noteq> None \<longrightarrow> n \<le> i)"

text \<open>What happens to the tables after a reset: registrations and dispatches.\<close>

datatype table_op = Register guest_fn guest_fn | RegisterRead guest_fn | Dispatch callback_message

definition table_step :: "guest_code \<Rightarrow> guest_fn option \<Rightarrow> table_op \<Rightarrow> tables \<Rightarrow> tables" where
  "table_step code execute_timer op t =
     (case op of
        Register f g \<Rightarrow> fst (register_callbacks_with_error f g t)
      | RegisterRead f \<Rightarrow> fst (register_stream_read f t)
      | Dispatch m \<Rightarrow> dispatch code execute_timer True m t)"

definition shrinks :: "tables \<Rightarrow> tables \<Rightarrow> bool" where
  "shrinks t t' \<longleftrightarrow> tb_next_id t' = tb_next_id t \<and>
     (\<forall>i. (hm_get (tb_fetch t') i \<noteq> None \<longrightarrow> hm_get (tb_fetch t) i \<noteq> None) \<and>
          (hm_get (tb_fetch_error t') i \<noteq> None \<longrightarrow> hm_get (tb_fetch_error t) i \<noteq> None) \<and>
          (hm_get (tb_stream t') i \<noteq> None \<longrightarrow> hm_get (tb_stream t) i \<noteq> None))"

lemma shrinks_binding: "shrinks t (dispatch_binding_callbacks code i e v t)"
  by (auto simp: shrinks_def dispatch_binding_callbacks_def resolve_or_reject_def call_guest_def Let_def
      split: option.split guest.split)

lemma shrinks_dispatch: "shrinks t (dispatch code execute_timer json m t)"
proof (cases m)
  case (WebSocketEvent ws incoming)
  then show ?thesis
    by (cases incoming) (auto simp: shrinks_def dispatch_def dispatch_ws_event_def call_guest_def Let_def split: option.split)
qed (auto simp: dispatch_def shrinks_binding settle_binding_def settle_invoke_def
      split: binding_result.split d1_result.split object_storage_result.split,
    auto simp: shrinks_def dispatch_fetch_error_def dispatch_fetch_success_def dispatch_upgrade_def dispatch_chunk_def
      resolve_or_reject_def call_guest_def Let_def split: option.split guest.split)

lemma tables_from_shrinks: "tables_from n t \<Longrightarrow> shrinks t t' \<Longrightarrow> tables_from n t'"
  unfolding tables_from_def shrinks_def by metis

text \<open>The ids that a number of operations can register stay clear of the wrap-around.\<close>

lemma table_step_from:
  assumes "tables_from n t" "unat (tb_next_id t) + 1 < 2 ^ 64"
  shows "tables_from n (table_step code ex op t) \<and> unat (tb_next_id (table_step code ex op t)) \<le> unat (tb_next_id t) + 1"
proof (cases op)
  case (Dispatch m)
  then show ?thesis
    using tables_from_shrinks [OF assms(1) shrinks_dispatch] shrinks_dispatch [of t code ex True m]
    by (simp add: table_step_def shrinks_def)
next
  case (Register f g)
  have "unat (tb_next_id t + 1) = unat (tb_next_id t) + 1" using assms(2) by (simp add: unat_plus_one)
  then have "tb_next_id t \<le> tb_next_id t + 1" by (simp add: word_le_nat_alt)
  then show ?thesis using Register assms(1) \<open>unat (tb_next_id t + 1) = _\<close> order_trans
    by (fastforce simp: table_step_def register_callbacks_with_error_def register_callback_def Let_def tables_from_def)
next
  case (RegisterRead f)
  have "unat (tb_next_id t + 1) = unat (tb_next_id t) + 1" using assms(2) by (simp add: unat_plus_one)
  then have "tb_next_id t \<le> tb_next_id t + 1" by (simp add: word_le_nat_alt)
  then show ?thesis using RegisterRead assms(1) \<open>unat (tb_next_id t + 1) = _\<close> order_trans
    by (fastforce simp: table_step_def register_stream_read_def Let_def tables_from_def)
qed

lemma table_run_from:
  assumes "tables_from n t" "unat (tb_next_id t) + length ops < 2 ^ 64"
  shows "tables_from n (fold (table_step code ex) ops t)"
  using assms
proof (induction ops arbitrary: t)
  case (Cons op ops)
  from table_step_from [OF Cons.prems(1), of code ex op] Cons.prems(2)
  have "tables_from n (table_step code ex op t)" "unat (tb_next_id (table_step code ex op t)) \<le> unat (tb_next_id t) + 1"
    by auto
  with Cons.IH Cons.prems(2) show ?case by simp
qed simp

lemma tables_from_clear: "tables_from (tb_next_id t) (clear_tables t)"
  by (simp add: tables_from_def clear_tables_def)

lemma unregistered_dispatch:
  assumes "hm_get (tb_fetch t) i = None" "hm_get (tb_fetch_error t) i = None" "answer_of m = Some i"
    "hm_get (tb_stream t) i = None \<or> (\<forall>chunk. m \<noteq> StreamChunkMsg i chunk)"
  shows "tb_calls (dispatch code ex json m t) = tb_calls t"
  using assms
  by (cases m)
    (auto simp: answer_of_def dispatch_defs split: option.split binding_result.split d1_result.split object_storage_result.split)

lemma stale_dispatch:
  assumes "tables_from n t" "answer_of m = Some i" "i < n"
  shows "tb_calls (dispatch code ex json m t) = tb_calls t"
proof -
  have "hm_get (tb_fetch t) i = None" "hm_get (tb_fetch_error t) i = None" "hm_get (tb_stream t) i = None"
    using assms(1,3) unfolding tables_from_def by (metis leD)+
  then show ?thesis using assms(2) by (simp add: unregistered_dispatch)
qed

section \<open>Properties\<close>

text \<open>An answer settles its promise, once.  For every message that answers an operation whose resolve
  and reject are registered, other than an upgrade or a stream chunk: both leave the tables and no
  other entry changes; and the guest is called either through the resolve alone, which did not throw,
  or through the resolve, which threw, and then the reject, or through the reject alone.\<close>

lemma answer_settles_promise:
  assumes "answer_of m = Some i" "hm_get (tb_fetch t) i = Some f" "hm_get (tb_fetch_error t) i = Some g"
    "\<forall>chunk. m \<noteq> StreamChunkMsg i chunk" "\<forall>meta ws. m \<noteq> BindingUpgrade i meta ws"
  shows "settled_tables i t (dispatch code ex json m t) \<and>
    (\<exists>calls. tb_calls (dispatch code ex json m t) = tb_calls t @ calls \<and> settles code f g calls)"
  using assms(1,4,5) binding_settles [OF assms(2,3), of _ _ code] fetch_settles [OF assms(2,3), of code]
  by (cases m)
    (auto simp: answer_of_def dispatch_def settle_binding_def settle_invoke_def
      split: binding_result.split d1_result.split object_storage_result.split)

text \<open>After the tables are cleared, an answer to an id from before calls nothing: the counter of ids keeps
  counting.\<close>

lemma late_answer_silent:
  assumes "answer_of m = Some i" "i < tb_next_id t" "unat (tb_next_id t) + length ops < 2 ^ 64"
  shows "tb_calls (dispatch code ex json m (fold (table_step code ex) ops (clear_tables t))) =
    tb_calls (fold (table_step code ex) ops (clear_tables t))"
proof -
  have "tb_next_id (clear_tables t) = tb_next_id t" by (simp add: clear_tables_def)
  then have "tables_from (tb_next_id t) (fold (table_step code ex) ops (clear_tables t))"
    using table_run_from [OF tables_from_clear] assms(3) by simp
  then show ?thesis by (rule stale_dispatch [OF _ assms(1,2)])
qed

text \<open>C37: A binding response that hands over a socket can leave its promise unsettled.  If the guest's
  resolve throws on it, the reject is not called, although it is called for every other answer whose
  resolve throws; and both have left the tables, so no later message can settle the promise.\<close>

theorem thrown_upgrade_never_settles:
  assumes "hm_get (tb_fetch t) i = Some f" "hm_get (tb_fetch_error t) i = Some g" "code f (ArgUpgrade meta ws) = Threw"
    "answer_of m = Some i" "\<forall>chunk. m \<noteq> StreamChunkMsg i chunk"
  shows "tb_calls (dispatch code ex json (BindingUpgrade i meta ws) t) = tb_calls t @ [(f, ArgUpgrade meta ws)] \<and>
    tb_calls (dispatch code ex json m (dispatch code ex json (BindingUpgrade i meta ws) t)) =
    tb_calls (dispatch code ex json (BindingUpgrade i meta ws) t)"
proof -
  let ?t = "dispatch code ex json (BindingUpgrade i meta ws) t"
  have "hm_get (tb_fetch ?t) i = None" "hm_get (tb_fetch_error ?t) i = None" "tb_calls ?t = tb_calls t @ [(f, ArgUpgrade meta ws)]"
    using assms(1) by (simp_all add: dispatch_def dispatch_upgrade_def call_guest_def Let_def)
  then show ?thesis using unregistered_dispatch [of ?t i m] assms(4,5) by simp
qed

theorem thrown_upgrade_never_settles_witness:
  "\<exists>meta. tb_calls (dispatch (\<lambda>_ _. Threw) None True (BindingUpgrade 1 meta 7)
       (fst (register_callbacks_with_error 10 20 tables_new))) = [(10, ArgUpgrade meta 7)]"
proof -
  let ?t = "fst (register_callbacks_with_error 10 20 tables_new)"
  let ?meta = "\<lparr>hm_status = 101, hm_status_text = [], hm_headers = 0\<rparr>"
  have "answer_of (FetchError 1 []) = Some 1" by (simp add: answer_of_def)
  moreover have "hm_get (tb_fetch ?t) 1 = Some 10" "hm_get (tb_fetch_error ?t) 1 = Some 20" "tb_calls ?t = []" by code_simp+
  ultimately show ?thesis
    using thrown_upgrade_never_settles [of ?t 1 10 20 "\<lambda>_ _. Threw" ?meta 7 "FetchError 1 []" None True] by auto
qed

end
