(* ===== verification/Execution_Context.thy ===== *)
theory Execution_Context
  imports Async_Waiter Guards Dispatch
begin

text \<open>
  The execution context of a request, from \<open>src/src/execution_context.rs\<close> and the exit conditions of
  \<open>src/src/execution_helpers.rs\<close>: one poll of \<open>await_event_loop\<close> on every path, the start and the end of
  \<open>exec\<close> and \<open>drain_waituntil\<close>, and \<open>reset\<close>.  What the guest's JavaScript does when it runs is an
  argument: the promises it settles, the limits it hits and the messages that arrive meanwhile.
\<close>

section \<open>Exit conditions\<close>

datatype promise_state = PromisePending | PromiseFulfilled | PromiseRejected

text \<open>The handle of the event in flight; a promise is None if the handle does not have it.\<close>

record handle =
  hd_answer :: "promise_state option"
  hd_done :: "promise_state option"
  hd_streamed :: "promise_state option"
  hd_stream :: "stream_id option"

datatype event_loop_exit = ResponseReady | HandlerComplete | StreamsComplete | FullyComplete | SocketClosed

definition settled :: "promise_state option \<Rightarrow> bool" where
  "settled p \<longleftrightarrow> p \<noteq> Some PromisePending"

definition check_exit_condition :: "handle option \<Rightarrow> event_loop_exit \<Rightarrow> bool" where
  "check_exit_condition h condition =
     (case h of
        None \<Rightarrow> True
      | Some h \<Rightarrow>
          (case condition of
             ResponseReady \<Rightarrow> settled (hd_answer h)
           | HandlerComplete \<Rightarrow> settled (hd_done h)
           | StreamsComplete \<Rightarrow> settled (hd_streamed h)
           | FullyComplete \<Rightarrow> settled (hd_done h) \<and> settled (hd_streamed h)
           | SocketClosed \<Rightarrow> True))"

definition get_completion_state :: "handle option \<Rightarrow> bool \<times> bool" where
  "get_completion_state h =
     (case h of None \<Rightarrow> (True, False) | Some h \<Rightarrow> (settled (hd_done h), \<not> settled (hd_streamed h)))"

text \<open>The default grace period, in milliseconds.\<close>

definition abort_config_default :: nat where
  "abort_config_default = 100"

section \<open>State\<close>

datatype wall_clock = WallEvent timeout_guard | WallPerTurn u64

record budget =
  bg_wall :: timeout_guard
  bg_cpu :: "cpu_enforcer option"

text \<open>\<open>xc_abort_at\<close> and \<open>xc_hit\<close> are the variables of the loop that outlive a poll.  \<open>xc_rx_waker\<close> is
  whether the callback channel holds the loop's waker, \<open>xc_woken\<close> whether the loop has been woken
  since the poll began, and \<open>xc_timers\<close> the instants at which a timer wakes it.\<close>

record exec_context =
  xc_waiter :: "async_waiter option"
  xc_turn :: turn
  xc_watchdog :: watchdog
  xc_cpu :: "cpu_enforcer option"
  xc_memory_hit :: bool
  xc_aborted :: bool
  xc_request_id :: u64
  xc_pending :: "handle option"
  xc_socket :: "ws_id option"
  xc_budget :: "budget option"
  xc_hit :: bool
  xc_abort_at :: "instant option"
  xc_inbox :: "callback_message list"
  xc_inbox_open :: bool
  xc_rx_waker :: bool
  xc_woken :: bool
  xc_timers :: "instant list"
  xc_streams :: stream_manager
  xc_tables :: tables
  xc_sent :: "scheduler_message list"

text \<open>What a run of JavaScript does: the handle and socket dispatchers it leaves, whether V8 is being
  terminated, the limits it hits, the deadlines that fire and the messages that arrive meanwhile.\<close>

record js_effect =
  jf_pending :: "handle option"
  jf_ws_event :: "(ws_id, nat) hash_map"
  jf_terminating :: bool
  jf_memory :: bool
  jf_cpu :: bool
  jf_fired :: "nat list"
  jf_arrivals :: "callback_message list"

record poll_env =
  pe_waker :: waker
  pe_now :: instant
  pe_guard_now :: instant
  pe_cpu_start :: "nat option"
  pe_cpu_end :: "nat option"
  pe_js :: "nat \<Rightarrow> callback_message list \<Rightarrow> js_effect"
  pe_disconnect :: js_effect

datatype 'a poll = PollPending | PollReady 'a

definition EXECUTION_TERMINATED :: string where
  "EXECUTION_TERMINATED = ''Execution terminated''"

definition EVENT_LOOP_CLOSED :: string where
  "EVENT_LOOP_CLOSED = ''Event loop channel closed''"

section \<open>Running JavaScript\<close>

text \<open>Messages that arrive wake the loop if the channel holds its waker.\<close>

definition arrive :: "callback_message list \<Rightarrow> exec_context \<Rightarrow> exec_context" where
  "arrive ms c =
     (if ms = [] then c
      else c\<lparr>xc_inbox := xc_inbox c @ ms, xc_woken := (xc_woken c \<or> xc_rx_waker c), xc_rx_waker := False\<rparr>)"

definition apply_js :: "js_effect \<Rightarrow> exec_context \<Rightarrow> exec_context" where
  "apply_js f c =
     arrive (jf_arrivals f)
       (c\<lparr>xc_pending := (case xc_pending c of None \<Rightarrow> None | Some _ \<Rightarrow> jf_pending f),
          xc_tables := (xc_tables c)\<lparr>tb_ws_event := jf_ws_event f\<rparr>,
          xc_turn := (xc_turn c)\<lparr>tn_terminating := (tn_terminating (xc_turn c) \<or> jf_terminating f),
                                 tn_memory_limit_hit := (tn_memory_limit_hit (xc_turn c) \<or> jf_memory f)\<rparr>,
          xc_cpu := map_option (\<lambda>ce. ce\<lparr>ce_terminated := (ce_terminated ce \<or> jf_cpu f)\<rparr>) (xc_cpu c),
          xc_watchdog := (xc_watchdog c)\<lparr>wd_flags := fold (\<lambda>i fs. fs[i := True]) (jf_fired f) (wd_flags (xc_watchdog c))\<rparr>\<rparr>)"

text \<open>\<open>drain_and_process\<close>: the channel is polled until it is pending, which leaves the waker in it, or
  closed; then every message taken is processed, with V8's tasks and the microtasks.\<close>

definition drain_and_process :: "poll_env \<Rightarrow> nat \<Rightarrow> exec_context \<Rightarrow> exec_context \<times> (string, nat) result" where
  "drain_and_process env round c =
     (if \<not> xc_inbox_open c then (c\<lparr>xc_inbox := []\<rparr>, Err EVENT_LOOP_CLOSED)
      else (let taken = xc_inbox c in
            (apply_js (pe_js env round taken) (c\<lparr>xc_inbox := [], xc_rx_waker := True\<rparr>), Ok (length taken))))"

definition socket_open :: "exec_context \<Rightarrow> bool" where
  "socket_open c = (case xc_socket c of None \<Rightarrow> False | Some ws \<Rightarrow> hm_get (tb_ws_event (xc_tables c)) ws \<noteq> None)"

definition check_exit_with_abort ::
    "poll_env \<Rightarrow> event_loop_exit \<Rightarrow> nat option \<Rightarrow> exec_context \<Rightarrow> exec_context \<times> bool" where
  "check_exit_with_abort env condition abort_config c =
     (if condition = SocketClosed then (c, \<not> socket_open c)
      else
        (let base_exit = check_exit_condition (xc_pending c) condition in
         case abort_config of
           None \<Rightarrow> (c, base_exit)
         | Some grace_period \<Rightarrow>
             (let (request_complete, streaming) = get_completion_state (xc_pending c);
                  stream = (case xc_pending c of None \<Rightarrow> None | Some h \<Rightarrow> hd_stream h);
                  gone = (case stream of None \<Rightarrow> False | Some s \<Rightarrow> \<not> has_sender s (xc_streams c));
                  c = (if streaming \<and> xc_abort_at c = None \<and> gone
                       then apply_js (pe_disconnect env) (c\<lparr>xc_abort_at := Some (pe_now env)\<rparr>) else c);
                  grace_exceeded = (case xc_abort_at c of None \<Rightarrow> False | Some t \<Rightarrow> grace_period < pe_now env - t)
              in (c, base_exit \<or> (request_complete \<and> grace_exceeded)))))"

section \<open>One poll of the event loop\<close>

definition wall_triggered :: "wall_clock \<Rightarrow> exec_context \<Rightarrow> bool" where
  "wall_triggered wall c =
     (case wall of WallEvent g \<Rightarrow> was_triggered g (xc_watchdog c) | WallPerTurn _ \<Rightarrow> xc_hit c)"

definition cpu_terminated :: "exec_context \<Rightarrow> bool" where
  "cpu_terminated c = (case xc_cpu c of None \<Rightarrow> False | Some ce \<Rightarrow> ce_terminated ce)"

definition is_terminated :: "wall_clock \<Rightarrow> exec_context \<Rightarrow> bool" where
  "is_terminated wall c \<longleftrightarrow>
     tn_terminating (xc_turn c) \<or> xc_memory_hit c \<or> wall_triggered wall c \<or> cpu_terminated c"

definition MAX_COALESCE_ROUNDS :: nat where
  "MAX_COALESCE_ROUNDS = 4"

datatype round_outcome = RoundExit | RoundError string | RoundBreak

fun poll_rounds ::
    "poll_env \<Rightarrow> event_loop_exit \<Rightarrow> nat option \<Rightarrow> nat \<Rightarrow> exec_context \<Rightarrow> exec_context \<times> round_outcome" where
  "poll_rounds env condition abort_config 0 c = (c, RoundBreak)"
| "poll_rounds env condition abort_config (Suc left) c =
     (case drain_and_process env (MAX_COALESCE_ROUNDS - Suc left) c of
        (c, Inl e) \<Rightarrow> (c, RoundError e)
      | (c, Inr processed) \<Rightarrow>
          (case check_exit_with_abort env condition abort_config c of
             (c, True) \<Rightarrow> (c, RoundExit)
           | (c, False) \<Rightarrow>
               if processed = 0 \<or> left = 0 then (c, RoundBreak) else poll_rounds env condition abort_config left c))"

text \<open>The turn guard drops on every path out of a turn.\<close>

definition begin_guard :: "poll_env \<Rightarrow> exec_context \<Rightarrow> exec_context" where
  "begin_guard env c =
     (let (t, cpu) = guard_begin (xc_request_id c) (pe_cpu_start env) (xc_turn c) (xc_cpu c) in
      c\<lparr>xc_turn := t, xc_cpu := cpu\<rparr>)"

definition drop_guard :: "poll_env \<Rightarrow> exec_context \<Rightarrow> exec_context" where
  "drop_guard env c =
     (let (t, cpu, hit) = guard_drop (pe_cpu_end env) (xc_turn c) (xc_cpu c) (xc_memory_hit c) in
      c\<lparr>xc_turn := t, xc_cpu := cpu, xc_memory_hit := hit\<rparr>)"

definition unlock_waiter :: "exec_context \<Rightarrow> exec_context" where
  "unlock_waiter c = c\<lparr>xc_waiter := map_option (\<lambda>w. fst (unlock w)) (xc_waiter c)\<rparr>"

text \<open>A guard of a turn of its own, for a socket: it exists from the start of the turn to its end.\<close>

definition begin_turn_wall :: "poll_env \<Rightarrow> wall_clock \<Rightarrow> exec_context \<Rightarrow> exec_context \<times> timeout_guard option" where
  "begin_turn_wall env wall c =
     (case wall of
        WallEvent _ \<Rightarrow> (c, None)
      | WallPerTurn timeout_ms \<Rightarrow>
          (let c = c\<lparr>xc_cpu := map_option ce_refill (xc_cpu c)\<rparr>;
               (wd, g, _) = timeout_guard_new (pe_now env) (pe_guard_now env) 0 (xc_request_id c) timeout_ms (xc_watchdog c)
           in (c\<lparr>xc_watchdog := wd\<rparr>, Some g)))"

definition drop_turn_wall :: "timeout_guard option \<Rightarrow> exec_context \<Rightarrow> exec_context" where
  "drop_turn_wall g c = (case g of None \<Rightarrow> c | Some g \<Rightarrow> c\<lparr>xc_watchdog := tg_drop g (xc_watchdog c)\<rparr>)"

definition take_hit :: "timeout_guard option \<Rightarrow> exec_context \<Rightarrow> exec_context" where
  "take_hit g c =
     (case g of None \<Rightarrow> c | Some g \<Rightarrow> if was_triggered g (xc_watchdog c) then c\<lparr>xc_hit := True\<rparr> else c)"

text \<open>A turn, once the fair queue has let the request in.\<close>

definition poll_turn ::
    "poll_env \<Rightarrow> wall_clock \<Rightarrow> event_loop_exit \<Rightarrow> nat option \<Rightarrow> exec_context \<Rightarrow> exec_context \<times> (string, unit) result poll" where
  "poll_turn env wall condition abort_config c =
     (let (c, turn_wall) = begin_turn_wall env wall c;
          c = begin_guard env c;
          leave = (\<lambda>c. drop_turn_wall turn_wall (drop_guard env (unlock_waiter c)))
      in if is_terminated wall c then (leave c, PollReady (Err EXECUTION_TERMINATED))
         else (case poll_rounds env condition abort_config MAX_COALESCE_ROUNDS c of
             (c, RoundError e) \<Rightarrow> (leave c, PollReady (Err e))
           | (c, RoundExit) \<Rightarrow> (leave c, PollReady (Ok ()))
           | (c, RoundBreak) \<Rightarrow>
               (let c = take_hit turn_wall (drop_guard env c);
                    c = drop_turn_wall turn_wall c;
                    terminated = is_terminated wall c;
                    c = unlock_waiter c
                in if terminated then (c, PollReady (Err EXECUTION_TERMINATED)) else (c, PollPending))))"

definition event_deadline :: "wall_clock \<Rightarrow> instant option" where
  "event_deadline wall = (case wall of WallEvent g \<Rightarrow> tg_deadline g | WallPerTurn _ \<Rightarrow> None)"

definition expire_event :: "wall_clock \<Rightarrow> exec_context \<Rightarrow> exec_context" where
  "expire_event wall c =
     (case wall of WallEvent g \<Rightarrow> c\<lparr>xc_watchdog := tg_expire g (xc_watchdog c)\<rparr> | WallPerTurn _ \<Rightarrow> c)"

definition poll_event_loop ::
    "poll_env \<Rightarrow> wall_clock \<Rightarrow> event_loop_exit \<Rightarrow> nat option \<Rightarrow> exec_context \<Rightarrow> exec_context \<times> (string, unit) result poll" where
  "poll_event_loop env wall condition abort_config c =
     (let c = c\<lparr>xc_woken := False, xc_timers := (case event_deadline wall of None \<Rightarrow> [] | Some at \<Rightarrow> [at])\<rparr> in
      if (case event_deadline wall of None \<Rightarrow> False | Some at \<Rightarrow> at \<le> pe_now env)
      then (expire_event wall c, PollReady (Err EXECUTION_TERMINATED))
      else (case xc_waiter c of
          None \<Rightarrow> poll_turn env wall condition abort_config c
        | Some w \<Rightarrow>
            (case try_lock (pe_waker env) w of
               (w, False) \<Rightarrow> (c\<lparr>xc_waiter := Some w\<rparr>, PollPending)
             | (w, True) \<Rightarrow> poll_turn env wall condition abort_config (c\<lparr>xc_waiter := Some w\<rparr>))))"

text \<open>A poll of the phases that trigger the handler and read its answer: one turn that runs a piece of
  JavaScript and answers its result.  A handler that was triggered leaves its handle.\<close>

definition poll_phase ::
    "poll_env \<Rightarrow> js_effect \<Rightarrow> (string, handle option) result \<Rightarrow> exec_context \<Rightarrow> exec_context \<times> (string, unit) result poll" where
  "poll_phase env js answer c =
     (let turn = (\<lambda>c.
            (let c = apply_js js (begin_guard env c);
                 c = (case answer of Inr (Some h) \<Rightarrow> c\<lparr>xc_pending := Some h\<rparr> | _ \<Rightarrow> c)
             in (drop_guard env (unlock_waiter c), PollReady (map_sum id (\<lambda>_. ()) answer))))
      in case xc_waiter c of
           None \<Rightarrow> turn c
         | Some w \<Rightarrow>
             (case try_lock (pe_waker env) w of
                (w, False) \<Rightarrow> (c\<lparr>xc_waiter := Some w\<rparr>, PollPending)
              | (w, True) \<Rightarrow> turn (c\<lparr>xc_waiter := Some w\<rparr>)))"

section \<open>The outcome of an event\<close>

definition MAX_ITERATIONS :: string where
  "MAX_ITERATIONS = ''Max event loop iterations''"

text \<open>The guards come first, in the order of their priority; the flag of an abort comes before the result.\<close>

definition check_termination_reason ::
    "(string, unit) result \<Rightarrow> bool \<Rightarrow> bool \<Rightarrow> exec_context \<Rightarrow> (termination_reason, unit) result" where
  "check_termination_reason r cpu_limit_hit wall_timeout_hit c =
     (if cpu_limit_hit then Err CpuTimeLimit
      else if wall_timeout_hit then Err WallClockTimeout
      else if xc_memory_hit c then Err MemoryLimit
      else if xc_aborted c then Err Aborted
      else case r of
        Inr _ \<Rightarrow> Ok ()
      | Inl e \<Rightarrow> if sublist MAX_ITERATIONS e then Err MaxIterationsReached else Err (Exception e))"

text \<open>What an event starts with: its id, the readings of the clocks, whether the timer and the CPU
  watchdog could be set up, and the limits.\<close>

record event_env =
  ev_request_id :: u64
  ev_now :: instant
  ev_guard_now :: instant
  ev_cpu_clock :: "nat option"
  ev_timer_created :: bool
  ev_watchdog_alive :: bool
  ev_max_wall_ms :: u64
  ev_max_cpu_ms :: u64

definition new_wall_guard :: "event_env \<Rightarrow> exec_context \<Rightarrow> exec_context \<times> timeout_guard" where
  "new_wall_guard ev c =
     (let (wd, g, _) = timeout_guard_new (ev_now ev) (ev_guard_now ev) 0 (xc_request_id c) (ev_max_wall_ms ev) (xc_watchdog c)
      in (c\<lparr>xc_watchdog := wd\<rparr>, g))"

definition new_cpu_guard :: "event_env \<Rightarrow> cpu_enforcer option" where
  "new_cpu_guard ev =
     map_option (target_new (ev_watchdog_alive ev)) (cpu_enforcer_new (ev_cpu_clock ev) (ev_timer_created ev) (ev_max_cpu_ms ev))"

definition drop_wall_guard :: "timeout_guard \<Rightarrow> exec_context \<Rightarrow> exec_context" where
  "drop_wall_guard g c = c\<lparr>xc_watchdog := tg_drop g (xc_watchdog c)\<rparr>"

definition drop_budget :: "exec_context \<Rightarrow> exec_context" where
  "drop_budget c = (case xc_budget c of None \<Rightarrow> c | Some b \<Rightarrow> drop_wall_guard (bg_wall b) (c\<lparr>xc_budget := None\<rparr>))"

definition send_scheduler :: "scheduler_message \<Rightarrow> exec_context \<Rightarrow> exec_context" where
  "send_scheduler m c = c\<lparr>xc_sent := xc_sent c @ [m]\<rparr>"

definition begin_request_scope :: "nat option \<Rightarrow> exec_context \<Rightarrow> exec_context" where
  "begin_request_scope abort c = send_scheduler (BeginRequest abort) c"

text \<open>An event that was already taken from its task is an error.\<close>

datatype event = EventFetch bool | EventTask bool

definition event_taken :: "event \<Rightarrow> string option" where
  "event_taken ev =
     (case ev of
        EventFetch present \<Rightarrow> if present then None else Some ''FetchInit already consumed''
      | EventTask present \<Rightarrow> if present then None else Some ''TaskInit already consumed'')"

definition exec_begin :: "event_env \<Rightarrow> exec_context \<Rightarrow> exec_context \<times> (termination_reason, timeout_guard) result" where
  "exec_begin ev c =
     (if xc_aborted c then (c, Err Aborted)
      else
        (let c = c\<lparr>xc_request_id := ev_request_id ev, xc_memory_hit := False, xc_socket := None\<rparr>;
             (c, wall) = new_wall_guard ev c;
             c = c\<lparr>xc_cpu := new_cpu_guard ev\<rparr>
         in if cpu_terminated c then (drop_wall_guard wall (c\<lparr>xc_cpu := None\<rparr>), Err CpuTimeLimit)
            else (c, Ok wall)))"

text \<open>A socket that the response handed over and the guest reads: each of its turns has a deadline and
  a budget of its own, and what follows gets a new deadline.\<close>

definition exec_socket ::
    "event_env \<Rightarrow> (exec_context \<Rightarrow> exec_context \<times> (string, unit) result) \<Rightarrow> timeout_guard \<Rightarrow> (string, unit) result \<Rightarrow>
       exec_context \<Rightarrow> exec_context \<times> timeout_guard \<times> (string, unit) result \<times> bool" where
  "exec_socket ev socket_loop wall r c =
     (if is_ok r \<and> socket_open c
      then (let c = drop_wall_guard wall (c\<lparr>xc_hit := False\<rparr>);
                (c, s) = socket_loop c;
                r = (case s of Inl e \<Rightarrow> Inl e | Inr _ \<Rightarrow> r);
                hit = xc_hit c;
                (c, wall) = new_wall_guard ev c
            in (c, wall, r, hit))
      else (c, wall, r, False))"

definition close_unread_socket :: "exec_context \<Rightarrow> exec_context" where
  "close_unread_socket c =
     (case xc_socket c of
        None \<Rightarrow> c
      | Some ws \<Rightarrow> if socket_open c then c else send_scheduler (WebSocketClose ws 1000 []) c)"

definition exec_end ::
    "timeout_guard \<Rightarrow> (string, unit) result \<Rightarrow> bool \<Rightarrow> exec_context \<Rightarrow> exec_context \<times> (termination_reason, unit) result" where
  "exec_end wall r socket_wall_hit c =
     (let outcome = check_termination_reason r (cpu_terminated c) (socket_wall_hit \<or> was_triggered wall (xc_watchdog c)) c in
      if is_ok outcome
      then ((drop_budget c)\<lparr>xc_budget := Some \<lparr>bg_wall = wall, bg_cpu = xc_cpu c\<rparr>, xc_cpu := None\<rparr>, outcome)
      else (drop_wall_guard wall (c\<lparr>xc_cpu := None\<rparr>), outcome))"

text \<open>\<open>exec\<close>, with the run of the event and of the socket's loop as arguments: each is a sequence of
  polls of the event loop.\<close>

definition exec ::
    "event_env \<Rightarrow> event \<Rightarrow> (timeout_guard \<Rightarrow> exec_context \<Rightarrow> exec_context \<times> (string, unit) result) \<Rightarrow>
       (exec_context \<Rightarrow> exec_context \<times> (string, unit) result) \<Rightarrow> exec_context \<Rightarrow>
       exec_context \<times> (termination_reason, unit) result" where
  "exec ev task trigger socket_loop c =
     (case exec_begin ev c of
        (c, Inl reason) \<Rightarrow> (c, Err reason)
      | (c, Inr wall) \<Rightarrow>
          (case event_taken task of
             Some e \<Rightarrow> (drop_wall_guard wall (c\<lparr>xc_cpu := None\<rparr>), Err (Other e))
           | None \<Rightarrow>
               (let (c, r) = trigger wall c;
                    (c, wall, r, socket_wall_hit) = exec_socket ev socket_loop wall r c
                in exec_end wall r socket_wall_hit (close_unread_socket c))))"

definition drain_begin :: "event_env \<Rightarrow> exec_context \<Rightarrow> exec_context \<times> timeout_guard" where
  "drain_begin ev c =
     (case xc_budget c of
        Some b \<Rightarrow> (c\<lparr>xc_budget := None, xc_cpu := bg_cpu b\<rparr>, bg_wall b)
      | None \<Rightarrow>
          (let (c, wall) = new_wall_guard ev (c\<lparr>xc_request_id := ev_request_id ev\<rparr>) in (c\<lparr>xc_cpu := new_cpu_guard ev\<rparr>, wall)))"

definition drain_waituntil ::
    "event_env \<Rightarrow> (timeout_guard \<Rightarrow> exec_context \<Rightarrow> exec_context \<times> (string, unit) result) \<Rightarrow> exec_context \<Rightarrow>
       exec_context \<times> (termination_reason, unit) result" where
  "drain_waituntil ev event_loop c =
     (let (c, wall) = drain_begin ev c;
          (c, r) = event_loop wall c;
          outcome = check_termination_reason r (cpu_terminated c) (was_triggered wall (xc_watchdog c)) c
      in (drop_wall_guard wall (c\<lparr>xc_cpu := None\<rparr>), outcome))"

section \<open>The upgrade of a response\<close>

definition upgrade_decision ::
    "ws_id option \<Rightarrow> nat option \<Rightarrow> u16 \<Rightarrow> (ws_id \<times> nat) option \<times> string option" where
  "upgrade_decision socket upgrade status =
     (case (socket, upgrade) of
        (Some ws, Some u) \<Rightarrow> (Some (ws, u), None)
      | (Some _, None) \<Rightarrow>
          (None, Some ''The response carries a WebSocket, but the request is not a WebSocket upgrade'')
      | (None, _) \<Rightarrow>
          if status = 101 then (None, Some ''A 101 response must carry the client end of a WebSocketPair'')
          else (None, None))"

text \<open>Phase 3 of \<open>trigger_fetch_event\<close> after the response is read: the pairs it does not carry close.\<close>

definition take_upgrade ::
    "ws_id option \<Rightarrow> nat option \<Rightarrow> u16 \<Rightarrow> exec_context \<Rightarrow> exec_context \<times> (string, unit) result" where
  "take_upgrade socket upgrade status c =
     (let (u, refusal) = upgrade_decision socket upgrade status;
          c = send_scheduler (WebSocketUpgrade u) (c\<lparr>xc_socket := map_option fst u\<rparr>)
      in case refusal of Some e \<Rightarrow> (c, Err e) | None \<Rightarrow> (c, Ok ()))"

section \<open>Reset\<close>

text \<open>\<open>run_clear_guest_state\<close>: a turn of its own, under the limits of a request.  The call of the clear
  function answers None, or the exception it threw.\<close>

definition run_clear_guest_state ::
    "event_env \<Rightarrow> nat option \<Rightarrow> nat option \<Rightarrow> js_effect \<Rightarrow> string option \<Rightarrow> exec_context \<Rightarrow> exec_context \<times> (string, unit) result"
  where
  "run_clear_guest_state ev cpu_start cpu_end js threw c =
     (let (wd, wall, _) = timeout_guard_new (ev_now ev) (ev_guard_now ev) 0 (ev_request_id ev) (ev_max_wall_ms ev) (xc_watchdog c);
          c = c\<lparr>xc_watchdog := wd\<rparr>;
          cpu = new_cpu_guard ev
      in if (case cpu of None \<Rightarrow> False | Some ce \<Rightarrow> ce_terminated ce)
         then (drop_wall_guard wall c, Err ''reset: the CPU time limit'')
         else
           (let (t, cpu) = guard_begin (ev_request_id ev) cpu_start (xc_turn c) cpu;
                outer = xc_cpu c;
                c = apply_js js (c\<lparr>xc_turn := t, xc_cpu := cpu\<rparr>);
                (t, cpu, _) = guard_drop cpu_end (xc_turn c) (xc_cpu c) False;
                c = c\<lparr>xc_turn := t, xc_cpu := outer\<rparr>;
                triggered = was_triggered wall (xc_watchdog c);
                c = drop_wall_guard wall c
            in if (case cpu of None \<Rightarrow> False | Some ce \<Rightarrow> ce_terminated ce) then (c, Err ''reset: the CPU time limit'')
               else if triggered then (c, Err ''reset: the wall clock limit'')
               else (case threw of None \<Rightarrow> (c, Ok ()) | Some message \<Rightarrow> (c, Err (''reset: '' @ message)))))"

definition reset ::
    "event_env \<Rightarrow> nat option \<Rightarrow> nat option \<Rightarrow> js_effect \<Rightarrow> string option \<Rightarrow> exec_context \<Rightarrow> exec_context \<times> (string, unit) result"
  where
  "reset ev cpu_start cpu_end js threw c =
     (let c = c\<lparr>xc_turn := (xc_turn c)\<lparr>tn_terminating := False\<rparr>\<rparr>;
          c = drop_budget (c\<lparr>xc_pending := None\<rparr>)
      in case run_clear_guest_state ev cpu_start cpu_end js threw c of
           (c, Inl e) \<Rightarrow> (c, Err e)
         | (c, Inr _) \<Rightarrow>
             (c\<lparr>xc_aborted := False, xc_streams := sm_clear (xc_streams c), xc_inbox := [],
                xc_tables := clear_tables (xc_tables c)\<rparr>, Ok ()))"

definition abort_context :: "exec_context \<Rightarrow> exec_context" where
  "abort_context c = c\<lparr>xc_aborted := True, xc_turn := (xc_turn c)\<lparr>tn_terminating := True\<rparr>\<rparr>"

end
