(* ===== verification/Execution_Properties.thy ===== *)
theory Execution_Properties
  imports Execution_Context
begin

text \<open>
  What holds of an execution context: every poll gives its turn back, a poll that parks will be woken
  and has hit no limit, an event and its background work share one budget, and a reset leaves nothing
  of the earlier request that a guest function could be called with.
\<close>

section \<open>What a turn leaves alone\<close>

lemma arrive_keeps [simp]:
  "xc_waiter (arrive ms c) = xc_waiter c" "xc_turn (arrive ms c) = xc_turn c" "xc_cpu (arrive ms c) = xc_cpu c"
  "xc_watchdog (arrive ms c) = xc_watchdog c" "xc_memory_hit (arrive ms c) = xc_memory_hit c"
  "xc_request_id (arrive ms c) = xc_request_id c" "xc_timers (arrive ms c) = xc_timers c"
  "xc_pending (arrive ms c) = xc_pending c" "xc_tables (arrive ms c) = xc_tables c" "xc_hit (arrive ms c) = xc_hit c"
  "xc_streams (arrive ms c) = xc_streams c" "xc_inbox_open (arrive ms c) = xc_inbox_open c"
  "xc_abort_at (arrive ms c) = xc_abort_at c" "xc_socket (arrive ms c) = xc_socket c" "xc_budget (arrive ms c) = xc_budget c"
  "xc_aborted (arrive ms c) = xc_aborted c"
  by (simp_all add: arrive_def)

lemma apply_js_keeps [simp]:
  "xc_waiter (apply_js f c) = xc_waiter c" "tn_holder (xc_turn (apply_js f c)) = tn_holder (xc_turn c)"
  "xc_memory_hit (apply_js f c) = xc_memory_hit c" "xc_request_id (apply_js f c) = xc_request_id c"
  "xc_timers (apply_js f c) = xc_timers c" "xc_hit (apply_js f c) = xc_hit c" "xc_streams (apply_js f c) = xc_streams c"
  "xc_inbox_open (apply_js f c) = xc_inbox_open c" "xc_abort_at (apply_js f c) = xc_abort_at c"
  "xc_socket (apply_js f c) = xc_socket c" "xc_budget (apply_js f c) = xc_budget c" "xc_aborted (apply_js f c) = xc_aborted c"
  by (simp_all add: apply_js_def)

lemma guards_keep [simp]:
  "xc_waiter (begin_guard env c) = xc_waiter c" "xc_waiter (drop_guard env c) = xc_waiter c"
  "tn_holder (xc_turn (drop_guard env c)) = None" "xc_watchdog (drop_guard env c) = xc_watchdog c"
  "xc_woken (drop_guard env c) = xc_woken c" "xc_rx_waker (drop_guard env c) = xc_rx_waker c"
  "xc_inbox (drop_guard env c) = xc_inbox c" "xc_timers (drop_guard env c) = xc_timers c"
  "xc_hit (drop_guard env c) = xc_hit c" "xc_timers (begin_guard env c) = xc_timers c"
  by (simp_all add: begin_guard_def drop_guard_def guard_begin_def guard_drop_def turn_end_def Let_def)

lemma turn_wall_keeps [simp]:
  "xc_waiter (fst (begin_turn_wall env wall c)) = xc_waiter c" "xc_waiter (drop_turn_wall g c) = xc_waiter c"
  "xc_turn (drop_turn_wall g c) = xc_turn c" "xc_waiter (take_hit g c) = xc_waiter c" "xc_turn (take_hit g c) = xc_turn c"
  "xc_woken (drop_turn_wall g c) = xc_woken c" "xc_rx_waker (drop_turn_wall g c) = xc_rx_waker c"
  "xc_inbox (drop_turn_wall g c) = xc_inbox c" "xc_woken (take_hit g c) = xc_woken c"
  "xc_rx_waker (take_hit g c) = xc_rx_waker c" "xc_inbox (take_hit g c) = xc_inbox c"
  "xc_timers (drop_turn_wall g c) = xc_timers c" "xc_timers (take_hit g c) = xc_timers c"
  "xc_timers (fst (begin_turn_wall env wall c)) = xc_timers c"
  by (simp_all add: begin_turn_wall_def drop_turn_wall_def take_hit_def Let_def
      split: wall_clock.split option.split prod.split)

lemma unlock_keeps [simp]:
  "xc_waiter (unlock_waiter c) = map_option (\<lambda>w. fst (unlock w)) (xc_waiter c)" "xc_turn (unlock_waiter c) = xc_turn c"
  "xc_woken (unlock_waiter c) = xc_woken c" "xc_rx_waker (unlock_waiter c) = xc_rx_waker c"
  "xc_inbox (unlock_waiter c) = xc_inbox c" "is_terminated wall (unlock_waiter c) = is_terminated wall c"
  "xc_timers (unlock_waiter c) = xc_timers c"
  by (simp_all add: unlock_waiter_def is_terminated_def wall_triggered_def cpu_terminated_def split: wall_clock.split)

lemma check_exit_waiter: "xc_waiter (fst (check_exit_with_abort env x a c)) = xc_waiter c"
  by (simp add: check_exit_with_abort_def Let_def split: option.split prod.split)

lemma check_exit_timers: "xc_timers (fst (check_exit_with_abort env x a c)) = xc_timers c"
  by (simp add: check_exit_with_abort_def Let_def split: option.split prod.split)

lemma rounds_keep:
  "xc_waiter (fst (poll_rounds env x a n c)) = xc_waiter c \<and> xc_timers (fst (poll_rounds env x a n c)) = xc_timers c"
proof (induction n arbitrary: c)
  case (Suc n)
  obtain c1 r where d: "drain_and_process env (MAX_COALESCE_ROUNDS - Suc n) c = (c1, r)" by fastforce
  then have c1: "xc_waiter c1 = xc_waiter c" "xc_timers c1 = xc_timers c"
    by (auto simp: drain_and_process_def Let_def split: if_splits)
  obtain c2 b where e: "check_exit_with_abort env x a c1 = (c2, b)" by fastforce
  then have "xc_waiter c2 = xc_waiter c" "xc_timers c2 = xc_timers c"
    using check_exit_waiter [of env x a c1] check_exit_timers [of env x a c1] c1 by simp_all
  with Suc [of c2] c1 d e show ?case by (cases r; cases b) simp_all
qed simp

text \<open>A turn on every path: the waiter is released once and nobody holds the turn.\<close>

lemma poll_turn_gives_back:
  assumes "poll_turn env wall x a c = (c', r)"
  shows "xc_waiter c' = map_option (\<lambda>w. fst (unlock w)) (xc_waiter c) \<and> tn_holder (xc_turn c') = None \<and>
    xc_timers c' = xc_timers c"
proof -
  obtain c1 g where w: "begin_turn_wall env wall c = (c1, g)" by fastforce
  then have c1: "xc_waiter c1 = xc_waiter c" "xc_timers c1 = xc_timers c"
    using turn_wall_keeps(1) [of env wall c] turn_wall_keeps(14) [of env wall c] by simp_all
  obtain c2 ro where rounds: "poll_rounds env x a MAX_COALESCE_ROUNDS (begin_guard env c1) = (c2, ro)" by fastforce
  then have "xc_waiter c2 = xc_waiter c" "xc_timers c2 = xc_timers c"
    using rounds_keep [of env x a MAX_COALESCE_ROUNDS "begin_guard env c1"] c1 by simp_all
  then show ?thesis using assms c1 rounds w
    by (auto simp: poll_turn_def Let_def split: round_outcome.splits if_splits)
qed

lemma poll_phase_gives_back:
  assumes "poll_phase env js answer c = (c', PollReady r)" "xc_waiter c = Some w"
  shows "xc_waiter c' = Some (fst (unlock (w\<lparr>aw_locked := True\<rparr>))) \<and> tn_holder (xc_turn c') = None"
proof -
  have "\<not> aw_locked w" using assms by (auto simp: poll_phase_def try_lock_def split: if_splits)
  with assms show ?thesis
    by (cases answer; cases "projr answer") (auto simp: poll_phase_def try_lock_def Let_def)
qed

section \<open>A poll that parks\<close>

text \<open>The loop has been woken, or the callback channel is empty and holds its waker.\<close>

definition wakeable :: "exec_context \<Rightarrow> bool" where
  "wakeable c \<longleftrightarrow> xc_woken c \<or> (xc_rx_waker c \<and> xc_inbox c = [])"

lemma wakeable_js: "wakeable c \<Longrightarrow> wakeable (apply_js f c)"
  by (auto simp: wakeable_def apply_js_def arrive_def)

lemma wakeable_drain: "drain_and_process env n c = (c', Inr k) \<Longrightarrow> wakeable c'"
  by (auto simp: drain_and_process_def Let_def wakeable_def apply_js_def arrive_def split: if_splits)

lemma wakeable_exit:
  assumes "wakeable c"
  shows "wakeable (fst (check_exit_with_abort env x a c))"
proof -
  have "wakeable (apply_js f (c\<lparr>xc_abort_at := t\<rparr>))" for f t
    using wakeable_js [of "c\<lparr>xc_abort_at := t\<rparr>" f] assms by (simp add: wakeable_def)
  with assms show ?thesis by (simp add: check_exit_with_abort_def Let_def split: option.split prod.split)
qed

lemma wakeable_rounds:
  assumes "poll_rounds env x a (Suc n) c = (c', RoundBreak)"
  shows "wakeable c'"
  using assms
proof (induction n arbitrary: c)
  case 0
  then show ?case
    using wakeable_drain wakeable_exit [of _ env x a]
    by (fastforce split: prod.splits sum.splits bool.splits)
next
  case (Suc n)
  obtain c1 r where d: "drain_and_process env (MAX_COALESCE_ROUNDS - Suc (Suc n)) c = (c1, r)" by fastforce
  with Suc.prems obtain k where r: "r = Inr k" by (cases r) auto
  obtain c2 b where e: "check_exit_with_abort env x a c1 = (c2, b)" by fastforce
  have "wakeable c2" using wakeable_exit [of c1 env x a] wakeable_drain d r e by fastforce
  with Suc d r e show ?case
    by (cases b; cases "k = 0") (simp_all del: poll_rounds.simps add: poll_rounds.simps(2) [of env x a "Suc n"])
qed

lemma poll_turn_pending:
  assumes "poll_turn env wall x a c = (c', PollPending)"
  shows "\<not> is_terminated wall c' \<and> wakeable c'"
proof -
  obtain c1 g where w: "begin_turn_wall env wall c = (c1, g)" by fastforce
  obtain c2 ro where rounds: "poll_rounds env x a MAX_COALESCE_ROUNDS (begin_guard env c1) = (c2, ro)" by fastforce
  have "ro = RoundBreak" using assms w rounds
    by (cases ro) (auto simp: poll_turn_def Let_def split: if_splits)
  moreover have "wakeable c2" if "ro = RoundBreak"
    using wakeable_rounds [of env x a 3] rounds that by (simp add: MAX_COALESCE_ROUNDS_def)
  ultimately show ?thesis using assms w rounds
    by (auto simp: poll_turn_def Let_def wakeable_def split: if_splits)
qed

section \<open>Properties\<close>

text \<open>C7: Every poll of an event loop gives back what it took.  For requests that share an isolate through
  the fair queue: a poll that finds the queue held only registers its waker and parks; a poll that finds
  it free leaves it free with the first waiter woken, and leaves nobody holding the turn of the isolate,
  on every path: a limit that was hit, a closed channel, an exit condition, or another wait.  A poll
  whose deadline has passed does not take the queue at all.\<close>

theorem poll_gives_the_turn_back:
  assumes "poll_event_loop env wall x a c = (c', r)" "xc_waiter c = Some w"
  shows "if (\<exists>at. event_deadline wall = Some at \<and> at \<le> pe_now env)
    then xc_waiter c' = Some w \<and> xc_turn c' = xc_turn c \<and> r = PollReady (Err EXECUTION_TERMINATED)
    else if aw_locked w
    then xc_waiter c' = Some (w\<lparr>aw_queue := aw_queue w @ [pe_waker env]\<rparr>) \<and> xc_turn c' = xc_turn c \<and> r = PollPending
    else xc_waiter c' = Some (w\<lparr>aw_queue := tl (aw_queue w)\<rparr>) \<and> tn_holder (xc_turn c') = None"
proof (cases "\<exists>at. event_deadline wall = Some at \<and> at \<le> pe_now env")
  case True
  then show ?thesis using assms
    by (auto simp: poll_event_loop_def expire_event_def Let_def split: wall_clock.splits)
next
  case False
  then have d: "\<not> (case event_deadline wall of None \<Rightarrow> False | Some at \<Rightarrow> at \<le> pe_now env)"
    by (simp split: option.split)
  have unlocked: "fst (unlock (w\<lparr>aw_locked := True\<rparr>)) = w\<lparr>aw_queue := tl (aw_queue w)\<rparr>" if "\<not> aw_locked w"
    using that by (cases w) (simp add: unlock_def split: list.split)
  show ?thesis
  proof (cases "aw_locked w")
    case True
    with assms d False show ?thesis by (auto simp: poll_event_loop_def try_lock_def Let_def)
  next
    case unheld: False
    define c1 where "c1 = c\<lparr>xc_woken := False, xc_timers := (case event_deadline wall of None \<Rightarrow> [] | Some at \<Rightarrow> [at]),
      xc_waiter := Some (w\<lparr>aw_locked := True\<rparr>)\<rparr>"
    have "poll_turn env wall x a c1 = (c', r)"
      using assms d unheld by (simp add: poll_event_loop_def try_lock_def Let_def c1_def)
    from poll_turn_gives_back [OF this] unlocked unheld False show ?thesis by (auto simp: c1_def)
  qed
qed

definition sample_handle :: handle where
  "sample_handle = \<lparr>hd_answer = Some PromiseFulfilled, hd_done = Some PromiseFulfilled,
     hd_streamed = Some PromisePending, hd_stream = Some 1\<rparr>"

definition idle_js :: js_effect where
  "idle_js = \<lparr>jf_pending = Some sample_handle, jf_ws_event = [], jf_terminating = False, jf_memory = False, jf_cpu = False,
     jf_fired = [], jf_arrivals = []\<rparr>"

definition sample_env :: "instant \<Rightarrow> poll_env" where
  "sample_env now = \<lparr>pe_waker = 7, pe_now = now, pe_guard_now = now, pe_cpu_start = None, pe_cpu_end = None,
     pe_js = (\<lambda>_ _. idle_js), pe_disconnect = idle_js\<rparr>"

text \<open>A request without limits whose response body goes to a client that has left.\<close>

definition sample_context :: exec_context where
  "sample_context =
     \<lparr>xc_waiter = Some async_waiter_new, xc_turn = turn_new, xc_watchdog = watchdog_new\<lparr>wd_flags := [False]\<rparr>, xc_cpu = None,
      xc_memory_hit = False, xc_aborted = False, xc_request_id = 4, xc_pending = Some sample_handle, xc_socket = None,
      xc_budget = None, xc_hit = False, xc_abort_at = None, xc_inbox = [], xc_inbox_open = True, xc_rx_waker = False,
      xc_woken = False, xc_timers = [], xc_streams = stream_manager_new, xc_tables = tables_new, xc_sent = []\<rparr>"

definition unlimited :: wall_clock where
  "unlimited = WallEvent \<lparr>tg_key = None, tg_triggered = 0, tg_deadline = None\<rparr>"

theorem poll_gives_the_turn_back_witness:
  "\<exists>c'. poll_event_loop (sample_env 5) unlimited StreamsComplete None sample_context = (c', PollPending) \<and>
     xc_waiter c' = Some async_waiter_new"
proof -
  let ?p = "poll_event_loop (sample_env 5) unlimited StreamsComplete None sample_context"
  have p: "?p = (fst ?p, snd ?p)" by simp
  have "snd ?p = PollPending" by code_simp
  moreover have "xc_waiter sample_context = Some async_waiter_new" by (simp add: sample_context_def)
  moreover have "event_deadline unlimited = None" by (simp add: event_deadline_def unlimited_def)
  ultimately show ?thesis
    using poll_gives_the_turn_back [OF p, of async_waiter_new] p by (metis (no_types, lifting) async_waiter.simps async_waiter_new_def list.sel(2) option.distinct(1))
qed

text \<open>C14: A poll that took a turn and parks will be run again when something arrives, and has no limit to
  report.  Whatever the JavaScript of the turn did and whatever arrived meanwhile, either the waker of
  the loop was already called, or the callback channel is empty and holds it; and neither a limit that
  was hit in the turn nor a termination is left for a poll that may never come.\<close>

theorem parked_poll_will_wake:
  assumes "poll_event_loop env wall x a c = (c', PollPending)" "\<forall>w. xc_waiter c = Some w \<longrightarrow> \<not> aw_locked w"
  shows "\<not> is_terminated wall c' \<and> (xc_woken c' \<or> (xc_rx_waker c' \<and> xc_inbox c' = []))"
proof -
  obtain c1 where "poll_turn env wall x a c1 = (c', PollPending)"
    using assms by (auto simp: poll_event_loop_def try_lock_def Let_def split: if_splits option.splits)
  from poll_turn_pending [OF this] show ?thesis by (simp add: wakeable_def)
qed

theorem parked_poll_will_wake_witness:
  "\<not> is_terminated unlimited (fst (poll_event_loop (sample_env 5) unlimited StreamsComplete None sample_context))"
proof -
  let ?p = "poll_event_loop (sample_env 5) unlimited StreamsComplete None sample_context"
  have "snd ?p = PollPending" by code_simp
  then have p: "?p = (fst ?p, PollPending)" by (metis prod.collapse)
  show ?thesis
    using parked_poll_will_wake [OF p] by (simp add: sample_context_def async_waiter_new_def)
qed

text \<open>C38: The grace period of a client that has left is not a timer.  There is a request whose handler is
  done and whose client has left while the body is streamed, such that the poll that signals the
  disconnect parks with no timer set and nothing else to wake it; a poll 101 milliseconds later would
  end the event, but only a message or the deadline of the event brings one, and without a wall clock
  limit there is no deadline.\<close>

theorem grace_period_sets_no_timer:
  "\<exists>env later wall c c'. poll_event_loop env wall StreamsComplete (Some abort_config_default) c = (c', PollPending) \<and>
     xc_abort_at c' = Some (pe_now env) \<and> xc_timers c' = [] \<and> \<not> xc_woken c' \<and>
     pe_now later = pe_now env + abort_config_default + 1 \<and>
     snd (poll_event_loop later wall StreamsComplete (Some abort_config_default) c') = PollReady (Ok ())"
proof -
  let ?p = "poll_event_loop (sample_env 5) unlimited StreamsComplete (Some abort_config_default) sample_context"
  have "snd ?p = PollPending" "xc_abort_at (fst ?p) = Some 5" "xc_timers (fst ?p) = []" "\<not> xc_woken (fst ?p)"
    "snd (poll_event_loop (sample_env 106) unlimited StreamsComplete (Some abort_config_default) (fst ?p)) = PollReady (Ok ())"
    by code_simp+
  then show ?thesis
    by (intro exI [of _ "sample_env 5"] exI [of _ "sample_env 106"] exI [of _ unlimited] exI [of _ sample_context] exI [of _ "fst ?p"])
      (simp add: sample_env_def abort_config_default_def prod_eq_iff)
qed

section \<open>Budgets\<close>

lemma close_unread_keeps [simp]:
  "xc_watchdog (close_unread_socket c) = xc_watchdog c" "xc_cpu (close_unread_socket c) = xc_cpu c"
  by (simp_all add: close_unread_socket_def send_scheduler_def split: option.split)

text \<open>An event and the background work after it share one budget.  When \<open>exec\<close> succeeds, it leaves the
  guards the event ended with, neither of them spent, and \<open>drain_waituntil\<close> goes on with exactly those:
  it starts no guard and takes no new request id, so its work ends at the deadline of the event.\<close>

lemma background_work_shares_the_budget:
  assumes "exec ev task trigger socket_loop c = (c', Ok ())"
  shows "\<exists>b. xc_budget c' = Some b \<and> xc_cpu c' = None \<and>
    drain_begin later c' = (c'\<lparr>xc_budget := None, xc_cpu := bg_cpu b\<rparr>, bg_wall b) \<and>
    \<not> cpu_terminated (fst (drain_begin later c'))"
proof -
  obtain wall r hit d where "exec_end wall r hit d = (c', Ok ())"
    using assms by (auto simp: exec_def Let_def split: prod.splits sum.splits option.splits)
  then show ?thesis
    by (auto simp: exec_end_def Let_def drain_begin_def cpu_terminated_def check_termination_reason_def
        split: if_splits option.splits)
qed

definition sample_event :: event_env where
  "sample_event = \<lparr>ev_request_id = 9, ev_now = 10, ev_guard_now = 10, ev_cpu_clock = None, ev_timer_created = True,
     ev_watchdog_alive = True, ev_max_wall_ms = 50, ev_max_cpu_ms = 0\<rparr>"

section \<open>Reset\<close>

lemma drop_wall_keeps [simp]:
  "xc_tables (drop_wall_guard g c) = xc_tables c" "xc_pending (drop_wall_guard g c) = xc_pending c"
  "xc_budget (drop_wall_guard g c) = xc_budget c" "xc_turn (drop_wall_guard g c) = xc_turn c"
  by (simp_all add: drop_wall_guard_def)

lemma drop_budget_keeps [simp]:
  "xc_budget (drop_budget c) = None" "xc_tables (drop_budget c) = xc_tables c" "xc_pending (drop_budget c) = xc_pending c"
  by (simp_all add: drop_budget_def split: option.split)

lemma apply_js_no_handle: "xc_pending c = None \<Longrightarrow> xc_pending (apply_js f c) = None"
  by (simp add: apply_js_def)

lemma apply_js_next_id [simp]: "tb_next_id (xc_tables (apply_js f c)) = tb_next_id (xc_tables c)"
  by (simp add: apply_js_def)

lemma run_clear_ok:
  assumes "run_clear_guest_state ev cpu_start cpu_end js threw c = (c', Inr u)"
  shows "tb_next_id (xc_tables c') = tb_next_id (xc_tables c)" "xc_budget c' = xc_budget c" "tn_holder (xc_turn c') = None"
    "xc_pending c = None \<Longrightarrow> xc_pending c' = None"
  using assms
  by (simp_all add: run_clear_guest_state_def Let_def guard_drop_def turn_end_def split: prod.splits if_splits option.splits)
    (auto simp: apply_js_no_handle)

lemma reset_ok:
  assumes "reset ev cpu_start cpu_end js threw c = (c', Ok ())"
  shows "\<exists>t. xc_tables c' = clear_tables t \<and> tb_next_id t = tb_next_id (xc_tables c)" "xc_inbox c' = []" "xc_pending c' = None"
    "xc_budget c' = None" "tn_holder (xc_turn c') = None"
proof -
  let ?c = "drop_budget (c\<lparr>xc_turn := (xc_turn c)\<lparr>tn_terminating := False\<rparr>, xc_pending := None\<rparr>)"
  obtain d u where d: "run_clear_guest_state ev cpu_start cpu_end js threw ?c = (d, Inr u)"
    and c': "c' = d\<lparr>xc_aborted := False, xc_streams := sm_clear (xc_streams d), xc_inbox := [], xc_tables := clear_tables (xc_tables d)\<rparr>"
    using assms by (auto simp: reset_def Let_def split: prod.splits sum.splits)
  show "\<exists>t. xc_tables c' = clear_tables t \<and> tb_next_id t = tb_next_id (xc_tables c)" "xc_inbox c' = []" "xc_pending c' = None"
    "xc_budget c' = None" "tn_holder (xc_turn c') = None"
    using run_clear_ok [OF d] c' by auto
qed

text \<open>C15: After a context is reset, nothing of the earlier request reaches guest code.  A reset that
  succeeds leaves no handle, no budget, no queued message and nobody holding the turn; and whatever the
  next request registers and whatever messages it handles, a message that answers an id of the
  earlier request calls nothing, because the counter of ids keeps counting, as long as it does not
  wrap around.\<close>

theorem reset_forgets_the_request:
  assumes "reset ev cpu_start cpu_end js threw c = (c', Ok ())" "answer_of m = Some i" "i < tb_next_id (xc_tables c)"
    "unat (tb_next_id (xc_tables c)) + length ops < 2 ^ 64"
  shows "xc_pending c' = None \<and> xc_budget c' = None \<and> xc_inbox c' = [] \<and> tn_holder (xc_turn c') = None \<and>
    tb_calls (dispatch code ex json m (fold (table_step code ex) ops (xc_tables c'))) =
    tb_calls (fold (table_step code ex) ops (xc_tables c'))"
proof -
  obtain t where t: "xc_tables c' = clear_tables t" "tb_next_id t = tb_next_id (xc_tables c)"
    using reset_ok(1) [OF assms(1)] by blast
  with late_answer_silent [of m i t ops code ex json] assms(2-4) reset_ok [OF assms(1)] show ?thesis by simp
qed

theorem reset_forgets_the_request_witness:
  "\<exists>c'. reset sample_event None None idle_js None
     (sample_context\<lparr>xc_tables := fst (register_callbacks_with_error 10 20 tables_new)\<rparr>) = (c', Ok ()) \<and>
   tb_calls (dispatch (\<lambda>_ _. Returned) None True (KvResult 1 (BindingValue 0))
     (fold (table_step (\<lambda>_ _. Returned) None) [Register 30 40] (xc_tables c'))) = []"
proof -
  let ?c = "sample_context\<lparr>xc_tables := fst (register_callbacks_with_error 10 20 tables_new)\<rparr>"
  let ?r = "reset sample_event None None idle_js None ?c"
  have "snd ?r = Ok ()" by code_simp
  then have r: "?r = (fst ?r, Ok ())" by (metis prod.collapse)
  have "answer_of (KvResult 1 (BindingValue 0)) = Some 1" by (simp add: answer_of_def)
  moreover have "tb_next_id (xc_tables ?c) = 2" by code_simp
  moreover have "tb_calls (fold (table_step (\<lambda>_ _. Returned) None) [Register 30 40] (xc_tables (fst ?r))) = []" by code_simp
  ultimately show ?thesis
    using reset_forgets_the_request [OF r, of "KvResult 1 (BindingValue 0)" 1 "[Register 30 40]" "\<lambda>_ _. Returned" None True] r
    by auto
qed

end
