(* ===== verification/Foreground.thy ===== *)
theory Foreground
  imports Async_Waiter Hash_Map Timeout_Guard
begin

text \<open>
  The foreground tasks of an isolate, from \<open>src/src/platform.rs\<close>: the table of queues by the address of
  the isolate, posting, running, and the waiters of the event loops.  A task is the finite tree of the
  tasks it posts while it runs, each with its delay.
\<close>

section \<open>Queues\<close>

datatype v8_task = V8Task (task_id: nat) (task_posts: "(v8_task \<times> int option) list")

record foreground =
  fg_ready :: "v8_task list"
  fg_delayed :: "(instant \<times> v8_task) list"
  fg_wakers :: "waker list"

definition foreground_new :: foreground where
  "foreground_new = \<lparr>fg_ready = [], fg_delayed = [], fg_wakers = []\<rparr>"

text \<open>A task without a delay wakes every waiter; the second part of the answer are the wakers it calls.\<close>

definition fg_post :: "instant \<Rightarrow> v8_task \<Rightarrow> int option \<Rightarrow> foreground \<Rightarrow> foreground \<times> waker list" where
  "fg_post now t delay q =
     (case delay of
        None \<Rightarrow> (q\<lparr>fg_ready := fg_ready q @ [t], fg_wakers := []\<rparr>, fg_wakers q)
      | Some d \<Rightarrow> (q\<lparr>fg_delayed := fg_delayed q @ [(now + nat (max 0 d), t)]\<rparr>, []))"

definition fg_next :: "instant \<Rightarrow> foreground \<Rightarrow> foreground \<times> v8_task option" where
  "fg_next now q =
     (case fg_ready q of
        t # ts \<Rightarrow> (q\<lparr>fg_ready := ts\<rparr>, Some t)
      | [] \<Rightarrow>
          (case position (\<lambda>(at, _). at \<le> now) (fg_delayed q) of
             None \<Rightarrow> (q, None)
           | Some due \<Rightarrow> (q\<lparr>fg_delayed := swap_remove due (fg_delayed q)\<rparr>, Some (snd (fg_delayed q ! due)))))"

fun fg_post_all :: "instant \<Rightarrow> (v8_task \<times> int option) list \<Rightarrow> foreground \<Rightarrow> foreground \<times> waker list" where
  "fg_post_all now [] q = (q, [])"
| "fg_post_all now ((t, d) # ps) q =
     (let (q, called) = fg_post now t d q; (q, later) = fg_post_all now ps q in (q, called @ later))"

text \<open>How many tasks a task can lead to, itself included.\<close>

function task_weight :: "v8_task \<Rightarrow> nat" where
  "task_weight (V8Task i ps) = Suc (\<Sum>p\<leftarrow>ps. task_weight (fst p))"
  by pat_completeness auto

termination
proof (relation "measure size")
  fix i ps and z :: "v8_task \<times> int option" assume "z \<in> set ps"
  then have "size (fst z) < Suc (size_list (size_prod size (\<lambda>_. 0)) ps)"
    by (induction ps) (auto split: prod.split simp: less_Suc_eq_le)
  then show "(fst z, V8Task i ps) \<in> measure size"
    by (simp add: less_Suc_eq)
qed simp

definition queue_weight :: "foreground \<Rightarrow> nat" where
  "queue_weight q = (\<Sum>t\<leftarrow>fg_ready q. task_weight t) + (\<Sum>p\<leftarrow>fg_delayed q. task_weight (snd p))"

lemma fg_post_weight [simp]: "queue_weight (fst (fg_post now t d q)) = queue_weight q + task_weight t"
  by (simp add: fg_post_def queue_weight_def split: option.split)

lemma fg_post_all_weight [simp]: "queue_weight (fst (fg_post_all now ps q)) = queue_weight q + (\<Sum>p\<leftarrow>ps. task_weight (fst p))"
proof (induction ps arbitrary: q)
  case (Cons p ps)
  obtain t d q1 called where p: "p = (t, d)" "fg_post now t d q = (q1, called)" by (metis surj_pair)
  then have "queue_weight q1 = queue_weight q + task_weight t" using fg_post_weight by (metis fst_conv)
  with Cons [of q1] p show ?case by (simp add: case_prod_beta)
qed simp

lemma sum_swap_remove: "i < length xs \<Longrightarrow> (\<Sum>x\<leftarrow>xs. f x) = f (xs ! i) + (\<Sum>x\<leftarrow>swap_remove i xs. f x)"
  for f :: "'a \<Rightarrow> nat"
  using arg_cong [OF mset_swap_remove [of i xs], of "\<lambda>m. \<Sum>x\<in>#m. f x"]
  by (simp add: sum_mset_sum_list flip: mset_map)

lemma fg_next_weight: "fg_next now q = (q', Some t) \<Longrightarrow> queue_weight q = queue_weight q' + task_weight t"
  using sum_swap_remove [of "the (position (\<lambda>(at, _). at \<le> now) (fg_delayed q))" "fg_delayed q" "\<lambda>p. task_weight (snd p)"]
  by (auto simp: fg_next_def queue_weight_def dest: position_SomeD split: list.splits option.splits)

text \<open>\<open>run\<close>, with the readings of the clock: the queue it leaves, the tasks it ids and the wakers called.\<close>

function fg_run :: "(nat \<Rightarrow> instant) \<Rightarrow> nat \<Rightarrow> foreground \<Rightarrow> foreground \<times> nat list \<times> waker list" where
  "fg_run clock n q =
     (case fg_next (clock n) q of
        (q, None) \<Rightarrow> (q, [], [])
      | (q, Some t) \<Rightarrow>
          (let (q, called) = fg_post_all (clock n) (task_posts t) q;
               (q, ids, later) = fg_run clock (Suc n) q
           in (q, task_id t # ids, called @ later)))"
  by pat_completeness auto

termination
proof (relation "measure (\<lambda>(clock, n, q). queue_weight q)")
  fix clock :: "nat \<Rightarrow> instant" and n q q1 r t posted q2 called
  assume "(q1, r) = fg_next (clock n) q" "r = Some t" "posted = fg_post_all (clock n) (task_posts t) q1" "(q2, called) = posted"
  then have "queue_weight q2 = queue_weight q1 + (\<Sum>p\<leftarrow>task_posts t. task_weight (fst p))"
    "queue_weight q = queue_weight q1 + task_weight t"
    using fg_post_all_weight [of "clock n" "task_posts t" q1] fg_next_weight [of "clock n" q q1 t] by (metis fst_conv)+
  then show "((clock, Suc n, q2), clock, n, q) \<in> measure (\<lambda>(clock, n, q). queue_weight q)"
    by (cases t) simp
qed simp

declare fg_run.simps [simp del]

lemma fg_run_none: "fg_next (clock n) q = (q', None) \<Longrightarrow> fg_run clock n q = (q', [], [])"
  by (subst fg_run.simps) simp

lemma fg_run_some:
  assumes "fg_next (clock n) q = (q1, Some t)" "fg_post_all (clock n) (task_posts t) q1 = (q2, called)"
    "fg_run clock (Suc n) q2 = (q', ids, later)"
  shows "fg_run clock n q = (q', task_id t # ids, called @ later)"
  using assms by (subst fg_run.simps) simp

lemma fg_next_none: "fg_next now q = (q', None) \<Longrightarrow> q' = q \<and> fg_ready q = [] \<and> (\<forall>p \<in> set (fg_delayed q). now < fst p)"
  by (auto simp: fg_next_def position_None_iff not_le split: list.splits option.splits)

text \<open>A run, case by case: no task is due, or a task runs and the rest is a run of a lighter queue.\<close>

lemma fg_run_cases:
  assumes "fg_run clock n q = (q', ids, called)"
  obtains "fg_next (clock n) q = (q', None)" "ids = []" "called = []"
  | q1 t q2 c2 ids3 c3 where "fg_next (clock n) q = (q1, Some t)" "fg_post_all (clock n) (task_posts t) q1 = (q2, c2)"
      "fg_run clock (Suc n) q2 = (q', ids3, c3)" "ids = task_id t # ids3" "called = c2 @ c3" "queue_weight q2 < queue_weight q"
proof (cases "fg_next (clock n) q")
  case (Pair q1 r)
  show ?thesis
  proof (cases r)
    case None
    with Pair fg_run_none [of clock n q q1] assms that(1) show ?thesis by auto
  next
    case (Some t)
    obtain q2 c2 where posts: "fg_post_all (clock n) (task_posts t) q1 = (q2, c2)" by fastforce
    obtain q3 ids3 c3 where rest: "fg_run clock (Suc n) q2 = (q3, ids3, c3)" by (metis surj_pair)
    have "queue_weight q2 = queue_weight q1 + (\<Sum>p\<leftarrow>task_posts t. task_weight (fst p))"
      using fg_post_all_weight posts by (metis fst_conv)
    then have "queue_weight q2 < queue_weight q"
      using fg_next_weight [of "clock n" q q1 t] Pair Some by (cases t) simp
    with fg_run_some [OF _ posts rest] Pair Some posts rest assms that(2) show ?thesis by auto
  qed
qed

lemma fg_run_end:
  "fg_run clock n q = (q', ids, called) \<Longrightarrow>
     fg_ready q' = [] \<and> (\<forall>p \<in> set (fg_delayed q'). clock (n + length ids) < fst p) \<and> length ids \<le> queue_weight q"
proof (induction "queue_weight q" arbitrary: n q ids called rule: less_induct)
  case less
  from less.prems show ?case
  proof (cases rule: fg_run_cases)
    case 1
    with fg_next_none [of "clock n" q q'] show ?thesis by auto
  next
    case (2 q1 t q2 c2 ids3 c3)
    with less.hyps [OF 2(6) 2(3)] show ?thesis by simp
  qed
qed

section \<open>The table of queues\<close>

text \<open>A queue is shared, so the table maps the address of an isolate to the position of its queue among
  all queues ever made.\<close>

record platform =
  pf_table :: "(nat, nat) hash_map"
  pf_queues :: "foreground list"

definition platform_new :: platform where
  "platform_new = \<lparr>pf_table = [], pf_queues = []\<rparr>"

definition pf_register :: "nat \<Rightarrow> platform \<Rightarrow> platform \<times> nat" where
  "pf_register key p =
     (let i = length (pf_queues p) in
      (p\<lparr>pf_table := hm_insert key i (pf_table p), pf_queues := pf_queues p @ [foreground_new]\<rparr>, i))"

definition tasks_at :: "nat \<Rightarrow> platform \<Rightarrow> platform \<times> nat" where
  "tasks_at key p = (case hm_get (pf_table p) key of Some i \<Rightarrow> (p, i) | None \<Rightarrow> pf_register key p)"

definition pf_post_task :: "instant \<Rightarrow> nat \<Rightarrow> v8_task \<Rightarrow> int option \<Rightarrow> platform \<Rightarrow> platform \<times> waker list" where
  "pf_post_task now key t delay p =
     (let (p, i) = tasks_at key p; (q, called) = fg_post now t delay (pf_queues p ! i)
      in (p\<lparr>pf_queues := (pf_queues p)[i := q]\<rparr>, called))"

definition pf_forget :: "nat \<Rightarrow> nat \<Rightarrow> platform \<Rightarrow> platform" where
  "pf_forget key i p =
     (let p = (if hm_get (pf_table p) key = Some i then p\<lparr>pf_table := hm_remove key (pf_table p)\<rparr> else p)
      in p\<lparr>pf_queues := (pf_queues p)[i := (pf_queues p ! i)\<lparr>fg_ready := [], fg_delayed := []\<rparr>]\<rparr>)"

definition platform_wf :: "platform \<Rightarrow> bool" where
  "platform_wf p \<longleftrightarrow> (\<forall>key i. hm_get (pf_table p) key = Some i \<longrightarrow> i < length (pf_queues p))"

text \<open>A task posted for a new isolate reaches its own queue, also when a dead isolate had its address and
  its queue is forgotten late.\<close>

lemma post_after_register:
  assumes "platform_wf p" "pf_register key p = (p1, i)" "j < i"
  shows "fg_ready (pf_queues (fst (pf_post_task now key t None (pf_forget key j p1))) ! i) = [t]"
  using assms
  by (auto simp: pf_register_def pf_forget_def pf_post_task_def tasks_at_def fg_post_def foreground_new_def Let_def nth_append
      nth_list_update split: prod.splits)

section \<open>Waiters\<close>

record fg_waiter =
  wt_waker :: "waker option"

definition waiter_register :: "waker \<Rightarrow> foreground \<Rightarrow> fg_waiter \<Rightarrow> foreground \<times> fg_waiter" where
  "waiter_register w q wt =
     ((if w \<in> set (fg_wakers q) then q else q\<lparr>fg_wakers := fg_wakers q @ [w]\<rparr>),
      (if wt_waker wt = Some w then wt else wt\<lparr>wt_waker := Some w\<rparr>))"

definition waiter_drop :: "foreground \<Rightarrow> fg_waiter \<Rightarrow> foreground" where
  "waiter_drop q wt =
     (case wt_waker wt of None \<Rightarrow> q | Some mine \<Rightarrow> q\<lparr>fg_wakers := filter (\<lambda>known. known \<noteq> mine) (fg_wakers q)\<rparr>)"

section \<open>Event loops that wait\<close>

text \<open>The tasks that use an isolate.  An event loop registers its waker when a poll starts.  It then ends if its deadline has
  passed, or asks the fair queue of the isolate for its turn, if there is one: refused, it waits in the queue; granted, it
  runs the tasks, unless the turn is terminated before, gives its turn back, and parks or ends.  The loop of a Durable Object, which has no such queue,
  also parks after a poll in which it had no callback to run and ran no task.  Outside its loop a request takes turns as well, and can run tasks in them.  A loop that waits can be
  dropped, and tasks come from any thread at any time.  \<open>fs_woken\<close> says whether the waker of a loop was called since its poll started.\<close>

datatype loop_phase = LoopIdle | LoopPolling | LoopQueued | LoopLocked | LoopDrained | LoopParked | LoopServed | LoopOutside

record fg_sys =
  fs_queue :: foreground
  fs_gate :: "async_waiter option"
  fs_phase :: "waker \<Rightarrow> loop_phase"
  fs_woken :: "waker \<Rightarrow> bool"

definition fg_sys_start :: "bool \<Rightarrow> fg_sys" where
  "fg_sys_start shared =
     \<lparr>fs_queue = foreground_new, fs_gate = (if shared then Some async_waiter_new else None), fs_phase = (\<lambda>_. LoopIdle),
      fs_woken = (\<lambda>_. False)\<rparr>"

definition wake_all :: "waker list \<Rightarrow> fg_sys \<Rightarrow> fg_sys" where
  "wake_all ws s = s\<lparr>fs_woken := (\<lambda>w. w \<in> set ws \<or> fs_woken s w)\<rparr>"

definition enter_phase :: "waker \<Rightarrow> loop_phase \<Rightarrow> fg_sys \<Rightarrow> fg_sys" where
  "enter_phase w p s = s\<lparr>fs_phase := (fs_phase s)(w := p)\<rparr>"

definition gate_enter :: "waker \<Rightarrow> fg_sys \<Rightarrow> fg_sys \<times> bool" where
  "gate_enter w s =
     (case fs_gate s of
        None \<Rightarrow> (s, True)
      | Some g \<Rightarrow> (let (g, ok) = try_lock w g in (s\<lparr>fs_gate := Some g\<rparr>, ok)))"

definition gate_leave :: "fg_sys \<Rightarrow> fg_sys" where
  "gate_leave s =
     (case fs_gate s of
        None \<Rightarrow> s
      | Some g \<Rightarrow>
          (let (g, next) = unlock g in
           wake_all (case next of None \<Rightarrow> [] | Some w \<Rightarrow> [w]) (s\<lparr>fs_gate := Some g\<rparr>)))"

definition drop_waiter :: "waker \<Rightarrow> fg_sys \<Rightarrow> fg_sys" where
  "drop_waiter w s = s\<lparr>fs_queue := waiter_drop (fs_queue s) \<lparr>wt_waker = Some w\<rparr>\<rparr>"

inductive fg_step :: "fg_sys \<Rightarrow> fg_sys \<Rightarrow> bool" where
  poll_start: "fs_phase s w \<in> {LoopIdle, LoopParked, LoopQueued, LoopServed} \<Longrightarrow> waiter_register w (fs_queue s) wt = (q, wt') \<Longrightarrow>
    fg_step s (enter_phase w LoopPolling (s\<lparr>fs_queue := q, fs_woken := (fs_woken s)(w := False)\<rparr>))"
| poll_expired: "fs_phase s w = LoopPolling \<Longrightarrow> fg_step s (enter_phase w LoopIdle (drop_waiter w s))"
| poll_refused: "fs_phase s w = LoopPolling \<Longrightarrow> gate_enter w s = (s', False) \<Longrightarrow> fg_step s (enter_phase w LoopQueued s')"
| poll_locked: "fs_phase s w = LoopPolling \<Longrightarrow> gate_enter w s = (s', True) \<Longrightarrow> fg_step s (enter_phase w LoopLocked s')"
| poll_cut: "fs_phase s w = LoopLocked \<Longrightarrow> fg_step s (enter_phase w LoopIdle (drop_waiter w (gate_leave s)))"
| run_tasks: "fs_phase s w \<in> {LoopLocked, LoopDrained} \<Longrightarrow> fg_run clock n (fs_queue s) = (q, ids, called) \<Longrightarrow>
    fg_step s (enter_phase w LoopDrained (wake_all called (s\<lparr>fs_queue := q\<rparr>)))"
| poll_pending: "fs_phase s w = LoopDrained \<Longrightarrow> fg_step s (enter_phase w LoopParked (gate_leave s))"
| poll_ready: "fs_phase s w = LoopDrained \<Longrightarrow> fg_step s (enter_phase w LoopIdle (drop_waiter w (gate_leave s)))"
| object_parks: "fs_phase s w = LoopPolling \<Longrightarrow> fs_gate s = None \<Longrightarrow> fg_step s (enter_phase w LoopServed s)"
| loop_dropped: "fs_phase s w \<in> {LoopParked, LoopQueued, LoopServed} \<Longrightarrow> fg_step s (enter_phase w LoopIdle (drop_waiter w s))"
| outside_enter: "fs_phase s w = LoopIdle \<Longrightarrow> gate_enter w s = (s', ok) \<Longrightarrow>
    fg_step s (enter_phase w (if ok then LoopOutside else LoopIdle) s')"
| outside_run: "fs_phase s w = LoopOutside \<Longrightarrow> fg_run clock n (fs_queue s) = (q, ids, called) \<Longrightarrow>
    fg_step s (wake_all called (s\<lparr>fs_queue := q\<rparr>))"
| outside_leave: "fs_phase s w = LoopOutside \<Longrightarrow> fg_step s (enter_phase w LoopIdle (gate_leave s))"
| post: "fg_post now t delay (fs_queue s) = (q, called) \<Longrightarrow> fg_step s (wake_all called (s\<lparr>fs_queue := q\<rparr>))"

text \<open>A loop that is not woken is registered for the next task; if it has run the tasks, none is ready; if it waits for its turn,
  it is in the fair queue.\<close>

definition loop_ok :: "fg_sys \<Rightarrow> waker \<Rightarrow> bool" where
  "loop_ok s w \<longleftrightarrow>
     fs_woken s w \<or> fs_phase s w \<in> {LoopIdle, LoopOutside} \<or>
     w \<in> set (fg_wakers (fs_queue s)) \<and>
     (fs_phase s w \<in> {LoopDrained, LoopParked} \<longrightarrow> fg_ready (fs_queue s) = []) \<and>
     (fs_phase s w = LoopQueued \<longrightarrow> (\<exists>g. fs_gate s = Some g \<and> w \<in> set (aw_queue g)))"

lemma fg_post_wakers: "fg_post now t d q = (q', called) \<Longrightarrow> set (fg_wakers q) = set (fg_wakers q') \<union> set called"
  by (auto simp: fg_post_def split: option.splits)

lemma fg_post_all_wakers: "fg_post_all now ps q = (q', called) \<Longrightarrow> set (fg_wakers q) = set (fg_wakers q') \<union> set called"
  by (induction now ps q arbitrary: q' called rule: fg_post_all.induct) (auto dest: fg_post_wakers split: prod.splits)

lemma fg_next_wakers: "fg_next now q = (q', t) \<Longrightarrow> fg_wakers q' = fg_wakers q"
  by (auto simp: fg_next_def split: list.splits option.splits)

lemma fg_run_wakers: "fg_run clock n q = (q', ids, called) \<Longrightarrow> set (fg_wakers q) = set (fg_wakers q') \<union> set called"
proof (induction "queue_weight q" arbitrary: n q ids called rule: less_induct)
  case less
  from less.prems show ?case
  proof (cases rule: fg_run_cases)
    case 1
    with fg_next_wakers [OF 1(1)] show ?thesis by simp
  next
    case (2 q1 t q2 c2 ids3 c3)
    with less.hyps [OF 2(6) 2(3)] fg_next_wakers [OF 2(1)] fg_post_all_wakers [OF 2(2)] show ?thesis by auto
  qed
qed

text \<open>What a step of one loop does to the others: they keep what they rely on, or they are woken.\<close>

definition keeps :: "fg_sys \<Rightarrow> fg_sys \<Rightarrow> waker \<Rightarrow> bool" where
  "keeps s s' w \<longleftrightarrow>
     (fs_woken s w \<longrightarrow> fs_woken s' w) \<and>
     (fs_woken s' w \<or>
      (w \<in> set (fg_wakers (fs_queue s)) \<longrightarrow> w \<in> set (fg_wakers (fs_queue s'))) \<and>
      (fg_ready (fs_queue s) = [] \<longrightarrow> fg_ready (fs_queue s') = [] \<or> w \<notin> set (fg_wakers (fs_queue s))) \<and>
      (\<forall>g. fs_gate s = Some g \<and> w \<in> set (aw_queue g) \<longrightarrow> (\<exists>g. fs_gate s' = Some g \<and> w \<in> set (aw_queue g))))"

lemma keeps_ok: "keeps s s' w \<Longrightarrow> loop_ok s w \<Longrightarrow> fs_phase s' w = fs_phase s w \<Longrightarrow> loop_ok s' w"
  unfolding keeps_def loop_ok_def by metis

lemma enter_phase_simps [simp]:
  "fs_queue (enter_phase w p s) = fs_queue s" "fs_gate (enter_phase w p s) = fs_gate s" "fs_woken (enter_phase w p s) = fs_woken s"
  "fs_phase (enter_phase w p s) = (fs_phase s)(w := p)"
  by (simp_all add: enter_phase_def)

lemma wake_all_simps [simp]:
  "fs_queue (wake_all ws s) = fs_queue s" "fs_gate (wake_all ws s) = fs_gate s" "fs_phase (wake_all ws s) = fs_phase s"
  "fs_woken (wake_all ws s) w \<longleftrightarrow> w \<in> set ws \<or> fs_woken s w"
  by (simp_all add: wake_all_def)

lemma drop_waiter_simps [simp]:
  "fs_gate (drop_waiter w s) = fs_gate s" "fs_woken (drop_waiter w s) = fs_woken s" "fs_phase (drop_waiter w s) = fs_phase s"
  "fg_ready (fs_queue (drop_waiter w s)) = fg_ready (fs_queue s)"
  "fg_wakers (fs_queue (drop_waiter w s)) = filter (\<lambda>x. x \<noteq> w) (fg_wakers (fs_queue s))"
  by (simp_all add: drop_waiter_def waiter_drop_def)

lemma gate_leave_simps [simp]: "fs_queue (gate_leave s) = fs_queue s" "fs_phase (gate_leave s) = fs_phase s"
  by (auto simp: gate_leave_def split: option.split prod.split)

lemma gate_leave_keeps: "keeps s (gate_leave s) x"
  by (auto simp: keeps_def gate_leave_def unlock_def split: option.split list.split)

lemma gate_enter_keeps:
  assumes "gate_enter w s = (s', ok)"
  shows "keeps s s' x" "fs_phase s' = fs_phase s" "fs_woken s' = fs_woken s" "fs_queue s' = fs_queue s"
    "\<not> ok \<Longrightarrow> \<exists>g. fs_gate s' = Some g \<and> w \<in> set (aw_queue g)"
  using assms by (auto simp: keeps_def gate_enter_def try_lock_def split: option.splits if_splits)

lemma keeps_enter [simp]: "keeps s (enter_phase w p s') x = keeps s s' x"
  by (simp add: keeps_def)

lemma keeps_drop: "x \<noteq> w \<Longrightarrow> keeps s s' x \<Longrightarrow> keeps s (drop_waiter w s') x"
  by (auto simp: keeps_def)

lemma run_keeps: "fg_run clock n (fs_queue s) = (q, ids, called) \<Longrightarrow> keeps s (wake_all called (s\<lparr>fs_queue := q\<rparr>)) x"
  using fg_run_wakers [of clock n "fs_queue s" q ids called] fg_run_end [of clock n "fs_queue s" q ids called]
  by (auto simp: keeps_def)

lemma post_keeps: "fg_post now t delay (fs_queue s) = (q, called) \<Longrightarrow> keeps s (wake_all called (s\<lparr>fs_queue := q\<rparr>)) x"
  by (auto simp: keeps_def fg_post_def split: option.splits)

lemma step_ok:
  assumes "\<forall>x. loop_ok s x" "\<And>x. x \<noteq> w \<Longrightarrow> keeps s s' x \<and> fs_phase s' x = fs_phase s x" "loop_ok s' w"
  shows "\<forall>x. loop_ok s' x"
proof
  fix x show "loop_ok s' x" using assms keeps_ok [of s s' x] by (cases "x = w") simp_all
qed

lemma loop_ok_registered:
  "loop_ok s w \<Longrightarrow> fs_phase s w \<notin> {LoopIdle, LoopOutside} \<Longrightarrow> fs_woken s w \<or> w \<in> set (fg_wakers (fs_queue s))"
  by (auto simp: loop_ok_def)

lemma fg_step_inv: "fg_step s s' \<Longrightarrow> \<forall>w. loop_ok s w \<Longrightarrow> \<forall>w. loop_ok s' w"
proof (induction rule: fg_step.induct)
  case (poll_start s w wt q wt')
  from poll_start(2) have "set (fg_wakers q) = insert w (set (fg_wakers (fs_queue s)))" "fg_ready q = fg_ready (fs_queue s)"
    by (auto simp: waiter_register_def split: if_splits)
  then show ?case by (intro step_ok [OF poll_start(3), of w]) (auto simp: keeps_def loop_ok_def)
next
  case (poll_expired s w)
  have "keeps s s x" for x by (simp add: keeps_def)
  then show ?case by (intro step_ok [OF poll_expired(2), of w]) (simp_all add: keeps_drop loop_ok_def)
next
  case (poll_refused s w s')
  note gate = gate_enter_keeps [OF poll_refused(2)]
  from poll_refused gate show ?case using loop_ok_registered [of s w]
    by (intro step_ok [OF poll_refused(3), of w]) (auto simp: loop_ok_def)
next
  case (poll_locked s w s')
  note gate = gate_enter_keeps [OF poll_locked(2)]
  from poll_locked gate show ?case using loop_ok_registered [of s w]
    by (intro step_ok [OF poll_locked(3), of w]) (auto simp: loop_ok_def)
next
  case (poll_cut s w)
  then show ?case by (intro step_ok [OF poll_cut(2), of w]) (simp_all add: keeps_drop gate_leave_keeps loop_ok_def)
next
  case (run_tasks s w clock n q ids called)
  have "fs_woken s w \<or> w \<in> set (fg_wakers (fs_queue s))" using loop_ok_registered [of s w] run_tasks(1,3) by auto
  then have "loop_ok (enter_phase w LoopDrained (wake_all called (s\<lparr>fs_queue := q\<rparr>))) w"
    using fg_run_wakers [OF run_tasks(2)] fg_run_end [OF run_tasks(2)] by (auto simp: loop_ok_def)
  then show ?case by (intro step_ok [OF run_tasks(3), of w]) (simp_all add: run_keeps [OF run_tasks(2)])
next
  case (poll_pending s w)
  have "loop_ok (gate_leave s) w" using keeps_ok [OF gate_leave_keeps] poll_pending(2) by simp
  then have "loop_ok (enter_phase w LoopParked (gate_leave s)) w" using poll_pending(1) by (auto simp: loop_ok_def)
  then show ?case by (intro step_ok [OF poll_pending(2), of w]) (simp_all add: gate_leave_keeps)
next
  case (poll_ready s w)
  then show ?case by (intro step_ok [OF poll_ready(2), of w]) (simp_all add: keeps_drop gate_leave_keeps loop_ok_def)
next
  case (object_parks s w)
  have "keeps s s x" for x by (simp add: keeps_def)
  then show ?case using loop_ok_registered [of s w] object_parks(1,3)
    by (intro step_ok [OF object_parks(3), of w]) (auto simp: loop_ok_def)
next
  case (loop_dropped s w)
  have "keeps s s x" for x by (simp add: keeps_def)
  then show ?case by (intro step_ok [OF loop_dropped(2), of w]) (simp_all add: keeps_drop loop_ok_def)
next
  case (outside_enter s w s' ok)
  note gate = gate_enter_keeps [OF outside_enter(2)]
  from gate show ?case by (intro step_ok [OF outside_enter(3), of w]) (simp_all add: loop_ok_def)
next
  case (outside_run s w clock n q ids called)
  then show ?case using keeps_ok [OF run_keeps [OF outside_run(2)]] by simp
next
  case (outside_leave s w)
  then show ?case by (intro step_ok [OF outside_leave(2), of w]) (simp_all add: gate_leave_keeps loop_ok_def)
next
  case (post now t delay s q called)
  then show ?case using keeps_ok [OF post_keeps [OF post(1)]] by simp
qed

lemma fg_reach_inv: "fg_step\<^sup>*\<^sup>* (fg_sys_start shared) s \<Longrightarrow> loop_ok s w"
proof -
  assume "fg_step\<^sup>*\<^sup>* (fg_sys_start shared) s"
  then have "\<forall>w. loop_ok s w"
  proof (induction rule: rtranclp_induct)
    case base
    show ?case by (simp add: loop_ok_def fg_sys_start_def)
  qed (rule fg_step_inv)
  then show ?thesis by blast
qed

section \<open>Properties\<close>

text \<open>Running the foreground tasks ends, and leaves nothing that is due.  However tasks post further
  tasks, with or without a delay, a run makes at most as many tasks as the queue leads to, and after it
  no task is ready and every delayed one is due only after the last reading of the clock.\<close>

lemma run_leaves_nothing_due:
  "\<exists>q' ids called. fg_run clock n q = (q', ids, called) \<and> fg_ready q' = [] \<and>
     list_all (\<lambda>(at, _). clock (n + length ids) < at) (fg_delayed q') \<and> length ids \<le> queue_weight q"
  using fg_run_end [of clock n q] by (cases "fg_run clock n q") (auto simp: list_all_iff)

text \<open>C30: No event loop sleeps through a task.  Whatever loops and requests share the isolate, with or without a fair queue, and
  whenever tasks are posted: a loop that is parked while a task is ready has had its waker called since its last poll began; a
  loop that was refused its turn has had it called, or it is registered for the next task and stands in the
  queue, whose releases wake it in turn; and the loop of a Durable Object that parked without running the tasks has had it called, or the next task
  that is posted calls it.\<close>

theorem no_task_slept_through:
  assumes "fg_step\<^sup>*\<^sup>* (fg_sys_start shared) s"
  shows "(fs_phase s w = LoopParked \<and> fg_ready (fs_queue s) \<noteq> [] \<longrightarrow> fs_woken s w) \<and>
    (fs_phase s w = LoopQueued \<longrightarrow>
      fs_woken s w \<or> w \<in> set (fg_wakers (fs_queue s)) \<and> (\<exists>g. fs_gate s = Some g \<and> w \<in> set (aw_queue g))) \<and>
    (fs_phase s w = LoopServed \<longrightarrow>
      fs_woken s w \<or> w \<in> set (snd (fg_post now t None (fs_queue s))))"
  using fg_reach_inv [OF assms, of w] by (auto simp: loop_ok_def fg_post_def)

text \<open>Two loops on a shared isolate: the first holds the turn, so the second is refused; the first parks, which wakes the second, and
  a task that is posted then wakes the first.\<close>

definition fg_sample :: "foreground \<Rightarrow> waker list \<Rightarrow> bool \<Rightarrow> loop_phase \<times> loop_phase \<Rightarrow> waker set \<Rightarrow> fg_sys" where
  "fg_sample q waiting locked ps called =
     \<lparr>fs_queue = q, fs_gate = Some \<lparr>aw_queue = waiting, aw_locked = locked\<rparr>,
      fs_phase = (\<lambda>w. if w = 1 then fst ps else if w = 2 then snd ps else LoopIdle), fs_woken = (\<lambda>w. w \<in> called)\<rparr>"

lemmas fg_sample_simps = fg_sample_def enter_phase_def wake_all_def gate_enter_def gate_leave_def try_lock_def unlock_def
  waiter_register_def fun_eq_iff

theorem no_task_slept_through_witness:
  "\<exists>s. fg_step\<^sup>*\<^sup>* (fg_sys_start True) s \<and> fs_phase s 1 = LoopParked \<and> fs_phase s 2 = LoopQueued \<and>
     fg_ready (fs_queue s) = [V8Task 5 []] \<and> fs_woken s 1 \<and> fs_woken s 2"
proof -
  let ?q0 = "foreground_new" and ?q1 = "foreground_new\<lparr>fg_wakers := [1]\<rparr>" and ?q2 = "foreground_new\<lparr>fg_wakers := [1, 2]\<rparr>"
  let ?q3 = "foreground_new\<lparr>fg_ready := [V8Task 5 []]\<rparr>"
  let ?none = "\<lparr>wt_waker = None\<rparr>"
  let ?s1 = "fg_sample ?q1 [] False (LoopPolling, LoopIdle) {}" and ?s2 = "fg_sample ?q1 [] True (LoopLocked, LoopIdle) {}"
  let ?s3 = "fg_sample ?q2 [] True (LoopLocked, LoopPolling) {}" and ?s4 = "fg_sample ?q2 [2] True (LoopLocked, LoopQueued) {}"
  let ?s5 = "fg_sample ?q2 [2] True (LoopDrained, LoopQueued) {}" and ?s6 = "fg_sample ?q2 [] False (LoopParked, LoopQueued) {2}"
  let ?s7 = "fg_sample ?q3 [] False (LoopParked, LoopQueued) {1, 2}"
  have "fg_step (fg_sys_start True) ?s1"
    by (rule back_subst [of "fg_step _", OF fg_step.poll_start [of _ 1 ?none ?q1 "\<lparr>wt_waker = Some 1\<rparr>"]])
      (auto simp: fg_sample_simps fg_sys_start_def async_waiter_new_def foreground_new_def)
  moreover have "fg_step ?s1 ?s2"
    by (rule back_subst [of "fg_step _", OF fg_step.poll_locked [of _ 1 "fg_sample ?q1 [] True (LoopPolling, LoopIdle) {}"]])
      (auto simp: fg_sample_simps)
  moreover have "fg_step ?s2 ?s3"
    by (rule back_subst [of "fg_step _", OF fg_step.poll_start [of _ 2 ?none ?q2 "\<lparr>wt_waker = Some 2\<rparr>"]])
      (auto simp: fg_sample_simps foreground_new_def)
  moreover have "fg_step ?s3 ?s4"
    by (rule back_subst [of "fg_step _", OF fg_step.poll_refused [of _ 2 "fg_sample ?q2 [2] True (LoopLocked, LoopPolling) {}"]])
      (auto simp: fg_sample_simps)
  moreover have "fg_step ?s4 ?s5"
    by (rule back_subst [of "fg_step _", OF fg_step.run_tasks [of _ 1 "\<lambda>_. 0" 0 ?q2 "[]" "[]"]])
      (auto simp: fg_sample_simps fg_next_def foreground_new_def intro: fg_run_none)
  moreover have "fg_step ?s5 ?s6"
    by (rule back_subst [of "fg_step _", OF fg_step.poll_pending [of _ 1]]) (auto simp: fg_sample_simps)
  moreover have "fg_step ?s6 ?s7"
    by (rule back_subst [of "fg_step _", OF fg_step.post [of 0 "V8Task 5 []" None _ ?q3 "[1, 2]"]])
      (auto simp: fg_sample_simps fg_post_def foreground_new_def)
  ultimately have reach: "fg_step\<^sup>*\<^sup>* (fg_sys_start True) ?s7" by (meson converse_rtranclp_into_rtranclp rtranclp.rtrancl_refl)
  have "fs_phase ?s7 1 = LoopParked" "fs_phase ?s7 2 = LoopQueued" "fg_ready (fs_queue ?s7) = [V8Task 5 []]"
    by (simp_all add: fg_sample_def)
  moreover from no_task_slept_through [OF reach, of 1] no_task_slept_through [OF reach, of 2] have "fs_woken ?s7 1" "fs_woken ?s7 2"
    by (simp_all add: fg_sample_def foreground_new_def)
  ultimately show ?thesis using reach by blast
qed

text \<open>The loop of a Durable Object can park while a task is ready, with nothing that wakes it before the next task.\<close>

lemma object_sleeps_on_task:
  "\<exists>s. fg_step\<^sup>*\<^sup>* (fg_sys_start False) s \<and> fs_phase s w = LoopServed \<and> fg_ready (fs_queue s) = [t] \<and> \<not> fs_woken s w"
proof -
  let ?s0 = "fg_sys_start False"
  let ?s1 = "wake_all [] (?s0\<lparr>fs_queue := foreground_new\<lparr>fg_ready := [t]\<rparr>\<rparr>)"
  let ?q = "foreground_new\<lparr>fg_ready := [t], fg_wakers := [w]\<rparr>"
  let ?s2 = "enter_phase w LoopPolling (?s1\<lparr>fs_queue := ?q, fs_woken := (fs_woken ?s1)(w := False)\<rparr>)"
  have "fg_step ?s0 ?s1" by (rule fg_step.post [of 0 t None]) (simp add: fg_post_def foreground_new_def fg_sys_start_def)
  moreover have "fg_step ?s1 ?s2"
    by (rule fg_step.poll_start [of _ _ "\<lparr>wt_waker = None\<rparr>" _ "\<lparr>wt_waker = Some w\<rparr>"])
      (simp_all add: waiter_register_def foreground_new_def fg_sys_start_def)
  moreover have "fg_step ?s2 (enter_phase w LoopServed ?s2)"
    by (rule fg_step.object_parks) (simp_all add: fg_sys_start_def)
  ultimately have "fg_step\<^sup>*\<^sup>* ?s0 (enter_phase w LoopServed ?s2)"
    by (meson converse_rtranclp_into_rtranclp rtranclp.rtrancl_refl)
  moreover have "\<not> fs_woken (enter_phase w LoopServed ?s2) w" by simp
  ultimately show ?thesis by (intro exI [of _ "enter_phase w LoopServed ?s2"]) simp
qed

end
