(* ===== verification/Durable_Object.thy ===== *)
theory Durable_Object
  imports Execution_Context Foreground
begin

text \<open>
  The runner of a Durable Object, from \<open>src/src/execution_context/durable_object.rs\<close>: admission of events
  through the input gate, the turns of the object, answers held behind the output gate, and the limits
  and timers of \<open>serve\<close>.  What the object's JavaScript does is an argument: a state of its own and a
  function for each call the runner makes into it.
\<close>

section \<open>Events and answers\<close>

definition GATE_TIMEOUT :: nat where
  "GATE_TIMEOUT = 30000"

definition MAX_ROUNDS :: nat where
  "MAX_ROUNDS = 4"

datatype object_body = ObjectBodyNone | ObjectBodyBytes string | ObjectBodyStream nat | ObjectBodyGated nat

record object_response =
  or_status :: u16
  or_headers :: "(string \<times> string) list"
  or_body :: object_body

text \<open>An event names the channel its caller waits on.\<close>

datatype object_event =
    ObjectFetch payload nat "nat option"
  | ObjectAlarm u32 nat
  | ObjectSocketEvent ws_id ws_incoming

text \<open>\<open>Held\<close>: an answer and the barrier it waits for.\<close>

record fetch_in_flight =
  fi_run :: nat
  fi_res_tx :: "nat option"
  fi_upgrade :: "nat option"
  fi_held :: "(object_response \<times> nat) option"
  fi_disconnected :: bool

record alarm_in_flight =
  ai_run :: nat
  ai_done :: "nat option"
  ai_held :: "((string, unit) result \<times> nat) option"

datatype in_flight = InFetch fetch_in_flight | InAlarm alarm_in_flight | InSocket nat

text \<open>What leaves the object, with the barrier it waited for.\<close>

datatype object_answer = AnswerResponse nat object_response | AnswerOutcome nat "(string, unit) result" | AnswerChunk nat payload

datatype object_gate = ObjectState bool bool | ObjectBroken string

definition refused :: "string \<Rightarrow> object_response" where
  "refused message =
     \<lparr>or_status = 500, or_headers = [(''content-type'', ''text/plain'')], or_body = ObjectBodyBytes message\<rparr>"

section \<open>The object's JavaScript\<close>

text \<open>Each call into the object changes its state and can send messages to the scheduler.\<close>

type_synonym ('g, 'a) guest_call = "'g \<Rightarrow> 'g \<times> scheduler_message list \<times> 'a"

record 'g object_guest =
  og_failure :: "'g \<Rightarrow> string option"
  og_blocked :: "'g \<Rightarrow> bool"
  og_reading :: "'g \<Rightarrow> bool"
  og_pinned :: "'g \<Rightarrow> bool"
  og_fetch :: "payload \<Rightarrow> ('g, (string, nat) result) guest_call"
  og_alarm :: "u32 \<Rightarrow> ('g, nat) guest_call"
  og_socket :: "ws_id \<Rightarrow> ws_incoming \<Rightarrow> ('g, nat) guest_call"
  og_callback :: "callback_message \<Rightarrow> ('g, unit) guest_call"
  og_task :: "nat \<Rightarrow> ('g, unit) guest_call"
  og_disconnect :: "nat \<Rightarrow> ('g, unit) guest_call"
  og_handle :: "'g \<Rightarrow> nat \<Rightarrow> handle"
  og_response :: "'g \<Rightarrow> nat \<Rightarrow> (string, u16 \<times> object_response) result"
  og_response_socket :: "'g \<Rightarrow> nat \<Rightarrow> ws_id option"
  og_socket_done :: "'g \<Rightarrow> nat \<Rightarrow> bool"
  og_alarm_done :: "'g \<Rightarrow> nat \<Rightarrow> (string, unit) result option"

section \<open>State\<close>

text \<open>A body whose chunks wait for a barrier each: the chunks that came, the one that waits, and whether
  the task has ended.\<close>

record gated_body =
  gb_chunks :: "payload list"
  gb_waiting :: "(payload \<times> nat) option"
  gb_ended :: bool

text \<open>\<open>ob_inputs\<close> and \<open>ob_answers\<close> record what went into the object, with its state at that moment, and
  what left it, with the barrier.  They are read by nothing.\<close>

datatype object_input = InputEvent object_event | InputCallback callback_message

record 'g object_state =
  ob_context :: exec_context
  ob_guest :: 'g
  ob_queue :: "object_event list"
  ob_mailbox :: "object_event list"
  ob_mailbox_open :: bool
  ob_mail_waker :: bool
  ob_pending :: "callback_message list"
  ob_inflight :: "in_flight list"
  ob_closed :: bool
  ob_next_gate :: nat
  ob_bodies :: "gated_body list"
  ob_tasks :: foreground
  ob_idle_at :: instant
  ob_gate_at :: "instant option"
  ob_drain_at :: "instant option"
  ob_inputs :: "('g \<times> object_input) list"
  ob_answers :: "(nat \<times> object_answer) list"

datatype gate_poll = GatePending | GateReady bool

text \<open>What a receive from the mailbox meets: the events that arrive just before it, or the budget of the task used up, which answers
  pending and wakes the task.\<close>

datatype mailbox_poll = MailPoll "object_event list" | MailYield

text \<open>What a poll finds: the readings of \<open>poll_env\<close>, the events that arrive before each round and at each receive of it, the effects of
  each round, the state of the barriers, the streams whose client is there, and the callers that left.\<close>

record object_env =
  oe_poll :: poll_env
  oe_mail :: "nat \<Rightarrow> object_event list"
  oe_receives :: "nat \<Rightarrow> mailbox_poll list"
  oe_gate :: "nat \<Rightarrow> gate_poll"
  oe_has_sender :: "stream_id \<Rightarrow> bool"
  oe_left :: "nat \<Rightarrow> bool"
  oe_max_wall_ms :: u64
  oe_idle :: nat
  oe_drain :: nat

definition object_gate :: "'g object_guest \<Rightarrow> 'g \<Rightarrow> object_gate" where
  "object_gate G g =
     (case og_failure G g of Some failure \<Rightarrow> ObjectBroken failure | None \<Rightarrow> ObjectState (og_blocked G g) (og_reading G g))"

definition object_send :: "scheduler_message list \<Rightarrow> 'g object_state \<Rightarrow> 'g object_state" where
  "object_send ms s = s\<lparr>ob_context := (ob_context s)\<lparr>xc_sent := xc_sent (ob_context s) @ ms\<rparr>\<rparr>"

definition call_object :: "('g, 'a) guest_call \<Rightarrow> 'g object_state \<Rightarrow> 'g object_state \<times> 'a" where
  "call_object f s = (let (g, ms, a) = f (ob_guest s) in (object_send ms (s\<lparr>ob_guest := g\<rparr>), a))"

definition barrier :: "'g object_state \<Rightarrow> 'g object_state \<times> nat" where
  "barrier s = (let n = ob_next_gate s in (object_send [OutputBarrier n] (s\<lparr>ob_next_gate := Suc n\<rparr>), n))"

section \<open>Bodies\<close>

definition gate_body :: "object_body \<Rightarrow> 'g object_state \<Rightarrow> 'g object_state \<times> object_body" where
  "gate_body body s =
     (case body of
        ObjectBodyStream _ \<Rightarrow>
          (s\<lparr>ob_bodies := ob_bodies s @ [\<lparr>gb_chunks = [], gb_waiting = None, gb_ended = False\<rparr>]\<rparr>,
           ObjectBodyGated (length (ob_bodies s)))
      | _ \<Rightarrow> (s, body))"

text \<open>A step of the task of a body: it takes a chunk and a barrier, or passes the chunk on once the
  barrier opens; a closed barrier ends the body with an error, and so does a reader that is gone.\<close>

definition poll_body :: "(nat \<Rightarrow> gate_poll) \<Rightarrow> bool \<Rightarrow> nat \<Rightarrow> 'g object_state \<Rightarrow> 'g object_state" where
  "poll_body gates reader i s =
     (let b = ob_bodies s ! i in
      if length (ob_bodies s) \<le> i \<or> gb_ended b then s
      else
        (case gb_waiting b of
           None \<Rightarrow>
             (case gb_chunks b of
                [] \<Rightarrow> s
              | chunk # chunks \<Rightarrow>
                  (let (s, n) = barrier s in s\<lparr>ob_bodies := (ob_bodies s)[i := b\<lparr>gb_chunks := chunks, gb_waiting := Some (chunk, n)\<rparr>]\<rparr>))
         | Some (chunk, n) \<Rightarrow>
             (case gates n of
                GatePending \<Rightarrow> s
              | GateReady False \<Rightarrow> s\<lparr>ob_bodies := (ob_bodies s)[i := b\<lparr>gb_waiting := None, gb_ended := True\<rparr>]\<rparr>
              | GateReady True \<Rightarrow>
                  if reader
                  then s\<lparr>ob_bodies := (ob_bodies s)[i := b\<lparr>gb_waiting := None\<rparr>], ob_answers := ob_answers s @ [(n, AnswerChunk i chunk)]\<rparr>
                  else s\<lparr>ob_bodies := (ob_bodies s)[i := b\<lparr>gb_waiting := None, gb_ended := True\<rparr>]\<rparr>)))"

section \<open>Admission\<close>

definition admit :: "'g object_guest \<Rightarrow> object_event \<Rightarrow> 'g object_state \<Rightarrow> 'g object_state \<times> (string, in_flight) result" where
  "admit G e s =
     (let s = s\<lparr>ob_inputs := ob_inputs s @ [(ob_guest s, InputEvent e)]\<rparr> in
      case e of
        ObjectFetch req res_tx upgrade \<Rightarrow>
          (case call_object (og_fetch G req) s of
             (s, Inl message) \<Rightarrow> (s, Err message)
           | (s, Inr run) \<Rightarrow>
               (s, Ok (InFetch \<lparr>fi_run = run, fi_res_tx = Some res_tx, fi_upgrade = upgrade, fi_held = None, fi_disconnected = False\<rparr>)))
      | ObjectAlarm retry_count done_tx \<Rightarrow>
          (let (s, run) = call_object (og_alarm G retry_count) s
           in (s, Ok (InAlarm \<lparr>ai_run = run, ai_done = Some done_tx, ai_held = None\<rparr>)))
      | ObjectSocketEvent ws incoming \<Rightarrow>
          (let (s, run) = call_object (og_socket G ws incoming) s in (s, Ok (InSocket run))))"

text \<open>Events come to the mailbox at any time; one that arrives wakes a task that waits for it.\<close>

definition mail_arrives :: "object_event list \<Rightarrow> 'g object_state \<Rightarrow> 'g object_state" where
  "mail_arrives mail s =
     (if mail = [] then s
      else s\<lparr>ob_context := (ob_context s)\<lparr>xc_woken := (xc_woken (ob_context s) \<or> ob_mail_waker s)\<rparr>,
        ob_mailbox := ob_mailbox s @ mail, ob_mail_waker := False\<rparr>)"

definition wake_object :: "'g object_state \<Rightarrow> 'g object_state" where
  "wake_object s = s\<lparr>ob_context := (ob_context s)\<lparr>xc_woken := True\<rparr>\<rparr>"

definition receive_event :: "'g object_state \<Rightarrow> 'g object_state \<times> object_event option" where
  "receive_event s =
     (case ob_mailbox s of
        e # m \<Rightarrow> (s\<lparr>ob_mailbox := m\<rparr>, Some e)
      | [] \<Rightarrow> if ob_mailbox_open s then (s\<lparr>ob_mail_waker := True\<rparr>, None) else (s\<lparr>ob_closed := True\<rparr>, None))"

text \<open>The next event: what the object was started with, then the mailbox.  \<open>polls\<close> is what the receives that follow meet, and
  nothing new once it is used up.\<close>

definition next_event :: "mailbox_poll list \<Rightarrow> 'g object_state \<Rightarrow> mailbox_poll list \<times> 'g object_state \<times> object_event option" where
  "next_event polls s =
     (case ob_queue s of
        e # q \<Rightarrow> (polls, s\<lparr>ob_queue := q\<rparr>, Some e)
      | [] \<Rightarrow>
          (case polls of
             [] \<Rightarrow> ([], receive_event s)
           | MailPoll mail # polls \<Rightarrow> (polls, receive_event (mail_arrives mail s))
           | MailYield # polls \<Rightarrow> (polls, wake_object s, None)))"

fun admit_loop :: "'g object_guest \<Rightarrow> nat \<Rightarrow> mailbox_poll list \<Rightarrow> 'g object_state \<Rightarrow> 'g object_state \<times> (string, nat) result" where
  "admit_loop G 0 polls s = (s, Ok 0)"
| "admit_loop G (Suc fuel) polls s =
     (if object_gate G (ob_guest s) = ObjectState False False
      then
        (case next_event polls s of
           (polls, s, None) \<Rightarrow> (s, Ok 0)
         | (polls, s, Some e) \<Rightarrow>
             (case admit G e s of
                (s, Inl message) \<Rightarrow> (s, Err message)
              | (s, Inr event) \<Rightarrow>
                  map_prod id (map_sum id Suc) (admit_loop G fuel polls (s\<lparr>ob_inflight := ob_inflight s @ [event]\<rparr>))))
      else (s, Ok 0))"

text \<open>Each pass takes an event, so the events that wait and those that arrive bound the passes (\<open>admit_loop_fuel\<close>).\<close>

fun mail_size :: "mailbox_poll list \<Rightarrow> nat" where
  "mail_size [] = 0"
| "mail_size (MailPoll mail # polls) = length mail + mail_size polls"
| "mail_size (MailYield # polls) = mail_size polls"

definition admit_events :: "'g object_guest \<Rightarrow> mailbox_poll list \<Rightarrow> 'g object_state \<Rightarrow> 'g object_state \<times> (string, nat) result" where
  "admit_events G polls s = admit_loop G (Suc (length (ob_queue s) + length (ob_mailbox s) + mail_size polls)) polls s"

section \<open>Callbacks\<close>

definition is_storage_message :: "callback_message \<Rightarrow> bool" where
  "is_storage_message m = (case m of ObjectStorageMsg _ _ \<Rightarrow> True | _ \<Rightarrow> False)"

fun run_object_tasks :: "'g object_guest \<Rightarrow> nat list \<Rightarrow> 'g object_state \<Rightarrow> 'g object_state" where
  "run_object_tasks G [] s = s"
| "run_object_tasks G (i # is) s = run_object_tasks G is (fst (call_object (og_task G i) s))"

text \<open>\<open>process_single_callback\<close> and \<open>pump_and_checkpoint\<close>: the callback, then V8's tasks, each with its
  microtasks.\<close>

definition process_and_pump :: "'g object_guest \<Rightarrow> instant \<Rightarrow> callback_message \<Rightarrow> 'g object_state \<Rightarrow> 'g object_state" where
  "process_and_pump G now m s =
     (let s = fst (call_object (og_callback G m) (s\<lparr>ob_inputs := ob_inputs s @ [(ob_guest s, InputCallback m)]\<rparr>));
          (q, ids, called) = fg_run (\<lambda>_. now) 0 (ob_tasks s)
      in run_object_tasks G ids (s\<lparr>ob_tasks := q\<rparr>))"

definition next_callback :: "'g object_guest \<Rightarrow> 'g \<Rightarrow> callback_message list \<Rightarrow> nat option" where
  "next_callback G g pending =
     (case object_gate G g of
        ObjectState _ True \<Rightarrow> position is_storage_message pending
      | _ \<Rightarrow> if pending = [] then None else Some 0)"

fun drain_loop :: "'g object_guest \<Rightarrow> instant \<Rightarrow> nat \<Rightarrow> 'g object_state \<Rightarrow> 'g object_state \<times> nat" where
  "drain_loop G now 0 s = (s, 0)"
| "drain_loop G now (Suc fuel) s =
     (case next_callback G (ob_guest s) (ob_pending s) of
        None \<Rightarrow> (s, 0)
      | Some i \<Rightarrow>
          map_prod id Suc
            (drain_loop G now fuel (process_and_pump G now (ob_pending s ! i) (s\<lparr>ob_pending := remove_at i (ob_pending s)\<rparr>))))"

definition drain_gated :: "'g object_guest \<Rightarrow> instant \<Rightarrow> 'g object_state \<Rightarrow> 'g object_state \<times> (string, nat) result" where
  "drain_gated G now s =
     (let c = ob_context s; s = s\<lparr>ob_pending := ob_pending s @ xc_inbox c, ob_context := c\<lparr>xc_inbox := []\<rparr>\<rparr> in
      if \<not> xc_inbox_open c then (s, Err EVENT_LOOP_CLOSED)
      else map_prod id Inr
        (drain_loop G now (length (ob_pending s)) (s\<lparr>ob_context := (ob_context s)\<lparr>xc_rx_waker := True\<rparr>\<rparr>)))"

section \<open>Answers\<close>

text \<open>Each part of \<open>answer\<close> gives the event as it goes on, None if it is over, and whether it ran guest code
  or sent an answer.\<close>

definition answer_socket :: "'g object_guest \<Rightarrow> nat \<Rightarrow> 'g object_state \<Rightarrow> 'g object_state \<times> in_flight option \<times> bool" where
  "answer_socket G run s =
     (if og_socket_done G (ob_guest s) run then (s, None, True) else (s, Some (InSocket run), False))"

definition hold_outcome :: "'g object_guest \<Rightarrow> alarm_in_flight \<Rightarrow> 'g object_state \<Rightarrow> 'g object_state \<times> alarm_in_flight" where
  "hold_outcome G a s =
     (case ai_held a of
        Some _ \<Rightarrow> (s, a)
      | None \<Rightarrow>
          (case og_alarm_done G (ob_guest s) (ai_run a) of
             None \<Rightarrow> (s, a)
           | Some outcome \<Rightarrow> (let (s, n) = barrier s in (s, a\<lparr>ai_held := Some (outcome, n)\<rparr>))))"

definition answer_alarm ::
    "'g object_guest \<Rightarrow> (nat \<Rightarrow> gate_poll) \<Rightarrow> alarm_in_flight \<Rightarrow> 'g object_state \<Rightarrow> 'g object_state \<times> in_flight option \<times> bool" where
  "answer_alarm G gates a s =
     (let (s, a) = hold_outcome G a s in
      case ai_held a of
        None \<Rightarrow> (s, Some (InAlarm a), False)
      | Some (outcome, n) \<Rightarrow>
          (case gates n of
             GatePending \<Rightarrow> (s, Some (InAlarm a), False)
           | GateReady True \<Rightarrow>
               (case ai_done a of
                  None \<Rightarrow> (s, None, True)
                | Some done_tx \<Rightarrow> (s\<lparr>ob_answers := ob_answers s @ [(n, AnswerOutcome done_tx outcome)]\<rparr>, None, True))
           | GateReady False \<Rightarrow> (s, None, True)))"

text \<open>What the object answers instead of a response that does not fit the request.\<close>

definition answer_upgrade ::
    "ws_id option \<Rightarrow> nat option \<Rightarrow> u16 \<Rightarrow> object_response \<Rightarrow> 'g object_state \<Rightarrow> 'g object_state \<times> object_response" where
  "answer_upgrade socket upgrade status response s =
     (case (socket, upgrade) of
        (Some ws, Some u) \<Rightarrow> (object_send [ObjectUpgrade ws u] s, response)
      | (Some _, None) \<Rightarrow>
          (s, refused ''The response carries a WebSocket, but the request is not a WebSocket upgrade'')
      | (None, _) \<Rightarrow>
          if status = 101 then (s, refused ''A 101 response must carry the client end of a WebSocketPair'') else (s, response))"

definition hold_response ::
    "'g object_guest \<Rightarrow> fetch_in_flight \<Rightarrow> 'g object_state \<Rightarrow> 'g object_state \<times> fetch_in_flight \<times> bool" where
  "hold_response G f s =
     (if fi_res_tx f \<noteq> None \<and> fi_held f = None \<and>
         check_exit_condition (Some (og_handle G (ob_guest s) (fi_run f))) ResponseReady
      then
        (case og_response G (ob_guest s) (fi_run f) of
           Inl error \<Rightarrow> (s, f\<lparr>fi_res_tx := None\<rparr>, True)
         | Inr (status, response) \<Rightarrow>
             (let (s, response) =
                    answer_upgrade (og_response_socket G (ob_guest s) (fi_run f)) (fi_upgrade f) status response s;
                  (s, body) = gate_body (or_body response) s;
                  (s, n) = barrier s
              in (s, f\<lparr>fi_upgrade := None, fi_held := Some (response\<lparr>or_body := body\<rparr>, n)\<rparr>, True)))
      else (s, f, False))"

text \<open>A held response goes to its caller, who is there by \<open>held_has_caller\<close> below.\<close>

definition release_response ::
    "(nat \<Rightarrow> gate_poll) \<Rightarrow> fetch_in_flight \<Rightarrow> 'g object_state \<Rightarrow> 'g object_state \<times> fetch_in_flight \<times> bool" where
  "release_response gates f s =
     (case fi_held f of
        None \<Rightarrow> (s, f, False)
      | Some (response, n) \<Rightarrow>
          (case gates n of
             GatePending \<Rightarrow> (s, f, False)
           | GateReady opened \<Rightarrow>
               (case fi_res_tx f of
                  None \<Rightarrow> (s, f\<lparr>fi_held := None\<rparr>, True)
                | Some res_tx \<Rightarrow>
                    ((if opened then s\<lparr>ob_answers := ob_answers s @ [(n, AnswerResponse res_tx response)]\<rparr> else s),
                     f\<lparr>fi_held := None, fi_res_tx := None\<rparr>, True))))"

definition signal_disconnect ::
    "'g object_guest \<Rightarrow> (stream_id \<Rightarrow> bool) \<Rightarrow> fetch_in_flight \<Rightarrow> 'g object_state \<Rightarrow> 'g object_state \<times> fetch_in_flight \<times> bool" where
  "signal_disconnect G client f s =
     (let h = og_handle G (ob_guest s) (fi_run f) in
      if fi_res_tx f = None \<and> \<not> fi_disconnected f \<and> snd (get_completion_state (Some h)) \<and>
         (case hd_stream h of None \<Rightarrow> False | Some i \<Rightarrow> \<not> client i)
      then (fst (call_object (og_disconnect G (fi_run f)) s), f\<lparr>fi_disconnected := True\<rparr>, True)
      else (s, f, False))"

definition answer_fetch_event ::
    "'g object_guest \<Rightarrow> object_env \<Rightarrow> fetch_in_flight \<Rightarrow> 'g object_state \<Rightarrow> 'g object_state \<times> in_flight option \<times> bool" where
  "answer_fetch_event G env f s =
     (let (s, f, held) = hold_response G f s;
          (s, f, released) = release_response (oe_gate env) f s;
          (s, f, signalled) = signal_disconnect G (oe_has_sender env) f s;
          keep = (fi_res_tx f \<noteq> None \<or> \<not> check_exit_condition (Some (og_handle G (ob_guest s) (fi_run f))) FullyComplete)
      in (s, (if keep then Some (InFetch f) else None), held \<or> released \<or> signalled))"

definition answer_event ::
    "'g object_guest \<Rightarrow> object_env \<Rightarrow> in_flight \<Rightarrow> 'g object_state \<Rightarrow> 'g object_state \<times> in_flight option \<times> bool" where
  "answer_event G env e s =
     (case e of
        InFetch f \<Rightarrow> answer_fetch_event G env f s
      | InSocket run \<Rightarrow> answer_socket G run s
      | InAlarm a \<Rightarrow> answer_alarm G (oe_gate env) a s)"

fun answer_events ::
    "'g object_guest \<Rightarrow> object_env \<Rightarrow> in_flight list \<Rightarrow> 'g object_state \<Rightarrow> 'g object_state \<times> in_flight list \<times> bool" where
  "answer_events G env [] s = (s, [], False)"
| "answer_events G env (e # es) s =
     (let (s, kept, answered) = answer_event G env e s;
          (s, rest, more_answered) = answer_events G env es s
      in (s, (case kept of None \<Rightarrow> rest | Some e \<Rightarrow> e # rest), answered \<or> more_answered))"

definition answer_inflight :: "'g object_guest \<Rightarrow> object_env \<Rightarrow> 'g object_state \<Rightarrow> 'g object_state \<times> bool" where
  "answer_inflight G env s =
     (let (s', kept, answered) = answer_events G env (ob_inflight s) s in (s'\<lparr>ob_inflight := kept\<rparr>, answered))"

section \<open>A turn\<close>

text \<open>What comes before a round: events for the mailbox, and what else happens to the context.\<close>

definition object_arrivals :: "object_env \<Rightarrow> nat \<Rightarrow> 'g object_state \<Rightarrow> 'g object_state" where
  "object_arrivals env round s =
     mail_arrives (oe_mail env round) (s\<lparr>ob_context := apply_js (pe_js (oe_poll env) round []) (ob_context s)\<rparr>)"

fun turn_rounds ::
    "'g object_guest \<Rightarrow> object_env \<Rightarrow> nat \<Rightarrow> bool \<Rightarrow> 'g object_state \<Rightarrow> 'g object_state \<times> (string, bool) result" where
  "turn_rounds G env 0 took s = (s, Ok took)"
| "turn_rounds G env (Suc left) took s =
     (case admit_events G (oe_receives env (MAX_ROUNDS - Suc left)) (object_arrivals env (MAX_ROUNDS - Suc left) s) of
        (s, Inl message) \<Rightarrow> (s, Err message)
      | (s, Inr admitted) \<Rightarrow>
          (case drain_gated G (pe_now (oe_poll env)) s of
             (s, Inl message) \<Rightarrow> (s, Err message)
           | (s, Inr processed) \<Rightarrow>
               (case object_gate G (ob_guest s) of
                  ObjectBroken _ \<Rightarrow> (s, Ok took)
                | ObjectState _ _ \<Rightarrow>
                    (let (s, answered) = answer_inflight G env s; took = (took \<or> 0 < admitted) in
                     if admitted = 0 \<and> processed = 0 \<and> \<not> answered then (s, Ok took)
                     else turn_rounds G env left took (if left = 0 then wake_object s else s)))))"

definition object_turn :: "'g object_guest \<Rightarrow> object_env \<Rightarrow> 'g object_state \<Rightarrow> 'g object_state \<times> (string, bool) result" where
  "object_turn G env s = turn_rounds G env MAX_ROUNDS False s"

section \<open>Serving\<close>

definition stopped :: "bool \<Rightarrow> cpu_enforcer option \<Rightarrow> exec_context \<Rightarrow> termination_reason option" where
  "stopped wall_hit cpu c =
     (if (case cpu of None \<Rightarrow> False | Some ce \<Rightarrow> ce_terminated ce) then Some CpuTimeLimit
      else if wall_hit then Some WallClockTimeout
      else if xc_memory_hit c then Some MemoryLimit
      else None)"

text \<open>The turn with its guards: a full CPU budget and a deadline of its own.\<close>

definition guarded_turn ::
    "'g object_guest \<Rightarrow> object_env \<Rightarrow> 'g object_state \<Rightarrow> 'g object_state \<times> (string, bool) result \<times> termination_reason option" where
  "guarded_turn G env s =
     (let p = oe_poll env;
          (c, wall) = begin_turn_wall p (WallPerTurn (oe_max_wall_ms env)) (ob_context s);
          (s, r) = object_turn G env (s\<lparr>ob_context := begin_guard p c\<rparr>);
          c = drop_guard p (ob_context s);
          hit = (case wall of None \<Rightarrow> False | Some g \<Rightarrow> was_triggered g (xc_watchdog c))
      in (s\<lparr>ob_context := drop_turn_wall wall c\<rparr>, r, stopped hit (xc_cpu c) c))"

definition caller_left :: "(nat \<Rightarrow> bool) \<Rightarrow> in_flight \<Rightarrow> bool" where
  "caller_left left e =
     (case e of
        InFetch f \<Rightarrow> (case fi_res_tx f of None \<Rightarrow> False | Some tx \<Rightarrow> left tx)
      | InAlarm a \<Rightarrow> (case ai_done a of None \<Rightarrow> False | Some tx \<Rightarrow> left tx)
      | InSocket _ \<Rightarrow> False)"

definition HELD_TOO_LONG :: string where
  "HELD_TOO_LONG = ''blockConcurrencyWhile held the object for too long''"

definition DID_NOT_END :: string where
  "DID_NOT_END = ''events in flight did not end after the object closed''"

text \<open>\<open>gate_timer\<close>: it starts when a poll finds the object blocked and goes when one finds it open.\<close>

definition gate_timer :: "instant \<Rightarrow> bool \<Rightarrow> 'g object_state \<Rightarrow> 'g object_state \<times> bool" where
  "gate_timer now blocked s =
     (if blocked
      then (let at = (case ob_gate_at s of Some at \<Rightarrow> at | None \<Rightarrow> now + GATE_TIMEOUT) in (s\<lparr>ob_gate_at := Some at\<rparr>, at \<le> now))
      else (s\<lparr>ob_gate_at := None\<rparr>, False))"

text \<open>The rest of a poll: callers that left, the idle timer and the drain timer.\<close>

definition serve_end :: "object_env \<Rightarrow> bool \<Rightarrow> 'g object_state \<Rightarrow> 'g object_state \<times> (termination_reason, unit) result poll" where
  "serve_end env busy s =
     (let now = pe_now (oe_poll env);
          s = s\<lparr>ob_inflight := filter (\<lambda>e. \<not> caller_left (oe_left env) e) (ob_inflight s)\<rparr>;
          s = (if busy \<or> ob_inflight s \<noteq> [] then s\<lparr>ob_idle_at := now + oe_idle env\<rparr> else s)
      in if ob_inflight s = [] \<and> (ob_closed s \<or> ob_idle_at s \<le> now) then (s, PollReady (Ok ()))
         else if ob_closed s
         then (let at = (case ob_drain_at s of Some at \<Rightarrow> at | None \<Rightarrow> now + oe_drain env); s = s\<lparr>ob_drain_at := Some at\<rparr>
               in (s, if at \<le> now then PollReady (Err (Other DID_NOT_END)) else PollPending))
         else (s, PollPending))"

definition poll_serve ::
    "'g object_guest \<Rightarrow> object_env \<Rightarrow> 'g object_state \<Rightarrow> 'g object_state \<times> (termination_reason, unit) result poll" where
  "poll_serve G env s =
     (let s = s\<lparr>ob_context := (ob_context s)\<lparr>xc_woken := False\<rparr>,
                ob_tasks := fst (waiter_register (pe_waker (oe_poll env)) (ob_tasks s) \<lparr>wt_waker = None\<rparr>)\<rparr>;
          active = (ob_inflight s \<noteq> []);
          (s, r, limit) = guarded_turn G env s
      in case limit of
           Some reason \<Rightarrow> (s, PollReady (Err reason))
         | None \<Rightarrow>
             (case r of
                Inl message \<Rightarrow> (s, PollReady (Err (Exception message)))
              | Inr admitted \<Rightarrow>
                  (case object_gate G (ob_guest s) of
                     ObjectBroken message \<Rightarrow> (s, PollReady (Err (Exception message)))
                   | ObjectState blocked _ \<Rightarrow>
                       (case gate_timer (pe_now (oe_poll env)) blocked s of
                          (s, True) \<Rightarrow> (s, PollReady (Err (Other HELD_TOO_LONG)))
                        | (s, False) \<Rightarrow> serve_end env (active \<or> admitted \<or> og_pinned G (ob_guest s)) s))))"

section \<open>Building and running\<close>

text \<open>\<open>construct\<close>: a turn of its own that runs the class's constructor.  The call answers the object, an
  exception, or None if it was terminated.\<close>

definition construct ::
    "event_env \<Rightarrow> poll_env \<Rightarrow> js_effect \<Rightarrow> (string option, 'g) result \<Rightarrow> exec_context \<Rightarrow>
       exec_context \<times> (termination_reason, 'g) result" where
  "construct ev env js called c =
     (let c = c\<lparr>xc_request_id := ev_request_id ev\<rparr>; (c, wall) = new_wall_guard ev c; cpu = new_cpu_guard ev in
      if (case cpu of None \<Rightarrow> False | Some ce \<Rightarrow> ce_terminated ce) then (drop_wall_guard wall c, Err CpuTimeLimit)
      else
        (let c = drop_guard env (apply_js js (begin_guard env (c\<lparr>xc_cpu := cpu\<rparr>)));
             reason = stopped (was_triggered wall (xc_watchdog c)) (xc_cpu c) c;
             c = drop_wall_guard wall (c\<lparr>xc_cpu := None\<rparr>)
         in case reason of
              Some reason \<Rightarrow> (c, Err reason)
            | None \<Rightarrow>
                (case called of
                   Inr object \<Rightarrow> (c, Ok object)
                 | Inl (Some message) \<Rightarrow> (c, Err (Exception message))
                 | Inl None \<Rightarrow> (c, Err (Other EXECUTION_TERMINATED)))))"

text \<open>The state \<open>serve\<close> starts with, for its first event.\<close>

definition serve_begin ::
    "event_env \<Rightarrow> nat \<Rightarrow> object_event \<Rightarrow> 'g \<Rightarrow> foreground \<Rightarrow> exec_context \<Rightarrow> (termination_reason, 'g object_state) result" where
  "serve_begin ev idle first g tasks c =
     (let cpu = new_cpu_guard ev in
      if (case cpu of None \<Rightarrow> False | Some ce \<Rightarrow> ce_terminated ce) then Err CpuTimeLimit
      else Ok
        \<lparr>ob_context = c\<lparr>xc_cpu := cpu\<rparr>, ob_guest = g, ob_queue = [first], ob_mailbox = [], ob_mailbox_open = True,
         ob_mail_waker = False, ob_pending = [], ob_inflight = [], ob_closed = False, ob_next_gate = 0, ob_bodies = [],
         ob_tasks = tasks, ob_idle_at = ev_now ev + idle, ob_gate_at = None, ob_drain_at = None, ob_inputs = [], ob_answers = []\<rparr>)"

text \<open>\<open>run\<close>, over the events of the mailbox: an event starts an object, or is dropped if none can be built;
  the object serves some of the events after it.  Answers what became of each start.\<close>

fun run_mailbox ::
    "(nat \<Rightarrow> (termination_reason, 'o) result) \<Rightarrow> (nat \<Rightarrow> 'o \<Rightarrow> nat \<times> (termination_reason, unit) result) \<Rightarrow> nat \<Rightarrow>
       object_event list \<Rightarrow> (object_event \<times> (termination_reason, unit) result) list" where
  "run_mailbox build serve n [] = []"
| "run_mailbox build serve n (e # mailbox) =
     (case build n of
        Inl reason \<Rightarrow> (e, Err reason) # run_mailbox build serve (Suc n) mailbox
      | Inr object \<Rightarrow>
          (case serve n object of (taken, r) \<Rightarrow> (e, r) # run_mailbox build serve (Suc n) (drop taken mailbox)))"

end
