(* ===== verification/Object_Properties.thy ===== *)
theory Object_Properties
  imports Durable_Object
begin

text \<open>
  What holds of a Durable Object over any polls of its runner and of the tasks of its bodies: nothing
  goes in through a closed input gate, nothing leaves before the writes made before it, a held response
  has a caller, and a poll without callbacks runs no task of V8.
\<close>

section \<open>Runs of an object\<close>

datatype object_action = PollServe object_env | PollBody "nat \<Rightarrow> gate_poll" bool nat | BodyChunk nat payload

definition body_chunk :: "nat \<Rightarrow> payload \<Rightarrow> 'g object_state \<Rightarrow> 'g object_state" where
  "body_chunk i chunk s =
     (if i < length (ob_bodies s)
      then s\<lparr>ob_bodies := (ob_bodies s)[i := (ob_bodies s ! i)\<lparr>gb_chunks := gb_chunks (ob_bodies s ! i) @ [chunk]\<rparr>]\<rparr> else s)"

definition object_step :: "'g object_guest \<Rightarrow> object_action \<Rightarrow> 'g object_state \<Rightarrow> 'g object_state" where
  "object_step G a s =
     (case a of
        PollServe env \<Rightarrow> fst (poll_serve G env s)
      | PollBody gates reader i \<Rightarrow> poll_body gates reader i s
      | BodyChunk i chunk \<Rightarrow> body_chunk i chunk s)"

definition action_gates :: "object_action \<Rightarrow> nat \<Rightarrow> gate_poll" where
  "action_gates a = (case a of PollServe env \<Rightarrow> oe_gate env | PollBody gates _ _ \<Rightarrow> gates | BodyChunk _ _ \<Rightarrow> (\<lambda>_. GatePending))"

section \<open>The invariant\<close>

definition input_allowed :: "'g object_guest \<Rightarrow> 'g \<times> object_input \<Rightarrow> bool" where
  "input_allowed G gi =
     (case snd gi of
        InputEvent e \<Rightarrow> object_gate G (fst gi) = ObjectState False False
      | InputCallback m \<Rightarrow> (\<exists>blocked. object_gate G (fst gi) = ObjectState blocked True) \<longrightarrow> is_storage_message m)"

definition barriers_sent :: "scheduler_message list \<Rightarrow> nat list" where
  "barriers_sent ms = List.map_filter (\<lambda>m. case m of OutputBarrier n \<Rightarrow> Some n | _ \<Rightarrow> None) ms"

text \<open>Guest code has no way to send a barrier: only the runner does.\<close>

definition honest_call :: "('g, 'a) guest_call \<Rightarrow> bool" where
  "honest_call f \<longleftrightarrow> (\<forall>g. barriers_sent (fst (snd (f g))) = [])"

definition honest :: "'g object_guest \<Rightarrow> bool" where
  "honest G \<longleftrightarrow> (\<forall>req. honest_call (og_fetch G req)) \<and> (\<forall>n. honest_call (og_alarm G n)) \<and>
     (\<forall>ws incoming. honest_call (og_socket G ws incoming)) \<and> (\<forall>m. honest_call (og_callback G m)) \<and>
     (\<forall>i. honest_call (og_task G i)) \<and> (\<forall>run. honest_call (og_disconnect G run))"

text \<open>The invariant without the events in flight; \<open>P\<close> are the barriers that open.\<close>

definition base_inv :: "'g object_guest \<Rightarrow> (nat \<Rightarrow> bool) \<Rightarrow> 'g object_state \<Rightarrow> bool" where
  "base_inv G P s \<longleftrightarrow>
     list_all (input_allowed G) (ob_inputs s) \<and>
     barriers_sent (xc_sent (ob_context s)) = [0..<ob_next_gate s] \<and>
     (\<forall>p \<in> set (ob_answers s). P (fst p) \<and> fst p < ob_next_gate s) \<and>
     (\<forall>b \<in> set (ob_bodies s). \<forall>chunk n. gb_waiting b = Some (chunk, n) \<longrightarrow> n < ob_next_gate s)"

definition event_ok :: "nat \<Rightarrow> in_flight \<Rightarrow> bool" where
  "event_ok N e =
     (case e of
        InFetch f \<Rightarrow> (case fi_held f of None \<Rightarrow> True | Some (_, n) \<Rightarrow> fi_res_tx f \<noteq> None \<and> n < N)
      | InAlarm a \<Rightarrow> (case ai_held a of None \<Rightarrow> True | Some (_, n) \<Rightarrow> n < N)
      | InSocket _ \<Rightarrow> True)"

definition object_inv :: "'g object_guest \<Rightarrow> (nat \<Rightarrow> bool) \<Rightarrow> 'g object_state \<Rightarrow> bool" where
  "object_inv G P s \<longleftrightarrow> base_inv G P s \<and> list_all (event_ok (ob_next_gate s)) (ob_inflight s)"

lemma barriers_sent_simps [simp]:
  "barriers_sent [] = []" "barriers_sent (xs @ ys) = barriers_sent xs @ barriers_sent ys"
  "barriers_sent [OutputBarrier n] = [n]" "barriers_sent [ObjectUpgrade ws u] = []"
  by (simp_all add: barriers_sent_def map_filter_def)

lemma event_ok_mono: "event_ok N e \<Longrightarrow> N \<le> M \<Longrightarrow> event_ok M e"
  by (auto simp: event_ok_def split: in_flight.splits option.splits)

section \<open>Every step keeps the invariant\<close>

lemma send_inv: "barriers_sent ms = [] \<Longrightarrow> base_inv G P (object_send ms s) = base_inv G P s"
  by (simp add: base_inv_def object_send_def)

lemma send_keeps [simp]:
  "ob_next_gate (object_send ms s) = ob_next_gate s" "ob_inflight (object_send ms s) = ob_inflight s"
  "ob_guest (object_send ms s) = ob_guest s" "ob_pending (object_send ms s) = ob_pending s"
  "ob_tasks (object_send ms s) = ob_tasks s" "ob_bodies (object_send ms s) = ob_bodies s"
  by (simp_all add: object_send_def)

lemma call_keeps:
  assumes "call_object f s = (s', a)"
  shows "ob_next_gate s' = ob_next_gate s" "ob_inflight s' = ob_inflight s" "ob_pending s' = ob_pending s" "ob_tasks s' = ob_tasks s"
  using assms by (auto simp: call_object_def split: prod.splits)

lemma call_inv:
  assumes "honest_call f" "call_object f s = (s', a)"
  shows "base_inv G P s' = base_inv G P s"
proof -
  have s': "s' = object_send (fst (snd (f (ob_guest s)))) (s\<lparr>ob_guest := fst (f (ob_guest s))\<rparr>)"
    using assms(2) by (simp add: call_object_def Let_def case_prod_beta)
  have "barriers_sent (fst (snd (f (ob_guest s)))) = []" using assms(1) by (simp add: honest_call_def)
  then show "base_inv G P s' = base_inv G P s" by (simp add: s' send_inv) (simp add: base_inv_def)
qed

lemma barrier_inv:
  assumes "barrier s = (s', n)" "base_inv G P s"
  shows "base_inv G P s'" "n = ob_next_gate s" "ob_next_gate s' = Suc n" "ob_bodies s' = ob_bodies s" "ob_inflight s' = ob_inflight s"
proof -
  have s': "s' = object_send [OutputBarrier (ob_next_gate s)] (s\<lparr>ob_next_gate := Suc (ob_next_gate s)\<rparr>)" and n: "n = ob_next_gate s"
    using assms(1) by (auto simp: barrier_def Let_def)
  from assms(2) show "base_inv G P s'" unfolding s' base_inv_def by (auto simp: object_send_def intro: less_SucI)
  show "n = ob_next_gate s" "ob_next_gate s' = Suc n" "ob_bodies s' = ob_bodies s" "ob_inflight s' = ob_inflight s"
    by (simp_all add: s' n)
qed

lemma admit_inv:
  assumes "honest G" "base_inv G P s" "object_gate G (ob_guest s) = ObjectState False False" "admit G e s = (s', r)"
  shows "base_inv G P s'" "ob_next_gate s' = ob_next_gate s" "ob_inflight s' = ob_inflight s"
    "r = Inr ev \<Longrightarrow> event_ok N ev"
proof -
  let ?s = "s\<lparr>ob_inputs := ob_inputs s @ [(ob_guest s, InputEvent e)]\<rparr>"
  have logged: "base_inv G P ?s" using assms(2,3) by (simp add: base_inv_def input_allowed_def)
  have "base_inv G P s' \<and> ob_next_gate s' = ob_next_gate s \<and> ob_inflight s' = ob_inflight s \<and> (\<forall>ev. r = Inr ev \<longrightarrow> event_ok N ev)"
  proof (cases e)
    case (ObjectFetch req res_tx upgrade)
    obtain s1 a where call: "call_object (og_fetch G req) ?s = (s1, a)" by fastforce
    have "honest_call (og_fetch G req)" using assms(1) by (simp add: honest_def)
    from call_inv [OF this call, of G P] call_keeps [OF call] logged assms(4) ObjectFetch call show ?thesis
      by (cases a) (auto simp: admit_def event_ok_def)
  next
    case (ObjectAlarm n done_tx)
    obtain s1 a where call: "call_object (og_alarm G n) ?s = (s1, a)" by fastforce
    have "honest_call (og_alarm G n)" using assms(1) by (simp add: honest_def)
    from call_inv [OF this call, of G P] call_keeps [OF call] logged assms(4) ObjectAlarm call show ?thesis
      by (auto simp: admit_def event_ok_def)
  next
    case (ObjectSocketEvent ws incoming)
    obtain s1 a where call: "call_object (og_socket G ws incoming) ?s = (s1, a)" by fastforce
    have "honest_call (og_socket G ws incoming)" using assms(1) by (simp add: honest_def)
    from call_inv [OF this call, of G P] call_keeps [OF call] logged assms(4) ObjectSocketEvent call show ?thesis
      by (auto simp: admit_def event_ok_def)
  qed
  then show "base_inv G P s'" "ob_next_gate s' = ob_next_gate s" "ob_inflight s' = ob_inflight s" "r = Inr ev \<Longrightarrow> event_ok N ev"
    by auto
qed

lemma object_inv_update [simp]:
  "object_inv G P (s\<lparr>ob_queue := q\<rparr>) = object_inv G P s" "object_inv G P (s\<lparr>ob_mailbox := q\<rparr>) = object_inv G P s"
  "object_inv G P (s\<lparr>ob_mail_waker := b\<rparr>) = object_inv G P s" "object_inv G P (s\<lparr>ob_closed := b\<rparr>) = object_inv G P s"
  "object_inv G P (s\<lparr>ob_pending := ms\<rparr>) = object_inv G P s" "object_inv G P (s\<lparr>ob_tasks := t\<rparr>) = object_inv G P s"
  "object_inv G P (s\<lparr>ob_idle_at := at\<rparr>) = object_inv G P s" "object_inv G P (s\<lparr>ob_gate_at := mat\<rparr>) = object_inv G P s"
  "object_inv G P (s\<lparr>ob_drain_at := mat\<rparr>) = object_inv G P s"
  by (simp_all add: object_inv_def base_inv_def)

lemma object_inv_context: "xc_sent c = xc_sent (ob_context s) \<Longrightarrow> object_inv G P (s\<lparr>ob_context := c\<rparr>) = object_inv G P s"
  by (simp add: object_inv_def base_inv_def)

lemma mail_arrives_inv [simp]: "object_inv G P (mail_arrives mail s) = object_inv G P s" "ob_guest (mail_arrives mail s) = ob_guest s"
  by (simp_all add: mail_arrives_def object_inv_context)

lemma wake_object_inv [simp]: "object_inv G P (wake_object s) = object_inv G P s" "ob_guest (wake_object s) = ob_guest s"
  by (simp_all add: wake_object_def object_inv_context)

lemma receive_event_inv:
  assumes "receive_event s = (s', e)"
  shows "object_inv G P s' = object_inv G P s" "ob_guest s' = ob_guest s"
  using assms by (auto simp: receive_event_def split: list.splits if_splits)

lemma next_event_inv:
  assumes "next_event polls s = (polls', s', e)"
  shows "object_inv G P s' = object_inv G P s" "ob_guest s' = ob_guest s"
  using assms by (auto simp: next_event_def receive_event_inv split: list.splits mailbox_poll.splits)

lemma admit_loop_inv:
  assumes "honest G" "object_inv G P s"
  shows "object_inv G P (fst (admit_loop G fuel polls s))"
  using assms(2)
proof (induction fuel arbitrary: polls s)
  case (Suc fuel)
  show ?case
  proof (cases "object_gate G (ob_guest s) = ObjectState False False")
    case open_gate: True
    obtain polls1 s1 oe where n: "next_event polls s = (polls1, s1, oe)" by (metis surj_pair)
    have s1: "object_inv G P s1" "ob_guest s1 = ob_guest s" using next_event_inv [OF n] Suc.prems by simp_all
    show ?thesis
    proof (cases oe)
      case (Some e)
      obtain s2 r where a: "admit G e s1 = (s2, r)" by fastforce
      note inv = admit_inv [OF assms(1) _ _ a, of P]
      have base: "base_inv G P s1" "object_gate G (ob_guest s1) = ObjectState False False"
        using s1 open_gate by (simp_all add: object_inv_def)
      show ?thesis
      proof (cases r)
        case (Inl m)
        with inv [OF base] s1 n a Some open_gate show ?thesis by (simp add: object_inv_def)
      next
        case (Inr ev)
        have "object_inv G P (s2\<lparr>ob_inflight := ob_inflight s2 @ [ev]\<rparr>)"
          using inv(1-3) [OF base] inv(4) [OF base Inr, of "ob_next_gate s2"] s1(1)
          by (simp add: object_inv_def base_inv_def)
        from Suc.IH [OF this, of polls1] n a Some Inr open_gate show ?thesis by simp
      qed
    qed (use n s1 open_gate in simp)
  qed (use Suc.prems in simp)
qed simp

lemma call_object_inv:
  assumes "honest_call f" "object_inv G P s"
  shows "object_inv G P (fst (call_object f s))"
proof -
  obtain s' a where call: "call_object f s = (s', a)" by fastforce
  from call_inv [OF assms(1) call, of G P] call_keeps [OF call] assms(2) show ?thesis by (simp add: object_inv_def call)
qed

lemma run_tasks_inv: "honest G \<Longrightarrow> object_inv G P s \<Longrightarrow> object_inv G P (run_object_tasks G ids s)"
  by (induction ids arbitrary: s) (simp_all add: call_object_inv honest_def)

lemma process_inv:
  assumes "honest G" "object_inv G P s" "input_allowed G (ob_guest s, InputCallback m)"
  shows "object_inv G P (process_and_pump G now m s)"
proof -
  let ?s = "s\<lparr>ob_inputs := ob_inputs s @ [(ob_guest s, InputCallback m)]\<rparr>"
  have "object_inv G P ?s" using assms(2,3) by (simp add: object_inv_def base_inv_def)
  then have "object_inv G P (fst (call_object (og_callback G m) ?s))"
    using assms(1) by (simp add: call_object_inv honest_def)
  then show ?thesis
    using run_tasks_inv [OF assms(1)] by (simp add: process_and_pump_def Let_def split: prod.split)
qed

lemma next_callback_allowed:
  "next_callback G g pending = Some i \<Longrightarrow> input_allowed G (g, InputCallback (pending ! i))"
  by (auto simp: next_callback_def input_allowed_def dest: position_SomeD split: object_gate.splits bool.splits if_splits)

lemma drain_loop_inv:
  assumes "honest G" "object_inv G P s"
  shows "object_inv G P (fst (drain_loop G now fuel s))"
  using assms(2)
proof (induction fuel arbitrary: s)
  case (Suc fuel)
  show ?case
  proof (cases "next_callback G (ob_guest s) (ob_pending s)")
    case (Some i)
    have "object_inv G P (process_and_pump G now (ob_pending s ! i) (s\<lparr>ob_pending := remove_at i (ob_pending s)\<rparr>))"
      using Suc.prems next_callback_allowed [OF Some] by (intro process_inv [OF assms(1)]) simp_all
    from Suc.IH [OF this] Some show ?thesis by simp
  qed (use Suc.prems in simp)
qed simp

lemma drain_gated_inv:
  assumes "honest G" "object_inv G P s"
  shows "object_inv G P (fst (drain_gated G now s))"
proof -
  let ?s = "s\<lparr>ob_pending := ob_pending s @ xc_inbox (ob_context s), ob_context := (ob_context s)\<lparr>xc_inbox := []\<rparr>\<rparr>"
  have inv: "object_inv G P ?s" using assms(2) by (simp add: object_inv_context)
  then have "object_inv G P (?s\<lparr>ob_context := (ob_context ?s)\<lparr>xc_rx_waker := True\<rparr>\<rparr>)"
    by (subst object_inv_context) simp_all
  from drain_loop_inv [OF assms(1) this] inv show ?thesis by (simp add: drain_gated_def Let_def)
qed

section \<open>Answers\<close>

text \<open>A step from s to s' that keeps the invariant and takes further barriers at most.\<close>

definition advances :: "'g object_guest \<Rightarrow> (nat \<Rightarrow> bool) \<Rightarrow> 'g object_state \<Rightarrow> 'g object_state \<Rightarrow> bool" where
  "advances G P s s' \<longleftrightarrow> base_inv G P s \<longrightarrow> base_inv G P s' \<and> ob_next_gate s \<le> ob_next_gate s'"

lemma advances_refl [simp]: "advances G P s s"
  by (simp add: advances_def)

lemma advances_trans: "advances G P s t \<Longrightarrow> advances G P t u \<Longrightarrow> advances G P s u"
  by (auto simp: advances_def)

lemma advances_answer:
  assumes "P n" "n < ob_next_gate s"
  shows "advances G P s (s\<lparr>ob_answers := ob_answers s @ [(n, a)]\<rparr>)"
  using assms by (auto simp: advances_def base_inv_def)

lemma advances_barrier: "advances G P s (fst (barrier s))"
proof (cases "barrier s")
  case (Pair s' n)
  from barrier_inv [OF Pair, of G P] Pair show ?thesis by (auto simp: advances_def)
qed

lemma barrier_below: "barrier s = (s', n) \<Longrightarrow> n < ob_next_gate s'"
  by (auto simp: barrier_def Let_def)

definition gates_within :: "(nat \<Rightarrow> bool) \<Rightarrow> (nat \<Rightarrow> gate_poll) \<Rightarrow> bool" where
  "gates_within P gates \<longleftrightarrow> (\<forall>n. gates n = GateReady True \<longrightarrow> P n)"

lemma answer_alarm_advances:
  assumes "gates_within P gates" "event_ok (ob_next_gate s) (InAlarm a)" "answer_alarm G gates a s = (s', kept, b)"
  shows "advances G P s s' \<and> (\<forall>e. kept = Some e \<longrightarrow> event_ok (ob_next_gate s') e)"
proof -
  obtain s1 a1 where hold: "hold_outcome G a s = (s1, a1)" by fastforce
  have s1: "advances G P s s1" "event_ok (ob_next_gate s1) (InAlarm a1)"
    using hold assms(2) advances_barrier [of G P s] barrier_below [of s]
    by (auto simp: hold_outcome_def event_ok_def split: option.splits prod.splits)
  have "P n \<and> n < ob_next_gate s1" if "ai_held a1 = Some (r, n)" "gates n = GateReady True" for r n
    using that s1(2) assms(1) by (simp add: event_ok_def gates_within_def)
  with advances_answer [of P _ s1 G] advances_trans [OF s1(1)] s1 hold assms(3) show ?thesis
    by (auto simp: answer_alarm_def split: option.splits gate_poll.splits bool.splits)
qed

lemma gated_advances: "advances G P s (fst (gate_body body s))"
  by (auto simp: advances_def gate_body_def base_inv_def split: object_body.split)

lemma upgrade_advances: "advances G P s (fst (answer_upgrade socket upgrade status response s))"
  by (auto simp: advances_def answer_upgrade_def send_inv split: option.split)

lemma hold_response_advances:
  assumes "event_ok (ob_next_gate s) (InFetch f)" "hold_response G f s = (s', f', b)"
  shows "advances G P s s' \<and> event_ok (ob_next_gate s') (InFetch f')"
proof (cases "fi_res_tx f \<noteq> None \<and> fi_held f = None \<and>
    check_exit_condition (Some (og_handle G (ob_guest s) (fi_run f))) ResponseReady")
  case True
  show ?thesis
  proof (cases "og_response G (ob_guest s) (fi_run f)")
    case (Inr p)
    obtain status response where p: "p = (status, response)" by fastforce
    let ?u = "answer_upgrade (og_response_socket G (ob_guest s) (fi_run f)) (fi_upgrade f) status response s"
    obtain s1 r1 where u: "?u = (s1, r1)" by fastforce
    obtain s2 body where g: "gate_body (or_body r1) s1 = (s2, body)" by fastforce
    obtain s3 n where n: "barrier s2 = (s3, n)" by fastforce
    have "advances G P s s3"
      using advances_trans upgrade_advances [of G P s] gated_advances [of G P s1] advances_barrier [of G P s2] u g n
      by (metis fst_conv)
    with True Inr p u g n barrier_below [OF n] assms(2) show ?thesis
      by (auto simp: hold_response_def event_ok_def)
  qed (use True assms in \<open>auto simp: hold_response_def event_ok_def\<close>)
next
  case False
  with assms show ?thesis by (auto simp: hold_response_def)
qed

lemma release_response_advances:
  assumes "gates_within P gates" "event_ok (ob_next_gate s) (InFetch f)" "release_response gates f s = (s', f', b)"
  shows "advances G P s s' \<and> event_ok (ob_next_gate s') (InFetch f')"
proof (cases "fi_held f")
  case (Some p)
  obtain response n where p: "p = (response, n)" by fastforce
  have "n < ob_next_gate s" "fi_res_tx f \<noteq> None" using assms(2) Some p by (auto simp: event_ok_def)
  moreover have "P n" if "gates n = GateReady True" using assms(1) that by (simp add: gates_within_def)
  ultimately show ?thesis using assms(2,3) Some p advances_answer [of P n s G]
    by (auto simp: release_response_def event_ok_def split: gate_poll.splits if_splits)
qed (use assms in \<open>auto simp: release_response_def\<close>)

lemma signal_advances:
  assumes "honest G" "event_ok (ob_next_gate s) (InFetch f)" "signal_disconnect G client f s = (s', f', b)"
  shows "advances G P s s' \<and> event_ok (ob_next_gate s') (InFetch f')"
proof -
  obtain s1 u where call: "call_object (og_disconnect G (fi_run f)) s = (s1, u)" by (cases "call_object (og_disconnect G (fi_run f)) s")
  have "honest_call (og_disconnect G (fi_run f))" using assms(1) by (simp add: honest_def)
  from call_inv [OF this call, of G P] call_keeps [OF call] assms(2,3) call show ?thesis
    by (auto simp: signal_disconnect_def Let_def advances_def event_ok_def split: if_splits option.splits)
qed

lemma answer_event_advances:
  assumes "honest G" "gates_within P (oe_gate env)" "event_ok (ob_next_gate s) e" "answer_event G env e s = (s', kept, b)"
  shows "advances G P s s' \<and> (\<forall>e'. kept = Some e' \<longrightarrow> event_ok (ob_next_gate s') e')"
proof (cases e)
  case (InFetch f)
  obtain s1 f1 b1 where hold: "hold_response G f s = (s1, f1, b1)" by (metis surj_pair)
  obtain s2 f2 b2 where release: "release_response (oe_gate env) f1 s1 = (s2, f2, b2)" by (metis surj_pair)
  obtain s3 f3 b3 where signal: "signal_disconnect G (oe_has_sender env) f2 s2 = (s3, f3, b3)" by (metis surj_pair)
  have 1: "advances G P s s1" "event_ok (ob_next_gate s1) (InFetch f1)"
    using hold_response_advances [OF _ hold, of P] assms(3) InFetch by simp_all
  have 2: "advances G P s1 s2" "event_ok (ob_next_gate s2) (InFetch f2)"
    using release_response_advances [OF assms(2) 1(2) release] by simp_all
  have 3: "advances G P s2 s3" "event_ok (ob_next_gate s3) (InFetch f3)"
    using signal_advances [OF assms(1) 2(2) signal] by simp_all
  have "advances G P s s3" using 1 2 3 advances_trans by blast
  with 3 InFetch hold release signal assms(4) show ?thesis
    by (auto simp: answer_event_def answer_fetch_event_def Let_def split: if_splits)
next
  case (InAlarm a)
  with answer_alarm_advances [OF assms(2)] assms(3,4) show ?thesis by (simp add: answer_event_def)
next
  case (InSocket run)
  with assms(4) show ?thesis by (auto simp: answer_event_def answer_socket_def event_ok_def split: if_splits)
qed

lemma answer_events_advances:
  assumes "honest G" "gates_within P (oe_gate env)"
  shows "list_all (event_ok (ob_next_gate s)) es \<Longrightarrow> base_inv G P s \<Longrightarrow> answer_events G env es s = (s', kept, b) \<Longrightarrow>
    base_inv G P s' \<and> ob_next_gate s \<le> ob_next_gate s' \<and> list_all (event_ok (ob_next_gate s')) kept"
proof (induction es arbitrary: s s' kept b)
  case (Cons e es)
  obtain s1 k1 b1 where e: "answer_event G env e s = (s1, k1, b1)" by (metis surj_pair)
  obtain s2 k2 b2 where es: "answer_events G env es s1 = (s2, k2, b2)" by (metis surj_pair)
  have 1: "advances G P s s1" "\<forall>e'. k1 = Some e' \<longrightarrow> event_ok (ob_next_gate s1) e'"
    using answer_event_advances [OF assms _ e] Cons.prems(1) by auto
  then have inv1: "base_inv G P s1" "ob_next_gate s \<le> ob_next_gate s1" using Cons.prems(2) by (auto simp: advances_def)
  have "list_all (event_ok (ob_next_gate s1)) es"
    using Cons.prems(1) inv1(2) by (auto simp: list_all_iff intro: event_ok_mono)
  from Cons.IH [OF this inv1(1) es] have 2: "base_inv G P s2" "ob_next_gate s1 \<le> ob_next_gate s2"
    "list_all (event_ok (ob_next_gate s2)) k2" by auto
  with 1 inv1 Cons.prems(3) e es show ?case
    by (auto split: option.splits intro: event_ok_mono)
qed simp

lemma answer_inflight_inv:
  assumes "honest G" "gates_within P (oe_gate env)" "object_inv G P s"
  shows "object_inv G P (fst (answer_inflight G env s))"
proof -
  obtain s' kept b where a: "answer_events G env (ob_inflight s) s = (s', kept, b)" by (metis surj_pair)
  with answer_events_advances [OF assms(1,2) _ _ a] assms(3) show ?thesis
    by (simp add: answer_inflight_def object_inv_def base_inv_def)
qed

section \<open>Turns and polls\<close>

lemma sent_keeps [simp]:
  "xc_sent (apply_js f c) = xc_sent c" "xc_sent (begin_guard p c) = xc_sent c" "xc_sent (drop_guard p c) = xc_sent c"
  "xc_sent (drop_turn_wall w c) = xc_sent c" "xc_sent (fst (begin_turn_wall p wall c)) = xc_sent c"
  by (simp_all add: apply_js_def arrive_def begin_guard_def drop_guard_def drop_turn_wall_def begin_turn_wall_def Let_def
      split: option.split wall_clock.split prod.split)

lemma arrivals_inv: "object_inv G P (object_arrivals env n s) = object_inv G P s"
  by (simp add: object_arrivals_def object_inv_context)

lemma turn_rounds_inv:
  assumes "honest G" "gates_within P (oe_gate env)" "object_inv G P s"
  shows "object_inv G P (fst (turn_rounds G env n took s))"
  using assms(3)
proof (induction n arbitrary: s took)
  case (Suc n)
  obtain s1 r1 where
    a: "admit_events G (oe_receives env (MAX_ROUNDS - Suc n)) (object_arrivals env (MAX_ROUNDS - Suc n) s) = (s1, r1)" by fastforce
  have 1: "object_inv G P s1"
    using admit_loop_inv [OF assms(1)] Suc.prems a arrivals_inv by (metis admit_events_def fst_conv)
  show ?case
  proof (cases r1)
    case (Inr admitted)
    obtain s2 r2 where d: "drain_gated G (pe_now (oe_poll env)) s1 = (s2, r2)" by fastforce
    have 2: "object_inv G P s2" using drain_gated_inv [OF assms(1) 1] d by (metis fst_conv)
    show ?thesis
    proof (cases r2)
      case (Inr processed)
      obtain s3 answered where e: "answer_inflight G env s2 = (s3, answered)" by fastforce
      have 3: "object_inv G P s3" using answer_inflight_inv [OF assms(1,2) 2] e by (metis fst_conv)
      then have "object_inv G P (wake_object s3)" by simp
      with Suc.IH 2 3 a d e \<open>r1 = Inr admitted\<close> Inr show ?thesis
        by (simp add: Let_def split: object_gate.split)
    qed (use a d 2 \<open>r1 = Inr admitted\<close> in simp)
  qed (use a 1 in simp)
qed simp

lemma guarded_turn_inv:
  assumes "honest G" "gates_within P (oe_gate env)" "object_inv G P s" "guarded_turn G env s = (s', r, limit)"
  shows "object_inv G P s'"
proof -
  let ?p = "oe_poll env"
  obtain c wall where w: "begin_turn_wall ?p (WallPerTurn (oe_max_wall_ms env)) (ob_context s) = (c, wall)" by fastforce
  obtain s1 r1 where t: "object_turn G env (s\<lparr>ob_context := begin_guard ?p c\<rparr>) = (s1, r1)" by fastforce
  have "xc_sent c = xc_sent (ob_context s)" using w by (metis fst_conv sent_keeps(5))
  then have "object_inv G P (s\<lparr>ob_context := begin_guard ?p c\<rparr>)" using assms(3) by (simp add: object_inv_context)
  from turn_rounds_inv [OF assms(1,2) this] t have "object_inv G P s1" by (metis fst_conv object_turn_def)
  with assms(4) w t show ?thesis by (auto simp: guarded_turn_def Let_def object_inv_context)
qed

lemma serve_end_inv: "object_inv G P s \<Longrightarrow> object_inv G P (fst (serve_end env busy s))"
proof -
  assume "object_inv G P s"
  then have "object_inv G P (s\<lparr>ob_inflight := filter q (ob_inflight s)\<rparr>)" for q
    by (auto simp: object_inv_def base_inv_def list_all_iff)
  from this [of "\<lambda>_. False"] this show ?thesis by (simp add: serve_end_def Let_def)
qed

lemma gate_timer_inv: "gate_timer now blocked s = (s', b) \<Longrightarrow> object_inv G P s' = object_inv G P s"
  by (auto simp: gate_timer_def Let_def split: if_splits)

lemma poll_serve_inv:
  assumes "honest G" "gates_within P (oe_gate env)" "object_inv G P s"
  shows "object_inv G P (fst (poll_serve G env s))"
proof -
  let ?s = "s\<lparr>ob_context := (ob_context s)\<lparr>xc_woken := False\<rparr>,
    ob_tasks := fst (waiter_register (pe_waker (oe_poll env)) (ob_tasks s) \<lparr>wt_waker = None\<rparr>)\<rparr>"
  have "object_inv G P ?s" using assms(3) by (simp add: object_inv_context)
  obtain s1 r limit where t: "guarded_turn G env ?s = (s1, r, limit)" by (metis surj_pair)
  have 1: "object_inv G P s1" using guarded_turn_inv [OF assms(1,2) \<open>object_inv G P ?s\<close> t] .
  have "object_inv G P s2" if "gate_timer (pe_now (oe_poll env)) blocked s1 = (s2, b)" for blocked s2 b
    using gate_timer_inv [OF that] 1 by simp
  with 1 t show ?thesis
    by (auto simp: poll_serve_def Let_def intro!: serve_end_inv split: option.split sum.split object_gate.split prod.split bool.split)
qed

lemma poll_body_inv:
  assumes "gates_within P gates" "object_inv G P s"
  shows "object_inv G P (poll_body gates reader i s)"
proof (cases "length (ob_bodies s) \<le> i \<or> gb_ended (ob_bodies s ! i)")
  case True
  then show ?thesis using assms(2) by (auto simp: poll_body_def Let_def)
next
  case False
  let ?b = "ob_bodies s ! i"
  have b: "?b \<in> set (ob_bodies s)" using False by simp
  have update: "object_inv G P (t\<lparr>ob_bodies := (ob_bodies s)[i := b']\<rparr>)"
    if "object_inv G P t" "ob_bodies t = ob_bodies s" "\<forall>chunk n. gb_waiting b' = Some (chunk, n) \<longrightarrow> n < ob_next_gate t" for t b'
    using that by (auto simp: object_inv_def base_inv_def dest!: subsetD [OF set_update_subset_insert])
  show ?thesis
  proof (cases "gb_waiting ?b")
    case None
    show ?thesis
    proof (cases "gb_chunks ?b")
      case (Cons chunk chunks)
      obtain t n where t: "barrier s = (t, n)" by fastforce
      have base: "base_inv G P s" using assms(2) by (simp add: object_inv_def)
      note inv = barrier_inv [OF t base]
      have "object_inv G P t"
        using inv assms(2) by (auto simp: object_inv_def list_all_iff intro: event_ok_mono)
      from update [OF this inv(4), of "?b\<lparr>gb_chunks := chunks, gb_waiting := Some (chunk, n)\<rparr>"] inv None Cons t False
      show ?thesis by (simp add: poll_body_def Let_def)
    qed (use assms(2) None False in \<open>simp add: poll_body_def Let_def\<close>)
  next
    case (Some p)
    obtain chunk n where p: "p = (chunk, n)" by fastforce
    have "n < ob_next_gate s" using assms(2) b Some p by (auto simp: object_inv_def base_inv_def)
    moreover have "P n" if "gates n = GateReady True" using that assms(1) by (simp add: gates_within_def)
    ultimately have answer: "object_inv G P (t\<lparr>ob_answers := ob_answers t @ [(n, a)]\<rparr>)"
      if "gates n = GateReady True" "object_inv G P t" "ob_next_gate t = ob_next_gate s" for t a
      using that by (auto simp: object_inv_def base_inv_def)
    show ?thesis
      using update [OF assms(2)] answer [OF _ update [OF assms(2)]] assms(2) Some p False
      by (auto simp: poll_body_def Let_def split: gate_poll.split bool.split)
  qed
qed

lemma object_step_inv:
  assumes "honest G" "gates_within P (action_gates a)" "object_inv G P s"
  shows "object_inv G P (object_step G a s)"
proof (cases a)
  case (BodyChunk i chunk)
  have "base_inv G P (body_chunk i chunk s)"
    using assms(3) nth_mem [of i "ob_bodies s"]
    by (auto simp: object_inv_def base_inv_def body_chunk_def simp del: nth_mem dest!: subsetD [OF set_update_subset_insert])
  with assms(3) BodyChunk show ?thesis by (simp add: object_step_def object_inv_def body_chunk_def)
qed (use assms poll_serve_inv poll_body_inv in \<open>auto simp: object_step_def action_gates_def\<close>)

lemma object_run_inv:
  assumes "honest G" "\<forall>a \<in> set as. gates_within P (action_gates a)" "object_inv G P s"
  shows "object_inv G P (fold (object_step G) as s)"
  using assms(2,3)
proof (induction as arbitrary: s)
  case (Cons a as)
  with object_step_inv [OF assms(1)] show ?case by simp
qed simp

lemma serve_begin_inv:
  "serve_begin ev idle first g tasks c = Ok s \<Longrightarrow> barriers_sent (xc_sent c) = [] \<Longrightarrow> object_inv G P s"
  by (auto simp: serve_begin_def Let_def object_inv_def base_inv_def split: if_splits)

section \<open>The queue behind the object\<close>

text \<open>The work the scheduler queues for the messages of the object (\<open>handle_object\<close>), without the barriers
  of outbound calls, which open no other barrier and perform nothing.\<close>

definition object_work :: "scheduler_message list \<Rightarrow> queued list" where
  "object_work ms = List.map_filter (\<lambda>m. case m of
     ObjectStorage i op \<Rightarrow> Some (QStorage i op) | ObjectSocket op waiting \<Rightarrow> Some (QSocket op waiting)
   | OutputBarrier n \<Rightarrow> Some (QBarrier (ReplyGate n)) | _ \<Rightarrow> None) ms"

lemma object_work_simps [simp]:
  "object_work [] = []" "object_work (xs @ ys) = object_work xs @ object_work ys"
  "object_work (OutputBarrier n # ms) = QBarrier (ReplyGate n) # object_work ms"
  by (simp_all add: object_work_def map_filter_def)

lemma barriers_object_work: "barriers (object_work ms) = map ReplyGate (barriers_sent ms)"
proof (induction ms)
  case (Cons m ms)
  have "object_work (m # ms) = object_work [m] @ object_work ms" "barriers_sent (m # ms) = barriers_sent [m] @ barriers_sent ms"
    using object_work_simps(2) [of "[m]" ms] barriers_sent_simps(2) [of "[m]" ms] by simp_all
  moreover have "barriers (object_work [m] @ ws) = map ReplyGate (barriers_sent [m]) @ barriers ws" for ws
    by (cases m) (simp_all add: object_work_def barriers_sent_def map_filter_def)
  ultimately show ?case using Cons by simp
qed simp

lemma opened_barriers: "set (oq_opened (run_object_queue h ws q)) \<subseteq> set (oq_opened q) \<union> set (barriers ws)"
proof (induction ws arbitrary: q)
  case (Cons w ws)
  have "set (oq_opened (object_queue_step h w q)) \<subseteq> set (oq_opened q) \<union> set (barriers [w])"
    by (cases w) (auto simp: object_queue_step_def Let_def split: prod.splits)
  moreover have "set (barriers (w # ws)) = set (barriers [w]) \<union> set (barriers ws)"
    by (cases w) simp_all
  ultimately show ?case using Cons [of "object_queue_step h w q"] by (auto simp: run_object_queue_Cons)
qed simp

lemma opened_after:
  assumes "g \<in> set (oq_opened (run_object_queue h (xs @ QBarrier g # ys) q))" "g \<notin> set (oq_opened q)" "g \<notin> set (barriers xs)"
  shows "\<not> oq_failed (run_object_queue h xs q)"
proof
  assume "oq_failed (run_object_queue h xs q)"
  from run_failed [OF this, of h "QBarrier g # ys"] assms opened_barriers [of h xs q]
  show False by (auto simp: run_object_queue_append)
qed

section \<open>The bounds of the loops\<close>

text \<open>The bounds of the two loops are never what ends them: more fuel changes nothing of the admission, and callbacks are drained until the
  gate lets none in.\<close>

lemma admit_waits:
  "admit G e s = (s', r) \<Longrightarrow> ob_queue s' = ob_queue s \<and> ob_mailbox s' = ob_mailbox s"
  by (auto simp: admit_def call_object_def object_send_def Let_def split: object_event.splits prod.splits sum.splits)

lemma receive_waits:
  "receive_event s = (s', Some e) \<Longrightarrow> ob_queue s' = ob_queue s \<and> Suc (length (ob_mailbox s')) = length (ob_mailbox s)"
  by (auto simp: receive_event_def split: list.splits if_splits)

lemma next_event_waits:
  assumes "next_event polls s = (polls', s', Some e)"
  shows "Suc (length (ob_queue s') + length (ob_mailbox s') + mail_size polls') = length (ob_queue s) + length (ob_mailbox s) + mail_size polls"
  using assms by (auto simp: next_event_def mail_arrives_def dest!: receive_waits split: list.splits mailbox_poll.splits if_splits)

lemma admit_loop_fuel:
  assumes "length (ob_queue s) + length (ob_mailbox s) + mail_size polls < fuel"
  shows "admit_loop G (fuel + k) polls s = admit_loop G fuel polls s"
  using assms
proof (induction fuel arbitrary: polls s)
  case (Suc fuel)
  obtain polls1 s1 oe where n: "next_event polls s = (polls1, s1, oe)" by (metis surj_pair)
  show ?case
  proof (cases oe)
    case (Some e)
    obtain s2 r where a: "admit G e s1 = (s2, r)" by fastforce
    have "admit_loop G (fuel + k) polls1 (s2\<lparr>ob_inflight := ob_inflight s2 @ [ev]\<rparr>) =
        admit_loop G fuel polls1 (s2\<lparr>ob_inflight := ob_inflight s2 @ [ev]\<rparr>)" for ev
      using next_event_waits n Some Suc.prems admit_waits [OF a] by (intro Suc.IH) fastforce
    then show ?thesis using n a Some by (simp split: sum.split)
  qed (use n in simp)
qed simp

lemma call_pending: "ob_pending (fst (call_object f s)) = ob_pending s"
  by (simp add: call_object_def Let_def case_prod_beta)

lemma run_tasks_pending: "ob_pending (run_object_tasks G ids s) = ob_pending s"
  by (induction ids arbitrary: s) (simp_all add: call_pending)

lemma process_pending: "ob_pending (process_and_pump G now m s) = ob_pending s"
  by (simp add: process_and_pump_def run_tasks_pending call_pending Let_def case_prod_beta)

lemma drain_loop_done:
  assumes "length (ob_pending s) \<le> fuel" "drain_loop G now fuel s = (s', n)"
  shows "next_callback G (ob_guest s') (ob_pending s') = None"
  using assms
proof (induction fuel arbitrary: s n)
  case 0
  then show ?case by (auto simp: next_callback_def position_None_iff split: object_gate.splits bool.splits)
next
  case (Suc fuel)
  show ?case
  proof (cases "next_callback G (ob_guest s) (ob_pending s)")
    case (Some i)
    then have "i < length (ob_pending s)"
      by (auto simp: next_callback_def dest: position_SomeD split: object_gate.splits bool.splits if_splits)
    let ?s = "process_and_pump G now (ob_pending s ! i) (s\<lparr>ob_pending := remove_at i (ob_pending s)\<rparr>)"
    have "length (ob_pending ?s) \<le> fuel" using \<open>i < length (ob_pending s)\<close> Suc.prems(1) by (simp add: process_pending)
    moreover obtain m where "drain_loop G now fuel ?s = (s', m)"
      using Suc.prems(2) Some by (cases "drain_loop G now fuel ?s") auto
    ultimately show ?thesis by (rule Suc.IH)
  qed (use Suc.prems in auto)
qed

section \<open>Turns without callbacks\<close>

text \<open>What the parts of a turn leave alone when no callback waits.\<close>

definition idle_like :: "'g object_state \<Rightarrow> 'g object_state \<Rightarrow> bool" where
  "idle_like s s' \<longleftrightarrow> ob_tasks s' = ob_tasks s \<and> ob_pending s' = ob_pending s \<and>
     xc_inbox (ob_context s') = xc_inbox (ob_context s)"

lemma idle_like_refl [simp]: "idle_like s s"
  by (simp add: idle_like_def)

lemma idle_like_trans: "idle_like s t \<Longrightarrow> idle_like t u \<Longrightarrow> idle_like s u"
  by (simp add: idle_like_def)

lemma idle_like_send [simp]: "idle_like s (object_send ms s)"
  by (simp add: idle_like_def object_send_def)

lemma idle_like_fst_call [simp]: "idle_like s (fst (call_object f s))"
  by (simp add: idle_like_def call_object_def object_send_def split: prod.splits)

lemma idle_like_call: "call_object f s = (s', a) \<Longrightarrow> idle_like s s'"
  using idle_like_fst_call [of s f] by simp

lemma idle_like_barrier: "barrier s = (s', n) \<Longrightarrow> idle_like s s'"
  by (auto simp: barrier_def Let_def idle_like_def object_send_def)

lemma idle_like_admit: "admit G e s = (s', r) \<Longrightarrow> idle_like s s'"
  by (auto simp: admit_def Let_def idle_like_def dest!: idle_like_call split: object_event.splits prod.splits sum.splits)

lemma idle_like_next: "next_event polls s = (polls', s', e) \<Longrightarrow> idle_like s s'"
  by (auto simp: next_event_def receive_event_def mail_arrives_def wake_object_def idle_like_def
      split: list.splits mailbox_poll.splits if_splits)

lemma idle_like_admit_loop: "idle_like s (fst (admit_loop G fuel polls s))"
proof (induction fuel arbitrary: polls s)
  case (Suc fuel)
  obtain polls1 s1 oe where n: "next_event polls s = (polls1, s1, oe)" by (metis surj_pair)
  show ?case
  proof (cases oe)
    case (Some e)
    obtain s2 r where a: "admit G e s1 = (s2, r)" by fastforce
    have "idle_like s s2" using idle_like_trans idle_like_next [OF n] idle_like_admit [OF a] by blast
    moreover have "idle_like s2 (fst (admit_loop G fuel polls1 (s2\<lparr>ob_inflight := ob_inflight s2 @ [ev]\<rparr>)))" for ev
      using Suc [of "s2\<lparr>ob_inflight := ob_inflight s2 @ [ev]\<rparr>" polls1] by (simp add: idle_like_def)
    ultimately show ?thesis using n a Some by (cases r) (auto intro: idle_like_trans)
  qed (use n idle_like_next [OF n] in simp)
qed simp

lemma idle_like_drain:
  assumes "ob_pending s = []" "xc_inbox (ob_context s) = []"
  shows "idle_like s (fst (drain_gated G now s))"
  using assms by (simp add: drain_gated_def Let_def idle_like_def)

lemma idle_like_upgrade: "answer_upgrade socket upgrade status response s = (s', r) \<Longrightarrow> idle_like s s'"
  by (auto simp: answer_upgrade_def split: option.splits if_splits)

lemma idle_like_gated: "gate_body body s = (s', b) \<Longrightarrow> idle_like s s'"
  by (auto simp: gate_body_def idle_like_def split: object_body.splits)

lemma idle_like_hold: "hold_response G f s = (s', f', b) \<Longrightarrow> idle_like s s'"
  by (auto simp: hold_response_def Let_def dest!: idle_like_upgrade idle_like_gated idle_like_barrier
      intro: idle_like_trans split: if_splits sum.splits prod.splits)

lemma idle_like_answer: "answer_event G env e s = (s', kept, b) \<Longrightarrow> idle_like s s'"
proof (cases e)
  case (InFetch f)
  obtain s1 f1 b1 where hold: "hold_response G f s = (s1, f1, b1)" by (metis surj_pair)
  obtain s2 f2 b2 where release: "release_response (oe_gate env) f1 s1 = (s2, f2, b2)" by (metis surj_pair)
  obtain s3 f3 b3 where signal: "signal_disconnect G (oe_has_sender env) f2 s2 = (s3, f3, b3)" by (metis surj_pair)
  have "idle_like s s1" using idle_like_hold [OF hold] .
  moreover have "idle_like s1 s2"
    using release by (auto simp: release_response_def idle_like_def split: option.splits gate_poll.splits if_splits)
  moreover have "idle_like s2 s3"
    using signal by (auto simp: signal_disconnect_def Let_def split: if_splits)
  moreover assume "answer_event G env e s = (s', kept, b)"
  ultimately show ?thesis
    using InFetch hold release signal by (auto simp: answer_event_def answer_fetch_event_def Let_def intro: idle_like_trans)
next
  case (InAlarm a)
  assume "answer_event G env e s = (s', kept, b)"
  with InAlarm show ?thesis
    by (auto simp: answer_event_def answer_alarm_def hold_outcome_def barrier_def object_send_def idle_like_def Let_def
        split: option.splits gate_poll.splits bool.splits)
next
  case (InSocket run)
  assume "answer_event G env e s = (s', kept, b)"
  with InSocket show ?thesis by (auto simp: answer_event_def answer_socket_def split: if_splits)
qed

lemma idle_like_answers: "answer_events G env es s = (s', kept, b) \<Longrightarrow> idle_like s s'"
proof (induction es arbitrary: s s' kept b)
  case (Cons e es)
  obtain s1 k1 b1 where e: "answer_event G env e s = (s1, k1, b1)" by (metis surj_pair)
  obtain s2 k2 b2 where es: "answer_events G env es s1 = (s2, k2, b2)" by (metis surj_pair)
  from Cons.prems e es have "s' = s2" by simp
  with idle_like_trans [OF idle_like_answer [OF e] Cons.IH [OF es]] show ?case by simp
qed simp

lemma serve_end_tasks: "ob_tasks (fst (serve_end env busy s)) = ob_tasks s"
  by (simp add: serve_end_def Let_def)

lemma gate_timer_tasks: "gate_timer now blocked s = (s', b) \<Longrightarrow> ob_tasks s' = ob_tasks s"
  by (auto simp: gate_timer_def Let_def split: if_splits)

lemma turn_runs_no_task:
  assumes "\<And>r. jf_arrivals (pe_js (oe_poll env) r []) = []" "ob_pending s = []" "xc_inbox (ob_context s) = []"
  shows "idle_like s (fst (turn_rounds G env n took s))"
  using assms(2,3)
proof (induction n arbitrary: s took)
  case (Suc n)
  let ?s0 = "object_arrivals env (MAX_ROUNDS - Suc n) s"
  obtain s1 r1 where a: "admit_events G (oe_receives env (MAX_ROUNDS - Suc n)) ?s0 = (s1, r1)" by fastforce
  have "idle_like s ?s0" using assms(1) by (simp add: object_arrivals_def mail_arrives_def idle_like_def apply_js_def arrive_def)
  then have 1: "idle_like s s1"
    using idle_like_admit_loop [of ?s0 G _ "oe_receives env (MAX_ROUNDS - Suc n)"] a idle_like_trans by (metis admit_events_def fst_conv)
  obtain s2 r2 where d: "drain_gated G (pe_now (oe_poll env)) s1 = (s2, r2)" by fastforce
  have "idle_like s1 s2" using idle_like_drain [of s1 G] 1 Suc.prems d by (metis fst_conv idle_like_def)
  with 1 have 2: "idle_like s s2" using idle_like_trans by blast
  obtain s3 kept answered where e: "answer_events G env (ob_inflight s2) s2 = (s3, kept, answered)" by (metis surj_pair)
  have 3: "idle_like s (s3\<lparr>ob_inflight := kept\<rparr>)" using idle_like_answers [OF e] 2 by (simp add: idle_like_def)
  have "idle_like s (fst (turn_rounds G env n took' t))" if "idle_like s t" for took' t
    using Suc.IH [of t took'] Suc.prems that by (auto simp: idle_like_def)
  moreover have "idle_like s (wake_object (s3\<lparr>ob_inflight := kept\<rparr>))" using 3 by (simp add: idle_like_def wake_object_def)
  ultimately show ?case using 1 2 3 a d e
    by (simp add: answer_inflight_def Let_def split: sum.split object_gate.split)
qed simp

section \<open>A sample object\<close>

definition sample_guest :: "nat object_guest" where
  "sample_guest =
     \<lparr>og_failure = (\<lambda>_. None), og_blocked = (\<lambda>_. False), og_reading = (\<lambda>_. False), og_pinned = (\<lambda>_. False),
      og_fetch = (\<lambda>req g. (Suc g, [ObjectStorage 1 (StorageWrite 5)], Ok g)), og_alarm = (\<lambda>_ g. (g, [], g)),
      og_socket = (\<lambda>_ _ g. (g, [], g)), og_callback = (\<lambda>_ g. (g, [], ())), og_task = (\<lambda>_ g. (g, [], ())),
      og_disconnect = (\<lambda>_ g. (g, [], ())),
      og_handle = (\<lambda>_ _. \<lparr>hd_answer = Some PromiseFulfilled, hd_done = Some PromiseFulfilled,
        hd_streamed = Some PromiseFulfilled, hd_stream = None\<rparr>),
      og_response = (\<lambda>_ _. Ok (200, \<lparr>or_status = 200, or_headers = [], or_body = ObjectBodyNone\<rparr>)),
      og_response_socket = (\<lambda>_ _. None), og_socket_done = (\<lambda>_ _. True), og_alarm_done = (\<lambda>_ _. None)\<rparr>"

definition sample_effect :: js_effect where
  "sample_effect = \<lparr>jf_pending = None, jf_ws_event = [], jf_terminating = False, jf_memory = False, jf_cpu = False,
     jf_fired = [], jf_arrivals = []\<rparr>"

text \<open>A poll in which the first n barriers are open.\<close>

definition sample_poll :: "nat \<Rightarrow> object_env" where
  "sample_poll n =
     \<lparr>oe_poll = \<lparr>pe_waker = 7, pe_now = 10, pe_guard_now = 10, pe_cpu_start = None, pe_cpu_end = None, pe_js = (\<lambda>_ _. sample_effect),
        pe_disconnect = sample_effect\<rparr>,
      oe_mail = (\<lambda>_. []), oe_receives = (\<lambda>_. []), oe_gate = (\<lambda>i. if i < n then GateReady True else GatePending), oe_has_sender = (\<lambda>_. True),
      oe_left = (\<lambda>_. False), oe_max_wall_ms = 0, oe_idle = 100, oe_drain = 100\<rparr>"

definition sample_context :: exec_context where
  "sample_context =
     \<lparr>xc_waiter = None, xc_turn = turn_new, xc_watchdog = watchdog_new, xc_cpu = None, xc_memory_hit = False,
      xc_aborted = False, xc_request_id = 4, xc_pending = None, xc_socket = None, xc_budget = None, xc_hit = False,
      xc_abort_at = None, xc_inbox = [], xc_inbox_open = True, xc_rx_waker = False, xc_woken = False, xc_timers = [],
      xc_streams = stream_manager_new, xc_tables = tables_new, xc_sent = []\<rparr>"

definition sample_serve :: event_env where
  "sample_serve = \<lparr>ev_request_id = 9, ev_now = 10, ev_guard_now = 10, ev_cpu_clock = None, ev_timer_created = True,
     ev_watchdog_alive = True, ev_max_wall_ms = 0, ev_max_cpu_ms = 0\<rparr>"

definition sample_object :: "nat object_state" where
  "sample_object = projr (serve_begin sample_serve 100 (ObjectFetch 3 21 None) 0 foreground_new sample_context)"

lemma sample_start: "serve_begin sample_serve 100 (ObjectFetch 3 21 None) 0 foreground_new sample_context = Ok sample_object"
proof -
  have "isl (serve_begin sample_serve 100 (ObjectFetch 3 21 None) (0 :: nat) foreground_new sample_context) = False" by code_simp
  then show ?thesis by (simp add: sample_object_def)
qed

lemma sample_honest: "honest sample_guest"
  by (simp add: honest_def honest_call_def sample_guest_def barriers_sent_def map_filter_def)

lemma sample_sent: "barriers_sent (xc_sent sample_context) = []"
  by (simp add: sample_context_def)

section \<open>Properties\<close>

text \<open>C8: The input gate.  Over any polls of an object and of its bodies, whatever its JavaScript does: an
  event goes in only while no \<open>blockConcurrencyWhile\<close> callback runs, no storage read is under way and
  nothing has failed; and while a storage read is under way, the only callbacks that run are storage
  results.  The signal of a disconnect and the tasks of V8 are no callbacks, and the gate does not hold them.\<close>

theorem input_gate_holds:
  assumes "serve_begin ev idle first g tasks c = Ok s" "barriers_sent (xc_sent c) = []" "honest G"
    "(g', i) \<in> set (ob_inputs (fold (object_step G) as s))"
  shows "case i of
      InputEvent e \<Rightarrow> og_failure G g' = None \<and> \<not> og_blocked G g' \<and> \<not> og_reading G g'
    | InputCallback m \<Rightarrow> og_failure G g' = None \<and> og_reading G g' \<longrightarrow> is_storage_message m"
proof -
  have "object_inv G (\<lambda>_. True) (fold (object_step G) as s)"
    using serve_begin_inv [OF assms(1,2)] by (intro object_run_inv [OF assms(3)]) (simp_all add: gates_within_def)
  then have "input_allowed G (g', i)" using assms(4) by (auto simp: object_inv_def base_inv_def list_all_iff)
  then show ?thesis by (auto simp: input_allowed_def object_gate_def split: object_input.splits option.splits)
qed

theorem input_gate_holds_witness:
  "(0, InputEvent (ObjectFetch 3 21 None)) \<in> set (ob_inputs (fold (object_step sample_guest) [PollServe (sample_poll 0)] sample_object)) \<and>
   og_failure sample_guest 0 = None"
proof -
  have i: "(0, InputEvent (ObjectFetch 3 21 None)) \<in> set (ob_inputs (fold (object_step sample_guest) [PollServe (sample_poll 0)] sample_object))"
    by code_simp
  from input_gate_holds [OF sample_start sample_sent sample_honest i] i show ?thesis by simp
qed

text \<open>A held response has a caller, so sending it cannot fail.  In every state that polls reach, an event
  whose response waits for its barrier still has the channel of its caller, and its barrier has been
  sent to the scheduler.\<close>

lemma held_has_caller:
  assumes "serve_begin ev idle first g tasks c = Ok s" "barriers_sent (xc_sent c) = []" "honest G"
    "InFetch f \<in> set (ob_inflight (fold (object_step G) as s))" "fi_held f = Some (response, n)"
  shows "fi_res_tx f \<noteq> None \<and> OutputBarrier n \<in> set (xc_sent (ob_context (fold (object_step G) as s)))"
proof -
  let ?s = "fold (object_step G) as s"
  have inv: "object_inv G (\<lambda>_. True) ?s"
    using serve_begin_inv [OF assms(1,2)] by (intro object_run_inv [OF assms(3)]) (simp_all add: gates_within_def)
  then have f: "fi_res_tx f \<noteq> None" "n < ob_next_gate ?s"
    using assms(4,5) by (auto simp: object_inv_def list_all_iff event_ok_def)
  have "n \<in> set (barriers_sent (xc_sent (ob_context ?s)))" using inv f by (simp add: object_inv_def base_inv_def)
  with f show ?thesis by (auto simp: barriers_sent_def map_filter_def split: scheduler_message.splits)
qed

text \<open>C2: The output gate.  Suppose barriers are reported open only when the object's queue has opened them.
  Then every response, every chunk of a body and every outcome of an alarm that has left the object
  waited for a barrier such that all the storage operations sent before the barrier have been
  performed, in order, and no write among them failed.\<close>

theorem answers_wait_for_writes:
  assumes "serve_begin ev idle first g tasks c = Ok s" "barriers_sent (xc_sent c) = []" "honest G"
    and s': "s' = fold (object_step G) as s"
    and opened: "\<forall>a \<in> set as. \<forall>n. action_gates a n = GateReady True \<longrightarrow>
      ReplyGate n \<in> set (oq_opened (run_object_queue h (object_work (xc_sent (ob_context s'))) (object_queue_new host waiting)))"
    and "(n, answer) \<in> set (ob_answers s')"
  shows "\<exists>pre post. xc_sent (ob_context s') = pre @ OutputBarrier n # post \<and>
    \<not> oq_failed (run_object_queue h (object_work pre) (object_queue_new host waiting)) \<and>
    oq_handled (run_object_queue h (object_work pre) (object_queue_new host waiting)) = operations (object_work pre)"
proof -
  let ?q = "object_queue_new host waiting"
  let ?P = "\<lambda>n. ReplyGate n \<in> set (oq_opened (run_object_queue h (object_work (xc_sent (ob_context s'))) ?q))"
  have inv: "object_inv G ?P s'"
    unfolding s' using serve_begin_inv [OF assms(1,2)] opened [unfolded s']
    by (intro object_run_inv [OF assms(3)]) (simp_all add: gates_within_def)
  then have n: "?P n" "n < ob_next_gate s'" and sent: "barriers_sent (xc_sent (ob_context s')) = [0..<ob_next_gate s']"
    using assms(6) by (auto simp: object_inv_def base_inv_def)
  have "OutputBarrier n \<in> set (xc_sent (ob_context s'))"
  proof -
    have "n \<in> set (barriers_sent (xc_sent (ob_context s')))" using n(2) sent by simp
    then show ?thesis by (auto simp: barriers_sent_def map_filter_def split: scheduler_message.splits)
  qed
  then obtain pre post where split: "xc_sent (ob_context s') = pre @ OutputBarrier n # post" "OutputBarrier n \<notin> set pre"
    using split_list_first by metis
  then have "ReplyGate n \<notin> set (barriers (object_work pre))"
    by (auto simp: barriers_object_work barriers_sent_def map_filter_def split: scheduler_message.splits)
  with n(1) split(1) have ok: "\<not> oq_failed (run_object_queue h (object_work pre) ?q)"
    by (intro opened_after [of "ReplyGate n" h "object_work pre" "object_work post"]) (simp_all add: object_queue_new_def)
  from queue_runs_in_order [OF this] ok split(1) show ?thesis by blast
qed

theorem answers_wait_for_writes_witness:
  "\<exists>pre post. xc_sent (ob_context (fold (object_step sample_guest) [PollServe (sample_poll 0), PollServe (sample_poll 1)] sample_object)) =
     pre @ OutputBarrier 0 # post \<and> \<not> oq_failed (run_object_queue failing_host (object_work pre) (object_queue_new 0 0))"
proof -
  let ?as = "[PollServe (sample_poll 0), PollServe (sample_poll 1)]"
  let ?s = "fold (object_step sample_guest) ?as sample_object"
  have n: "(0, AnswerResponse 21 \<lparr>or_status = 200, or_headers = [], or_body = ObjectBodyNone\<rparr>) \<in> set (ob_answers ?s)"
    by code_simp
  have "ReplyGate 0 \<in> set (oq_opened (run_object_queue failing_host (object_work (xc_sent (ob_context ?s))) (object_queue_new 0 0)))"
    by code_simp
  then have "\<forall>a \<in> set ?as. \<forall>n. action_gates a n = GateReady True \<longrightarrow>
      ReplyGate n \<in> set (oq_opened (run_object_queue failing_host (object_work (xc_sent (ob_context ?s))) (object_queue_new 0 0)))"
    by (auto simp: action_gates_def sample_poll_def split: if_splits)
  from answers_wait_for_writes [OF sample_start sample_sent sample_honest refl this n] show ?thesis by blast
qed

text \<open>A poll of an object that finds no callback runs none of V8's tasks.  Whatever events it admits
  and whatever it answers, the tasks that are ready stay ready, although the runner registers for them
  and is woken by them: a task waits for the next callback.\<close>

lemma poll_without_callbacks_runs_no_task:
  assumes "xc_inbox (ob_context s) = []" "ob_pending s = []" "\<And>r. jf_arrivals (pe_js (oe_poll env) r []) = []"
  shows "fg_ready (ob_tasks (fst (poll_serve G env s))) = fg_ready (ob_tasks s)"
proof -
  let ?s = "s\<lparr>ob_context := (ob_context s)\<lparr>xc_woken := False\<rparr>,
    ob_tasks := fst (waiter_register (pe_waker (oe_poll env)) (ob_tasks s) \<lparr>wt_waker = None\<rparr>)\<rparr>"
  let ?p = "oe_poll env"
  obtain c wall where w: "begin_turn_wall ?p (WallPerTurn (oe_max_wall_ms env)) (ob_context ?s) = (c, wall)" by fastforce
  then have "xc_inbox c = []"
    using assms(1) by (auto simp: begin_turn_wall_def Let_def split: prod.splits)
  then have "xc_inbox (begin_guard ?p c) = []" by (simp add: begin_guard_def split: prod.split)
  with turn_runs_no_task [of env "?s\<lparr>ob_context := begin_guard ?p c\<rparr>" G MAX_ROUNDS False] assms
  have "ob_tasks (fst (object_turn G env (?s\<lparr>ob_context := begin_guard ?p c\<rparr>))) = ob_tasks ?s"
    by (simp add: idle_like_def object_turn_def)
  then have turn: "ob_tasks (fst (guarded_turn G env ?s)) = ob_tasks ?s"
    using w by (simp add: guarded_turn_def Let_def case_prod_beta)
  obtain s1 r limit where t: "guarded_turn G env ?s = (s1, r, limit)" by (metis surj_pair)
  then have "ob_tasks (fst (poll_serve G env s)) = ob_tasks s1"
    by (auto simp: poll_serve_def Let_def serve_end_tasks dest: gate_timer_tasks
        split: prod.split option.split sum.split object_gate.split bool.split)
  then have "ob_tasks (fst (poll_serve G env s)) = ob_tasks ?s" using turn t by simp
  then show ?thesis by (simp add: waiter_register_def)
qed

end
