(* ===== verification/Object_Script.thy ===== *)
theory Object_Script
  imports Prelude "HOL-Library.AList"
begin

text \<open>
  The script a Durable Object runs in, from \<open>src/src/js/durable_object.js\<close>: the counters the runner reads
  as its gates, the storage calls that move them, transactions, and the sockets of the object.  A map of
  JavaScript is an association list in insertion order, \<open>undefined\<close> is None.
\<close>

text \<open>A new key of a set or map goes to the end.\<close>

definition set_add :: "'a \<Rightarrow> 'a list \<Rightarrow> 'a list" where
  "set_add k ks = (if k \<in> set ks then ks else ks @ [k])"

lemma set_set_add [simp]: "set (set_add k ks) = insert k (set ks)"
  by (auto simp: set_add_def)

lemma distinct_set_add [simp]: "distinct (set_add k ks) = distinct ks"
  by (simp add: set_add_def)

section \<open>Storage calls\<close>

datatype 'v storage_call =
    CallGet "string list"
  | CallList
  | CallWrite "(string \<times> 'v option) list" "string list" bool
  | CallGetAlarm
  | CallSetAlarm "int option"

definition MAX_BACKLOG :: nat where
  "MAX_BACKLOG = 32 * 1024 * 1024"

text \<open>A call in flight: its bytes, and what happens when it ends.\<close>

datatype call_kind = PlainCall | ReadCall | TrackedCall

record flight =
  fl_bytes :: nat
  fl_kind :: call_kind

text \<open>The counters of the script, the calls in flight by id, and how many \<open>blockConcurrencyWhile\<close> callbacks
  run.\<close>

record object_script =
  os_blocked :: nat
  os_failure :: "string option"
  os_reads :: nat
  os_backlog :: nat
  os_flights :: "(nat \<times> flight) list"
  os_callbacks :: "nat list"
  os_next :: nat

definition object_script_new :: object_script where
  "object_script_new =
     \<lparr>os_blocked = 0, os_failure = None, os_reads = 0, os_backlog = 0, os_flights = [], os_callbacks = [], os_next = 0\<rparr>"

definition BACKLOG_ERROR :: string where
  "BACKLOG_ERROR = ''Durable Object storage: 32 MiB of storage ops wait to end; await some of them first''"

definition has_keys :: "'v storage_call \<Rightarrow> bool" where
  "has_keys op = (case op of CallGet keys \<Rightarrow> keys \<noteq> [] | _ \<Rightarrow> False)"

definition is_write :: "'v storage_call \<Rightarrow> bool" where
  "is_write op = (case op of CallWrite _ _ _ \<Rightarrow> True | _ \<Rightarrow> False)"

text \<open>\<open>call\<close>: a call that is refused throws; \<open>bytes\<close> is what the native function answers.\<close>

definition storage_call :: "'v storage_call \<Rightarrow> nat \<Rightarrow> call_kind \<Rightarrow> object_script \<Rightarrow> object_script \<times> (string, nat) result" where
  "storage_call op bytes kind s =
     (if MAX_BACKLOG \<le> os_backlog s \<and> (is_write op \<or> has_keys op) then (s, Err BACKLOG_ERROR)
      else
        (s\<lparr>os_backlog := os_backlog s + bytes, os_flights := os_flights s @ [(os_next s, \<lparr>fl_bytes = bytes, fl_kind = kind\<rparr>)],
           os_next := Suc (os_next s)\<rparr>, Ok (os_next s)))"

definition read_call :: "'v storage_call \<Rightarrow> nat \<Rightarrow> object_script \<Rightarrow> object_script \<times> (string, nat) result" where
  "read_call op bytes s =
     (case storage_call op bytes ReadCall s of
        (s, Inl e) \<Rightarrow> (s, Err e)
      | (s, Inr i) \<Rightarrow> (s\<lparr>os_reads := Suc (os_reads s)\<rparr>, Ok i))"

text \<open>A write that cannot start rejects without harm to the object.\<close>

definition tracked_call :: "'v storage_call \<Rightarrow> nat \<Rightarrow> object_script \<Rightarrow> object_script \<times> (string, nat) result" where
  "tracked_call op bytes s = storage_call op bytes TrackedCall s"

definition first_failure :: "string \<Rightarrow> object_script \<Rightarrow> object_script" where
  "first_failure message s = s\<lparr>os_failure := (case os_failure s of Some m \<Rightarrow> Some m | None \<Rightarrow> Some message)\<rparr>"

text \<open>The end of a call, with its error if it failed.\<close>

definition settle_call :: "nat \<Rightarrow> string option \<Rightarrow> object_script \<Rightarrow> object_script" where
  "settle_call i error s =
     (case map_of (os_flights s) i of
        None \<Rightarrow> s
      | Some f \<Rightarrow>
          (let s = s\<lparr>os_backlog := os_backlog s - fl_bytes f, os_flights := filter (\<lambda>p. fst p \<noteq> i) (os_flights s)\<rparr> in
           case fl_kind f of
             PlainCall \<Rightarrow> s
           | ReadCall \<Rightarrow> s\<lparr>os_reads := os_reads s - 1\<rparr>
           | TrackedCall \<Rightarrow>
               (case error of None \<Rightarrow> s | Some message \<Rightarrow> first_failure (''a storage write failed: '' @ message) s)))"

definition block_concurrency :: "object_script \<Rightarrow> object_script" where
  "block_concurrency s =
     s\<lparr>os_blocked := Suc (os_blocked s), os_callbacks := os_callbacks s @ [os_next s], os_next := Suc (os_next s)\<rparr>"

definition settle_callback :: "nat \<Rightarrow> string option \<Rightarrow> object_script \<Rightarrow> object_script" where
  "settle_callback i error s =
     (if i \<notin> set (os_callbacks s) then s
      else
        (let s = (case error of None \<Rightarrow> s | Some message \<Rightarrow> first_failure message s)
         in s\<lparr>os_blocked := os_blocked s - 1, os_callbacks := remove1 i (os_callbacks s)\<rparr>))"

text \<open>What the runner reads.\<close>

definition script_blocked :: "object_script \<Rightarrow> bool" where
  "script_blocked s \<longleftrightarrow> 0 < os_blocked s"

definition script_reading :: "object_script \<Rightarrow> bool" where
  "script_reading s \<longleftrightarrow> 0 < os_reads s"

text \<open>The calls of a guest and the ends of what they started, in any order.\<close>

datatype 'v script_op =
    DoRead "'v storage_call" nat
  | DoWrite "'v storage_call" nat
  | DoSync nat
  | DoBlock
  | EndCall nat "string option"
  | EndCallback nat "string option"

definition script_step :: "'v script_op \<Rightarrow> object_script \<Rightarrow> object_script" where
  "script_step a s =
     (case a of
        DoRead op bytes \<Rightarrow> fst (read_call op bytes s)
      | DoWrite op bytes \<Rightarrow> fst (tracked_call op bytes s)
      | DoSync bytes \<Rightarrow> fst (storage_call (CallGet [] :: 'v storage_call) bytes PlainCall s)
      | DoBlock \<Rightarrow> block_concurrency s
      | EndCall i error \<Rightarrow> settle_call i error s
      | EndCallback i error \<Rightarrow> settle_callback i error s)"

subsection \<open>The counters count what is in flight\<close>

definition script_inv :: "object_script \<Rightarrow> bool" where
  "script_inv s \<longleftrightarrow>
     os_reads s = length (filter (\<lambda>p. fl_kind (snd p) = ReadCall) (os_flights s)) \<and>
     os_backlog s = (\<Sum>p\<leftarrow>os_flights s. fl_bytes (snd p)) \<and>
     os_blocked s = length (os_callbacks s) \<and>
     distinct (map fst (os_flights s)) \<and> (\<forall>i \<in> set (map fst (os_flights s)). i < os_next s)"

lemma flight_split:
  assumes "map_of fs i = Some f" "distinct (map fst fs)"
  obtains xs ys where "fs = xs @ (i, f) # ys" "filter (\<lambda>p. fst p \<noteq> i) fs = xs @ ys"
proof -
  obtain xs ys where fs: "fs = xs @ (i, f) # ys" using assms(1) by (meson map_of_SomeD split_list)
  moreover have "\<forall>p \<in> set (xs @ ys). fst p \<noteq> i" using assms(2) fs by force
  then have "filter (\<lambda>p. fst p \<noteq> i) (xs @ ys) = xs @ ys" by (simp add: filter_id_conv)
  ultimately show ?thesis using that by simp
qed

lemma settle_call_inv:
  assumes "script_inv s"
  shows "script_inv (settle_call i error s)"
proof (cases "map_of (os_flights s) i")
  case (Some f)
  have "distinct (map fst (os_flights s))" using assms by (simp add: script_inv_def)
  then obtain xs ys where split: "os_flights s = xs @ (i, f) # ys" "filter (\<lambda>p. fst p \<noteq> i) (os_flights s) = xs @ ys"
    using flight_split [OF Some] by blast
  let ?s = "s\<lparr>os_backlog := os_backlog s - fl_bytes f, os_flights := xs @ ys,
    os_reads := (if fl_kind f = ReadCall then os_reads s - 1 else os_reads s)\<rparr>"
  have "script_inv ?s" using assms unfolding script_inv_def split(1) by simp
  then have "script_inv (?s\<lparr>os_failure := m\<rparr>)" for m by (simp add: script_inv_def)
  with \<open>script_inv ?s\<close> show ?thesis
    by (cases "fl_kind f"; cases error) (simp_all add: settle_call_def Some split(2) first_failure_def Let_def)
qed (use assms in \<open>simp add: settle_call_def\<close>)

lemma script_step_inv: "script_inv s \<Longrightarrow> script_inv (script_step a s)"
proof (cases a)
  case (EndCall i error)
  then show "script_inv s \<Longrightarrow> ?thesis" by (simp add: script_step_def settle_call_inv)
next
  case (EndCallback i error)
  then show "script_inv s \<Longrightarrow> ?thesis"
    by (cases error) (simp_all add: script_step_def settle_callback_def script_inv_def first_failure_def length_remove1)
qed (auto simp: script_step_def read_call_def tracked_call_def storage_call_def block_concurrency_def script_inv_def)

lemma script_run_inv: "script_inv (fold script_step as object_script_new)"
proof (rule fold_invariant)
  show "script_inv object_script_new" by (simp add: script_inv_def object_script_new_def)
qed (rule script_step_inv)

section \<open>Transactions\<close>

text \<open>The writes of a transaction are kept in \<open>tx_puts\<close> and \<open>tx_deletes\<close>.  A delete first awaits a read of the storage, so
  \<open>tx_waiting\<close> holds the calls of it that have not got their read yet, by number.\<close>

type_synonym 'v store = "string \<Rightarrow> 'v option"

record 'v txn =
  tx_puts :: "(string \<times> 'v option) list"
  tx_deletes :: "string list"
  tx_rolled_back :: bool
  tx_waiting :: "(nat \<times> string list) list"
  tx_calls :: nat

definition txn_new :: "'v txn" where
  "txn_new = \<lparr>tx_puts = [], tx_deletes = [], tx_rolled_back = False, tx_waiting = [], tx_calls = 0\<rparr>"

definition txn_has :: "string \<Rightarrow> 'v txn \<Rightarrow> bool" where
  "txn_has k t \<longleftrightarrow> map_of (tx_puts t) k \<noteq> None \<or> k \<in> set (tx_deletes t)"

definition txn_local :: "string \<Rightarrow> 'v txn \<Rightarrow> 'v option" where
  "txn_local k t = (case map_of (tx_puts t) k of None \<Rightarrow> None | Some v \<Rightarrow> v)"

text \<open>A get of one key; \<open>read\<close> is the storage when the host reads it.\<close>

definition txn_get :: "'v store \<Rightarrow> string \<Rightarrow> 'v txn \<Rightarrow> 'v option" where
  "txn_get read k t = (if txn_has k t then txn_local k t else read k)"

text \<open>\<open>storage.get\<close> of several keys: a map of the keys that have a value.\<close>

definition storage_get :: "'v store \<Rightarrow> string list \<Rightarrow> (string \<times> 'v) list" where
  "storage_get read keys =
     fold (\<lambda>k found. case read k of None \<Rightarrow> found | Some v \<Rightarrow> AList.update k v found) keys []"

text \<open>A get of several keys: what it asks the host for when it is called, and what it answers from what the host
  found and the writes that are kept by then.\<close>

definition txn_get_asks :: "string list \<Rightarrow> 'v txn \<Rightarrow> string list" where
  "txn_get_asks keys t = filter (\<lambda>k. \<not> txn_has k t) keys"

definition txn_get_found :: "(string \<times> 'v) list \<Rightarrow> string list \<Rightarrow> 'v txn \<Rightarrow> (string \<times> 'v) list" where
  "txn_get_found stored keys t =
     fold (\<lambda>k found. case (if map_of (tx_puts t) k \<noteq> None then txn_local k t else map_of stored k) of
             None \<Rightarrow> found | Some v \<Rightarrow> AList.update k v found) keys []"

text \<open>What \<open>structuredClone\<close> makes of the value of an entry, and the puts: the first value it throws for ends them.\<close>

datatype 'v cloned_value = Cloned "'v option" | Uncloneable

fun txn_put :: "(string \<times> 'v cloned_value) list \<Rightarrow> 'v txn \<Rightarrow> 'v txn" where
  "txn_put [] t = t"
| "txn_put ((k, Uncloneable) # entries) t = t"
| "txn_put ((k, Cloned v) # entries) t =
     txn_put entries (t\<lparr>tx_puts := AList.update k v (tx_puts t), tx_deletes := removeAll k (tx_deletes t)\<rparr>)"

text \<open>A delete: the call, which waits for a get of its keys; then, with what the get found, the deletes and the number of keys that
  were there; or the failure of the get, which deletes nothing.\<close>

definition txn_delete :: "string list \<Rightarrow> 'v txn \<Rightarrow> 'v txn" where
  "txn_delete keys t = t\<lparr>tx_waiting := tx_waiting t @ [(tx_calls t, keys)], tx_calls := Suc (tx_calls t)\<rparr>"

definition txn_delete_ends :: "nat \<Rightarrow> (string \<times> 'v) list \<Rightarrow> 'v txn \<Rightarrow> 'v txn \<times> nat option" where
  "txn_delete_ends i found t =
     (case map_of (tx_waiting t) i of
        None \<Rightarrow> (t, None)
      | Some keys \<Rightarrow>
          (fold (\<lambda>k t. t\<lparr>tx_puts := AList.delete k (tx_puts t), tx_deletes := set_add k (tx_deletes t)\<rparr>) keys
             (t\<lparr>tx_waiting := AList.delete i (tx_waiting t)\<rparr>),
           Some (length found)))"

definition txn_delete_fails :: "nat \<Rightarrow> 'v txn \<Rightarrow> 'v txn" where
  "txn_delete_fails i t = t\<lparr>tx_waiting := AList.delete i (tx_waiting t)\<rparr>"

definition txn_rollback :: "'v txn \<Rightarrow> 'v txn" where
  "txn_rollback t = t\<lparr>tx_rolled_back := True\<rparr>"

text \<open>The one write that goes out when the closure ends without an error.\<close>

definition txn_commit :: "'v txn \<Rightarrow> 'v storage_call option" where
  "txn_commit t =
     (if \<not> tx_rolled_back t \<and> (tx_puts t \<noteq> [] \<or> tx_deletes t \<noteq> [])
      then Some (CallWrite (tx_puts t) (tx_deletes t) False) else None)"

text \<open>What happens until the transaction resumes after its closure, in any order: the calls of the guest, and the ends of the gets that its
  deletes await.\<close>

datatype 'v txn_event =
    TxnPut "(string \<times> 'v cloned_value) list"
  | TxnDelete "string list"
  | TxnRead nat "(string \<times> 'v) list"
  | TxnReadFails nat
  | TxnRollback

definition txn_step :: "'v txn_event \<Rightarrow> 'v txn \<Rightarrow> 'v txn" where
  "txn_step ev t =
     (case ev of
        TxnPut entries \<Rightarrow> txn_put entries t
      | TxnDelete keys \<Rightarrow> txn_delete keys t
      | TxnRead i found \<Rightarrow> fst (txn_delete_ends i found t)
      | TxnReadFails i \<Rightarrow> txn_delete_fails i t
      | TxnRollback \<Rightarrow> txn_rollback t)"

text \<open>A transaction: what happens until it resumes after its closure, whether the closure threw, whether the one write is refused, and the storage when the
  host performs it; \<open>write\<close> is the host's write.\<close>

definition transaction ::
    "((string \<times> 'v option) list \<Rightarrow> string list \<Rightarrow> 'v store \<Rightarrow> 'v store) \<Rightarrow> 'v txn_event list \<Rightarrow> bool \<Rightarrow> bool \<Rightarrow> 'v store \<Rightarrow> 'v store" where
  "transaction write evs threw refused m =
     (if threw then m
      else case txn_commit (fold txn_step evs txn_new) of
        Some (CallWrite puts deletes _) \<Rightarrow> if refused then m else write puts deletes m
      | _ \<Rightarrow> m)"

subsection \<open>What a transaction means\<close>

text \<open>The operations on the store itself, one after the other.\<close>

datatype 'v store_op = StorePut "(string \<times> 'v option) list" | StoreDelete "string list"

definition store_step :: "'v store_op \<Rightarrow> 'v store \<Rightarrow> 'v store" where
  "store_step op m =
     (case op of
        StorePut entries \<Rightarrow> fold (\<lambda>(k, v) m. m(k := v)) entries m
      | StoreDelete keys \<Rightarrow> (\<lambda>k. if k \<in> set keys then None else m k))"

fun put_entries :: "(string \<times> 'v cloned_value) list \<Rightarrow> (string \<times> 'v option) list" where
  "put_entries [] = []"
| "put_entries ((k, Uncloneable) # es) = []"
| "put_entries ((k, Cloned v) # es) = (k, v) # put_entries es"

text \<open>The operations that take effect, in their order: a put when it is called, a delete when its read has ended.  \<open>n\<close> numbers
  the deletes and \<open>w\<close> are those that wait.\<close>

fun applied :: "nat \<Rightarrow> (nat \<rightharpoonup> string list) \<Rightarrow> 'v txn_event list \<Rightarrow> 'v store_op list" where
  "applied n w [] = []"
| "applied n w (TxnPut entries # evs) = StorePut (put_entries entries) # applied n w evs"
| "applied n w (TxnDelete keys # evs) = applied (Suc n) (w(n \<mapsto> keys)) evs"
| "applied n w (TxnRead i found # evs) =
     (case w i of None \<Rightarrow> applied n w evs | Some keys \<Rightarrow> StoreDelete keys # applied n (w(i := None)) evs)"
| "applied n w (TxnReadFails i # evs) = applied n (w(i := None)) evs"
| "applied n w (TxnRollback # evs) = applied n w evs"

text \<open>The operations as the closure calls them; and a closure that awaits each delete before it goes on or ends.\<close>

fun called :: "'v txn_event list \<Rightarrow> 'v store_op list" where
  "called [] = []"
| "called (TxnPut entries # evs) = StorePut (put_entries entries) # called evs"
| "called (TxnDelete keys # evs) = StoreDelete keys # called evs"
| "called (_ # evs) = called evs"

fun awaits_deletes :: "nat \<Rightarrow> 'v txn_event list \<Rightarrow> bool" where
  "awaits_deletes n [] = True"
| "awaits_deletes n (TxnPut entries # evs) = awaits_deletes n evs"
| "awaits_deletes n (TxnRollback # evs) = awaits_deletes n evs"
| "awaits_deletes n (TxnDelete keys # TxnRead i found # evs) = (i = n \<and> awaits_deletes (Suc n) evs)"
| "awaits_deletes n _ = False"

lemma awaited_in_order: "awaits_deletes n evs \<Longrightarrow> applied n w evs = called evs"
  by (induction n evs arbitrary: w rule: awaits_deletes.induct) simp_all

text \<open>The store as the transaction sees it.\<close>

definition txn_view :: "'v txn \<Rightarrow> 'v store \<Rightarrow> 'v store" where
  "txn_view t m k = (case map_of (tx_puts t) k of Some v \<Rightarrow> v | None \<Rightarrow> if k \<in> set (tx_deletes t) then None else m k)"

definition txn_wf :: "'v txn \<Rightarrow> bool" where
  "txn_wf t \<longleftrightarrow> distinct (map fst (tx_puts t)) \<and> (\<forall>k. map_of (tx_puts t) k \<noteq> None \<longrightarrow> k \<notin> set (tx_deletes t)) \<and>
     (\<forall>i \<in> set (map fst (tx_waiting t)). i < tx_calls t)"

lemma txn_get_view: "txn_get m k t = txn_view t m k"
  by (simp add: txn_get_def txn_has_def txn_local_def txn_view_def split: option.split)

lemma fold_found:
  "map_of (fold (\<lambda>k found. case f k of None \<Rightarrow> found | Some v \<Rightarrow> AList.update k v found) keys found0) k =
     (if k \<in> set keys \<and> f k \<noteq> None then f k else map_of found0 k)"
  by (induction keys arbitrary: found0) (auto simp: update_conv split: option.split)

lemma storage_get_map: "map_of (storage_get m keys) k = (if k \<in> set keys then m k else None)"
  using fold_found [of m keys "[]" k] by (simp add: storage_get_def)

text \<open>A get of several keys that no other operation of the transaction overtakes sees the store as the transaction does.\<close>

lemma txn_get_found_view:
  "map_of (txn_get_found (storage_get m (txn_get_asks keys t)) keys t) k = (if k \<in> set keys then txn_view t m k else None)"
proof -
  let ?stored = "storage_get m (txn_get_asks keys t)"
  let ?f = "\<lambda>k. if map_of (tx_puts t) k \<noteq> None then txn_local k t else map_of ?stored k"
  have "?f k = txn_view t m k" if "k \<in> set keys"
    using that by (simp add: storage_get_map txn_get_asks_def txn_view_def txn_has_def txn_local_def split: option.split)
  then show ?thesis using fold_found [of ?f keys "[]" k] by (simp add: txn_get_found_def)
qed

lemma txn_put_view:
  "txn_wf t \<Longrightarrow> txn_wf (txn_put es t) \<and> txn_view (txn_put es t) m = fold (\<lambda>(k, v) m. m(k := v)) (put_entries es) (txn_view t m) \<and>
   tx_waiting (txn_put es t) = tx_waiting t \<and> tx_calls (txn_put es t) = tx_calls t \<and> tx_rolled_back (txn_put es t) = tx_rolled_back t"
proof (induction es t rule: txn_put.induct)
  case (3 k v es t)
  let ?t = "t\<lparr>tx_puts := AList.update k v (tx_puts t), tx_deletes := removeAll k (tx_deletes t)\<rparr>"
  have "txn_wf ?t" using "3.prems" by (auto simp: txn_wf_def update_conv distinct_update)
  moreover have "txn_view ?t m = (txn_view t m)(k := v)" by (auto simp: txn_view_def update_conv fun_eq_iff)
  ultimately show ?case using "3.IH" by simp
qed simp_all

lemma txn_delete_keys_view:
  fixes t :: "'v txn"
  assumes "txn_wf t"
  defines "step \<equiv> \<lambda>k (t :: 'v txn). t\<lparr>tx_puts := AList.delete k (tx_puts t), tx_deletes := set_add k (tx_deletes t)\<rparr>"
  shows "txn_wf (fold step keys t) \<and> txn_view (fold step keys t) m = (\<lambda>k. if k \<in> set keys then None else txn_view t m k) \<and>
    tx_waiting (fold step keys t) = tx_waiting t \<and> tx_calls (fold step keys t) = tx_calls t \<and>
    tx_rolled_back (fold step keys t) = tx_rolled_back t"
  using assms(1)
proof (induction keys arbitrary: t)
  case (Cons k keys)
  have "txn_wf (step k t)" using Cons.prems by (auto simp: txn_wf_def step_def delete_conv distinct_delete)
  moreover have "txn_view (step k t) m = (\<lambda>q. if q = k then None else txn_view t m q)"
    by (auto simp: txn_view_def step_def delete_conv fun_eq_iff)
  moreover have "tx_waiting (step k t) = tx_waiting t" "tx_calls (step k t) = tx_calls t" "tx_rolled_back (step k t) = tx_rolled_back t"
    by (simp_all add: step_def)
  ultimately show ?case using Cons.IH [of "step k t"] by (auto simp: fun_eq_iff)
qed simp

lemma txn_step_simps:
  "txn_step (TxnPut es) t = txn_put es t"
  "txn_step (TxnDelete keys) t = txn_delete keys t"
  "txn_step (TxnRead i found) t = fst (txn_delete_ends i found t)"
  "txn_step (TxnReadFails i) t = txn_delete_fails i t"
  "txn_step TxnRollback t = txn_rollback t"
  by (simp_all add: txn_step_def)

lemma txn_view_same [simp]:
  "txn_view (t\<lparr>tx_waiting := w\<rparr>) m = txn_view t m" "txn_view (t\<lparr>tx_rolled_back := b\<rparr>) m = txn_view t m"
  by (simp_all add: txn_view_def fun_eq_iff)

lemma store_step_simps:
  "store_step (StorePut es) m = fold (\<lambda>(k, v) m. m(k := v)) es m"
  "store_step (StoreDelete keys) m = (\<lambda>k. if k \<in> set keys then None else m k)"
  by (simp_all add: store_step_def)

lemma txn_run_view:
  "txn_wf t \<Longrightarrow>
   txn_wf (fold txn_step evs t) \<and>
   txn_view (fold txn_step evs t) m = fold store_step (applied (tx_calls t) (map_of (tx_waiting t)) evs) (txn_view t m) \<and>
   (tx_rolled_back (fold txn_step evs t) \<longleftrightarrow> tx_rolled_back t \<or> TxnRollback \<in> set evs)"
proof (induction evs arbitrary: t)
  case (Cons ev evs)
  show ?case
  proof (cases ev)
    case (TxnPut es)
    with Cons.IH [of "txn_put es t"] txn_put_view [OF Cons.prems, of es m] show ?thesis
      by (simp add: txn_step_simps store_step_simps)
  next
    case (TxnDelete keys)
    have "map_of (tx_waiting t) (tx_calls t) = None" using Cons.prems by (auto simp: txn_wf_def map_of_eq_None_iff)
    then have "map_of (tx_waiting (txn_delete keys t)) = (map_of (tx_waiting t))(tx_calls t \<mapsto> keys)"
      by (auto simp: txn_delete_def map_add_def fun_eq_iff split: option.splits)
    moreover have "txn_wf (txn_delete keys t)" using Cons.prems by (auto simp: txn_wf_def txn_delete_def less_Suc_eq)
    moreover have "txn_view (txn_delete keys t) m = txn_view t m" by (simp add: txn_view_def txn_delete_def fun_eq_iff)
    moreover have "tx_calls (txn_delete keys t) = Suc (tx_calls t)" "tx_rolled_back (txn_delete keys t) = tx_rolled_back t"
      by (simp_all add: txn_delete_def)
    ultimately show ?thesis using Cons.IH [of "txn_delete keys t"] TxnDelete
      by (simp add: txn_step_simps del: fun_upd_apply)
  next
    case (TxnRead i found)
    show ?thesis
    proof (cases "map_of (tx_waiting t) i")
      case (Some keys)
      let ?t = "t\<lparr>tx_waiting := AList.delete i (tx_waiting t)\<rparr>"
      have "txn_wf ?t" using Cons.prems by (auto simp: txn_wf_def AList.delete_eq)
      note keys = txn_delete_keys_view [OF this, of keys m]
      let ?t' = "fst (txn_delete_ends i found t)"
      have ends: "txn_wf ?t'" "tx_calls ?t' = tx_calls t" "tx_rolled_back ?t' = tx_rolled_back t"
        "map_of (tx_waiting ?t') = (map_of (tx_waiting t))(i := None)"
        using keys Some by (simp_all add: txn_delete_ends_def delete_conv')
      have "txn_view ?t' m = store_step (StoreDelete keys) (txn_view t m)"
        using keys Some by (simp add: txn_delete_ends_def store_step_simps cong: if_cong)
      with Cons.IH [OF ends(1)] ends(2-4) TxnRead Some show ?thesis
        by (simp add: txn_step_simps del: fun_upd_apply)
    qed (use Cons TxnRead in \<open>simp add: txn_step_simps txn_delete_ends_def\<close>)
  next
    case (TxnReadFails i)
    have "txn_wf (txn_delete_fails i t)" using Cons.prems by (auto simp: txn_wf_def txn_delete_fails_def AList.delete_eq)
    with Cons.IH [of "txn_delete_fails i t"] TxnReadFails show ?thesis
      by (simp add: txn_step_simps txn_delete_fails_def delete_conv' del: fun_upd_apply)
  next
    case TxnRollback
    have "txn_wf (txn_rollback t)" using Cons.prems by (simp add: txn_wf_def txn_rollback_def)
    with Cons.IH [of "txn_rollback t"] TxnRollback show ?thesis
      by (simp add: txn_step_simps txn_rollback_def)
  qed
qed simp

section \<open>Sockets\<close>

datatype socket_mode = ModeNull | ModeHandlers | ModeListeners

record object_ws =
  ow_mode :: socket_mode
  ow_tags :: "string list"
  ow_open :: bool

text \<open>The socket objects by id, the map \<open>sockets\<close> of the script, and the native calls it made.\<close>

datatype native_call =
    NativeAccept nat "string list" bool
  | NativeSend nat nat
  | NativeClose nat int string

record script_sockets =
  ss_objects :: "nat \<Rightarrow> object_ws option"
  ss_sockets :: "nat list"
  ss_calls :: "native_call list"
  ss_events :: "(nat \<times> socket_mode \<times> string) list"

definition MAX_TAGS :: nat where
  "MAX_TAGS = 10"

definition MAX_TAG_LENGTH :: nat where
  "MAX_TAG_LENGTH = 256"

definition set_socket :: "nat \<Rightarrow> object_ws \<Rightarrow> script_sockets \<Rightarrow> script_sockets" where
  "set_socket i w s = s\<lparr>ss_objects := (ss_objects s)(i \<mapsto> w)\<rparr>"

text \<open>The constructor of \<open>WebSocketPair\<close>, with the id the native function answers.\<close>

definition socket_pair :: "nat \<Rightarrow> script_sockets \<Rightarrow> script_sockets" where
  "socket_pair i s = set_socket i \<lparr>ow_mode = ModeNull, ow_tags = [], ow_open = True\<rparr> s"

definition native :: "native_call \<Rightarrow> script_sockets \<Rightarrow> script_sockets" where
  "native c s = s\<lparr>ss_calls := ss_calls s @ [c]\<rparr>"

definition socket_accept :: "nat \<Rightarrow> object_ws \<Rightarrow> script_sockets \<Rightarrow> script_sockets \<times> (string, unit) result" where
  "socket_accept i w s =
     (if ow_mode w \<noteq> ModeNull then (s, Err ''TypeError'')
      else
        (native (NativeAccept i [] False)
           ((set_socket i (w\<lparr>ow_mode := ModeListeners\<rparr>) s)\<lparr>ss_sockets := set_add i (ss_sockets s)\<rparr>), Ok ()))"

definition socket_send :: "nat \<Rightarrow> object_ws \<Rightarrow> nat \<Rightarrow> script_sockets \<Rightarrow> script_sockets \<times> (string, unit) result" where
  "socket_send i w data s =
     (if ow_mode w = ModeNull then (s, Err ''InvalidStateError'')
      else if \<not> ow_open w then (s, Ok ())
      else (native (NativeSend i data) s, Ok ()))"

text \<open>\<open>closeChecks\<close>: the code as a number of JavaScript, None for NaN; a missing code is 1000.\<close>

definition close_checks :: "int option option \<Rightarrow> nat \<Rightarrow> (string, unit) result" where
  "close_checks code reason_bytes =
     (if (case code of Some (Some n) \<Rightarrow> n \<noteq> 1000 \<and> (n < 3000 \<or> n > 4999) | _ \<Rightarrow> False) then Err ''InvalidAccessError''
      else if reason_bytes > 123 then Err ''SyntaxError''
      else Ok ())"

definition native_code :: "int option option \<Rightarrow> int" where
  "native_code code = (case code of None \<Rightarrow> 1000 | Some None \<Rightarrow> 0 | Some (Some n) \<Rightarrow> n)"

definition socket_close ::
    "nat \<Rightarrow> object_ws \<Rightarrow> int option option \<Rightarrow> string \<Rightarrow> script_sockets \<Rightarrow> script_sockets \<times> (string, unit) result" where
  "socket_close i w code reason s =
     (case close_checks code (length reason) of
        Inl e \<Rightarrow> (s, Err e)
      | Inr _ \<Rightarrow>
          if \<not> ow_open w then (s, Ok ())
          else
            (native (NativeClose i (native_code code) reason)
               ((set_socket i (w\<lparr>ow_open := False\<rparr>) s)\<lparr>ss_sockets := removeAll i (ss_sockets s)\<rparr>), Ok ()))"

definition accept_web_socket :: "nat \<Rightarrow> object_ws \<Rightarrow> string list \<Rightarrow> script_sockets \<Rightarrow> script_sockets \<times> (string, unit) result" where
  "accept_web_socket i w tags s =
     (if ow_mode w \<noteq> ModeNull \<or> length tags > MAX_TAGS \<or> list_ex (\<lambda>tag. length tag > MAX_TAG_LENGTH) tags then (s, Err ''TypeError'')
      else
        (native (NativeAccept i (rev (remdups (rev tags))) True)
           ((set_socket i (w\<lparr>ow_mode := ModeHandlers, ow_tags := rev (remdups (rev tags))\<rparr>) s)
              \<lparr>ss_sockets := set_add i (ss_sockets s)\<rparr>), Ok ()))"

text \<open>\<open>socket(id, kind, ...)\<close>: what the runner delivers goes to the handlers of the class or the listeners of the
  socket.\<close>

definition socket_event :: "nat \<Rightarrow> string \<Rightarrow> script_sockets \<Rightarrow> script_sockets" where
  "socket_event i kind s =
     (if i \<notin> set (ss_sockets s) then s
      else
        (case ss_objects s i of
           None \<Rightarrow> s
         | Some w \<Rightarrow>
             (let s = (if kind \<noteq> ''message''
                       then (set_socket i (w\<lparr>ow_open := False\<rparr>) s)\<lparr>ss_sockets := removeAll i (ss_sockets s)\<rparr> else s)
              in s\<lparr>ss_events := ss_events s @ [(i, ow_mode w, kind)]\<rparr>)))"

definition pinned :: "script_sockets \<Rightarrow> bool" where
  "pinned s = list_ex (\<lambda>i. case ss_objects s i of None \<Rightarrow> False | Some w \<Rightarrow> ow_mode w = ModeListeners) (ss_sockets s)"

definition get_web_sockets :: "string option \<Rightarrow> script_sockets \<Rightarrow> nat list" where
  "get_web_sockets tag s =
     filter (\<lambda>i. case ss_objects s i of
                   None \<Rightarrow> False
                 | Some w \<Rightarrow> ow_mode w = ModeHandlers \<and> (case tag of None \<Rightarrow> True | Some t \<Rightarrow> t \<in> set (ow_tags w))) (ss_sockets s)"

text \<open>The calls of the guest on a socket it holds.\<close>

datatype socket_call = SocketAccept | SocketSend nat | SocketClose "int option option" string | AcceptWebSocket "string list"

definition socket_call :: "nat \<Rightarrow> socket_call \<Rightarrow> script_sockets \<Rightarrow> script_sockets" where
  "socket_call i c s =
     (case ss_objects s i of
        None \<Rightarrow> s
      | Some w \<Rightarrow>
          (case c of
             SocketAccept \<Rightarrow> fst (socket_accept i w s)
           | SocketSend data \<Rightarrow> fst (socket_send i w data s)
           | SocketClose code reason \<Rightarrow> fst (socket_close i w code reason s)
           | AcceptWebSocket tags \<Rightarrow> fst (accept_web_socket i w tags s)))"

text \<open>A socket that is accepted after it was closed.\<close>

definition closed_accepted :: "nat \<Rightarrow> script_sockets \<Rightarrow> bool" where
  "closed_accepted i s \<longleftrightarrow> i \<in> set (ss_sockets s) \<and>
     (\<exists>w. ss_objects s i = Some w \<and> \<not> ow_open w \<and> ow_mode w = ModeListeners)"

lemma closed_accepted_pinned:
  assumes "closed_accepted i s"
  shows "pinned s"
proof -
  obtain w where "ss_objects s i = Some w" "ow_mode w = ModeListeners" "i \<in> set (ss_sockets s)"
    using assms by (auto simp: closed_accepted_def)
  then show ?thesis unfolding pinned_def list_ex_iff by (intro bexI [of _ i]) simp_all
qed

lemma closed_accepted_call:
  assumes "closed_accepted i s"
  shows "closed_accepted i (socket_call j c s)"
proof (cases "i = j")
  case True
  obtain w where "ss_objects s i = Some w" "\<not> ow_open w" "ow_mode w = ModeListeners" "i \<in> set (ss_sockets s)"
    using assms by (auto simp: closed_accepted_def)
  with assms True show ?thesis
    by (cases c) (simp_all add: socket_call_def socket_accept_def socket_send_def socket_close_def accept_web_socket_def split: sum.split)
next
  case False
  have keep: "closed_accepted i ((set_socket j w s)\<lparr>ss_sockets := l\<rparr>)" if "i \<in> set l" for w l
    using assms that False by (auto simp: closed_accepted_def set_socket_def)
  have native: "closed_accepted i (native n t) = closed_accepted i t" for n t by (simp add: closed_accepted_def native_def)
  have "i \<in> set (ss_sockets s)" using assms by (simp add: closed_accepted_def)
  with assms keep native False show ?thesis
    by (cases "ss_objects s j"; cases c)
      (simp_all add: socket_call_def socket_accept_def socket_send_def socket_close_def accept_web_socket_def split: sum.split)
qed

section \<open>The host's write\<close>

text \<open>A write stores its puts and removes its deletes; no key is in both and none repeats.\<close>

definition stores_writes :: "((string \<times> 'v option) list \<Rightarrow> string list \<Rightarrow> 'v store \<Rightarrow> 'v store) \<Rightarrow> bool" where
  "stores_writes write \<longleftrightarrow>
     (\<forall>puts deletes m k. distinct (map fst puts) \<longrightarrow> fst ` set puts \<inter> set deletes = {} \<longrightarrow>
        write puts deletes m k = (case map_of puts k of Some v \<Rightarrow> v | None \<Rightarrow> if k \<in> set deletes then None else m k))"

lemma stores_writesD:
  "stores_writes write \<Longrightarrow> distinct (map fst puts) \<Longrightarrow> fst ` set puts \<inter> set deletes = {} \<Longrightarrow>
     write puts deletes m k = (case map_of puts k of Some v \<Rightarrow> v | None \<Rightarrow> if k \<in> set deletes then None else m k)"
  by (simp add: stores_writes_def)

definition host_write :: "(string \<times> 'v option) list \<Rightarrow> string list \<Rightarrow> 'v store \<Rightarrow> 'v store" where
  "host_write puts deletes m = fold (\<lambda>(k, v) m. m(k := v)) puts (\<lambda>k. if k \<in> set deletes then None else m k)"

lemma host_write_stores: "stores_writes host_write"
proof -
  have "distinct (map fst puts) \<Longrightarrow>
      fold (\<lambda>(k, v) m. m(k := v)) puts m k = (case map_of puts k of Some v \<Rightarrow> v | None \<Rightarrow> m k)"
    for puts :: "(string \<times> 'a option) list" and m k
  proof (induction puts arbitrary: m)
    case (Cons p puts)
    have "map_of puts (fst p) = None" using Cons.prems by (simp add: map_of_eq_None_iff)
    with Cons show ?case by (cases p) (auto split: option.split)
  qed simp
  then show ?thesis by (simp add: stores_writes_def host_write_def)
qed

section \<open>Properties\<close>

text \<open>The gates of the object count exactly what is in flight.  After any storage calls, ends of calls,
  and \<open>blockConcurrencyWhile\<close> callbacks, the object reads as reading if and only if a read has not ended,
  as blocked if and only if a callback still runs, and the backlog is the sum of the bytes of the calls
  that have not ended; so a call is refused only while those bytes exceed the limit.\<close>

lemma gates_count_what_is_in_flight:
  "let s = fold script_step as object_script_new in
   (script_reading s \<longleftrightarrow> (\<exists>p \<in> set (os_flights s). fl_kind (snd p) = ReadCall)) \<and>
   (script_blocked s \<longleftrightarrow> os_callbacks s \<noteq> []) \<and>
   os_backlog s = (\<Sum>p\<leftarrow>os_flights s. fl_bytes (snd p))"
proof -
  have "0 < length (filter P xs) \<longleftrightarrow> (\<exists>x \<in> set xs. P x)" for P and xs :: "(nat \<times> flight) list"
    by (induction xs) auto
  moreover have "script_inv (fold script_step as object_script_new)" by (rule script_run_inv)
  ultimately show ?thesis unfolding script_inv_def script_reading_def script_blocked_def Let_def by simp
qed

lemma transaction_result:
  assumes "stores_writes write"
  defines "t \<equiv> \<lambda>evs. fold txn_step evs txn_new"
  shows "txn_view (t evs) m = fold store_step (applied 0 Map.empty evs) m"
    and "transaction write evs threw refused m =
      (if threw \<or> refused \<or> TxnRollback \<in> set evs then m else fold store_step (applied 0 Map.empty evs) m)"
proof -
  have "txn_wf (txn_new :: 'a txn)" "txn_view txn_new m = m" by (auto simp: txn_wf_def txn_new_def txn_view_def)
  then have wf: "txn_wf (t evs)" and view: "txn_view (t evs) m = fold store_step (applied 0 Map.empty evs) m"
    and rolled: "tx_rolled_back (t evs) \<longleftrightarrow> TxnRollback \<in> set evs"
    using txn_run_view [of txn_new evs m] by (simp_all add: t_def txn_new_def)
  show "txn_view (t evs) m = fold store_step (applied 0 Map.empty evs) m" by (rule view)
  have keys: "distinct (map fst (tx_puts (t evs)))" "fst ` set (tx_puts (t evs)) \<inter> set (tx_deletes (t evs)) = {}"
    using wf unfolding txn_wf_def map_of_eq_None_iff by blast+
  have written: "write (tx_puts (t evs)) (tx_deletes (t evs)) m = txn_view (t evs) m"
    using stores_writesD [OF assms(1) keys, of m] by (simp add: txn_view_def fun_eq_iff)
  have empty: "txn_view (t evs) m = m" if "tx_puts (t evs) = []" "tx_deletes (t evs) = []"
    using that by (simp add: txn_view_def fun_eq_iff)
  show "transaction write evs threw refused m =
      (if threw \<or> refused \<or> TxnRollback \<in> set evs then m else fold store_step (applied 0 Map.empty evs) m)"
    using rolled view written empty unfolding transaction_def t_def [symmetric]
    by (auto simp: txn_commit_def t_def)
qed

text \<open>C6: A transaction is one atomic step on the storage.  If the host's write stores its puts and removes
  its deletes, given keys that do not repeat, then a transaction whose closure ends leaves the storage, whatever it
  holds by then, as if its operations had run on it one after the other: a put in the place where it was called, and a delete
  in the place where the read it awaits ended, so one whose read has not ended by then is not part of it.  If the closure
  awaits its deletes, that is the order in which it called them.  A closure that throws or rolls back, or
  whose write is refused, leaves the storage as it was.  And inside the transaction a get sees the operations that took
  effect before it.\<close>

theorem transaction_is_atomic:
  assumes "stores_writes write" "ops = applied 0 Map.empty evs" "t = fold txn_step evs txn_new"
  shows "transaction write evs threw refused m = (if threw \<or> refused \<or> TxnRollback \<in> set evs then m else fold store_step ops m) \<and>
    (awaits_deletes 0 evs \<longrightarrow> ops = called evs) \<and>
    txn_get m k t = fold store_step ops m k \<and>
    map_of (txn_get_found (storage_get m (txn_get_asks keys t)) keys t) k = (if k \<in> set keys then fold store_step ops m k else None)"
  using awaited_in_order [of 0 evs] transaction_result [OF assms(1), where evs = evs and m = m] assms(2,3)
    txn_get_view [of m k t] txn_get_found_view [of m keys t k] by simp

theorem transaction_is_atomic_witness:
  "transaction host_write [TxnPut [(''a'', Cloned (Some (1 :: nat)))], TxnDelete [''b''], TxnRead 0 [(''b'', 7)]] False False (\<lambda>_. Some 7) =
   (\<lambda>k. if k = ''b'' then None else if k = ''a'' then Some 1 else Some 7)"
proof -
  let ?evs = "[TxnPut [(''a'', Cloned (Some (1 :: nat)))], TxnDelete [''b''], TxnRead 0 [(''b'', 7)]]"
  have "awaits_deletes 0 ?evs" by simp
  with transaction_is_atomic [OF host_write_stores refl refl, of ?evs False False "\<lambda>_. Some 7"]
  have "transaction host_write ?evs False False (\<lambda>_. Some 7) = fold store_step (called ?evs) (\<lambda>_. Some 7)" by simp
  then show ?thesis by (simp add: store_step_def fun_eq_iff)
qed

text \<open>A delete that the closure does not await is lost when the closure ends first, and one that is overtaken by a put of the
  same key removes what was put.\<close>

lemma delete_not_awaited:
  "transaction write [TxnDelete [k]] False False m = m"
  "stores_writes write \<Longrightarrow> transaction write [TxnDelete [k], TxnPut [(k, Cloned (Some v))], TxnRead 0 found] False False m k = None"
proof -
  show "transaction write [TxnDelete [k]] False False m = m"
    by (simp add: transaction_def txn_step_def txn_delete_def txn_commit_def txn_new_def)
  assume "stores_writes write"
  from transaction_result(2) [OF this] show "transaction write [TxnDelete [k], TxnPut [(k, Cloned (Some v))], TxnRead 0 found] False False m k = None"
    by (simp add: store_step_def)
qed

text \<open>A socket that is closed and then accepted keeps its object for good.  If a guest closes a socket of
  a new pair and then calls accept on it, the object is pinned, and whatever the guest calls on its
  sockets afterwards, closing that one included, it stays pinned.\<close>

lemma accept_after_close_pins:
  "pinned (fold (\<lambda>(j, c). socket_call j c) later
    (socket_call n SocketAccept (socket_call n (SocketClose None []) (socket_pair n s))))"
proof -
  have "closed_accepted n (socket_call n SocketAccept (socket_call n (SocketClose None []) (socket_pair n s)))"
    by (simp add: closed_accepted_def socket_call_def socket_pair_def socket_close_def socket_accept_def close_checks_def
        native_def set_socket_def)
  then have "closed_accepted n (fold (\<lambda>(j, c). socket_call j c) later
      (socket_call n SocketAccept (socket_call n (SocketClose None []) (socket_pair n s))))"
    by (rule fold_invariant) (auto simp: closed_accepted_call)
  then show ?thesis by (rule closed_accepted_pinned)
qed

end
