(* ===== verification/Js_Value.thy ===== *)
theory Js_Value
  imports Prelude "HOL-Library.AList"
begin

text \<open>
  The JavaScript values the runtime builds and reads: plain data, with objects and maps as association
  lists in insertion order.  A number that comes from an integer is the integer a double holds for it; a
  number that is a double to begin with is kept by its bits.  Accessors, prototypes and the special key
  \<open>__proto__\<close> are left out: a property is data, and \<open>set\<close> of a key stores it.
\<close>

section \<open>Values\<close>

datatype js_promise = JsPending | JsFulfilled | JsRejected

datatype js_value =
    JUndefined
  | JNull
  | JBool bool
  | JNumber int
  | JDouble u64
  | JString string
  | JArray "js_value list"
  | JObject "(string \<times> js_value) list"
  | JBytes bytes
  | JMap "(js_value \<times> js_value) list"
  | JPromise js_promise js_value
  | JError string

text \<open>A new object, and \<open>set\<close> and \<open>get\<close> of a property; a property that is missing reads as undefined.\<close>

definition js_set :: "string \<Rightarrow> js_value \<Rightarrow> js_value \<Rightarrow> js_value" where
  "js_set k v obj = (case obj of JObject ps \<Rightarrow> JObject (AList.update k v ps) | _ \<Rightarrow> obj)"

definition js_get :: "js_value \<Rightarrow> string \<Rightarrow> js_value" where
  "js_get obj k =
     (case obj of JObject ps \<Rightarrow> (case map_of ps k of None \<Rightarrow> JUndefined | Some v \<Rightarrow> v) | _ \<Rightarrow> JUndefined)"

definition is_nullish :: "js_value \<Rightarrow> bool" where
  "is_nullish v \<longleftrightarrow> v = JUndefined \<or> v = JNull"

lemma js_get_set [simp]: "js_get (js_set k v (JObject ps)) q = (if q = k then v else js_get (JObject ps) q)"
  by (simp add: js_get_def js_set_def update_conv)

lemma js_set_object: "\<exists>qs. js_set k v (JObject ps) = JObject qs"
  by (simp add: js_set_def)

section \<open>Integers as doubles\<close>

text \<open>\<open>as f64\<close>: the nearest number with 53 significant bits, halves to even.\<close>

fun bit_length :: "nat \<Rightarrow> nat" where
  "bit_length n = (if n = 0 then 0 else Suc (bit_length (n div 2)))"

declare bit_length.simps [simp del]

definition round_bits :: "nat \<Rightarrow> nat \<Rightarrow> nat" where
  "round_bits e a =
     (let q = a div 2 ^ e; r = a mod 2 ^ e; half = 2 ^ (e - 1) in
      (if r > half \<or> r = half \<and> odd q then Suc q else q) * 2 ^ e)"

definition f64_of_nat :: "nat \<Rightarrow> nat" where
  "f64_of_nat a = (if bit_length a \<le> 53 then a else round_bits (bit_length a - 53) a)"

definition f64_of_int :: "int \<Rightarrow> int" where
  "f64_of_int n = (if n < 0 then - int (f64_of_nat (nat (- n))) else int (f64_of_nat (nat n)))"

definition js_int :: "int \<Rightarrow> js_value" where
  "js_int n = JNumber (f64_of_int n)"

lemma bit_length_bound: "bit_length n \<le> k \<longleftrightarrow> n < 2 ^ k"
proof (induction k arbitrary: n)
  case 0
  then show ?case by (simp add: bit_length.simps [of n])
next
  case (Suc k)
  have "bit_length n \<le> Suc k \<longleftrightarrow> n = 0 \<or> bit_length (n div 2) \<le> k" by (simp add: bit_length.simps [of n])
  also have "\<dots> \<longleftrightarrow> n < 2 ^ Suc k" using Suc [of "n div 2"] by (auto simp: less_mult_imp_div_less)
  finally show ?case .
qed

lemma f64_exact:
  assumes "\<bar>n\<bar> < 2 ^ 53"
  shows "f64_of_int n = n"
proof -
  have "nat \<bar>n\<bar> < 2 ^ 53" using assms by (simp add: nat_less_iff)
  then have "bit_length (nat \<bar>n\<bar>) \<le> 53" by (simp add: bit_length_bound)
  then show ?thesis by (auto simp: f64_of_int_def f64_of_nat_def abs_if split: if_splits)
qed

section \<open>Doubles as integers\<close>

text \<open>The integer part of a double, from its bits; None for an infinity or NaN.\<close>

definition f64_exponent :: "u64 \<Rightarrow> nat" where
  "f64_exponent bits = unat bits div 2 ^ 52 mod 2 ^ 11"

definition f64_fraction :: "u64 \<Rightarrow> nat" where
  "f64_fraction bits = unat bits mod 2 ^ 52"

definition f64_negative :: "u64 \<Rightarrow> bool" where
  "f64_negative bits \<longleftrightarrow> 2 ^ 63 \<le> unat bits"

definition f64_trunc :: "u64 \<Rightarrow> int option" where
  "f64_trunc bits =
     (let e = f64_exponent bits; m = f64_fraction bits + (if e = 0 then 0 else 2 ^ 52);
          a = (if 1075 \<le> e then m * 2 ^ (e - 1075) else m div 2 ^ (1075 - max e 1))
      in if e = 2047 then None else Some (if f64_negative bits then - int a else int a))"

text \<open>\<open>as u64\<close> of a double saturates, and NaN is 0.\<close>

definition saturate_u64 :: "int \<Rightarrow> u64" where
  "saturate_u64 n = word_of_int (max 0 (min (2 ^ 64 - 1) n))"

definition f64_as_u64 :: "u64 \<Rightarrow> u64" where
  "f64_as_u64 bits =
     (case f64_trunc bits of
        Some n \<Rightarrow> saturate_u64 n
      | None \<Rightarrow> if f64_fraction bits \<noteq> 0 \<or> f64_negative bits then 0 else - 1)"

text \<open>\<open>uint32_value\<close>: the integer part modulo 2 to the 32, and 0 for what reads as NaN or an infinity.  How
  strings and objects read as numbers is an argument; None is a conversion that threw.\<close>

definition uint32_value :: "(js_value \<Rightarrow> u32 option) \<Rightarrow> js_value \<Rightarrow> u32 option" where
  "uint32_value to_number v =
     (case v of
        JNumber n \<Rightarrow> Some (word_of_int n)
      | JDouble bits \<Rightarrow> Some (case f64_trunc bits of None \<Rightarrow> 0 | Some n \<Rightarrow> word_of_int n)
      | JUndefined \<Rightarrow> Some 0
      | JNull \<Rightarrow> Some 0
      | JBool b \<Rightarrow> Some (if b then 1 else 0)
      | _ \<Rightarrow> to_number v)"

section \<open>Own properties\<close>

text \<open>The enumerable properties of an object in the order of the language: array indices ascending, then
  the other keys as they were added.  Strings and byte arrays have their elements as properties.\<close>

fun decimal :: "nat \<Rightarrow> string" where
  "decimal n = (if n < 10 then [char_of (48 + n)] else decimal (n div 10) @ [char_of (48 + n mod 10)])"

declare decimal.simps [simp del]

definition digits_value :: "string \<Rightarrow> nat" where
  "digits_value k = foldl (\<lambda>a c. 10 * a + (of_char c - 48)) 0 k"

definition is_array_index :: "string \<Rightarrow> bool" where
  "is_array_index k \<longleftrightarrow> decimal (digits_value k) = k \<and> digits_value k < 2 ^ 32 - 1"

definition own_properties :: "js_value \<Rightarrow> (string \<times> js_value) list" where
  "own_properties v =
     (case v of
        JObject ps \<Rightarrow>
          sort_key (digits_value \<circ> fst) (filter (is_array_index \<circ> fst) ps) @ filter (Not \<circ> is_array_index \<circ> fst) ps
      | JArray xs \<Rightarrow> map (\<lambda>(i, x). (decimal i, x)) (enumerate 0 xs)
      | JString s \<Rightarrow> map (\<lambda>(i, c). (decimal i, JString [c])) (enumerate 0 s)
      | JBytes bs \<Rightarrow> map (\<lambda>(i, b). (decimal i, JNumber (uint b))) (enumerate 0 bs)
      | _ \<Rightarrow> [])"

end
