(* ===== verification/Callback_Values.thy ===== *)
theory Callback_Values
  imports Js_Value Dispatch Stream_Manager
begin

text \<open>
  The JavaScript values built for the results of bindings, from \<open>src/src/runtime/callback_handlers.rs\<close>, and
  what the D1 client in \<open>src/src/js/env.js\<close> makes of them.  Parsing and printing of JSON are arguments.
\<close>

section \<open>Results\<close>

record response_meta =
  rm_status :: "16 word"
  rm_status_text :: string
  rm_headers :: "(string \<times> string) list"

text \<open>A streamed body is the channel that it arrives on.\<close>

datatype response_body = RespBytes bytes | RespStream "(string, bytes) result channel" | RespNone

datatype storage_result =
    StorageBody "bytes option"
  | StorageHead u64 "string option"
  | StorageList "string list" bool
  | StorageResponse "16 word" "(string \<times> string) list" response_body
  | StorageError string

datatype 'j kv_result = KvValue "'j option" | KvOk | KvKeys "string list" | KvError string

datatype sql_primitive = SqlNull | SqlBool bool | SqlInt int | SqlFloat u64 | SqlString string | SqlBytes bytes

datatype database_result =
    DatabaseRows string
  | DatabaseError string
  | DatabaseTable "string list" "sql_primitive list list"

record d1_meta =
  dm_duration :: u64
  dm_changes :: u64
  dm_last_row_id :: int
  dm_changed_db :: bool
  dm_size_after :: u64

record d1_statement_result =
  ds_columns :: "string list"
  ds_rows :: "sql_primitive list list"
  ds_meta :: d1_meta

datatype d1_outcome =
    D1Query d1_statement_result
  | D1Batch "d1_statement_result list"
  | D1Exec u32 u64
  | D1Failure d1_error_kind string

section \<open>Building values\<close>

text \<open>An array of pairs, so that a header that repeats keeps each of its values.\<close>

definition headers_array :: "(string \<times> string) list \<Rightarrow> js_value" where
  "headers_array hs = JArray (map (\<lambda>(k, v). JArray [JString k, JString v]) hs)"

definition populate_fetch_meta :: "response_meta \<Rightarrow> u64 \<Rightarrow> js_value \<Rightarrow> js_value" where
  "populate_fetch_meta m stream_id obj =
     (let obj = js_set ''status'' (js_int (uint (rm_status m))) obj;
          obj = js_set ''statusText'' (JString (rm_status_text m)) obj;
          obj = js_set ''headers'' (headers_array (rm_headers m)) obj
      in js_set ''streamId'' (js_int (uint stream_id)) obj)"

definition populate_upgrade_meta :: "response_meta \<Rightarrow> u64 \<Rightarrow> js_value \<Rightarrow> js_value" where
  "populate_upgrade_meta m ws_id obj =
     (let obj = populate_fetch_meta m 0 obj; obj = js_set ''streamId'' JNull obj in js_set ''socketId'' (js_int (uint ws_id)) obj)"

definition populate_stream_chunk_result :: "stream_chunk \<Rightarrow> js_value \<Rightarrow> js_value" where
  "populate_stream_chunk_result chunk obj =
     (case chunk of
        Data b \<Rightarrow> js_set ''value'' (JBytes b) (js_set ''done'' (JBool False) obj)
      | Done \<Rightarrow> js_set ''done'' (JBool True) obj
      | Error e \<Rightarrow> js_set ''error'' (JString e) obj)"

definition string_array :: "string list \<Rightarrow> js_value" where
  "string_array ks = JArray (map JString ks)"

definition set_success :: "bool \<Rightarrow> js_value \<Rightarrow> js_value" where
  "set_success ok obj = js_set ''success'' (JBool ok) obj"

definition set_error :: "string \<Rightarrow> js_value \<Rightarrow> js_value" where
  "set_error e obj = js_set ''error'' (JString e) (set_success False obj)"

text \<open>The task that pumps a streamed body into the new stream: it receives an item, or awaits a write and
  what follows it.  An error of a write ends the data, and the task then writes the end of the stream.\<close>

datatype pump_state = PumpRecv | PumpData nat bytes | PumpLast nat stream_chunk | PumpOver

record storage_pump =
  sp_stream :: stream_id
  sp_body :: "(string, bytes) result channel"
  sp_state :: pump_state

definition storage_over :: "storage_pump \<Rightarrow> storage_pump" where
  "storage_over p = p\<lparr>sp_state := PumpOver, sp_body := ch_drop_receiver (sp_body p)\<rparr>"

definition storage_write :: "(nat \<Rightarrow> pump_state) \<Rightarrow> storage_pump \<Rightarrow> stream_manager \<Rightarrow> storage_pump \<times> stream_manager" where
  "storage_write wait p sm =
     (case write_begin (sp_stream p) sm of (sm, Some c) \<Rightarrow> (p\<lparr>sp_state := wait c\<rparr>, sm) | (sm, None) \<Rightarrow> (storage_over p, sm))"

definition storage_pump_step :: "storage_pump \<Rightarrow> stream_manager \<Rightarrow> storage_pump \<times> stream_manager" where
  "storage_pump_step p sm =
     (case sp_state p of
        PumpOver \<Rightarrow> (p, sm)
      | PumpRecv \<Rightarrow>
          (case ch_recv (sp_body p) of
             (ch, RecvPending) \<Rightarrow> (p, sm)
           | (ch, RecvClosed) \<Rightarrow> storage_write (\<lambda>c. PumpLast c Done) p sm
           | (ch, Received (Err e)) \<Rightarrow> storage_write (\<lambda>c. PumpLast c (Error e)) (p\<lparr>sp_body := ch\<rparr>) sm
           | (ch, Received (Ok b)) \<Rightarrow>
               (let (q, sm) = storage_write (\<lambda>c. PumpData c b) (p\<lparr>sp_body := ch\<rparr>) sm in
                if sp_state q = PumpOver then storage_write (\<lambda>c. PumpLast c Done) q sm else (q, sm)))
      | PumpData c b \<Rightarrow>
          (case write_poll c (sp_stream p) (Data b) sm of
             (sm, None) \<Rightarrow> (p, sm)
           | (sm, Some (Ok _)) \<Rightarrow> (p\<lparr>sp_state := PumpRecv\<rparr>, sm)
           | (sm, Some (Err _)) \<Rightarrow> storage_write (\<lambda>c. PumpLast c Done) p sm)
      | PumpLast c chunk \<Rightarrow>
          (case write_poll c (sp_stream p) chunk sm of
             (sm, None) \<Rightarrow> (p, sm)
           | (sm, Some _) \<Rightarrow> (storage_over p, sm)))"

text \<open>A body that streams gets a new stream and the task that fills it.\<close>

definition populate_storage_result ::
    "storage_result \<Rightarrow> js_value \<Rightarrow> stream_manager \<Rightarrow> js_value \<times> stream_manager \<times> storage_pump option" where
  "populate_storage_result r obj sm =
     (case r of
        StorageBody body \<Rightarrow>
          (let obj = set_success True obj
           in (case body of None \<Rightarrow> obj | Some b \<Rightarrow> js_set ''body'' (JBytes b) obj, sm, None))
      | StorageHead size_bytes etag \<Rightarrow>
          (let obj = js_set ''size'' (js_int (uint size_bytes)) (set_success True obj)
           in (case etag of None \<Rightarrow> obj | Some e \<Rightarrow> js_set ''etag'' (JString e) obj, sm, None))
      | StorageList keys truncated \<Rightarrow>
          (js_set ''truncated'' (JBool truncated) (js_set ''keys'' (string_array keys) (set_success True obj)), sm, None)
      | StorageError e \<Rightarrow> (set_error e obj, sm, None)
      | StorageResponse status headers body \<Rightarrow>
          (let obj = js_set ''status'' (js_int (uint status)) (set_success True obj);
               obj = js_set ''headers'' (headers_array headers) obj
           in case body of
                RespBytes b \<Rightarrow> (js_set ''body'' (JBytes b) obj, sm, None)
              | RespStream rx \<Rightarrow>
                  (let (sm, i) = create_stream ''storage_fetch'' sm
                   in (js_set ''streamId'' (js_int (uint i)) obj, sm, Some \<lparr>sp_stream = i, sp_body = rx, sp_state = PumpRecv\<rparr>))
              | RespNone \<Rightarrow> (obj, sm, None)))"

definition populate_kv_result :: "(string \<Rightarrow> js_value option) \<Rightarrow> ('j \<Rightarrow> string) \<Rightarrow> 'j kv_result \<Rightarrow> js_value \<Rightarrow> js_value" where
  "populate_kv_result json_parse to_json r obj =
     (case r of
        KvValue v \<Rightarrow>
          (let obj = set_success True obj in
           case v of
             None \<Rightarrow> js_set ''value'' JNull obj
           | Some j \<Rightarrow> js_set ''value'' (case json_parse (to_json j) of None \<Rightarrow> JNull | Some p \<Rightarrow> p) obj)
      | KvOk \<Rightarrow> set_success True obj
      | KvKeys keys \<Rightarrow> js_set ''keys'' (string_array keys) (set_success True obj)
      | KvError e \<Rightarrow> set_error e obj)"

text \<open>One SQL value: integers become numbers, a blob becomes an array of its bytes.\<close>

definition sql_primitive_to_v8 :: "sql_primitive \<Rightarrow> js_value" where
  "sql_primitive_to_v8 v =
     (case v of
        SqlNull \<Rightarrow> JNull
      | SqlBool b \<Rightarrow> JBool b
      | SqlInt n \<Rightarrow> js_int n
      | SqlFloat bits \<Rightarrow> JDouble bits
      | SqlString s \<Rightarrow> JString s
      | SqlBytes bs \<Rightarrow> JArray (map (\<lambda>b. JNumber (uint b)) bs))"

definition set_row :: "string list \<Rightarrow> sql_primitive list \<Rightarrow> js_value \<Rightarrow> js_value" where
  "set_row columns row obj = fold (\<lambda>(c, v). js_set c (sql_primitive_to_v8 v)) (zip columns row) obj"

definition populate_database_result :: "(string \<Rightarrow> js_value option) \<Rightarrow> database_result \<Rightarrow> js_value \<Rightarrow> js_value" where
  "populate_database_result json_parse r obj =
     (case r of
        DatabaseRows rows_json \<Rightarrow>
          js_set ''rows'' (case json_parse rows_json of None \<Rightarrow> JString rows_json | Some v \<Rightarrow> v) (set_success True obj)
      | DatabaseError e \<Rightarrow> set_error e obj
      | DatabaseTable columns rows \<Rightarrow>
          js_set ''rows'' (JArray (map (\<lambda>row. set_row columns row (JObject [])) rows)) (set_success True obj))"

definition populate_d1_statement :: "d1_statement_result \<Rightarrow> js_value \<Rightarrow> js_value" where
  "populate_d1_statement s obj =
     (let m = ds_meta s;
          meta = js_set ''duration'' (JDouble (dm_duration m)) (JObject []);
          meta = js_set ''changes'' (js_int (uint (dm_changes m))) meta;
          meta = js_set ''last_row_id'' (js_int (dm_last_row_id m)) meta;
          meta = js_set ''changed_db'' (JBool (dm_changed_db m)) meta;
          meta = js_set ''size_after'' (js_int (uint (dm_size_after m))) meta;
          obj = js_set ''columns'' (string_array (ds_columns s)) obj;
          obj = js_set ''rows'' (JArray (map (\<lambda>row. JArray (map sql_primitive_to_v8 row)) (ds_rows s))) obj
      in js_set ''meta'' meta obj)"

definition populate_d1_result :: "d1_outcome \<Rightarrow> js_value \<Rightarrow> js_value" where
  "populate_d1_result r obj =
     (case r of
        D1Query s \<Rightarrow> populate_d1_statement s obj
      | D1Batch results \<Rightarrow> js_set ''results'' (JArray (map (\<lambda>s. populate_d1_statement s (JObject [])) results)) obj
      | D1Exec count_ran duration \<Rightarrow> js_set ''duration'' (JDouble duration) (js_set ''count'' (js_int (uint count_ran)) obj)
      | D1Failure kind message \<Rightarrow> js_set ''error'' (JString (d1_error_message kind message)) obj)"

section \<open>The D1 client\<close>

text \<open>The arrays of a result, and a row object of a row of values.  \<open>forEach\<close> goes over the columns; a value
  that is missing reads as undefined.\<close>

definition js_elements :: "js_value \<Rightarrow> js_value list" where
  "js_elements v = (case v of JArray xs \<Rightarrow> xs | _ \<Rightarrow> [])"

definition js_index :: "js_value \<Rightarrow> nat \<Rightarrow> js_value" where
  "js_index v i = (let xs = js_elements v in if i < length xs then xs ! i else JUndefined)"

definition column_name :: "js_value \<Rightarrow> string" where
  "column_name v = (case v of JString s \<Rightarrow> s | _ \<Rightarrow> [])"

definition d1_row :: "js_value \<Rightarrow> js_value \<Rightarrow> js_value" where
  "d1_row columns vals =
     fold (\<lambda>(i, c). js_set (column_name c) (js_index vals i)) (enumerate 0 (js_elements columns)) (JObject [])"

text \<open>\<open>all\<close> and \<open>run\<close> answer the \<open>d1Result\<close>: the meta of the host with what the client adds to it.\<close>

definition d1_result_meta :: "js_value \<Rightarrow> js_value" where
  "d1_result_meta meta =
     js_set ''total_attempts'' (JNumber 1)
       (js_set ''served_by_primary'' (JBool True)
         (js_set ''timings'' (js_set ''sql_duration_ms'' (js_get meta ''duration'') (JObject []))
           (JObject (own_properties meta))))"

definition d1_all :: "js_value \<Rightarrow> js_value" where
  "d1_all r =
     js_set ''results'' (JArray (map (d1_row (js_get r ''columns'')) (js_elements (js_get r ''rows''))))
       (js_set ''meta'' (d1_result_meta (js_get r ''meta'')) (js_set ''success'' (JBool True) (JObject [])))"

definition d1_raw :: "bool \<Rightarrow> js_value \<Rightarrow> js_value list" where
  "d1_raw column_names r =
     (let rows = js_elements (js_get r ''rows'') in if column_names then js_get r ''columns'' # rows else rows)"

definition d1_first :: "string option \<Rightarrow> js_value \<Rightarrow> (string, js_value) result" where
  "d1_first column r =
     (let columns = js_get r ''columns'' in
      case js_elements (js_get r ''rows'') of
        [] \<Rightarrow> Ok JNull
      | row # _ \<Rightarrow>
          (case column of
             None \<Rightarrow> Ok (d1_row columns row)
           | Some c \<Rightarrow>
               if JString c \<notin> set (js_elements columns) then Err (''D1_ERROR: Column not found: '' @ c)
               else Ok (js_get (d1_row columns row) c)))"

section \<open>Rows\<close>

lemma statement_reads [simp]:
  "js_get (populate_d1_statement s (JObject [])) ''columns'' = string_array (ds_columns s)"
  "js_get (populate_d1_statement s (JObject [])) ''rows'' = JArray (map (\<lambda>row. JArray (map sql_primitive_to_v8 row)) (ds_rows s))"
  by (simp_all add: populate_d1_statement_def Let_def js_get_def js_set_def update_conv)

lemma table_reads [simp]:
  "js_get (populate_database_result p (DatabaseTable columns rows) (JObject [])) ''rows'' =
     JArray (map (\<lambda>row. set_row columns row (JObject [])) rows)"
  by (simp add: populate_database_result_def set_success_def js_get_def js_set_def update_conv)

lemma js_elements_simps [simp]: "js_elements (JArray xs) = xs" "js_elements (string_array ks) = map JString ks"
  by (simp_all add: js_elements_def string_array_def)

lemma d1_all_results: "js_get (d1_all r) ''results'' = JArray (map (d1_row (js_get r ''columns'')) (js_elements (js_get r ''rows'')))"
  by (simp add: d1_all_def js_get_def js_set_def update_conv)

text \<open>The row object the client builds is the one the host would have built.\<close>

lemma d1_row_is_set_row:
  assumes "length row = length columns"
  shows "d1_row (string_array columns) (JArray (map sql_primitive_to_v8 row)) = set_row columns row (JObject [])"
proof -
  let ?vals = "JArray (map sql_primitive_to_v8 row)"
  have "fold (\<lambda>(i, c). js_set (column_name c) (js_index ?vals i)) (enumerate n (map JString cs)) obj =
      fold (\<lambda>(c, v). js_set c (sql_primitive_to_v8 v)) (zip cs (drop n row)) obj"
    if "n + length cs = length row" for n cs obj
    using that
  proof (induction cs arbitrary: n obj)
    case (Cons c cs)
    then have n: "n < length row" by simp
    then have "drop n row = row ! n # drop (Suc n) row" by (simp add: Cons_nth_drop_Suc)
    moreover have "js_index ?vals n = sql_primitive_to_v8 (row ! n)" using n by (simp add: js_index_def)
    ultimately show ?case using Cons.IH [of "Suc n"] Cons.prems by (simp add: column_name_def)
  qed simp
  from this [of 0 columns] assms show ?thesis by (simp add: d1_row_def set_row_def)
qed

lemma set_row_get:
  "js_get (set_row columns row (JObject ps)) c =
     (case map_of (rev (zip columns row)) c of Some v \<Rightarrow> sql_primitive_to_v8 v | None \<Rightarrow> js_get (JObject ps) c)"
proof (induction columns arbitrary: row ps)
  case (Cons col columns)
  show ?case
  proof (cases row)
    case (Cons v vs)
    obtain qs where qs: "js_set col (sql_primitive_to_v8 v) (JObject ps) = JObject qs" using js_set_object by blast
    have "js_get (JObject qs) c = (if c = col then sql_primitive_to_v8 v else js_get (JObject ps) c)"
      unfolding qs [symmetric] by simp
    with Cons.IH [of vs qs] qs Cons show ?thesis
      by (simp add: set_row_def map_add_def split: option.split)
  qed (simp add: set_row_def)
qed (simp add: set_row_def)

section \<open>Properties\<close>

text \<open>A row means the same through both database bindings.  For the same columns and rows, each row as
  long as the columns, the row objects that the D1 client builds from the arrays of a query are the row
  objects that the host builds for a database table, column by column; of columns with the same name both
  keep the last one, and \<open>first\<close> with that name answers its value.\<close>

lemma rows_mean_the_same:
  assumes "list_all (\<lambda>row. length row = length (ds_columns s)) (ds_rows s)"
  shows "js_get (d1_all (populate_d1_result (D1Query s) (JObject []))) ''results'' =
      js_get (populate_database_result json_parse (DatabaseTable (ds_columns s) (ds_rows s)) (JObject [])) ''rows'' \<and>
    (c \<in> set (ds_columns s) \<and> ds_rows s \<noteq> [] \<longrightarrow>
      d1_first (Some c) (populate_d1_result (D1Query s) (JObject [])) =
      Ok (sql_primitive_to_v8 (the (map_of (rev (zip (ds_columns s) (hd (ds_rows s)))) c))))"
proof -
  have rows: "d1_row (string_array (ds_columns s)) (JArray (map sql_primitive_to_v8 row)) = set_row (ds_columns s) row (JObject [])"
    if "row \<in> set (ds_rows s)" for row
    using d1_row_is_set_row assms that by (auto simp: list_all_iff)
  then have "js_get (d1_all (populate_d1_result (D1Query s) (JObject []))) ''results'' =
      js_get (populate_database_result json_parse (DatabaseTable (ds_columns s) (ds_rows s)) (JObject [])) ''rows''"
    by (simp add: d1_all_results populate_d1_result_def)
  moreover have "d1_first (Some c) (populate_d1_result (D1Query s) (JObject [])) =
      Ok (sql_primitive_to_v8 (the (map_of (rev (zip (ds_columns s) row)) c)))"
    if "c \<in> set (ds_columns s)" "ds_rows s = row # rest" for row rest
  proof -
    have len: "length row = length (ds_columns s)" using assms that(2) by simp
    have "fst ` set (zip (ds_columns s) row) = set (ds_columns s)" using len by (metis map_fst_zip set_map)
    then have "map_of (rev (zip (ds_columns s) row)) c \<noteq> None" using that(1) by (simp add: map_of_eq_None_iff)
    with rows [of row] that set_row_get [of "ds_columns s" row "[]" c] show ?thesis
      by (auto simp: d1_first_def populate_d1_result_def)
  qed
  ultimately show ?thesis by (cases "ds_rows s") auto
qed

definition sample_statement :: d1_statement_result where
  "sample_statement =
     \<lparr>ds_columns = [''a'', ''a''], ds_rows = [[SqlInt 1, SqlInt 2]],
      ds_meta = \<lparr>dm_duration = 0, dm_changes = 0, dm_last_row_id = 0, dm_changed_db = False, dm_size_after = 0\<rparr>\<rparr>"

end
