(* ===== verification/Event_Readers.thy ===== *)
theory Event_Readers
  imports Js_Value Stream_Manager
begin

text \<open>
  What the runtime hands to the guest for an event and what it reads back, from
  \<open>src/src/execution_helpers.rs\<close>: the request and the task event, the response with its headers and body,
  the pump of a streamed body, and the result of a task.  Conversions that run JavaScript (a string of an
  arbitrary value, a number of it, the raw body of a response) are arguments.
\<close>

section \<open>Reading the answer of an event\<close>

record 'j readers =
  rd_to_string :: "js_value \<Rightarrow> string option"
  rd_to_number :: "js_value \<Rightarrow> u32 option"
  rd_raw_body :: "js_value \<Rightarrow> js_value option"
  rd_stringify :: "js_value \<Rightarrow> string option"
  rd_parse :: "string \<Rightarrow> js_value option"
  rd_from_json :: "string \<Rightarrow> 'j option"
  rd_to_json :: "'j \<Rightarrow> string"

definition to_object :: "js_value \<Rightarrow> js_value option" where
  "to_object v = (if is_nullish v then None else Some v)"

text \<open>The value a fulfilled promise of the handle holds, as an object.\<close>

definition fulfilled_object :: "string \<Rightarrow> js_value \<Rightarrow> js_value option" where
  "fulfilled_object name handle =
     (case js_get handle name of JPromise JsFulfilled v \<Rightarrow> to_object v | _ \<Rightarrow> None)"

definition answered_response :: "js_value \<Rightarrow> js_value option" where
  "answered_response handle = fulfilled_object ''answer'' handle"

definition number_as_u64 :: "js_value \<Rightarrow> u64 option" where
  "number_as_u64 v = (case v of JNumber n \<Rightarrow> Some (saturate_u64 n) | JDouble bits \<Rightarrow> Some (f64_as_u64 bits) | _ \<Rightarrow> None)"

definition read_response_socket :: "js_value option \<Rightarrow> u64 option" where
  "read_response_socket handle =
     (case handle of
        None \<Rightarrow> None
      | Some h \<Rightarrow>
          (case answered_response h of
             None \<Rightarrow> None
           | Some response \<Rightarrow>
               (case to_object (js_get response ''webSocket'') of
                  None \<Rightarrow> None
                | Some client \<Rightarrow> number_as_u64 (js_get client ''_pairId''))))"

record listener_marks =
  lm_late :: bool
  lm_after_settle :: bool

definition read_marks :: "js_value option \<Rightarrow> listener_marks" where
  "read_marks handle =
     (case handle of
        None \<Rightarrow> \<lparr>lm_late = False, lm_after_settle = False\<rparr>
      | Some h \<Rightarrow>
          (case js_get h ''marks'' of
             JObject ps \<Rightarrow>
               \<lparr>lm_late = (js_get (JObject ps) ''late'' = JBool True),
                lm_after_settle = (js_get (JObject ps) ''afterSettle'' = JBool True)\<rparr>
           | _ \<Rightarrow> \<lparr>lm_late = False, lm_after_settle = False\<rparr>))"

definition read_stream_id :: "'j readers \<Rightarrow> js_value \<Rightarrow> u64 option" where
  "read_stream_id R response =
     (let v = js_get response ''_responseStreamId'' in
      if is_nullish v then None else map_option ucast (uint32_value (rd_to_number R) v))"

definition get_response_stream_id :: "'j readers \<Rightarrow> js_value option \<Rightarrow> u64 option" where
  "get_response_stream_id R handle =
     (case handle of
        None \<Rightarrow> None
      | Some h \<Rightarrow> (case answered_response h of None \<Rightarrow> None | Some response \<Rightarrow> read_stream_id R response))"

section \<open>Headers\<close>

text \<open>A value that is an array gives one header for each of its elements.\<close>

definition header_entry :: "'j readers \<Rightarrow> js_value \<times> js_value \<Rightarrow> (string \<times> string) list" where
  "header_entry R kv =
     (case rd_to_string R (fst kv) of
        None \<Rightarrow> []
      | Some k \<Rightarrow>
          (case snd kv of
             JArray elems \<Rightarrow> map (Pair k) (List.map_filter (rd_to_string R) elems)
           | v \<Rightarrow> (case rd_to_string R v of None \<Rightarrow> [] | Some s \<Rightarrow> [(k, s)])))"

definition extract_headers :: "'j readers \<Rightarrow> js_value \<Rightarrow> (string \<times> string) list" where
  "extract_headers R response =
     (case to_object (js_get response ''headers'') of
        None \<Rightarrow> []
      | Some headers \<Rightarrow>
          (case js_get headers ''_map'' of
             JMap entries \<Rightarrow> concat (map (header_entry R) entries)
           | _ \<Rightarrow> List.map_filter (\<lambda>(k, v). map_option (Pair k) (rd_to_string R v)) (own_properties headers)))"

section \<open>The pump of a streamed body\<close>

text \<open>The task that turns the chunks of channel \<open>rp_channel\<close> into the items of the client's channel.
  \<open>rp_sending\<close> is the item whose send it awaits, and whether the task ends after it.\<close>

record response_pump =
  rp_stream :: stream_id
  rp_channel :: nat
  rp_sending :: "((string, bytes) result \<times> bool) option"
  rp_client :: "(string, bytes) result channel"
  rp_ended :: bool

definition response_pump_new :: "nat \<Rightarrow> stream_id \<Rightarrow> nat \<Rightarrow> response_pump" where
  "response_pump_new buffer_size i c =
     \<lparr>rp_stream = i, rp_channel = c, rp_sending = None, rp_client = channel_new buffer_size, rp_ended = False\<rparr>"

text \<open>The end of the task drops its receiver and its sender.\<close>

definition pump_end :: "response_pump \<Rightarrow> stream_manager \<Rightarrow> response_pump \<times> stream_manager" where
  "pump_end p sm =
     (p\<lparr>rp_sending := None, rp_client := ch_drop_sender (rp_client p), rp_ended := True\<rparr>,
      update_channel (rp_channel p) ch_drop_receiver sm)"

definition pump_send ::
    "(string, bytes) result \<Rightarrow> bool \<Rightarrow> response_pump \<Rightarrow> stream_manager \<Rightarrow> response_pump \<times> stream_manager" where
  "pump_send item last_item p sm =
     (case ch_try_send item (rp_client p) of
        (ch, Sent) \<Rightarrow>
          (let p = p\<lparr>rp_client := ch, rp_sending := None\<rparr> in if last_item then pump_end p sm else (p, sm))
      | (ch, SendFull) \<Rightarrow> (p, sm)
      | (ch, SendClosed) \<Rightarrow> if last_item then pump_end p sm else pump_end p (close_stream (rp_stream p) sm))"

definition pump_recv :: "response_pump \<Rightarrow> stream_manager \<Rightarrow> response_pump \<times> stream_manager" where
  "pump_recv p sm =
     (case ch_recv (sm_channels sm ! rp_channel p) of
        (ch, Received chunk) \<Rightarrow>
          (let sm = update_channel (rp_channel p) (\<lambda>_. ch) sm in
           case chunk of
             Data b \<Rightarrow> (p\<lparr>rp_sending := Some (Ok b, False)\<rparr>, sm)
           | Done \<Rightarrow> pump_end p sm
           | Error e \<Rightarrow> (p\<lparr>rp_sending := Some (Err e, True)\<rparr>, sm))
      | (ch, RecvPending) \<Rightarrow> (p, sm)
      | (ch, RecvClosed) \<Rightarrow> pump_end p sm)"

text \<open>One move of the task.  \<open>select!\<close> takes either branch when both are ready: \<open>closed_first\<close> is its
  choice.\<close>

definition pump_response :: "bool \<Rightarrow> response_pump \<Rightarrow> stream_manager \<Rightarrow> response_pump \<times> stream_manager" where
  "pump_response closed_first p sm =
     (if rp_ended p then (p, sm)
      else case rp_sending p of
        Some (item, last_item) \<Rightarrow> pump_send item last_item p sm
      | None \<Rightarrow>
          if \<not> ch_rx_open (rp_client p) \<and>
             (closed_first \<or> snd (ch_recv (sm_channels sm ! rp_channel p)) = RecvPending)
          then pump_end p (close_stream (rp_stream p) sm)
          else pump_recv p sm)"

section \<open>The response\<close>

datatype http_body = HttpStream response_pump | HttpBytes bytes | HttpNone

record http_response =
  ht_status :: "16 word"
  ht_headers :: "(string \<times> string) list"
  ht_body :: http_body

definition read_status :: "'j readers \<Rightarrow> js_value \<Rightarrow> 16 word" where
  "read_status R response =
     (case uint32_value (rd_to_number R) (js_get response ''status'') of None \<Rightarrow> 200 | Some n \<Rightarrow> ucast n)"

text \<open>A stream whose receiver is there gets a pump; \<open>rd_raw_body\<close> is None where \<open>_getRawBody\<close> is not a
  function or throws.\<close>

definition read_body :: "'j readers \<Rightarrow> nat \<Rightarrow> js_value \<Rightarrow> stream_manager \<Rightarrow> stream_manager \<times> http_body" where
  "read_body R buffer_size response sm =
     (case read_stream_id R response of
        Some i \<Rightarrow>
          (case take_receiver i sm of
             (sm, Some c) \<Rightarrow> (sm, HttpStream (response_pump_new buffer_size i c))
           | (sm, None) \<Rightarrow> (sm, HttpNone))
      | None \<Rightarrow> (sm, HttpBytes (case rd_raw_body R response of Some (JBytes b) \<Rightarrow> b | _ \<Rightarrow> [])))"

definition read_response_object ::
    "'j readers \<Rightarrow> nat \<Rightarrow> js_value option \<Rightarrow> stream_manager \<Rightarrow>
     stream_manager \<times> (string, 16 word \<times> http_response) result" where
  "read_response_object R buffer_size handle sm =
     (case (case handle of None \<Rightarrow> None | Some h \<Rightarrow> answered_response h) of
        None \<Rightarrow> (sm, Err ''No response set'')
      | Some response \<Rightarrow>
          (let status = read_status R response;
               headers = extract_headers R response;
               (sm, body) = read_body R buffer_size response sm
           in (sm, Ok (status, \<lparr>ht_status = status, ht_headers = headers, ht_body = body\<rparr>))))"

section \<open>Handing an event to the guest\<close>

definition headers_object :: "(string \<times> string) list \<Rightarrow> js_value" where
  "headers_object hs = fold (\<lambda>(k, v). js_set k (JString v)) hs (JObject [])"

datatype request_body = BodyNone | BodyBytes bytes | BodyStream nat

text \<open>The init object of the Request: a streamed body by its id; otherwise the body is taken, and a buffered
  one that is not empty is handed over.\<close>

definition request_init ::
    "string \<Rightarrow> (string \<times> string) list \<Rightarrow> request_body \<Rightarrow> u64 option \<Rightarrow> js_value \<times> request_body" where
  "request_init method headers body body_stream_id =
     (let obj = js_set ''method'' (JString method) (JObject []);
          obj = js_set ''_fromHost'' (JBool True) obj;
          obj = js_set ''headers'' (headers_object headers) obj
      in case body_stream_id of
           Some i \<Rightarrow> (js_set ''_bodyStreamId'' (js_int (uint i)) obj, body)
         | None \<Rightarrow>
             (case body of
                BodyBytes b \<Rightarrow> (if b = [] then obj else js_set ''body'' (JBytes b) obj, BodyNone)
              | _ \<Rightarrow> (obj, BodyNone)))"

definition request_fallback :: "string \<Rightarrow> string \<Rightarrow> (string \<times> string) list \<Rightarrow> js_value" where
  "request_fallback url method headers =
     js_set ''headers'' (headers_object headers)
       (js_set ''method'' (JString method) (js_set ''url'' (JString url) (JObject [])))"

text \<open>The JavaScript that a dispatch runs, on a guest state \<open>'g\<close>: the listener of an event, which answers a
  handle or was terminated; the microtasks; \<open>endDispatch\<close> of the handle, None where it has none; and the
  Request constructor, None where there is none, which may throw.\<close>

record ('g, 'h) dispatcher =
  dp_clear_async_context :: "'g \<Rightarrow> 'g"
  dp_call :: "string \<Rightarrow> js_value \<Rightarrow> 'g \<Rightarrow> 'g \<times> 'h option"
  dp_checkpoint :: "'g \<Rightarrow> 'g"
  dp_end_dispatch :: "'h \<Rightarrow> ('g \<Rightarrow> 'g \<times> bool) option"
  dp_request :: "(string \<Rightarrow> js_value \<Rightarrow> 'g \<Rightarrow> 'g \<times> js_value option) option"

definition dispatch_event :: "('g, 'h) dispatcher \<Rightarrow> string \<Rightarrow> js_value \<Rightarrow> 'g \<Rightarrow> 'g \<times> (string, 'h) result" where
  "dispatch_event D name arg g =
     (case dp_call D name arg (dp_clear_async_context D g) of
        (g, None) \<Rightarrow> (g, Err ''Execution terminated'')
      | (g, Some h) \<Rightarrow>
          (let g = dp_checkpoint D g in
           case dp_end_dispatch D h of
             None \<Rightarrow> (g, Ok h)
           | Some f \<Rightarrow> (let (g, returned) = f g in (g, if returned then Ok h else Err ''Execution terminated''))))"

definition trigger_fetch_handler ::
    "('g, 'h) dispatcher \<Rightarrow> string \<Rightarrow> string \<Rightarrow> (string \<times> string) list \<Rightarrow> request_body \<Rightarrow> u64 option \<Rightarrow> 'g \<Rightarrow>
     'g \<times> request_body \<times> (string, 'h) result" where
  "trigger_fetch_handler D url method headers body body_stream_id g =
     (let (g, body, request) =
        (case dp_request D of
           None \<Rightarrow> (g, body, request_fallback url method headers)
         | Some new_request \<Rightarrow>
             (let (init, body) = request_init method headers body body_stream_id;
                  (g, made) = new_request url init g
              in (g, body, case made of None \<Rightarrow> JObject [] | Some r \<Rightarrow> r)));
        (g, res) = dispatch_event D ''fetch'' request g
      in (g, body, res))"

section \<open>Tasks\<close>

text \<open>\<open>TaskSource\<close> comes from the core crate; the runtime reads only its schedule.\<close>

datatype task_source = Schedule int "string option" | OtherSource

record 'j task_init =
  ti_task_id :: string
  ti_attempt :: int
  ti_payload :: "'j option"
  ti_source :: "task_source option"

definition set_task_fields :: "'j readers \<Rightarrow> 'j task_init \<Rightarrow> js_value \<Rightarrow> js_value" where
  "set_task_fields R t obj =
     (let obj = js_set ''taskId'' (JString (ti_task_id t)) obj;
          obj = js_set ''attempt'' (js_int (ti_attempt t)) obj;
          obj = (case ti_payload t of
                   None \<Rightarrow> obj
                 | Some j \<Rightarrow> (case rd_parse R (rd_to_json R j) of None \<Rightarrow> obj | Some v \<Rightarrow> js_set ''payload'' v obj))
      in case ti_source t of
           Some (Schedule time cron) \<Rightarrow>
             (let obj = js_set ''scheduledTime'' (js_int time) obj
              in case cron of None \<Rightarrow> obj | Some c \<Rightarrow> js_set ''cron'' (JString c) obj)
         | _ \<Rightarrow> obj)"

definition trigger_task_handler ::
    "'j readers \<Rightarrow> ('g, 'h) dispatcher \<Rightarrow> 'j task_init \<Rightarrow> 'g \<Rightarrow> 'g \<times> (string, 'h) result" where
  "trigger_task_handler R D t g = dispatch_event D ''task'' (set_task_fields R t (JObject [])) g"

record 'j task_result =
  tr_success :: bool
  tr_data :: "'j option"
  tr_error :: "string option"

text \<open>\<open>task_err\<close> is \<open>TaskResult::err\<close> of the core crate.  An error that has no string reads as the empty one.\<close>

definition read_task_result ::
    "'j readers \<Rightarrow> (string \<Rightarrow> 'j task_result) \<Rightarrow> js_value option \<Rightarrow> 'j task_result" where
  "read_task_result R task_err handle =
     (case (case handle of None \<Rightarrow> None | Some h \<Rightarrow> fulfilled_object ''done'' h) of
        None \<Rightarrow> task_err ''the task gave no result''
      | Some res \<Rightarrow>
          (let data = js_get res ''data''; error = js_get res ''error'' in
           \<lparr>tr_success = (js_get res ''success'' = JBool True),
            tr_data = (if is_nullish data then None else Option.bind (rd_stringify R data) (rd_from_json R)),
            tr_error = (if is_nullish error then None
                        else Some (case rd_to_string R error of None \<Rightarrow> [] | Some e \<Rightarrow> e))\<rparr>))"

section \<open>A streamed body, end to end\<close>

text \<open>The moves around a pump: the guest writes a chunk or closes the stream, the pump moves, the client reads
  or leaves.  \<open>br_written\<close> is what the stream accepted, \<open>br_got\<close> what the client read.\<close>

datatype body_op = GuestWrites stream_chunk | GuestCloses | PumpMoves bool | ClientReads | ClientLeaves

record body_run =
  br_sm :: stream_manager
  br_pump :: response_pump
  br_written :: "stream_chunk list"
  br_got :: "(string, bytes) result list"

definition body_step :: "body_op \<Rightarrow> body_run \<Rightarrow> body_run" where
  "body_step op r =
     (let p = br_pump r; sm = br_sm r in
      case op of
        GuestWrites chunk \<Rightarrow>
          (case try_write_chunk (rp_stream p) chunk sm of
             (sm, Ok _) \<Rightarrow> r\<lparr>br_sm := sm, br_written := br_written r @ [chunk]\<rparr>
           | (sm, Err _) \<Rightarrow> r\<lparr>br_sm := sm\<rparr>)
      | GuestCloses \<Rightarrow> r\<lparr>br_sm := close_stream (rp_stream p) sm\<rparr>
      | PumpMoves closed_first \<Rightarrow> (let (p, sm) = pump_response closed_first p sm in r\<lparr>br_sm := sm, br_pump := p\<rparr>)
      | ClientReads \<Rightarrow>
          (case ch_recv (rp_client p) of
             (ch, Received x) \<Rightarrow> r\<lparr>br_pump := p\<lparr>rp_client := ch\<rparr>, br_got := br_got r @ [x]\<rparr>
           | _ \<Rightarrow> r)
      | ClientLeaves \<Rightarrow> r\<lparr>br_pump := p\<lparr>rp_client := ch_drop_receiver (rp_client p)\<rparr>\<rparr>)"

text \<open>What a body means: its data up to the first chunk that ends it.\<close>

fun body_items :: "stream_chunk list \<Rightarrow> (string, bytes) result list" where
  "body_items [] = []"
| "body_items (Data b # cs) = Ok b # body_items cs"
| "body_items (Done # cs) = []"
| "body_items (Error e # cs) = [Err e]"

definition all_data :: "stream_chunk list \<Rightarrow> bool" where
  "all_data cs \<longleftrightarrow> list_all (\<lambda>c. \<not> terminal c) cs"

lemma body_items_append: "all_data xs \<Longrightarrow> body_items (xs @ ys) = body_items xs @ body_items ys"
  by (induction xs rule: body_items.induct) (auto simp: all_data_def terminal_def)

lemma body_items_ended: "\<not> all_data xs \<Longrightarrow> body_items (xs @ ys) = body_items xs"
  by (induction xs rule: body_items.induct) (auto simp: all_data_def terminal_def)

lemma body_items_prefix: "\<exists>zs. body_items (xs @ ys) = body_items xs @ zs"
  by (cases "all_data xs") (auto simp: body_items_append body_items_ended)

text \<open>What the pump has taken from the channel, while it runs: data only, unless the item it sends is the last.\<close>

definition sending_items :: "response_pump \<Rightarrow> (string, bytes) result list" where
  "sending_items p = (case rp_sending p of None \<Rightarrow> [] | Some (x, _) \<Rightarrow> [x])"

definition wired :: "body_run \<Rightarrow> bool" where
  "wired r \<longleftrightarrow>
     rp_channel (br_pump r) < length (sm_channels (br_sm r)) \<and>
     hm_get (sm_receivers (br_sm r)) (rp_stream (br_pump r)) = None \<and>
     (\<forall>d. hm_get (sm_senders (br_sm r)) (rp_stream (br_pump r)) = Some d \<longrightarrow> d = rp_channel (br_pump r))"

definition passed :: "body_run \<Rightarrow> stream_chunk list \<Rightarrow> (string, bytes) result list \<Rightarrow> bool" where
  "passed r taken out \<longleftrightarrow>
     (\<exists>zs. body_items taken = br_got r @ zs) \<and>
     (if ch_rx_open (rp_client (br_pump r)) then br_got r @ ch_buf (rp_client (br_pump r)) @ out = body_items taken
      else ch_buf (rp_client (br_pump r)) = [])"

subsection \<open>The invariant\<close>

lemma passed_same: "body_items cs = body_items ds \<Longrightarrow> passed r cs out = passed r ds out"
  by (simp add: passed_def)

lemma passed_more: "passed r taken out \<Longrightarrow> \<not> ch_rx_open (rp_client (br_pump r)) \<Longrightarrow> passed r (taken @ cs) []"
  using body_items_prefix [of taken cs] by (auto simp: passed_def)

lemma passed_cong:
  assumes "br_got r' = br_got r" "rp_client (br_pump r') = rp_client (br_pump r)"
  shows "passed r' = passed r"
  using assms by (auto simp: passed_def fun_eq_iff)

lemma update_channel_simps [simp]:
  "sm_senders (update_channel c f sm) = sm_senders sm"
  "sm_receivers (update_channel c f sm) = sm_receivers sm"
  "length (sm_channels (update_channel c f sm)) = length (sm_channels sm)"
  "c < length (sm_channels sm) \<Longrightarrow> sm_channels (update_channel c f sm) ! c = f (sm_channels sm ! c)"
  by (simp_all add: update_channel_def)

text \<open>Closing the stream of a pump drops the sender in the table and leaves what is buffered.\<close>

lemma close_stream_wired:
  assumes "hm_get (sm_receivers sm) i = None" "\<forall>d. hm_get (sm_senders sm) i = Some d \<longrightarrow> d = c" "c < length (sm_channels sm)"
  shows "hm_get (sm_receivers (close_stream i sm)) i = None" "hm_get (sm_senders (close_stream i sm)) i = None"
    and "length (sm_channels (close_stream i sm)) = length (sm_channels sm)"
    and "ch_buf (sm_channels (close_stream i sm) ! c) = ch_buf (sm_channels sm ! c)"
    and "ch_rx_open (sm_channels (close_stream i sm) ! c) = ch_rx_open (sm_channels sm ! c)"
  using assms
  by (auto simp: close_stream_def remove_sender_def remove_receiver_def Let_def ch_drop_sender_def split: option.split)

text \<open>The two shapes of the invariant: a pump that runs, and one that has ended.\<close>

definition pumping :: "body_run \<Rightarrow> stream_chunk list \<Rightarrow> bool" where
  "pumping r taken \<longleftrightarrow>
     ch_rx_open (sm_channels (br_sm r) ! rp_channel (br_pump r)) \<and>
     br_written r = taken @ ch_buf (sm_channels (br_sm r) ! rp_channel (br_pump r)) \<and>
     passed r taken (sending_items (br_pump r)) \<and>
     (case rp_sending (br_pump r) of Some (_, True) \<Rightarrow> \<not> all_data taken | _ \<Rightarrow> all_data taken)"

definition pumped :: "body_run \<Rightarrow> bool" where
  "pumped r \<longleftrightarrow>
     \<not> ch_rx_open (sm_channels (br_sm r) ! rp_channel (br_pump r)) \<and> rp_sending (br_pump r) = None \<and> passed r (br_written r) []"

definition body_inv :: "body_run \<Rightarrow> bool" where
  body_inv_shapes: "body_inv r \<longleftrightarrow> wired r \<and> (if rp_ended (br_pump r) then pumped r else (\<exists>taken. pumping r taken))"

text \<open>A write that is accepted appends to the channel of the pump; one that is refused changes nothing of it.\<close>

lemma try_write_wired:
  assumes "try_write_chunk i chunk sm = (sm', res)" "c < length (sm_channels sm)"
    and "\<forall>d. hm_get (sm_senders sm) i = Some d \<longrightarrow> d = c"
  shows "sm_receivers sm' = sm_receivers sm" "length (sm_channels sm') = length (sm_channels sm)"
    and "\<forall>d. hm_get (sm_senders sm') i = Some d \<longrightarrow> d = c"
    and "ch_rx_open (sm_channels sm' ! c) = ch_rx_open (sm_channels sm ! c)"
    and "ch_buf (sm_channels sm' ! c) = ch_buf (sm_channels sm ! c) @ (case res of Ok _ \<Rightarrow> [chunk] | Err _ \<Rightarrow> [])"
    and "\<forall>u. res = Ok u \<longrightarrow> ch_rx_open (sm_channels sm ! c)"
  using assms
  by (auto simp: try_write_chunk_def ch_try_send_def remove_sender_def ch_drop_sender_def
      split: option.splits if_splits)

lemma guest_writes_inv:
  assumes "body_inv r"
  shows "body_inv (body_step (GuestWrites chunk) r)"
proof -
  obtain sm' res where w: "try_write_chunk (rp_stream (br_pump r)) chunk (br_sm r) = (sm', res)" by fastforce
  have wired: "wired r" using assms by (simp add: body_inv_shapes)
  then have c: "rp_channel (br_pump r) < length (sm_channels (br_sm r))"
    "\<forall>d. hm_get (sm_senders (br_sm r)) (rp_stream (br_pump r)) = Some d \<longrightarrow> d = rp_channel (br_pump r)"
    "hm_get (sm_receivers (br_sm r)) (rp_stream (br_pump r)) = None"
    unfolding wired_def by blast+
  note t = try_write_wired [OF w c(1,2)]
  let ?r = "r\<lparr>br_sm := sm', br_written := br_written r @ (case res of Ok _ \<Rightarrow> [chunk] | Err _ \<Rightarrow> [])\<rparr>"
  have step: "body_step (GuestWrites chunk) r = ?r" using w by (cases res) (simp_all add: body_step_def Let_def)
  have p: "passed ?r = passed r" by (rule passed_cong) simp_all
  have "wired ?r" unfolding wired_def using c(1,3) t(1,2,3) by simp
  moreover have "pumped ?r" if "pumped r"
  proof (cases res)
    case (Inl e)
    then show ?thesis using that t(4) p by (simp add: pumped_def)
  next
    case (Inr u)
    then show ?thesis using that t(6) by (simp add: pumped_def)
  qed
  moreover have "pumping ?r taken" if "pumping r taken" for taken
    using that p t(4,5) by (simp add: pumping_def)
  ultimately show ?thesis using assms unfolding step body_inv_shapes by (cases "rp_ended (br_pump r)") auto
qed

lemma guest_closes_inv:
  assumes "body_inv r"
  shows "body_inv (body_step GuestCloses r)"
proof -
  have "wired r" using assms by (simp add: body_inv_shapes)
  then have c: "hm_get (sm_receivers (br_sm r)) (rp_stream (br_pump r)) = None"
    "\<forall>d. hm_get (sm_senders (br_sm r)) (rp_stream (br_pump r)) = Some d \<longrightarrow> d = rp_channel (br_pump r)"
    "rp_channel (br_pump r) < length (sm_channels (br_sm r))"
    unfolding wired_def by blast+
  note t = close_stream_wired [OF c]
  let ?r = "r\<lparr>br_sm := close_stream (rp_stream (br_pump r)) (br_sm r)\<rparr>"
  have step: "body_step GuestCloses r = ?r" by (simp add: body_step_def Let_def)
  have p: "passed ?r = passed r" by (rule passed_cong) simp_all
  have "wired ?r" unfolding wired_def using c(3) t(1,2,3) by simp
  moreover have "pumped ?r = pumped r" "pumping ?r taken = pumping r taken" for taken
    using p t(4,5) by (simp_all add: pumped_def pumping_def)
  ultimately show ?thesis using assms unfolding step body_inv_shapes by (cases "rp_ended (br_pump r)") auto
qed

text \<open>A move of the client touches its channel only.\<close>

lemma client_inv:
  assumes "body_inv r" "\<And>taken out. passed r taken out \<Longrightarrow> passed (r\<lparr>br_pump := br_pump r\<lparr>rp_client := ch\<rparr>, br_got := got\<rparr>) taken out"
  shows "body_inv (r\<lparr>br_pump := br_pump r\<lparr>rp_client := ch\<rparr>, br_got := got\<rparr>)"
proof -
  let ?r = "r\<lparr>br_pump := br_pump r\<lparr>rp_client := ch\<rparr>, br_got := got\<rparr>"
  have "wired ?r = wired r" by (simp add: wired_def)
  moreover have "pumped r \<Longrightarrow> pumped ?r" using assms(2) by (simp add: pumped_def)
  moreover have "pumping r taken \<Longrightarrow> pumping ?r taken" for taken using assms(2) by (simp add: pumping_def sending_items_def)
  ultimately show ?thesis using assms(1) unfolding body_inv_shapes by (cases "rp_ended (br_pump r)") auto
qed

lemma client_reads_inv:
  assumes "body_inv r"
  shows "body_inv (body_step ClientReads r)"
proof (cases "ch_buf (rp_client (br_pump r))")
  case Nil
  then show ?thesis using assms by (simp add: body_step_def ch_recv_def Let_def)
next
  case (Cons x xs)
  have "body_step ClientReads r =
      r\<lparr>br_pump := br_pump r\<lparr>rp_client := rp_client (br_pump r)\<lparr>ch_buf := xs\<rparr>\<rparr>, br_got := br_got r @ [x]\<rparr>"
    using Cons by (simp add: body_step_def ch_recv_def Let_def)
  moreover have "body_inv \<dots>" using Cons by (intro client_inv [OF assms]) (auto simp: passed_def split: if_splits)
  ultimately show ?thesis by simp
qed

lemma client_leaves_inv:
  assumes "body_inv r"
  shows "body_inv (body_step ClientLeaves r)"
proof -
  have "body_step ClientLeaves r =
      r\<lparr>br_pump := br_pump r\<lparr>rp_client := ch_drop_receiver (rp_client (br_pump r))\<rparr>, br_got := br_got r\<rparr>"
    by (simp add: body_step_def Let_def)
  moreover have "body_inv \<dots>" by (intro client_inv [OF assms]) (auto simp: passed_def ch_drop_receiver_def)
  ultimately show ?thesis by simp
qed

text \<open>The pump ends well if the client has the whole body, or is gone.\<close>

lemma pump_end_inv:
  assumes "passed r (br_written r) []" "rp_channel (br_pump r) < length (sm_channels sm)"
    and "hm_get (sm_receivers sm) (rp_stream (br_pump r)) = None"
    and "\<forall>d. hm_get (sm_senders sm) (rp_stream (br_pump r)) = Some d \<longrightarrow> d = rp_channel (br_pump r)"
    and "pump_end (br_pump r) sm = (p', sm')"
  shows "body_inv (r\<lparr>br_sm := sm', br_pump := p'\<rparr>)"
  using assms
  by (auto simp: pump_end_def body_inv_shapes wired_def pumped_def passed_def ch_drop_receiver_def ch_drop_sender_def)

lemma pump_send_inv:
  assumes "wired r" "pumping r taken" "rp_sending (br_pump r) = Some (item, last_item)" "\<not> rp_ended (br_pump r)"
    and "pump_send item last_item (br_pump r) (br_sm r) = (p', sm')"
  shows "body_inv (r\<lparr>br_sm := sm', br_pump := p'\<rparr>)"
proof -
  let ?p = "br_pump r" and ?rest = "ch_buf (sm_channels (br_sm r) ! rp_channel (br_pump r))"
  have c: "hm_get (sm_receivers (br_sm r)) (rp_stream ?p) = None"
    "\<forall>d. hm_get (sm_senders (br_sm r)) (rp_stream ?p) = Some d \<longrightarrow> d = rp_channel ?p"
    "rp_channel ?p < length (sm_channels (br_sm r))"
    using assms(1) unfolding wired_def by blast+
  note t = close_stream_wired [OF c]
  have w: "br_written r = taken @ ?rest" and out: "passed r taken [item]" and d: "all_data taken = (\<not> last_item)"
    using assms(2,3) by (auto simp: pumping_def sending_items_def split: bool.splits)
  consider (sent) ch where "ch_try_send item (rp_client ?p) = (ch, Sent)"
    | (full) ch where "ch_try_send item (rp_client ?p) = (ch, SendFull)"
    | (closed) ch where "ch_try_send item (rp_client ?p) = (ch, SendClosed)"
    by (cases "ch_try_send item (rp_client ?p)", case_tac b) auto
  then show ?thesis
  proof cases
    case full
    then have "p' = ?p" "sm' = br_sm r" using assms(5) by (simp_all add: pump_send_def)
    then show ?thesis using assms by (auto simp: body_inv_shapes)
  next
    case closed
    then have "\<not> ch_rx_open (rp_client ?p)" by (auto simp: ch_try_send_def split: if_splits)
    then have "passed r (br_written r) []" using passed_more out w by simp
    then show ?thesis
      using pump_end_inv [of r "br_sm r" p' sm'] pump_end_inv [of r "close_stream (rp_stream ?p) (br_sm r)" p' sm']
        closed assms(5) c t by (auto simp: pump_send_def split: if_splits)
  next
    case sent
    then have ch: "ch = rp_client ?p\<lparr>ch_buf := ch_buf (rp_client ?p) @ [item]\<rparr>" "ch_rx_open (rp_client ?p)"
      by (auto simp: ch_try_send_def split: if_splits)
    let ?r = "r\<lparr>br_pump := ?p\<lparr>rp_client := ch, rp_sending := None\<rparr>\<rparr>"
    have out': "passed ?r taken []" using out ch by (simp add: passed_def)
    show ?thesis
    proof (cases last_item)
      case True
      then have "passed ?r (br_written ?r) []" using out' w d passed_same [OF body_items_ended] by simp
      moreover have "pump_end (br_pump ?r) (br_sm r) = (p', sm')" using sent True assms(5) by (simp add: pump_send_def Let_def)
      ultimately show ?thesis using pump_end_inv [of ?r "br_sm r" p' sm'] c by simp
    next
      case False
      then have "p' = br_pump ?r" "sm' = br_sm r" using sent assms(5) by (simp_all add: pump_send_def Let_def)
      moreover have "pumping ?r taken" using assms(2) out' d False by (simp add: pumping_def sending_items_def)
      moreover have "wired ?r" using assms(1) by (simp add: wired_def)
      ultimately show ?thesis using assms(4) by (auto simp: body_inv_shapes)
    qed
  qed
qed

lemma pump_recv_inv:
  assumes "wired r" "pumping r taken" "rp_sending (br_pump r) = None" "\<not> rp_ended (br_pump r)"
    and "pump_recv (br_pump r) (br_sm r) = (p', sm')"
  shows "body_inv (r\<lparr>br_sm := sm', br_pump := p'\<rparr>)"
proof -
  let ?p = "br_pump r" and ?ch = "sm_channels (br_sm r) ! rp_channel (br_pump r)"
  have c: "hm_get (sm_receivers (br_sm r)) (rp_stream ?p) = None"
    "\<forall>d. hm_get (sm_senders (br_sm r)) (rp_stream ?p) = Some d \<longrightarrow> d = rp_channel ?p"
    "rp_channel ?p < length (sm_channels (br_sm r))"
    using assms(1) unfolding wired_def by blast+
  have w: "br_written r = taken @ ch_buf ?ch" and out: "passed r taken []" and d: "all_data taken" and rx: "ch_rx_open ?ch"
    using assms(2,3) by (auto simp: pumping_def sending_items_def)
  show ?thesis
  proof (cases "ch_buf ?ch")
    case Nil
    then have "passed r (br_written r) []" using w out by simp
    then show ?thesis using Nil assms pump_end_inv [of r "br_sm r" p' sm'] c
      by (auto simp: pump_recv_def ch_recv_def body_inv_shapes split: if_splits)
  next
    case (Cons chunk cs)
    let ?sm = "update_channel (rp_channel ?p) (\<lambda>_. ?ch\<lparr>ch_buf := cs\<rparr>) (br_sm r)"
    have recv: "pump_recv ?p (br_sm r) =
        (case chunk of Data b \<Rightarrow> (?p\<lparr>rp_sending := Some (Ok b, False)\<rparr>, ?sm) | Done \<Rightarrow> pump_end ?p ?sm
         | Error e \<Rightarrow> (?p\<lparr>rp_sending := Some (Err e, True)\<rparr>, ?sm))"
      using Cons by (simp add: pump_recv_def ch_recv_def Let_def)
    have next_item: "body_inv (r\<lparr>br_sm := ?sm, br_pump := ?p\<lparr>rp_sending := Some (x, l)\<rparr>\<rparr>)"
      if "body_items [chunk] = [x]" "terminal chunk = l" for x l
    proof -
      let ?r = "r\<lparr>br_sm := ?sm, br_pump := ?p\<lparr>rp_sending := Some (x, l)\<rparr>\<rparr>"
      have "passed ?r (taken @ [chunk]) [x]"
        using out that(1) d by (auto simp: passed_def body_items_append split: if_splits)
      moreover have "all_data (taken @ [chunk]) = (\<not> l)" using d that(2) by (simp add: all_data_def)
      ultimately have "pumping ?r (taken @ [chunk])"
        using w Cons c(3) rx by (cases l) (simp_all add: pumping_def sending_items_def)
      moreover have "wired ?r" using c by (simp add: wired_def)
      ultimately show ?thesis using assms(4) by (auto simp: body_inv_shapes)
    qed
    have ended: "body_inv (r\<lparr>br_sm := sm', br_pump := p'\<rparr>)" if "chunk = Done" "pump_end ?p ?sm = (p', sm')"
    proof -
      have "body_items (br_written r) = body_items taken" using w Cons that(1) d by (simp add: body_items_append)
      then have "passed r (br_written r) []" using out passed_same by blast
      then show ?thesis using pump_end_inv [of r ?sm p' sm'] c that(2) by simp
    qed
    show ?thesis
    proof (cases chunk)
      case (Data b)
      then show ?thesis using recv assms(5) next_item [of "Ok b" False] by (simp add: terminal_def)
    next
      case Done
      then show ?thesis using recv assms(5) ended by simp
    next
      case (Error e)
      then show ?thesis using recv assms(5) next_item [of "Err e" True] by (simp add: terminal_def)
    qed
  qed
qed

lemma pump_moves_inv:
  assumes "body_inv r"
  shows "body_inv (body_step (PumpMoves closed_first) r)"
proof (cases "rp_ended (br_pump r)")
  case True
  then show ?thesis using assms by (simp add: body_step_def pump_response_def)
next
  case False
  then obtain taken where r: "wired r" "pumping r taken" using assms by (auto simp: body_inv_shapes)
  obtain p' sm' where m: "pump_response closed_first (br_pump r) (br_sm r) = (p', sm')" by fastforce
  have step: "body_step (PumpMoves closed_first) r = r\<lparr>br_sm := sm', br_pump := p'\<rparr>" using m by (simp add: body_step_def)
  show ?thesis
  proof (cases "rp_sending (br_pump r)")
    case (Some x)
    then show ?thesis using step m False pump_send_inv [OF r, of "fst x" "snd x" p' sm'] by (cases x) (simp add: pump_response_def)
  next
    case None
    have c: "hm_get (sm_receivers (br_sm r)) (rp_stream (br_pump r)) = None"
      "\<forall>d. hm_get (sm_senders (br_sm r)) (rp_stream (br_pump r)) = Some d \<longrightarrow> d = rp_channel (br_pump r)"
      "rp_channel (br_pump r) < length (sm_channels (br_sm r))"
      using r(1) unfolding wired_def by blast+
    have gone: "passed r (br_written r) []" if "\<not> ch_rx_open (rp_client (br_pump r))"
      using r(2) passed_more [of r taken] that by (auto simp: pumping_def)
    show ?thesis
      using step m False None gone pump_recv_inv [OF r None False, of p' sm']
        pump_end_inv [of r "close_stream (rp_stream (br_pump r)) (br_sm r)" p' sm'] c close_stream_wired [OF c]
      by (simp add: pump_response_def split: if_splits)
  qed
qed

lemma body_step_inv: "body_inv r \<Longrightarrow> body_inv (body_step op r)"
  by (cases op) (simp_all add: guest_writes_inv guest_closes_inv pump_moves_inv client_reads_inv client_leaves_inv)

lemma body_run_inv: "body_inv r \<Longrightarrow> body_inv (fold body_step ops r)"
  by (induction ops arbitrary: r) (simp_all add: body_step_inv)

lemma body_starts:
  assumes "read_body R buffer_size response sm = (sm', HttpStream p)" "stream_ok (rp_stream p) (rp_channel p) sm"
  shows "body_inv \<lparr>br_sm = sm', br_pump = p, br_written = buffered (rp_channel p) sm, br_got = []\<rparr>"
proof -
  let ?r = "\<lparr>br_sm = sm', br_pump = p, br_written = buffered (rp_channel p) sm, br_got = []\<rparr>"
  obtain i c where p: "p = response_pump_new buffer_size i c" and sm': "sm' = fst (take_receiver i sm)"
    using assms(1) by (auto simp: read_body_def take_receiver_def split: option.splits)
  have "wired ?r" "pumping ?r []"
    using assms(2) p sm'
    by (auto simp: wired_def pumping_def passed_def sending_items_def all_data_def response_pump_new_def channel_new_def
        take_receiver_def stream_ok_def buffered_def)
  then show ?thesis using p by (auto simp: body_inv_shapes response_pump_new_def)
qed

text \<open>What the invariant says of the client.\<close>

lemma body_inv_body:
  assumes "body_inv r"
  shows "(\<exists>rest. body_items (br_written r) = br_got r @ rest) \<and>
    (rp_ended (br_pump r) \<and> ch_rx_open (rp_client (br_pump r)) \<longrightarrow>
      br_got r @ ch_buf (rp_client (br_pump r)) = body_items (br_written r))"
proof (cases "rp_ended (br_pump r)")
  case True
  then show ?thesis using assms by (auto simp: body_inv_shapes pumped_def passed_def)
next
  case False
  then obtain taken where "pumping r taken" using assms by (auto simp: body_inv_shapes)
  then show ?thesis using False body_items_prefix [of taken "ch_buf (sm_channels (br_sm r) ! rp_channel (br_pump r))"]
    by (auto simp: pumping_def passed_def)
qed

section \<open>Properties\<close>

text \<open>A streamed body reaches the client as the guest wrote it.  From the response that the runtime reads
  on, however writes, the end of the stream, moves of the pump and reads of the client interleave, what the
  client has read is a beginning of the body: the data that the stream accepted, in order, up to the first chunk
  that ends it, with an error as its last item.  Once the pump has ended and the client is still there, what it
  read and what waits in its channel is the whole body.\<close>

lemma streamed_body_arrives:
  assumes "read_response_object R buffer_size handle sm = (sm', Ok (status, response))"
    and "ht_body response = HttpStream p" "stream_ok (rp_stream p) (rp_channel p) sm"
    and "r = fold body_step ops \<lparr>br_sm = sm', br_pump = p, br_written = buffered (rp_channel p) sm, br_got = []\<rparr>"
  shows "(\<exists>rest. body_items (br_written r) = br_got r @ rest) \<and>
    (rp_ended (br_pump r) \<and> ch_rx_open (rp_client (br_pump r)) \<longrightarrow>
      br_got r @ ch_buf (rp_client (br_pump r)) = body_items (br_written r))"
proof -
  obtain resp where "read_body R buffer_size resp sm = (sm', HttpStream p)"
    using assms(1,2) by (auto simp: read_response_object_def Let_def split: option.splits prod.splits)
  then have "body_inv r" using body_run_inv [OF body_starts] assms(3,4) by blast
  then show ?thesis by (rule body_inv_body)
qed

definition sample_readers :: "unit readers" where
  "sample_readers =
     \<lparr>rd_to_string = (\<lambda>v. case v of JString s \<Rightarrow> Some s | _ \<Rightarrow> None), rd_to_number = (\<lambda>_. None),
      rd_raw_body = (\<lambda>_. None), rd_stringify = (\<lambda>_. None), rd_parse = (\<lambda>_. None),
      rd_from_json = (\<lambda>_. None), rd_to_json = (\<lambda>_. [])\<rparr>"

definition sample_handle :: js_value where
  "sample_handle =
     JObject [(''answer'', JPromise JsFulfilled (JObject [(''status'', JNumber 200), (''_responseStreamId'', JNumber 1)]))]"

definition sample_streams :: stream_manager where
  "sample_streams = fst (try_write_chunk 1 (Data [7]) (fst (create_stream ''response'' stream_manager_new)))"

definition sample_moves :: "body_op list" where
  "sample_moves =
     [PumpMoves False, PumpMoves False, ClientReads, GuestWrites (Data [8]), GuestWrites Done,
      PumpMoves False, PumpMoves False, PumpMoves False]"

end
