(* ===== verification/External_Memory.thy ===== *)
theory External_Memory
  imports Prelude
begin

text \<open>
  The accounting of native memory to V8: \<open>JsLock\<close> of \<open>src/src/gc/js_lock.rs\<close> and \<open>ExternalMemoryGuard\<close> of
  \<open>src/src/gc/external_memory.rs\<close>.  Amounts are 64-bit integers that wrap, as in a release build.  A thread
  drops its locks in the reverse order of their creation, as their scopes do.
\<close>

section \<open>Locks\<close>

type_synonym isolate_id = nat
type_synonym thread_id = nat

record gc_world =
  gw_reported :: "isolate_id \<Rightarrow> u64"
  gw_pending :: "isolate_id \<Rightarrow> u64"
  gw_current :: "thread_id \<Rightarrow> isolate_id option"

record js_lock =
  jl_isolate :: isolate_id
  jl_previous :: "isolate_id option"

definition adjust_external_memory :: "isolate_id \<Rightarrow> u64 \<Rightarrow> gc_world \<Rightarrow> gc_world" where
  "adjust_external_memory k delta w =
     (if delta \<noteq> 0 then w\<lparr>gw_reported := (gw_reported w)(k := gw_reported w k + delta)\<rparr> else w)"

definition add_pending :: "isolate_id \<Rightarrow> u64 \<Rightarrow> gc_world \<Rightarrow> gc_world" where
  "add_pending k delta w = w\<lparr>gw_pending := (gw_pending w)(k := gw_pending w k + delta)\<rparr>"

text \<open>A new lock applies what was deferred for its isolate, and remembers the lock it nests in.\<close>

definition js_lock_new :: "thread_id \<Rightarrow> isolate_id \<Rightarrow> gc_world \<Rightarrow> gc_world \<times> js_lock" where
  "js_lock_new t k w =
     (let deferred = gw_pending w k;
          w = w\<lparr>gw_pending := (gw_pending w)(k := 0)\<rparr>;
          w = (if deferred \<noteq> 0 then adjust_external_memory k deferred w else w);
          previous = gw_current w t
      in (w\<lparr>gw_current := (gw_current w)(t := Some k)\<rparr>, \<lparr>jl_isolate = k, jl_previous = previous\<rparr>))"

definition js_lock_drop :: "thread_id \<Rightarrow> js_lock \<Rightarrow> gc_world \<Rightarrow> gc_world" where
  "js_lock_drop t l w = w\<lparr>gw_current := (gw_current w)(t := jl_previous l)\<rparr>"

section \<open>Guards\<close>

record memory_guard =
  mg_amount :: u64
  mg_pending :: "isolate_id option"

definition mem_guard_new :: "thread_id \<Rightarrow> u64 \<Rightarrow> gc_world \<Rightarrow> gc_world \<times> memory_guard" where
  "mem_guard_new t amount w =
     (case gw_current w t of
        Some k \<Rightarrow>
          (if amount \<noteq> 0 then adjust_external_memory k amount w else w, \<lparr>mg_amount = amount, mg_pending = Some k\<rparr>)
      | None \<Rightarrow> (w, \<lparr>mg_amount = amount, mg_pending = None\<rparr>))"

definition mem_guard_empty :: "thread_id \<Rightarrow> gc_world \<Rightarrow> memory_guard" where
  "mem_guard_empty t w = \<lparr>mg_amount = 0, mg_pending = gw_current w t\<rparr>"

definition mem_guard_adjust :: "thread_id \<Rightarrow> u64 \<Rightarrow> memory_guard \<Rightarrow> gc_world \<Rightarrow> gc_world \<times> memory_guard" where
  "mem_guard_adjust t delta g w =
     (if delta = 0 then (w, g)
      else let g = g\<lparr>mg_amount := mg_amount g + delta\<rparr> in
        case gw_current w t of
          Some k \<Rightarrow>
            (adjust_external_memory k delta w, if mg_pending g = None then g\<lparr>mg_pending := Some k\<rparr> else g)
        | None \<Rightarrow> (case mg_pending g of Some k \<Rightarrow> (add_pending k delta w, g) | None \<Rightarrow> (w, g)))"

definition mem_guard_set :: "thread_id \<Rightarrow> u64 \<Rightarrow> memory_guard \<Rightarrow> gc_world \<Rightarrow> gc_world \<times> memory_guard" where
  "mem_guard_set t new_amount g w = mem_guard_adjust t (new_amount - mg_amount g) g w"

definition mem_guard_drop :: "thread_id \<Rightarrow> memory_guard \<Rightarrow> gc_world \<Rightarrow> gc_world" where
  "mem_guard_drop t g w =
     (if mg_amount g = 0 then w
      else case gw_current w t of
        Some k \<Rightarrow> adjust_external_memory k (- mg_amount g) w
      | None \<Rightarrow> (case mg_pending g of Some k \<Rightarrow> add_pending k (- mg_amount g) w | None \<Rightarrow> w))"

section \<open>Runs\<close>

text \<open>Threads that lock and unlock isolates and use guards; a guard is known by its position, and is None once
  dropped.\<close>

datatype gc_op =
    LockIsolate thread_id isolate_id
  | UnlockIsolate thread_id
  | NewGuard thread_id u64
  | EmptyGuard thread_id
  | AdjustGuard thread_id nat u64
  | SetGuard thread_id nat u64
  | DropGuard thread_id nat

record gc_sys =
  gs_world :: gc_world
  gs_locks :: "thread_id \<Rightarrow> js_lock list"
  gs_guards :: "memory_guard option list"

definition gc_start :: gc_sys where
  "gc_start =
     \<lparr>gs_world = \<lparr>gw_reported = (\<lambda>_. 0), gw_pending = (\<lambda>_. 0), gw_current = (\<lambda>_. None)\<rparr>, gs_locks = (\<lambda>_. []), gs_guards = []\<rparr>"

definition live_guard :: "gc_sys \<Rightarrow> nat \<Rightarrow> memory_guard option" where
  "live_guard s i = (if i < length (gs_guards s) then gs_guards s ! i else None)"

definition put_guard :: "nat \<Rightarrow> gc_world \<times> memory_guard \<Rightarrow> gc_sys \<Rightarrow> gc_sys" where
  "put_guard i r s = s\<lparr>gs_world := fst r, gs_guards := (gs_guards s)[i := Some (snd r)]\<rparr>"

definition gc_step :: "gc_op \<Rightarrow> gc_sys \<Rightarrow> gc_sys" where
  "gc_step op s =
     (let w = gs_world s in
      case op of
        LockIsolate t k \<Rightarrow>
          (let (w, l) = js_lock_new t k w in s\<lparr>gs_world := w, gs_locks := (gs_locks s)(t := l # gs_locks s t)\<rparr>)
      | UnlockIsolate t \<Rightarrow>
          (case gs_locks s t of
             [] \<Rightarrow> s
           | l # ls \<Rightarrow> s\<lparr>gs_world := js_lock_drop t l w, gs_locks := (gs_locks s)(t := ls)\<rparr>)
      | NewGuard t amount \<Rightarrow>
          (let (w, g) = mem_guard_new t amount w in s\<lparr>gs_world := w, gs_guards := gs_guards s @ [Some g]\<rparr>)
      | EmptyGuard t \<Rightarrow> s\<lparr>gs_guards := gs_guards s @ [Some (mem_guard_empty t w)]\<rparr>
      | AdjustGuard t i delta \<Rightarrow>
          (case live_guard s i of None \<Rightarrow> s | Some g \<Rightarrow> put_guard i (mem_guard_adjust t delta g w) s)
      | SetGuard t i amount \<Rightarrow>
          (case live_guard s i of None \<Rightarrow> s | Some g \<Rightarrow> put_guard i (mem_guard_set t amount g w) s)
      | DropGuard t i \<Rightarrow>
          (case live_guard s i of
             None \<Rightarrow> s
           | Some g \<Rightarrow> s\<lparr>gs_world := mem_guard_drop t g w, gs_guards := (gs_guards s)[i := None]\<rparr>))"

text \<open>The use the guards are made for: created under a lock, and then touched under a lock of the same isolate
  or without a lock.\<close>

definition own_isolate :: "gc_sys \<Rightarrow> thread_id \<Rightarrow> nat \<Rightarrow> bool" where
  "own_isolate s t i =
     (case live_guard s i of
        None \<Rightarrow> True
      | Some g \<Rightarrow> gw_current (gs_world s) t = None \<or> gw_current (gs_world s) t = mg_pending g)"

definition disciplined :: "gc_op \<Rightarrow> gc_sys \<Rightarrow> bool" where
  "disciplined op s =
     (case op of
        NewGuard t _ \<Rightarrow> gw_current (gs_world s) t \<noteq> None
      | EmptyGuard t \<Rightarrow> gw_current (gs_world s) t \<noteq> None
      | AdjustGuard t i _ \<Rightarrow> own_isolate s t i
      | SetGuard t i _ \<Rightarrow> own_isolate s t i
      | DropGuard t i \<Rightarrow> own_isolate s t i
      | _ \<Rightarrow> True)"

fun disciplined_run :: "gc_op list \<Rightarrow> gc_sys \<Rightarrow> bool" where
  "disciplined_run [] s = True"
| "disciplined_run (op # ops) s = (disciplined op s \<and> disciplined_run ops (gc_step op s))"

text \<open>What the live guards of an isolate track.\<close>

definition charge :: "isolate_id \<Rightarrow> memory_guard option \<Rightarrow> u64" where
  "charge k g = (case g of None \<Rightarrow> 0 | Some g \<Rightarrow> if mg_pending g = Some k then mg_amount g else 0)"

definition tracked :: "isolate_id \<Rightarrow> gc_sys \<Rightarrow> u64" where
  "tracked k s = sum_list (map (charge k) (gs_guards s))"

definition accounted :: "isolate_id \<Rightarrow> gc_world \<Rightarrow> u64" where
  "accounted k w = gw_reported w k + gw_pending w k"

section \<open>The balance\<close>

lemma sum_list_replace:
  "i < length xs \<Longrightarrow> sum_list (map f (xs[i := x])) = sum_list (map f xs) - f (xs ! i) + (f x :: 'b::ab_group_add)"
  by (induction xs arbitrary: i) (auto split: nat.split simp: nth_Cons)

lemma accounted_simps [simp]:
  "accounted k (adjust_external_memory j d w) = accounted k w + (if k = j then d else 0)"
  "accounted k (add_pending j d w) = accounted k w + (if k = j then d else 0)"
  "accounted k (w\<lparr>gw_current := c\<rparr>) = accounted k w"
  by (auto simp: accounted_def adjust_external_memory_def add_pending_def)

lemma js_lock_new_accounted: "accounted k (fst (js_lock_new t j w)) = accounted k w"
  by (auto simp: js_lock_new_def Let_def accounted_def adjust_external_memory_def)

definition memory_balanced :: "gc_sys \<Rightarrow> bool" where
  "memory_balanced s \<longleftrightarrow> (\<forall>k. accounted k (gs_world s) = tracked k s) \<and> (\<forall>g \<in> set (gs_guards s). \<forall>m. g = Some m \<longrightarrow> mg_pending m \<noteq> None)"

lemma mem_guard_adjust_balance:
  assumes "mg_pending g = Some j" "gw_current w t = None \<or> gw_current w t = Some j" "mem_guard_adjust t delta g w = (w', g')"
  shows "accounted k w' - accounted k w = charge k (Some g') - charge k (Some g)" "mg_pending g' = Some j"
  using assms by (auto simp: mem_guard_adjust_def charge_def Let_def split: if_splits option.splits)

lemma mem_guard_drop_balance:
  assumes "mg_pending g = Some j" "gw_current w t = None \<or> gw_current w t = Some j"
  shows "accounted k (mem_guard_drop t g w) - accounted k w = - charge k (Some g)"
  using assms by (auto simp: mem_guard_drop_def charge_def split: option.splits)

lemma replace_balanced:
  assumes "memory_balanced s" "i < length (gs_guards s)"
    and "\<And>k. accounted k w' - accounted k (gs_world s) = charge k g' - charge k (gs_guards s ! i)"
    and "\<And>m. g' = Some m \<Longrightarrow> mg_pending m \<noteq> None"
  shows "memory_balanced (s\<lparr>gs_world := w', gs_guards := (gs_guards s)[i := g']\<rparr>)"
proof -
  have "accounted k w' = tracked k (s\<lparr>gs_world := w', gs_guards := (gs_guards s)[i := g']\<rparr>)" for k
    using assms(1,2) assms(3) [of k] by (simp add: tracked_def sum_list_replace memory_balanced_def algebra_simps)
  moreover have "mg_pending m \<noteq> None" if "Some m \<in> set ((gs_guards s)[i := g'])" for m
    using that assms(1,4) set_update_subset_insert [of "gs_guards s" i g'] by (auto simp: memory_balanced_def)
  ultimately show ?thesis by (auto simp: memory_balanced_def)
qed

lemma append_balanced:
  assumes "memory_balanced s" "mg_pending g = Some j" "\<And>k. accounted k w' = accounted k (gs_world s) + charge k (Some g)"
  shows "memory_balanced (s\<lparr>gs_world := w', gs_guards := gs_guards s @ [Some g]\<rparr>)"
  using assms by (auto simp: memory_balanced_def tracked_def)

lemma live_guardD:
  assumes "live_guard s i = Some g" "memory_balanced s"
  obtains j where "i < length (gs_guards s)" "gs_guards s ! i = Some g" "mg_pending g = Some j"
proof -
  have i: "i < length (gs_guards s)" "gs_guards s ! i = Some g"
    using assms(1) by (simp_all add: live_guard_def split: if_splits)
  then have "Some g \<in> set (gs_guards s)" by (metis nth_mem)
  then have "mg_pending g \<noteq> None" using assms(2) by (auto simp: memory_balanced_def)
  then show thesis using that i by blast
qed

lemma adjust_balanced:
  assumes "memory_balanced s" "live_guard s i = Some g" "own_isolate s t i"
  shows "memory_balanced (put_guard i (mem_guard_adjust t delta g (gs_world s)) s)"
proof -
  obtain j where g: "i < length (gs_guards s)" "gs_guards s ! i = Some g" "mg_pending g = Some j"
    using live_guardD [OF assms(2,1)] .
  obtain w' g' where a: "mem_guard_adjust t delta g (gs_world s) = (w', g')" by fastforce
  have "gw_current (gs_world s) t = None \<or> gw_current (gs_world s) t = Some j"
    using assms(2,3) g(3) by (simp add: own_isolate_def)
  note b = mem_guard_adjust_balance [OF g(3) this a]
  show ?thesis using replace_balanced [OF assms(1) g(1), of w' "Some g'"] a b g(2) by (simp add: put_guard_def)
qed

lemma drop_balanced:
  assumes "memory_balanced s" "live_guard s i = Some g" "own_isolate s t i"
  shows "memory_balanced (s\<lparr>gs_world := mem_guard_drop t g (gs_world s), gs_guards := (gs_guards s)[i := None]\<rparr>)"
proof -
  obtain j where g: "i < length (gs_guards s)" "gs_guards s ! i = Some g" "mg_pending g = Some j"
    using live_guardD [OF assms(2,1)] .
  have "gw_current (gs_world s) t = None \<or> gw_current (gs_world s) t = Some j"
    using assms(2,3) g(3) by (simp add: own_isolate_def)
  note b = mem_guard_drop_balance [OF g(3) this]
  have none: "charge k None = 0" for k by (simp add: charge_def)
  show ?thesis using replace_balanced [OF assms(1) g(1), of "mem_guard_drop t g (gs_world s)" None] b g(2) none by simp
qed

lemma new_balanced:
  assumes "memory_balanced s" "gw_current (gs_world s) t \<noteq> None"
  shows "memory_balanced (gc_step (NewGuard t amount) s)" "memory_balanced (gc_step (EmptyGuard t) s)"
proof -
  obtain k where k: "gw_current (gs_world s) t = Some k" using assms(2) by blast
  show "memory_balanced (gc_step (NewGuard t amount) s)"
    using k append_balanced [OF assms(1), of "\<lparr>mg_amount = amount, mg_pending = Some k\<rparr>" k
        "if amount \<noteq> 0 then adjust_external_memory k amount (gs_world s) else gs_world s"]
    by (simp add: gc_step_def mem_guard_new_def charge_def Let_def)
  show "memory_balanced (gc_step (EmptyGuard t) s)"
    using k append_balanced [OF assms(1), of "\<lparr>mg_amount = 0, mg_pending = Some k\<rparr>" k "gs_world s"]
    by (simp add: gc_step_def mem_guard_empty_def charge_def Let_def)
qed

lemma lock_balanced:
  assumes "memory_balanced s"
  shows "memory_balanced (gc_step (LockIsolate t k) s)" "memory_balanced (gc_step (UnlockIsolate t) s)"
  using assms js_lock_new_accounted [of _ t k "gs_world s"]
  by (auto simp: gc_step_def Let_def case_prod_beta memory_balanced_def tracked_def js_lock_drop_def split: list.split)

lemma gc_step_balanced:
  assumes "memory_balanced s" "disciplined op s"
  shows "memory_balanced (gc_step op s)"
proof (cases op)
  case (AdjustGuard t i delta)
  then show ?thesis using assms adjust_balanced [of s i _ t] by (auto simp: gc_step_def disciplined_def split: option.split)
next
  case (SetGuard t i amount)
  then show ?thesis
    using assms adjust_balanced [of s i _ t] by (auto simp: gc_step_def disciplined_def mem_guard_set_def split: option.split)
next
  case (DropGuard t i)
  then show ?thesis using assms drop_balanced [of s i _ t] by (auto simp: gc_step_def disciplined_def split: option.split)
qed (use assms new_balanced lock_balanced in \<open>simp_all add: disciplined_def\<close>)

lemma gc_run_balanced: "memory_balanced s \<Longrightarrow> disciplined_run ops s \<Longrightarrow> memory_balanced (fold gc_step ops s)"
  by (induction ops arbitrary: s) (auto simp: gc_step_balanced)

section \<open>Properties\<close>

text \<open>C31: Native memory is accounted exactly.  In every run in which guards are created under a lock and then
  adjusted, set and dropped under a lock of the same isolate or without one, on any threads, what V8 was told of an
  isolate plus what is deferred for it is what its live guards track; a new lock of the isolate leaves nothing
  deferred, so V8 then knows exactly that amount.\<close>

theorem external_memory_exact:
  assumes "disciplined_run ops gc_start"
  shows "accounted k (gs_world (fold gc_step ops gc_start)) = tracked k (fold gc_step ops gc_start) \<and>
    gw_reported (gs_world (gc_step (LockIsolate t k) (fold gc_step ops gc_start))) k = tracked k (fold gc_step ops gc_start)"
proof -
  let ?s = "fold gc_step ops gc_start"
  have "memory_balanced gc_start" by (simp add: memory_balanced_def gc_start_def accounted_def tracked_def)
  then have b: "accounted k (gs_world ?s) = tracked k ?s" using gc_run_balanced assms by (simp add: memory_balanced_def)
  have "gw_reported (fst (js_lock_new t k (gs_world ?s))) k = accounted k (gs_world ?s)"
    by (simp add: js_lock_new_def Let_def accounted_def adjust_external_memory_def)
  then show ?thesis using b by (simp add: gc_step_def case_prod_beta Let_def)
qed

theorem external_memory_exact_witness:
  "gw_reported (gs_world (gc_step (LockIsolate 0 1) (fold gc_step
     [LockIsolate 0 1, NewGuard 0 100, UnlockIsolate 0, AdjustGuard 2 0 20] gc_start))) 1 = 120"
proof -
  let ?ops = "[LockIsolate 0 1, NewGuard 0 100, UnlockIsolate 0, AdjustGuard 2 0 20]"
  have "disciplined_run ?ops gc_start" by code_simp
  moreover have "tracked 1 (fold gc_step ?ops gc_start) = 120" by code_simp
  ultimately show ?thesis using external_memory_exact [of ?ops 1 0] by simp
qed

text \<open>A guard that is dropped under the lock of another isolate is charged to that isolate: the isolate that
  allocated keeps the whole amount for good, and the other one loses an amount that it never had.  A guard that
  was created without a lock is never reported, but its drop under a lock is subtracted.\<close>

lemma drop_under_another_lock:
  "let s = fold gc_step [LockIsolate t j, NewGuard t amount, UnlockIsolate t, LockIsolate t k, DropGuard t 0] gc_start;
       u = fold gc_step [NewGuard t amount, LockIsolate t k, DropGuard t 0] gc_start
   in (j = k \<or> accounted j (gs_world s) = amount \<and> accounted k (gs_world s) = - amount) \<and>
      tracked j s = 0 \<and> tracked k s = 0 \<and> accounted k (gs_world u) = - amount \<and> tracked k u = 0"
  by (simp add: gc_step_def gc_start_def js_lock_new_def js_lock_drop_def mem_guard_new_def mem_guard_drop_def live_guard_def
      accounted_def tracked_def charge_def adjust_external_memory_def Let_def)

end
