(* ===== verification/Code_Cache.thy ===== *)
theory Code_Cache
  imports Prelude
begin

text \<open>
  The packed code cache of \<open>src/src/snapshot.rs\<close>: a magic number, the length of the source, the source in UTF-8
  and the cache.  Bytes are 8-bit words; a string is its UTF-8 bytes.
\<close>

section \<open>Bytes and UTF-8\<close>

unbundle bit_operations_syntax

definition to_le_bytes :: "u32 \<Rightarrow> bytes" where
  "to_le_bytes w = map (\<lambda>i. ucast (drop_bit (8 * i) w)) [0..<4]"

definition from_le_bytes :: "bytes \<Rightarrow> u32" where
  "from_le_bytes bs = foldr (\<lambda>b a. ucast b OR push_bit 8 a) bs 0"

text \<open>\<open>from_utf8\<close>: no overlong forms, no surrogates, nothing above the last code point.\<close>

definition continuation :: "8 word \<Rightarrow> bool" where
  "continuation b \<longleftrightarrow> 0x80 \<le> b \<and> b \<le> 0xBF"

fun utf8_valid :: "bytes \<Rightarrow> bool" where
  "utf8_valid [] = True"
| "utf8_valid (a # bs) =
     (if a \<le> 0x7F then utf8_valid bs
      else if 0xC2 \<le> a \<and> a \<le> 0xDF then
        (case bs of b # cs \<Rightarrow> continuation b \<and> utf8_valid cs | _ \<Rightarrow> False)
      else if 0xE0 \<le> a \<and> a \<le> 0xEF then
        (case bs of b # c # cs \<Rightarrow>
           continuation b \<and> (a = 0xE0 \<longrightarrow> 0xA0 \<le> b) \<and> (a = 0xED \<longrightarrow> b \<le> 0x9F) \<and> continuation c \<and> utf8_valid cs
         | _ \<Rightarrow> False)
      else if 0xF0 \<le> a \<and> a \<le> 0xF4 then
        (case bs of b # c # d # cs \<Rightarrow>
           continuation b \<and> (a = 0xF0 \<longrightarrow> 0x90 \<le> b) \<and> (a = 0xF4 \<longrightarrow> b \<le> 0x8F) \<and> continuation c \<and> continuation d \<and>
           utf8_valid cs
         | _ \<Rightarrow> False)
      else False)"

section \<open>Packing\<close>

definition CODE_CACHE_MAGIC :: u32 where
  "CODE_CACHE_MAGIC = 0xC0DECA5E"

definition pack_code_cache :: "bytes \<Rightarrow> bytes \<Rightarrow> bytes" where
  "pack_code_cache source cache =
     to_le_bytes CODE_CACHE_MAGIC @ to_le_bytes (of_nat (length source)) @ source @ cache"

definition is_code_cache :: "bytes \<Rightarrow> bool" where
  "is_code_cache data = (if length data < 8 then False else from_le_bytes (take 4 data) = CODE_CACHE_MAGIC)"

definition unpack_code_cache :: "bytes \<Rightarrow> (bytes \<times> bytes) option" where
  "unpack_code_cache data =
     (if \<not> is_code_cache data then None
      else
        let source_len = unat (from_le_bytes (take 4 (drop 4 data))); source_end = 8 + source_len in
        if length data < source_end then None
        else
          let source = take source_len (drop 8 data) in
          if utf8_valid source then Some (source, drop source_end data) else None)"

section \<open>Round trip\<close>

lemma length_to_le_bytes [simp]: "length (to_le_bytes w) = 4"
  by (simp add: to_le_bytes_def)

lemma to_le_bytes_four: "to_le_bytes w = [ucast w, ucast (drop_bit 8 w), ucast (drop_bit 16 w), ucast (drop_bit 24 w)]"
  by (simp add: to_le_bytes_def upt_rec)

lemma bit_from_le_bytes:
  "bit (from_le_bytes [a, b, c, d]) n \<longleftrightarrow>
     (if n < 8 then bit a n else if n < 16 then bit b (n - 8) else if n < 24 then bit c (n - 16)
      else n < 32 \<and> bit d (n - 24))"
  by (auto simp: from_le_bytes_def bit_simps dest: bit_imp_le_length)

lemma le_bytes_roundtrip [simp]: "from_le_bytes (to_le_bytes w) = w"
  by (rule bit_word_eqI) (simp add: to_le_bytes_four bit_from_le_bytes bit_simps less_diff_conv2)

lemma le_bytes_surj:
  assumes "length bs = 4"
  shows "to_le_bytes (from_le_bytes bs) = bs"
proof -
  obtain a b c d where bs: "bs = [a, b, c, d]" using assms by (auto simp: numeral_eq_Suc length_Suc_conv)
  let ?w = "from_le_bytes [a, b, c, d]"
  have "ucast ?w = a" "ucast (drop_bit 8 ?w) = b" "ucast (drop_bit 16 ?w) = c" "ucast (drop_bit 24 ?w) = d"
    by (rule bit_word_eqI; simp add: bit_simps bit_from_le_bytes)+
  then show ?thesis by (simp add: to_le_bytes_four bs)
qed

section \<open>Properties\<close>

lemma unpack_packed:
  assumes "utf8_valid source" "length source < 2 ^ 32"
  shows "unpack_code_cache (pack_code_cache source cache) = Some (source, cache)"
  using assms by (simp add: unpack_code_cache_def is_code_cache_def pack_code_cache_def unat_of_nat take_bit_nat_eq_self)

lemma packed_unpack:
  assumes "unpack_code_cache data = Some (s, c)"
  shows "data = pack_code_cache s c"
proof -
  let ?m = "take 4 data" and ?l = "take 4 (drop 4 data)"
  let ?n = "unat (from_le_bytes ?l)"
  have len: "8 \<le> length data" and magic: "from_le_bytes ?m = CODE_CACHE_MAGIC" and n: "8 + ?n \<le> length data"
    and s: "s = take ?n (drop 8 data)" and c: "c = drop (8 + ?n) data"
    using assms by (auto simp: unpack_code_cache_def is_code_cache_def Let_def split: if_splits)
  have "?m = to_le_bytes CODE_CACHE_MAGIC" using le_bytes_surj [of ?m] len magic by simp
  moreover have "?l = to_le_bytes (of_nat (length s))" using le_bytes_surj [of ?l] len n s by simp
  moreover have "data = ?m @ ?l @ take ?n (drop 8 data) @ drop (8 + ?n) data"
    using append_take_drop_id [of 4 data] append_take_drop_id [of 4 "drop 4 data"] append_take_drop_id [of ?n "drop 8 data"]
    by (simp add: add.commute)
  ultimately show ?thesis using s c by (simp add: pack_code_cache_def)
qed

text \<open>C32: A packed code cache unpacks to the source and the cache it was packed from, for every source in UTF-8
  shorter than 4 GiB; and whatever unpacks is the packing of what it unpacks to.\<close>

theorem code_cache_roundtrip:
  "(utf8_valid source \<and> length source < 2 ^ 32 \<longrightarrow> unpack_code_cache (pack_code_cache source cache) = Some (source, cache)) \<and>
   (unpack_code_cache data = Some (s, c) \<longrightarrow> data = pack_code_cache s c)"
  using unpack_packed packed_unpack by blast

theorem code_cache_roundtrip_witness:
  "unpack_code_cache (pack_code_cache [0x31, 0xC3, 0xA9] [7]) = Some ([0x31, 0xC3, 0xA9], [7])"
proof -
  have "utf8_valid [0x31, 0xC3, 0xA9]" by code_simp
  then show ?thesis using code_cache_roundtrip [of "[0x31, 0xC3, 0xA9]" "[7]"] by simp
qed

end
