(* ===== verification/Native_Ops.thy ===== *)
theory Native_Ops
  imports Dispatch Js_Value
begin

text \<open>
  The native functions the guest calls for its operations, from \<open>src/src/runtime/bindings/fetch.rs\<close>,
  \<open>bindings/websocket.rs\<close>, \<open>bindings/streams.rs\<close> and \<open>bindings/timers.rs\<close>: each checks its arguments,
  registers the callbacks of a promise and sends a message to the event loop.  Conversions of arguments
  by the serialisation library, and the encoding of an operation for the host, are arguments.
\<close>

section \<open>Arguments and results\<close>

datatype native_arg = ArgFn guest_fn | ArgJs js_value

text \<open>\<open>Conversion\<close> is an exception that a conversion threw itself.\<close>

datatype js_exception = TypeError string | RangeError string | Conversion

datatype native_result = Returns js_value | Throws js_exception

text \<open>\<open>nv_installed\<close> is whether the state of the bindings is in the slots of the context; \<open>nv_frames\<close> counts
  the bytes of the frames of an object that wait, \<open>nv_inline_calls\<close> the calls settled inline.\<close>

record native_state =
  nv_installed :: bool
  nv_tables :: tables
  nv_sent :: "scheduler_message list"
  nv_inline_calls :: u32
  nv_frames :: usize
  nv_next_socket :: ws_id

definition native_new :: "ws_id \<Rightarrow> native_state" where
  "native_new next_socket =
     \<lparr>nv_installed = True, nv_tables = tables_new, nv_sent = [], nv_inline_calls = 0, nv_frames = 0,
      nv_next_socket = next_socket\<rparr>"

definition native_send :: "scheduler_message \<Rightarrow> native_state \<Rightarrow> native_state" where
  "native_send m s = s\<lparr>nv_sent := nv_sent s @ [m]\<rparr>"

definition throw_type_error :: "string \<Rightarrow> native_state \<Rightarrow> native_state \<times> native_result" where
  "throw_type_error message s = (s, Throws (TypeError message))"

section \<open>Parameters of operations\<close>

record fetch_options =
  fo_url :: string
  fo_method :: "string option"
  fo_headers :: "(string \<times> string) list"
  fo_body :: "bytes option"

record http_request =
  hq_url :: string
  hq_method :: string
  hq_headers :: "(string \<times> string) list"
  hq_body :: "bytes option"

record storage_params =
  sp_key :: string
  sp_body :: "bytes option"
  sp_prefix :: "string option"
  sp_limit :: "u32 option"

datatype storage_op =
    StGet string
  | StFetch string
  | StPut string bytes
  | StHead string
  | StList "string option" "u32 option"
  | StDelete string

record kv_params =
  kp_key :: string
  kp_value :: "payload option"
  kp_expires_in :: "u64 option"
  kp_prefix :: "string option"
  kp_limit :: "u32 option"

datatype kv_op =
    KvGet string
  | KvPut string payload "u64 option"
  | KvDelete string
  | KvList "string option" "u32 option"

record database_params =
  dp_sql :: string
  dp_params :: payload

datatype database_op = DbQuery string payload

text \<open>A frame that goes out: what \<open>send\<close> makes, or a close.\<close>

datatype ws_frame = FrameText string | FrameBinary bytes | FrameClose u16 string

text \<open>What the serialisation library and the host's types answer.\<close>

record serde =
  sd_string :: "native_arg \<Rightarrow> string option"
  sd_fetch_options :: "native_arg \<Rightarrow> (string, fetch_options) result"
  sd_method :: "string \<Rightarrow> string option"
  sd_storage :: "native_arg \<Rightarrow> (string, storage_params) result"
  sd_kv :: "native_arg \<Rightarrow> (string, kv_params) result"
  sd_database :: "native_arg \<Rightarrow> (string, database_params) result"
  sd_d1 :: "native_arg \<Rightarrow> (string, payload) result"
  sd_json :: "native_arg \<Rightarrow> (string, payload) result"
  sd_headers :: "native_arg \<Rightarrow> (string, payload) result"
  sd_to_string :: "native_arg \<Rightarrow> string option"
  en_http :: "http_request \<Rightarrow> payload"
  en_storage :: "storage_op \<Rightarrow> payload"
  en_kv :: "kv_op \<Rightarrow> payload"
  en_database :: "database_op \<Rightarrow> payload"
  en_invoke :: "string \<Rightarrow> string \<Rightarrow> payload \<Rightarrow> payload"
  en_frame :: "ws_frame \<Rightarrow> payload"

section \<open>Shared steps\<close>

definition parse_http_request :: "serde \<Rightarrow> native_arg \<Rightarrow> (string, http_request) result" where
  "parse_http_request D options =
     (case sd_fetch_options D options of
        Inl e \<Rightarrow> Err (''fetch: the options are not a request object: '' @ e)
      | Inr opts \<Rightarrow>
          (let name = (case fo_method opts of None \<Rightarrow> ''GET'' | Some m \<Rightarrow> m) in
           case sd_method D name of
             None \<Rightarrow> Err (''fetch: unknown method '' @ [CHR 0x22] @ name @ [CHR 0x22])
           | Some m \<Rightarrow>
               Ok \<lparr>hq_url = fo_url opts, hq_method = m, hq_headers = fo_headers opts, hq_body = fo_body opts\<rparr>))"

definition resolve_reject :: "native_arg \<Rightarrow> native_arg \<Rightarrow> (guest_fn \<times> guest_fn) option" where
  "resolve_reject resolve reject =
     (case (resolve, reject) of (ArgFn f, ArgFn g) \<Rightarrow> Some (f, g) | _ \<Rightarrow> None)"

definition NOT_FUNCTIONS :: string where
  "NOT_FUNCTIONS = ''the resolve and reject callbacks are not functions''"

text \<open>The end of every operation that answers a promise: the pair is registered and the message sent.\<close>

definition owe_answer ::
    "native_arg \<Rightarrow> native_arg \<Rightarrow> (callback_id \<Rightarrow> scheduler_message) \<Rightarrow> native_state \<Rightarrow> native_state \<times> native_result" where
  "owe_answer resolve reject message s =
     (case resolve_reject resolve reject of
        None \<Rightarrow> throw_type_error NOT_FUNCTIONS s
      | Some (f, g) \<Rightarrow>
          (let (t, i) = register_callbacks_with_error f g (nv_tables s)
           in (native_send (message i) (s\<lparr>nv_tables := t\<rparr>), Returns JUndefined)))"

section \<open>Fetch and bindings\<close>

definition native_fetch_streaming :: "serde \<Rightarrow> native_arg \<Rightarrow> native_arg \<Rightarrow> native_arg \<Rightarrow> native_state \<Rightarrow> native_state \<times> native_result" where
  "native_fetch_streaming D options resolve reject s =
     (if \<not> nv_installed s then (s, Returns JUndefined)
      else case parse_http_request D options of
        Inl message \<Rightarrow> throw_type_error message s
      | Inr request \<Rightarrow> owe_answer resolve reject (\<lambda>i. FetchStreaming i (en_http D request)) s)"

text \<open>The assets and worker bindings differ in their message only.\<close>

definition native_binding_fetch ::
    "(callback_id \<Rightarrow> string \<Rightarrow> payload \<Rightarrow> scheduler_message) \<Rightarrow> serde \<Rightarrow> native_arg \<Rightarrow> native_arg \<Rightarrow> native_arg \<Rightarrow> native_arg \<Rightarrow>
     native_state \<Rightarrow> native_state \<times> native_result" where
  "native_binding_fetch message_fn D name options resolve reject s =
     (if \<not> nv_installed s then (s, Returns JUndefined)
      else case sd_string D name of
        None \<Rightarrow> throw_type_error ''binding fetch: the binding name is not a string'' s
      | Some binding_name \<Rightarrow>
          (case parse_http_request D options of
             Inl message \<Rightarrow> throw_type_error message s
           | Inr request \<Rightarrow> owe_answer resolve reject (\<lambda>i. message_fn i binding_name (en_http D request)) s))"

definition storage_op_of :: "string \<Rightarrow> storage_params \<Rightarrow> (string, storage_op) result" where
  "storage_op_of operation params =
     (if operation = ''get'' then Ok (StGet (sp_key params))
      else if operation = ''fetch'' then Ok (StFetch (sp_key params))
      else if operation = ''put'' then
        (case sp_body params of
           Some body \<Rightarrow> Ok (StPut (sp_key params) body)
         | None \<Rightarrow> Err ''storage put: takes a body'')
      else if operation = ''head'' then Ok (StHead (sp_key params))
      else if operation = ''list'' then Ok (StList (sp_prefix params) (sp_limit params))
      else if operation = ''delete'' then Ok (StDelete (sp_key params))
      else Err (''storage: unknown operation '' @ [CHR 0x22] @ operation @ [CHR 0x22]))"

definition native_binding_storage ::
    "serde \<Rightarrow> native_arg \<Rightarrow> native_arg \<Rightarrow> native_arg \<Rightarrow> native_arg \<Rightarrow> native_arg \<Rightarrow> native_state \<Rightarrow> native_state \<times> native_result" where
  "native_binding_storage D name operation params resolve reject s =
     (if \<not> nv_installed s then (s, Returns JUndefined)
      else case sd_string D name of
        None \<Rightarrow> throw_type_error ''storage: the binding name is not a string'' s
      | Some binding_name \<Rightarrow>
          (case sd_string D operation of
             None \<Rightarrow> throw_type_error ''storage: the operation is not a string'' s
           | Some op_name \<Rightarrow>
               (case sd_storage D params of
                  Inl e \<Rightarrow> throw_type_error (''storage: bad parameters: '' @ e) s
                | Inr ps \<Rightarrow>
                    (case storage_op_of op_name ps of
                       Inl message \<Rightarrow> throw_type_error message s
                     | Inr op \<Rightarrow> owe_answer resolve reject (\<lambda>i. BindingStorage i binding_name (en_storage D op)) s))))"

definition kv_op_of :: "string \<Rightarrow> kv_params \<Rightarrow> (string, kv_op) result" where
  "kv_op_of operation params =
     (if operation = ''get'' then Ok (KvGet (kp_key params))
      else if operation = ''put'' then
        (case kp_value params of
           Some v \<Rightarrow> Ok (KvPut (kp_key params) v (kp_expires_in params))
         | None \<Rightarrow> Err ''kv put: takes a value'')
      else if operation = ''delete'' then Ok (KvDelete (kp_key params))
      else if operation = ''list'' then Ok (KvList (kp_prefix params) (kp_limit params))
      else Err (''kv: unknown operation '' @ [CHR 0x22] @ operation @ [CHR 0x22]))"

definition native_binding_kv ::
    "serde \<Rightarrow> native_arg \<Rightarrow> native_arg \<Rightarrow> native_arg \<Rightarrow> native_arg \<Rightarrow> native_arg \<Rightarrow> native_state \<Rightarrow> native_state \<times> native_result" where
  "native_binding_kv D name operation params resolve reject s =
     (if \<not> nv_installed s then (s, Returns JUndefined)
      else case sd_string D name of
        None \<Rightarrow> throw_type_error ''kv: the binding name is not a string'' s
      | Some binding_name \<Rightarrow>
          (case sd_string D operation of
             None \<Rightarrow> throw_type_error ''kv: the operation is not a string'' s
           | Some op_name \<Rightarrow>
               (case sd_kv D params of
                  Inl e \<Rightarrow> throw_type_error (''kv: bad parameters: '' @ e) s
                | Inr ps \<Rightarrow>
                    (case kv_op_of op_name ps of
                       Inl message \<Rightarrow> throw_type_error message s
                     | Inr op \<Rightarrow> owe_answer resolve reject (\<lambda>i. BindingKv i binding_name (en_kv D op)) s))))"

definition database_op_of :: "string \<Rightarrow> database_params \<Rightarrow> (string, database_op) result" where
  "database_op_of operation params =
     (if operation = ''query'' then Ok (DbQuery (dp_sql params) (dp_params params))
      else Err (''database: unknown operation '' @ [CHR 0x22] @ operation @ [CHR 0x22]))"

definition native_binding_database ::
    "serde \<Rightarrow> native_arg \<Rightarrow> native_arg \<Rightarrow> native_arg \<Rightarrow> native_arg \<Rightarrow> native_arg \<Rightarrow> native_state \<Rightarrow> native_state \<times> native_result" where
  "native_binding_database D name operation params resolve reject s =
     (if \<not> nv_installed s then (s, Returns JUndefined)
      else case sd_string D name of
        None \<Rightarrow> throw_type_error ''database: the binding name is not a string'' s
      | Some binding_name \<Rightarrow>
          (case sd_string D operation of
             None \<Rightarrow> throw_type_error ''database: the operation is not a string'' s
           | Some op_name \<Rightarrow>
               (case sd_database D params of
                  Inl e \<Rightarrow> throw_type_error (''database: bad parameters: '' @ e) s
                | Inr ps \<Rightarrow>
                    (case database_op_of op_name ps of
                       Inl message \<Rightarrow> throw_type_error message s
                     | Inr op \<Rightarrow> owe_answer resolve reject (\<lambda>i. BindingDatabase i binding_name (en_database D op)) s))))"

definition native_binding_d1 ::
    "serde \<Rightarrow> native_arg \<Rightarrow> native_arg \<Rightarrow> native_arg \<Rightarrow> native_arg \<Rightarrow> native_state \<Rightarrow> native_state \<times> native_result" where
  "native_binding_d1 D name op resolve reject s =
     (if \<not> nv_installed s then (s, Returns JUndefined)
      else case sd_string D name of
        None \<Rightarrow> throw_type_error ''d1: the binding name is not a string'' s
      | Some binding_name \<Rightarrow>
          (case sd_d1 D op of
             Inl e \<Rightarrow> throw_type_error (''D1_TYPE_ERROR: '' @ e) s
           | Inr d1_op \<Rightarrow> owe_answer resolve reject (\<lambda>i. BindingD1 i binding_name d1_op) s))"

definition native_binding_durable_object ::
    "serde \<Rightarrow> native_arg \<Rightarrow> native_arg \<Rightarrow> native_arg \<Rightarrow> native_arg \<Rightarrow> native_arg \<Rightarrow> native_state \<Rightarrow> native_state \<times> native_result" where
  "native_binding_durable_object D name object_id options resolve reject s =
     (if \<not> nv_installed s then (s, Returns JUndefined)
      else case sd_string D name of
        None \<Rightarrow> throw_type_error ''durable object: the binding name is not a string'' s
      | Some binding \<Rightarrow>
          (case sd_string D object_id of
             None \<Rightarrow> throw_type_error ''durable object: the id is not a string'' s
           | Some oid \<Rightarrow>
               (case parse_http_request D options of
                  Inl message \<Rightarrow> throw_type_error message s
                | Inr request \<Rightarrow> owe_answer resolve reject (\<lambda>i. BindingDurableObject i binding oid (en_http D request)) s)))"

section \<open>Invoke\<close>

definition MAX_INLINE_CALLS :: u32 where
  "MAX_INLINE_CALLS = 16"

definition PANICKED :: string where
  "PANICKED = ''invoke: the host function panicked''"

text \<open>The first poll of the call of the host: ready with a result, pending, or a panic.  A result that is not
  one of an invoke is an error.\<close>

datatype invoke_poll = InvokeReady operation_result | InvokePending | InvokePanics

definition invoke_result :: "operation_result \<Rightarrow> binding_result" where
  "invoke_result r = (case r of OrInvoke b \<Rightarrow> b | _ \<Rightarrow> BindingError ''Unexpected result type'')"

definition settle_inline :: "guest_code \<Rightarrow> bool \<Rightarrow> callback_id \<Rightarrow> binding_result \<Rightarrow> native_state \<Rightarrow> native_state" where
  "settle_inline code json i r s =
     s\<lparr>nv_inline_calls := nv_inline_calls s + 1, nv_tables := settle_invoke code json i r (nv_tables s)\<rparr>"

definition native_binding_invoke ::
    "serde \<Rightarrow> guest_code \<Rightarrow> bool \<Rightarrow> (payload \<Rightarrow> invoke_poll) \<Rightarrow>
     native_arg \<Rightarrow> native_arg \<Rightarrow> native_arg \<Rightarrow> native_arg \<Rightarrow> native_arg \<Rightarrow> native_state \<Rightarrow> native_state \<times> native_result" where
  "native_binding_invoke D code json host name command call_args resolve reject s =
     (if \<not> nv_installed s then (s, Returns JUndefined)
      else case sd_string D name of
        None \<Rightarrow> throw_type_error ''invoke: the binding name is not a string'' s
      | Some binding \<Rightarrow>
          (case sd_string D command of
             None \<Rightarrow> throw_type_error ''invoke: the command is not a string'' s
           | Some cmd \<Rightarrow>
               (case sd_json D call_args of
                  Inl e \<Rightarrow> throw_type_error (''invoke: bad arguments: '' @ e) s
                | Inr args \<Rightarrow>
                    (case resolve_reject resolve reject of
                       None \<Rightarrow> throw_type_error NOT_FUNCTIONS s
                     | Some (f, g) \<Rightarrow>
                         (let (t, i) = register_callbacks_with_error f g (nv_tables s);
                              s = s\<lparr>nv_tables := t\<rparr>;
                              call = en_invoke D binding cmd args
                          in if nv_inline_calls s \<ge> MAX_INLINE_CALLS
                             then (native_send (BindingInvoke i call) s, Returns JUndefined)
                             else case host call of
                               InvokeReady r \<Rightarrow> (settle_inline code json i (invoke_result r) s, Returns JUndefined)
                             | InvokePending \<Rightarrow> (native_send (BindingInvoke i call) s, Returns JUndefined)
                             | InvokePanics \<Rightarrow> (settle_inline code json i (BindingError PANICKED) s, Returns JUndefined))))))"

section \<open>WebSockets\<close>

definition next_socket_id :: "native_state \<Rightarrow> native_state \<times> ws_id" where
  "next_socket_id s = (s\<lparr>nv_next_socket := nv_next_socket s + 1\<rparr>, nv_next_socket s)"

text \<open>\<open>is_number\<close> with \<open>as u64\<close>, and \<open>as u16\<close>, which saturate.\<close>

definition arg_number :: "native_arg \<Rightarrow> js_value option" where
  "arg_number a = (case a of ArgJs (JNumber n) \<Rightarrow> Some (JNumber n) | ArgJs (JDouble b) \<Rightarrow> Some (JDouble b) | _ \<Rightarrow> None)"

definition as_u64 :: "js_value \<Rightarrow> u64" where
  "as_u64 v = (case v of JNumber n \<Rightarrow> saturate_u64 n | JDouble bits \<Rightarrow> f64_as_u64 bits | _ \<Rightarrow> 0)"

definition as_u16 :: "js_value \<Rightarrow> u16" where
  "as_u16 v = (let n = as_u64 v in if n \<le> 0xFFFF then ucast n else 0xFFFF)"

definition socket_id :: "native_arg \<Rightarrow> ws_id option" where
  "socket_id a = map_option as_u64 (arg_number a)"

definition NOT_A_SOCKET :: string where
  "NOT_A_SOCKET = ''WebSocket: the socket id is not a number''"

text \<open>\<open>outgoing\<close>: a string, or the bytes of a buffer or view.\<close>

definition outgoing :: "native_arg \<Rightarrow> ws_frame option" where
  "outgoing a =
     (case a of
        ArgJs (JString text) \<Rightarrow> Some (FrameText text)
      | ArgJs (JBytes b) \<Rightarrow> Some (FrameBinary b)
      | _ \<Rightarrow> None)"

definition NOT_A_FRAME :: string where
  "NOT_A_FRAME = ''WebSocket: send takes a string, an ArrayBuffer or a view''"

definition is_nullish_arg :: "native_arg \<Rightarrow> bool" where
  "is_nullish_arg a = (case a of ArgJs v \<Rightarrow> is_nullish v | ArgFn _ \<Rightarrow> False)"

text \<open>The id of the socket is taken before the arguments are read; \<open>no_headers\<close> is the empty map.\<close>

definition native_websocket_connect ::
    "serde \<Rightarrow> payload \<Rightarrow> native_arg \<Rightarrow> native_arg \<Rightarrow> native_arg \<Rightarrow> native_arg \<Rightarrow> native_state \<Rightarrow> native_state \<times> native_result" where
  "native_websocket_connect D no_headers url headers resolve reject s =
     (if \<not> nv_installed s then (s, Returns JUndefined)
      else
        (let (s, ws) = next_socket_id s in
         case sd_to_string D url of
           None \<Rightarrow> (s, Throws Conversion)
         | Some target \<Rightarrow>
             (case (if is_nullish_arg headers then Ok no_headers else sd_headers D headers) of
                Inl e \<Rightarrow> throw_type_error (''WebSocket: the headers are not a name/value object: '' @ e) s
              | Inr hs \<Rightarrow> owe_answer resolve reject (\<lambda>i. WebSocketConnect i ws target hs) s)))"

definition native_websocket_pair :: "native_state \<Rightarrow> native_state \<times> native_result" where
  "native_websocket_pair s =
     (if \<not> nv_installed s then (s, Returns JUndefined)
      else let (s, ws) = next_socket_id s in (native_send (WebSocketPair ws) s, Returns (js_int (uint ws))))"

definition native_websocket_accept :: "native_arg \<Rightarrow> native_arg \<Rightarrow> native_state \<Rightarrow> native_state \<times> native_result" where
  "native_websocket_accept ws_arg dispatcher s =
     (if \<not> nv_installed s then (s, Returns JUndefined)
      else case socket_id ws_arg of
        None \<Rightarrow> throw_type_error NOT_A_SOCKET s
      | Some ws \<Rightarrow>
          (case dispatcher of
             ArgFn f \<Rightarrow>
               (native_send (WebSocketAccept ws)
                  (s\<lparr>nv_tables := (nv_tables s)\<lparr>tb_ws_event := hm_insert ws f (tb_ws_event (nv_tables s))\<rparr>\<rparr>),
                Returns JUndefined)
           | ArgJs _ \<Rightarrow> throw_type_error ''WebSocket: the dispatcher is not a function'' s))"

definition native_websocket_send :: "serde \<Rightarrow> native_arg \<Rightarrow> native_arg \<Rightarrow> native_state \<Rightarrow> native_state \<times> native_result" where
  "native_websocket_send D ws_arg data s =
     (if \<not> nv_installed s then (s, Returns JUndefined)
      else case socket_id ws_arg of
        None \<Rightarrow> throw_type_error NOT_A_SOCKET s
      | Some ws \<Rightarrow>
          (case outgoing data of
             None \<Rightarrow> throw_type_error NOT_A_FRAME s
           | Some frame \<Rightarrow> (native_send (WebSocketSend ws (OutMessage (en_frame D frame))) s, Returns JUndefined)))"

definition native_websocket_close ::
    "serde \<Rightarrow> native_arg \<Rightarrow> native_arg \<Rightarrow> native_arg \<Rightarrow> native_state \<Rightarrow> native_state \<times> native_result" where
  "native_websocket_close D ws_arg code reason s =
     (if \<not> nv_installed s then (s, Returns JUndefined)
      else case socket_id ws_arg of
        None \<Rightarrow> throw_type_error NOT_A_SOCKET s
      | Some ws \<Rightarrow>
          (case arg_number code of
             None \<Rightarrow> throw_type_error ''WebSocket: the close code is not a number'' s
           | Some n \<Rightarrow>
               (case sd_to_string D reason of
                  None \<Rightarrow> (s, Throws Conversion)
                | Some text \<Rightarrow> (native_send (WebSocketClose ws (as_u16 n) text) s, Returns JUndefined))))"

section \<open>Streams and timers\<close>

definition native_stream_read :: "stream_id \<Rightarrow> guest_fn \<Rightarrow> native_state \<Rightarrow> native_state \<times> native_result" where
  "native_stream_read stream resolve s =
     (let (t, i) = register_stream_read resolve (nv_tables s)
      in (native_send (StreamRead i stream) (s\<lparr>nv_tables := t\<rparr>), Returns JUndefined))"

definition native_stream_cancel :: "stream_id \<Rightarrow> native_state \<Rightarrow> native_state \<times> native_result" where
  "native_stream_cancel stream s = (native_send (StreamCancel stream) s, Returns JUndefined)"

definition native_schedule_timeout :: "callback_id \<Rightarrow> u64 \<Rightarrow> native_state \<Rightarrow> native_state \<times> native_result" where
  "native_schedule_timeout i delay s = (native_send (ScheduleTimeout i (unat delay)) s, Returns JUndefined)"

definition native_schedule_interval :: "callback_id \<Rightarrow> u64 \<Rightarrow> native_state \<Rightarrow> native_state \<times> native_result" where
  "native_schedule_interval i interval s = (native_send (ScheduleInterval i (unat interval)) s, Returns JUndefined)"

definition native_schedule_writable :: "callback_id \<Rightarrow> stream_id \<Rightarrow> native_state \<Rightarrow> native_state \<times> native_result" where
  "native_schedule_writable i stream s = (native_send (ScheduleWritable i stream) s, Returns JUndefined)"

definition native_clear_timer :: "callback_id \<Rightarrow> native_state \<Rightarrow> native_state \<times> native_result" where
  "native_clear_timer i s = (native_send (ClearTimer i) s, Returns JUndefined)"

end
