(* ===== verification/Object_Natives.thy ===== *)
theory Object_Natives
  imports Native_Ops
begin

text \<open>
  The native functions of Durable Objects, from \<open>src/src/runtime/bindings/durable_object.rs\<close>: ids of a
  namespace, the storage operation a script describes, and the sockets of the object.  Conversions that run
  JavaScript, structured clone and what the runner answers are arguments.
\<close>

section \<open>Conversions\<close>

record conversions =
  cv_to_string :: "js_value \<Rightarrow> string option"
  cv_to_number :: "js_value \<Rightarrow> js_value option"
  cv_clone :: "js_value \<Rightarrow> bytes option"
  cv_unclone :: "bytes \<Rightarrow> js_value option"

definition lossy_string :: "conversions \<Rightarrow> js_value \<Rightarrow> string" where
  "lossy_string C v = (case cv_to_string C v of None \<Rightarrow> [] | Some s \<Rightarrow> s)"

definition number_value :: "conversions \<Rightarrow> js_value \<Rightarrow> js_value option" where
  "number_value C v = (case v of JNumber n \<Rightarrow> Some v | JDouble b \<Rightarrow> Some v | _ \<Rightarrow> cv_to_number C v)"

text \<open>\<open>integer_value\<close> of a number: its integer part, held to 64 bits; NaN is 0.\<close>

definition integer_value :: "js_value \<Rightarrow> int" where
  "integer_value v =
     (let clamp = (\<lambda>n. max (- (2 ^ 63)) (min (2 ^ 63 - 1) n)) in
      case v of
        JNumber n \<Rightarrow> clamp n
      | JDouble bits \<Rightarrow>
          (case f64_trunc bits of
             Some n \<Rightarrow> clamp n
           | None \<Rightarrow> if f64_fraction bits \<noteq> 0 then 0 else if f64_negative bits then - (2 ^ 63) else 2 ^ 63 - 1)
      | _ \<Rightarrow> 0)"

definition js_field :: "js_value \<Rightarrow> string \<Rightarrow> js_value option" where
  "js_field obj name = (let v = js_get obj name in if is_nullish v then None else Some v)"

definition string_field :: "conversions \<Rightarrow> js_value \<Rightarrow> string \<Rightarrow> string option" where
  "string_field C obj name = map_option (lossy_string C) (js_field obj name)"

definition js_strings :: "conversions \<Rightarrow> js_value option \<Rightarrow> string list" where
  "js_strings C v = (case v of Some (JArray xs) \<Rightarrow> map (lossy_string C) xs | _ \<Rightarrow> [])"

section \<open>Ids\<close>

datatype object_id_source = IdName string | IdText string | IdUnique

definition native_durable_object_id ::
    "serde \<Rightarrow> (string \<Rightarrow> object_id_source \<Rightarrow> (string, string) result) \<Rightarrow> native_arg \<Rightarrow> native_arg \<Rightarrow> native_arg \<Rightarrow> native_result" where
  "native_durable_object_id D runner binding kind value_arg =
     (case sd_string D binding of
        None \<Rightarrow> Throws (TypeError ''durable object: the binding name is not a string'')
      | Some b \<Rightarrow>
          (case sd_string D kind of
             None \<Rightarrow> Throws (TypeError ''durable object: the id kind is not a string'')
           | Some k \<Rightarrow>
               (let v = sd_string D value_arg;
                    source =
                      (if k = ''name'' then map_option IdName v
                       else if k = ''text'' then map_option IdText v
                       else if k = ''unique'' then Some IdUnique
                       else None)
                in case source of
                     None \<Rightarrow> Throws (TypeError ''durable object: not an id source'')
                   | Some src \<Rightarrow>
                       (case runner b src of Inr i \<Rightarrow> Returns (JString i) | Inl message \<Rightarrow> Throws (TypeError message)))))"

section \<open>Storage\<close>

datatype parsed_op =
    OpGet "string list"
  | OpList "string option" "string option" "string option" "string option" bool "u64 option"
  | OpWrite "(string \<times> bytes) list" "string list" bool
  | OpGetAlarm
  | OpSetAlarm "int option"

text \<open>The entries of a write: an entry that is no array ends the parse without an exception, a value that
  cannot be cloned ends it with one.\<close>

datatype 'a parsed = Parsed 'a | ParseThrew js_exception | ParseSilent

fun parse_puts :: "conversions \<Rightarrow> js_value list \<Rightarrow> (string \<times> bytes) list parsed" where
  "parse_puts C [] = Parsed []"
| "parse_puts C (entry # entries) =
     (case entry of
        JArray kv \<Rightarrow>
          (let at = (\<lambda>i. if i < length kv then kv ! i else JUndefined) in
           case cv_clone C (at 1) of
             None \<Rightarrow> ParseThrew Conversion
           | Some b \<Rightarrow>
               (case parse_puts C entries of
                  Parsed ps \<Rightarrow> Parsed ((lossy_string C (at 0), b) # ps)
                | ParseThrew e \<Rightarrow> ParseThrew e
                | ParseSilent \<Rightarrow> ParseSilent))
      | _ \<Rightarrow> ParseSilent)"

definition is_true_field :: "js_value \<Rightarrow> string \<Rightarrow> bool" where
  "is_true_field obj name \<longleftrightarrow> js_field obj name = Some (JBool True)"

definition parse_storage_op :: "conversions \<Rightarrow> js_value \<Rightarrow> parsed_op parsed" where
  "parse_storage_op C op =
     (if is_nullish op then ParseThrew (TypeError ''durable object storage: the op is not an object'')
      else
        let kind = (case string_field C op ''kind'' of None \<Rightarrow> [] | Some k \<Rightarrow> k) in
        if kind = ''get'' then Parsed (OpGet (js_strings C (js_field op ''keys'')))
        else if kind = ''list'' then
          Parsed (OpList (string_field C op ''start'') (string_field C op ''startAfter'') (string_field C op ''end'')
            (string_field C op ''prefix'') (is_true_field op ''reverse'')
            (map_option as_u64 (Option.bind (js_field op ''limit'') (number_value C))))
        else if kind = ''write'' then
          (case (case js_field op ''puts'' of Some (JArray entries) \<Rightarrow> parse_puts C entries | _ \<Rightarrow> Parsed []) of
             Parsed puts \<Rightarrow> Parsed (OpWrite puts (js_strings C (js_field op ''deletes'')) (is_true_field op ''deleteAll''))
           | ParseThrew e \<Rightarrow> ParseThrew e
           | ParseSilent \<Rightarrow> ParseSilent)
        else if kind = ''getAlarm'' then Parsed OpGetAlarm
        else if kind = ''setAlarm'' then
          Parsed (OpSetAlarm
            (case js_field op ''at'' of
               Some (JNumber n) \<Rightarrow> Some (integer_value (JNumber n))
             | Some (JDouble b) \<Rightarrow> Some (integer_value (JDouble b))
             | _ \<Rightarrow> None))
        else ParseThrew (TypeError ''durable object storage: unknown op''))"

definition op_bytes :: "parsed_op \<Rightarrow> nat" where
  "op_bytes op =
     (case op of
        OpGet keys \<Rightarrow> sum_list (map length keys)
      | OpWrite puts deletes _ \<Rightarrow>
          sum_list (map (\<lambda>(k, v). length k + length v) puts) + sum_list (map length deletes)
      | _ \<Rightarrow> 0)"

text \<open>How the queue of the object sees an operation, with its content as a payload.\<close>

definition queue_op :: "(parsed_op \<Rightarrow> payload) \<Rightarrow> parsed_op \<Rightarrow> object_storage_op" where
  "queue_op enc op =
     (case op of
        OpWrite _ _ _ \<Rightarrow> StorageWrite (enc op)
      | OpSetAlarm _ \<Rightarrow> SetAlarm (enc op)
      | _ \<Rightarrow> StorageRead (enc op))"

text \<open>The return value is the bytes of the operation, also when the callbacks are then refused.\<close>

definition native_object_storage ::
    "conversions \<Rightarrow> (parsed_op \<Rightarrow> payload) \<Rightarrow> js_value \<Rightarrow> native_arg \<Rightarrow> native_arg \<Rightarrow> native_state \<Rightarrow> native_state \<times> native_result" where
  "native_object_storage C enc op resolve reject s =
     (if \<not> nv_installed s then (s, Returns JUndefined)
      else case parse_storage_op C op of
        ParseThrew e \<Rightarrow> (s, Throws e)
      | ParseSilent \<Rightarrow> (s, Returns JUndefined)
      | Parsed p \<Rightarrow>
          (case owe_answer resolve reject (\<lambda>i. ObjectStorage i (queue_op enc p)) s of
             (s, Throws e) \<Rightarrow> (s, Throws e)
           | (s, Returns _) \<Rightarrow> (s, Returns (js_int (int (op_bytes p))))))"

section \<open>Sockets\<close>

datatype socket_op =
    SockAccept ws_id "string list" bool
  | SockSend ws_id ws_frame
  | SockAttachment ws_id "bytes option"

definition MAX_ATTACHMENT :: nat where
  "MAX_ATTACHMENT = 2048"

definition MAX_WAITING_FRAMES :: usize where
  "MAX_WAITING_FRAMES = 64 * 1024 * 1024"

definition send_socket_op :: "(socket_op \<Rightarrow> payload) \<Rightarrow> socket_op \<Rightarrow> native_state \<Rightarrow> native_state \<times> native_result" where
  "send_socket_op enc op s =
     (if nv_installed s then native_send (ObjectSocket (SocketOther (enc op)) None) s else s, Returns JUndefined)"

definition native_object_socket_id :: "native_state \<Rightarrow> native_state \<times> native_result" where
  "native_object_socket_id s = (let (s, ws) = next_socket_id s in (s, Returns (js_int (uint ws))))"

definition native_object_socket_accept ::
    "conversions \<Rightarrow> (socket_op \<Rightarrow> payload) \<Rightarrow> native_arg \<Rightarrow> js_value \<Rightarrow> js_value \<Rightarrow> native_state \<Rightarrow> native_state \<times> native_result" where
  "native_object_socket_accept C enc ws_arg tags hibernatable s =
     (case socket_id ws_arg of
        None \<Rightarrow> throw_type_error NOT_A_SOCKET s
      | Some ws \<Rightarrow> send_socket_op enc (SockAccept ws (js_strings C (Some tags)) (hibernatable = JBool True)) s)"

definition frame_bytes :: "ws_frame \<Rightarrow> nat" where
  "frame_bytes f = (case f of FrameText t \<Rightarrow> length t | FrameBinary b \<Rightarrow> length b | FrameClose _ _ \<Rightarrow> 0)"

text \<open>\<open>Waiting::new\<close> adds the bytes of a frame, its drop takes them off.\<close>

definition waiting_new :: "usize \<Rightarrow> native_state \<Rightarrow> native_state" where
  "waiting_new bytes s = s\<lparr>nv_frames := nv_frames s + bytes\<rparr>"

definition waiting_drop :: "usize \<Rightarrow> native_state \<Rightarrow> native_state" where
  "waiting_drop bytes s = s\<lparr>nv_frames := nv_frames s - bytes\<rparr>"

definition native_object_socket_send ::
    "(socket_op \<Rightarrow> payload) \<Rightarrow> native_arg \<Rightarrow> native_arg \<Rightarrow> native_state \<Rightarrow> native_state \<times> native_result" where
  "native_object_socket_send enc ws_arg data s =
     (case socket_id ws_arg of
        None \<Rightarrow> throw_type_error NOT_A_SOCKET s
      | Some ws \<Rightarrow>
          (case outgoing data of
             None \<Rightarrow> throw_type_error NOT_A_FRAME s
           | Some frame \<Rightarrow>
               if \<not> nv_installed s then (s, Returns JUndefined)
               else if nv_frames s \<ge> MAX_WAITING_FRAMES
               then (s, Throws (RangeError ''WebSocket: 64 MiB of frames wait to go out; send more once they left''))
               else
                 (let bytes = of_nat (frame_bytes frame)
                  in (native_send (ObjectSocket (SocketOther (enc (SockSend ws frame))) (Some bytes)) (waiting_new bytes s),
                      Returns JUndefined))))"

definition native_object_socket_close ::
    "conversions \<Rightarrow> (socket_op \<Rightarrow> payload) \<Rightarrow> native_arg \<Rightarrow> js_value \<Rightarrow> js_value \<Rightarrow> native_state \<Rightarrow> native_state \<times> native_result" where
  "native_object_socket_close C enc ws_arg code reason s =
     (case socket_id ws_arg of
        None \<Rightarrow> throw_type_error NOT_A_SOCKET s
      | Some ws \<Rightarrow>
          (let c = (case number_value C code of None \<Rightarrow> 1000 | Some n \<Rightarrow> as_u16 n)
           in send_socket_op enc (SockSend ws (FrameClose c (lossy_string C reason))) s))"

definition native_object_socket_attachment ::
    "conversions \<Rightarrow> (socket_op \<Rightarrow> payload) \<Rightarrow> native_arg \<Rightarrow> js_value \<Rightarrow> native_state \<Rightarrow> native_state \<times> native_result" where
  "native_object_socket_attachment C enc ws_arg v s =
     (case socket_id ws_arg of
        None \<Rightarrow> throw_type_error NOT_A_SOCKET s
      | Some ws \<Rightarrow>
          if is_nullish v then send_socket_op enc (SockAttachment ws None) s
          else (case cv_clone C v of
             None \<Rightarrow> (s, Throws Conversion)
           | Some b \<Rightarrow>
               if length b > MAX_ATTACHMENT
               then throw_type_error
                 (''serializeAttachment: the attachment is '' @ decimal (length b) @ '' bytes, more than '' @ decimal MAX_ATTACHMENT) s
               else send_socket_op enc (SockAttachment ws (Some b)) s))"

record held_socket =
  hs_id :: ws_id
  hs_tags :: "string list"
  hs_attachment :: "bytes option"

definition socket_entry :: "conversions \<Rightarrow> held_socket \<Rightarrow> js_value" where
  "socket_entry C h =
     js_set ''attachment''
       (case hs_attachment h of
          Some b \<Rightarrow> (case cv_unclone C b of Some v \<Rightarrow> v | None \<Rightarrow> JNull)
        | None \<Rightarrow> JNull)
       (js_set ''tags'' (JArray (map JString (hs_tags h))) (js_set ''id'' (js_int (uint (hs_id h))) (JObject [])))"

definition native_object_sockets :: "conversions \<Rightarrow> held_socket list \<Rightarrow> native_result" where
  "native_object_sockets C sockets = Returns (JArray (map (socket_entry C) sockets))"

end
