(* ===== verification/Native_Properties.thy ===== *)
theory Native_Properties
  imports Object_Natives
begin

text \<open>
  What the native functions promise, over any sequence of calls and of messages, whatever the messages say: a promise
  that is registered is owed and settles once, a call that throws leaves nothing behind, and the calls settled inline and the
  frames that wait are bounded.
\<close>

section \<open>Runs\<close>

text \<open>The arguments of the natives, and the calls of a guest and the answers of the event loop in the order
  they happen.\<close>

record native_env =
  ne_serde :: serde
  ne_conversions :: conversions
  ne_storage_payload :: "parsed_op \<Rightarrow> payload"
  ne_socket_payload :: "socket_op \<Rightarrow> payload"
  ne_no_headers :: payload
  ne_code :: guest_code
  ne_json :: bool
  ne_timer :: "guest_fn option"

datatype native_call =
    CallFetch native_arg native_arg native_arg
  | CallBindingFetch native_arg native_arg native_arg native_arg
  | CallBindingWorker native_arg native_arg native_arg native_arg
  | CallStorage native_arg native_arg native_arg native_arg native_arg
  | CallKv native_arg native_arg native_arg native_arg native_arg
  | CallDatabase native_arg native_arg native_arg native_arg native_arg
  | CallD1 native_arg native_arg native_arg native_arg
  | CallDurableObject native_arg native_arg native_arg native_arg native_arg
  | CallInvoke "payload \<Rightarrow> invoke_poll" native_arg native_arg native_arg native_arg native_arg
  | CallConnect native_arg native_arg native_arg native_arg
  | CallObjectStorage js_value native_arg native_arg
  | CallStreamRead stream_id guest_fn
  | CallStreamCancel stream_id
  | CallPair
  | CallAccept native_arg native_arg
  | CallSend native_arg native_arg
  | CallClose native_arg native_arg native_arg
  | CallTimeout callback_id u64
  | CallInterval callback_id u64
  | CallWritable callback_id stream_id
  | CallClearTimer callback_id
  | CallObjectSend native_arg native_arg
  | CallObjectAccept native_arg js_value js_value
  | CallObjectClose native_arg js_value js_value
  | CallObjectAttachment native_arg js_value

definition native_call :: "native_env \<Rightarrow> native_call \<Rightarrow> native_state \<Rightarrow> native_state \<times> native_result" where
  "native_call E c s =
     (let D = ne_serde E; C = ne_conversions E; enc = ne_socket_payload E in
      case c of
        CallFetch a b d \<Rightarrow> native_fetch_streaming D a b d s
      | CallBindingFetch a b d e \<Rightarrow> native_binding_fetch BindingFetch D a b d e s
      | CallBindingWorker a b d e \<Rightarrow> native_binding_fetch BindingWorker D a b d e s
      | CallStorage a b d e f \<Rightarrow> native_binding_storage D a b d e f s
      | CallKv a b d e f \<Rightarrow> native_binding_kv D a b d e f s
      | CallDatabase a b d e f \<Rightarrow> native_binding_database D a b d e f s
      | CallD1 a b d e \<Rightarrow> native_binding_d1 D a b d e s
      | CallDurableObject a b d e f \<Rightarrow> native_binding_durable_object D a b d e f s
      | CallInvoke host a b d e f \<Rightarrow> native_binding_invoke D (ne_code E) (ne_json E) host a b d e f s
      | CallConnect a b d e \<Rightarrow> native_websocket_connect D (ne_no_headers E) a b d e s
      | CallObjectStorage v a b \<Rightarrow> native_object_storage C (ne_storage_payload E) v a b s
      | CallStreamRead i f \<Rightarrow> native_stream_read i f s
      | CallStreamCancel i \<Rightarrow> native_stream_cancel i s
      | CallPair \<Rightarrow> native_websocket_pair s
      | CallAccept a b \<Rightarrow> native_websocket_accept a b s
      | CallSend a b \<Rightarrow> native_websocket_send D a b s
      | CallClose a b d \<Rightarrow> native_websocket_close D a b d s
      | CallTimeout i d \<Rightarrow> native_schedule_timeout i d s
      | CallInterval i d \<Rightarrow> native_schedule_interval i d s
      | CallWritable i st \<Rightarrow> native_schedule_writable i st s
      | CallClearTimer i \<Rightarrow> native_clear_timer i s
      | CallObjectSend a b \<Rightarrow> native_object_socket_send enc a b s
      | CallObjectAccept a v w \<Rightarrow> native_object_socket_accept C enc a v w s
      | CallObjectClose a v w \<Rightarrow> native_object_socket_close C enc a v w s
      | CallObjectAttachment a v \<Rightarrow> native_object_socket_attachment C enc a v s)"

text \<open>The answers that a message to the event loop asks for: of a promise, or of a read of a stream.\<close>

definition pair_id :: "scheduler_message \<Rightarrow> callback_id option" where
  "pair_id m =
     (case m of
        FetchStreaming i _ \<Rightarrow> Some i | BindingFetch i _ _ \<Rightarrow> Some i | BindingStorage i _ _ \<Rightarrow> Some i
      | BindingKv i _ _ \<Rightarrow> Some i | BindingDatabase i _ _ \<Rightarrow> Some i | BindingD1 i _ _ \<Rightarrow> Some i
      | BindingWorker i _ _ \<Rightarrow> Some i | BindingInvoke i _ \<Rightarrow> Some i | BindingDurableObject i _ _ _ \<Rightarrow> Some i
      | ObjectStorage i _ \<Rightarrow> Some i | WebSocketConnect i _ _ _ \<Rightarrow> Some i | _ \<Rightarrow> None)"

definition read_id :: "scheduler_message \<Rightarrow> callback_id option" where
  "read_id m = (case m of StreamRead i _ \<Rightarrow> Some i | _ \<Rightarrow> None)"

definition pair_ids :: "native_state \<Rightarrow> callback_id list" where
  "pair_ids s = List.map_filter pair_id (nv_sent s)"

definition read_ids :: "native_state \<Rightarrow> callback_id list" where
  "read_ids s = List.map_filter read_id (nv_sent s)"

definition is_chunk :: "callback_message \<Rightarrow> bool" where
  "is_chunk m = (case m of StreamChunkMsg _ _ \<Rightarrow> True | _ \<Rightarrow> False)"

datatype native_event = Calls native_call | Answers callback_message

text \<open>Every message is dispatched, whichever id it names and however often.  The second component records the ids
  for which a message made a call into the guest: the operations that settled.\<close>

definition native_step :: "native_env \<Rightarrow> native_event \<Rightarrow> native_state \<times> callback_id list \<Rightarrow> native_state \<times> callback_id list" where
  "native_step E ev q =
     (case ev of
        Calls c \<Rightarrow> (fst (native_call E c (fst q)), snd q)
      | Answers m \<Rightarrow>
          (let t = nv_tables (fst q); t' = dispatch (ne_code E) (ne_timer E) (ne_json E) m t in
           ((fst q)\<lparr>nv_tables := t'\<rparr>,
            case answer_of m of
              None \<Rightarrow> snd q
            | Some i \<Rightarrow> if tb_calls t' = tb_calls t then snd q else i # snd q)))"

section \<open>What a call does\<close>

text \<open>The three ways a call leaves the tables: as they were, with a pair and its message, or with a read and
  its message.\<close>

definition same_tables :: "tables \<Rightarrow> tables \<Rightarrow> bool" where
  "same_tables t u \<longleftrightarrow>
     (\<forall>i. hm_get (tb_fetch u) i = hm_get (tb_fetch t) i \<and> hm_get (tb_fetch_error u) i = hm_get (tb_fetch_error t) i \<and>
          hm_get (tb_stream u) i = hm_get (tb_stream t) i)"

definition quiet :: "native_state \<Rightarrow> native_state \<Rightarrow> bool" where
  "quiet s s' \<longleftrightarrow> same_tables (nv_tables s) (nv_tables s') \<and> tb_next_id (nv_tables s') = tb_next_id (nv_tables s) \<and>
     pair_ids s' = pair_ids s \<and> read_ids s' = read_ids s"

definition inline :: "native_state \<Rightarrow> native_state \<Rightarrow> bool" where
  "inline s s' \<longleftrightarrow>
     (\<forall>i. i \<noteq> tb_next_id (nv_tables s) \<longrightarrow>
        hm_get (tb_fetch (nv_tables s')) i = hm_get (tb_fetch (nv_tables s)) i \<and>
        hm_get (tb_fetch_error (nv_tables s')) i = hm_get (tb_fetch_error (nv_tables s)) i) \<and>
     hm_get (tb_fetch (nv_tables s')) (tb_next_id (nv_tables s)) = None \<and>
     hm_get (tb_fetch_error (nv_tables s')) (tb_next_id (nv_tables s)) = None \<and>
     (\<forall>i. hm_get (tb_stream (nv_tables s')) i = hm_get (tb_stream (nv_tables s)) i) \<and>
     tb_next_id (nv_tables s') = tb_next_id (nv_tables s) + 1 \<and> pair_ids s' = pair_ids s \<and> read_ids s' = read_ids s"

definition owes :: "native_state \<Rightarrow> native_state \<Rightarrow> bool" where
  "owes s s' \<longleftrightarrow>
     (\<exists>f g. nv_tables s' = fst (register_callbacks_with_error f g (nv_tables s))) \<and>
     pair_ids s' = pair_ids s @ [tb_next_id (nv_tables s)] \<and> read_ids s' = read_ids s"

definition owes_read :: "native_state \<Rightarrow> native_state \<Rightarrow> bool" where
  "owes_read s s' \<longleftrightarrow>
     (\<exists>f. nv_tables s' = fst (register_stream_read f (nv_tables s))) \<and>
     pair_ids s' = pair_ids s \<and> read_ids s' = read_ids s @ [tb_next_id (nv_tables s)]"

definition effect :: "native_state \<Rightarrow> native_state \<Rightarrow> bool" where
  "effect s s' \<longleftrightarrow> quiet s s' \<or> owes s s' \<or> owes_read s s' \<or> inline s s'"

lemma map_filter_snoc: "List.map_filter f (xs @ [x]) = List.map_filter f xs @ (case f x of None \<Rightarrow> [] | Some y \<Rightarrow> [y])"
  by (simp add: List.map_filter_def split: option.split)

lemma ids_of_send [simp]:
  "pair_ids (native_send m s) = pair_ids s @ (case pair_id m of None \<Rightarrow> [] | Some i \<Rightarrow> [i])"
  "read_ids (native_send m s) = read_ids s @ (case read_id m of None \<Rightarrow> [] | Some i \<Rightarrow> [i])"
  "nv_tables (native_send m s) = nv_tables s"
  by (simp_all add: native_send_def pair_ids_def read_ids_def map_filter_snoc)

lemma ids_of_update [simp]:
  "pair_ids (s\<lparr>nv_tables := t\<rparr>) = pair_ids s" "read_ids (s\<lparr>nv_tables := t\<rparr>) = read_ids s"
  "pair_ids (s\<lparr>nv_frames := n\<rparr>) = pair_ids s" "read_ids (s\<lparr>nv_frames := n\<rparr>) = read_ids s"
  "pair_ids (s\<lparr>nv_next_socket := w\<rparr>) = pair_ids s" "read_ids (s\<lparr>nv_next_socket := w\<rparr>) = read_ids s"
  "pair_ids (s\<lparr>nv_inline_calls := c\<rparr>) = pair_ids s" "read_ids (s\<lparr>nv_inline_calls := c\<rparr>) = read_ids s"
  by (simp_all add: pair_ids_def read_ids_def)

lemma pair_id_simps [simp]:
  "pair_id (FetchStreaming i p) = Some i" "pair_id (BindingFetch i n p) = Some i" "pair_id (BindingStorage i n p) = Some i"
  "pair_id (BindingKv i n p) = Some i" "pair_id (BindingDatabase i n p) = Some i" "pair_id (BindingD1 i n p) = Some i"
  "pair_id (BindingWorker i n p) = Some i" "pair_id (BindingInvoke i p) = Some i"
  "pair_id (BindingDurableObject i n m p) = Some i" "pair_id (ObjectStorage i op) = Some i"
  "pair_id (WebSocketConnect i ws n p) = Some i" "pair_id (StreamRead i st) = None" "pair_id (StreamCancel st) = None"
  "pair_id (ScheduleTimeout i d) = None" "pair_id (ScheduleInterval i d) = None" "pair_id (ScheduleWritable i st) = None"
  "pair_id (ClearTimer i) = None" "pair_id (ObjectSocket so w) = None" "pair_id (WebSocketPair ws) = None"
  "pair_id (WebSocketAccept ws) = None" "pair_id (WebSocketSend ws f) = None" "pair_id (WebSocketClose ws c r) = None"
  by (simp_all add: pair_id_def)

lemma read_id_simps [simp]:
  "read_id (StreamRead i st) = Some i" "pair_id m = Some i \<Longrightarrow> read_id m = None" "read_id (StreamCancel st) = None"
  "read_id (ScheduleTimeout i d) = None" "read_id (ScheduleInterval i d) = None" "read_id (ScheduleWritable i st) = None"
  "read_id (ClearTimer i) = None" "read_id (ObjectSocket so w) = None" "read_id (WebSocketPair ws) = None"
  "read_id (WebSocketAccept ws) = None" "read_id (WebSocketSend ws f) = None" "read_id (WebSocketClose ws c r) = None"
  by (auto simp: read_id_def pair_id_def split: scheduler_message.splits)

lemma quiet_refl [simp]: "quiet s s"
  by (simp add: quiet_def same_tables_def)

lemma quiet_simps [simp]:
  "quiet s (s'\<lparr>nv_frames := n\<rparr>) \<longleftrightarrow> quiet s s'" "quiet s (s'\<lparr>nv_next_socket := w\<rparr>) \<longleftrightarrow> quiet s s'"
  "pair_id m = None \<Longrightarrow> read_id m = None \<Longrightarrow> quiet s (native_send m s') \<longleftrightarrow> quiet s s'"
  "quiet s (s\<lparr>nv_tables := (nv_tables s)\<lparr>tb_ws_event := h\<rparr>\<rparr>)"
  by (simp_all add: quiet_def same_tables_def)

lemma register_id: "snd (register_callbacks_with_error f g t) = tb_next_id t"
  by (simp add: register_callbacks_with_error_def register_callback_def Let_def)

lemma quiet_effect: "quiet s s' \<Longrightarrow> effect s s'"
  by (simp add: effect_def)

lemma owe_answer_effect [simp]:
  assumes "\<And>i. pair_id (message i) = Some i"
  shows "effect s (fst (owe_answer a b message s))"
proof (cases "resolve_reject a b")
  case None
  then show ?thesis by (simp add: owe_answer_def throw_type_error_def quiet_effect)
next
  case (Some fg)
  obtain f g where fg: "fg = (f, g)" by fastforce
  have "owes s (fst (owe_answer a b message s))"
    using Some assms register_id [of f g "nv_tables s"]
    by (auto simp: fg owe_answer_def owes_def case_prod_beta)
  then show ?thesis by (simp add: effect_def)
qed

lemma settle_invoke_effect:
  "hm_get (tb_fetch (settle_invoke code json i r t)) j = (if j = i then None else hm_get (tb_fetch t) j)"
  "hm_get (tb_fetch_error (settle_invoke code json i r t)) j = (if j = i then None else hm_get (tb_fetch_error t) j)"
  "tb_stream (settle_invoke code json i r t) = tb_stream t" "tb_next_id (settle_invoke code json i r t) = tb_next_id t"
  by (auto simp: settle_invoke_def dispatch_binding_callbacks_def resolve_or_reject_def call_guest_def Let_def
      split: binding_result.split option.split guest.split)

lemma settle_inline_effect:
  "inline s (settle_inline code json (tb_next_id (nv_tables s)) r (s\<lparr>nv_tables := fst (register_callbacks_with_error f g (nv_tables s))\<rparr>))"
  by (simp add: inline_def settle_inline_def settle_invoke_effect register_callbacks_with_error_def register_callback_def Let_def)

lemma invoke_effect: "effect s (fst (native_binding_invoke D code json host a b c d e s))"
proof -
  have sent: "owes s (native_send (BindingInvoke (tb_next_id (nv_tables s)) p)
      (s\<lparr>nv_tables := fst (register_callbacks_with_error f g (nv_tables s))\<rparr>))" for p f g
    by (auto simp: owes_def)
  show ?thesis
    by (auto simp: effect_def native_binding_invoke_def throw_type_error_def case_prod_beta register_id sent
        settle_inline_effect Let_def split: option.split sum.split invoke_poll.split)
qed

lemma connect_effect: "effect s (fst (native_websocket_connect D p a b c d s))"
proof -
  have "effect s (fst (owe_answer c d m (s\<lparr>nv_next_socket := w\<rparr>)))" if "\<And>i. pair_id (m i) = Some i" for m w
    using owe_answer_effect [OF that, of "s\<lparr>nv_next_socket := w\<rparr>" c d]
    by (simp add: effect_def quiet_def owes_def owes_read_def inline_def)
  then show ?thesis
    by (auto simp: native_websocket_connect_def next_socket_id_def throw_type_error_def quiet_effect
        split: option.split sum.split)
qed

lemma object_storage_effect: "effect s (fst (native_object_storage C enc v a b s))"
proof -
  have "fst (case owe_answer a b m s of (s, Throws e) \<Rightarrow> (s, Throws e) | (s, Returns _) \<Rightarrow> (s, Returns w)) =
      fst (owe_answer a b m s)" for m w
    by (cases "owe_answer a b m s"; cases "snd (owe_answer a b m s)") auto
  then show ?thesis
    by (simp add: native_object_storage_def quiet_effect split: parsed.split)
qed

lemma stream_read_effect: "effect s (fst (native_stream_read i f s))"
  by (auto simp: effect_def native_stream_read_def owes_read_def register_stream_read_def Let_def)

lemmas native_defs =
  native_fetch_streaming_def native_binding_fetch_def native_binding_storage_def native_binding_kv_def
  native_binding_database_def native_binding_d1_def native_binding_durable_object_def
  native_stream_cancel_def native_websocket_pair_def native_websocket_accept_def native_websocket_send_def
  native_websocket_close_def native_schedule_timeout_def native_schedule_interval_def native_schedule_writable_def
  native_clear_timer_def native_object_socket_send_def native_object_socket_accept_def native_object_socket_close_def
  native_object_socket_attachment_def send_socket_op_def waiting_new_def next_socket_id_def throw_type_error_def

lemma native_call_effect: "effect s (fst (native_call E c s))"
  by (cases c)
     (simp_all add: native_call_def invoke_effect connect_effect object_storage_effect stream_read_effect native_defs
        quiet_effect Let_def split: option.split sum.split native_arg.split)

section \<open>What is owed\<close>

text \<open>The table of resolves, the table of rejects and the table of reads hold exactly what was asked for and has
  not settled yet, under ids that were given once.\<close>

definition holds_owed :: "(callback_id \<times> guest_fn) list \<Rightarrow> callback_id list \<Rightarrow> callback_id list \<Rightarrow> bool" where
  "holds_owed table asked answered \<longleftrightarrow> (\<forall>i. hm_get table i \<noteq> None \<longleftrightarrow> i \<in> set asked \<and> i \<notin> set answered)"

definition native_inv :: "native_state \<times> callback_id list \<Rightarrow> bool" where
  "native_inv q \<longleftrightarrow>
     (let t = nv_tables (fst q); pairs = pair_ids (fst q); reads = read_ids (fst q) in
      holds_owed (tb_fetch t) pairs (snd q) \<and> holds_owed (tb_fetch_error t) pairs (snd q) \<and>
      holds_owed (tb_stream t) reads (snd q) \<and> distinct (pairs @ reads) \<and> distinct (snd q) \<and>
      set (snd q) \<subseteq> set (pairs @ reads) \<and> (\<forall>i\<in>set (pairs @ reads). unat i < unat (tb_next_id t)))"

lemma native_inv_new: "native_inv (native_new w, [])"
  by (simp add: native_inv_def native_new_def holds_owed_def tables_new_def pair_ids_def read_ids_def List.map_filter_def)

lemma next_id_effect:
  "effect s s' \<Longrightarrow> unat (tb_next_id (nv_tables s)) + 1 < 2 ^ 64 \<Longrightarrow>
   unat (tb_next_id (nv_tables s')) \<le> unat (tb_next_id (nv_tables s)) + 1"
  by (auto simp: effect_def quiet_def owes_def owes_read_def inline_def register_callbacks_with_error_def
      register_callback_def register_stream_read_def unat_plus_one Let_def)

text \<open>An id that was not given yet is neither asked for nor answered nor in a table.\<close>

lemma native_inv_fresh:
  assumes "native_inv (s, answered)" "i = tb_next_id (nv_tables s)"
  shows "i \<notin> set (pair_ids s)" "i \<notin> set (read_ids s)" "i \<notin> set answered"
    "hm_get (tb_fetch (nv_tables s)) i = None" "hm_get (tb_fetch_error (nv_tables s)) i = None"
    "hm_get (tb_stream (nv_tables s)) i = None"
proof -
  show a: "i \<notin> set (pair_ids s)" "i \<notin> set (read_ids s)" using assms by (auto simp: native_inv_def Let_def)
  show "i \<notin> set answered" using assms a by (auto simp: native_inv_def Let_def)
  have "holds_owed (tb_fetch (nv_tables s)) (pair_ids s) answered" "holds_owed (tb_fetch_error (nv_tables s)) (pair_ids s) answered"
    "holds_owed (tb_stream (nv_tables s)) (read_ids s) answered"
    using assms(1) by (simp_all add: native_inv_def Let_def)
  then show "hm_get (tb_fetch (nv_tables s)) i = None" "hm_get (tb_fetch_error (nv_tables s)) i = None"
    "hm_get (tb_stream (nv_tables s)) i = None"
    using a unfolding holds_owed_def by blast+
qed

lemma effect_inv:
  assumes "effect s s'" "native_inv (s, answered)" "unat (tb_next_id (nv_tables s)) + 1 < 2 ^ 64"
  shows "native_inv (s', answered)"
  using assms(1) unfolding effect_def
proof (elim disjE)
  assume "quiet s s'"
  then show ?thesis using assms(2) by (simp add: native_inv_def holds_owed_def quiet_def same_tables_def Let_def)
next
  assume "owes s s'"
  then obtain f g where "nv_tables s' = fst (register_callbacks_with_error f g (nv_tables s))"
    "pair_ids s' = pair_ids s @ [tb_next_id (nv_tables s)]" "read_ids s' = read_ids s" by (auto simp: owes_def)
  then show ?thesis
    using assms(2) native_inv_fresh [OF assms(2) refl] unat_plus_one [OF assms(3)]
    by (auto simp: native_inv_def holds_owed_def register_callbacks_with_error_def register_callback_def Let_def less_Suc_eq)
next
  assume "owes_read s s'"
  then obtain f where "nv_tables s' = fst (register_stream_read f (nv_tables s))"
    "pair_ids s' = pair_ids s" "read_ids s' = read_ids s @ [tb_next_id (nv_tables s)]" by (auto simp: owes_read_def)
  then show ?thesis
    using assms(2) native_inv_fresh [OF assms(2) refl] unat_plus_one [OF assms(3)]
    by (auto simp: native_inv_def holds_owed_def register_stream_read_def Let_def less_Suc_eq)
next
  assume i: "inline s s'"
  let ?n = "tb_next_id (nv_tables s)"
  have "hm_get (tb_fetch (nv_tables s')) i = hm_get (tb_fetch (nv_tables s)) i"
    "hm_get (tb_fetch_error (nv_tables s')) i = hm_get (tb_fetch_error (nv_tables s)) i" for i
    using i native_inv_fresh(4,5) [OF assms(2), of ?n] by (cases "i = ?n"; simp add: inline_def)+
  then show ?thesis using assms(2) i unat_plus_one [OF assms(3)]
    by (auto simp: native_inv_def holds_owed_def inline_def Let_def less_Suc_eq)
qed

lemma dispatch_answers:
  assumes "answer_of m = Some i"
  shows "hm_get (tb_fetch (dispatch code ex json m t)) j = (if j = i \<and> \<not> is_chunk m then None else hm_get (tb_fetch t) j)"
    "hm_get (tb_fetch_error (dispatch code ex json m t)) j = (if j = i \<and> \<not> is_chunk m then None else hm_get (tb_fetch_error t) j)"
    "hm_get (tb_stream (dispatch code ex json m t)) j = (if j = i \<and> is_chunk m then None else hm_get (tb_stream t) j)"
    "tb_next_id (dispatch code ex json m t) = tb_next_id t"
  using assms
  by (cases m; auto simp: answer_of_def is_chunk_def dispatch_defs
      split: option.split binding_result.split d1_result.split object_storage_result.split guest.split)+

lemma dispatch_no_answer:
  assumes "answer_of m = None"
  shows "tb_fetch (dispatch code ex json m t) = tb_fetch t" "tb_fetch_error (dispatch code ex json m t) = tb_fetch_error t"
    "tb_stream (dispatch code ex json m t) = tb_stream t" "tb_next_id (dispatch code ex json m t) = tb_next_id t"
  using assms by (cases m; auto simp: answer_of_def dispatch_defs split: option.split ws_incoming.split)+

text \<open>An answer of its kind to what is owed calls into the guest.\<close>

lemma owed_dispatch:
  assumes "answer_of m = Some i"
  shows "\<not> is_chunk m \<Longrightarrow> hm_get (tb_fetch t) i \<noteq> None \<Longrightarrow> hm_get (tb_fetch_error t) i \<noteq> None \<Longrightarrow>
      tb_calls (dispatch code ex json m t) \<noteq> tb_calls t"
    "is_chunk m \<Longrightarrow> hm_get (tb_stream t) i \<noteq> None \<Longrightarrow> tb_calls (dispatch code ex json m t) \<noteq> tb_calls t"
  using assms
  by (cases m; auto simp: answer_of_def is_chunk_def dispatch_defs
      split: option.split binding_result.split d1_result.split object_storage_result.split guest.split)+

lemma not_owed_dispatch:
  assumes "answer_of m = Some i"
  shows "\<not> is_chunk m \<Longrightarrow> hm_get (tb_fetch t) i = None \<Longrightarrow> hm_get (tb_fetch_error t) i = None \<Longrightarrow>
      tb_calls (dispatch code ex json m t) = tb_calls t"
    "is_chunk m \<Longrightarrow> hm_get (tb_stream t) i = None \<Longrightarrow> tb_calls (dispatch code ex json m t) = tb_calls t"
  using assms
  by (cases m; auto simp: answer_of_def is_chunk_def dispatch_defs
      split: option.split binding_result.split d1_result.split object_storage_result.split)+

text \<open>A message makes a call if and only if it answers, in its kind, an operation that is owed.\<close>

lemma dispatch_calls_iff:
  assumes "native_inv (s, settled)" "answer_of m = Some i"
  shows "tb_calls (dispatch code ex json m (nv_tables s)) \<noteq> tb_calls (nv_tables s) \<longleftrightarrow>
    i \<in> set (if is_chunk m then read_ids s else pair_ids s) \<and> i \<notin> set settled"
proof -
  let ?t = "nv_tables s"
  have "hm_get (tb_fetch ?t) i \<noteq> None \<longleftrightarrow> i \<in> set (pair_ids s) \<and> i \<notin> set settled"
    "hm_get (tb_fetch_error ?t) i \<noteq> None \<longleftrightarrow> i \<in> set (pair_ids s) \<and> i \<notin> set settled"
    "hm_get (tb_stream ?t) i \<noteq> None \<longleftrightarrow> i \<in> set (read_ids s) \<and> i \<notin> set settled"
    using assms(1) by (simp_all add: native_inv_def holds_owed_def Let_def)
  then show ?thesis
    using owed_dispatch [OF assms(2), of ?t code ex json] not_owed_dispatch [OF assms(2), of ?t code ex json]
    by (cases "is_chunk m") auto
qed

lemma native_step_inv:
  assumes "native_inv q" "unat (tb_next_id (nv_tables (fst q))) + 1 < 2 ^ 64"
  shows "native_inv (native_step E ev q) \<and>
    unat (tb_next_id (nv_tables (fst (native_step E ev q)))) \<le> unat (tb_next_id (nv_tables (fst q))) + 1"
proof (cases ev)
  case (Calls c)
  then show ?thesis
    using effect_inv [OF native_call_effect, of "fst q" "snd q"] next_id_effect [OF native_call_effect, of "fst q"] assms
    by (simp add: native_step_def)
next
  case (Answers m)
  obtain s settled where q: "q = (s, settled)" by fastforce
  let ?t = "nv_tables s"
  let ?t' = "dispatch (ne_code E) (ne_timer E) (ne_json E) m ?t"
  show ?thesis
  proof (cases "answer_of m")
    case None
    then show ?thesis using Answers assms q dispatch_no_answer [OF None]
      by (simp add: native_step_def native_inv_def holds_owed_def Let_def)
  next
    case (Some i)
    note calls = dispatch_calls_iff [OF assms(1) [unfolded q] Some, of "ne_code E" "ne_timer E" "ne_json E"]
    have disjoint: "i \<in> set (pair_ids s) \<Longrightarrow> i \<notin> set (read_ids s)"
      using assms(1) q by (auto simp: native_inv_def Let_def)
    show ?thesis using Answers q Some assms calls disjoint dispatch_answers [OF Some, of "ne_code E" "ne_timer E" "ne_json E" ?t]
      by (cases "is_chunk m") (auto simp: native_step_def native_inv_def holds_owed_def Let_def)
  qed
qed

lemma native_run_inv:
  "native_inv q \<Longrightarrow> unat (tb_next_id (nv_tables (fst q))) + length evs < 2 ^ 64 \<Longrightarrow> native_inv (fold (native_step E) evs q)"
proof (induction evs arbitrary: q)
  case (Cons ev evs)
  then show ?case using native_step_inv [OF Cons.prems(1), of E ev] by simp
qed simp

section \<open>Settled, owed or thrown\<close>

text \<open>The calls that answer a promise, with its functions.\<close>

definition promise_call :: "native_call \<Rightarrow> (native_arg \<times> native_arg) option" where
  "promise_call c =
     (case c of
        CallFetch _ f g \<Rightarrow> Some (f, g) | CallBindingFetch _ _ f g \<Rightarrow> Some (f, g) | CallBindingWorker _ _ f g \<Rightarrow> Some (f, g)
      | CallStorage _ _ _ f g \<Rightarrow> Some (f, g) | CallKv _ _ _ f g \<Rightarrow> Some (f, g) | CallDatabase _ _ _ f g \<Rightarrow> Some (f, g)
      | CallD1 _ _ f g \<Rightarrow> Some (f, g) | CallDurableObject _ _ _ f g \<Rightarrow> Some (f, g) | CallInvoke _ _ _ _ f g \<Rightarrow> Some (f, g)
      | CallConnect _ _ f g \<Rightarrow> Some (f, g) | CallObjectStorage _ f g \<Rightarrow> Some (f, g) | _ \<Rightarrow> None)"

text \<open>A call that threw left nothing; one that returned owes an answer, or called one of its functions.\<close>

definition fate :: "guest_code \<Rightarrow> guest_fn \<Rightarrow> guest_fn \<Rightarrow> native_state \<Rightarrow> native_state \<times> native_result \<Rightarrow> bool" where
  "fate code f g s r \<longleftrightarrow>
     (case snd r of
        Throws _ \<Rightarrow> quiet s (fst r) \<and> nv_sent (fst r) = nv_sent s \<and> tb_calls (nv_tables (fst r)) = tb_calls (nv_tables s)
      | Returns _ \<Rightarrow>
          (owes s (fst r) \<and> tb_calls (nv_tables (fst r)) = tb_calls (nv_tables s) \<and>
           hm_get (tb_fetch (nv_tables (fst r))) (tb_next_id (nv_tables s)) = Some f \<and>
           hm_get (tb_fetch_error (nv_tables (fst r))) (tb_next_id (nv_tables s)) = Some g) \<or>
          (inline s (fst r) \<and>
           (\<exists>calls. tb_calls (nv_tables (fst r)) = tb_calls (nv_tables s) @ calls \<and> settles code f g calls)))"

lemma fate_throw [simp]: "fate code f g s (s, Throws e)"
  by (simp add: fate_def)

lemma fate_send:
  assumes "pair_id m = Some (tb_next_id (nv_tables s))"
  shows "fate code f g s
    (native_send m (s\<lparr>nv_tables := fst (register_callbacks_with_error f g (nv_tables s))\<rparr>), Returns v)"
  using assms
  by (auto simp: fate_def owes_def register_callbacks_with_error_def register_callback_def Let_def)

lemma fate_owe_answer [simp]:
  assumes "\<And>i. pair_id (message i) = Some i"
  shows "fate code f g s (owe_answer (ArgFn f) (ArgFn g) message s)"
  using fate_send [OF assms] register_id [of f g "nv_tables s"]
  by (simp add: owe_answer_def resolve_reject_def case_prod_beta)

lemma fate_inline:
  "fate code f g s
     (settle_inline code json (tb_next_id (nv_tables s)) r (s\<lparr>nv_tables := fst (register_callbacks_with_error f g (nv_tables s))\<rparr>),
      Returns v)"
proof -
  let ?t = "fst (register_callbacks_with_error f g (nv_tables s))"
  have t: "hm_get (tb_fetch ?t) (tb_next_id (nv_tables s)) = Some f" "hm_get (tb_fetch_error ?t) (tb_next_id (nv_tables s)) = Some g"
    "tb_calls ?t = tb_calls (nv_tables s)"
    by (simp_all add: register_callbacks_with_error_def register_callback_def Let_def)
  have "\<exists>calls. tb_calls (settle_invoke code json (tb_next_id (nv_tables s)) r ?t) = tb_calls (nv_tables s) @ calls \<and>
      settles code f g calls"
    using binding_settles [OF t(1,2), of _ _ code] t(3) by (auto simp: settle_invoke_def split: binding_result.split)
  then show ?thesis using settle_inline_effect [of s code json r f g] by (simp add: fate_def settle_inline_def)
qed

lemma fate_invoke: "nv_installed s \<Longrightarrow> fate code f g s (native_binding_invoke D code json host a b c (ArgFn f) (ArgFn g) s)"
  by (auto simp: native_binding_invoke_def resolve_reject_def throw_type_error_def case_prod_beta register_id fate_send
      fate_inline Let_def split: option.split sum.split invoke_poll.split)

lemma fate_connect:
  assumes "nv_installed s"
  shows "fate code f g s (native_websocket_connect D p a b (ArgFn f) (ArgFn g) s)"
proof -
  have "fate code f g (s\<lparr>nv_next_socket := w\<rparr>) r \<Longrightarrow> fate code f g s r" for w r
    by (cases "snd r") (simp_all add: fate_def quiet_def owes_def inline_def)
  then have "fate code f g s (s\<lparr>nv_next_socket := w\<rparr>, Throws e)"
    "\<forall>i. pair_id (m i) = Some i \<Longrightarrow> fate code f g s (owe_answer (ArgFn f) (ArgFn g) m (s\<lparr>nv_next_socket := w\<rparr>))" for w e m
    using fate_throw fate_owe_answer by blast+
  then show ?thesis
    using assms by (simp add: native_websocket_connect_def next_socket_id_def throw_type_error_def split: option.split sum.split)
qed

lemma fate_object_storage:
  assumes "nv_installed s" "parse_storage_op C v \<noteq> ParseSilent"
  shows "fate code f g s (native_object_storage C enc v (ArgFn f) (ArgFn g) s)"
proof (cases "parse_storage_op C v")
  case (Parsed p)
  then have "native_object_storage C enc v (ArgFn f) (ArgFn g) s =
      (fst (owe_answer (ArgFn f) (ArgFn g) (\<lambda>i. ObjectStorage i (queue_op enc p)) s), Returns (js_int (int (op_bytes p))))"
    using assms(1) by (simp add: native_object_storage_def owe_answer_def resolve_reject_def case_prod_beta)
  also have "\<dots> = (native_send (ObjectStorage (tb_next_id (nv_tables s)) (queue_op enc p))
      (s\<lparr>nv_tables := fst (register_callbacks_with_error f g (nv_tables s))\<rparr>), Returns (js_int (int (op_bytes p))))"
    by (simp add: owe_answer_def resolve_reject_def case_prod_beta register_id)
  finally show ?thesis by (simp add: fate_send)
qed (use assms in \<open>simp_all add: native_object_storage_def\<close>)

lemma native_call_fate:
  assumes "promise_call c = Some (ArgFn f, ArgFn g)" "nv_installed s"
    "\<And>v. c = CallObjectStorage v (ArgFn f) (ArgFn g) \<Longrightarrow> parse_storage_op (ne_conversions E) v \<noteq> ParseSilent"
  shows "fate (ne_code E) f g s (native_call E c s)"
  using assms
  by (cases c)
     (simp_all add: promise_call_def native_call_def fate_invoke fate_connect fate_object_storage native_defs Let_def
        split: option.split sum.split)

section \<open>Frames that wait\<close>

text \<open>Sends of an object and frames that left, in any order; the queue holds the bytes of each frame.\<close>

datatype frame_event = Sends native_arg native_arg | Leaves

definition frame_step :: "(socket_op \<Rightarrow> payload) \<Rightarrow> frame_event \<Rightarrow> native_state \<times> usize list \<Rightarrow> native_state \<times> usize list" where
  "frame_step enc ev q =
     (case ev of
        Sends a b \<Rightarrow>
          (let s = fst (native_object_socket_send enc a b (fst q)) in
           (s, if nv_sent s = nv_sent (fst q) then snd q
               else snd q @ (case outgoing b of None \<Rightarrow> [] | Some frame \<Rightarrow> [of_nat (frame_bytes frame)])))
      | Leaves \<Rightarrow> (case snd q of [] \<Rightarrow> q | n # ns \<Rightarrow> (waiting_drop n (fst q), ns)))"

definition frame_inv :: "nat \<Rightarrow> native_state \<times> usize list \<Rightarrow> bool" where
  "frame_inv L q \<longleftrightarrow>
     nv_frames (fst q) = sum_list (snd q) \<and> sum_list (map unat (snd q)) < unat MAX_WAITING_FRAMES + L"

lemma sum_list_unat:
  "sum_list (map unat ns) < 2 ^ 64 \<Longrightarrow> unat (sum_list ns) = sum_list (map unat ns)" for ns :: "usize list"
proof (induction ns)
  case (Cons n ns)
  then show ?case by (simp add: unat_word_ariths)
qed simp

lemma frame_step_inv:
  assumes "frame_inv L q" "L < 2 ^ 63" "\<And>a b frame. ev = Sends a b \<Longrightarrow> outgoing b = Some frame \<Longrightarrow> frame_bytes frame \<le> L" "0 < L"
  shows "frame_inv L (frame_step enc ev q)"
proof (cases ev)
  case (Sends a b)
  have m: "unat MAX_WAITING_FRAMES = 64 * 1024 * 1024" by (simp add: MAX_WAITING_FRAMES_def)
  have small: "sum_list (map unat (snd q)) < 2 ^ 64" using assms(1,2) by (simp add: frame_inv_def m)
  have n: "unat (nv_frames (fst q)) = sum_list (map unat (snd q))"
    using assms(1) sum_list_unat [OF small] by (simp add: frame_inv_def)
  have u: "unat (of_nat (frame_bytes frame) :: usize) \<le> L" if "outgoing b = Some frame" for frame
    using assms(3) [OF Sends that] by (simp add: unat_of_nat)
  have room: "unat (nv_frames (fst q)) < unat MAX_WAITING_FRAMES" if "\<not> MAX_WAITING_FRAMES \<le> nv_frames (fst q)"
    using that by (simp add: word_le_nat_alt)
  show ?thesis
  proof (cases "nv_sent (fst (native_object_socket_send enc a b (fst q))) = nv_sent (fst q)")
    case True
    then have "fst (native_object_socket_send enc a b (fst q)) = fst q"
      by (auto simp: native_object_socket_send_def throw_type_error_def native_send_def waiting_new_def Let_def
          split: option.splits if_splits)
    then show ?thesis using assms(1) Sends by (simp add: frame_step_def)
  next
    case False
    then obtain frame where o: "outgoing b = Some frame" "\<not> MAX_WAITING_FRAMES \<le> nv_frames (fst q)"
      "nv_frames (fst (native_object_socket_send enc a b (fst q))) = nv_frames (fst q) + of_nat (frame_bytes frame)"
      by (auto simp: native_object_socket_send_def throw_type_error_def native_send_def waiting_new_def Let_def
          split: option.splits if_splits)
    then show ?thesis using assms(1) Sends False u [OF o(1)] room [OF o(2)] n
      by (simp add: frame_step_def frame_inv_def Let_def)
  qed
next
  case Leaves
  then show ?thesis using assms(1)
    by (auto simp: frame_step_def frame_inv_def waiting_drop_def split: list.split)
qed

section \<open>Properties\<close>

text \<open>C4: Every promise of a native call is owed until it settles, and settles at most once.  Over any run of calls of
  the native functions, good or bad, and of messages, which may name any id and come any number of times, the
  resolves, the rejects and the readers that are registered are exactly those whose operation was sent to the
  event loop and has not settled; no two operations share an id, and none settles twice.  And the next message calls
  into the guest if and only if it answers, in its kind, an operation that is owed: a second answer and an answer
  to an id that was never given call nothing.\<close>

theorem promises_are_owed:
  assumes "fold (native_step E) evs (native_new w, []) = (s, settled)" "length evs < 2 ^ 64 - 1"
  shows "holds_owed (tb_fetch (nv_tables s)) (pair_ids s) settled \<and>
    holds_owed (tb_fetch_error (nv_tables s)) (pair_ids s) settled \<and>
    holds_owed (tb_stream (nv_tables s)) (read_ids s) settled \<and>
    distinct (pair_ids s @ read_ids s) \<and> distinct settled \<and>
    (\<forall>m i. answer_of m = Some i \<longrightarrow>
      (tb_calls (dispatch (ne_code E) (ne_timer E) (ne_json E) m (nv_tables s)) \<noteq> tb_calls (nv_tables s) \<longleftrightarrow>
       i \<in> set (if is_chunk m then read_ids s else pair_ids s) \<and> i \<notin> set settled))"
proof -
  have inv: "native_inv (s, settled)"
    using native_run_inv [OF native_inv_new [of w], of evs E] assms by (simp add: native_new_def tables_new_def)
  with dispatch_calls_iff [OF inv] show ?thesis by (simp add: native_inv_def Let_def)
qed

definition env_example :: native_env where
  "env_example =
     \<lparr>ne_serde =
        \<lparr>sd_string = (\<lambda>a. case a of ArgJs (JString s) \<Rightarrow> Some s | _ \<Rightarrow> None), sd_fetch_options = (\<lambda>_. Inl ''no''),
         sd_method = (\<lambda>m. Some m), sd_storage = (\<lambda>_. Inl ''no''), sd_kv = (\<lambda>_. Inl ''no''),
         sd_database = (\<lambda>_. Inr \<lparr>dp_sql = ''select 1'', dp_params = 0\<rparr>), sd_d1 = (\<lambda>_. Inr 5), sd_json = (\<lambda>_. Inr 6),
         sd_headers = (\<lambda>_. Inr 0), sd_to_string = (\<lambda>_. None), en_http = (\<lambda>_. 0), en_storage = (\<lambda>_. 0), en_kv = (\<lambda>_. 0),
         en_database = (\<lambda>_. 7), en_invoke = (\<lambda>_ _ p. p), en_frame = (\<lambda>_. 0)\<rparr>,
      ne_conversions =
        \<lparr>cv_to_string = (\<lambda>v. case v of JString s \<Rightarrow> Some s | _ \<Rightarrow> None), cv_to_number = (\<lambda>_. None),
         cv_clone = (\<lambda>_. Some [1]), cv_unclone = (\<lambda>_. None)\<rparr>,
      ne_storage_payload = (\<lambda>_. 0), ne_socket_payload = (\<lambda>_. 0), ne_no_headers = 0, ne_code = (\<lambda>_ _. Returned),
      ne_json = True, ne_timer = None\<rparr>"

text \<open>A D1 query, an invoke that is settled inline, an invoke that waits, the answer of the query twice, and an answer to an id
  that was not given yet.\<close>

definition events_example :: "native_event list" where
  "events_example =
     [Calls (CallD1 (ArgJs (JString ''db'')) (ArgJs JNull) (ArgFn 10) (ArgFn 11)),
      Calls (CallInvoke (\<lambda>_. InvokeReady (OrInvoke (BindingValue 0))) (ArgJs (JString ''b'')) (ArgJs (JString ''c'')) (ArgJs JNull)
        (ArgFn 20) (ArgFn 21)),
      Calls (CallInvoke (\<lambda>_. InvokePending) (ArgJs (JString ''b'')) (ArgJs (JString ''c'')) (ArgJs JNull) (ArgFn 30) (ArgFn 31)),
      Answers (D1ResultMsg 1 (D1Value 0)), Answers (D1ResultMsg 1 (D1Value 0)), Answers (KvResult 4 (BindingValue 0))]"

theorem promises_are_owed_witness:
  "pair_ids (fst (fold (native_step env_example) events_example (native_new 1, []))) = [1, 3] \<and>
   snd (fold (native_step env_example) events_example (native_new 1, [])) = [1] \<and>
   tb_calls (nv_tables (fst (fold (native_step env_example) events_example (native_new 1, [])))) = [(20, ArgValue), (10, ArgValue)] \<and>
   holds_owed (tb_fetch (nv_tables (fst (fold (native_step env_example) events_example (native_new 1, []))))) [1, 3] [1]"
proof -
  let ?q = "fold (native_step env_example) events_example (native_new 1, [])"
  have p: "pair_ids (fst ?q) = [1, 3]" "snd ?q = [1]" "tb_calls (nv_tables (fst ?q)) = [(20, ArgValue), (10, ArgValue)]" by code_simp+
  have "length events_example < 2 ^ 64 - 1" by (simp add: events_example_def)
  with promises_are_owed [of env_example events_example 1 "fst ?q" "snd ?q"]
  have "holds_owed (tb_fetch (nv_tables (fst ?q))) (pair_ids (fst ?q)) (snd ?q)" by (metis prod.collapse)
  then show ?thesis using p by simp
qed

text \<open>C18: A call that answers a promise throws, owes or settles.  If it throws, nothing was sent and nothing
  is registered; if it returns, either its functions are registered under an id whose operation was sent,
  or one of them was called already and nothing is registered.  The one exception is a write to the
  storage of an object with a malformed entry.\<close>

theorem native_call_settles:
  assumes "promise_call c = Some (ArgFn f, ArgFn g)" "nv_installed s"
    "\<forall>v. c = CallObjectStorage v (ArgFn f) (ArgFn g) \<longrightarrow> parse_storage_op (ne_conversions E) v \<noteq> ParseSilent"
  shows "fate (ne_code E) f g s (native_call E c s)"
  using native_call_fate assms by blast

theorem native_call_settles_witness:
  "\<exists>c. snd (native_call env_example c (native_new 1)) = Returns JUndefined \<and> nv_sent (fst (native_call env_example c (native_new 1))) = [] \<and>
    fate (ne_code env_example) 20 21 (native_new 1) (native_call env_example c (native_new 1))"
proof -
  let ?c = "CallInvoke (\<lambda>_. InvokePanics) (ArgJs (JString ''b'')) (ArgJs (JString ''c'')) (ArgJs JNull) (ArgFn 20) (ArgFn 21)"
  have "promise_call ?c = Some (ArgFn 20, ArgFn 21)" "nv_installed (native_new 1)" by code_simp+
  then have "fate (ne_code env_example) 20 21 (native_new 1) (native_call env_example ?c (native_new 1))"
    by (intro native_call_settles) simp_all
  moreover have "snd (native_call env_example ?c (native_new 1)) = Returns JUndefined"
    "nv_sent (fst (native_call env_example ?c (native_new 1))) = []" by code_simp+
  ultimately show ?thesis by blast
qed

text \<open>A write to the storage of an object whose entries are not all arrays never settles its
  promise, although the parser's callers take its failure for an exception: the call returns, nothing is
  sent and nothing is registered.\<close>

lemma malformed_write_never_settles:
  assumes "op = JObject [(''kind'', JString ''write''), (''puts'', JArray (map (\<lambda>(k, v). JArray [JString k, v]) good @ bad # rest))]"
    "\<And>k v. (k, v) \<in> set good \<Longrightarrow> cv_clone C v \<noteq> None" "\<And>xs. bad \<noteq> JArray xs" "cv_to_string C (JString ''write'') = Some ''write''"
  shows "native_object_storage C enc op resolve reject s = (s, Returns JUndefined)"
proof -
  have "parse_puts C (map (\<lambda>(k, v). JArray [JString k, v]) good @ bad # rest) = ParseSilent"
    using assms(2)
  proof (induction good)
    case Nil
    then show ?case using assms(3) by (simp split: js_value.split)
  next
    case (Cons kv good)
    then show ?case by (cases kv) (fastforce split: option.split)
  qed
  then have "parse_storage_op C op = ParseSilent"
    using assms(1,4)
    by (simp add: parse_storage_op_def string_field_def js_field_def js_get_def lossy_string_def is_nullish_def)
  then show ?thesis by (simp add: native_object_storage_def)
qed

text \<open>The frames of an object that wait to go out are bounded.  Over any run of sends and of frames
  that leave, with frames of at most \<open>L\<close> bytes, the counter is the sum of the frames that wait, it does
  not wrap, and it stays below 64 MiB and one frame.\<close>

lemma waiting_frames_bounded:
  assumes "\<forall>a b frame. Sends a b \<in> set evs \<longrightarrow> outgoing b = Some frame \<longrightarrow> frame_bytes frame \<le> L" "0 < L" "L < 2 ^ 63"
    "fold (frame_step enc) evs (native_new w, []) = (s, waiting)"
  shows "unat (nv_frames s) = sum_list (map unat waiting) \<and> unat (nv_frames s) < 64 * 1024 * 1024 + L"
proof -
  have "frame_inv L q \<Longrightarrow> frame_inv L (fold (frame_step enc) evs q)" for q
    using assms(1)
  proof (induction evs arbitrary: q)
    case (Cons ev evs)
    then show ?case using frame_step_inv [OF Cons.prems(1) assms(3) _ assms(2), of ev enc] by simp
  qed simp
  then have i: "frame_inv L (s, waiting)"
    using assms(2,4) by (metis (no_types, lifting) add_pos_pos frame_inv_def fst_conv snd_conv list.map(1) native_new_def
        native_state.select_convs(5) sum_list.Nil trans_less_add2)
  then show ?thesis using assms(3) sum_list_unat [of waiting] by (simp add: frame_inv_def MAX_WAITING_FRAMES_def)
qed

end
