(* ===== verification/Stream_Body.thy ===== *)
theory Stream_Body
  imports Event_Readers
begin

text \<open>
  How the body of a guest's response is written to its stream, from \<open>src/src/js/stream_body.js\<close> and the
  operations of \<open>src/src/runtime/bindings/streams.rs\<close> it calls, joined with the pump of \<open>Event_Readers\<close>: the
  chunks of the guest's source reach the client, through the script, the stream, the pump and the client's
  channel.  The source and the client move on their own.
\<close>

section \<open>Operations on a response stream\<close>

definition response_stream_create :: "stream_manager \<Rightarrow> stream_manager \<times> stream_id" where
  "response_stream_create sm = create_stream ''response'' sm"

definition response_stream_write :: "stream_id \<Rightarrow> bytes \<Rightarrow> stream_manager \<Rightarrow> stream_manager \<times> bool" where
  "response_stream_write i chunk sm =
     (case try_write_chunk i (Data chunk) sm of (sm, Ok _) \<Rightarrow> (sm, True) | (sm, Err _) \<Rightarrow> (sm, False))"

definition response_stream_end :: "stream_id \<Rightarrow> stream_manager \<Rightarrow> stream_manager" where
  "response_stream_end i sm = fst (try_write_chunk i Done sm)"

definition response_stream_error :: "stream_id \<Rightarrow> string \<Rightarrow> stream_manager \<Rightarrow> stream_manager" where
  "response_stream_error i message sm = fst (try_write_chunk i (Error message) sm)"

definition response_stream_is_closed :: "stream_id \<Rightarrow> stream_manager \<Rightarrow> bool" where
  "response_stream_is_closed i sm \<longleftrightarrow> \<not> has_sender i sm"

section \<open>Chunks\<close>

text \<open>What a source yields: a \<open>Uint8Array\<close>, another view with its \<open>length\<close> if it has one, a string, a value
  that is falsy, with what \<open>String\<close> answers, or anything else, with its \<open>length\<close> if that is a number and what
  \<open>String\<close> answers or throws.\<close>

datatype chunk_value =
    ChU8 bytes
  | ChView "nat option" bytes
  | ChString string
  | ChFalsy string
  | ChOther "nat option" "(string, string) result"

definition chunk_skipped :: "chunk_value \<Rightarrow> bool" where
  "chunk_skipped v \<longleftrightarrow>
     (case v of
        ChU8 b \<Rightarrow> b = []
      | ChView n _ \<Rightarrow> n = Some 0
      | ChString s \<Rightarrow> s = []
      | ChFalsy _ \<Rightarrow> True
      | ChOther n _ \<Rightarrow> n = Some 0)"

definition NOT_A_CHUNK :: string where
  "NOT_A_CHUNK = ''a response body chunk must be a Uint8Array''"

definition to_bytes :: "bool \<Rightarrow> (string \<Rightarrow> bytes) \<Rightarrow> chunk_value \<Rightarrow> (string, bytes) result" where
  "to_bytes strict encode v =
     (case v of
        ChU8 b \<Rightarrow> Ok b
      | _ \<Rightarrow>
          if strict then Err NOT_A_CHUNK
          else case v of
            ChString s \<Rightarrow> Ok (encode s)
          | ChView _ b \<Rightarrow> Ok b
          | ChOther _ (Inr s) \<Rightarrow> Ok (encode s)
          | ChOther _ (Inl e) \<Rightarrow> Err e
          | ChFalsy s \<Rightarrow> Ok (encode s))"

section \<open>The pump of the script\<close>

text \<open>Where the asynchronous function waits: in a read, for room with a chunk in hand, in the cancel of the
  reader, or nowhere.\<close>

datatype script_phase = Reading | Writing bytes | Cancelling | Finished

text \<open>\<open>sp_ends\<close> counts the calls of \<open>ended\<close>, \<open>sp_waits\<close> the waits for room, \<open>sp_error\<close> is the failure that was
  put on the channel; \<open>sp_taken\<close> and \<open>sp_written\<close> are what the source gave and what the stream accepted.\<close>

record script_pump =
  sp_stream :: stream_id
  sp_phase :: script_phase
  sp_ends :: nat
  sp_waits :: nat
  sp_error :: "string option"
  sp_taken :: "chunk_value list"
  sp_written :: "stream_chunk list"

definition script_terminal :: "stream_chunk \<Rightarrow> script_pump \<times> stream_manager \<Rightarrow> script_pump \<times> stream_manager" where
  "script_terminal chunk q =
     (case try_write_chunk (sp_stream (fst q)) chunk (snd q) of
        (sm, Ok _) \<Rightarrow> ((fst q)\<lparr>sp_written := sp_written (fst q) @ [chunk]\<rparr>, sm)
      | (sm, Err _) \<Rightarrow> (fst q, sm))"

text \<open>The end of the function: the stream ends unless it failed, and \<open>ended\<close> is called.\<close>

definition script_finish :: "script_pump \<times> stream_manager \<Rightarrow> script_pump \<times> stream_manager" where
  "script_finish q =
     (let q = (if sp_error (fst q) = None then script_terminal Done q else q)
      in ((fst q)\<lparr>sp_phase := Finished, sp_ends := Suc (sp_ends (fst q))\<rparr>, snd q))"

definition script_fail :: "string \<Rightarrow> script_pump \<times> stream_manager \<Rightarrow> script_pump \<times> stream_manager" where
  "script_fail message q =
     script_finish (let q = script_terminal (Error message) q in ((fst q)\<lparr>sp_error := Some message\<rparr>, snd q))"

definition script_write :: "bytes \<Rightarrow> script_pump \<times> stream_manager \<Rightarrow> script_pump \<times> stream_manager" where
  "script_write chunk q =
     (let (sm, written) = response_stream_write (sp_stream (fst q)) chunk (snd q); sp = fst q in
      if written then (sp\<lparr>sp_phase := Reading, sp_written := sp_written sp @ [Data chunk]\<rparr>, sm)
      else if response_stream_is_closed (sp_stream sp) sm then (sp\<lparr>sp_phase := Cancelling\<rparr>, sm)
      else (sp\<lparr>sp_phase := Writing chunk, sp_waits := Suc (sp_waits sp)\<rparr>, sm))"

text \<open>While it waits, the script holds a view of the guest's buffer, so a guest that writes to the buffer changes the chunk that the next
  try sends: \<open>sp_taken\<close> then has the chunk as it is now.  The bytes of a string are the script's own.\<close>

definition live_chunk :: "chunk_value \<Rightarrow> bytes \<Rightarrow> chunk_value option" where
  "live_chunk v b = (case v of ChU8 _ \<Rightarrow> Some (ChU8 b) | ChView n _ \<Rightarrow> Some (ChView n b) | _ \<Rightarrow> None)"

definition chunk_changes :: "bytes \<Rightarrow> bytes \<Rightarrow> script_pump \<Rightarrow> script_pump" where
  "chunk_changes chunk b sp =
     (case live_chunk (last (sp_taken sp)) b of
        Some v \<Rightarrow>
          if length b = length chunk then sp\<lparr>sp_phase := Writing b, sp_taken := butlast (sp_taken sp) @ [v]\<rparr> else sp
      | None \<Rightarrow> sp)"

datatype script_event = ReadGives chunk_value | ReadDone | ReadFails string | RoomFires | ChunkChanges bytes | CancelSettles

definition script_step ::
    "bool \<Rightarrow> (string \<Rightarrow> bytes) \<Rightarrow> script_event \<Rightarrow> script_pump \<times> stream_manager \<Rightarrow> script_pump \<times> stream_manager" where
  "script_step strict encode ev q =
     (case (sp_phase (fst q), ev) of
        (Reading, ReadGives v) \<Rightarrow>
          (let q = ((fst q)\<lparr>sp_taken := sp_taken (fst q) @ [v]\<rparr>, snd q) in
           if chunk_skipped v then q
           else case to_bytes strict encode v of
             Inl message \<Rightarrow> script_fail message q
           | Inr chunk \<Rightarrow> script_write chunk q)
      | (Reading, ReadDone) \<Rightarrow> script_finish q
      | (Reading, ReadFails message) \<Rightarrow> script_fail message q
      | (Writing chunk, RoomFires) \<Rightarrow> script_write chunk q
      | (Writing chunk, ChunkChanges b) \<Rightarrow> (chunk_changes chunk b (fst q), snd q)
      | (Cancelling, CancelSettles) \<Rightarrow> script_finish q
      | _ \<Rightarrow> q)"

text \<open>The bodies a response can have; \<open>getReader\<close> of a streamed one may throw.\<close>

datatype body_kind = NoBody | NativeBody stream_id | BufferedBody | StreamedBody "(string, unit) result"

definition script_pump_new :: "stream_id \<Rightarrow> script_pump" where
  "script_pump_new i =
     \<lparr>sp_stream = i, sp_phase = Reading, sp_ends = 0, sp_waits = 0, sp_error = None, sp_taken = [], sp_written = []\<rparr>"

text \<open>The answer is the stream of the response, if it gets one; \<open>sp_stream\<close> is 0 where nothing is pumped.\<close>

definition stream_body :: "body_kind \<Rightarrow> stream_manager \<Rightarrow> (script_pump \<times> stream_manager) \<times> stream_id option" where
  "stream_body kind sm =
     (let nothing = ((script_pump_new 0)\<lparr>sp_phase := Finished, sp_ends := 1\<rparr>, sm) in
      case kind of
        NoBody \<Rightarrow> (nothing, None)
      | NativeBody i \<Rightarrow> (nothing, Some i)
      | BufferedBody \<Rightarrow> (nothing, None)
      | StreamedBody reader \<Rightarrow>
          (let (sm, i) = response_stream_create sm; q = (script_pump_new i, sm) in
           (case reader of Inl message \<Rightarrow> script_fail message q | Inr _ \<Rightarrow> q, Some i)))"

text \<open>\<open>disconnect\<close>: whether the signal is aborted, if there is one, and how often the body is cancelled.\<close>

record guest_body =
  gb_signal :: "bool option"
  gb_can_cancel :: bool
  gb_cancels :: nat

definition disconnect :: "guest_body option \<Rightarrow> guest_body option" where
  "disconnect body =
     map_option
       (\<lambda>b. let b = (case gb_signal b of Some False \<Rightarrow> b\<lparr>gb_signal := Some True\<rparr> | _ \<Rightarrow> b) in
            if gb_can_cancel b then b\<lparr>gb_cancels := Suc (gb_cancels b)\<rparr> else b)
       body"

section \<open>What a source means\<close>

text \<open>The bytes of the chunks, up to the first that cannot be turned into bytes.\<close>

fun source_bytes :: "bool \<Rightarrow> (string \<Rightarrow> bytes) \<Rightarrow> chunk_value list \<Rightarrow> bytes list" where
  "source_bytes strict encode [] = []"
| "source_bytes strict encode (v # vs) =
     (if chunk_skipped v then source_bytes strict encode vs
      else case to_bytes strict encode v of
        Inl _ \<Rightarrow> []
      | Inr b \<Rightarrow> b # source_bytes strict encode vs)"

definition convertible :: "bool \<Rightarrow> (string \<Rightarrow> bytes) \<Rightarrow> chunk_value \<Rightarrow> bool" where
  "convertible strict encode v \<longleftrightarrow> chunk_skipped v \<or> (\<exists>b. to_bytes strict encode v = Ok b)"

lemma source_bytes_append:
  "list_all (convertible strict encode) vs \<Longrightarrow>
   source_bytes strict encode (vs @ ws) = source_bytes strict encode vs @ source_bytes strict encode ws"
  by (induction vs) (auto simp: convertible_def split: sum.split)

definition script_end :: "script_pump \<Rightarrow> stream_chunk" where
  "script_end sp = (case sp_error sp of None \<Rightarrow> Done | Some e \<Rightarrow> Error e)"

text \<open>The chunk that waits for room is the last one the source gave.\<close>

definition in_hand :: "bool \<Rightarrow> (string \<Rightarrow> bytes) \<Rightarrow> bytes \<Rightarrow> script_pump \<Rightarrow> bool" where
  "in_hand strict encode chunk sp \<longleftrightarrow>
     sp_taken sp \<noteq> [] \<and> \<not> chunk_skipped (last (sp_taken sp)) \<and> to_bytes strict encode (last (sp_taken sp)) = Ok chunk"

text \<open>How far the script is: what is written is what was taken, but for the chunk in hand; at the end the body
  is complete with its terminal chunk, or it was cut because the stream is closed.\<close>

abbreviation script_data :: "bool \<Rightarrow> (string \<Rightarrow> bytes) \<Rightarrow> script_pump \<Rightarrow> stream_chunk list" where
  "script_data strict encode sp \<equiv> map Data (source_bytes strict encode (sp_taken sp))"

definition script_inv :: "bool \<Rightarrow> (string \<Rightarrow> bytes) \<Rightarrow> script_pump \<times> stream_manager \<Rightarrow> bool" where
  "script_inv strict encode q \<longleftrightarrow>
     (let sp = fst q; data = script_data strict encode sp in
      (sp_phase sp \<noteq> Finished \<longrightarrow> sp_ends sp = 0 \<and> sp_error sp = None \<and> list_all (convertible strict encode) (sp_taken sp)) \<and>
      (case sp_phase sp of
         Reading \<Rightarrow> sp_written sp = data
       | Writing chunk \<Rightarrow> sp_written sp @ [Data chunk] = data \<and> in_hand strict encode chunk sp
       | Cancelling \<Rightarrow> \<not> has_sender (sp_stream sp) (snd q) \<and> (\<exists>chunk. sp_written sp @ [Data chunk] = data)
       | Finished \<Rightarrow>
           sp_ends sp = 1 \<and> (sp_written sp = data @ [script_end sp] \<or> (\<exists>rest. data = sp_written sp @ rest))))"

lemma script_terminal_simps [simp]:
  "sp_stream (fst (script_terminal chunk q)) = sp_stream (fst q)" "sp_taken (fst (script_terminal chunk q)) = sp_taken (fst q)"
  "sp_ends (fst (script_terminal chunk q)) = sp_ends (fst q)" "sp_error (fst (script_terminal chunk q)) = sp_error (fst q)"
  "sp_phase (fst (script_terminal chunk q)) = sp_phase (fst q)"
  by (auto simp: script_terminal_def split: prod.split sum.split)

lemma script_terminal_written:
  "sp_written (fst (script_terminal chunk q)) = sp_written (fst q) @ [chunk] \<or> sp_written (fst (script_terminal chunk q)) = sp_written (fst q)"
  by (auto simp: script_terminal_def split: prod.split sum.split)

lemma script_terminal_gone:
  "\<not> has_sender (sp_stream (fst q)) (snd q) \<Longrightarrow> script_terminal chunk q = q"
  by (simp add: script_terminal_def has_sender_def try_write_chunk_def)

lemma script_finish_inv:
  assumes "sp_ends (fst q) = 0" "sp_error (fst q) = None"
    "sp_written (fst q) = script_data strict encode (fst q) \<or>
     \<not> has_sender (sp_stream (fst q)) (snd q) \<and> (\<exists>rest. script_data strict encode (fst q) = sp_written (fst q) @ rest)"
  shows "script_inv strict encode (script_finish q)"
  using assms script_terminal_written [of Done q] script_terminal_gone [of q Done]
  by (auto simp: script_finish_def script_inv_def script_end_def Let_def)

lemma script_fail_inv:
  assumes "sp_ends (fst q) = 0" "sp_written (fst q) = script_data strict encode (fst q)"
  shows "script_inv strict encode (script_fail message q)"
  using assms script_terminal_written [of "Error message" q]
  by (auto simp: script_fail_def script_finish_def script_inv_def script_end_def Let_def)

lemma script_write_inv:
  assumes "sp_ends (fst q) = 0" "sp_error (fst q) = None" "list_all (convertible strict encode) (sp_taken (fst q))"
    "sp_written (fst q) @ [Data chunk] = script_data strict encode (fst q)" "in_hand strict encode chunk (fst q)"
  shows "script_inv strict encode (script_write chunk q)"
  using assms by (auto simp: script_write_def script_inv_def in_hand_def response_stream_is_closed_def Let_def split: prod.split)

lemma live_chunk_bytes:
  assumes "live_chunk v b = Some v'" "to_bytes strict encode v = Ok chunk" "length b = length chunk" "\<not> chunk_skipped v"
  shows "to_bytes strict encode v' = Ok b" "\<not> chunk_skipped v'"
  using assms by (auto simp: live_chunk_def to_bytes_def chunk_skipped_def split: chunk_value.splits if_splits)

lemma chunk_changes_cases:
  assumes "in_hand strict encode chunk sp" "list_all (convertible strict encode) (sp_taken sp)"
    "sp_written sp @ [Data chunk] = script_data strict encode sp"
  obtains "chunk_changes chunk b sp = sp"
  | v where "chunk_changes chunk b sp = sp\<lparr>sp_phase := Writing b, sp_taken := butlast (sp_taken sp) @ [v]\<rparr>"
      "in_hand strict encode b (chunk_changes chunk b sp)" "list_all (convertible strict encode) (sp_taken (chunk_changes chunk b sp))"
      "sp_written sp @ [Data b] = script_data strict encode (chunk_changes chunk b sp)"
proof (cases "chunk_changes chunk b sp = sp")
  case False
  then obtain v where v: "live_chunk (last (sp_taken sp)) b = Some v" "length b = length chunk"
    "chunk_changes chunk b sp = sp\<lparr>sp_phase := Writing b, sp_taken := butlast (sp_taken sp) @ [v]\<rparr>"
    by (auto simp: chunk_changes_def split: option.splits if_splits)
  let ?init = "butlast (sp_taken sp)" and ?last = "last (sp_taken sp)"
  have hand: "sp_taken sp = ?init @ [?last]" "\<not> chunk_skipped ?last" "to_bytes strict encode ?last = Ok chunk"
    using assms(1) by (simp_all add: in_hand_def)
  note new = live_chunk_bytes [OF v(1) hand(3) v(2) hand(2)]
  have init: "list_all (convertible strict encode) ?init" using assms(2) hand(1) by (metis list_all_append)
  have "source_bytes strict encode (sp_taken sp) = source_bytes strict encode ?init @ [chunk]"
    using source_bytes_append [OF init, of "[?last]"] hand by simp
  then have "sp_written sp = map Data (source_bytes strict encode ?init)" using assms(3) by simp
  then have "sp_written sp @ [Data b] = map Data (source_bytes strict encode (?init @ [v]))"
    using source_bytes_append [OF init, of "[v]"] new by simp
  then show ?thesis using that(2) [of v] v(3) new init by (simp add: in_hand_def convertible_def)
qed (use that(1) in blast)

lemma script_pump_inv:
  assumes "script_inv strict encode q"
  shows "script_inv strict encode (script_step strict encode ev q)"
proof (cases "sp_phase (fst q)")
  case Reading
  then have q: "sp_ends (fst q) = 0" "sp_error (fst q) = None" "list_all (convertible strict encode) (sp_taken (fst q))"
    "sp_written (fst q) = script_data strict encode (fst q)"
    using assms by (simp_all add: script_inv_def Let_def)
  show ?thesis
  proof (cases ev)
    case (ReadGives v)
    let ?q = "((fst q)\<lparr>sp_taken := sp_taken (fst q) @ [v]\<rparr>, snd q)"
    have data: "script_data strict encode (fst ?q) =
        script_data strict encode (fst q) @ map Data (source_bytes strict encode [v])"
      using source_bytes_append [OF q(3)] by simp
    show ?thesis
    proof (cases "chunk_skipped v")
      case True
      then show ?thesis using Reading ReadGives q data
        by (simp add: script_step_def script_inv_def convertible_def Let_def)
    next
      case False
      then show ?thesis
        using Reading ReadGives q data script_fail_inv [of ?q strict encode] script_write_inv [of ?q strict encode]
        by (cases "to_bytes strict encode v") (simp_all add: script_step_def convertible_def in_hand_def)
    qed
  qed (use assms Reading q script_finish_inv [of q] script_fail_inv [of q] in \<open>simp_all add: script_step_def\<close>)
next
  case (Writing chunk)
  then have q: "sp_ends (fst q) = 0" "sp_error (fst q) = None" "list_all (convertible strict encode) (sp_taken (fst q))"
    "sp_written (fst q) @ [Data chunk] = script_data strict encode (fst q)" "in_hand strict encode chunk (fst q)"
    using assms by (simp_all add: script_inv_def Let_def)
  show ?thesis
  proof (cases ev)
    case (ChunkChanges b)
    from chunk_changes_cases [OF q(5,3,4), of b] show ?thesis
      using assms ChunkChanges Writing q by cases (auto simp: script_step_def script_inv_def Let_def)
  qed (use assms Writing q script_write_inv [of q strict encode chunk] in \<open>simp_all add: script_step_def\<close>)
next
  case Cancelling
  then have "sp_ends (fst q) = 0" "sp_error (fst q) = None" "\<not> has_sender (sp_stream (fst q)) (snd q)"
    "\<exists>rest. script_data strict encode (fst q) = sp_written (fst q) @ rest"
    using assms by (auto simp: script_inv_def Let_def) metis
  then have "script_inv strict encode (script_finish q)" by (intro script_finish_inv) simp_all
  then show ?thesis using assms Cancelling by (cases ev) (simp_all add: script_step_def)
next
  case Finished
  then show ?thesis using assms by (simp add: script_step_def)
qed

section \<open>A stream whose reader is there\<close>

text \<open>The channel takes a terminal chunk as long as none is written: the writers of data leave the last place
  free.\<close>

definition stream_alive :: "nat \<Rightarrow> script_pump \<times> stream_manager \<Rightarrow> bool" where
  "stream_alive c q \<longleftrightarrow>
     (let ch = sm_channels (snd q) ! c in
      hm_get (sm_senders (snd q)) (sp_stream (fst q)) = Some c \<and> c < length (sm_channels (snd q)) \<and>
      ch_rx_open ch \<and> 0 < ch_senders ch \<and> 2 \<le> ch_cap ch \<and> (all_data (sp_written (fst q)) \<longrightarrow> length (ch_buf ch) < ch_cap ch))"

definition complete :: "bool \<Rightarrow> (string \<Rightarrow> bytes) \<Rightarrow> script_pump \<Rightarrow> bool" where
  "complete strict encode sp \<longleftrightarrow>
     sp_phase sp \<noteq> Cancelling \<and>
     (sp_phase sp = Finished \<longrightarrow> sp_written sp = script_data strict encode sp @ [script_end sp])"

text \<open>What a step of the script does to the channel: what it writes is appended.\<close>

definition appended :: "nat \<Rightarrow> script_pump \<times> stream_manager \<Rightarrow> script_pump \<times> stream_manager \<Rightarrow> bool" where
  "appended c q q' \<longleftrightarrow>
     sm_receivers (snd q') = sm_receivers (snd q) \<and> sp_stream (fst q') = sp_stream (fst q) \<and>
     sm_high_water_mark (snd q') = sm_high_water_mark (snd q) \<and>
     ch_cap (sm_channels (snd q') ! c) = ch_cap (sm_channels (snd q) ! c) \<and>
     (\<exists>new. sp_written (fst q') = sp_written (fst q) @ new \<and>
        ch_buf (sm_channels (snd q') ! c) = ch_buf (sm_channels (snd q) ! c) @ new)"

lemma update_channel_mark [simp]: "sm_high_water_mark (update_channel c f sm) = sm_high_water_mark sm"
  by (simp add: update_channel_def)

lemma all_data_map [simp]: "all_data (map Data bs)" "all_data (map Data bs @ cs) = all_data cs" "all_data [Data b]"
  by (auto simp: all_data_def terminal_def list_all_iff)

lemma script_end_terminal [simp]: "\<not> all_data [script_end sp]"
  by (simp add: all_data_def terminal_def script_end_def split: option.split)

lemma alive_write:
  assumes "stream_alive c q" "all_data (sp_written (fst q))" "i = sp_stream (fst q)"
  shows "terminal chunk \<Longrightarrow> try_write_chunk i chunk (snd q) =
      (update_channel c (\<lambda>ch. ch\<lparr>ch_buf := ch_buf ch @ [chunk]\<rparr>) (snd q), Ok ())"
    "\<not> terminal chunk \<Longrightarrow> try_write_chunk i chunk (snd q) =
      (if Suc (length (ch_buf (sm_channels (snd q) ! c))) < ch_cap (sm_channels (snd q) ! c)
       then (update_channel c (\<lambda>ch. ch\<lparr>ch_buf := ch_buf ch @ [chunk]\<rparr>) (snd q), Ok ())
       else (snd q, Err BufferFull))"
  using assms by (auto simp: stream_alive_def try_write_chunk_def ch_try_send_def ch_capacity_def update_channel_def Let_def)

lemma alive_terminal:
  assumes "stream_alive c q" "all_data (sp_written (fst q))" "terminal chunk"
  shows "stream_alive c (script_terminal chunk q)" "appended c q (script_terminal chunk q)"
    "sp_written (fst (script_terminal chunk q)) = sp_written (fst q) @ [chunk]"
proof -
  show w: "sp_written (fst (script_terminal chunk q)) = sp_written (fst q) @ [chunk]"
    using alive_write(1) [OF assms(1,2) refl assms(3)] by (simp add: script_terminal_def)
  have "\<not> all_data (sp_written (fst q) @ [chunk])" using assms(3) by (simp add: all_data_def)
  then show "stream_alive c (script_terminal chunk q)" "appended c q (script_terminal chunk q)"
    using alive_write(1) [OF assms(1,2) refl assms(3)] assms(1)
    by (auto simp: script_terminal_def stream_alive_def appended_def Let_def)
qed

lemma alive_finish:
  assumes "stream_alive c q" "sp_written (fst q) = script_data strict encode (fst q)" "sp_error (fst q) = None"
  shows "stream_alive c (script_finish q) \<and> appended c q (script_finish q) \<and> complete strict encode (fst (script_finish q))"
  using alive_terminal [OF assms(1), of Done] assms(2,3)
  by (auto simp: script_finish_def terminal_def stream_alive_def appended_def complete_def script_end_def Let_def)

lemma alive_fail:
  assumes "stream_alive c q" "sp_written (fst q) = script_data strict encode (fst q)"
  shows "stream_alive c (script_fail message q) \<and> appended c q (script_fail message q) \<and>
    complete strict encode (fst (script_fail message q))"
  using alive_terminal [OF assms(1), of "Error message"] assms(2)
  by (auto simp: script_fail_def script_finish_def terminal_def stream_alive_def appended_def complete_def script_end_def Let_def)

lemma alive_script_write:
  assumes "stream_alive c q" "all_data (sp_written (fst q))"
  shows "stream_alive c (script_write chunk q) \<and> appended c q (script_write chunk q) \<and>
    complete strict encode (fst (script_write chunk q))"
proof -
  have t: "\<not> terminal (Data chunk)" by (simp add: terminal_def)
  show ?thesis
    using alive_write(2) [OF assms refl t] assms
    by (auto simp: script_write_def response_stream_write_def response_stream_is_closed_def has_sender_def stream_alive_def
        appended_def complete_def all_data_def terminal_def Let_def)
qed

lemma alive_step:
  assumes "stream_alive c q" "script_inv strict encode q" "complete strict encode (fst q)"
  shows "stream_alive c (script_step strict encode ev q) \<and> appended c q (script_step strict encode ev q) \<and>
    complete strict encode (fst (script_step strict encode ev q))"
proof (cases "sp_phase (fst q)")
  case Reading
  then have q: "sp_error (fst q) = None" "list_all (convertible strict encode) (sp_taken (fst q))"
    "sp_written (fst q) = script_data strict encode (fst q)" "all_data (sp_written (fst q))"
    using assms(2) by (simp_all add: script_inv_def Let_def)
  show ?thesis
  proof (cases ev)
    case (ReadGives v)
    let ?q = "((fst q)\<lparr>sp_taken := sp_taken (fst q) @ [v]\<rparr>, snd q)"
    have same: "stream_alive c ?q" "\<And>q'. appended c ?q q' \<longleftrightarrow> appended c q q'" "appended c q ?q"
      using assms(1) by (simp_all add: stream_alive_def appended_def)
    have data: "script_data strict encode (fst ?q) =
        script_data strict encode (fst q) @ map Data (source_bytes strict encode [v])"
      using source_bytes_append [OF q(2)] by simp
    show ?thesis
    proof (cases "chunk_skipped v")
      case True
      then show ?thesis using Reading ReadGives same by (simp add: script_step_def complete_def)
    next
      case False
      then show ?thesis
        using Reading ReadGives q data alive_fail [OF same(1), of strict encode] alive_script_write [OF same(1), of _ strict encode] same(2)
        by (cases "to_bytes strict encode v") (simp_all add: script_step_def)
    qed
  next
    case ReadDone
    then show ?thesis using Reading alive_finish [OF assms(1) q(3,1)] by (simp add: script_step_def)
  next
    case (ReadFails message)
    then show ?thesis using Reading alive_fail [OF assms(1) q(3)] by (simp add: script_step_def)
  qed (use assms Reading in \<open>simp_all add: script_step_def appended_def\<close>)
next
  case (Writing chunk)
  then have "sp_written (fst q) @ [Data chunk] = script_data strict encode (fst q)"
    using assms(2) by (simp add: script_inv_def Let_def)
  then have "all_data (sp_written (fst q) @ [Data chunk])" by simp
  then have "all_data (sp_written (fst q))" by (simp add: all_data_def)
  moreover have "sp_written (chunk_changes chunk b sp) = sp_written sp" "sp_stream (chunk_changes chunk b sp) = sp_stream sp"
    "sp_phase sp = Writing chunk \<Longrightarrow> \<exists>c. sp_phase (chunk_changes chunk b sp) = Writing c" for b sp
    by (auto simp: chunk_changes_def split: option.split)
  ultimately show ?thesis using assms Writing alive_script_write [OF assms(1), of chunk strict encode]
    by (cases ev) (auto simp: script_step_def appended_def stream_alive_def complete_def, (metis script_phase.distinct)+)
next
  case Cancelling
  then show ?thesis using assms(3) by (simp add: complete_def)
next
  case Finished
  then show ?thesis using assms by (simp add: script_step_def appended_def)
qed

section \<open>From the source to the client\<close>

text \<open>The script and the host move in any order.  What the script writes is what \<open>br_written\<close> records.\<close>

datatype joined_op = ScriptMoves script_event | HostPumps bool | HostClientReads | HostClientLeaves

definition put_script :: "body_run \<Rightarrow> script_pump \<times> stream_manager \<Rightarrow> body_run" where
  "put_script r q = r\<lparr>br_sm := snd q, br_written := sp_written (fst q)\<rparr>"

definition joined_step ::
    "bool \<Rightarrow> (string \<Rightarrow> bytes) \<Rightarrow> joined_op \<Rightarrow> script_pump \<times> body_run \<Rightarrow> script_pump \<times> body_run" where
  "joined_step strict encode op j =
     (case op of
        ScriptMoves ev \<Rightarrow>
          (let q = script_step strict encode ev (fst j, br_sm (snd j)) in (fst q, put_script (snd j) q))
      | HostPumps closed_first \<Rightarrow> (fst j, body_step (PumpMoves closed_first) (snd j))
      | HostClientReads \<Rightarrow> (fst j, body_step ClientReads (snd j))
      | HostClientLeaves \<Rightarrow> (fst j, body_step ClientLeaves (snd j)))"

lemma put_terminal:
  assumes "rp_stream (br_pump r) = sp_stream sp" "br_written r = sp_written sp"
  shows "put_script r (script_terminal chunk (sp, br_sm r)) = body_step (GuestWrites chunk) r"
  using assms by (auto simp: put_script_def script_terminal_def body_step_def Let_def split: prod.split sum.split)

lemma put_same [simp]:
  "put_script r (sp\<lparr>sp_phase := p\<rparr>, sm) = put_script r (sp, sm)" "put_script r (sp\<lparr>sp_ends := n\<rparr>, sm) = put_script r (sp, sm)"
  "put_script r (sp\<lparr>sp_error := e\<rparr>, sm) = put_script r (sp, sm)" "put_script r (sp\<lparr>sp_taken := t\<rparr>, sm) = put_script r (sp, sm)"
  "put_script r (sp\<lparr>sp_waits := n\<rparr>, sm) = put_script r (sp, sm)"
  "br_written r = sp_written sp \<Longrightarrow> put_script r (sp, br_sm r) = r"
  by (simp_all add: put_script_def)

lemma put_write:
  assumes "rp_stream (br_pump r) = sp_stream sp" "br_written r = sp_written sp"
  shows "put_script r (script_write chunk (sp, br_sm r)) = body_step (GuestWrites (Data chunk)) r"
  using assms
  by (auto simp: put_script_def script_write_def response_stream_write_def body_step_def Let_def split: prod.split sum.split)

text \<open>A step of the script is at most one write of the guest.\<close>

lemma put_step:
  assumes "rp_stream (br_pump r) = sp_stream sp" "br_written r = sp_written sp"
  shows "\<exists>ops. put_script r (script_step strict encode ev (sp, br_sm r)) = fold body_step ops r"
proof -
  have f: "\<exists>ops. put_script r (script_finish (sp, br_sm r)) = fold body_step ops r"
    using put_terminal [OF assms, of Done] assms
    by (cases "sp_error sp") (force simp: script_finish_def Let_def intro: exI [of _ "[GuestWrites Done]"] exI [of _ "[]"])+
  have e: "\<exists>ops. put_script r (script_fail message (sp', br_sm r)) = fold body_step ops r"
    if "sp_stream sp' = sp_stream sp" "sp_written sp' = sp_written sp" for message sp'
    using put_terminal [of r sp' "Error message"] assms that
    by (intro exI [of _ "[GuestWrites (Error message)]"]) (simp add: script_fail_def script_finish_def Let_def)
  have w: "\<exists>ops. put_script r (script_write chunk (sp', br_sm r)) = fold body_step ops r"
    if "sp_stream sp' = sp_stream sp" "sp_written sp' = sp_written sp" for chunk sp'
    using put_write [of r sp' chunk] assms that by (intro exI [of _ "[GuestWrites (Data chunk)]"]) simp
  have c: "sp_written (chunk_changes chunk b sp) = sp_written sp" for chunk b
    by (simp add: chunk_changes_def split: option.split)
  have n: "\<exists>ops. put_script r (sp', br_sm r) = fold body_step ops r" if "sp_written sp' = sp_written sp" for sp'
    using assms that by (intro exI [of _ "[]"]) simp
  show ?thesis
    using f e w n c by (auto simp: script_step_def Let_def split: script_phase.split script_event.split sum.split)
qed

definition joined_inv :: "bool \<Rightarrow> (string \<Rightarrow> bytes) \<Rightarrow> script_pump \<times> body_run \<Rightarrow> bool" where
  "joined_inv strict encode j \<longleftrightarrow>
     (let sp = fst j; r = snd j in
      body_inv r \<and> rp_stream (br_pump r) = sp_stream sp \<and> br_written r = sp_written sp \<and>
      script_inv strict encode (sp, br_sm r) \<and>
      (ch_rx_open (rp_client (br_pump r)) \<longrightarrow>
         complete strict encode sp \<and>
         (if rp_ended (br_pump r) then \<not> all_data (sp_written sp) else stream_alive (rp_channel (br_pump r)) (sp, br_sm r))))"

text \<open>A script that wrote its terminal chunk is at its end.\<close>

lemma unfinished_data: "script_inv strict encode (sp, sm) \<Longrightarrow> sp_phase sp \<noteq> Finished \<Longrightarrow> all_data (sp_written sp)"
proof -
  assume "script_inv strict encode (sp, sm)" "sp_phase sp \<noteq> Finished"
  then obtain tail where "sp_written sp @ tail = script_data strict encode sp"
    by (cases "sp_phase sp") (auto simp: script_inv_def Let_def)
  then have "all_data (sp_written sp @ tail)" by simp
  then show "all_data (sp_written sp)" by (simp add: all_data_def)
qed

lemma script_joined_inv:
  assumes "joined_inv strict encode (sp, r)"
  shows "joined_inv strict encode (joined_step strict encode (ScriptMoves ev) (sp, r))"
proof -
  let ?q = "script_step strict encode ev (sp, br_sm r)"
  have j: "body_inv r" "rp_stream (br_pump r) = sp_stream sp" "br_written r = sp_written sp" "script_inv strict encode (sp, br_sm r)"
    using assms by (simp_all add: joined_inv_def Let_def)
  obtain ops where ops: "put_script r ?q = fold body_step ops r" using put_step [OF j(2,3)] by blast
  have stream: "sp_stream (fst ?q) = sp_stream sp"
    by (auto simp: script_step_def script_finish_def script_fail_def script_write_def chunk_changes_def Let_def
        split: script_phase.split script_event.split sum.split prod.split option.split)
  have open_case: "complete strict encode (fst ?q) \<and>
      (if rp_ended (br_pump r) then \<not> all_data (sp_written (fst ?q)) else stream_alive (rp_channel (br_pump r)) ?q)"
    if o: "ch_rx_open (rp_client (br_pump r))"
  proof (cases "rp_ended (br_pump r)")
    case True
    then have "\<not> all_data (sp_written sp)" "complete strict encode sp" using assms o by (simp_all add: joined_inv_def Let_def)
    moreover from this have "sp_phase sp = Finished" using unfinished_data [OF j(4)] by blast
    then have "?q = (sp, br_sm r)" by (simp add: script_step_def)
    ultimately show ?thesis using True by simp
  next
    case False
    then have "stream_alive (rp_channel (br_pump r)) (sp, br_sm r)" "complete strict encode sp"
      using assms o by (simp_all add: joined_inv_def Let_def)
    then show ?thesis using alive_step [of _ "(sp, br_sm r)"] j(4) False by simp
  qed
  have same: "br_pump (put_script r ?q) = br_pump r" "br_written (put_script r ?q) = sp_written (fst ?q)"
    "br_sm (put_script r ?q) = snd ?q" by (simp_all add: put_script_def)
  have "body_inv (put_script r ?q)" using ops body_run_inv [OF j(1)] by simp
  then show ?thesis
    using stream open_case j(2) script_pump_inv [OF j(4)] same
    by (simp add: joined_inv_def joined_step_def Let_def)
qed

text \<open>A host that drops the sender of a stream drops it for good.\<close>

lemma sender_gone:
  "\<not> has_sender i sm \<Longrightarrow> \<not> has_sender i (close_stream j sm)" "\<not> has_sender i sm \<Longrightarrow> \<not> has_sender i (update_channel c f sm)"
  by (auto simp: has_sender_def close_stream_def remove_sender_def remove_receiver_def update_channel_def Let_def split: option.split)

lemma host_gone:
  "\<not> has_sender i (br_sm r) \<Longrightarrow> \<not> has_sender i (br_sm (body_step (PumpMoves b) r))"
  by (auto simp: body_step_def pump_response_def pump_send_def pump_recv_def pump_end_def sender_gone Let_def
      split: prod.split option.split send_result.split recv_result.split stream_chunk.split)

lemma host_same:
  "rp_stream (br_pump (body_step (PumpMoves b) r)) = rp_stream (br_pump r)"
  "rp_channel (br_pump (body_step (PumpMoves b) r)) = rp_channel (br_pump r)"
  "br_written (body_step (PumpMoves b) r) = br_written r"
  "ch_rx_open (rp_client (br_pump (body_step (PumpMoves b) r))) = ch_rx_open (rp_client (br_pump r))"
  by (auto simp: body_step_def pump_response_def pump_send_def pump_recv_def pump_end_def ch_try_send_def ch_drop_sender_def Let_def
      split: prod.split option.split send_result.split recv_result.split stream_chunk.split)

text \<open>As long as the client is there, the pump keeps the stream alive, and ends at a terminal chunk only.\<close>

lemma host_alive:
  assumes "body_inv r" "stream_alive (rp_channel (br_pump r)) (sp, br_sm r)" "ch_rx_open (rp_client (br_pump r))"
    "\<not> rp_ended (br_pump r)" "br_written r = sp_written sp"
  shows "let r' = body_step (PumpMoves b) r in
    if rp_ended (br_pump r') then \<not> all_data (sp_written sp) else stream_alive (rp_channel (br_pump r)) (sp, br_sm r')"
proof -
  obtain taken where t: "pumping r taken" using assms(1,4) by (auto simp: body_inv_shapes)
  let ?ch = "sm_channels (br_sm r) ! rp_channel (br_pump r)"
  have w: "sp_written sp = taken @ ch_buf ?ch" using t assms(5) by (simp add: pumping_def)
  show ?thesis
  proof (cases "rp_sending (br_pump r)")
    case (Some x)
    obtain item last_item where x: "x = (item, last_item)" by fastforce
    have "last_item \<Longrightarrow> \<not> all_data (sp_written sp)" using t w Some x by (auto simp: pumping_def all_data_def split: bool.splits)
    then show ?thesis using Some x assms
      by (auto simp: body_step_def pump_response_def pump_send_def pump_end_def ch_try_send_def Let_def)
  next
    case None
    show ?thesis
    proof (cases "ch_buf ?ch")
      case Nil
      then show ?thesis using None assms
        by (simp add: body_step_def pump_response_def pump_recv_def ch_recv_def stream_alive_def Let_def)
    next
      case (Cons chunk cs)
      have "terminal chunk \<Longrightarrow> \<not> all_data (sp_written sp)" using w Cons by (simp add: all_data_def)
      then show ?thesis using None assms Cons
        by (cases chunk)
           (auto simp: body_step_def pump_response_def pump_recv_def pump_end_def ch_recv_def stream_alive_def terminal_def Let_def)
    qed
  qed
qed

lemma joined_step_inv:
  assumes "joined_inv strict encode j"
  shows "joined_inv strict encode (joined_step strict encode op j)"
proof -
  obtain sp r where jj: "j = (sp, r)" by fastforce
  have j: "body_inv r" "rp_stream (br_pump r) = sp_stream sp" "br_written r = sp_written sp" "script_inv strict encode (sp, br_sm r)"
    using assms by (simp_all add: joined_inv_def jj Let_def)
  show ?thesis
  proof (cases op)
    case (ScriptMoves ev)
    then show ?thesis using script_joined_inv assms jj by simp
  next
    case (HostPumps b)
    have "script_inv strict encode (sp, br_sm (body_step (PumpMoves b) r))"
      using j(4) host_gone [of "sp_stream sp" r b] by (auto simp: script_inv_def Let_def split: script_phase.splits)
    moreover have "rp_ended (br_pump r) \<Longrightarrow> body_step (PumpMoves b) r = r" by (simp add: body_step_def pump_response_def)
    ultimately show ?thesis
      using assms body_step_inv [OF j(1), of "PumpMoves b"] host_same [of b r] host_alive [of r sp b] j(1,3) jj HostPumps
      by (auto simp: joined_inv_def joined_step_def Let_def split: if_splits)
  next
    case HostClientReads
    have "br_sm (body_step ClientReads r) = br_sm r" "br_written (body_step ClientReads r) = br_written r"
      "rp_ended (br_pump (body_step ClientReads r)) = rp_ended (br_pump r)"
      "rp_stream (br_pump (body_step ClientReads r)) = rp_stream (br_pump r)"
      "rp_channel (br_pump (body_step ClientReads r)) = rp_channel (br_pump r)"
      "ch_rx_open (rp_client (br_pump (body_step ClientReads r))) = ch_rx_open (rp_client (br_pump r))"
      by (auto simp: body_step_def ch_recv_def Let_def split: list.split)
    then show ?thesis
      using assms body_step_inv [OF j(1), of ClientReads] jj HostClientReads by (simp add: joined_inv_def joined_step_def Let_def)
  next
    case HostClientLeaves
    then show ?thesis
      using assms body_step_inv [OF j(1), of ClientLeaves] jj
      by (simp add: joined_inv_def joined_step_def body_step_def ch_drop_receiver_def Let_def)
  qed
qed

lemma joined_run_inv: "joined_inv strict encode j \<Longrightarrow> joined_inv strict encode (fold (joined_step strict encode) ops j)"
  by (induction ops arbitrary: j) (simp_all add: joined_step_inv)

text \<open>Before the host reads the response, the script runs alone and the stream buffers what it writes.\<close>

definition script_alone :: "bool \<Rightarrow> (string \<Rightarrow> bytes) \<Rightarrow> stream_id \<Rightarrow> nat \<Rightarrow> script_pump \<times> stream_manager \<Rightarrow> bool" where
  "script_alone strict encode i c q \<longleftrightarrow>
     stream_alive c q \<and> script_inv strict encode q \<and> complete strict encode (fst q) \<and> sp_stream (fst q) = i \<and>
     stream_ok i c (snd q) \<and> buffered c (snd q) = sp_written (fst q)"

lemma alone_keeps:
  assumes "script_alone strict encode i c q" "stream_alive c q'" "appended c q q'" "complete strict encode (fst q')"
    "script_inv strict encode q'"
  shows "script_alone strict encode i c q'"
  using assms by (auto simp: script_alone_def appended_def stream_ok_def stream_alive_def buffered_def Let_def)

lemma alone_run:
  "script_alone strict encode i c q \<Longrightarrow> script_alone strict encode i c (fold (script_step strict encode) evs q)"
proof (induction evs arbitrary: q)
  case (Cons ev evs)
  then have "script_alone strict encode i c (script_step strict encode ev q)"
    using alone_keeps [of strict encode i c q] alive_step [of c q strict encode ev] script_pump_inv [of strict encode q ev]
    by (simp add: script_alone_def)
  then show ?case using Cons.IH by simp
qed simp

lemma alone_starts:
  assumes "stream_body (StreamedBody reader) sm = (q, Some i)" "ids_fresh sm" "0 < sm_high_water_mark sm"
  shows "script_alone strict encode i (length (sm_channels sm)) q"
proof -
  let ?c = "length (sm_channels sm)"
  obtain sm' where c: "create_stream ''response'' sm = (sm', i)"
    using assms(1) by (auto simp: stream_body_def response_stream_create_def Let_def split: prod.splits)
  note ok = create_stream_ok [OF c assms(2)]
  let ?q = "(script_pump_new i, sm')"
  have start: "script_alone strict encode i ?c ?q"
    using ok(2,3,7) assms(3)
    by (simp add: script_alone_def stream_alive_def script_inv_def complete_def stream_ok_def buffered_def script_pump_new_def
        channel_new_def Let_def)
  show ?thesis
  proof (cases reader)
    case (Inl message)
    have "sp_written (fst ?q) = script_data strict encode (fst ?q)" "sp_ends (fst ?q) = 0" by (simp_all add: script_pump_new_def)
    then have "script_alone strict encode i ?c (script_fail message ?q)"
      using alone_keeps [OF start] alive_fail [of ?c ?q strict encode] script_fail_inv [of ?q strict encode] start
      by (simp add: script_alone_def)
    then show ?thesis using assms(1) c Inl by (simp add: stream_body_def response_stream_create_def Let_def)
  next
    case (Inr u)
    then show ?thesis using assms(1) c start by (simp add: stream_body_def response_stream_create_def Let_def)
  qed
qed

lemma joined_starts:
  assumes "script_alone strict encode i c (sp, sm)" "read_response_object R n handle sm = (sm', Ok (status, response))"
    "ht_body response = HttpStream p" "rp_stream p = i"
  shows "joined_inv strict encode (sp, \<lparr>br_sm = sm', br_pump = p, br_written = sp_written sp, br_got = []\<rparr>)"
proof -
  obtain resp where read: "read_body R n resp sm = (sm', HttpStream p)"
    using assms(2,3) by (auto simp: read_response_object_def Let_def split: option.splits prod.splits)
  have ok: "stream_ok i c sm" "buffered c sm = sp_written sp" using assms(1) by (simp_all add: script_alone_def)
  have p: "p = response_pump_new n i c" and sm': "sm' = fst (take_receiver i sm)"
    using read assms(4) ok(1) by (auto simp: read_body_def take_receiver_def stream_ok_def response_pump_new_def split: option.splits)
  have "rp_channel p = c" by (simp add: p response_pump_new_def)
  then have "body_inv \<lparr>br_sm = sm', br_pump = p, br_written = sp_written sp, br_got = []\<rparr>"
    using body_starts [OF read] ok assms(4) by simp
  moreover have "script_inv strict encode (sp, sm')" "stream_alive c (sp, sm')"
    using assms(1) sm'
    by (cases "sp_phase sp"; simp add: script_alone_def stream_alive_def script_inv_def has_sender_def take_receiver_def Let_def)+
  ultimately show ?thesis
    using assms(1) p by (simp add: joined_inv_def script_alone_def response_pump_new_def Let_def)
qed

text \<open>The items a client gets of a source.\<close>

definition source_items :: "bool \<Rightarrow> (string \<Rightarrow> bytes) \<Rightarrow> script_pump \<Rightarrow> (string, bytes) result list" where
  "source_items strict encode sp =
     map Ok (source_bytes strict encode (sp_taken sp)) @ (case sp_error sp of None \<Rightarrow> [] | Some e \<Rightarrow> [Err e])"

lemma body_items_data: "body_items (map Data bs @ cs) = map Ok bs @ body_items cs"
  by (induction bs) simp_all

lemma script_inv_written:
  "script_inv strict encode (sp, sm) \<Longrightarrow>
   sp_written sp = script_data strict encode sp @ [script_end sp] \<or> (\<exists>rest. script_data strict encode sp = sp_written sp @ rest)"
  by (cases "sp_phase sp") (auto simp: script_inv_def Let_def, metis+)

lemma source_items_full:
  "sp_written sp = script_data strict encode sp @ [script_end sp] \<Longrightarrow> source_items strict encode sp = body_items (sp_written sp)"
  by (simp add: source_items_def body_items_data script_end_def split: option.split)

lemma source_items_prefix:
  assumes "script_inv strict encode (sp, sm)"
  shows "\<exists>rest. source_items strict encode sp = body_items (sp_written sp) @ rest"
  using script_inv_written [OF assms]
proof (elim disjE exE)
  fix rest assume d: "script_data strict encode sp = sp_written sp @ rest"
  have "body_items (script_data strict encode sp) = map Ok (source_bytes strict encode (sp_taken sp))"
    using body_items_data [of _ "[]"] by simp
  then show ?thesis using body_items_prefix [of "sp_written sp" rest] d by (auto simp: source_items_def)
qed (simp add: source_items_full)

lemma joined_body:
  assumes "joined_inv strict encode (sp, r)"
  shows "\<exists>rest. source_items strict encode sp = br_got r @ rest"
    "rp_ended (br_pump r) \<Longrightarrow> ch_rx_open (rp_client (br_pump r)) \<Longrightarrow>
      sp_phase sp = Finished \<and> br_got r @ ch_buf (rp_client (br_pump r)) = source_items strict encode sp"
    "sp_ends sp = (if sp_phase sp = Finished then 1 else 0)"
proof -
  have j: "body_inv r" "br_written r = sp_written sp" "script_inv strict encode (sp, br_sm r)"
    using assms by (simp_all add: joined_inv_def Let_def)
  show "sp_ends sp = (if sp_phase sp = Finished then 1 else 0)" using j(3) by (auto simp: script_inv_def Let_def)
  have got: "(\<exists>rest. body_items (sp_written sp) = br_got r @ rest) \<and>
      (rp_ended (br_pump r) \<and> ch_rx_open (rp_client (br_pump r)) \<longrightarrow>
        br_got r @ ch_buf (rp_client (br_pump r)) = body_items (sp_written sp))"
    using body_inv_body [OF j(1)] j(2) by simp
  then show "\<exists>rest. source_items strict encode sp = br_got r @ rest" using source_items_prefix [OF j(3)] by auto
  show "sp_phase sp = Finished \<and> br_got r @ ch_buf (rp_client (br_pump r)) = source_items strict encode sp"
    if e: "rp_ended (br_pump r)" "ch_rx_open (rp_client (br_pump r))"
  proof -
    have "\<not> all_data (sp_written sp)" "complete strict encode sp" using assms e by (simp_all add: joined_inv_def Let_def)
    moreover from this have "sp_phase sp = Finished" using unfinished_data [OF j(3)] by blast
    ultimately have "source_items strict encode sp = body_items (sp_written sp)"
      using source_items_full by (simp add: complete_def)
    then show ?thesis using got e \<open>sp_phase sp = Finished\<close> by simp
  qed
qed

section \<open>Progress\<close>

text \<open>A client that reads and a pump that moves, in turn.\<close>

definition delivery :: "nat \<Rightarrow> joined_op list" where
  "delivery n = concat (replicate n [HostClientReads, HostPumps False])"

definition undelivered :: "body_run \<Rightarrow> nat" where
  "undelivered r =
     (if rp_ended (br_pump r) then 0
      else Suc (2 * length (ch_buf (sm_channels (br_sm r) ! rp_channel (br_pump r))) +
        (if rp_sending (br_pump r) = None then 0 else 1)))"

definition client_ready :: "body_run \<Rightarrow> bool" where
  "client_ready r \<longleftrightarrow>
     ch_rx_open (rp_client (br_pump r)) \<and> 0 < ch_cap (rp_client (br_pump r)) \<and>
     length (ch_buf (rp_client (br_pump r))) \<le> ch_cap (rp_client (br_pump r))"

lemma read_makes_room:
  assumes "client_ready r"
  shows "client_ready (body_step ClientReads r)" "0 < ch_capacity (rp_client (br_pump (body_step ClientReads r)))"
    "undelivered (body_step ClientReads r) = undelivered r" "rp_ended (br_pump (body_step ClientReads r)) = rp_ended (br_pump r)"
  using assms
  by (auto simp: body_step_def client_ready_def ch_recv_def ch_capacity_def undelivered_def Let_def split: list.split)

text \<open>A pump that has room moves on, as a terminal chunk is written.\<close>

lemma pump_moves_on:
  assumes "body_inv r" "\<not> rp_ended (br_pump r)" "\<not> all_data (br_written r)" "client_ready r"
    "0 < ch_capacity (rp_client (br_pump r))"
  shows "undelivered (body_step (PumpMoves False) r) < undelivered r" "client_ready (body_step (PumpMoves False) r)"
proof -
  obtain taken where t: "pumping r taken" "wired r" using assms(1,2) by (auto simp: body_inv_shapes)
  let ?ch = "sm_channels (br_sm r) ! rp_channel (br_pump r)"
  have c: "rp_channel (br_pump r) < length (sm_channels (br_sm r))" using t(2) by (simp add: wired_def)
  have both: "undelivered (body_step (PumpMoves False) r) < undelivered r \<and> client_ready (body_step (PumpMoves False) r)"
  proof (cases "rp_sending (br_pump r)")
    case (Some x)
    then show ?thesis using assms(2,4,5)
      by (cases x) (auto simp: body_step_def pump_response_def pump_send_def pump_end_def ch_try_send_def client_ready_def
          undelivered_def ch_capacity_def ch_drop_sender_def Let_def)
  next
    case None
    then have "ch_buf ?ch \<noteq> []" using t(1) assms(3) by (auto simp: pumping_def)
    then obtain chunk cs where "ch_buf ?ch = chunk # cs" by (cases "ch_buf ?ch") auto
    then show ?thesis using None assms(2,4) c
      by (cases chunk) (auto simp: body_step_def pump_response_def pump_recv_def pump_end_def ch_recv_def client_ready_def
          undelivered_def ch_drop_sender_def Let_def)
  qed
  then show "undelivered (body_step (PumpMoves False) r) < undelivered r" "client_ready (body_step (PumpMoves False) r)" by simp_all
qed

lemma delivery_ends:
  assumes "joined_inv strict encode (sp, r)" "sp_phase sp = Finished" "client_ready r" "n = undelivered r"
  shows "\<exists>r'. fold (joined_step strict encode) (delivery n) (sp, r) = (sp, r') \<and> rp_ended (br_pump r') \<and> client_ready r' \<and>
    joined_inv strict encode (sp, r')"
  using assms
proof (induction n arbitrary: r rule: less_induct)
  case (less n)
  show ?case
  proof (cases "rp_ended (br_pump r)")
    case True
    then show ?thesis using less.prems by (auto simp: delivery_def undelivered_def)
  next
    case False
    let ?r1 = "body_step ClientReads r" and ?r2 = "body_step (PumpMoves False) (body_step ClientReads r)"
    have steps: "joined_step strict encode HostClientReads (sp, r) = (sp, ?r1)"
      "joined_step strict encode (HostPumps False) (sp, ?r1) = (sp, ?r2)" by (simp_all add: joined_step_def)
    have i1: "joined_inv strict encode (sp, ?r1)" using joined_step_inv [OF less.prems(1), of HostClientReads] steps by simp
    have i2: "joined_inv strict encode (sp, ?r2)" using joined_step_inv [OF i1, of "HostPumps False"] steps by simp
    note room = read_makes_room [OF less.prems(3)]
    have "complete strict encode sp" using less.prems(1,3) by (simp add: joined_inv_def client_ready_def Let_def)
    then have "\<not> all_data (sp_written sp)" using less.prems(2) by (simp add: complete_def)
    then have "\<not> all_data (br_written ?r1)" "body_inv ?r1" using i1 by (simp_all add: joined_inv_def Let_def)
    then have less_2: "undelivered ?r2 < n" "client_ready ?r2"
      using pump_moves_on [of ?r1] room False less.prems(4) by simp_all
    then obtain r' where r': "fold (joined_step strict encode) (delivery (undelivered ?r2)) (sp, ?r2) = (sp, r')"
      "rp_ended (br_pump r')" "client_ready r'" "joined_inv strict encode (sp, r')"
      using less.IH [OF less_2(1) i2 less.prems(2) less_2(2) refl] by blast
    have rest: "\<exists>r''. fold (joined_step strict encode) (delivery k) (sp, q) = (sp, r'') \<and> rp_ended (br_pump r'') \<and>
        client_ready r'' \<and> joined_inv strict encode (sp, r'')"
      if "joined_inv strict encode (sp, q)" "rp_ended (br_pump q)" "client_ready q" for k q
      using that
    proof (induction k arbitrary: q)
      case (Suc k)
      have e: "body_step (PumpMoves False) (body_step ClientReads q) = body_step ClientReads q"
        using read_makes_room(4) [OF Suc.prems(3)] Suc.prems(2) by (simp add: body_step_def pump_response_def)
      have "joined_inv strict encode (sp, body_step ClientReads q)"
        using joined_step_inv [OF Suc.prems(1), of HostClientReads] by (simp add: joined_step_def)
      then show ?case
        using Suc.IH [of "body_step ClientReads q"] read_makes_room [OF Suc.prems(3)] Suc.prems(2) e
        by (simp add: delivery_def joined_step_def)
    qed (simp add: delivery_def)
    obtain k where k: "n = Suc (undelivered ?r2 + k)" using less_2(1) less_iff_Suc_add by auto
    have "delivery n = [HostClientReads, HostPumps False] @ delivery (undelivered ?r2) @ delivery k"
      by (simp add: k delivery_def replicate_add)
    then show ?thesis using steps r' rest [OF r'(4,2,3), of k] by simp
  qed
qed

text \<open>The channel of the client never holds more than it has places, whatever happens.\<close>

definition client_fits :: "body_run \<Rightarrow> bool" where
  "client_fits r \<longleftrightarrow> 0 < ch_cap (rp_client (br_pump r)) \<and> length (ch_buf (rp_client (br_pump r))) \<le> ch_cap (rp_client (br_pump r))"

lemma client_ready_fits: "client_ready r \<longleftrightarrow> client_fits r \<and> ch_rx_open (rp_client (br_pump r))"
  by (auto simp: client_ready_def client_fits_def)

lemma pump_fits: "client_fits r \<Longrightarrow> client_fits (body_step (PumpMoves b) r)"
  by (auto simp: client_fits_def body_step_def pump_response_def pump_send_def pump_recv_def pump_end_def ch_try_send_def ch_capacity_def
      ch_drop_sender_def Let_def split: prod.split option.split send_result.split recv_result.split stream_chunk.split)

lemma joined_fits: "client_fits (snd j) \<Longrightarrow> client_fits (snd (fold (joined_step strict encode) ops j))"
proof (induction ops arbitrary: j)
  case (Cons op ops)
  have "client_fits (snd (joined_step strict encode op j))"
    using Cons.prems pump_fits [of "snd j"]
    by (cases op) (auto simp: joined_step_def put_script_def client_fits_def body_step_def ch_recv_def ch_drop_receiver_def Let_def
        split: list.split)
  then show ?case using Cons.IH by simp
qed simp

text \<open>A turn of a pump with room, on a body whose end is not written: it sends what it holds, or takes the next chunk.\<close>

abbreviation stream_channel :: "body_run \<Rightarrow> stream_chunk channel" where
  "stream_channel r \<equiv> sm_channels (br_sm r) ! rp_channel (br_pump r)"

lemma pump_turn:
  assumes "body_inv r" "\<not> rp_ended (br_pump r)" "all_data (br_written r)" "client_ready r" "0 < ch_capacity (rp_client (br_pump r))"
  defines "r' \<equiv> body_step (PumpMoves False) r"
  shows "if rp_sending (br_pump r) = None then length (ch_buf (stream_channel r')) = length (ch_buf (stream_channel r)) - 1
    else rp_sending (br_pump r') = None \<and> length (ch_buf (stream_channel r')) = length (ch_buf (stream_channel r))"
    and "ch_cap (stream_channel r') = ch_cap (stream_channel r)"
proof -
  obtain taken where t: "pumping r taken" "wired r" using assms(1,2) by (auto simp: body_inv_shapes)
  have c: "rp_channel (br_pump r) < length (sm_channels (br_sm r))" using t(2) by (simp add: wired_def)
  have data: "all_data taken" "all_data (ch_buf (stream_channel r))"
    using t(1) assms(3) by (simp_all add: pumping_def all_data_def)
  have both: "(if rp_sending (br_pump r) = None then length (ch_buf (stream_channel r')) = length (ch_buf (stream_channel r)) - 1
      else rp_sending (br_pump r') = None \<and> length (ch_buf (stream_channel r')) = length (ch_buf (stream_channel r))) \<and>
    ch_cap (stream_channel r') = ch_cap (stream_channel r)"
  proof (cases "rp_sending (br_pump r)")
    case (Some x)
    obtain item last_item where x: "x = (item, last_item)" by fastforce
    have "\<not> last_item" using t(1) data Some x by (auto simp: pumping_def all_data_def split: bool.splits)
    then show ?thesis using Some x assms(2,4,5)
      by (simp add: r'_def body_step_def pump_response_def pump_send_def ch_try_send_def client_ready_def ch_capacity_def Let_def)
  next
    case None
    show ?thesis
    proof (cases "ch_buf (stream_channel r)")
      case Nil
      then show ?thesis using None assms(2,4) c
        by (auto simp: r'_def body_step_def pump_response_def pump_recv_def pump_end_def ch_recv_def ch_drop_receiver_def client_ready_def Let_def)
    next
      case (Cons chunk cs)
      then have "\<not> terminal chunk" using data(2) by (simp add: all_data_def)
      then obtain b where "chunk = Data b" by (cases chunk) (simp_all add: terminal_def)
      then show ?thesis using None assms(2,4) c Cons
        by (simp add: r'_def body_step_def pump_response_def pump_recv_def ch_recv_def client_ready_def Let_def)
    qed
  qed
  then show "if rp_sending (br_pump r) = None then length (ch_buf (stream_channel r')) = length (ch_buf (stream_channel r)) - 1
    else rp_sending (br_pump r') = None \<and> length (ch_buf (stream_channel r')) = length (ch_buf (stream_channel r))"
    and "ch_cap (stream_channel r') = ch_cap (stream_channel r)" by simp_all
qed

text \<open>Two turns of a client and a pump make room in the channel of the stream, so a script that waits for it goes on.\<close>

lemma writing_alive:
  assumes "joined_inv strict encode (sp, r)" "sp_phase sp = Writing chunk" "client_ready r"
  shows "\<not> rp_ended (br_pump r)" "all_data (br_written r)" "body_inv r"
    "stream_alive (rp_channel (br_pump r)) (sp, br_sm r)"
proof -
  have j: "body_inv r" "br_written r = sp_written sp" "script_inv strict encode (sp, br_sm r)" "ch_rx_open (rp_client (br_pump r))"
    using assms(1,3) by (simp_all add: joined_inv_def client_ready_def Let_def)
  then show data: "all_data (br_written r)" "body_inv r" using unfinished_data [OF j(3)] assms(2) by simp_all
  then show "\<not> rp_ended (br_pump r)" "stream_alive (rp_channel (br_pump r)) (sp, br_sm r)"
    using assms(1) j by (auto simp: joined_inv_def Let_def split: if_splits)
qed

lemma delivery_turn:
  assumes "joined_inv strict encode (sp, r)" "sp_phase sp = Writing chunk" "client_ready r"
  obtains r' where "fold (joined_step strict encode) [HostClientReads, HostPumps False] (sp, r) = (sp, r')"
    "joined_inv strict encode (sp, r')" "client_ready r'"
    "if rp_sending (br_pump r) = None then length (ch_buf (stream_channel r')) = length (ch_buf (stream_channel r)) - 1
     else rp_sending (br_pump r') = None \<and> length (ch_buf (stream_channel r')) = length (ch_buf (stream_channel r))"
    "ch_cap (stream_channel r') = ch_cap (stream_channel r)"
proof -
  let ?r1 = "body_step ClientReads r" and ?r2 = "body_step (PumpMoves False) (body_step ClientReads r)"
  have steps: "joined_step strict encode HostClientReads (sp, r) = (sp, ?r1)"
    "joined_step strict encode (HostPumps False) (sp, ?r1) = (sp, ?r2)" by (simp_all add: joined_step_def)
  have i1: "joined_inv strict encode (sp, ?r1)" using joined_step_inv [OF assms(1), of HostClientReads] steps by simp
  have i2: "joined_inv strict encode (sp, ?r2)" using joined_step_inv [OF i1, of "HostPumps False"] steps by simp
  note room = read_makes_room [OF assms(3)]
  note alive = writing_alive [OF i1 assms(2) room(1)]
  have same: "stream_channel ?r1 = stream_channel r" "rp_sending (br_pump ?r1) = rp_sending (br_pump r)"
    by (auto simp: body_step_def ch_recv_def Let_def split: list.split)
  have "client_ready ?r2"
    using room(1) pump_fits [of ?r1 False] host_same(4) [of False ?r1] by (simp add: client_ready_fits)
  then show ?thesis using that [OF _ i2] steps pump_turn [OF alive(3,1,2) room(1,2)] same by simp
qed

lemma room_is_made:
  assumes "joined_inv strict encode (sp, r)" "sp_phase sp = Writing chunk" "client_ready r"
  shows "sp_phase (fst (fold (joined_step strict encode) (delivery 2 @ [ScriptMoves RoomFires]) (sp, r))) = Reading"
proof -
  obtain r1 where r1: "fold (joined_step strict encode) [HostClientReads, HostPumps False] (sp, r) = (sp, r1)"
    "joined_inv strict encode (sp, r1)" "client_ready r1"
    "if rp_sending (br_pump r) = None then length (ch_buf (stream_channel r1)) = length (ch_buf (stream_channel r)) - 1
     else rp_sending (br_pump r1) = None \<and> length (ch_buf (stream_channel r1)) = length (ch_buf (stream_channel r))"
    "ch_cap (stream_channel r1) = ch_cap (stream_channel r)"
    by (rule delivery_turn [OF assms])
  obtain r2 where r2: "fold (joined_step strict encode) [HostClientReads, HostPumps False] (sp, r1) = (sp, r2)"
    "joined_inv strict encode (sp, r2)" "client_ready r2"
    "if rp_sending (br_pump r1) = None then length (ch_buf (stream_channel r2)) = length (ch_buf (stream_channel r1)) - 1
     else rp_sending (br_pump r2) = None \<and> length (ch_buf (stream_channel r2)) = length (ch_buf (stream_channel r1))"
    "ch_cap (stream_channel r2) = ch_cap (stream_channel r1)"
    by (rule delivery_turn [OF r1(2) assms(2) r1(3)])
  have "stream_alive (rp_channel (br_pump r)) (sp, br_sm r)" "all_data (sp_written sp)"
    using writing_alive [OF assms] assms(1) by (simp_all add: joined_inv_def Let_def)
  then have full: "length (ch_buf (stream_channel r)) < ch_cap (stream_channel r)" "2 \<le> ch_cap (stream_channel r)"
    by (simp_all add: stream_alive_def Let_def)
  have "length (ch_buf (stream_channel r2)) \<le> length (ch_buf (stream_channel r)) - 1"
    using r1(4) r2(4) by (auto split: if_splits)
  then have room: "Suc (length (ch_buf (stream_channel r2))) < ch_cap (stream_channel r2)" using full r1(5) r2(5) by simp
  have "stream_alive (rp_channel (br_pump r2)) (sp, br_sm r2)" using writing_alive [OF r2(2) assms(2) r2(3)] by simp
  from alive_write(2) [OF this, of "sp_stream sp" "Data chunk"] room \<open>all_data (sp_written sp)\<close>
  have "sp_phase (fst (script_write chunk (sp, br_sm r2))) = Reading"
    by (simp add: script_write_def response_stream_write_def terminal_def Let_def)
  moreover have "fold (joined_step strict encode) (delivery 2) (sp, r) = (sp, r2)"
    using r1(1) r2(1) by (simp add: delivery_def numeral_2_eq_2)
  ultimately show ?thesis using assms(2) by (simp add: joined_step_def script_step_def Let_def)
qed

section \<open>Properties\<close>

text \<open>C5: A body that the script streams reaches the client as its source gave it; the bytes of a chunk are those it has when
  the stream takes it, as a guest can change its buffer until then.  From a fresh stream on,
  whatever the source yields, whenever the host starts to read and however the script, the pump and the client
  take turns, what the client has read is a beginning of the bytes of the chunks the source gave, in
  order, followed by the failure if the source failed or gave a chunk that is none.  Once the pump has
  ended and the client is still there, the script is at its end and the client has or will read all of it: a
  body is never cut short without an error.  The end of the body is reported exactly once.\<close>

theorem guest_body_arrives:
  assumes "stream_body (StreamedBody reader) sm0 = (q0, Some i)" "ids_fresh sm0" "0 < sm_high_water_mark sm0"
    and "fold (script_step strict encode) evs q0 = (sp1, sm1)"
    and "read_response_object R n handle sm1 = (sm2, Ok (status, response))" "ht_body response = HttpStream p" "rp_stream p = i"
    and "fold (joined_step strict encode) ops (sp1, \<lparr>br_sm = sm2, br_pump = p, br_written = sp_written sp1, br_got = []\<rparr>) = (sp, r)"
  shows "(\<exists>rest. source_items strict encode sp = br_got r @ rest) \<and>
    (rp_ended (br_pump r) \<and> ch_rx_open (rp_client (br_pump r)) \<longrightarrow>
      sp_phase sp = Finished \<and> br_got r @ ch_buf (rp_client (br_pump r)) = source_items strict encode sp) \<and>
    sp_ends sp = (if sp_phase sp = Finished then 1 else 0)"
proof -
  have "script_alone strict encode i (length (sm_channels sm0)) (sp1, sm1)"
    using alone_run [OF alone_starts [OF assms(1-3)], of strict encode evs] assms(4) by simp
  from joined_run_inv [OF joined_starts [OF this assms(5-7)], of ops] assms(8)
  have "joined_inv strict encode (sp, r)" by simp
  from joined_body [OF this] show ?thesis by simp
qed

text \<open>A source that yields two chunks and an empty one, and then fails, with the host in between.\<close>

definition body_encode :: "string \<Rightarrow> bytes" where
  "body_encode s = map (\<lambda>c. of_nat (of_char c)) s"

definition body_start :: "script_pump \<times> stream_manager" where
  "body_start = fst (stream_body (StreamedBody (Inr ())) stream_manager_new)"

definition body_before :: "script_pump \<times> stream_manager" where
  "body_before = fold (script_step False body_encode) [ReadGives (ChU8 [7]), ReadGives (ChString [])] body_start"

definition body_moves :: "joined_op list" where
  "body_moves =
     [HostPumps False, HostPumps False, HostClientReads, ScriptMoves (ReadGives (ChString ''A'')), ScriptMoves (ReadFails ''gone''),
      HostPumps False, HostPumps False, HostPumps False, HostPumps False]"

definition body_after :: "script_pump \<times> body_run" where
  "body_after =
     fold (joined_step False body_encode) body_moves
       (fst body_before,
        \<lparr>br_sm = fst (read_response_object sample_readers 16 (Some sample_handle) (snd body_before)),
         br_pump = response_pump_new 16 1 0, br_written = sp_written (fst body_before), br_got = []\<rparr>)"

lemma stream_manager_new_ok: "ids_fresh stream_manager_new" "0 < sm_high_water_mark stream_manager_new"
  by (simp_all add: ids_fresh_def stream_manager_new_def with_high_water_mark_def DEFAULT_HIGH_WATER_MARK_def)

lemma body_read:
  "snd (read_response_object sample_readers 16 (Some sample_handle) (snd body_before)) =
   Ok (200, \<lparr>ht_status = 200, ht_headers = [], ht_body = HttpStream (response_pump_new 16 1 0)\<rparr>)"
  by code_simp

theorem guest_body_arrives_witness:
  "rp_ended (br_pump (snd body_after)) \<and> br_got (snd body_after) = [Ok [7]] \<and>
   br_got (snd body_after) @ ch_buf (rp_client (br_pump (snd body_after))) = [Ok [7], Ok [65], Err ''gone'']"
proof -
  let ?p = "response_pump_new 16 1 0"
  have start: "stream_body (StreamedBody (Inr ())) stream_manager_new = (body_start, Some 1)" by code_simp
  have read: "read_response_object sample_readers 16 (Some sample_handle) (snd body_before) =
      (fst (read_response_object sample_readers 16 (Some sample_handle) (snd body_before)),
       Ok (200, \<lparr>ht_status = 200, ht_headers = [], ht_body = HttpStream ?p\<rparr>))"
    using body_read by (metis prod.collapse)
  have run: "rp_ended (br_pump (snd body_after))" "ch_rx_open (rp_client (br_pump (snd body_after)))"
    "source_items False body_encode (fst body_after) = [Ok [7], Ok [65], Err ''gone'']" "br_got (snd body_after) = [Ok [7]]"
    by code_simp+
  have before: "fold (script_step False body_encode) [ReadGives (ChU8 [7]), ReadGives (ChString [])] body_start =
      (fst body_before, snd body_before)" by (simp add: body_before_def)
  have stream: "rp_stream ?p = 1" by (simp add: response_pump_new_def)
  have after: "fold (joined_step False body_encode) body_moves
      (fst body_before, \<lparr>br_sm = fst (read_response_object sample_readers 16 (Some sample_handle) (snd body_before)),
        br_pump = ?p, br_written = sp_written (fst body_before), br_got = []\<rparr>) = (fst body_after, snd body_after)"
    by (simp add: body_after_def)
  show ?thesis
    using guest_body_arrives [OF start stream_manager_new_ok before read _ stream after] run by simp
qed

text \<open>C19: A body that is written is delivered.  After any run as in the property above, however much of the body has passed by then,
  if the client is there: a script that waits for room, at its next try, writes its chunk after two turns of a client that reads and
  a pump that moves; and once the script is at its end, such turns bring the pump to its end within a number that is bounded
  by what the stream still holds, and the client then has, or finds in its channel, the whole body.\<close>

theorem written_body_is_delivered:
  assumes "stream_body (StreamedBody reader) sm0 = (q0, Some i)" "ids_fresh sm0" "0 < sm_high_water_mark sm0"
    and "fold (script_step strict encode) evs q0 = (sp1, sm1)"
    and "read_response_object R n handle sm1 = (sm2, Ok (status, response))" "ht_body response = HttpStream p" "rp_stream p = i" "0 < n"
    and "fold (joined_step strict encode) ops (sp1, \<lparr>br_sm = sm2, br_pump = p, br_written = sp_written sp1, br_got = []\<rparr>) = (sp, r)"
    and "ch_rx_open (rp_client (br_pump r))"
  shows "(\<forall>chunk. sp_phase sp = Writing chunk \<longrightarrow>
      sp_phase (fst (fold (joined_step strict encode) (delivery 2 @ [ScriptMoves RoomFires]) (sp, r))) = Reading) \<and>
    (sp_phase sp = Finished \<longrightarrow>
      (\<exists>r'. fold (joined_step strict encode) (delivery (undelivered r)) (sp, r) = (sp, r') \<and> rp_ended (br_pump r') \<and>
        br_got r' @ ch_buf (rp_client (br_pump r')) = source_items strict encode sp))"
proof -
  let ?c = "length (sm_channels sm0)"
  let ?r = "\<lparr>br_sm = sm2, br_pump = p, br_written = sp_written sp1, br_got = []\<rparr>"
  have alone: "script_alone strict encode i ?c (sp1, sm1)"
    using alone_run [OF alone_starts [OF assms(1-3)], of strict encode evs] assms(4) by simp
  have inv: "joined_inv strict encode (sp, r)"
    using joined_run_inv [OF joined_starts [OF alone assms(5-7)], of ops] assms(9) by simp
  obtain resp where read: "read_body R n resp sm1 = (sm2, HttpStream p)"
    using assms(5,6) by (auto simp: read_response_object_def Let_def split: option.splits prod.splits)
  have "p = response_pump_new n i ?c"
    using read assms(7) alone
    by (auto simp: read_body_def take_receiver_def script_alone_def stream_ok_def response_pump_new_def split: option.splits)
  then have "client_fits ?r" using assms(8) by (simp add: client_fits_def response_pump_new_def channel_new_def)
  then have ready: "client_ready r"
    using joined_fits [of "(sp1, ?r)" strict encode ops] assms(9,10) by (simp add: client_ready_fits)
  have "\<exists>r'. fold (joined_step strict encode) (delivery (undelivered r)) (sp, r) = (sp, r') \<and> rp_ended (br_pump r') \<and>
      br_got r' @ ch_buf (rp_client (br_pump r')) = source_items strict encode sp" if "sp_phase sp = Finished"
    using delivery_ends [OF inv that ready refl] joined_body(2) [of strict encode sp] by (auto simp: client_ready_def)
  then show ?thesis using room_is_made [OF inv _ ready] by blast
qed

text \<open>A source of three chunks and a stream that holds two: the third waits until the host has taken the first, and the guest changes it
  meanwhile.\<close>

definition body_small :: stream_manager where
  "body_small = stream_manager_new\<lparr>sm_high_water_mark := 2\<rparr>"

definition body_full :: "script_pump \<times> stream_manager" where
  "body_full =
     fold (script_step False body_encode)
       [ReadGives (ChU8 [7]), ReadGives (ChView (Some 2) [8, 9]), ReadGives (ChU8 [1]), ChunkChanges [2]]
       (fst (stream_body (StreamedBody (Inr ())) body_small))"

definition body_run_full :: "script_pump \<times> body_run" where
  "body_run_full =
     (fst body_full,
      \<lparr>br_sm = fst (read_response_object sample_readers 1 (Some sample_handle) (snd body_full)),
       br_pump = response_pump_new 1 1 0, br_written = sp_written (fst body_full), br_got = []\<rparr>)"

definition body_finished :: "script_pump \<times> body_run" where
  "body_finished = fold (joined_step False body_encode) (delivery 2 @ [ScriptMoves RoomFires, ScriptMoves ReadDone]) body_run_full"

theorem written_body_is_delivered_witness:
  "sp_phase (fst body_full) = Writing [2] \<and>
   sp_phase (fst (fold (joined_step False body_encode) (delivery 2 @ [ScriptMoves RoomFires]) body_run_full)) = Reading \<and>
   (\<exists>r. fold (joined_step False body_encode) (delivery (undelivered (snd body_finished))) body_finished = (fst body_finished, r) \<and>
    rp_ended (br_pump r) \<and> br_got r @ ch_buf (rp_client (br_pump r)) = [Ok [7], Ok [8, 9], Ok [2]])"
proof -
  let ?q0 = "fst (stream_body (StreamedBody (Inr ())) body_small)"
  let ?p = "response_pump_new 1 1 0"
  let ?read = "read_response_object sample_readers 1 (Some sample_handle) (snd body_full)"
  let ?resp = "\<lparr>ht_status = 200, ht_headers = [], ht_body = HttpStream ?p\<rparr>"
  have start: "stream_body (StreamedBody (Inr ())) body_small = (?q0, Some 1)" by code_simp
  have small: "ids_fresh body_small" "0 < sm_high_water_mark body_small"
    using stream_manager_new_ok by (simp_all add: body_small_def ids_fresh_def)
  have evs: "fold (script_step False body_encode)
      [ReadGives (ChU8 [7]), ReadGives (ChView (Some 2) [8, 9]), ReadGives (ChU8 [1]), ChunkChanges [2]] ?q0 =
      (fst body_full, snd body_full)" by (simp add: body_full_def)
  have "snd ?read = Ok (200, ?resp)" by code_simp
  then have read: "?read = (fst ?read, Ok (200, ?resp))" by (metis prod.collapse)
  have stream: "rp_stream ?p = 1" by (simp add: response_pump_new_def)
  have fin: "sp_phase (fst body_full) = Writing [2]" "sp_phase (fst body_finished) = Finished"
    "ch_rx_open (rp_client (br_pump (snd body_run_full)))" "ch_rx_open (rp_client (br_pump (snd body_finished)))"
    "source_items False body_encode (fst body_finished) = [Ok [7], Ok [8, 9], Ok [2]]" by code_simp+
  note runs = written_body_is_delivered [OF start small evs read _ stream zero_less_one, folded body_run_full_def]
  have "sp_phase (fst (fold (joined_step False body_encode) (delivery 2 @ [ScriptMoves RoomFires]) body_run_full)) = Reading"
    using runs [of "[]" "fst body_run_full" "snd body_run_full"] fin by (simp add: body_run_full_def)
  moreover have "\<exists>r. fold (joined_step False body_encode) (delivery (undelivered (snd body_finished))) body_finished = (fst body_finished, r) \<and>
      rp_ended (br_pump r) \<and> br_got r @ ch_buf (rp_client (br_pump r)) = [Ok [7], Ok [8, 9], Ok [2]]"
    using runs [of "delivery 2 @ [ScriptMoves RoomFires, ScriptMoves ReadDone]" "fst body_finished" "snd body_finished"] fin
    by (simp add: body_finished_def)
  ultimately show ?thesis using fin(1) by simp
qed

end
