(* ===== verification/Fetch_Event.thy ===== *)
theory Fetch_Event
  imports Execution_Properties Event_Readers
begin

text \<open>
  The events of a request from their start to their end, from \<open>src/src/execution_context.rs\<close>: \<open>trigger_fetch_event\<close>
  and \<open>trigger_task_event\<close> as state machines over the phases that \<open>Execution_Context\<close> polls and the readers of
  \<open>Event_Readers\<close>; and the worker of \<open>src/src/worker.rs\<close> that runs one event to its end.
\<close>

section \<open>A fetch event\<close>

record fetch_init =
  fi_url :: string
  fi_method :: string
  fi_headers :: "(string \<times> string) list"
  fi_body :: request_body
  fi_upgrade :: "nat option"

text \<open>Where the event waits: for its turn to call the handler, for the response, for its turn to read the
  response, and for the streams of a response with a status; or it has ended.\<close>

datatype fetch_phase =
    Triggering
  | AwaitingResponse
  | ReadingResponse
  | AwaitingStreams u16
  | FetchEnded "(string, u16) result"

text \<open>\<open>fe_guest\<close> is the state of the guest's JavaScript, \<open>fe_sent\<close> what went to the client, each response with the messages
  the event loop had got before it.\<close>

record 'g fetch_event =
  fe_phase :: fetch_phase
  fe_context :: exec_context
  fe_guest :: 'g
  fe_body :: request_body
  fe_body_stream :: "stream_id option"
  fe_marks :: listener_marks
  fe_sent :: "(http_response \<times> scheduler_message list) list"

text \<open>Phase 0: the marks are those of no handle, as \<open>exec\<close> sets them, and a streamed body is pumped into a stream
  of the context.\<close>

definition fetch_start :: "fetch_init \<Rightarrow> 'g \<Rightarrow> exec_context \<Rightarrow> 'g fetch_event" where
  "fetch_start init g c =
     (let e = \<lparr>fe_phase = Triggering, fe_context = c, fe_guest = g, fe_body = fi_body init, fe_body_stream = None,
               fe_marks = read_marks None, fe_sent = []\<rparr>
      in case fi_body init of
           BodyStream _ \<Rightarrow>
             (let (sm, i) = create_stream ''request_body'' (xc_streams c)
              in e\<lparr>fe_context := c\<lparr>xc_streams := sm\<rparr>, fe_body := BodyNone, fe_body_stream := Some i\<rparr>)
         | _ \<Rightarrow> e)"

text \<open>The variables of \<open>await_event_loop\<close> at its start.\<close>

definition enter_loop :: "exec_context \<Rightarrow> exec_context" where
  "enter_loop c = c\<lparr>xc_hit := False, xc_abort_at := None\<rparr>"

text \<open>The readings and the JavaScript of one poll: the effect of what runs in the turn of a phase, and the
  value of the handle where it is read.\<close>

record phase_env =
  ph_poll :: poll_env
  ph_js :: js_effect
  ph_handle :: "js_value option"

definition trigger_phase ::
    "('g, handle) dispatcher \<Rightarrow> fetch_init \<Rightarrow> phase_env \<Rightarrow> 'g fetch_event \<Rightarrow> 'g fetch_event" where
  "trigger_phase D init ph e =
     (let (g, body, res) =
        trigger_fetch_handler D (fi_url init) (fi_method init) (fi_headers init) (fe_body e) (fe_body_stream e) (fe_guest e)
      in case poll_phase (ph_poll ph) (ph_js ph) (map_sum id Some res) (fe_context e) of
           (c, PollPending) \<Rightarrow> e\<lparr>fe_context := c\<rparr>
         | (c, PollReady (Inl message)) \<Rightarrow>
             e\<lparr>fe_context := c, fe_guest := g, fe_body := body, fe_phase := FetchEnded (Err message)\<rparr>
         | (c, PollReady (Inr _)) \<Rightarrow>
             e\<lparr>fe_context := enter_loop c, fe_guest := g, fe_body := body, fe_phase := AwaitingResponse\<rparr>)"

definition loop_phase ::
    "phase_env \<Rightarrow> wall_clock \<Rightarrow> event_loop_exit \<Rightarrow> nat option \<Rightarrow> fetch_phase \<Rightarrow> 'g fetch_event \<Rightarrow> 'g fetch_event" where
  "loop_phase ph wall condition abort_config then_phase e =
     (case poll_event_loop (ph_poll ph) wall condition abort_config (fe_context e) of
        (c, PollPending) \<Rightarrow> e\<lparr>fe_context := c\<rparr>
      | (c, PollReady (Inl message)) \<Rightarrow> e\<lparr>fe_context := c, fe_phase := FetchEnded (Err message)\<rparr>
      | (c, PollReady (Inr _)) \<Rightarrow> e\<lparr>fe_context := c, fe_phase := then_phase\<rparr>)"

text \<open>The upgrade is settled before the response goes out, and a refusal sends none.\<close>

definition answer_phase ::
    "fetch_init \<Rightarrow> u16 \<Rightarrow> http_response \<Rightarrow> ws_id option \<Rightarrow> 'g fetch_event \<Rightarrow> 'g fetch_event" where
  "answer_phase init status response socket e =
     (case take_upgrade socket (fi_upgrade init) status (fe_context e) of
        (c, Inl refusal) \<Rightarrow> e\<lparr>fe_context := c, fe_phase := FetchEnded (Err refusal)\<rparr>
      | (c, Inr _) \<Rightarrow>
          e\<lparr>fe_context := enter_loop c, fe_sent := fe_sent e @ [(response, xc_sent c)], fe_phase := AwaitingStreams status\<rparr>)"

definition read_phase :: "'j readers \<Rightarrow> nat \<Rightarrow> fetch_init \<Rightarrow> phase_env \<Rightarrow> 'g fetch_event \<Rightarrow> 'g fetch_event" where
  "read_phase R buffer_size init ph e =
     (let (sm, answer) = read_response_object R buffer_size (ph_handle ph) (xc_streams (fe_context e))
      in case poll_phase (ph_poll ph) (ph_js ph) (map_sum id (\<lambda>_. None) answer) (fe_context e) of
           (c, PollPending) \<Rightarrow> e\<lparr>fe_context := c\<rparr>
         | (c, PollReady _) \<Rightarrow>
             (let e = e\<lparr>fe_context := c\<lparr>xc_streams := sm\<rparr>\<rparr>
              in case answer of
                   Inl message \<Rightarrow> e\<lparr>fe_phase := FetchEnded (Err message)\<rparr>
                 | Inr (status, response) \<Rightarrow>
                     answer_phase init status response (read_response_socket (ph_handle ph))
                       (e\<lparr>fe_marks := read_marks (ph_handle ph)\<rparr>)))"

definition fetch_poll ::
    "('g, handle) dispatcher \<Rightarrow> 'j readers \<Rightarrow> nat \<Rightarrow> fetch_init \<Rightarrow> wall_clock \<Rightarrow> phase_env \<Rightarrow> 'g fetch_event \<Rightarrow> 'g fetch_event" where
  "fetch_poll D R buffer_size init wall ph e =
     (case fe_phase e of
        Triggering \<Rightarrow> trigger_phase D init ph e
      | AwaitingResponse \<Rightarrow> loop_phase ph wall ResponseReady None ReadingResponse e
      | ReadingResponse \<Rightarrow> read_phase R buffer_size init ph e
      | AwaitingStreams status \<Rightarrow>
          loop_phase ph wall StreamsComplete (Some abort_config_default) (FetchEnded (Ok status)) e
      | FetchEnded _ \<Rightarrow> e)"

section \<open>A task event\<close>

datatype task_phase = TaskTriggering | AwaitingHandler | ReadingTask | TaskEnded "(string, unit) result"

record ('g, 'j) task_event =
  te_phase :: task_phase
  te_context :: exec_context
  te_guest :: 'g
  te_results :: "'j task_result list"

definition task_start :: "'g \<Rightarrow> exec_context \<Rightarrow> ('g, 'j) task_event" where
  "task_start g c = \<lparr>te_phase = TaskTriggering, te_context = c, te_guest = g, te_results = []\<rparr>"

text \<open>The pairs of the task close before its result is read, and the result goes out whatever it is.\<close>

definition task_poll ::
    "'j readers \<Rightarrow> (string \<Rightarrow> 'j task_result) \<Rightarrow> ('g, handle) dispatcher \<Rightarrow> 'j task_init \<Rightarrow> wall_clock \<Rightarrow> phase_env \<Rightarrow>
     ('g, 'j) task_event \<Rightarrow> ('g, 'j) task_event" where
  "task_poll R task_err D init wall ph e =
     (case te_phase e of
        TaskTriggering \<Rightarrow>
          (let (g, res) = trigger_task_handler R D init (te_guest e)
           in case poll_phase (ph_poll ph) (ph_js ph) (map_sum id Some res) (te_context e) of
                (c, PollPending) \<Rightarrow> e\<lparr>te_context := c\<rparr>
              | (c, PollReady (Inl message)) \<Rightarrow> e\<lparr>te_context := c, te_guest := g, te_phase := TaskEnded (Err message)\<rparr>
              | (c, PollReady (Inr _)) \<Rightarrow> e\<lparr>te_context := enter_loop c, te_guest := g, te_phase := AwaitingHandler\<rparr>)
      | AwaitingHandler \<Rightarrow>
          (case poll_event_loop (ph_poll ph) wall HandlerComplete None (te_context e) of
             (c, PollPending) \<Rightarrow> e\<lparr>te_context := c\<rparr>
           | (c, PollReady (Inl message)) \<Rightarrow> e\<lparr>te_context := c, te_phase := TaskEnded (Err message)\<rparr>
           | (c, PollReady (Inr _)) \<Rightarrow>
               e\<lparr>te_context := send_scheduler (WebSocketUpgrade None) c, te_phase := ReadingTask\<rparr>)
      | ReadingTask \<Rightarrow>
          (case poll_phase (ph_poll ph) (ph_js ph) (Ok None) (te_context e) of
             (c, PollPending) \<Rightarrow> e\<lparr>te_context := c\<rparr>
           | (c, PollReady _) \<Rightarrow>
               e\<lparr>te_context := c, te_results := te_results e @ [read_task_result R task_err (ph_handle ph)],
                 te_phase := TaskEnded (Ok ())\<rparr>)
      | TaskEnded _ \<Rightarrow> e)"

section \<open>The worker\<close>

text \<open>\<open>Worker::exec\<close>: the flag of an abort is read before \<open>reset\<close> clears it.  The runs of the event, of the socket
  and of the background work are arguments, as in \<open>exec\<close>; \<open>threw\<close> and \<open>js\<close> are what the clear function did.\<close>

definition worker_exec ::
    "event_env \<Rightarrow> event_env \<Rightarrow> event_env \<Rightarrow> nat option \<Rightarrow> nat option \<Rightarrow> js_effect \<Rightarrow> string option \<Rightarrow> event \<Rightarrow>
     (timeout_guard \<Rightarrow> exec_context \<Rightarrow> exec_context \<times> (string, unit) result) \<Rightarrow>
     (exec_context \<Rightarrow> exec_context \<times> (string, unit) result) \<Rightarrow>
     (timeout_guard \<Rightarrow> exec_context \<Rightarrow> exec_context \<times> (string, unit) result) \<Rightarrow> exec_context \<Rightarrow>
     exec_context \<times> (termination_reason, unit) result" where
  "worker_exec ev_reset ev_exec ev_drain cpu_start cpu_end js threw task trigger socket_loop event_loop c =
     (if xc_aborted c then (c, Err Aborted)
      else case reset ev_reset cpu_start cpu_end js threw c of
        (c, Inl e) \<Rightarrow> (c, Err (Other e))
      | (c, Inr _) \<Rightarrow>
          (case exec ev_exec task trigger socket_loop (begin_request_scope None c) of
             (c, Inl reason) \<Rightarrow> (c, Err reason)
           | (c, Inr _) \<Rightarrow> drain_waituntil ev_drain event_loop c))"

text \<open>\<open>WorkerBuilder\<close>: a script and the operations are required, in this order; the limits have a default.\<close>

record ('s, 'o, 'l) worker_builder =
  wb_script :: "'s option"
  wb_ops :: "'o option"
  wb_limits :: "'l option"

definition worker_builder_new :: "('s, 'o, 'l) worker_builder" where
  "worker_builder_new = \<lparr>wb_script = None, wb_ops = None, wb_limits = None\<rparr>"

definition worker_build ::
    "'l \<Rightarrow> ('s \<Rightarrow> 'l \<Rightarrow> 'o \<Rightarrow> (termination_reason, 'w) result) \<Rightarrow> ('s, 'o, 'l) worker_builder \<Rightarrow> (termination_reason, 'w) result" where
  "worker_build default_limits new_with_ops b =
     (case wb_script b of
        None \<Rightarrow> Err (InitializationError ''Script is required'')
      | Some script \<Rightarrow>
          (case wb_ops b of
             None \<Rightarrow> Err (InitializationError ''Operations handle is required'')
           | Some ops \<Rightarrow> new_with_ops script (case wb_limits b of None \<Rightarrow> default_limits | Some l \<Rightarrow> l) ops))"

section \<open>What the phases leave alone\<close>

lemma phase_sent_keeps [simp]:
  "xc_sent (apply_js f c) = xc_sent c" "xc_sent (begin_guard env c) = xc_sent c" "xc_sent (drop_guard env c) = xc_sent c"
  "xc_sent (fst (begin_turn_wall env wall c)) = xc_sent c" "xc_sent (drop_turn_wall g c) = xc_sent c"
  "xc_sent (take_hit g c) = xc_sent c" "xc_sent (unlock_waiter c) = xc_sent c"
  "xc_socket (begin_guard env c) = xc_socket c" "xc_socket (drop_guard env c) = xc_socket c"
  "xc_socket (fst (begin_turn_wall env wall c)) = xc_socket c" "xc_socket (drop_turn_wall g c) = xc_socket c"
  "xc_socket (take_hit g c) = xc_socket c" "xc_socket (unlock_waiter c) = xc_socket c"
  by (simp_all add: apply_js_def arrive_def begin_guard_def drop_guard_def guard_begin_def guard_drop_def begin_turn_wall_def
      drop_turn_wall_def take_hit_def unlock_waiter_def Let_def split: wall_clock.split option.split prod.split)

abbreviation said :: "exec_context \<Rightarrow> scheduler_message list \<times> ws_id option" where
  "said c \<equiv> (xc_sent c, xc_socket c)"

lemma rounds_say: "said (fst (poll_rounds env x a n c)) = said c"
proof (induction n arbitrary: c)
  case (Suc n)
  obtain c1 r where d: "drain_and_process env (MAX_COALESCE_ROUNDS - Suc n) c = (c1, r)" by fastforce
  then have c1: "said c1 = said c" by (auto simp: drain_and_process_def Let_def split: if_splits)
  obtain c2 b where e: "check_exit_with_abort env x a c1 = (c2, b)" by fastforce
  then have "said c2 = said c" using c1
    by (auto simp: check_exit_with_abort_def Let_def split: if_splits option.splits prod.splits)
  with Suc [of c2] c1 d e show ?case by (cases r; cases b) simp_all
qed simp

lemma poll_turn_says: "said (fst (poll_turn env wall x a c)) = said c"
proof -
  obtain c1 g where w: "begin_turn_wall env wall c = (c1, g)" by fastforce
  then have c1: "said c1 = said c" using phase_sent_keeps(4,10) [of env wall c] by simp
  obtain c2 ro where rounds: "poll_rounds env x a MAX_COALESCE_ROUNDS (begin_guard env c1) = (c2, ro)" by fastforce
  then have "said c2 = said c" using rounds_say [of env x a MAX_COALESCE_ROUNDS "begin_guard env c1"] c1 by simp
  then show ?thesis using c1 rounds w by (simp add: poll_turn_def Let_def split: round_outcome.split)
qed

lemma poll_event_loop_says: "said (fst (poll_event_loop env wall x a c)) = said c"
proof -
  have e: "said (expire_event wall c) = said c" for c by (simp add: expire_event_def split: wall_clock.split)
  show ?thesis
    using poll_turn_says e
    by (auto simp: poll_event_loop_def try_lock_def Let_def split: option.split)
qed

lemma poll_phase_says: "said (fst (poll_phase env js answer c)) = said c"
  by (auto simp: poll_phase_def try_lock_def Let_def split: option.split sum.split)

section \<open>The answer\<close>

text \<open>The pair that a response carries: the socket of the response and the upgrade of the request, if it has both.\<close>

definition pair_of :: "fetch_init \<Rightarrow> js_value option \<Rightarrow> (ws_id \<times> nat) option" where
  "pair_of init h =
     (case (read_response_socket h, fi_upgrade init) of (Some ws, Some u) \<Rightarrow> Some (ws, u) | _ \<Rightarrow> None)"

text \<open>Whether a response fits its request: a socket needs an upgrade, and a 101 needs a socket.\<close>

definition fits :: "fetch_init \<Rightarrow> js_value option \<Rightarrow> u16 \<Rightarrow> bool" where
  "fits init h status \<longleftrightarrow>
     (read_response_socket h \<noteq> None \<longrightarrow> fi_upgrade init \<noteq> None) \<and> (status = 101 \<longrightarrow> read_response_socket h \<noteq> None)"

text \<open>What a response that went out leaves, where \<open>hs\<close> are the handles the polls found: the response, its marks and its
  pair are those of one handle, the event loop was told this pair and nothing else, and it was told before the client got
  the response.\<close>

definition answered ::
    "'j readers \<Rightarrow> nat \<Rightarrow> fetch_init \<Rightarrow> js_value option set \<Rightarrow> exec_context \<Rightarrow> u16 \<Rightarrow> 'g fetch_event \<Rightarrow> bool" where
  "answered R n init hs c status e \<longleftrightarrow>
     (\<exists>h sm sm' response. h \<in> hs \<and> read_response_object R n h sm = (sm', Ok (status, response)) \<and> fits init h status \<and>
        fe_sent e = [(response, xc_sent c @ [WebSocketUpgrade (pair_of init h)])] \<and>
        xc_sent (fe_context e) = xc_sent c @ [WebSocketUpgrade (pair_of init h)] \<and>
        xc_socket (fe_context e) = map_option fst (pair_of init h) \<and> fe_marks e = read_marks h)"

definition unanswered :: "exec_context \<Rightarrow> 'g fetch_event \<Rightarrow> bool" where
  "unanswered c e \<longleftrightarrow> fe_sent e = [] \<and> said (fe_context e) = said c"

text \<open>A response that does not fit: no client gets it, and every pair closes.\<close>

definition refused ::
    "'j readers \<Rightarrow> nat \<Rightarrow> fetch_init \<Rightarrow> js_value option set \<Rightarrow> exec_context \<Rightarrow> 'g fetch_event \<Rightarrow> bool" where
  "refused R n init hs c e \<longleftrightarrow>
     (\<exists>h sm sm' status response. h \<in> hs \<and> read_response_object R n h sm = (sm', Ok (status, response)) \<and> \<not> fits init h status) \<and>
     fe_sent e = [] \<and> xc_sent (fe_context e) = xc_sent c @ [WebSocketUpgrade None] \<and> xc_socket (fe_context e) = None"

definition fetch_inv ::
    "'j readers \<Rightarrow> nat \<Rightarrow> fetch_init \<Rightarrow> js_value option set \<Rightarrow> exec_context \<Rightarrow> 'g fetch_event \<Rightarrow> bool" where
  "fetch_inv R n init hs c e =
     (case fe_phase e of
        AwaitingStreams status \<Rightarrow> answered R n init hs c status e
      | FetchEnded (Inr status) \<Rightarrow> answered R n init hs c status e
      | FetchEnded (Inl _) \<Rightarrow> unanswered c e \<or> refused R n init hs c e \<or> (\<exists>status. answered R n init hs c status e)
      | _ \<Rightarrow> unanswered c e)"

lemma enter_loop_says [simp]: "xc_sent (enter_loop c) = xc_sent c" "xc_socket (enter_loop c) = xc_socket c"
  by (simp_all add: enter_loop_def)

lemma answer_phase_inv:
  assumes "unanswered c e" "h \<in> hs" "read_response_object R n h sm = (sm', Ok (status, response))" "fe_marks e = read_marks h"
  shows "fetch_inv R n init hs c (answer_phase init status response (read_response_socket h) e)"
proof (cases "fits init h status")
  case True
  then have "take_upgrade (read_response_socket h) (fi_upgrade init) status (fe_context e) =
      (send_scheduler (WebSocketUpgrade (pair_of init h)) ((fe_context e)\<lparr>xc_socket := map_option fst (pair_of init h)\<rparr>), Ok ())"
    by (auto simp: fits_def take_upgrade_def upgrade_decision_def pair_of_def Let_def split: option.splits)
  then show ?thesis using assms True
    by (auto simp: answer_phase_def fetch_inv_def answered_def unanswered_def send_scheduler_def)
next
  case False
  then have "\<exists>m. take_upgrade (read_response_socket h) (fi_upgrade init) status (fe_context e) =
      (send_scheduler (WebSocketUpgrade None) ((fe_context e)\<lparr>xc_socket := None\<rparr>), Err m)"
    by (auto simp: fits_def take_upgrade_def upgrade_decision_def Let_def split: option.splits)
  then obtain m where "take_upgrade (read_response_socket h) (fi_upgrade init) status (fe_context e) =
      (send_scheduler (WebSocketUpgrade None) ((fe_context e)\<lparr>xc_socket := None\<rparr>), Err m)" by blast
  moreover have "\<exists>h sm sm' status response. h \<in> hs \<and> read_response_object R n h sm = (sm', Ok (status, response)) \<and> \<not> fits init h status"
    using assms(2,3) False by blast
  ultimately show ?thesis using assms(1)
    by (simp add: answer_phase_def fetch_inv_def refused_def unanswered_def send_scheduler_def)
qed

lemma read_phase_inv:
  assumes "unanswered c e" "fe_phase e = ReadingResponse" "ph_handle ph \<in> hs"
  shows "fetch_inv R n init hs c (read_phase R n init ph e)"
proof -
  obtain sm answer where r: "read_response_object R n (ph_handle ph) (xc_streams (fe_context e)) = (sm, answer)" by fastforce
  obtain c1 res where p: "poll_phase (ph_poll ph) (ph_js ph) (map_sum id (\<lambda>_. None) answer) (fe_context e) = (c1, res)" by fastforce
  then have c1: "said c1 = said c" using poll_phase_says [of "ph_poll ph" "ph_js ph" _ "fe_context e"] assms(1)
    by (metis fst_conv unanswered_def)
  then have u: "unanswered c (e\<lparr>fe_context := c1\<lparr>xc_streams := sm\<rparr>, fe_marks := m\<rparr>)" "unanswered c (e\<lparr>fe_context := c1\<rparr>)"
    "unanswered c (e\<lparr>fe_context := c1\<lparr>xc_streams := sm\<rparr>\<rparr>)" for m
    using assms(1) by (simp_all add: unanswered_def)
  show ?thesis
  proof (cases "res = PollPending")
    case True
    then show ?thesis using r p u(2) assms(2) by (simp add: read_phase_def fetch_inv_def)
  next
    case False
    then obtain x where x: "res = PollReady x" by (cases res) auto
    show ?thesis
    proof (cases answer)
      case (Inl m)
      then show ?thesis using r p x u(3) by (simp add: read_phase_def fetch_inv_def unanswered_def)
    next
      case (Inr a)
      obtain status response where a: "a = (status, response)" by fastforce
      have "read_response_object R n (ph_handle ph) (xc_streams (fe_context e)) = (sm, Ok (status, response))" using r Inr a by simp
      from answer_phase_inv [OF u(1) assms(3) this] show ?thesis using r p x Inr a by (simp add: read_phase_def)
    qed
  qed
qed

lemma trigger_phase_inv:
  assumes "unanswered c e" "fe_phase e = Triggering"
  shows "fetch_inv R n init hs c (trigger_phase D init ph e)"
proof -
  obtain g body res where t: "trigger_fetch_handler D (fi_url init) (fi_method init) (fi_headers init) (fe_body e)
      (fe_body_stream e) (fe_guest e) = (g, body, res)" by (metis prod_cases3)
  obtain c1 r where p: "poll_phase (ph_poll ph) (ph_js ph) (map_sum id Some res) (fe_context e) = (c1, r)" by fastforce
  then have "said c1 = said c" using poll_phase_says [of "ph_poll ph" "ph_js ph" _ "fe_context e"] assms(1)
    by (metis fst_conv unanswered_def)
  then show ?thesis using t p assms
    by (auto simp: trigger_phase_def fetch_inv_def unanswered_def split: poll.split sum.split)
qed

lemma loop_phase_inv:
  assumes "fetch_inv R n init hs c e"
    "fe_phase e = AwaitingResponse \<and> next_phase = ReadingResponse \<or>
     (\<exists>status. fe_phase e = AwaitingStreams status \<and> next_phase = FetchEnded (Ok status))"
  shows "fetch_inv R n init hs c (loop_phase ph wall x a next_phase e)"
proof -
  obtain c1 r where p: "poll_event_loop (ph_poll ph) wall x a (fe_context e) = (c1, r)" by fastforce
  then have c1: "said c1 = said (fe_context e)" using poll_event_loop_says [of "ph_poll ph" wall x a "fe_context e"] by simp
  have "answered R n init hs c status (e\<lparr>fe_context := c1, fe_phase := f\<rparr>) = answered R n init hs c status e"
    "unanswered c (e\<lparr>fe_context := c1, fe_phase := f\<rparr>) = unanswered c e"
    "answered R n init hs c status (e\<lparr>fe_context := c1\<rparr>) = answered R n init hs c status e"
    "unanswered c (e\<lparr>fe_context := c1\<rparr>) = unanswered c e" for f status
    using c1 by (simp_all add: answered_def unanswered_def)
  then show ?thesis using p assms
    by (auto simp: loop_phase_def fetch_inv_def split: poll.split sum.split)
qed

lemma fetch_poll_inv:
  assumes "fetch_inv R n init hs c e" "ph_handle ph \<in> hs"
  shows "fetch_inv R n init hs c (fetch_poll D R n init wall ph e)"
proof (cases "fe_phase e")
  case Triggering
  then show ?thesis using assms trigger_phase_inv by (simp add: fetch_poll_def fetch_inv_def [of _ _ _ _ _ e])
next
  case ReadingResponse
  then show ?thesis using assms read_phase_inv [OF _ ReadingResponse] by (simp add: fetch_poll_def fetch_inv_def [of _ _ _ _ _ e])
qed (use assms loop_phase_inv [OF assms(1)] in \<open>simp_all add: fetch_poll_def\<close>)

lemma fetch_run_inv:
  "fetch_inv R n init (ph_handle ` set phs) c (fold (fetch_poll D R n init wall) phs (fetch_start init g c))"
proof -
  have "fetch_inv R n init hs c (fetch_start init g c)" for hs
    by (auto simp: fetch_start_def fetch_inv_def unanswered_def Let_def split: request_body.split prod.split)
  moreover have "fetch_inv R n init hs c e \<Longrightarrow> ph_handle ` set phs \<subseteq> hs \<Longrightarrow> fetch_inv R n init hs c (fold (fetch_poll D R n init wall) phs e)" for hs e
    by (induction phs arbitrary: e) (simp_all add: fetch_poll_inv)
  ultimately show ?thesis by blast
qed

definition task_inv :: "scheduler_message list \<Rightarrow> ('g, 'j) task_event \<Rightarrow> bool" where
  "task_inv ms e =
     (case te_phase e of
        TaskEnded (Inr _) \<Rightarrow> length (te_results e) = 1 \<and> xc_sent (te_context e) = ms @ [WebSocketUpgrade None]
      | ReadingTask \<Rightarrow> te_results e = [] \<and> xc_sent (te_context e) = ms @ [WebSocketUpgrade None]
      | _ \<Rightarrow> te_results e = [] \<and> xc_sent (te_context e) = ms)"

lemma task_poll_inv:
  assumes "task_inv ms e"
  shows "task_inv ms (task_poll R task_err D init wall ph e)"
proof -
  have phase: "xc_sent (fst (poll_phase (ph_poll ph) (ph_js ph) a (te_context e))) = xc_sent (te_context e)" for a
    using poll_phase_says [of "ph_poll ph" "ph_js ph" a "te_context e"] by simp
  have loop: "xc_sent (fst (poll_event_loop (ph_poll ph) wall x a (te_context e))) = xc_sent (te_context e)" for x a
    using poll_event_loop_says [of "ph_poll ph" wall x a "te_context e"] by simp
  obtain g res where t: "trigger_task_handler R D init (te_guest e) = (g, res)" by fastforce
  show ?thesis
    using assms phase [of "map_sum id Some res"] phase [of "Ok None"] loop [of HandlerComplete None] t
    by (cases "te_phase e")
       (auto simp: task_inv_def task_poll_def send_scheduler_def split: prod.splits poll.splits sum.splits)
qed

section \<open>Properties\<close>

text \<open>C10: A fetch event answers its client at most once, and a success answers it exactly once.  Over any
  sequence of polls: until the response is read, nothing went to the client or the event loop.  From then on exactly one
  response went out, the one of a handle that a poll found, with the status of the event; before it, and once, the event
  loop was told the pair that this handle carries, its own socket with the upgrade of this request.  A response
  with a socket goes out only for an upgrade, and a 101 only with a socket: any other is refused, all pairs close and the client
  gets nothing.  An event that failed sent no response, or failed after it.\<close>

theorem fetch_answers_once:
  assumes "e = fold (fetch_poll D R n init wall) phs (fetch_start init g c)" "hs = ph_handle ` set phs"
  shows "case fe_phase e of
      AwaitingStreams status \<Rightarrow> answered R n init hs c status e
    | FetchEnded (Inr status) \<Rightarrow> answered R n init hs c status e
    | FetchEnded (Inl _) \<Rightarrow> unanswered c e \<or> refused R n init hs c e \<or> (\<exists>status. answered R n init hs c status e)
    | _ \<Rightarrow> unanswered c e"
  using fetch_run_inv [of R n init phs c D wall g] unfolding assms fetch_inv_def .

text \<open>A request whose handler answers 200: its handle, the polls of its phases, and its end.\<close>

definition fetch_dispatcher :: "(unit, handle) dispatcher" where
  "fetch_dispatcher =
     \<lparr>dp_clear_async_context = id, dp_call = (\<lambda>_ _ g. (g, Some Execution_Properties.sample_handle)), dp_checkpoint = id,
      dp_end_dispatch = (\<lambda>_. None), dp_request = None\<rparr>"

definition fetch_example :: fetch_init where
  "fetch_example = \<lparr>fi_url = ''http://a'', fi_method = ''GET'', fi_headers = [], fi_body = BodyNone, fi_upgrade = None\<rparr>"

definition fetch_phase_env :: phase_env where
  "fetch_phase_env =
     \<lparr>ph_poll = sample_env 5, ph_js = idle_js,
      ph_handle = Some (JObject [(''answer'', JPromise JsFulfilled (JObject [(''status'', JNumber 200)]))])\<rparr>"

definition fetch_run :: "unit fetch_event" where
  "fetch_run =
     fold (fetch_poll fetch_dispatcher sample_readers 16 fetch_example unlimited) (replicate 4 fetch_phase_env)
       (fetch_start fetch_example () sample_context)"

theorem fetch_answers_once_witness:
  "fe_phase fetch_run = AwaitingStreams 200 \<and> length (fe_sent fetch_run) = 1 \<and>
   answered sample_readers 16 fetch_example {ph_handle fetch_phase_env} sample_context 200 fetch_run"
proof -
  have "fe_phase fetch_run = AwaitingStreams 200" "length (fe_sent fetch_run) = 1" by code_simp+
  then show ?thesis using fetch_answers_once [OF fetch_run_def refl] by simp
qed

text \<open>A task event reports exactly one result if it succeeds and none if it fails, and closes the
  pairs of the task before it reads the result.\<close>

lemma task_reports_once:
  fixes e :: "('g, 'j) task_event"
  assumes "e = fold (task_poll R task_err D init wall) phs (task_start g c)"
  shows "case te_phase e of
      TaskEnded (Inr _) \<Rightarrow> length (te_results e) = 1 \<and> xc_sent (te_context e) = xc_sent c @ [WebSocketUpgrade None]
    | ReadingTask \<Rightarrow> te_results e = [] \<and> xc_sent (te_context e) = xc_sent c @ [WebSocketUpgrade None]
    | _ \<Rightarrow> te_results e = [] \<and> xc_sent (te_context e) = xc_sent c"
proof -
  have "task_inv (xc_sent c) e"
    unfolding assms
  proof (induction phs rule: rev_induct)
    case Nil
    then show ?case by (simp add: task_inv_def task_start_def)
  qed (simp add: task_poll_inv)
  then show ?thesis unfolding task_inv_def .
qed

definition task_run :: "(unit, unit) task_event" where
  "task_run =
     fold (task_poll sample_readers (\<lambda>m. \<lparr>tr_success = False, tr_data = None, tr_error = Some m\<rparr>) fetch_dispatcher
         \<lparr>ti_task_id = ''t'', ti_attempt = 1, ti_payload = None, ti_source = None\<rparr> unlimited)
       (replicate 3 fetch_phase_env) (task_start () sample_context)"

end
