(* ===== verification/WebSocket_Script.thy ===== *)
theory WebSocket_Script
  imports Native_Ops WebSocket
begin

text \<open>
  The WebSocket class the guest sees, from the script in \<open>src/src/runtime/bindings/websocket.rs\<close>, over the native
  functions of \<open>Native_Ops\<close>: its states, the frames it sends and the events it dispatches.  The URL parser
  and conversions that run JavaScript are arguments.  A call that a listener makes is a step after the dispatch.
\<close>

section \<open>Numbers\<close>

text \<open>\<open>v < k\<close> and \<open>v > k\<close> for a number, as the language compares: NaN is neither.\<close>

definition f64_is_nan :: "u64 \<Rightarrow> bool" where
  "f64_is_nan bits \<longleftrightarrow> f64_exponent bits = 2047 \<and> f64_fraction bits \<noteq> 0"

definition f64_has_fraction :: "u64 \<Rightarrow> bool" where
  "f64_has_fraction bits \<longleftrightarrow>
     (let e = f64_exponent bits; m = f64_fraction bits + (if e = 0 then 0 else 2 ^ 52)
      in e < 1075 \<and> m mod 2 ^ (1075 - max e 1) \<noteq> 0)"

definition number_below :: "js_value \<Rightarrow> nat \<Rightarrow> bool" where
  "number_below v k =
     (case v of
        JNumber n \<Rightarrow> n < int k
      | JDouble bits \<Rightarrow>
          if f64_is_nan bits then False
          else (case f64_trunc bits of
                  None \<Rightarrow> f64_negative bits
                | Some n \<Rightarrow> n < int k \<or> (n = int k \<and> f64_negative bits \<and> f64_has_fraction bits))
      | _ \<Rightarrow> False)"

definition number_above :: "js_value \<Rightarrow> nat \<Rightarrow> bool" where
  "number_above v k =
     (case v of
        JNumber n \<Rightarrow> int k < n
      | JDouble bits \<Rightarrow>
          if f64_is_nan bits then False
          else (case f64_trunc bits of
                  None \<Rightarrow> \<not> f64_negative bits
                | Some n \<Rightarrow> int k < n \<or> (n = int k \<and> \<not> f64_negative bits \<and> f64_has_fraction bits))
      | _ \<Rightarrow> False)"

section \<open>The object\<close>

datatype ready_state = CONNECTING | OPEN | CLOSING | CLOSED

datatype ws_js_event = JsOpen | JsMessage payload | JsClose u16 string bool | JsError string

definition event_type :: "ws_js_event \<Rightarrow> string" where
  "event_type e =
     (case e of JsOpen \<Rightarrow> ''open'' | JsMessage _ \<Rightarrow> ''message'' | JsClose _ _ _ \<Rightarrow> ''close'' | JsError _ \<Rightarrow> ''error'')"

text \<open>\<open>wo_ws\<close> is null until the socket has its id; \<open>wo_handlers\<close> are the functions in the \<open>on...\<close> properties;
  \<open>wo_called\<close> lists the calls of handlers and listeners, and \<open>wo_dispatched\<close> the events.\<close>

record ws_object =
  wo_ws :: js_value
  wo_url :: "string option"
  wo_accepted :: bool
  wo_closing :: bool
  wo_state :: ready_state
  wo_listeners :: "(string, guest_fn list) hash_map"
  wo_handlers :: "(string, guest_fn) hash_map"
  wo_called :: "(guest_fn \<times> ws_js_event) list"
  wo_dispatched :: "ws_js_event list"

definition no_listeners :: "(string, guest_fn list) hash_map" where
  "no_listeners = [(''message'', []), (''close'', []), (''error'', []), (''open'', [])]"

definition ws_object_new :: "js_value \<Rightarrow> string option \<Rightarrow> ready_state \<Rightarrow> ws_object" where
  "ws_object_new ws url state =
     \<lparr>wo_ws = ws, wo_url = url, wo_accepted = False, wo_closing = False, wo_state = state, wo_listeners = no_listeners,
      wo_handlers = [], wo_called = [], wo_dispatched = []\<rparr>"

text \<open>An exception of a handler or listener is reported and dropped.\<close>

definition ws_dispatch :: "ws_js_event \<Rightarrow> ws_object \<Rightarrow> ws_object" where
  "ws_dispatch e ob =
     (let t = event_type e;
          fs = (case hm_get (wo_handlers ob) t of None \<Rightarrow> [] | Some f \<Rightarrow> [f]) @
               (case hm_get (wo_listeners ob) t of None \<Rightarrow> [] | Some ls \<Rightarrow> ls)
      in ob\<lparr>wo_called := wo_called ob @ map (\<lambda>f. (f, e)) fs, wo_dispatched := wo_dispatched ob @ [e]\<rparr>)"

definition add_event_listener :: "string \<Rightarrow> guest_fn \<Rightarrow> ws_object \<Rightarrow> ws_object" where
  "add_event_listener t f ob =
     (case hm_get (wo_listeners ob) t of
        None \<Rightarrow> ob
      | Some ls \<Rightarrow> ob\<lparr>wo_listeners := hm_insert t (ls @ [f]) (wo_listeners ob)\<rparr>)"

definition remove_event_listener :: "string \<Rightarrow> guest_fn \<Rightarrow> ws_object \<Rightarrow> ws_object" where
  "remove_event_listener t f ob =
     (case hm_get (wo_listeners ob) t of
        None \<Rightarrow> ob
      | Some ls \<Rightarrow> ob\<lparr>wo_listeners := hm_insert t (filter (\<lambda>l. l \<noteq> f) ls) (wo_listeners ob)\<rparr>)"

section \<open>Construction\<close>

text \<open>What \<open>new URL\<close> answers: the protocol and the fragment; None where it throws.\<close>

type_synonym url_parser = "string \<Rightarrow> (string \<times> string) option"

datatype dom_exception =
    TypeErr string | SyntaxErr string | InvalidState string | InvalidAccess string | NativeThrew js_exception

definition quoted :: "string \<Rightarrow> string" where
  "quoted t = [CHR 0x27] @ t @ [CHR 0x27]"

definition CONSTRUCT_FAILED :: string where
  "CONSTRUCT_FAILED = ''Failed to construct '' @ quoted ''WebSocket'' @ '': ''"

definition execute_failed :: "string \<Rightarrow> string" where
  "execute_failed method = ''Failed to execute '' @ quoted method @ '' on '' @ quoted ''WebSocket'' @ '': ''"

definition ws_target :: "url_parser \<Rightarrow> string \<Rightarrow> (dom_exception, string) result" where
  "ws_target parse url =
     (case parse url of
        None \<Rightarrow> Err (SyntaxErr (CONSTRUCT_FAILED @ ''The URL '' @ quoted url @ '' is invalid.''))
      | Some (protocol, hash) \<Rightarrow>
          if hash \<noteq> []
          then Err (SyntaxErr (CONSTRUCT_FAILED @ ''The URL contains a fragment identifier ('' @ quoted hash @ '').''))
          else if protocol = ''http:'' then Ok (''ws://'' @ drop 7 url)
          else if protocol = ''https:'' then Ok (''wss://'' @ drop 8 url)
          else if protocol \<noteq> ''ws:'' \<and> protocol \<noteq> ''wss:''
          then Err (SyntaxErr (CONSTRUCT_FAILED @ ''The URL'' @ [CHR 0x27] @ ''s scheme must be either '' @ quoted ''ws'' @ '' or '' @
            quoted ''wss'' @ ''.''))
          else Ok url)"

text \<open>The object is \<open>CONNECTING\<close> and asks for the connection; \<open>resolve\<close> and \<open>reject\<close> are its two callbacks.\<close>

definition ws_construct ::
    "url_parser \<Rightarrow> serde \<Rightarrow> payload \<Rightarrow> native_arg \<Rightarrow> guest_fn \<Rightarrow> guest_fn \<Rightarrow> string option \<Rightarrow> native_state \<Rightarrow>
     native_state \<times> (dom_exception, ws_object) result" where
  "ws_construct parse D no_headers headers resolve reject arg s =
     (case arg of
        None \<Rightarrow> (s, Err (TypeErr (CONSTRUCT_FAILED @ ''1 argument required, but only 0 present.'')))
      | Some url \<Rightarrow>
          (case ws_target parse url of
             Inl e \<Rightarrow> (s, Err e)
           | Inr target \<Rightarrow>
               (case native_websocket_connect D no_headers (ArgJs (JString target)) headers (ArgFn resolve) (ArgFn reject) s of
                  (s, Throws e) \<Rightarrow> (s, Err (NativeThrew e))
                | (s, Returns _) \<Rightarrow> (s, Ok (ws_object_new JNull (Some target) CONNECTING)))))"

text \<open>\<open>__adopt\<close> and the two ends of a pair: the client end only names the socket.\<close>

definition ws_adopt :: "js_value \<Rightarrow> ws_object" where
  "ws_adopt ws = ws_object_new ws None OPEN"

definition ws_pair :: "native_state \<Rightarrow> native_state \<times> js_value \<times> ws_object" where
  "ws_pair s =
     (case native_websocket_pair s of
        (s, Returns ws) \<Rightarrow> (s, ws, ws_adopt ws)
      | (s, Throws _) \<Rightarrow> (s, JUndefined, ws_adopt JUndefined))"

section \<open>Methods\<close>

type_synonym ws_script = "ws_object \<times> native_state"

text \<open>\<open>dispatcher\<close> is the function that the socket's events reach.\<close>

definition start_receiving :: "guest_fn \<Rightarrow> ws_script \<Rightarrow> ws_script \<times> dom_exception option" where
  "start_receiving dispatcher q =
     (if wo_accepted (fst q) then (q, None)
      else
        (let ob = (fst q)\<lparr>wo_accepted := True\<rparr>;
             (s, r) = native_websocket_accept (ArgJs (wo_ws ob)) (ArgFn dispatcher) (snd q)
         in ((ob, s), case r of Throws e \<Rightarrow> Some (NativeThrew e) | Returns _ \<Rightarrow> None)))"

definition ws_send :: "serde \<Rightarrow> native_arg \<Rightarrow> ws_script \<Rightarrow> ws_script \<times> dom_exception option" where
  "ws_send D data q =
     (if wo_state (fst q) = CONNECTING then (q, Some (InvalidState (execute_failed ''send'' @ ''Still in CONNECTING state.'')))
      else if wo_state (fst q) \<noteq> OPEN then (q, None)
      else
        (let (s, r) = native_websocket_send D (ArgJs (wo_ws (fst q))) data (snd q)
         in ((fst q, s), case r of Throws e \<Rightarrow> Some (NativeThrew e) | Returns _ \<Rightarrow> None)))"

text \<open>The arguments of \<open>close\<close>: \<open>ca_to_number\<close> is what the comparisons read of a code that is no number, None
  where that throws; \<open>ca_reason_bytes\<close> is the length of the reason in bytes.\<close>

record close_args =
  ca_code :: js_value
  ca_to_number :: "js_value option"
  ca_reason :: "js_value option"
  ca_reason_bytes :: nat

definition code_number :: "close_args \<Rightarrow> js_value option" where
  "code_number a = (case ca_code a of JNumber n \<Rightarrow> Some (JNumber n) | JDouble b \<Rightarrow> Some (JDouble b) | _ \<Rightarrow> ca_to_number a)"

definition close_code_refused :: "close_args \<Rightarrow> js_value \<Rightarrow> bool" where
  "close_code_refused a n \<longleftrightarrow>
     ca_code a \<noteq> JUndefined \<and> ca_code a \<noteq> JNumber 1000 \<and> (number_below n 3000 \<or> number_above n 4999)"

definition ws_close :: "serde \<Rightarrow> close_args \<Rightarrow> ws_script \<Rightarrow> ws_script \<times> dom_exception option" where
  "ws_close D a q =
     (case (if ca_code a = JUndefined \<or> ca_code a = JNumber 1000 then Some (ca_code a) else code_number a) of
        None \<Rightarrow> (q, Some (NativeThrew Conversion))
      | Some n \<Rightarrow>
          if close_code_refused a n then (q, Some (InvalidAccess (execute_failed ''close'' @ ''The code must be 1000 or in the range 3000-4999.'')))
          else if ca_reason a \<noteq> None \<and> ca_reason_bytes a > 123
          then (q, Some (SyntaxErr (execute_failed ''close'' @ ''The close reason must not exceed 123 bytes.'')))
          else if wo_state (fst q) \<in> {CLOSING, CLOSED} then (q, None)
          else if wo_state (fst q) = CONNECTING
          then (((fst q)\<lparr>wo_closing := True, wo_state := CLOSING\<rparr>, snd q), None)
          else
            (let ob = (fst q)\<lparr>wo_state := CLOSING\<rparr>;
                 (s, r) = native_websocket_close D (ArgJs (wo_ws ob))
                   (ArgJs (if ca_code a = JUndefined then JNumber 1000 else ca_code a))
                   (ArgJs (case ca_reason a of None \<Rightarrow> JString [] | Some v \<Rightarrow> v)) (snd q)
             in ((ob, s), case r of Throws e \<Rightarrow> Some (NativeThrew e) | Returns _ \<Rightarrow> None)))"

section \<open>What the host answers\<close>

definition ws_connected :: "serde \<Rightarrow> guest_fn \<Rightarrow> js_value \<Rightarrow> ws_script \<Rightarrow> ws_script" where
  "ws_connected D dispatcher ws q =
     (let ob = (fst q)\<lparr>wo_ws := ws\<rparr> in
      if wo_closing ob
      then (let (s, r) = native_websocket_close D (ArgJs ws) (ArgJs (JNumber 1000)) (ArgJs (JString [])) (snd q)
            in case r of
                 Throws _ \<Rightarrow> (ob, s)
               | Returns _ \<Rightarrow> (ws_dispatch (JsClose 1006 [] False) (ob\<lparr>wo_state := CLOSED\<rparr>), s))
      else (case start_receiving dispatcher (ob, snd q) of
              (q, Some _) \<Rightarrow> q
            | (q, None) \<Rightarrow> (ws_dispatch JsOpen ((fst q)\<lparr>wo_state := OPEN\<rparr>), snd q)))"

definition ws_refused :: "string option \<Rightarrow> ws_script \<Rightarrow> ws_script" where
  "ws_refused err q =
     (let message = (case err of None \<Rightarrow> ''connection failed'' | Some e \<Rightarrow> e);
          ob = (fst q)\<lparr>wo_state := CLOSED\<rparr>
      in (ws_dispatch (JsClose 1006 message False) (ws_dispatch (JsError message) ob), snd q))"

definition ws_event :: "ws_incoming \<Rightarrow> ws_script \<Rightarrow> ws_script" where
  "ws_event e q =
     (case e of
        InMessage m \<Rightarrow> (ws_dispatch (JsMessage m) (fst q), snd q)
      | InClosed code reason \<Rightarrow> (ws_dispatch (JsClose code reason True) ((fst q)\<lparr>wo_state := CLOSED\<rparr>), snd q)
      | InError message \<Rightarrow> (ws_dispatch (JsError message) (fst q), snd q))"

section \<open>Runs\<close>

text \<open>What the guest calls and the host answers, in any order; the connection is answered once, and events come
  while the dispatcher of the socket is in the table.\<close>

definition ws_listens :: "ws_script \<Rightarrow> bool" where
  "ws_listens q =
     (case socket_id (ArgJs (wo_ws (fst q))) of
        None \<Rightarrow> False
      | Some ws \<Rightarrow> hm_get (tb_ws_event (nv_tables (snd q))) ws \<noteq> None)"

datatype ws_op =
    OpAccept | OpSend native_arg | OpClose close_args | OpListen string guest_fn | OpUnlisten string guest_fn
  | HostConnected ws_id | HostRefused "string option" | HostEvent ws_incoming

definition ws_op_step :: "serde \<Rightarrow> guest_fn \<Rightarrow> ws_op \<Rightarrow> ws_script \<times> bool \<Rightarrow> ws_script \<times> bool" where
  "ws_op_step D dispatcher op r =
     (let q = fst r; pending = snd r in
      case op of
        OpAccept \<Rightarrow> (fst (start_receiving dispatcher q), pending)
      | OpSend data \<Rightarrow> (fst (ws_send D data q), pending)
      | OpClose a \<Rightarrow> (fst (ws_close D a q), pending)
      | OpListen t f \<Rightarrow> ((add_event_listener t f (fst q), snd q), pending)
      | OpUnlisten t f \<Rightarrow> ((remove_event_listener t f (fst q), snd q), pending)
      | HostConnected ws \<Rightarrow> if pending then (ws_connected D dispatcher (js_int (uint ws)) q, False) else r
      | HostRefused err \<Rightarrow> if pending then (ws_refused err q, False) else r
      | HostEvent e \<Rightarrow> if ws_listens q then (ws_event e q, pending) else r)"

definition state_rank :: "ready_state \<Rightarrow> nat" where
  "state_rank st = (case st of CONNECTING \<Rightarrow> 0 | OPEN \<Rightarrow> 1 | CLOSING \<Rightarrow> 2 | CLOSED \<Rightarrow> 3)"

text \<open>The frames among the messages to the event loop, and the shape they have: data, then at most one close,
  with a code that a close frame of the guest may have.\<close>

definition frame_messages :: "scheduler_message list \<Rightarrow> scheduler_message list" where
  "frame_messages ms = filter (\<lambda>m. case m of WebSocketSend _ _ \<Rightarrow> True | WebSocketClose _ _ _ \<Rightarrow> True | _ \<Rightarrow> False) ms"

definition data_message :: "scheduler_message \<Rightarrow> bool" where
  "data_message m = (case m of WebSocketSend _ _ \<Rightarrow> True | _ \<Rightarrow> False)"

definition close_message :: "scheduler_message \<Rightarrow> bool" where
  "close_message m = (case m of WebSocketClose _ code _ \<Rightarrow> close_code_ok code | _ \<Rightarrow> False)"

definition frames_shape :: "bool \<Rightarrow> scheduler_message list \<Rightarrow> bool" where
  "frames_shape may_close ms \<longleftrightarrow>
     (\<exists>data last. frame_messages ms = data @ last \<and> list_all data_message data \<and> list_all close_message last \<and>
        length last \<le> (if may_close then 1 else 0))"

definition ws_script_inv :: "ws_script \<times> bool \<Rightarrow> bool" where
  "ws_script_inv r \<longleftrightarrow>
     (let ob = fst (fst r); ms = nv_sent (snd (fst r)); pending = snd r in
      frames_shape (wo_state ob \<in> {CLOSING, CLOSED}) ms \<and>
      (wo_state ob = CONNECTING \<longrightarrow> \<not> wo_closing ob) \<and>
      (pending \<longrightarrow> wo_ws ob = JNull \<and> frame_messages ms = [] \<and> (wo_state ob = CONNECTING \<or> wo_state ob = CLOSING \<and> wo_closing ob)) \<and>
      (wo_state ob = CONNECTING \<longrightarrow> pending \<or> frame_messages ms = []))"

lemma frames_shape_open: "frames_shape False ms \<longleftrightarrow> list_all data_message (frame_messages ms)"
  by (auto simp: frames_shape_def)

lemma frames_shape_data:
  assumes "frames_shape False ms" "data_message m"
  shows "frames_shape False (ms @ [m])"
  using assms by (cases m) (simp_all add: frames_shape_open frame_messages_def data_message_def)

lemma frames_shape_close:
  assumes "frames_shape False ms" "close_message m"
  shows "frames_shape True (ms @ [m])"
proof -
  have "frame_messages (ms @ [m]) = frame_messages ms @ [m]"
    using assms(2) by (cases m) (simp_all add: frame_messages_def close_message_def)
  then show ?thesis using assms unfolding frames_shape_def [of True] frames_shape_open
    by (intro exI [of _ "frame_messages ms"] exI [of _ "[m]"]) simp
qed

lemma frames_shape_mono: "frames_shape b ms \<Longrightarrow> frames_shape True ms"
proof (cases b)
  case False
  assume "frames_shape b ms"
  then have "list_all data_message (frame_messages ms)" using False by (simp add: frames_shape_open)
  then show ?thesis unfolding frames_shape_def by (intro exI [of _ "frame_messages ms"] exI [of _ "[]"]) simp
qed simp

lemma frames_shape_empty: "frame_messages ms = [] \<Longrightarrow> frames_shape b ms"
  by (simp add: frames_shape_def)

lemma frame_messages_other:
  "frame_messages (ms @ [WebSocketAccept ws]) = frame_messages ms" "frames_shape b (ms @ [WebSocketAccept ws]) = frames_shape b ms"
  by (simp_all add: frame_messages_def frames_shape_def)

text \<open>A code that passes the check of the script and the conversion of the native function.\<close>

lemma close_code_checked:
  assumes "arg_number (ArgJs (if ca_code a = JUndefined then JNumber 1000 else ca_code a)) = Some n"
    "code_number a = Some m \<Longrightarrow> ca_code a \<noteq> JUndefined \<Longrightarrow> ca_code a \<noteq> JNumber 1000 \<Longrightarrow> \<not> (number_below m 3000 \<or> number_above m 4999)"
    "ca_code a \<noteq> JUndefined \<Longrightarrow> ca_code a \<noteq> JNumber 1000 \<Longrightarrow> code_number a = Some m"
  shows "close_code_ok (as_u16 n)"
proof -
  have k: "close_code_ok (as_u16 (JNumber 1000))"
    by (simp add: close_code_ok_def as_u16_def as_u64_def saturate_u64_def Let_def)
  have range: "close_code_ok (let n = word_of_int i :: u64 in if n \<le> 0xFFFF then ucast n else 0xFFFF)"
    if "3000 \<le> i" "i \<le> 4999" for i
  proof -
    have u: "uint (word_of_int i :: u64) = i" using that by (simp add: uint_word_of_int)
    have "(word_of_int i :: u64) \<le> 0xFFFF" using that by (simp add: word_le_def u)
    moreover have "uint (ucast (word_of_int i :: u64) :: u16) = i" using that by (simp add: uint_word_of_int unsigned_ucast_eq u take_bit_int_eq_self)
    ultimately show ?thesis using that by (simp add: close_code_ok_def word_le_def)
  qed
  show ?thesis
  proof (cases "ca_code a = JUndefined \<or> ca_code a = JNumber 1000")
    case True
    then show ?thesis using assms(1) k by (auto simp: arg_number_def)
  next
    case False
    then have m: "code_number a = Some m" "\<not> number_below m 3000" "\<not> number_above m 4999" using assms(2,3) by auto
    show ?thesis
    proof (cases "ca_code a")
      case (JNumber i)
      have "n = JNumber i" "m = JNumber i" using assms(1) m(1) unfolding JNumber arg_number_def code_number_def by auto
      then show ?thesis using m(2,3) range [of i]
        by (simp add: number_below_def number_above_def as_u16_def as_u64_def saturate_u64_def)
    next
      case (JDouble b)
      have n: "n = JDouble b" "m = JDouble b" using assms(1) m(1) unfolding JDouble arg_number_def code_number_def by auto
      show ?thesis
      proof (cases "f64_trunc b")
        case None
        then have "f64_exponent b = 2047" by (simp add: f64_trunc_def Let_def split: if_splits)
        moreover have "f64_is_nan b" using m(2,3) n None by (auto simp: number_below_def number_above_def split: if_splits)
        ultimately have "f64_fraction b \<noteq> 0" by (simp add: f64_is_nan_def)
        then show ?thesis using n None by (simp add: close_code_ok_def as_u16_def as_u64_def f64_as_u64_def Let_def)
      next
        case (Some i)
        then have "\<not> f64_is_nan b" by (auto simp: f64_trunc_def f64_is_nan_def Let_def split: if_splits)
        then have "3000 \<le> i" "i \<le> 4999" using m(2,3) n Some by (auto simp: number_below_def number_above_def)
        then show ?thesis using n Some range [of i] by (simp add: as_u16_def as_u64_def f64_as_u64_def saturate_u64_def)
      qed
    qed (use False assms(1) in \<open>auto simp: arg_number_def\<close>)
  qed
qed

lemma dispatch_keeps [simp]:
  "wo_state (ws_dispatch e ob) = wo_state ob" "wo_closing (ws_dispatch e ob) = wo_closing ob" "wo_ws (ws_dispatch e ob) = wo_ws ob"
  "wo_accepted (ws_dispatch e ob) = wo_accepted ob" "wo_dispatched (ws_dispatch e ob) = wo_dispatched ob @ [e]"
  by (simp_all add: ws_dispatch_def Let_def)

lemma listener_keeps [simp]:
  "wo_ws (add_event_listener t f ob) = wo_ws ob" "wo_ws (remove_event_listener t f ob) = wo_ws ob"
  "wo_state (add_event_listener t f ob) = wo_state ob" "wo_closing (add_event_listener t f ob) = wo_closing ob"
  "wo_state (remove_event_listener t f ob) = wo_state ob" "wo_closing (remove_event_listener t f ob) = wo_closing ob"
  by (simp_all add: add_event_listener_def remove_event_listener_def split: option.split)

text \<open>What the native functions of a socket send.\<close>

lemma native_accept_sent:
  "nv_sent (fst (native_websocket_accept a d s)) = nv_sent s \<or> (\<exists>ws. nv_sent (fst (native_websocket_accept a d s)) = nv_sent s @ [WebSocketAccept ws])"
  by (auto simp: native_websocket_accept_def throw_type_error_def native_send_def split: option.split native_arg.split)

lemma native_send_sent:
  "nv_sent (fst (native_websocket_send D a d s)) = nv_sent s \<or>
   (\<exists>m. data_message m \<and> nv_sent (fst (native_websocket_send D a d s)) = nv_sent s @ [m])"
  by (auto simp: native_websocket_send_def throw_type_error_def native_send_def data_message_def split: option.split)

lemma native_close_sent:
  "nv_sent (fst (native_websocket_close D a c r s)) = nv_sent s \<or>
   (\<exists>n ws reason. arg_number c = Some n \<and> nv_sent (fst (native_websocket_close D a c r s)) = nv_sent s @ [WebSocketClose ws (as_u16 n) reason])"
  by (auto simp: native_websocket_close_def throw_type_error_def native_send_def split: option.split)

lemma start_receiving_effect:
  "wo_ws (fst (fst (start_receiving d q))) = wo_ws (fst q)" "wo_state (fst (fst (start_receiving d q))) = wo_state (fst q)" "wo_closing (fst (fst (start_receiving d q))) = wo_closing (fst q)"
  "frame_messages (nv_sent (snd (fst (start_receiving d q)))) = frame_messages (nv_sent (snd q))"
  "frames_shape b (nv_sent (snd (fst (start_receiving d q)))) = frames_shape b (nv_sent (snd q))"
  using native_accept_sent [of "ArgJs (wo_ws (fst q))" "ArgFn d" "snd q"]
  by (auto simp: start_receiving_def Let_def frame_messages_other case_prod_beta)

lemma ws_send_inv:
  assumes "ws_script_inv (q, pending)"
  shows "ws_script_inv (fst (ws_send D data q), pending) \<and> wo_state (fst (fst (ws_send D data q))) = wo_state (fst q)"
proof (cases "wo_state (fst q) = OPEN")
  case True
  then have "frames_shape False (nv_sent (snd q))" "\<not> pending" using assms by (simp_all add: ws_script_inv_def Let_def)
  then have "frames_shape False (nv_sent (fst (native_websocket_send D (ArgJs (wo_ws (fst q))) data (snd q))))"
    using native_send_sent [of D "ArgJs (wo_ws (fst q))" data "snd q"] frames_shape_data by auto
  then show ?thesis using True \<open>\<not> pending\<close> by (simp add: ws_send_def ws_script_inv_def Let_def case_prod_beta)
next
  case False
  then show ?thesis using assms by (simp add: ws_send_def)
qed

lemma ws_close_inv:
  assumes "ws_script_inv (q, pending)"
  shows "ws_script_inv (fst (ws_close D a q), pending) \<and> state_rank (wo_state (fst q)) \<le> state_rank (wo_state (fst (fst (ws_close D a q))))"
proof (cases "fst (ws_close D a q) = q")
  case True
  then show ?thesis using assms by simp
next
  case changed: False
  then obtain m where m: "(if ca_code a = JUndefined \<or> ca_code a = JNumber 1000 then Some (ca_code a) else code_number a) = Some m"
    and ok: "\<not> close_code_refused a m" "\<not> (ca_reason a \<noteq> None \<and> ca_reason_bytes a > 123)" "wo_state (fst q) \<notin> {CLOSING, CLOSED}"
    by (auto simp: ws_close_def split: option.splits if_splits)
  show ?thesis
  proof (cases "wo_state (fst q) = CONNECTING")
    case True
    then have "fst (ws_close D a q) = ((fst q)\<lparr>wo_closing := True, wo_state := CLOSING\<rparr>, snd q)"
      using m ok by (auto simp: ws_close_def)
    then show ?thesis using assms True by (auto simp: ws_script_inv_def state_rank_def frames_shape_mono frames_shape_empty Let_def)
  next
    case False
    then have st: "wo_state (fst q) = OPEN" using ok(3) by (cases "wo_state (fst q)") auto
    let ?c = "ArgJs (if ca_code a = JUndefined then JNumber 1000 else ca_code a)"
    let ?r = "ArgJs (case ca_reason a of None \<Rightarrow> JString [] | Some v \<Rightarrow> v)"
    have q': "fst (ws_close D a q) =
        ((fst q)\<lparr>wo_state := CLOSING\<rparr>, fst (native_websocket_close D (ArgJs (wo_ws (fst q))) ?c ?r (snd q)))"
      using m ok st by (auto simp: ws_close_def Let_def case_prod_beta)
    have open_q: "frames_shape False (nv_sent (snd q))" "\<not> pending" using assms st by (simp_all add: ws_script_inv_def Let_def)
    have "close_message (WebSocketClose ws (as_u16 n) reason)" if "arg_number ?c = Some n" for n ws reason
      using close_code_checked [OF that, of m] m ok(1) by (auto simp: close_message_def close_code_refused_def split: if_splits)
    then have "frames_shape True (nv_sent (snd (fst (ws_close D a q))))"
      using native_close_sent [of D "ArgJs (wo_ws (fst q))" ?c ?r "snd q"] open_q frames_shape_close frames_shape_mono q' by auto
    then show ?thesis using q' st open_q(2) by (simp add: ws_script_inv_def state_rank_def Let_def)
  qed
qed

lemma ws_connected_inv:
  assumes "ws_script_inv (q, True)"
  shows "ws_script_inv (ws_connected D d ws q, False) \<and> state_rank (wo_state (fst q)) \<le> state_rank (wo_state (fst (ws_connected D d ws q)))"
proof -
  let ?ob = "(fst q)\<lparr>wo_ws := ws\<rparr>"
  have e: "frame_messages (nv_sent (snd q)) = []" and st: "wo_state (fst q) = CONNECTING \<or> wo_state (fst q) = CLOSING \<and> wo_closing (fst q)"
    "wo_state (fst q) = CONNECTING \<Longrightarrow> \<not> wo_closing (fst q)"
    using assms by (auto simp: ws_script_inv_def Let_def)
  show ?thesis
  proof (cases "wo_closing (fst q)")
    case True
    let ?n = "native_websocket_close D (ArgJs ws) (ArgJs (JNumber 1000)) (ArgJs (JString [])) (snd q)"
    have "arg_number (ArgJs (JNumber 1000)) = Some n \<Longrightarrow> close_message (WebSocketClose w (as_u16 n) reason)" for n w reason
      by (auto simp: arg_number_def close_message_def close_code_ok_def as_u16_def as_u64_def saturate_u64_def Let_def)
    then have "frames_shape True (nv_sent (fst ?n))"
      using native_close_sent [of D "ArgJs ws" "ArgJs (JNumber 1000)" "ArgJs (JString [])" "snd q"]
        frames_shape_close [of "nv_sent (snd q)"] frames_shape_empty [OF e] by auto
    moreover have "wo_state (fst q) = CLOSING" using st True by auto
    ultimately show ?thesis using True
      by (auto simp: ws_connected_def ws_script_inv_def state_rank_def Let_def case_prod_beta split: native_result.split)
  next
    case False
    then have c: "wo_state (fst q) = CONNECTING" using st by auto
    note r = start_receiving_effect [where d = d and q = "(?ob, snd q)"]
    show ?thesis using False c r frames_shape_empty e
      by (auto simp: ws_connected_def ws_script_inv_def state_rank_def Let_def split: prod.splits option.splits)
  qed
qed

lemma ws_op_step_inv:
  assumes "ws_script_inv r"
  shows "ws_script_inv (ws_op_step D d op r) \<and>
    state_rank (wo_state (fst (fst r))) \<le> state_rank (wo_state (fst (fst (ws_op_step D d op r))))"
proof -
  obtain q pending where r: "r = (q, pending)" by fastforce
  show ?thesis
  proof (cases op)
    case OpAccept
    then show ?thesis using assms r start_receiving_effect [where d = d and q = q] by (simp add: ws_op_step_def ws_script_inv_def Let_def)
  next
    case (OpSend data)
    then show ?thesis using assms r ws_send_inv [of q pending D data] by (simp add: ws_op_step_def)
  next
    case (OpClose a)
    then show ?thesis using assms r ws_close_inv [of q pending D a] by (simp add: ws_op_step_def)
  next
    case (HostConnected ws)
    then show ?thesis using assms r ws_connected_inv [of q D d "js_int (uint ws)"] by (cases pending) (simp_all add: ws_op_step_def)
  next
    case (HostRefused err)
    then show ?thesis using assms r
      by (auto simp: ws_op_step_def ws_refused_def ws_script_inv_def state_rank_def frames_shape_empty Let_def split: ready_state.split)
  next
    case (HostEvent e)
    have "\<not> pending" if "ws_listens q" using that assms r
      by (auto simp: ws_listens_def ws_script_inv_def socket_id_def arg_number_def Let_def)
    then show ?thesis using assms r HostEvent frames_shape_mono
      by (cases e) (auto simp: ws_op_step_def ws_event_def ws_script_inv_def state_rank_def Let_def split: ready_state.split)
  qed (use assms r in \<open>simp_all add: ws_op_step_def ws_script_inv_def Let_def\<close>)
qed

lemma ws_run_inv:
  "ws_script_inv r \<Longrightarrow> ws_script_inv (fold (ws_op_step D d) ops r) \<and>
     state_rank (wo_state (fst (fst r))) \<le> state_rank (wo_state (fst (fst (fold (ws_op_step D d) ops r))))"
proof (induction ops arbitrary: r)
  case (Cons op ops)
  then show ?case using ws_op_step_inv [OF Cons.prems, of D d op] Cons.IH [of "ws_op_step D d op r"]
    by (simp, linarith)
qed simp

section \<open>Sockets that are lost\<close>

lemma ws_events_kept:
  "nv_tables (fst (native_websocket_send D a b s)) = nv_tables s" "nv_tables (fst (native_websocket_close D a c r s)) = nv_tables s"
  by (auto simp: native_websocket_send_def native_websocket_close_def throw_type_error_def native_send_def split: option.split)

lemma ws_close_shape:
  "fst (ws_close D a q) = q \<or> fst (ws_close D a q) = ((fst q)\<lparr>wo_closing := True, wo_state := CLOSING\<rparr>, snd q) \<or>
   (\<exists>x c r. fst (ws_close D a q) = ((fst q)\<lparr>wo_state := CLOSING\<rparr>, fst (native_websocket_close D x c r (snd q))))"
proof (cases "if ca_code a = JUndefined \<or> ca_code a = JNumber 1000 then Some (ca_code a) else code_number a")
  case None
  then show ?thesis by (simp add: ws_close_def)
next
  case (Some n)
  then show ?thesis unfolding ws_close_def Let_def case_prod_beta by (simp only: option.case split: if_split) auto
qed

text \<open>The dispatcher of a socket is registered once, by the first \<open>accept\<close>.\<close>

lemma accepted_once:
  assumes "wo_accepted (fst (fst r))"
  shows "wo_accepted (fst (fst (ws_op_step D d op r))) \<and> nv_tables (snd (fst (ws_op_step D d op r))) = nv_tables (snd (fst r))"
proof -
  have l: "wo_accepted (add_event_listener t f ob) = wo_accepted ob" "wo_accepted (remove_event_listener t f ob) = wo_accepted ob" for t f ob
    by (simp_all add: add_event_listener_def remove_event_listener_def split: option.split)
  have c: "wo_accepted (fst (fst (ws_close D a q))) = wo_accepted (fst q) \<and> nv_tables (snd (fst (ws_close D a q))) = nv_tables (snd q)" for a q
    using ws_close_shape [of D a q] ws_events_kept(2) by (elim disjE exE) simp_all
  have s: "wo_accepted (fst (fst (ws_send D a q))) = wo_accepted (fst q) \<and> nv_tables (snd (fst (ws_send D a q))) = nv_tables (snd q)" for a q
    by (simp add: ws_send_def ws_events_kept case_prod_beta)
  show ?thesis
    using assms c s l
    by (cases op) (auto simp: ws_op_step_def start_receiving_def ws_connected_def ws_refused_def ws_event_def ws_events_kept Let_def
        case_prod_beta split: native_result.split ws_incoming.split)
qed

lemma accepted_run:
  "wo_accepted (fst (fst r)) \<Longrightarrow> nv_tables (snd (fst (fold (ws_op_step D d) ops r))) = nv_tables (snd (fst r))"
  by (induction ops arbitrary: r) (simp_all add: accepted_once)

text \<open>A socket that is closing or closed, with its connection answered, sends no frame any more.\<close>

lemma closing_step:
  assumes "wo_state (fst (fst r)) \<in> {CLOSING, CLOSED}" "\<not> snd r"
  shows "wo_state (fst (fst (ws_op_step D d op r))) \<in> {CLOSING, CLOSED} \<and> \<not> snd (ws_op_step D d op r) \<and>
    frame_messages (nv_sent (snd (fst (ws_op_step D d op r)))) = frame_messages (nv_sent (snd (fst r)))"
proof -
  have s: "fst (ws_send D a q) = q" if "wo_state (fst q) \<in> {CLOSING, CLOSED}" for a q
    using that by (auto simp: ws_send_def)
  have c: "fst (ws_close D a q) = q" if "wo_state (fst q) \<in> {CLOSING, CLOSED}" for a q
    using that by (auto simp: ws_close_def split: option.split)
  show ?thesis
    using assms s c start_receiving_effect
    by (cases op) (auto simp: ws_op_step_def ws_event_def Let_def split: ws_incoming.split)
qed

lemma closing_run:
  "wo_state (fst (fst r)) \<in> {CLOSING, CLOSED} \<Longrightarrow> \<not> snd r \<Longrightarrow>
   frame_messages (nv_sent (snd (fst (fold (ws_op_step D d) ops r)))) = frame_messages (nv_sent (snd (fst r)))"
proof (induction ops arbitrary: r)
  case (Cons op ops)
  then show ?case using closing_step [of r D d op] by simp
qed simp

section \<open>Properties\<close>

text \<open>C21: A guest's socket closes once and for all.  Whatever the guest calls and the host answers, in any
  order, on a socket it opened or was handed: the frames it sends are data followed by at most one close, with a
  code that is 1000, between 3000 and 4999, or 0; there is no close while it is connecting or open; and its
  ready state never goes back.\<close>

theorem socket_closes_for_good:
  assumes "start = ((ws_object_new JNull url CONNECTING, s), True) \<or> start = ((ws_adopt ws, s), False)"
    "frame_messages (nv_sent s) = []" "r = fold (ws_op_step D d) ops start" "r' = fold (ws_op_step D d) more_ops r"
  shows "frames_shape (wo_state (fst (fst r)) \<in> {CLOSING, CLOSED}) (nv_sent (snd (fst r))) \<and>
    state_rank (wo_state (fst (fst r))) \<le> state_rank (wo_state (fst (fst r')))"
proof -
  have "ws_script_inv start"
    using assms(1,2) by (auto simp: ws_script_inv_def ws_object_new_def ws_adopt_def frames_shape_empty Let_def)
  then have r: "ws_script_inv r" using ws_run_inv assms(3) by simp
  then show ?thesis using ws_run_inv [OF r, of D d more_ops] assms(4) by (simp add: ws_script_inv_def Let_def)
qed

definition ws_serde :: serde where
  "ws_serde =
     \<lparr>sd_string = (\<lambda>_. None), sd_fetch_options = (\<lambda>_. Inl []), sd_method = (\<lambda>_. None), sd_storage = (\<lambda>_. Inl []),
      sd_kv = (\<lambda>_. Inl []), sd_database = (\<lambda>_. Inl []), sd_d1 = (\<lambda>_. Inl []), sd_json = (\<lambda>_. Inl []), sd_headers = (\<lambda>_. Inl []),
      sd_to_string = (\<lambda>a. case a of ArgJs (JString t) \<Rightarrow> Some t | _ \<Rightarrow> None), en_http = (\<lambda>_. 0), en_storage = (\<lambda>_. 0),
      en_kv = (\<lambda>_. 0), en_database = (\<lambda>_. 0), en_invoke = (\<lambda>_ _ _. 0), en_frame = (\<lambda>_. 3)\<rparr>"

definition close_default :: close_args where
  "close_default = \<lparr>ca_code = JUndefined, ca_to_number = None, ca_reason = None, ca_reason_bytes = 0\<rparr>"

definition ws_moves :: "ws_op list" where
  "ws_moves = [HostConnected 5, OpSend (ArgJs (JString ''a'')), OpClose close_default, OpSend (ArgJs (JString ''b'')), OpClose close_default]"

theorem socket_closes_for_good_witness:
  "let r = fold (ws_op_step ws_serde 9) ws_moves ((ws_object_new JNull None CONNECTING, native_new 5), True) in
   wo_state (fst (fst r)) = CLOSING \<and> length (frame_messages (nv_sent (snd (fst r)))) = 2 \<and> frames_shape True (nv_sent (snd (fst r)))"
proof -
  let ?start = "((ws_object_new JNull None CONNECTING, native_new 5), True)"
  let ?r = "fold (ws_op_step ws_serde 9) ws_moves ?start"
  have s: "wo_state (fst (fst ?r)) = CLOSING" "length (frame_messages (nv_sent (snd (fst ?r)))) = 2"
    "frame_messages (nv_sent (native_new 5)) = []" by code_simp+
  have "frames_shape (wo_state (fst (fst ?r)) \<in> {CLOSING, CLOSED}) (nv_sent (snd (fst ?r)))"
    using socket_closes_for_good [of ?start None "native_new 5" JNull ?r ws_serde 9 ws_moves _ "[]"] s(3) by simp
  then show ?thesis using s by (simp only: Let_def) simp
qed

text \<open>A close code that is not a number strands an open socket.  If the comparisons read the code as NaN, they
  refuse nothing, and the native function throws after the state is set: the close frame is never sent, and
  whatever the guest does afterwards, no other close and no data is sent either.\<close>

lemma bad_close_code_strands_socket:
  assumes "wo_state ob = OPEN" "nv_installed s" "socket_id (ArgJs (wo_ws ob)) = Some ws"
    "arg_number (ArgJs (ca_code a)) = None" "ca_code a \<noteq> JUndefined" "ca_to_number a = Some (JDouble bits)" "f64_is_nan bits"
    "ca_reason a = None"
  shows "snd (ws_close D a (ob, s)) = Some (NativeThrew (TypeError ''WebSocket: the close code is not a number'')) \<and>
    wo_state (fst (fst (ws_close D a (ob, s)))) = CLOSING \<and>
    (\<forall>ops. frame_messages (nv_sent (snd (fst (fold (ws_op_step D d) ops (fst (ws_close D a (ob, s)), False))))) =
       frame_messages (nv_sent s))"
proof -
  have n: "code_number a = Some (JDouble bits)" "ca_code a \<noteq> JNumber 1000"
    using assms(4,6) by (auto simp: code_number_def arg_number_def split: js_value.splits)
  then have "\<not> close_code_refused a (JDouble bits)"
    using assms(7) by (simp add: close_code_refused_def number_below_def number_above_def)
  then have c: "ws_close D a (ob, s) =
      ((ob\<lparr>wo_state := CLOSING\<rparr>, s), Some (NativeThrew (TypeError ''WebSocket: the close code is not a number'')))"
    using assms n by (simp add: ws_close_def native_websocket_close_def throw_type_error_def)
  then show ?thesis using closing_run [of "(fst (ws_close D a (ob, s)), False)" D d] by simp
qed

text \<open>A socket that is accepted before it is connected never hears anything.  \<open>accept\<close> marks the socket before
  the native function throws for want of an id; the socket still opens, but its dispatcher is not registered,
  then or by any later call.\<close>

lemma early_accept_deafens_socket:
  assumes "nv_installed s" "ob = ws_object_new JNull url CONNECTING" "hm_get (tb_ws_event (nv_tables s)) ws = None"
    "r = ws_op_step D d (HostConnected ws) (ws_op_step D d OpAccept ((ob, s), True))" "uint ws < 2 ^ 53"
  shows "wo_state (fst (fst r)) = OPEN \<and> (\<forall>ops. \<not> ws_listens ((fst (fst r), snd (fst (fold (ws_op_step D d) ops r)))))"
proof -
  let ?ob = "ob\<lparr>wo_accepted := True\<rparr>"
  have a: "ws_op_step D d OpAccept ((ob, s), True) = ((?ob, s), True)"
    using assms(1,2) by (simp add: ws_op_step_def start_receiving_def native_websocket_accept_def ws_object_new_def socket_id_def
        arg_number_def throw_type_error_def)
  then have r: "r = ((ws_dispatch JsOpen (?ob\<lparr>wo_ws := js_int (uint ws), wo_state := OPEN\<rparr>), s), False)"
    using assms(2,4) by (simp add: ws_op_step_def ws_connected_def start_receiving_def ws_object_new_def Let_def)
  have "\<bar>uint ws\<bar> < 2 ^ 53" using assms(5) by simp
  then have "js_int (uint ws) = JNumber (uint ws)" using f64_exact by (simp only: js_int_def)
  moreover have "saturate_u64 (uint ws) = ws" using uint_lt2p [of ws] by (simp add: saturate_u64_def)
  ultimately have "socket_id (ArgJs (wo_ws (fst (fst r)))) = Some ws" by (simp add: r socket_id_def arg_number_def as_u64_def)
  moreover have "nv_tables (snd (fst (fold (ws_op_step D d) ops r))) = nv_tables s" for ops
    using accepted_run [of r D d ops] r by simp
  ultimately show ?thesis using assms(3) r by (simp add: ws_listens_def)
qed

text \<open>The target of a socket is cut from the text of its URL.  A URL without slashes after its scheme, which
  the parser takes for the same host, loses the first two characters of the host.\<close>

lemma socket_target_loses_host:
  assumes "parse (''http:'' @ host) = Some (''http:'', [])"
  shows "ws_target parse (''http:'' @ host) = Ok (''ws://'' @ drop 2 host)"
  using assms by (simp add: ws_target_def)

end
