(* ===== verification/Timer_Script.thy ===== *)
theory Timer_Script
  imports Native_Ops
begin

text \<open>
  The timers the guest sees, from the script in \<open>src/src/runtime/bindings/timers.rs\<close>, the async context of
  \<open>bindings/async_context.rs\<close> they run in, and the function of \<open>make_clear\<close> in \<open>src/src/execution_context.rs\<close> that
  forgets them.  What a guest function does with timers, and whether it throws, is an argument.
\<close>

section \<open>State\<close>

text \<open>A frame of the async context is opaque, None outside of every frame.  \<open>ts_callbacks\<close> holds what
  \<open>__inSettingFrame\<close> made, the function and the frame it was set in, or a function that is called as it is.
  \<open>ts_ran\<close> lists the runs with the frame they ran in.\<close>

type_synonym frame = "nat option"

datatype timer_callback = InFrame guest_fn frame | Plain guest_fn

record timer_script =
  ts_callbacks :: "(nat, timer_callback) hash_map"
  ts_next :: nat
  ts_intervals :: "nat set"
  ts_frame :: frame
  ts_native :: native_state
  ts_ran :: "(nat \<times> guest_fn \<times> frame) list"

definition timer_script_new :: "native_state \<Rightarrow> timer_script" where
  "timer_script_new s =
     \<lparr>ts_callbacks = [], ts_next = 1, ts_intervals = {}, ts_frame = None, ts_native = s, ts_ran = []\<rparr>"

definition async_context_get :: "timer_script \<Rightarrow> frame" where
  "async_context_get t = ts_frame t"

definition async_context_set :: "frame \<Rightarrow> timer_script \<Rightarrow> timer_script" where
  "async_context_set f t = t\<lparr>ts_frame := f\<rparr>"

definition clear_async_context :: "timer_script \<Rightarrow> timer_script" where
  "clear_async_context t = async_context_set None t"

section \<open>Operations\<close>

text \<open>\<open>__coerceDelay\<close> of what \<open>Number\<close> answers: the integer part of a finite positive number, else 0.\<close>

definition coerce_delay :: "js_value \<Rightarrow> nat" where
  "coerce_delay v =
     (case v of
        JNumber n \<Rightarrow> nat n
      | JDouble bits \<Rightarrow> (case f64_trunc bits of None \<Rightarrow> 0 | Some n \<Rightarrow> nat n)
      | _ \<Rightarrow> 0)"

definition in_setting_frame :: "guest_fn \<Rightarrow> timer_script \<Rightarrow> timer_callback" where
  "in_setting_frame f t = InFrame f (async_context_get t)"

definition set_timeout :: "guest_fn \<Rightarrow> js_value \<Rightarrow> timer_script \<Rightarrow> timer_script \<times> nat" where
  "set_timeout f delay t =
     (let i = ts_next t;
          t = t\<lparr>ts_next := Suc i\<rparr>;
          t = t\<lparr>ts_callbacks := hm_insert i (in_setting_frame f t) (ts_callbacks t)\<rparr>
      in (t\<lparr>ts_native := fst (native_schedule_timeout (of_nat i) (of_nat (coerce_delay delay)) (ts_native t))\<rparr>, i))"

definition set_interval :: "guest_fn \<Rightarrow> js_value \<Rightarrow> timer_script \<Rightarrow> timer_script \<times> nat" where
  "set_interval f interval t =
     (let i = ts_next t;
          t = t\<lparr>ts_next := Suc i\<rparr>;
          t = t\<lparr>ts_callbacks := hm_insert i (in_setting_frame f t) (ts_callbacks t), ts_intervals := insert i (ts_intervals t)\<rparr>
      in (t\<lparr>ts_native := fst (native_schedule_interval (of_nat i) (of_nat (coerce_delay interval)) (ts_native t))\<rparr>, i))"

text \<open>The argument is what \<open>Number\<close> answers: an id that is no integer, or negative, clears nothing.\<close>

definition clear_timeout :: "js_value \<Rightarrow> timer_script \<Rightarrow> timer_script" where
  "clear_timeout v t =
     (case v of
        JNumber n \<Rightarrow>
          if n < 0 then t
          else t\<lparr>ts_callbacks := hm_remove (nat n) (ts_callbacks t), ts_intervals := ts_intervals t - {nat n},
                 ts_native := fst (native_clear_timer (of_nat (nat n)) (ts_native t))\<rparr>
      | _ \<Rightarrow> t)"

text \<open>The wait for room of a response stream uses the same ids and the same map; its callback settles a promise.\<close>

definition schedule_writable :: "guest_fn \<Rightarrow> stream_id \<Rightarrow> timer_script \<Rightarrow> timer_script" where
  "schedule_writable resolve stream t =
     (let i = ts_next t
      in t\<lparr>ts_next := Suc i, ts_callbacks := hm_insert i (Plain resolve) (ts_callbacks t),
           ts_native := fst (native_schedule_writable (of_nat i) stream (ts_native t))\<rparr>)"

text \<open>What guest code does with timers: \<open>EntersFrame\<close> is a change of the async context.\<close>

datatype timer_op =
    SetsTimeout guest_fn js_value | SetsInterval guest_fn js_value | Clears js_value | Waits guest_fn stream_id | EntersFrame frame

definition timer_op :: "timer_op \<Rightarrow> timer_script \<Rightarrow> timer_script" where
  "timer_op op t =
     (case op of
        SetsTimeout f d \<Rightarrow> fst (set_timeout f d t)
      | SetsInterval f d \<Rightarrow> fst (set_interval f d t)
      | Clears v \<Rightarrow> clear_timeout v t
      | Waits f stream \<Rightarrow> schedule_writable f stream t
      | EntersFrame f \<Rightarrow> async_context_set f t)"

text \<open>A callback in its frame: the frame of before is restored whether it throws or not.  \<open>body f\<close> is what the
  function does and whether it throws.\<close>

definition run_guest :: "(guest_fn \<Rightarrow> timer_op list \<times> bool) \<Rightarrow> nat \<Rightarrow> guest_fn \<Rightarrow> timer_script \<Rightarrow> timer_script \<times> bool" where
  "run_guest body i f t =
     (fold timer_op (fst (body f)) (t\<lparr>ts_ran := ts_ran t @ [(i, f, async_context_get t)]\<rparr>), snd (body f))"

definition call_timer :: "(guest_fn \<Rightarrow> timer_op list \<times> bool) \<Rightarrow> nat \<Rightarrow> timer_callback \<Rightarrow> timer_script \<Rightarrow> timer_script \<times> bool" where
  "call_timer body i cb t =
     (case cb of
        Plain f \<Rightarrow> run_guest body i f t
      | InFrame f frame \<Rightarrow>
          (let previous = async_context_get t;
               (t, threw) = run_guest body i f (async_context_set frame t)
           in (async_context_set previous t, threw)))"

text \<open>\<open>__executeTimer\<close>: a timeout is forgotten if its callback returned.\<close>

definition execute_timer :: "(guest_fn \<Rightarrow> timer_op list \<times> bool) \<Rightarrow> nat \<Rightarrow> timer_script \<Rightarrow> timer_script" where
  "execute_timer body i t =
     (case hm_get (ts_callbacks t) i of
        None \<Rightarrow> t
      | Some cb \<Rightarrow>
          (let (t, threw) = call_timer body i cb t in
           if threw then t
           else if i \<in> ts_intervals t then t
           else t\<lparr>ts_callbacks := hm_remove i (ts_callbacks t)\<rparr>))"

definition queue_microtask :: "'f option \<Rightarrow> (js_exception, 'f) result" where
  "queue_microtask callback =
     (case callback of None \<Rightarrow> Err (TypeError ''queueMicrotask expects a function'') | Some f \<Rightarrow> Ok f)"

text \<open>The function of \<open>make_clear\<close>; the counter of ids is kept.\<close>

definition clear_guest_state :: "timer_script \<Rightarrow> timer_script" where
  "clear_guest_state t = async_context_set None (t\<lparr>ts_callbacks := [], ts_intervals := {}\<rparr>)"

section \<open>Runs\<close>

text \<open>A turn: guest code that is no timer, or a message for a timer.  The host starts each entry with no
  frame.\<close>

datatype timer_event = GuestRuns "timer_op list" | TimerFires nat

definition timer_event :: "(guest_fn \<Rightarrow> timer_op list \<times> bool) \<Rightarrow> timer_event \<Rightarrow> timer_script \<Rightarrow> timer_script" where
  "timer_event body ev t =
     (let t = clear_async_context t in
      case ev of
        GuestRuns ops \<Rightarrow> fold timer_op ops t
      | TimerFires i \<Rightarrow> execute_timer body i t)"

text \<open>An id below the counter can have the callback it was given, or none; it never gets another one.\<close>

definition holds_only :: "nat \<Rightarrow> timer_callback option \<Rightarrow> timer_script \<Rightarrow> bool" where
  "holds_only i cb t \<longleftrightarrow> i < ts_next t \<and> hm_get (ts_callbacks t) i \<in> {None, cb}"

lemmas timer_defs =
  timer_op_def set_timeout_def set_interval_def clear_timeout_def schedule_writable_def async_context_set_def
  async_context_get_def in_setting_frame_def Let_def

lemma holds_only_op: "holds_only i cb t \<Longrightarrow> holds_only i cb (timer_op op t)"
  by (cases op) (auto simp: holds_only_def timer_defs split: js_value.split)

lemma ran_op [simp]: "ts_ran (timer_op op t) = ts_ran t"
  by (cases op) (auto simp: timer_defs split: js_value.split)

lemma holds_only_ops: "holds_only i cb t \<Longrightarrow> holds_only i cb (fold timer_op ops t)"
  by (induction ops arbitrary: t) (simp_all add: holds_only_op)

lemma ran_ops [simp]: "ts_ran (fold timer_op ops t) = ts_ran t"
  by (induction ops arbitrary: t) simp_all

text \<open>Guest code makes no interval of an id it did not make.\<close>

lemma interval_ops: "i < ts_next t \<Longrightarrow> i \<notin> ts_intervals t \<Longrightarrow> i \<notin> ts_intervals (fold timer_op ops t) \<and> i < ts_next (fold timer_op ops t)"
proof (induction ops arbitrary: t)
  case (Cons op ops)
  have "i \<notin> ts_intervals (timer_op op t)" "i < ts_next (timer_op op t)"
    using Cons.prems by (cases op; auto simp: timer_defs split: js_value.split)+
  then show ?case using Cons.IH by simp
qed simp

lemma frame_simps [simp]:
  "holds_only i cb (async_context_set f t) = holds_only i cb t" "ts_ran (async_context_set f t) = ts_ran t"
  "ts_callbacks (async_context_set f t) = ts_callbacks t" "ts_intervals (async_context_set f t) = ts_intervals t"
  "ts_next (async_context_set f t) = ts_next t"
  "holds_only i cb (t\<lparr>ts_ran := r\<rparr>) = holds_only i cb t" "async_context_get (async_context_set f t) = f"
  by (simp_all add: holds_only_def async_context_set_def async_context_get_def)

lemma call_timer_effect:
  assumes "call_timer body j cb' t = (t', threw)"
  shows "holds_only i cb t \<Longrightarrow> holds_only i cb t'"
    "ts_ran t' = ts_ran t @ [(j, case cb' of InFrame f fr \<Rightarrow> (f, fr) | Plain f \<Rightarrow> (f, ts_frame t))]"
    "i < ts_next t \<Longrightarrow> i \<notin> ts_intervals t \<Longrightarrow> i \<notin> ts_intervals t'"
    "threw = snd (body (case cb' of InFrame f _ \<Rightarrow> f | Plain f \<Rightarrow> f))"
  using assms interval_ops [of i]
  by (auto simp: call_timer_def run_guest_def holds_only_ops async_context_get_def Let_def
      split: timer_callback.splits)
     (simp_all add: async_context_set_def)

text \<open>The runs of an id: the function and the frame of each.\<close>

definition runs :: "nat \<Rightarrow> timer_script \<Rightarrow> (guest_fn \<times> frame) list" where
  "runs i t = map snd (filter (\<lambda>r. fst r = i) (ts_ran t))"

lemma execute_holds:
  assumes "holds_only i cb t"
  shows "holds_only i cb (execute_timer body j t)"
    "runs i (execute_timer body j t) = runs i t \<or>
     (\<exists>f fr. cb = Some (InFrame f fr) \<and> runs i (execute_timer body j t) = runs i t @ [(f, fr)]) \<or>
     (\<exists>f fr. cb = Some (Plain f) \<and> runs i (execute_timer body j t) = runs i t @ [(f, fr)])"
proof -
  have keep: "holds_only i cb (u\<lparr>ts_callbacks := hm_remove j (ts_callbacks u)\<rparr>)" if "holds_only i cb u" for u
    using that by (simp add: holds_only_def)
  have "holds_only i cb (execute_timer body j t) \<and> (runs i (execute_timer body j t) = runs i t \<or>
     (\<exists>f fr. cb = Some (InFrame f fr) \<and> runs i (execute_timer body j t) = runs i t @ [(f, fr)]) \<or>
     (\<exists>f fr. cb = Some (Plain f) \<and> runs i (execute_timer body j t) = runs i t @ [(f, fr)]))"
  proof (cases "hm_get (ts_callbacks t) j")
    case None
    then show ?thesis using assms by (simp add: execute_timer_def)
  next
    case (Some cb')
    obtain t' threw where c: "call_timer body j cb' t = (t', threw)" by fastforce
    note e = call_timer_effect [OF c]
    have same: "i = j \<Longrightarrow> cb = Some cb'" using assms Some by (auto simp: holds_only_def)
    show ?thesis using Some c e(1) [OF assms] e(2) keep [OF e(1) [OF assms]] same
      by (cases cb') (auto simp: execute_timer_def runs_def)
  qed
  then show "holds_only i cb (execute_timer body j t)" "runs i (execute_timer body j t) = runs i t \<or>
     (\<exists>f fr. cb = Some (InFrame f fr) \<and> runs i (execute_timer body j t) = runs i t @ [(f, fr)]) \<or>
     (\<exists>f fr. cb = Some (Plain f) \<and> runs i (execute_timer body j t) = runs i t @ [(f, fr)])" by blast+
qed

text \<open>An event runs a callback in the frame it was set in.\<close>

lemma event_holds:
  assumes "holds_only i (map_option (\<lambda>(f, fr). InFrame f fr) ff) t"
  shows "holds_only i (map_option (\<lambda>(f, fr). InFrame f fr) ff) (timer_event body ev t)"
    "runs i (timer_event body ev t) = runs i t \<or> (\<exists>x. ff = Some x \<and> runs i (timer_event body ev t) = runs i t @ [x])"
proof -
  let ?t = "clear_async_context t"
  have t: "holds_only i (map_option (\<lambda>(f, fr). InFrame f fr) ff) ?t" "runs i ?t = runs i t"
    using assms by (simp_all add: clear_async_context_def runs_def)
  show "holds_only i (map_option (\<lambda>(f, fr). InFrame f fr) ff) (timer_event body ev t)"
    using t(1) by (cases ev) (simp_all add: timer_event_def holds_only_ops execute_holds(1) Let_def)
  show "runs i (timer_event body ev t) = runs i t \<or> (\<exists>x. ff = Some x \<and> runs i (timer_event body ev t) = runs i t @ [x])"
    using t(2) execute_holds(2) [OF t(1), of body]
    by (cases ev) (auto simp: timer_event_def runs_def clear_async_context_def Let_def split: option.splits prod.splits)
qed

lemma run_holds:
  "holds_only i (map_option (\<lambda>(f, fr). InFrame f fr) ff) t \<Longrightarrow>
   \<exists>n. runs i (fold (timer_event body) evs t) = runs i t @ (case ff of None \<Rightarrow> [] | Some x \<Rightarrow> replicate n x)"
proof (induction evs arbitrary: t)
  case Nil
  then show ?case by (cases ff) (auto intro: exI [of _ 0])
next
  case (Cons ev evs)
  obtain n where n: "runs i (fold (timer_event body) evs (timer_event body ev t)) =
      runs i (timer_event body ev t) @ (case ff of None \<Rightarrow> [] | Some x \<Rightarrow> replicate n x)"
    using Cons.IH [OF event_holds(1) [OF Cons.prems]] by blast
  show ?case using event_holds(2) [OF Cons.prems, of body ev] n
    by (cases ff) (auto intro: exI [of _ n] exI [of _ "Suc n"])
qed

text \<open>A timeout whose function returns is out of the map once it ran.\<close>

definition runs_at_most_once :: "nat \<Rightarrow> guest_fn \<Rightarrow> frame \<Rightarrow> timer_script \<Rightarrow> bool" where
  "runs_at_most_once i f fr t \<longleftrightarrow>
     holds_only i (Some (InFrame f fr)) t \<and> i \<notin> ts_intervals t \<and>
     (runs i t = [] \<or> runs i t = [(f, fr)] \<and> hm_get (ts_callbacks t) i = None)"

lemma once_event:
  assumes "runs_at_most_once i f fr t" "\<not> snd (body f)"
  shows "runs_at_most_once i f fr (timer_event body ev t)"
proof -
  let ?t = "clear_async_context t"
  have t: "runs_at_most_once i f fr ?t" using assms(1) by (simp add: runs_at_most_once_def clear_async_context_def runs_def)
  show ?thesis
  proof (cases ev)
    case (GuestRuns ops)
    have "hm_get (ts_callbacks (fold timer_op ops u)) i = None" if "hm_get (ts_callbacks u) i = None" "i < ts_next u" for u
      using holds_only_ops [of i None u ops] that by (simp add: holds_only_def)
    then show ?thesis using t GuestRuns interval_ops [of i ?t ops] holds_only_ops [of i "Some (InFrame f fr)" ?t ops]
      by (auto simp: runs_at_most_once_def timer_event_def runs_def holds_only_def Let_def)
  next
    case (TimerFires j)
    show ?thesis
    proof (cases "hm_get (ts_callbacks ?t) j")
      case None
      then show ?thesis using t TimerFires by (simp add: timer_event_def execute_timer_def)
    next
      case (Some cb')
      obtain t' threw where c: "call_timer body j cb' ?t = (t', threw)" by fastforce
      have h: "holds_only i (Some (InFrame f fr)) ?t" "i < ts_next ?t" "i \<notin> ts_intervals ?t"
        using t by (auto simp: runs_at_most_once_def holds_only_def)
      note e = call_timer_effect [OF c]
      have n: "hm_get (ts_callbacks ?t) i = None \<Longrightarrow> hm_get (ts_callbacks t') i = None"
        using e(1) [of i None] h(2) by (simp add: holds_only_def)
      show ?thesis
      proof (cases "j = i")
        case True
        then have "cb' = InFrame f fr" "runs i ?t = []" using Some h(1) t by (auto simp: holds_only_def runs_at_most_once_def)
        then show ?thesis using True Some c e(1) [OF h(1)] e(2,4) e(3) [OF h(2,3)] assms(2) TimerFires
          by (auto simp: timer_event_def execute_timer_def runs_at_most_once_def runs_def holds_only_def)
      next
        case False
        then show ?thesis using Some c e(1) [OF h(1)] e(2) e(3) [OF h(2,3)] n t TimerFires
          by (auto simp: timer_event_def execute_timer_def runs_at_most_once_def runs_def holds_only_def)
      qed
    qed
  qed
qed

lemma once_run: "runs_at_most_once i f fr t \<Longrightarrow> \<not> snd (body f) \<Longrightarrow> runs_at_most_once i f fr (fold (timer_event body) evs t)"
  by (induction evs arbitrary: t) (simp_all add: once_event)

text \<open>Only ids below the counter are in use.\<close>

definition ids_given :: "timer_script \<Rightarrow> bool" where
  "ids_given t \<longleftrightarrow> (\<forall>i. ts_next t \<le> i \<longrightarrow> hm_get (ts_callbacks t) i = None \<and> i \<notin> ts_intervals t) \<and> (\<forall>r\<in>set (ts_ran t). fst r < ts_next t)"

lemma ids_given_op: "ids_given t \<Longrightarrow> ids_given (timer_op op t)"
  by (cases op) (auto simp: ids_given_def timer_defs less_Suc_eq split: js_value.split)

lemma ids_given_ops: "ids_given t \<Longrightarrow> ids_given (fold timer_op ops t)"
  by (induction ops arbitrary: t) (simp_all add: ids_given_op)

lemma ids_given_event: "ids_given t \<Longrightarrow> ids_given (timer_event body ev t)"
proof -
  assume "ids_given t"
  then have t: "ids_given (clear_async_context t)" by (simp add: ids_given_def clear_async_context_def)
  have c: "ids_given (fst (call_timer body i cb u))" if "ids_given u" "hm_get (ts_callbacks u) i \<noteq> None" for i cb u
  proof -
    have "i < ts_next u" using that unfolding ids_given_def by (meson not_less)
    then have g: "ids_given (u\<lparr>ts_ran := ts_ran u @ [(i, x)]\<rparr>)" "ids_given ((async_context_set fr u)\<lparr>ts_ran := ts_ran u @ [(i, x)]\<rparr>)" for x fr
      using that(1) by (auto simp: ids_given_def)
    then show ?thesis using ids_given_ops [OF g(1)] ids_given_ops [OF g(2)]
      by (cases cb) (simp_all add: call_timer_def run_guest_def ids_given_def Let_def)
  qed
  have "ids_given (execute_timer body i u)" if "ids_given u" for i u
    using c [OF that, of i] that
    by (auto simp: execute_timer_def case_prod_beta ids_given_def split: option.split)
  then show ?thesis using t ids_given_ops by (cases ev) (simp_all add: timer_event_def Let_def)
qed

lemma ids_given_run: "ids_given (fold (timer_event body) evs (timer_script_new s))"
proof -
  have "ids_given t \<Longrightarrow> ids_given (fold (timer_event body) evs t)" for t
    by (induction evs arbitrary: t) (simp_all add: ids_given_event)
  then show ?thesis by (simp add: ids_given_def timer_script_new_def)
qed

section \<open>Properties\<close>

text \<open>C24: A timer that was cleared never runs again.  After \<open>clearTimeout\<close> of an id that was given, and after the
  reset of the guest's state, whatever the guest sets, whatever fires late and whatever the callbacks do: no
  function runs under that id any more.\<close>

theorem cleared_timer_never_runs:
  assumes "i < ts_next t"
  shows "runs i (fold (timer_event body) evs (clear_timeout (JNumber (int i)) t)) = runs i t \<and>
    runs i (fold (timer_event body) evs (clear_guest_state t)) = runs i t"
proof -
  have "holds_only i None (clear_timeout (JNumber (int i)) t)" "holds_only i None (clear_guest_state t)"
    "runs i (clear_timeout (JNumber (int i)) t) = runs i t" "runs i (clear_guest_state t) = runs i t"
    using assms by (simp_all add: holds_only_def clear_timeout_def clear_guest_state_def runs_def)
  then show ?thesis using run_holds [of i None _ body evs] by auto
qed

definition timer_bodies :: "guest_fn \<Rightarrow> timer_op list \<times> bool" where
  "timer_bodies f = ([SetsTimeout 8 (JNumber 5)], False)"

theorem cleared_timer_never_runs_witness:
  "let t = fst (set_timeout 7 (JNumber 10) (timer_script_new (native_new 1))) in
   runs 1 (fold (timer_event timer_bodies) [TimerFires 1, GuestRuns [SetsTimeout 9 JUndefined], TimerFires 1]
     (clear_timeout (JNumber (int 1)) t)) = []"
proof -
  let ?t = "fst (set_timeout 7 (JNumber 10) (timer_script_new (native_new 1)))"
  have "1 < ts_next ?t" "runs 1 ?t = []" by (simp_all add: set_timeout_def timer_script_new_def runs_def Let_def)
  then show ?thesis using cleared_timer_never_runs [of 1 ?t timer_bodies] by (simp only: Let_def)
qed

text \<open>A timeout runs as it was set.  In every state a guest can reach, whatever happens after
  \<open>setTimeout\<close>: each run under the id it answered calls the function that was given, in the async context
  of the code that set it, and there is at most one run unless the function throws.\<close>

lemma timeout_runs_as_set:
  assumes "t = fold (timer_event body) before (timer_script_new s)" "set_timeout f delay t = (t', i)"
  shows "\<exists>n. runs i (fold (timer_event body) evs t') = replicate n (f, ts_frame t) \<and> (\<not> snd (body f) \<longrightarrow> n \<le> 1)"
proof -
  have g: "ids_given t" using ids_given_run assms(1) by blast
  have i: "i = ts_next t" using assms(2) by (simp add: set_timeout_def Let_def)
  have runs_t: "runs i t = []" using g by (auto simp: i runs_def ids_given_def filter_empty_conv)
  have new: "hm_get (ts_callbacks t') i = Some (InFrame f (ts_frame t))" "i < ts_next t'" "i \<notin> ts_intervals t'" "runs i t' = []"
    using assms(2) g runs_t by (auto simp: set_timeout_def i ids_given_def in_setting_frame_def async_context_get_def runs_def Let_def)
  obtain n where n: "runs i (fold (timer_event body) evs t') = replicate n (f, ts_frame t)"
    using run_holds [of i "Some (f, ts_frame t)" t' body evs] new by (auto simp: holds_only_def)
  have "n \<le> 1" if "\<not> snd (body f)"
  proof -
    have "runs_at_most_once i f (ts_frame t) t'" using new by (simp add: runs_at_most_once_def holds_only_def)
    then have "length (runs i (fold (timer_event body) evs t')) \<le> 1"
      using once_run [of i f "ts_frame t" t' body evs] that by (auto simp: runs_at_most_once_def)
    then show ?thesis using n by simp
  qed
  then show ?thesis using n by blast
qed

text \<open>A timeout whose function throws stays in the map of callbacks: only a clear takes it out.\<close>

lemma thrown_timeout_is_kept:
  assumes "hm_get (ts_callbacks t) i = Some cb" "body (case cb of InFrame f _ \<Rightarrow> f | Plain f \<Rightarrow> f) = ([], True)"
  shows "hm_get (ts_callbacks (timer_event body (TimerFires i) t)) i = Some cb"
  using assms
  by (cases cb) (simp_all add: timer_event_def execute_timer_def call_timer_def run_guest_def clear_async_context_def)

end
