(* ===== verification/Fetch_Script.thy ===== *)
theory Fetch_Script
  imports Native_Ops "HOL-Library.Sublist"
begin

text \<open>
  The \<open>fetch\<close> the guest sees, from the scripts in \<open>src/src/runtime/bindings/fetch.rs\<close> and \<open>bindings/streams.rs\<close>: the bytes
  a body is sent as, forms included, the choice between a request and a WebSocket upgrade, and the response
  that is built from the host's answer.  A string stands for its UTF-8 bytes; reading a guest's stream or
  blob to its end is an argument.
\<close>

section \<open>Forms\<close>

definition utf8 :: "string \<Rightarrow> bytes" where
  "utf8 s = map (\<lambda>c. word_of_nat (of_char c)) s"

definition CRLF :: string where
  "CRLF = [CHR 0x0D, CHR 0x0A]"

definition QUOTE :: string where
  "QUOTE = [CHR 0x22]"

text \<open>A value is a string, or a blob with its bytes, its type and the name it may have.\<close>

datatype form_value = TextValue string | BlobValue bytes string string

record form_entry =
  fv_name :: string
  fv_value :: form_value
  fv_filename :: string

definition file_name :: "string \<Rightarrow> string \<Rightarrow> string" where
  "file_name filename blob_name = (if filename \<noteq> [] then filename else if blob_name \<noteq> [] then blob_name else ''blob'')"

definition form_part :: "string \<Rightarrow> form_entry \<Rightarrow> bytes" where
  "form_part boundary e =
     (let part = ''--'' @ boundary @ CRLF in
      case fv_value e of
        BlobValue content blob_type blob_name \<Rightarrow>
          (let part = part @ ''Content-Disposition: form-data; name='' @ QUOTE @ fv_name e @ QUOTE @ ''; filename='' @ QUOTE @
                 file_name (fv_filename e) blob_name @ QUOTE @ CRLF;
               part = part @ ''Content-Type: '' @ (if blob_type \<noteq> [] then blob_type else ''application/octet-stream'') @ CRLF @ CRLF
           in utf8 part @ content @ utf8 CRLF)
      | TextValue text_value \<Rightarrow>
          utf8 (part @ ''Content-Disposition: form-data; name='' @ QUOTE @ fv_name e @ QUOTE @ CRLF @ CRLF @ text_value @ CRLF))"

text \<open>The boundary is random; the answer is the bytes.\<close>

definition serialize_form_data :: "string \<Rightarrow> form_entry list \<Rightarrow> bytes" where
  "serialize_form_data boundary entries =
     concat (map (form_part boundary) entries) @ utf8 (''--'' @ boundary @ ''--'' @ CRLF)"

section \<open>Headers\<close>

text \<open>A JavaScript object of strings, in the order its keys were added.\<close>

type_synonym js_headers = "(string \<times> string) list"

definition header_get :: "js_headers \<Rightarrow> string \<Rightarrow> string option" where
  "header_get h k = map_of h k"

definition header_put :: "string \<Rightarrow> string \<Rightarrow> js_headers \<Rightarrow> js_headers" where
  "header_put k v h = (if k \<in> set (map fst h) then map (\<lambda>p. if fst p = k then (k, v) else p) h else h @ [(k, v)])"

text \<open>\<open>!headers[k]\<close>: absent, or the empty string.\<close>

definition header_falsy :: "js_headers \<Rightarrow> string \<Rightarrow> bool" where
  "header_falsy h k = (case header_get h k of None \<Rightarrow> True | Some v \<Rightarrow> v = [])"

section \<open>Bodies\<close>

datatype fetch_body =
    NullBody
  | StreamBody
  | FormBody "form_entry list"
  | SearchParams string
  | BlobBody bytes
  | BufferBody bytes
  | ViewBody bytes
  | PrimitiveBody string
  | OtherObject

text \<open>\<open>chunks\<close> is what reading the stream to its end gives: its chunks, or the error it ends with.\<close>

definition buffer_body :: "(string, bytes list) result \<Rightarrow> fetch_body \<Rightarrow> (string, fetch_body) result" where
  "buffer_body chunks body =
     (case body of
        StreamBody \<Rightarrow> (case chunks of Inl e \<Rightarrow> Inl e | Inr cs \<Rightarrow> Inr (ViewBody (concat cs)))
      | b \<Rightarrow> Inr b)"

text \<open>What the native functions are handed.\<close>

datatype encoded_body = NoBytes | TheBytes bytes | NotBytes

text \<open>The headers are the object of the caller: the answer is that object afterwards.\<close>

definition encode_fetch_body ::
    "string \<Rightarrow> (string, bytes list) result \<Rightarrow> fetch_body \<Rightarrow> js_headers \<Rightarrow> js_headers \<times> (string, encoded_body) result" where
  "encode_fetch_body boundary chunks body headers =
     (case buffer_body chunks body of
        Inl e \<Rightarrow> (headers, Inl e)
      | Inr body \<Rightarrow>
          (let (body, content_type) =
                 (case body of
                    FormBody es \<Rightarrow> (ViewBody (serialize_form_data boundary es), Some (''multipart/form-data; boundary='' @ boundary))
                  | b \<Rightarrow> (b, None));
               (body, content_type) =
                 (case body of
                    SearchParams s \<Rightarrow> (ViewBody (utf8 s), Some ''application/x-www-form-urlencoded;charset=UTF-8'')
                  | b \<Rightarrow> (b, content_type));
               body = (case body of BlobBody b \<Rightarrow> ViewBody b | b \<Rightarrow> b);
               body = (case body of BufferBody b \<Rightarrow> ViewBody b | b \<Rightarrow> b);
               body = (case body of PrimitiveBody s \<Rightarrow> ViewBody (utf8 s) | b \<Rightarrow> b);
               headers =
                 (case content_type of
                    Some t \<Rightarrow>
                      if header_falsy headers ''Content-Type'' \<and> header_falsy headers ''content-type''
                      then header_put ''Content-Type'' t headers else headers
                  | None \<Rightarrow> headers)
           in (headers, Inr (case body of NullBody \<Rightarrow> NoBytes | ViewBody b \<Rightarrow> TheBytes b | _ \<Rightarrow> NotBytes))))"

section \<open>Requests\<close>

datatype header_init = HeadersInstance js_headers | PlainHeaders js_headers | NullHeaders

text \<open>The options: None is undefined, and an empty method counts as none.\<close>

record fetch_opts =
  fi_method :: "string option"
  fi_headers :: "header_init option"
  fi_body :: "fetch_body option"

datatype fetch_input =
    RequestInput string string header_init "fetch_body option" bool
  | UrlInput string
  | StringInput string

text \<open>The headers are None when they are null; \<open>nf_shared\<close> says that they are the object the caller passed.\<close>

record normalized =
  nf_url :: string
  nf_method :: string
  nf_headers :: "js_headers option"
  nf_shared :: bool
  nf_body :: fetch_body

definition or_method :: "string option \<Rightarrow> string \<Rightarrow> string" where
  "or_method m d = (case m of Some s \<Rightarrow> if s \<noteq> [] then s else d | None \<Rightarrow> d)"

definition plain_headers :: "header_init \<Rightarrow> js_headers option \<times> bool" where
  "plain_headers headers =
     (case headers of
        HeadersInstance h \<Rightarrow> (Some (fold (\<lambda>(k, v). header_put k v) h []), False)
      | PlainHeaders h \<Rightarrow> (Some h, True)
      | NullHeaders \<Rightarrow> (None, False))"

definition normalize_fetch_input :: "fetch_input \<Rightarrow> fetch_opts \<Rightarrow> normalized" where
  "normalize_fetch_input inp options =
     (let of_url = (\<lambda>u. (u, or_method (fi_method options) ''GET'',
             (case fi_headers options of None \<Rightarrow> HeadersInstance [] | Some NullHeaders \<Rightarrow> HeadersInstance [] | Some h \<Rightarrow> h),
             (case fi_body options of Some b \<Rightarrow> b | None \<Rightarrow> NullBody)));
          (u, m, headers, body) =
            (case inp of
               RequestInput request_url request_method request_headers request_body body_used \<Rightarrow>
                 (request_url, or_method (fi_method options) (if request_method \<noteq> [] then request_method else ''GET''),
                  (case fi_headers options of Some h \<Rightarrow> h | None \<Rightarrow> request_headers),
                  (case fi_body options of
                     Some b \<Rightarrow> b
                   | None \<Rightarrow> (case request_body of Some b \<Rightarrow> if \<not> body_used then b else NullBody | None \<Rightarrow> NullBody)))
             | UrlInput href \<Rightarrow> of_url href
             | StringInput s \<Rightarrow> of_url s);
          (h, shared) = plain_headers headers
      in \<lparr>nf_url = u, nf_method = m, nf_headers = h, nf_shared = shared, nf_body = body\<rparr>)"

definition lower_char :: "char \<Rightarrow> char" where
  "lower_char c = (if 65 \<le> (of_char c :: nat) \<and> (of_char c :: nat) \<le> 90 then char_of ((of_char c :: nat) + 32) else c)"

definition lower :: "string \<Rightarrow> string" where
  "lower s = map lower_char s"

text \<open>The first key that spells \<open>upgrade\<close> decides.\<close>

definition is_websocket_upgrade :: "js_headers \<Rightarrow> bool" where
  "is_websocket_upgrade headers =
     (case find (\<lambda>p. lower (fst p) = ''upgrade'') headers of
        None \<Rightarrow> False
      | Some (_, v) \<Rightarrow> lower v = ''websocket'')"

text \<open>The headers are None when they are null, which only a binding's fetch passes on.\<close>

record request_options =
  ro_url :: string
  ro_method :: string
  ro_headers :: "js_headers option"
  ro_body :: encoded_body

datatype fetch_outcome = FetchRejected | FetchCalled native_result

text \<open>\<open>opts\<close> and \<open>hdrs\<close> hand the options and the headers to the native functions as JavaScript values.
  The answer holds the caller's headers object when it was passed through.\<close>

definition fetch_script ::
    "serde \<Rightarrow> payload \<Rightarrow> (request_options \<Rightarrow> native_arg) \<Rightarrow> (js_headers \<Rightarrow> native_arg) \<Rightarrow> string \<Rightarrow> (string, bytes list) result \<Rightarrow>
     guest_fn \<Rightarrow> guest_fn \<Rightarrow> fetch_input \<Rightarrow> fetch_opts \<Rightarrow> native_state \<Rightarrow>
     native_state \<times> js_headers option \<times> fetch_outcome" where
  "fetch_script D no_headers opts hdrs boundary chunks resolve reject inp options s =
     (let n = normalize_fetch_input inp options in
      case nf_headers n of
        None \<Rightarrow> (s, None, FetchRejected)
      | Some headers \<Rightarrow>
          (let (headers, encoded) = encode_fetch_body boundary chunks (nf_body n) headers;
               kept = (if nf_shared n then Some headers else None)
           in case encoded of
                Inl _ \<Rightarrow> (s, kept, FetchRejected)
              | Inr body \<Rightarrow>
                  (let (s, r) =
                     (if is_websocket_upgrade headers
                      then native_websocket_connect D no_headers (ArgJs (JString (nf_url n))) (hdrs headers) (ArgFn resolve) (ArgFn reject) s
                      else native_fetch_streaming D
                             (opts \<lparr>ro_url = nf_url n, ro_method = nf_method n, ro_headers = Some headers, ro_body = body\<rparr>)
                             (ArgFn resolve) (ArgFn reject) s)
                   in (s, kept, FetchCalled r))))"

section \<open>Responses\<close>

text \<open>A stream of the host as the guest's source.  The controller is not part of this code: \<open>ctl\<close> is its state
  after a call, None when the call throws, which leaves the controller as it is.\<close>

datatype controller_call = CtlError string | CtlClose | CtlEnqueue "bytes option"

definition landed_call :: "stream_chunk \<Rightarrow> controller_call" where
  "landed_call chunk =
     (case chunk of
        Error e \<Rightarrow> if e \<noteq> [] then CtlError e else CtlEnqueue None
      | Done \<Rightarrow> CtlClose
      | Data b \<Rightarrow> CtlEnqueue (Some b))"

record 'c native_stream =
  ns_stream :: stream_id
  ns_ctl :: 'c
  ns_pulls :: nat
  ns_settled :: nat

definition create_native_stream :: "'c \<Rightarrow> stream_id \<Rightarrow> 'c native_stream" where
  "create_native_stream c i = \<lparr>ns_stream = i, ns_ctl = c, ns_pulls = 0, ns_settled = 0\<rparr>"

definition native_pull :: "guest_fn \<Rightarrow> 'c native_stream \<Rightarrow> native_state \<Rightarrow> 'c native_stream \<times> native_state" where
  "native_pull landed n s = (n\<lparr>ns_pulls := Suc (ns_pulls n)\<rparr>, fst (native_stream_read (ns_stream n) landed s))"

definition native_landed :: "(controller_call \<Rightarrow> 'c \<Rightarrow> 'c option) \<Rightarrow> stream_chunk \<Rightarrow> 'c native_stream \<Rightarrow> 'c native_stream" where
  "native_landed ctl chunk n =
     (let n = (case ctl (landed_call chunk) (ns_ctl n) of Some c \<Rightarrow> n\<lparr>ns_ctl := c\<rparr> | None \<Rightarrow> n)
      in n\<lparr>ns_settled := Suc (ns_settled n)\<rparr>)"

definition native_cancel :: "'c native_stream \<Rightarrow> native_state \<Rightarrow> native_state" where
  "native_cancel n s = fst (native_stream_cancel (ns_stream n) s)"

text \<open>What \<open>__responseFromMeta\<close> is given and makes.\<close>

record fetch_meta =
  rm_status :: u16
  rm_stream :: "stream_id option"
  rm_body :: "bytes option"
  rm_socket :: "ws_id option"

datatype made_body = MadeNull | MadeStream stream_id | MadeBytes bytes

record made_response =
  mr_status :: u16
  mr_body :: made_body
  mr_socket :: "ws_id option"

definition null_body_status :: "u16 \<Rightarrow> bool" where
  "null_body_status status \<longleftrightarrow> status \<in> {101, 103, 204, 205, 304}"

definition response_from_meta :: "fetch_meta \<Rightarrow> native_state \<Rightarrow> native_state \<times> made_response" where
  "response_from_meta m s =
     (let (s, body) =
        (if null_body_status (rm_status m)
         then (case rm_stream m of None \<Rightarrow> (s, MadeNull) | Some i \<Rightarrow> (fst (native_stream_cancel i s), MadeNull))
         else case rm_stream m of
           Some i \<Rightarrow> (s, MadeStream i)
         | None \<Rightarrow> (s, case rm_body m of Some b \<Rightarrow> MadeBytes b | None \<Rightarrow> MadeNull))
      in (s, \<lparr>mr_status = rm_status m, mr_body = body, mr_socket = rm_socket m\<rparr>))"

section \<open>What a server reads\<close>

text \<open>The reference: a reader of \<open>multipart/form-data\<close> that knows the boundary.  It cuts the body at each
  delimiter, reads the header lines of the part and takes the rest as the content.\<close>

fun split_at :: "'a list \<Rightarrow> 'a list \<Rightarrow> ('a list \<times> 'a list) option" where
  "split_at pat [] = (if pat = [] then Some ([], []) else None)"
| "split_at pat (x # xs) =
     (if prefix pat (x # xs) then Some ([], drop (length pat) (x # xs))
      else map_option (\<lambda>p. (x # fst p, snd p)) (split_at pat xs))"

definition strip :: "'a list \<Rightarrow> 'a list \<Rightarrow> 'a list option" where
  "strip pre s = (if prefix pre s then Some (drop (length pre) s) else None)"

definition quoted :: "bytes \<Rightarrow> (bytes \<times> bytes) option" where
  "quoted s = Option.bind (strip (utf8 QUOTE) s) (split_at (utf8 QUOTE))"

record read_part =
  rp_name :: bytes
  rp_file :: "(bytes \<times> bytes) option"
  rp_content :: bytes

definition read_part :: "bytes \<Rightarrow> read_part option" where
  "read_part part =
     Option.bind (split_at (utf8 CRLF) part) (\<lambda>(line, rest).
     Option.bind (strip (utf8 ''Content-Disposition: form-data; name='') line) (\<lambda>line.
     Option.bind (quoted line) (\<lambda>(name, line).
       if line = [] then
         map_option (\<lambda>content. \<lparr>rp_name = name, rp_file = None, rp_content = content\<rparr>) (strip (utf8 CRLF) rest)
       else
         Option.bind (strip (utf8 ''; filename='') line) (\<lambda>line.
         Option.bind (quoted line) (\<lambda>(file, _).
         Option.bind (split_at (utf8 CRLF) rest) (\<lambda>(line, rest).
         Option.bind (strip (utf8 ''Content-Type: '') line) (\<lambda>type.
           map_option (\<lambda>content. \<lparr>rp_name = name, rp_file = Some (file, type), rp_content = content\<rparr>)
             (strip (utf8 CRLF) rest))))))))"

lemma split_at_shorter: "split_at pat s = Some (a, r) \<Longrightarrow> pat \<noteq> [] \<Longrightarrow> length r < length s"
proof (induction s arbitrary: a)
  case (Cons x s)
  show ?case
  proof (cases "prefix pat (x # s)")
    case True
    with Cons.prems show ?thesis by (cases pat) auto
  next
    case False
    with Cons.prems Cons.IH show ?thesis by fastforce
  qed
qed simp

function read_parts :: "bytes \<Rightarrow> bytes \<Rightarrow> read_part list option" where
  "read_parts delimiter s =
     (if delimiter = [] then None
      else case strip (utf8 CRLF) s of
        None \<Rightarrow> (if prefix (utf8 ''--'') s then Some [] else None)
      | Some rest \<Rightarrow>
          (case split_at delimiter rest of
             None \<Rightarrow> None
           | Some (part, rest') \<Rightarrow>
               Option.bind (read_part part) (\<lambda>p. map_option (\<lambda>ps. p # ps) (read_parts delimiter rest'))))"
  by pat_completeness auto
termination
  by (relation "measure (\<lambda>(_, s). length s)")
    (auto simp: strip_def split: if_splits dest!: split_at_shorter)

declare read_parts.simps [simp del]

definition read_form :: "string \<Rightarrow> bytes \<Rightarrow> read_part list option" where
  "read_form boundary s = Option.bind (strip (utf8 (''--'' @ boundary)) s) (read_parts (utf8 (CRLF @ ''--'' @ boundary)))"

text \<open>What a form says, and the forms that say it unambiguously: no name, file name or type has a line break,
  no name or file name has a quote, and the delimiter is not found in the line break that ends the header and
  the value after it.\<close>

definition said :: "form_entry \<Rightarrow> read_part" where
  "said e =
     (case fv_value e of
        TextValue v \<Rightarrow> \<lparr>rp_name = utf8 (fv_name e), rp_file = None, rp_content = utf8 v\<rparr>
      | BlobValue b t n \<Rightarrow>
          \<lparr>rp_name = utf8 (fv_name e),
           rp_file = Some (utf8 (file_name (fv_filename e) n), utf8 (if t \<noteq> [] then t else ''application/octet-stream'')),
           rp_content = b\<rparr>)"

definition no_break :: "string \<Rightarrow> bool" where
  "no_break s \<longleftrightarrow> CHR 0x0D \<notin> set s"

definition plain_entry :: "string \<Rightarrow> form_entry \<Rightarrow> bool" where
  "plain_entry boundary e \<longleftrightarrow>
     no_break (fv_name e) \<and> CHR 0x22 \<notin> set (fv_name e) \<and>
     (case fv_value e of
        TextValue v \<Rightarrow> \<not> sublist (utf8 (CRLF @ ''--'' @ boundary)) (utf8 CRLF @ utf8 v)
      | BlobValue b t n \<Rightarrow>
          no_break t \<and> no_break (file_name (fv_filename e) n) \<and> CHR 0x22 \<notin> set (file_name (fv_filename e) n) \<and>
          \<not> sublist (utf8 (CRLF @ ''--'' @ boundary)) (utf8 CRLF @ b))"

lemma utf8_append [simp]: "utf8 (a @ b) = utf8 a @ utf8 b"
  by (simp add: utf8_def)

lemma utf8_Nil [simp]: "utf8 [] = []" and utf8_is_Nil [simp]: "utf8 a = [] \<longleftrightarrow> a = []"
  by (simp_all add: utf8_def)

lemma utf8_char_inj: "(word_of_nat (of_char c) :: 8 word) = word_of_nat (of_char d) \<longleftrightarrow> c = d"
proof
  assume "(word_of_nat (of_char c) :: 8 word) = word_of_nat (of_char d)"
  then have "unat (word_of_nat (of_char c) :: 8 word) = unat (word_of_nat (of_char d) :: 8 word)" by simp
  then have "(of_char c :: nat) mod 256 = of_char d mod 256" by (simp add: unat_of_nat)
  then show "c = d" by simp
qed simp

lemma utf8_member: "word_of_nat (of_char c) \<in> set (utf8 s) \<longleftrightarrow> c \<in> set s"
  by (auto simp: utf8_def utf8_char_inj)

lemma strip_append [simp]: "strip p (p @ s) = Some s"
  by (simp add: strip_def)

text \<open>A pattern whose first element does not come again in it cannot overlap with itself: the first place it is
  found at is the end of a text that does not contain it.\<close>

lemma not_early:
  assumes "c \<notin> set ps" and "\<not> sublist (c # ps) t" and "t \<noteq> []"
  shows "\<not> prefix (c # ps) (t @ c # ps @ r)"
proof
  assume p: "prefix (c # ps) (t @ c # ps @ r)"
  show False
  proof (cases "length (c # ps) \<le> length t")
    case True
    then have "prefix (c # ps) t"
      using p by (metis prefix_def prefix_length_prefix)
    then show False using assms(2) by (simp add: prefix_imp_sublist)
  next
    case False
    then have "prefix t (c # ps)"
      using p by (metis linear nat_le_linear prefix_def prefix_length_prefix)
    then obtain q where q: "c # ps = t @ q" by (auto simp: prefix_def)
    with False have "q \<noteq> []" by auto
    moreover have "prefix q (c # ps @ r)" using p q by (metis append_Cons same_prefix_prefix)
    ultimately have "c \<in> set q" by (cases q) auto
    moreover have "set q \<subseteq> set ps" using q assms(3) by (cases t) auto
    ultimately show False using assms(1) by blast
  qed
qed

lemma split_at_found:
  assumes "c \<notin> set ps" and "\<not> sublist (c # ps) t"
  shows "split_at (c # ps) (t @ c # ps @ r) = Some (t, r)"
  using assms(2)
proof (induction t)
  case (Cons x t)
  have "\<not> prefix (c # ps) ((x # t) @ c # ps @ r)"
    using not_early [OF assms(1) Cons.prems] by simp
  moreover have "\<not> sublist (c # ps) t"
    using Cons.prems by (metis sublist_Cons_right)
  ultimately show ?case using Cons.IH by simp
qed simp

lemma sublist_member: "sublist (c # ps) t \<Longrightarrow> c \<in> set t"
  by (auto simp: sublist_def)

lemma split_at_break:
  assumes "no_break l"
  shows "split_at (utf8 CRLF) (utf8 l @ utf8 CRLF @ r) = Some (utf8 l, r)"
proof -
  have crlf: "utf8 CRLF = [13, 10]" by (simp add: utf8_def CRLF_def)
  have "\<not> sublist [13, 10 :: 8 word] (utf8 l)"
    using assms utf8_member [of "CHR 0x0D" l] by (auto simp: no_break_def dest!: sublist_member)
  then show ?thesis unfolding crlf using split_at_found [of 13 "[10]" "utf8 l" r] by simp
qed

lemma quoted_back:
  assumes "CHR 0x22 \<notin> set n"
  shows "quoted (utf8 QUOTE @ utf8 n @ utf8 QUOTE @ r) = Some (utf8 n, r)"
proof -
  have quote: "utf8 QUOTE = [34]" by (simp add: utf8_def QUOTE_def)
  have "\<not> sublist [34 :: 8 word] (utf8 n)"
    using assms utf8_member [of "CHR 0x22" n] by (auto dest!: sublist_member)
  then show ?thesis
    unfolding quoted_def using split_at_found [of 34 "[]" "utf8 n" r] by (simp add: quote strip_def)
qed

lemma no_break_append [simp]: "no_break (a @ b) \<longleftrightarrow> no_break a \<and> no_break b"
  by (auto simp: no_break_def)

lemma no_break_fixed [simp]:
  "no_break QUOTE" "no_break ''Content-Disposition: form-data; name=''" "no_break ''; filename=''" "no_break ''Content-Type: ''"
  "no_break ''application/octet-stream''"
  by (simp_all add: no_break_def QUOTE_def)

text \<open>A part without the delimiter line before it and the line break after it.\<close>

definition part_text :: "form_entry \<Rightarrow> bytes" where
  "part_text e =
     (case fv_value e of
        TextValue v \<Rightarrow> utf8 (''Content-Disposition: form-data; name='' @ QUOTE @ fv_name e @ QUOTE) @ utf8 CRLF @ utf8 CRLF @ utf8 v
      | BlobValue b t n \<Rightarrow>
          utf8 (''Content-Disposition: form-data; name='' @ QUOTE @ fv_name e @ QUOTE @ ''; filename='' @ QUOTE @
            file_name (fv_filename e) n @ QUOTE) @ utf8 CRLF @
          utf8 (''Content-Type: '' @ (if t \<noteq> [] then t else ''application/octet-stream'')) @ utf8 CRLF @ utf8 CRLF @ b)"

lemma form_part_text: "form_part boundary e = utf8 (''--'' @ boundary) @ utf8 CRLF @ part_text e @ utf8 CRLF"
  unfolding form_part_def part_text_def Let_def by (cases "fv_value e") (simp_all only: utf8_append append_assoc form_value.case)

lemma read_part_back:
  assumes "plain_entry boundary e"
  shows "read_part (part_text e) = Some (said e)"
proof (cases "fv_value e")
  case (TextValue v)
  have line: "no_break (''Content-Disposition: form-data; name='' @ QUOTE @ fv_name e @ QUOTE)"
    using assms unfolding plain_entry_def by (simp only: no_break_append no_break_fixed simp_thms)
  have "quoted (utf8 QUOTE @ utf8 (fv_name e) @ utf8 QUOTE) = Some (utf8 (fv_name e), [])"
    using quoted_back [of "fv_name e" "[]"] assms by (simp add: plain_entry_def)
  then show ?thesis
    unfolding part_text_def read_part_def TextValue said_def form_value.case split_at_break [OF line] bind.bind_lunit
    by (simp only: prod.case utf8_append strip_append bind.bind_lunit simp_thms if_True option.map)
next
  case (BlobValue b t n)
  let ?t = "if t \<noteq> [] then t else ''application/octet-stream''"
  have line: "no_break (''Content-Disposition: form-data; name='' @ QUOTE @ fv_name e @ QUOTE @ ''; filename='' @ QUOTE @
      file_name (fv_filename e) n @ QUOTE)"
    using assms BlobValue unfolding plain_entry_def by (simp only: no_break_append no_break_fixed simp_thms form_value.case)
  have type: "no_break (''Content-Type: '' @ ?t)"
    using assms BlobValue unfolding plain_entry_def by (simp add: no_break_fixed del: append.simps)
  have name: "quoted (utf8 QUOTE @ utf8 (fv_name e) @ utf8 QUOTE @ r) = Some (utf8 (fv_name e), r)" for r
    using quoted_back assms by (simp add: plain_entry_def)
  have filed: "quoted (utf8 QUOTE @ utf8 (file_name (fv_filename e) n) @ utf8 QUOTE) = Some (utf8 (file_name (fv_filename e) n), [])"
    using quoted_back [of _ "[]"] assms BlobValue by (simp add: plain_entry_def)
  have more: "utf8 ''; filename='' @ r \<noteq> []" for r by (simp add: utf8_def)
  show ?thesis
    unfolding part_text_def read_part_def BlobValue said_def form_value.case split_at_break [OF line] bind.bind_lunit
    by (simp only: prod.case utf8_append strip_append bind.bind_lunit simp_thms if_False option.map name filed more
      split_at_break [OF type, unfolded utf8_append])
qed

lemma delimiter_bytes: "utf8 (CRLF @ ''--'' @ boundary) = 13 # 10 # 45 # 45 # utf8 boundary"
  by (simp add: utf8_def CRLF_def)

lemma sublist_skip: "c \<notin> set l \<Longrightarrow> sublist (c # ps) (l @ t) \<longleftrightarrow> sublist (c # ps) t"
  by (induction l) (auto simp: sublist_Cons_right)

text \<open>The delimiter is found after a line only right after its break, or later.\<close>

lemma delimiter_after_line:
  assumes "no_break l"
  shows "sublist (utf8 (CRLF @ ''--'' @ boundary)) (utf8 l @ utf8 CRLF @ t) \<longleftrightarrow>
    prefix (45 # 45 # utf8 boundary) t \<or> sublist (utf8 (CRLF @ ''--'' @ boundary)) t"
proof -
  have "13 \<notin> set (utf8 l)"
    using assms utf8_member [of "CHR 0x0D" l] by (simp add: no_break_def)
  moreover have "utf8 CRLF @ t = 13 # 10 # t" by (simp add: utf8_def CRLF_def)
  ultimately show ?thesis
    unfolding delimiter_bytes by (simp add: sublist_skip sublist_Cons_right)
qed

lemma delimiter_not_in_part:
  assumes "plain_entry boundary e"
  shows "\<not> sublist (utf8 (CRLF @ ''--'' @ boundary)) (part_text e)"
proof (cases "fv_value e")
  case (TextValue v)
  have line: "no_break (''Content-Disposition: form-data; name='' @ QUOTE @ fv_name e @ QUOTE)"
    using assms unfolding plain_entry_def by (simp only: no_break_append no_break_fixed simp_thms)
  have "\<not> prefix (45 # 45 # utf8 boundary) (utf8 CRLF @ utf8 v)" by (simp add: utf8_def CRLF_def)
  then show ?thesis
    using assms unfolding part_text_def TextValue form_value.case delimiter_after_line [OF line] plain_entry_def by blast
next
  case (BlobValue b t n)
  let ?t = "if t \<noteq> [] then t else ''application/octet-stream''"
  have line: "no_break (''Content-Disposition: form-data; name='' @ QUOTE @ fv_name e @ QUOTE @ ''; filename='' @ QUOTE @
      file_name (fv_filename e) n @ QUOTE)"
    using assms BlobValue unfolding plain_entry_def by (simp only: no_break_append no_break_fixed simp_thms form_value.case)
  have type: "no_break (''Content-Type: '' @ ?t)"
    using assms BlobValue unfolding plain_entry_def by (simp add: no_break_fixed del: append.simps)
  have "\<not> prefix (45 # 45 # utf8 boundary) (utf8 CRLF @ b)"
    and "\<not> prefix (45 # 45 # utf8 boundary) (utf8 (''Content-Type: '' @ ?t) @ r)" for r
    by (simp_all add: utf8_def CRLF_def)
  then show ?thesis
    using assms BlobValue
    unfolding part_text_def BlobValue form_value.case delimiter_after_line [OF line] delimiter_after_line [OF type] plain_entry_def
    by auto
qed

lemma read_parts_step:
  assumes "plain_entry boundary e" and "no_break boundary"
  shows "read_parts (utf8 (CRLF @ ''--'' @ boundary)) (utf8 CRLF @ part_text e @ utf8 (CRLF @ ''--'' @ boundary) @ r) =
    map_option (\<lambda>ps. said e # ps) (read_parts (utf8 (CRLF @ ''--'' @ boundary)) r)"
proof -
  have "13 \<notin> set (10 # 45 # 45 # utf8 boundary)"
    using assms(2) utf8_member [of "CHR 0x0D" boundary] by (simp add: no_break_def)
  from split_at_found [OF this, of "part_text e" r]
  have "split_at (utf8 (CRLF @ ''--'' @ boundary)) (part_text e @ utf8 (CRLF @ ''--'' @ boundary) @ r) = Some (part_text e, r)"
    using delimiter_not_in_part [OF assms(1)] unfolding delimiter_bytes by simp
  then show ?thesis
    by (subst read_parts.simps) (simp add: read_part_back [OF assms(1)] CRLF_def del: utf8_append)
qed

text \<open>The parts of a body after its first delimiter.\<close>

fun after_delimiter :: "string \<Rightarrow> form_entry list \<Rightarrow> bytes" where
  "after_delimiter boundary [] = utf8 (''--'' @ CRLF)"
| "after_delimiter boundary (e # es) =
     utf8 CRLF @ part_text e @ utf8 (CRLF @ ''--'' @ boundary) @ after_delimiter boundary es"

lemma serialize_after_delimiter:
  "serialize_form_data boundary es = utf8 (''--'' @ boundary) @ after_delimiter boundary es"
proof (induction es)
  case Nil
  show ?case by (simp add: serialize_form_data_def utf8_def)
next
  case (Cons e es)
  then show ?case unfolding serialize_form_data_def by (simp add: form_part_text utf8_append [symmetric] del: utf8_append)
qed

lemma read_parts_back:
  assumes "no_break boundary" and "\<forall>e\<in>set es. plain_entry boundary e"
  shows "read_parts (utf8 (CRLF @ ''--'' @ boundary)) (after_delimiter boundary es) = Some (map said es)"
  using assms(2)
proof (induction es)
  case Nil
  show ?case by (subst read_parts.simps) (simp add: delimiter_bytes strip_def utf8_def CRLF_def)
next
  case (Cons e es)
  then show ?case using read_parts_step [OF _ assms(1), of e] by simp
qed

text \<open>C26: what a form says is what a server reads.  When no name, file name or type has a carriage return, no
  name or file name has a quote, and no value holds the delimiter, a reader of multipart bodies that is told
  the boundary gets back each entry in order: its name, its value, and a blob's file name and type.\<close>

theorem form_reads_back:
  assumes "no_break boundary" and "\<forall>e\<in>set es. plain_entry boundary e"
  shows "read_form boundary (serialize_form_data boundary es) = Some (map said es)"
  unfolding read_form_def serialize_after_delimiter using read_parts_back [OF assms] by simp

theorem form_reads_back_witness:
  "read_form ''b'' (serialize_form_data ''b''
     [\<lparr>fv_name = ''a'', fv_value = TextValue ''--c'', fv_filename = []\<rparr>,
      \<lparr>fv_name = ''f'', fv_value = BlobValue [13, 10, 45] [] ''pic'', fv_filename = []\<rparr>]) =
   Some [\<lparr>rp_name = [97], rp_file = None, rp_content = [45, 45, 99]\<rparr>,
         \<lparr>rp_name = [102], rp_file = Some ([112, 105, 99], utf8 ''application/octet-stream''), rp_content = [13, 10, 45]\<rparr>]"
  using form_reads_back [of "''b''"
    "[\<lparr>fv_name = ''a'', fv_value = TextValue ''--c'', fv_filename = []\<rparr>,
      \<lparr>fv_name = ''f'', fv_value = BlobValue [13, 10, 45] [] ''pic'', fv_filename = []\<rparr>]"]
  by (simp add: plain_entry_def no_break_def file_name_def said_def utf8_def CRLF_def sublist_Cons_right)

text \<open>names are not escaped.  A form whose one name holds a quote and an empty line is sent as the very bytes of
  another form, with a shorter name and a longer value: no server can tell the two apart, whatever the
  boundary is.\<close>

lemma form_name_injects:
  "serialize_form_data boundary
     [\<lparr>fv_name = name @ QUOTE @ CRLF @ CRLF @ injected, fv_value = TextValue v, fv_filename = f\<rparr>] =
   serialize_form_data boundary
     [\<lparr>fv_name = name, fv_value = TextValue (injected @ QUOTE @ CRLF @ CRLF @ v), fv_filename = g\<rparr>]"
  by (simp add: serialize_form_data_def form_part_def Let_def)

lemma utf8_prefix: "prefix (utf8 a) (utf8 b) \<longleftrightarrow> prefix a b"
proof (induction a arbitrary: b)
  case (Cons x a)
  then show ?case by (cases b) (simp_all add: utf8_def utf8_char_inj)
qed simp

lemma header_get_put: "header_get (header_put k v h) k = Some v"
proof (cases "k \<in> set (map fst h)")
  case True
  then have "map_of (map (\<lambda>p. if fst p = k then (k, v) else p) h) k = Some v" by (induction h) auto
  with True show ?thesis by (simp add: header_put_def header_get_def)
next
  case False
  then have "map_of h k = None" by (simp add: map_of_eq_None_iff)
  with False show ?thesis by (simp add: header_put_def header_get_def map_add_def)
qed

text \<open>a headers object used again sends a form no server can read.  The content type of the first form is
  written into the object the caller passed, so that the second form is sent with the boundary of the first:
  its body does not even begin with that boundary's delimiter.\<close>

lemma reused_headers_break_form:
  assumes "header_falsy h ''Content-Type''" and "header_falsy h ''content-type''" and "\<not> prefix first second" and "\<not> prefix second first"
    and "fst (snd (fetch_script D nh opts hdrs first c1 f1 r1 (StringInput u)
           \<lparr>fi_method = m, fi_headers = Some (PlainHeaders h), fi_body = Some (FormBody es)\<rparr> s)) = Some h'"
    and "encode_fetch_body second c2 (FormBody es') h' = (h'', Inr (TheBytes body))"
  shows "header_get h'' ''Content-Type'' = Some (''multipart/form-data; boundary='' @ first) \<and>
    body = serialize_form_data second es' \<and> read_form first body = None"
proof -
  have "h' = header_put ''Content-Type'' (''multipart/form-data; boundary='' @ first) h"
    using assms(1,2,5)
    by (simp add: fetch_script_def normalize_fetch_input_def plain_headers_def encode_fetch_body_def buffer_body_def Let_def
      split: prod.splits if_splits)
  then have got: "header_get h' ''Content-Type'' = Some (''multipart/form-data; boundary='' @ first)"
    by (simp only: header_get_put)
  then have "\<not> header_falsy h' ''Content-Type''" by (simp add: header_falsy_def)
  with assms(6) have h'': "h'' = h'" and body: "body = serialize_form_data second es'"
    by (simp_all add: encode_fetch_body_def buffer_body_def Let_def)
  have "\<not> prefix (utf8 first) (utf8 second @ after_delimiter second es')"
    using assms(3,4) utf8_prefix by (metis prefix_def prefix_same_cases)
  then have "strip (utf8 (''--'' @ first)) (utf8 (''--'' @ second) @ after_delimiter second es') = None"
    by (simp only: strip_def utf8_append append_assoc same_prefix_prefix if_False)
  with got body show ?thesis
    unfolding h'' body read_form_def serialize_after_delimiter by simp
qed

definition form_serde :: serde where
  "form_serde =
     \<lparr>sd_string = (\<lambda>_. None), sd_fetch_options = (\<lambda>_. Inl []), sd_method = (\<lambda>_. None), sd_storage = (\<lambda>_. Inl []),
      sd_kv = (\<lambda>_. Inl []), sd_database = (\<lambda>_. Inl []), sd_d1 = (\<lambda>_. Inl []), sd_json = (\<lambda>_. Inl []), sd_headers = (\<lambda>_. Inl []),
      sd_to_string = (\<lambda>_. None), en_http = (\<lambda>_. 0), en_storage = (\<lambda>_. 0), en_kv = (\<lambda>_. 0), en_database = (\<lambda>_. 0),
      en_invoke = (\<lambda>_ _ _. 0), en_frame = (\<lambda>_. 0)\<rparr>"

definition form_options :: fetch_opts where
  "form_options = \<lparr>fi_method = Some ''POST'', fi_headers = Some (PlainHeaders []), fi_body = Some (FormBody [])\<rparr>"

text \<open>A stream that comes with an answer is the body of the response or is cancelled, and nothing else is sent.\<close>

lemma response_keeps_or_cancels:
  assumes "rm_stream m = Some i"
  shows "response_from_meta m s =
    (if null_body_status (rm_status m)
     then (native_send (StreamCancel i) s, \<lparr>mr_status = rm_status m, mr_body = MadeNull, mr_socket = rm_socket m\<rparr>)
     else (s, \<lparr>mr_status = rm_status m, mr_body = MadeStream i, mr_socket = rm_socket m\<rparr>))"
  using assms by (simp add: response_from_meta_def native_stream_cancel_def)

text \<open>Every chunk that lands settles one pull, whether the controller takes it or throws.\<close>

lemma landed_settles:
  "ns_settled (fold (native_landed ctl) chunks n) = ns_settled n + length chunks"
  by (induction chunks arbitrary: n) (auto simp: native_landed_def Let_def split: option.split)

end
