(* ===== verification/Env_Script.thy ===== *)
theory Env_Script
  imports Fetch_Script Object_Natives Callback_Values
begin

text \<open>
  The bindings of a worker as its guest sees them, from \<open>src/src/js/env.js\<close>: the environment object, D1 statements
  and Durable Object ids, which the guest holds as frozen objects and the script keeps the meaning of, and the
  methods of the storage, key-value, database, assets and worker bindings.  An object of the guest is a number.
\<close>

section \<open>State\<close>

record d1_statement =
  dt_sql :: string
  dt_params :: "js_value list"

text \<open>\<open>es_statements\<close> and \<open>es_ids\<close> are the two weak maps, \<open>es_stubs\<close> what the stubs closed over.\<close>

record env_script =
  es_statements :: "(nat, string \<times> d1_statement) hash_map"
  es_ids :: "(nat, string \<times> string) hash_map"
  es_stubs :: "(nat, string \<times> string) hash_map"
  es_next :: nat
  es_native :: native_state

definition env_script_new :: "native_state \<Rightarrow> env_script" where
  "env_script_new s = \<lparr>es_statements = [], es_ids = [], es_stubs = [], es_next = 0, es_native = s\<rparr>"

datatype env_error = EnvError string | EnvTypeError string | EnvNative js_exception

text \<open>What a call answers: an exception, a rejected or resolved promise, a promise the native function owes, or
  a new object.\<close>

datatype env_answer =
    EnvThrows env_error
  | EnvRejects env_error
  | EnvResolves js_value
  | EnvAsked native_result
  | EnvObject nat

definition ask :: "(native_state \<Rightarrow> native_state \<times> native_result) \<Rightarrow> env_script \<Rightarrow> env_script \<times> env_answer" where
  "ask f e = (let (s, r) = f (es_native e) in (e\<lparr>es_native := s\<rparr>, EnvAsked r))"

section \<open>Requests through a binding\<close>

text \<open>Null headers are passed on, unless the body implies a content type.\<close>

definition binding_fetch_script ::
    "(native_arg \<Rightarrow> native_arg \<Rightarrow> native_state \<Rightarrow> native_state \<times> native_result) \<Rightarrow> (request_options \<Rightarrow> native_arg) \<Rightarrow>
     string \<Rightarrow> (string, bytes list) result \<Rightarrow> string \<Rightarrow> fetch_input \<Rightarrow> fetch_opts \<Rightarrow> env_script \<Rightarrow> env_script \<times> env_answer" where
  "binding_fetch_script native_fn opts boundary chunks name inp options e =
     (let n = normalize_fetch_input inp options;
          h = (case nf_headers n of Some h \<Rightarrow> h | None \<Rightarrow> []);
          (h', encoded) = encode_fetch_body boundary chunks (nf_body n) h
      in case encoded of
           Inl message \<Rightarrow> (e, EnvRejects (EnvError message))
         | Inr bytes \<Rightarrow>
             if nf_headers n = None \<and> h' \<noteq> h then (e, EnvRejects (EnvTypeError ''Cannot read properties of null''))
             else
               ask (native_fn (ArgJs (JString name))
                 (opts \<lparr>ro_url = nf_url n, ro_method = nf_method n, ro_headers = map_option (\<lambda>_. h') (nf_headers n), ro_body = bytes\<rparr>)) e)"

definition assets_fetch ::
    "serde \<Rightarrow> (request_options \<Rightarrow> native_arg) \<Rightarrow> string \<Rightarrow> (string, bytes list) result \<Rightarrow> guest_fn \<Rightarrow> guest_fn \<Rightarrow>
     string \<Rightarrow> fetch_input \<Rightarrow> fetch_opts \<Rightarrow> env_script \<Rightarrow> env_script \<times> env_answer" where
  "assets_fetch D opts boundary chunks resolve reject name =
     binding_fetch_script (\<lambda>n r. native_binding_fetch BindingFetch D n r (ArgFn resolve) (ArgFn reject)) opts boundary chunks name"

definition worker_fetch ::
    "serde \<Rightarrow> (request_options \<Rightarrow> native_arg) \<Rightarrow> string \<Rightarrow> (string, bytes list) result \<Rightarrow> guest_fn \<Rightarrow> guest_fn \<Rightarrow>
     string \<Rightarrow> fetch_input \<Rightarrow> fetch_opts \<Rightarrow> env_script \<Rightarrow> env_script \<times> env_answer" where
  "worker_fetch D opts boundary chunks resolve reject name =
     binding_fetch_script (\<lambda>n r. native_binding_fetch BindingWorker D n r (ArgFn resolve) (ArgFn reject)) opts boundary chunks name"

section \<open>D1\<close>

text \<open>\<open>str\<close> is the string JavaScript makes of a value.\<close>

definition d1_value :: "(js_value \<Rightarrow> string) \<Rightarrow> js_value \<Rightarrow> (env_error, js_value) result" where
  "d1_value str v =
     (case v of
        JNull \<Rightarrow> Inr v
      | JNumber _ \<Rightarrow> Inr v
      | JDouble _ \<Rightarrow> Inr v
      | JString _ \<Rightarrow> Inr v
      | JBool _ \<Rightarrow> Inr v
      | JBytes _ \<Rightarrow> Inr v
      | _ \<Rightarrow>
          Inl (EnvError (''D1_TYPE_ERROR: Type '' @ [CHR 0x27] @ (if v = JUndefined then ''undefined'' else ''object'') @ [CHR 0x27] @
            '' not supported for value '' @ [CHR 0x27] @ str v @ [CHR 0x27])))"

fun d1_values :: "(js_value \<Rightarrow> string) \<Rightarrow> js_value list \<Rightarrow> (env_error, js_value list) result" where
  "d1_values str [] = Inr []"
| "d1_values str (v # vs) =
     (case d1_value str v of
        Inl err \<Rightarrow> Inl err
      | Inr w \<Rightarrow> (case d1_values str vs of Inl err \<Rightarrow> Inl err | Inr ws \<Rightarrow> Inr (w # ws)))"

definition statement_js :: "d1_statement \<Rightarrow> js_value" where
  "statement_js t = JObject [(''sql'', JString (dt_sql t)), (''params'', JArray (dt_params t))]"

definition query_op :: "d1_statement \<Rightarrow> string \<Rightarrow> js_value" where
  "query_op t rows = JObject [(''kind'', JString ''query''), (''statement'', statement_js t), (''rows'', JString rows)]"

definition batch_op :: "d1_statement list \<Rightarrow> js_value" where
  "batch_op ts = JObject [(''kind'', JString ''batch''), (''statements'', JArray (map statement_js ts))]"

definition exec_op :: "string \<Rightarrow> js_value" where
  "exec_op sql = JObject [(''kind'', JString ''exec''), (''sql'', JString sql)]"

definition d1_call ::
    "serde \<Rightarrow> string \<Rightarrow> js_value \<Rightarrow> guest_fn \<Rightarrow> guest_fn \<Rightarrow> env_script \<Rightarrow> env_script \<times> env_answer" where
  "d1_call D name op resolve reject e =
     ask (native_binding_d1 D (ArgJs (JString name)) (ArgJs op) (ArgFn resolve) (ArgFn reject)) e"

definition d1_prepared :: "string \<Rightarrow> string \<Rightarrow> js_value list \<Rightarrow> env_script \<Rightarrow> env_script \<times> env_answer" where
  "d1_prepared name sql params e =
     (let stmt = es_next e
      in (e\<lparr>es_next := Suc stmt, es_statements := hm_insert stmt (name, \<lparr>dt_sql = sql, dt_params = params\<rparr>) (es_statements e)\<rparr>,
          EnvObject stmt))"

definition d1_prepare :: "string \<Rightarrow> js_value \<Rightarrow> env_script \<Rightarrow> env_script \<times> env_answer" where
  "d1_prepare name sql e =
     (case sql of
        JString text_sql \<Rightarrow> d1_prepared name text_sql [] e
      | _ \<Rightarrow> (e, EnvThrows (EnvTypeError ''D1: prepare() needs a SQL string'')))"

text \<open>The methods of a statement close over the same binding, SQL and values that the weak map has for it.\<close>

definition d1_bind :: "(js_value \<Rightarrow> string) \<Rightarrow> nat \<Rightarrow> js_value list \<Rightarrow> env_script \<Rightarrow> env_script \<times> env_answer" where
  "d1_bind str stmt vals e =
     (case hm_get (es_statements e) stmt of
        None \<Rightarrow> (e, EnvThrows (EnvTypeError ''bind is not a function''))
      | Some (name, t) \<Rightarrow>
          (case d1_values str vals of
             Inl err \<Rightarrow> (e, EnvThrows err)
           | Inr params \<Rightarrow> d1_prepared name (dt_sql t) params e))"

text \<open>\<open>all\<close>, \<open>run\<close> and \<open>raw\<close> ask for all rows, \<open>first\<close> for the first.\<close>

definition d1_query :: "serde \<Rightarrow> nat \<Rightarrow> bool \<Rightarrow> guest_fn \<Rightarrow> guest_fn \<Rightarrow> env_script \<Rightarrow> env_script \<times> env_answer" where
  "d1_query D stmt all_rows resolve reject e =
     (case hm_get (es_statements e) stmt of
        None \<Rightarrow> (e, EnvThrows (EnvTypeError ''not a statement''))
      | Some (name, t) \<Rightarrow> d1_call D name (query_op t (if all_rows then ''all'' else ''first'')) resolve reject e)"

text \<open>The statements of a batch, in order; None is a value that is not an object.\<close>

fun own_statements :: "string \<Rightarrow> nat option list \<Rightarrow> env_script \<Rightarrow> (env_error, d1_statement list) result" where
  "own_statements name [] e = Inr []"
| "own_statements name (x # xs) e =
     (case Option.bind x (hm_get (es_statements e)) of
        None \<Rightarrow> Inl (EnvTypeError ''D1: batch() takes statements prepared on this binding only'')
      | Some (owner, t) \<Rightarrow>
          if owner \<noteq> name then Inl (EnvTypeError ''D1: batch() takes statements prepared on this binding only'')
          else (case own_statements name xs e of Inl err \<Rightarrow> Inl err | Inr ts \<Rightarrow> Inr (t # ts)))"

definition d1_batch :: "serde \<Rightarrow> string \<Rightarrow> nat option list option \<Rightarrow> guest_fn \<Rightarrow> guest_fn \<Rightarrow> env_script \<Rightarrow> env_script \<times> env_answer" where
  "d1_batch D name stmts resolve reject e =
     (case stmts of
        None \<Rightarrow> (e, EnvRejects (EnvTypeError ''D1: batch() needs an array of statements''))
      | Some xs \<Rightarrow>
          (case own_statements name xs e of
             Inl err \<Rightarrow> (e, EnvRejects err)
           | Inr ts \<Rightarrow> if ts = [] then (e, EnvResolves (JArray [])) else d1_call D name (batch_op ts) resolve reject e))"

definition d1_batch_result :: "js_value \<Rightarrow> js_value list" where
  "d1_batch_result r = map d1_all (js_elements (js_get r ''results''))"

definition d1_exec :: "serde \<Rightarrow> string \<Rightarrow> js_value \<Rightarrow> guest_fn \<Rightarrow> guest_fn \<Rightarrow> env_script \<Rightarrow> env_script \<times> env_answer" where
  "d1_exec D name sql resolve reject e =
     (case sql of
        JString text_sql \<Rightarrow> d1_call D name (exec_op text_sql) resolve reject e
      | _ \<Rightarrow> (e, EnvRejects (EnvTypeError ''D1: exec() needs a SQL string'')))"

definition d1_exec_result :: "js_value \<Rightarrow> js_value" where
  "d1_exec_result r = JObject [(''count'', js_get r ''count''), (''duration'', js_get r ''duration'')]"

definition d1_with_session :: "env_script \<Rightarrow> env_script \<times> env_answer" where
  "d1_with_session e = (e, EnvThrows (EnvError ''D1_ERROR: withSession() is not supported''))"

definition d1_dump :: "env_script \<Rightarrow> env_script \<times> env_answer" where
  "d1_dump e = (e, EnvRejects (EnvError ''D1_ERROR: dump() is not supported''))"

section \<open>Durable Objects\<close>

definition object_id_new :: "string \<Rightarrow> string \<Rightarrow> env_script \<Rightarrow> env_script \<times> env_answer" where
  "object_id_new binding i e =
     (let ref = es_next e
      in (e\<lparr>es_next := Suc ref, es_ids := hm_insert ref (binding, i) (es_ids e)\<rparr>, EnvObject ref))"

definition id_of_native :: "string \<Rightarrow> native_result \<Rightarrow> env_script \<Rightarrow> env_script \<times> env_answer" where
  "id_of_native binding r e =
     (case r of
        Returns (JString i) \<Rightarrow> object_id_new binding i e
      | Returns _ \<Rightarrow> (e, EnvThrows (EnvTypeError []))
      | Throws x \<Rightarrow> (e, EnvThrows (EnvNative x)))"

definition id_from_name ::
    "serde \<Rightarrow> (string \<Rightarrow> object_id_source \<Rightarrow> (string, string) result) \<Rightarrow> string \<Rightarrow> js_value \<Rightarrow> env_script \<Rightarrow> env_script \<times> env_answer" where
  "id_from_name D runner binding name e =
     (case name of
        JString _ \<Rightarrow>
          id_of_native binding (native_durable_object_id D runner (ArgJs (JString binding)) (ArgJs (JString ''name'')) (ArgJs name)) e
      | _ \<Rightarrow> (e, EnvThrows (EnvTypeError ''Durable Objects: idFromName() needs a string'')))"

definition id_from_string ::
    "serde \<Rightarrow> (string \<Rightarrow> object_id_source \<Rightarrow> (string, string) result) \<Rightarrow> string \<Rightarrow> js_value \<Rightarrow> env_script \<Rightarrow> env_script \<times> env_answer" where
  "id_from_string D runner binding id_text e =
     (case id_text of
        JString _ \<Rightarrow>
          id_of_native binding (native_durable_object_id D runner (ArgJs (JString binding)) (ArgJs (JString ''text'')) (ArgJs id_text)) e
      | _ \<Rightarrow> (e, EnvThrows (EnvTypeError ''Durable Objects: idFromString() needs a string'')))"

definition new_unique_id ::
    "serde \<Rightarrow> (string \<Rightarrow> object_id_source \<Rightarrow> (string, string) result) \<Rightarrow> string \<Rightarrow> js_value \<Rightarrow> env_script \<Rightarrow> env_script \<times> env_answer" where
  "new_unique_id D runner binding jurisdiction e =
     (if jurisdiction \<noteq> JUndefined then (e, EnvThrows (EnvTypeError ''Durable Objects: jurisdictions are not supported''))
      else id_of_native binding
             (native_durable_object_id D runner (ArgJs (JString binding)) (ArgJs (JString ''unique'')) (ArgJs JUndefined)) e)"

definition object_get :: "string \<Rightarrow> nat option \<Rightarrow> env_script \<Rightarrow> env_script \<times> env_answer" where
  "object_get binding ref e =
     (case Option.bind ref (hm_get (es_ids e)) of
        None \<Rightarrow> (e, EnvThrows (EnvTypeError ''Durable Objects: get() takes an id of this namespace''))
      | Some (owner, i) \<Rightarrow>
          if owner \<noteq> binding then (e, EnvThrows (EnvTypeError ''Durable Objects: get() takes an id of this namespace''))
          else
            (let stub = es_next e
             in (e\<lparr>es_next := Suc stub, es_stubs := hm_insert stub (binding, i) (es_stubs e)\<rparr>, EnvObject stub)))"

definition get_by_name ::
    "serde \<Rightarrow> (string \<Rightarrow> object_id_source \<Rightarrow> (string, string) result) \<Rightarrow> string \<Rightarrow> js_value \<Rightarrow> env_script \<Rightarrow> env_script \<times> env_answer" where
  "get_by_name D runner binding name e =
     (case id_from_name D runner binding name e of
        (e, EnvObject ref) \<Rightarrow> object_get binding (Some ref) e
      | (e, answer) \<Rightarrow> (e, answer))"

text \<open>\<open>equals\<close>: \<open>other\<close> is the string of an object, None for what is not an object.\<close>

definition object_id_equals :: "nat \<Rightarrow> string option \<Rightarrow> env_script \<Rightarrow> bool" where
  "object_id_equals ref other e = (case hm_get (es_ids e) ref of None \<Rightarrow> False | Some (_, i) \<Rightarrow> other = Some i)"

definition stub_fetch ::
    "serde \<Rightarrow> (request_options \<Rightarrow> native_arg) \<Rightarrow> string \<Rightarrow> (string, bytes list) result \<Rightarrow> guest_fn \<Rightarrow> guest_fn \<Rightarrow>
     nat \<Rightarrow> fetch_input \<Rightarrow> fetch_opts \<Rightarrow> env_script \<Rightarrow> env_script \<times> env_answer" where
  "stub_fetch D opts boundary chunks resolve reject stub inp options e =
     (case hm_get (es_stubs e) stub of
        None \<Rightarrow> (e, EnvThrows (EnvTypeError ''fetch is not a function''))
      | Some (binding, i) \<Rightarrow>
          binding_fetch_script
            (\<lambda>name request. native_binding_durable_object D name (ArgJs (JString i)) request (ArgFn resolve) (ArgFn reject))
            opts boundary chunks binding inp options e)"

section \<open>Storage, key-value and database\<close>

text \<open>\<open>__bindingCall\<close>: a method of a binding is a call of its native function with its name and parameters.\<close>

definition binding_call ::
    "(native_arg \<Rightarrow> native_arg \<Rightarrow> native_arg \<Rightarrow> native_arg \<Rightarrow> native_arg \<Rightarrow> native_state \<Rightarrow> native_state \<times> native_result) \<Rightarrow>
     string \<Rightarrow> string \<Rightarrow> js_value \<Rightarrow> guest_fn \<Rightarrow> guest_fn \<Rightarrow> env_script \<Rightarrow> env_script \<times> env_answer" where
  "binding_call native_fn name meth params resolve reject e =
     ask (native_fn (ArgJs (JString name)) (ArgJs (JString meth)) (ArgJs params) (ArgFn resolve) (ArgFn reject)) e"

text \<open>A method with its parameters.  \<open>options?.x\<close> is undefined when there are no options; a value is truthy as in
  JavaScript, where the bits of a double tell NaN and zero.\<close>

datatype storage_method =
    StorageGet js_value
  | StoragePut js_value js_value
  | StorageHead js_value
  | StorageList js_value
  | StorageDelete js_value
  | StorageFetch js_value

definition truthy :: "js_value \<Rightarrow> bool" where
  "truthy v =
     (case v of
        JUndefined \<Rightarrow> False
      | JNull \<Rightarrow> False
      | JBool b \<Rightarrow> b
      | JNumber n \<Rightarrow> n \<noteq> 0
      | JDouble bits \<Rightarrow> if f64_fraction bits = 0 then f64_exponent bits \<noteq> 0 else f64_exponent bits \<noteq> 2047
      | JString t \<Rightarrow> t \<noteq> []
      | _ \<Rightarrow> True)"

definition storage_method_call :: "storage_method \<Rightarrow> string \<times> js_value" where
  "storage_method_call m =
     (case m of
        StorageGet key \<Rightarrow> (''get'', JObject [(''key'', key)])
      | StoragePut key v \<Rightarrow>
          (''put'', JObject [(''key'', key), (''body'', case v of JString t \<Rightarrow> JBytes (utf8 t) | _ \<Rightarrow> v)])
      | StorageHead key \<Rightarrow> (''head'', JObject [(''key'', key)])
      | StorageList options \<Rightarrow>
          (''list'', JObject [(''prefix'', js_get options ''prefix''), (''limit'', js_get options ''limit'')])
      | StorageDelete key \<Rightarrow> (''delete'', JObject [(''key'', key)])
      | StorageFetch pathname \<Rightarrow> (''fetch'', JObject [(''key'', pathname)]))"

definition storage_call :: "serde \<Rightarrow> string \<Rightarrow> storage_method \<Rightarrow> guest_fn \<Rightarrow> guest_fn \<Rightarrow> env_script \<Rightarrow> env_script \<times> env_answer" where
  "storage_call D name m resolve reject e =
     (let (meth, params) = storage_method_call m in binding_call (native_binding_storage D) name meth params resolve reject e)"

text \<open>What the promise of a method resolves to, from what the native function answered; the response of
  \<open>fetch\<close> is \<open>response_from_meta\<close>.\<close>

definition storage_answer :: "(bytes \<Rightarrow> string) \<Rightarrow> storage_method \<Rightarrow> js_value \<Rightarrow> js_value" where
  "storage_answer decode m r =
     (case m of
        StorageGet _ \<Rightarrow> (case js_get r ''body'' of JBytes b \<Rightarrow> JString (decode b) | _ \<Rightarrow> JNull)
      | StoragePut _ _ \<Rightarrow> JUndefined
      | StorageHead _ \<Rightarrow> JObject [(''size'', js_get r ''size''), (''etag'', js_get r ''etag'')]
      | StorageList _ \<Rightarrow> JObject [(''keys'', js_get r ''keys''), (''truncated'', js_get r ''truncated'')]
      | StorageDelete _ \<Rightarrow> JUndefined
      | StorageFetch _ \<Rightarrow> r)"

datatype kv_method = KvMethodGet js_value | KvMethodPut js_value js_value js_value | KvMethodDelete js_value | KvMethodList js_value

definition kv_method_call :: "kv_method \<Rightarrow> string \<times> js_value" where
  "kv_method_call m =
     (case m of
        KvMethodGet key \<Rightarrow> (''get'', JObject [(''key'', key)])
      | KvMethodPut key v options \<Rightarrow>
          (let params = JObject [(''key'', key), (''value'', v)];
               expires = js_get options ''expiresIn''
           in (''put'', if truthy expires then js_set ''expiresIn'' expires params else params))
      | KvMethodDelete key \<Rightarrow> (''delete'', JObject [(''key'', key)])
      | KvMethodList options \<Rightarrow>
          (let params = JObject [];
               params = (if truthy (js_get options ''prefix'') then js_set ''prefix'' (js_get options ''prefix'') params else params);
               params = (if truthy (js_get options ''limit'') then js_set ''limit'' (js_get options ''limit'') params else params)
           in (''list'', params)))"

definition kv_call :: "serde \<Rightarrow> string \<Rightarrow> kv_method \<Rightarrow> guest_fn \<Rightarrow> guest_fn \<Rightarrow> env_script \<Rightarrow> env_script \<times> env_answer" where
  "kv_call D name m resolve reject e =
     (let (meth, params) = kv_method_call m in binding_call (native_binding_kv D) name meth params resolve reject e)"

definition kv_answer :: "kv_method \<Rightarrow> js_value \<Rightarrow> js_value" where
  "kv_answer m r =
     (case m of KvMethodGet _ \<Rightarrow> js_get r ''value'' | KvMethodList _ \<Rightarrow> js_get r ''keys'' | _ \<Rightarrow> JUndefined)"

definition database_query :: "serde \<Rightarrow> string \<Rightarrow> js_value \<Rightarrow> js_value \<Rightarrow> guest_fn \<Rightarrow> guest_fn \<Rightarrow> env_script \<Rightarrow> env_script \<times> env_answer" where
  "database_query D name sql params resolve reject e =
     binding_call (native_binding_database D) name ''query''
       (JObject [(''sql'', sql), (''params'', if truthy params then params else JArray [])]) resolve reject e"

text \<open>The command is checked in the executor of the promise, whose exceptions reject it.\<close>

definition invoke_call ::
    "serde \<Rightarrow> guest_code \<Rightarrow> bool \<Rightarrow> (payload \<Rightarrow> invoke_poll) \<Rightarrow> string \<Rightarrow> js_value \<Rightarrow> js_value \<Rightarrow> guest_fn \<Rightarrow> guest_fn \<Rightarrow>
     env_script \<Rightarrow> env_script \<times> env_answer" where
  "invoke_call D code json host name command call_args resolve reject e =
     (case command of
        JString _ \<Rightarrow>
          ask (native_binding_invoke D code json host (ArgJs (JString name)) (ArgJs command)
            (ArgJs (if call_args = JUndefined then JNull else call_args)) (ArgFn resolve) (ArgFn reject)) e
      | _ \<Rightarrow> (e, EnvRejects (EnvTypeError ''invoke: the command is not a string'')))"

section \<open>The environment\<close>

datatype binding_kind = KindAssets | KindStorage | KindKv | KindDatabase | KindD1 | KindWorker | KindDurableObject | KindInvoke | KindImages

datatype env_value = EnvVariable js_value | EnvBinding binding_kind string

text \<open>The key of \<open>make\<close>; a type it does not have is not a function.\<close>

definition binding_kind_of :: "string \<Rightarrow> binding_kind option" where
  "binding_kind_of t =
     (if t = ''assets'' then Some KindAssets else if t = ''storage'' then Some KindStorage else if t = ''kv'' then Some KindKv
      else if t = ''database'' then Some KindDatabase else if t = ''d1'' then Some KindD1 else if t = ''worker'' then Some KindWorker
      else if t = ''durable_object'' then Some KindDurableObject else if t = ''invoke'' then Some KindInvoke
      else if t = ''images'' then Some KindImages else None)"

definition images_input :: "env_script \<Rightarrow> env_script \<times> env_answer" where
  "images_input e = (e, EnvThrows (EnvError ''images binding is not supported by this runtime''))"

fun install_bindings :: "(string \<times> string) list \<Rightarrow> (string, env_value) hash_map \<Rightarrow> (env_error, (string, env_value) hash_map) result" where
  "install_bindings [] env = Inr env"
| "install_bindings ((name, type) # bs) env =
     (case binding_kind_of type of
        None \<Rightarrow> Inl (EnvTypeError ''make[type] is not a function'')
      | Some k \<Rightarrow> install_bindings bs (hm_insert name (EnvBinding k name) env))"

definition install_env :: "(string \<times> js_value) list \<Rightarrow> (string \<times> string) list \<Rightarrow> (env_error, (string, env_value) hash_map) result" where
  "install_env vars bindings = install_bindings bindings (fold (\<lambda>(k, v). hm_insert k (EnvVariable v)) vars [])"

section \<open>What a guest can do with its bindings\<close>

datatype env_op =
    OpPrepare string js_value
  | OpBind nat "js_value list"
  | OpQuery nat bool guest_fn guest_fn
  | OpBatch string "nat option list option" guest_fn guest_fn
  | OpExec string js_value guest_fn guest_fn
  | OpIdFromName string js_value
  | OpIdFromString string js_value
  | OpUniqueId string js_value
  | OpGet string "nat option"
  | OpGetByName string js_value
  | OpStubFetch nat guest_fn guest_fn fetch_input fetch_opts "(string, bytes list) result"
  | OpAssets string guest_fn guest_fn fetch_input fetch_opts "(string, bytes list) result"
  | OpWorker string guest_fn guest_fn fetch_input fetch_opts "(string, bytes list) result"
  | OpStorage string storage_method guest_fn guest_fn
  | OpKv string kv_method guest_fn guest_fn
  | OpDatabase string js_value js_value guest_fn guest_fn

text \<open>What the world around the script answers.\<close>

record env_world =
  ew_serde :: serde
  ew_runner :: "string \<Rightarrow> object_id_source \<Rightarrow> (string, string) result"
  ew_string :: "js_value \<Rightarrow> string"
  ew_options :: "request_options \<Rightarrow> native_arg"
  ew_boundary :: string

definition env_op :: "env_world \<Rightarrow> env_op \<Rightarrow> env_script \<Rightarrow> env_script \<times> env_answer" where
  "env_op W op e =
     (let D = ew_serde W in
      case op of
        OpPrepare name sql \<Rightarrow> d1_prepare name sql e
      | OpBind stmt vals \<Rightarrow> d1_bind (ew_string W) stmt vals e
      | OpQuery stmt all_rows f g \<Rightarrow> d1_query D stmt all_rows f g e
      | OpBatch name xs f g \<Rightarrow> d1_batch D name xs f g e
      | OpExec name sql f g \<Rightarrow> d1_exec D name sql f g e
      | OpIdFromName b v \<Rightarrow> id_from_name D (ew_runner W) b v e
      | OpIdFromString b v \<Rightarrow> id_from_string D (ew_runner W) b v e
      | OpUniqueId b v \<Rightarrow> new_unique_id D (ew_runner W) b v e
      | OpGet b ref \<Rightarrow> object_get b ref e
      | OpGetByName b v \<Rightarrow> get_by_name D (ew_runner W) b v e
      | OpStubFetch stub f g inp options chunks \<Rightarrow>
          stub_fetch D (ew_options W) (ew_boundary W) chunks f g stub inp options e
      | OpAssets name f g inp options chunks \<Rightarrow>
          assets_fetch D (ew_options W) (ew_boundary W) chunks f g name inp options e
      | OpWorker name f g inp options chunks \<Rightarrow>
          worker_fetch D (ew_options W) (ew_boundary W) chunks f g name inp options e
      | OpStorage name m f g \<Rightarrow> storage_call D name m f g e
      | OpKv name m f g \<Rightarrow> kv_call D name m f g e
      | OpDatabase name sql params f g \<Rightarrow> database_query D name sql params f g e)"

text \<open>The SQL the guest prepared on a binding, and the operations that consist of it.\<close>

definition prepared_sql :: "env_op list \<Rightarrow> (string \<times> string) set" where
  "prepared_sql ops = {(name, sql). OpPrepare name (JString sql) \<in> set ops}"

definition storable :: "js_value \<Rightarrow> bool" where
  "storable v = (case v of JUndefined \<Rightarrow> False | JArray _ \<Rightarrow> False | JObject _ \<Rightarrow> False | JMap _ \<Rightarrow> False | JPromise _ _ \<Rightarrow> False
     | JError _ \<Rightarrow> False | _ \<Rightarrow> True)"

definition own_statement :: "string \<Rightarrow> (string \<times> string) set \<Rightarrow> d1_statement \<Rightarrow> bool" where
  "own_statement name S t \<longleftrightarrow> (name, dt_sql t) \<in> S \<and> (\<forall>v\<in>set (dt_params t). storable v)"

definition own_op :: "string \<Rightarrow> (string \<times> string) set \<Rightarrow> js_value \<Rightarrow> bool" where
  "own_op name S op \<longleftrightarrow>
     (\<exists>t rows. op = query_op t rows \<and> own_statement name S t) \<or>
     (\<exists>ts. op = batch_op ts \<and> ts \<noteq> [] \<and> (\<forall>t\<in>set ts. own_statement name S t)) \<or>
     (\<exists>sql. op = exec_op sql)"

definition message_allowed :: "env_world \<Rightarrow> (string \<times> string) set \<Rightarrow> scheduler_message \<Rightarrow> bool" where
  "message_allowed W S m \<longleftrightarrow>
     (case m of
        BindingDurableObject _ b oid _ \<Rightarrow> (\<exists>src. ew_runner W b src = Inr oid)
      | BindingD1 _ b p \<Rightarrow> (\<exists>op. sd_d1 (ew_serde W) (ArgJs op) = Inr p \<and> own_op b S op)
      | _ \<Rightarrow> True)"

definition env_inv :: "env_world \<Rightarrow> (string \<times> string) set \<Rightarrow> env_script \<Rightarrow> bool" where
  "env_inv W S e \<longleftrightarrow>
     (\<forall>n name t. hm_get (es_statements e) n = Some (name, t) \<longrightarrow> own_statement name S t) \<and>
     (\<forall>n b i. hm_get (es_ids e) n = Some (b, i) \<longrightarrow> (\<exists>src. ew_runner W b src = Inr i)) \<and>
     (\<forall>n b i. hm_get (es_stubs e) n = Some (b, i) \<longrightarrow> (\<exists>src. ew_runner W b src = Inr i)) \<and>
     (\<forall>m\<in>set (nv_sent (es_native e)). message_allowed W S m)"

definition names_kept :: "env_world \<Rightarrow> bool" where
  "names_kept W \<longleftrightarrow> (\<forall>t. sd_string (ew_serde W) (ArgJs (JString t)) = Some t)"

lemma owe_answer_sent:
  "nv_sent (fst (owe_answer f g m s)) = nv_sent s \<or> (\<exists>i. nv_sent (fst (owe_answer f g m s)) = nv_sent s @ [m i])"
  by (auto simp: owe_answer_def throw_type_error_def native_send_def Let_def split: option.split prod.split)

lemma env_inv_ask:
  assumes "env_inv W S e" and "nv_sent (fst (f (es_native e))) = nv_sent (es_native e) \<or>
    (\<exists>m. nv_sent (fst (f (es_native e))) = nv_sent (es_native e) @ [m] \<and> message_allowed W S m)"
  shows "env_inv W S (fst (ask f e))"
  using assms by (auto simp: env_inv_def ask_def split: prod.split)

lemma native_d1_sent:
  assumes "names_kept W"
  shows "nv_sent (fst (native_binding_d1 (ew_serde W) (ArgJs (JString name)) (ArgJs op) f g s)) = nv_sent s \<or>
    (\<exists>i p. sd_d1 (ew_serde W) (ArgJs op) = Inr p \<and>
      nv_sent (fst (native_binding_d1 (ew_serde W) (ArgJs (JString name)) (ArgJs op) f g s)) = nv_sent s @ [BindingD1 i name p])"
  using assms owe_answer_sent [of f g _ s]
  by (auto simp: native_binding_d1_def names_kept_def throw_type_error_def split: sum.split)

lemma native_object_sent:
  assumes "names_kept W"
  shows "nv_sent (fst (native_binding_durable_object (ew_serde W) (ArgJs (JString b)) (ArgJs (JString oid)) r f g s)) = nv_sent s \<or>
    (\<exists>i p. nv_sent (fst (native_binding_durable_object (ew_serde W) (ArgJs (JString b)) (ArgJs (JString oid)) r f g s)) =
      nv_sent s @ [BindingDurableObject i b oid p])"
  using assms owe_answer_sent [of f g _ s]
  by (auto simp: native_binding_durable_object_def names_kept_def throw_type_error_def split: sum.split)

lemma native_other_sent:
  "nv_sent (fst (native_binding_storage D n m p f g s)) = nv_sent s \<or>
    (\<exists>i b q. nv_sent (fst (native_binding_storage D n m p f g s)) = nv_sent s @ [BindingStorage i b q])"
  "nv_sent (fst (native_binding_kv D n m p f g s)) = nv_sent s \<or>
    (\<exists>i b q. nv_sent (fst (native_binding_kv D n m p f g s)) = nv_sent s @ [BindingKv i b q])"
  "nv_sent (fst (native_binding_database D n m p f g s)) = nv_sent s \<or>
    (\<exists>i b q. nv_sent (fst (native_binding_database D n m p f g s)) = nv_sent s @ [BindingDatabase i b q])"
  using owe_answer_sent [of f g _ s]
  by (auto simp: native_binding_storage_def native_binding_kv_def native_binding_database_def throw_type_error_def
    split: sum.split option.split)

lemma d1_call_inv:
  assumes "env_inv W S e" "names_kept W" "own_op name S op"
  shows "env_inv W S (fst (d1_call (ew_serde W) name op f g e))"
  unfolding d1_call_def
proof (rule env_inv_ask [OF assms(1)])
  show "nv_sent (fst (native_binding_d1 (ew_serde W) (ArgJs (JString name)) (ArgJs op) (ArgFn f) (ArgFn g) (es_native e))) =
      nv_sent (es_native e) \<or>
    (\<exists>m. nv_sent (fst (native_binding_d1 (ew_serde W) (ArgJs (JString name)) (ArgJs op) (ArgFn f) (ArgFn g) (es_native e))) =
      nv_sent (es_native e) @ [m] \<and> message_allowed W S m)"
    using native_d1_sent [OF assms(2), of name op "ArgFn f" "ArgFn g" "es_native e"] assms(3)
    by (fastforce simp: message_allowed_def)
qed

lemma d1_prepared_inv:
  "env_inv W S e \<Longrightarrow> own_statement name S \<lparr>dt_sql = sql, dt_params = params\<rparr> \<Longrightarrow> env_inv W S (fst (d1_prepared name sql params e))"
  by (auto simp: env_inv_def d1_prepared_def Let_def)

lemma d1_values_storable: "d1_values str vs = Inr ws \<Longrightarrow> v \<in> set ws \<Longrightarrow> storable v"
proof (induction vs arbitrary: ws)
  case (Cons x vs)
  then show ?case
    by (cases x) (auto simp: d1_value_def storable_def split: sum.splits)
qed simp

lemma own_statements_own:
  "env_inv W S e \<Longrightarrow> own_statements name xs e = Inr ts \<Longrightarrow> t \<in> set ts \<Longrightarrow> own_statement name S t"
proof (induction xs arbitrary: ts)
  case (Cons x xs)
  then show ?case
    by (auto simp: env_inv_def split: option.splits sum.splits if_splits Option.bind_splits)
qed simp

lemma id_of_native_inv:
  assumes "env_inv W S e" "names_kept W"
  shows "env_inv W S (fst (id_of_native b (native_durable_object_id (ew_serde W) (ew_runner W) (ArgJs (JString b)) k v) e))"
proof (cases "native_durable_object_id (ew_serde W) (ew_runner W) (ArgJs (JString b)) k v")
  case (Returns r)
  show ?thesis
  proof (cases r)
    case (JString i)
    have "\<exists>src. ew_runner W b src = Inr i"
      using Returns assms(2) unfolding JString native_durable_object_id_def names_kept_def
      by (auto simp: Let_def split: option.splits sum.splits)
    with assms(1) show ?thesis
      by (auto simp: Returns JString id_of_native_def object_id_new_def env_inv_def Let_def)
  qed (use assms(1) Returns in \<open>simp_all add: id_of_native_def\<close>)
next
  case (Throws x)
  with assms(1) show ?thesis by (simp add: id_of_native_def)
qed

lemma object_get_inv: "env_inv W S e \<Longrightarrow> env_inv W S (fst (object_get b ref e))"
  by (auto simp: object_get_def env_inv_def Let_def split: option.split Option.bind_split)

lemma id_from_name_inv: "env_inv W S e \<Longrightarrow> names_kept W \<Longrightarrow> env_inv W S (fst (id_from_name (ew_serde W) (ew_runner W) b v e))"
  unfolding id_from_name_def by (cases v) (simp_all add: id_of_native_inv)

lemma get_by_name_inv:
  assumes "env_inv W S e" "names_kept W"
  shows "env_inv W S (fst (get_by_name (ew_serde W) (ew_runner W) b v e))"
proof -
  have "env_inv W S (fst (id_from_name (ew_serde W) (ew_runner W) b v e))" using id_from_name_inv assms by blast
  then show ?thesis
    unfolding get_by_name_def by (auto simp: object_get_inv split: prod.split env_answer.split)
qed

lemma stub_fetch_inv:
  assumes "env_inv W S e" "names_kept W"
  shows "env_inv W S (fst (stub_fetch (ew_serde W) opts boundary chunks f g stub inp options e))"
proof (cases "hm_get (es_stubs e) stub")
  case None
  with assms show ?thesis by (simp add: stub_fetch_def)
next
  case (Some x)
  obtain b oid where x: "x = (b, oid)" by fastforce
  with Some assms(1) have "\<exists>src. ew_runner W b src = Inr oid" by (auto simp: env_inv_def)
  then have "env_inv W S (fst (ask (native_binding_durable_object (ew_serde W) (ArgJs (JString b)) (ArgJs (JString oid)) r
      (ArgFn f) (ArgFn g)) e))" for r
    using native_object_sent [OF assms(2), of b oid r "ArgFn f" "ArgFn g" "es_native e"]
    by (intro env_inv_ask [OF assms(1)]) (fastforce simp: message_allowed_def)
  with Some x assms show ?thesis
    by (auto simp: stub_fetch_def binding_fetch_script_def Let_def split: prod.split sum.split)
qed

lemma native_fetch_sent:
  "nv_sent (fst (native_binding_fetch msg D n r f g s)) = nv_sent s \<or>
    (\<exists>i b p. nv_sent (fst (native_binding_fetch msg D n r f g s)) = nv_sent s @ [msg i b p])"
  using owe_answer_sent [of f g _ s]
  by (auto simp: native_binding_fetch_def throw_type_error_def split: sum.split option.split)

lemma named_fetch_inv:
  assumes "env_inv W S e"
  shows "env_inv W S (fst (assets_fetch D opts boundary chunks f g name inp options e))"
    "env_inv W S (fst (worker_fetch D opts boundary chunks f g name inp options e))"
proof -
  have "env_inv W S (fst (ask (native_binding_fetch msg D n r (ArgFn f) (ArgFn g)) e))"
    if "\<And>i b p. message_allowed W S (msg i b p)" for msg n r
    using native_fetch_sent [of msg D n r "ArgFn f" "ArgFn g" "es_native e"] that
    by (intro env_inv_ask [OF assms]) blast
  then show "env_inv W S (fst (assets_fetch D opts boundary chunks f g name inp options e))"
    "env_inv W S (fst (worker_fetch D opts boundary chunks f g name inp options e))"
    using assms by (auto simp: assets_fetch_def worker_fetch_def binding_fetch_script_def message_allowed_def Let_def
      split: prod.split sum.split)
qed

lemma binding_calls_inv:
  assumes "env_inv W S e"
  shows "env_inv W S (fst (storage_call D name m f g e))" "env_inv W S (fst (kv_call D name km f g e))"
    "env_inv W S (fst (database_query D name sql params f g e))"
  unfolding storage_call_def kv_call_def database_query_def binding_call_def Let_def
  by (auto split: prod.split intro!: env_inv_ask [OF assms])
    (metis (no_types, lifting) native_other_sent message_allowed_def scheduler_message.case)+

lemma env_op_inv:
  assumes inv: "env_inv W S e" and names: "names_kept W" and own: "prepared_sql [op] \<subseteq> S"
  shows "env_inv W S (fst (env_op W op e))"
proof (cases op)
  case (OpPrepare name sql)
  then show ?thesis
    using inv own by (cases sql) (auto simp: env_op_def d1_prepare_def prepared_sql_def own_statement_def intro: d1_prepared_inv)
next
  case (OpBind stmt vals)
  have "own_statement name S \<lparr>dt_sql = dt_sql t, dt_params = ps\<rparr>"
    if "hm_get (es_statements e) stmt = Some (name, t)" "d1_values (ew_string W) vals = Inr ps" for name t ps
    using that inv d1_values_storable [OF that(2)] by (auto simp: env_inv_def own_statement_def)
  with OpBind inv show ?thesis
    by (auto simp: env_op_def d1_bind_def Let_def split: option.split sum.split intro: d1_prepared_inv)
next
  case (OpQuery stmt rows f g)
  have "own_op name S (query_op t r)" if "hm_get (es_statements e) stmt = Some (name, t)" for name t r
    using that inv by (auto simp: env_inv_def own_op_def)
  with OpQuery inv show ?thesis
    by (auto simp: env_op_def d1_query_def Let_def split: option.split intro: d1_call_inv [OF _ names])
next
  case (OpBatch name xs f g)
  have "own_op name S (batch_op ts)" if "own_statements name ys e = Inr ts" "ts \<noteq> []" for ys ts
    using that own_statements_own [OF inv] by (auto simp: own_op_def)
  with OpBatch inv show ?thesis
    by (auto simp: env_op_def d1_batch_def Let_def split: option.split sum.split intro: d1_call_inv [OF _ names])
next
  case (OpExec name sql f g)
  have "own_op name S (exec_op t)" for t by (auto simp: own_op_def)
  with OpExec inv show ?thesis
    by (cases sql) (auto simp: env_op_def d1_exec_def Let_def intro: d1_call_inv [OF _ names])
next
  case (OpIdFromString b v)
  with inv names show ?thesis by (cases v) (auto simp: env_op_def id_from_string_def id_of_native_inv Let_def)
next
  case (OpUniqueId b v)
  with inv names show ?thesis by (auto simp: env_op_def new_unique_id_def id_of_native_inv Let_def)
qed (use inv names in \<open>simp_all add: env_op_def Let_def id_from_name_inv object_get_inv get_by_name_inv stub_fetch_inv named_fetch_inv binding_calls_inv\<close>)

lemma env_run_inv:
  "env_inv W S e \<Longrightarrow> names_kept W \<Longrightarrow> prepared_sql ops \<subseteq> S \<Longrightarrow> env_inv W S (fold (\<lambda>op e. fst (env_op W op e)) ops e)"
proof (induction ops arbitrary: e)
  case (Cons op ops)
  have "prepared_sql [op] \<subseteq> S" "prepared_sql ops \<subseteq> S" using Cons.prems(3) by (auto simp: prepared_sql_def)
  with Cons show ?case by (simp add: env_op_inv)
qed simp

text \<open>C13: A binding is a capability.  Whatever the guest calls on its bindings, in any order and with any objects: a
  statement or a batch reaches a database only with SQL that was prepared on that very binding and values
  that can be stored, and a request reaches a Durable Object only under an id the runner gave out for
  that very namespace.\<close>

theorem bindings_are_capabilities:
  assumes "names_kept W" "nv_sent s = []" "e = fold (\<lambda>op e. fst (env_op W op e)) ops (env_script_new s)"
  shows "\<forall>m\<in>set (nv_sent (es_native e)). message_allowed W (prepared_sql ops) m"
proof -
  have "env_inv W (prepared_sql ops) (env_script_new s)"
    using assms(2) by (simp add: env_inv_def env_script_new_def hm_get_def)
  from env_run_inv [OF this assms(1) order_refl] assms(3) show ?thesis by (simp add: env_inv_def)
qed

definition env_serde :: serde where
  "env_serde =
     form_serde\<lparr>sd_string := (\<lambda>a. case a of ArgJs (JString t) \<Rightarrow> Some t | _ \<Rightarrow> None), sd_d1 := (\<lambda>_. Inr 7),
       sd_fetch_options := (\<lambda>_. Inr \<lparr>fo_url = [], fo_method = None, fo_headers = [], fo_body = None\<rparr>), sd_method := Some\<rparr>"

definition sample_world :: env_world where
  "sample_world =
     \<lparr>ew_serde = env_serde, ew_runner = (\<lambda>b src. Inr (b @ ''-id'')), ew_string = (\<lambda>_. []), ew_options = (\<lambda>_. ArgJs JNull), ew_boundary = []\<rparr>"

text \<open>A statement of one database in a batch of another is refused, one of its own is sent; so is a request to an
  object of the namespace.\<close>

definition sample_ops :: "env_op list" where
  "sample_ops =
     [OpPrepare ''a'' (JString ''select''), OpBatch ''b'' (Some [Some 0]) 1 2, OpBatch ''a'' (Some [Some 0]) 3 4,
      OpIdFromName ''n'' (JString ''x''), OpGet ''m'' (Some 1), OpGet ''n'' (Some 1),
      OpStubFetch 2 5 6 (StringInput ''u'') \<lparr>fi_method = None, fi_headers = None, fi_body = None\<rparr> (Inr [])]"

theorem bindings_are_capabilities_witness:
  "let e = fold (\<lambda>op e. fst (env_op sample_world op e)) sample_ops (env_script_new (native_new 1)) in
   nv_sent (es_native e) = [BindingD1 1 ''a'' 7, BindingDurableObject 2 ''n'' ''n-id'' 0] \<and>
   (\<forall>m\<in>set (nv_sent (es_native e)). message_allowed sample_world {(''a'', ''select'')} m)"
proof -
  let ?e = "fold (\<lambda>op e. fst (env_op sample_world op e)) sample_ops (env_script_new (native_new 1))"
  have sent: "nv_sent (es_native ?e) = [BindingD1 1 ''a'' 7, BindingDurableObject 2 ''n'' ''n-id'' 0]" by code_simp
  have "names_kept sample_world" by (simp add: names_kept_def sample_world_def env_serde_def form_serde_def)
  moreover have "nv_sent (native_new 1) = []" by (simp add: native_new_def)
  moreover have "prepared_sql sample_ops = {(''a'', ''select'')}" by (auto simp: prepared_sql_def sample_ops_def)
  ultimately have "\<forall>m\<in>set (nv_sent (es_native ?e)). message_allowed sample_world {(''a'', ''select'')} m"
    using bindings_are_capabilities [of sample_world "native_new 1" ?e sample_ops, OF _ _ refl] by simp
  with sent show ?thesis unfolding Let_def by blast
qed

text \<open>The environment has every binding under its name, the last one of a name, and the variables whose name no
  binding has.\<close>

lemma install_bindings_get:
  "install_bindings bs env = Inr env' \<Longrightarrow>
   hm_get env' name = (case map_of (rev bs) name of
     Some t \<Rightarrow> map_option (\<lambda>k. EnvBinding k name) (binding_kind_of t) | None \<Rightarrow> hm_get env name)"
proof (induction bs env rule: install_bindings.induct)
  case (2 n t bs env)
  then show ?case
    by (auto simp: map_add_def split: option.splits)
qed simp

lemma variables_get: "hm_get (fold (\<lambda>(k, v). hm_insert k (EnvVariable v)) vars env) name =
   (case map_of (rev vars) name of Some v \<Rightarrow> Some (EnvVariable v) | None \<Rightarrow> hm_get env name)"
  by (induction vars arbitrary: env) (auto simp: map_add_def split: option.splits)

lemma install_env_get:
  assumes "install_env vars bindings = Inr env"
  shows "hm_get env name =
    (case map_of (rev bindings) name of
       Some t \<Rightarrow> map_option (\<lambda>k. EnvBinding k name) (binding_kind_of t)
     | None \<Rightarrow> map_option EnvVariable (map_of (rev vars) name))"
  using install_bindings_get [OF assms [unfolded install_env_def], of name]
  unfolding variables_get by (simp add: hm_get_def split: option.splits)

end
