(* ===== verification/Subtle_Crypto.thy ===== *)
theory Subtle_Crypto
  imports Js_Value Hash_Map
begin

text \<open>
  The cryptography of the guest, from \<open>src/src/runtime/crypto\<close>: the native functions and the scripts around them,
  which chain \<open>importKey\<close>, \<open>sign\<close>, \<open>verify\<close> and \<open>generateKey\<close> from one algorithm to the next.  The primitives are
  the cryptographic library's and arguments.  Buffers of the guest are an explicit memory, since a key may
  share its bytes with a buffer the guest still holds.  Names of algorithms are ASCII.
\<close>

section \<open>Buffers\<close>

text \<open>A view is a buffer, an offset and a length.  \<open>ByteView\<close> is a \<open>Uint8Array\<close>, \<open>IntView\<close> another array of
  integers, \<open>OtherView\<close> any other view; \<open>NoBuffer\<close> is whatever else the guest may pass.\<close>

record view =
  vw_buffer :: nat
  vw_offset :: nat
  vw_length :: nat

datatype source = ABuffer nat | ByteView view | IntView view | OtherView view | NoBuffer

datatype thrown = TypeErr string | PlainErr string | DomErr string string

record crypto_key =
  ck_type :: string
  ck_extractable :: bool
  ck_name :: string
  ck_hash :: "string option"
  ck_length :: nat
  ck_usages :: "string list"
  ck_data :: "view option"
  ck_public :: "view option"

text \<open>The memory of the buffers, and the map of keys that the HMAC script keeps.\<close>

record crypto_state =
  cs_memory :: "bytes list"
  cs_keys :: "(nat, crypto_key) hash_map"
  cs_next_key :: nat

definition buffer_bytes :: "crypto_state \<Rightarrow> nat \<Rightarrow> bytes" where
  "buffer_bytes s b = (if b < length (cs_memory s) then cs_memory s ! b else [])"

definition view_bytes :: "crypto_state \<Rightarrow> view \<Rightarrow> bytes" where
  "view_bytes s v = take (vw_length v) (drop (vw_offset v) (buffer_bytes s (vw_buffer v)))"

definition new_buffer :: "bytes \<Rightarrow> crypto_state \<Rightarrow> crypto_state \<times> view" where
  "new_buffer bs s =
     (s\<lparr>cs_memory := cs_memory s @ [bs]\<rparr>, \<lparr>vw_buffer = length (cs_memory s), vw_offset = 0, vw_length = length bs\<rparr>)"

text \<open>The guest writes to a buffer it holds.\<close>

definition guest_write :: "nat \<Rightarrow> bytes \<Rightarrow> crypto_state \<Rightarrow> crypto_state" where
  "guest_write b bs s = s\<lparr>cs_memory := (cs_memory s)[b := bs]\<rparr>"

text \<open>\<open>instanceof ArrayBuffer\<close>, then \<open>instanceof Uint8Array\<close>: a view of the same memory.\<close>

definition as_uint8 :: "crypto_state \<Rightarrow> source \<Rightarrow> view option" where
  "as_uint8 s v =
     (case v of
        ABuffer b \<Rightarrow> Some \<lparr>vw_buffer = b, vw_offset = 0, vw_length = length (buffer_bytes s b)\<rparr>
      | ByteView w \<Rightarrow> Some w
      | _ \<Rightarrow> None)"

definition aes_bytes :: "crypto_state \<Rightarrow> source \<Rightarrow> view option" where
  "aes_bytes s v =
     (case v of
        ABuffer b \<Rightarrow> Some \<lparr>vw_buffer = b, vw_offset = 0, vw_length = length (buffer_bytes s b)\<rparr>
      | ByteView w \<Rightarrow> Some w
      | IntView w \<Rightarrow> Some w
      | OtherView w \<Rightarrow> Some w
      | NoBuffer \<Rightarrow> None)"

section \<open>The library\<close>

datatype hash = SHA1 | SHA256 | SHA384 | SHA512

text \<open>The primitives; what a random generator adds is the first argument of those that use one.\<close>

record ring =
  rg_digest :: "hash \<Rightarrow> bytes \<Rightarrow> bytes"
  rg_hmac :: "hash \<Rightarrow> bytes \<Rightarrow> bytes \<Rightarrow> bytes"
  rg_hmac_verify :: "hash \<Rightarrow> bytes \<Rightarrow> bytes \<Rightarrow> bytes \<Rightarrow> bool"
  rg_ecdsa_pkcs8 :: "nat \<Rightarrow> bytes option"
  rg_ecdsa_public :: "bytes \<Rightarrow> bytes option"
  rg_ecdsa_sign :: "nat \<Rightarrow> bytes \<Rightarrow> bytes \<Rightarrow> bytes option"
  rg_ecdsa_verify :: "bytes \<Rightarrow> bytes \<Rightarrow> bytes \<Rightarrow> bool"
  rg_rsa_sign :: "nat \<Rightarrow> hash \<Rightarrow> bytes \<Rightarrow> bytes \<Rightarrow> bytes option"
  rg_rsa_verify :: "hash \<Rightarrow> bytes \<Rightarrow> bytes \<Rightarrow> bytes \<Rightarrow> bool"
  rg_pbkdf2 :: "hash \<Rightarrow> nat \<Rightarrow> bytes \<Rightarrow> bytes \<Rightarrow> nat \<Rightarrow> bytes"
  rg_seal :: "bytes \<Rightarrow> bytes \<Rightarrow> bytes \<Rightarrow> bytes \<Rightarrow> bytes option"
  rg_open :: "bytes \<Rightarrow> bytes \<Rightarrow> bytes \<Rightarrow> bytes \<Rightarrow> bytes option"
  rg_random :: "nat \<Rightarrow> nat \<Rightarrow> bytes option"

definition upper_char :: "char \<Rightarrow> char" where
  "upper_char c = (if 97 \<le> (of_char c :: nat) \<and> (of_char c :: nat) \<le> 122 then char_of ((of_char c :: nat) - 32) else c)"

definition to_uppercase :: "string \<Rightarrow> string" where
  "to_uppercase s = map upper_char s"

definition hash_of :: "string \<Rightarrow> hash option" where
  "hash_of name =
     (let n = to_uppercase name in
      if n = ''SHA-1'' then Some SHA1 else if n = ''SHA-256'' then Some SHA256
      else if n = ''SHA-384'' then Some SHA384 else if n = ''SHA-512'' then Some SHA512 else None)"

text \<open>RSA has no SHA-1.\<close>

definition rsa_hash_of :: "string \<Rightarrow> hash option" where
  "rsa_hash_of name = (case hash_of name of Some SHA1 \<Rightarrow> None | h \<Rightarrow> h)"

section \<open>Native functions\<close>

text \<open>An argument is None when it is not a string, or not a \<open>Uint8Array\<close>.\<close>

definition native_digest :: "ring \<Rightarrow> string option \<Rightarrow> bytes option \<Rightarrow> bytes option" where
  "native_digest R algo data =
     (case (algo, data) of
        (Some a, Some d) \<Rightarrow> (case hash_of a of Some h \<Rightarrow> Some (rg_digest R h d) | None \<Rightarrow> None)
      | _ \<Rightarrow> None)"

definition native_hmac_sign :: "ring \<Rightarrow> string option \<Rightarrow> bytes option \<Rightarrow> bytes option \<Rightarrow> bytes option" where
  "native_hmac_sign R algo key_data data =
     (case (algo, key_data, data) of
        (Some a, Some k, Some d) \<Rightarrow> (case hash_of a of Some h \<Rightarrow> Some (rg_hmac R h k d) | None \<Rightarrow> None)
      | _ \<Rightarrow> None)"

definition native_hmac_verify :: "ring \<Rightarrow> string option \<Rightarrow> bytes option \<Rightarrow> bytes option \<Rightarrow> bytes option \<Rightarrow> bool" where
  "native_hmac_verify R algo key_data signature data =
     (case (algo, key_data, signature, data) of
        (Some a, Some k, Some sig, Some d) \<Rightarrow> (case hash_of a of Some h \<Rightarrow> rg_hmac_verify R h k d sig | None \<Rightarrow> False)
      | _ \<Rightarrow> False)"

text \<open>The private key in PKCS8 and the public key of the pair read back from it.\<close>

definition native_ecdsa_generate :: "ring \<Rightarrow> nat \<Rightarrow> (bytes \<times> bytes) option" where
  "native_ecdsa_generate R rng =
     (case rg_ecdsa_pkcs8 R rng of
        None \<Rightarrow> None
      | Some pkcs8 \<Rightarrow> (case rg_ecdsa_public R pkcs8 of None \<Rightarrow> None | Some public_key \<Rightarrow> Some (pkcs8, public_key)))"

definition native_ecdsa_sign :: "ring \<Rightarrow> nat \<Rightarrow> bytes option \<Rightarrow> bytes option \<Rightarrow> bytes option" where
  "native_ecdsa_sign R rng private_key data =
     (case (private_key, data) of (Some k, Some d) \<Rightarrow> rg_ecdsa_sign R rng k d | _ \<Rightarrow> None)"

definition native_ecdsa_verify :: "ring \<Rightarrow> bytes option \<Rightarrow> bytes option \<Rightarrow> bytes option \<Rightarrow> bool" where
  "native_ecdsa_verify R public_key signature data =
     (case (public_key, signature, data) of (Some k, Some sig, Some d) \<Rightarrow> rg_ecdsa_verify R k d sig | _ \<Rightarrow> False)"

definition native_rsa_sign :: "ring \<Rightarrow> nat \<Rightarrow> string option \<Rightarrow> bytes option \<Rightarrow> bytes option \<Rightarrow> bytes option" where
  "native_rsa_sign R rng hash_algo private_key data =
     (case (hash_algo, private_key, data) of
        (Some a, Some k, Some d) \<Rightarrow> (case rsa_hash_of a of Some h \<Rightarrow> rg_rsa_sign R rng h k d | None \<Rightarrow> None)
      | _ \<Rightarrow> None)"

definition native_rsa_verify :: "ring \<Rightarrow> string option \<Rightarrow> bytes option \<Rightarrow> bytes option \<Rightarrow> bytes option \<Rightarrow> bool" where
  "native_rsa_verify R hash_algo public_key signature data =
     (case (hash_algo, public_key, signature, data) of
        (Some a, Some k, Some sig, Some d) \<Rightarrow> (case rsa_hash_of a of Some h \<Rightarrow> rg_rsa_verify R h k d sig | None \<Rightarrow> False)
      | _ \<Rightarrow> False)"

text \<open>\<open>as u32\<close> and \<open>as usize\<close> of a number saturate, and NaN is 0.\<close>

definition number_as :: "nat \<Rightarrow> js_value \<Rightarrow> nat" where
  "number_as bound v =
     (case v of
        JNumber n \<Rightarrow> min bound (nat n)
      | JDouble bits \<Rightarrow>
          (case f64_trunc bits of
             Some n \<Rightarrow> min bound (nat n)
           | None \<Rightarrow> if f64_fraction bits \<noteq> 0 \<or> f64_negative bits then 0 else bound)
      | _ \<Rightarrow> 0)"

definition is_number :: "js_value \<Rightarrow> bool" where
  "is_number v = (case v of JNumber _ \<Rightarrow> True | JDouble _ \<Rightarrow> True | _ \<Rightarrow> False)"

record derivation =
  dv_hash :: hash
  dv_password :: bytes
  dv_salt :: bytes
  dv_iterations :: nat
  dv_length_bytes :: nat

definition derivation_of ::
    "string option \<Rightarrow> bytes option \<Rightarrow> bytes option \<Rightarrow> js_value \<Rightarrow> js_value \<Rightarrow> (string, derivation) result" where
  "derivation_of hash_arg password_arg salt_arg iterations_arg length_arg =
     (case hash_arg of
        None \<Rightarrow> Err ''PBKDF2: the hash name is not a string''
      | Some name \<Rightarrow>
          (case hash_of name of
             None \<Rightarrow> Err (''PBKDF2: unknown hash '' @ [CHR 0x22] @ name @ [CHR 0x22])
           | Some h \<Rightarrow>
               (case password_arg of
                  None \<Rightarrow> Err ''PBKDF2: argument 1 is not a Uint8Array''
                | Some password \<Rightarrow>
                    (case salt_arg of
                       None \<Rightarrow> Err ''PBKDF2: argument 2 is not a Uint8Array''
                     | Some salt \<Rightarrow>
                         if \<not> is_number iterations_arg then Err ''PBKDF2: the iteration count is not a number''
                         else if number_as (2 ^ 32 - 1) iterations_arg = 0 then Err ''PBKDF2: the iteration count must be at least 1''
                         else if \<not> is_number length_arg then Err ''PBKDF2: the length is not a number''
                         else
                           Ok \<lparr>dv_hash = h, dv_password = password, dv_salt = salt,
                               dv_iterations = number_as (2 ^ 32 - 1) iterations_arg,
                               dv_length_bytes = number_as (2 ^ 64 - 1) length_arg div 8\<rparr>))))"

text \<open>What a call comes to: a value, an exception, or the end of the process, when the allocator refuses.\<close>

datatype 'a native_end = NativeValue 'a | NativeThrows thrown | ProcessAborts

definition native_pbkdf2 ::
    "ring \<Rightarrow> (nat \<Rightarrow> bool) \<Rightarrow> string option \<Rightarrow> bytes option \<Rightarrow> bytes option \<Rightarrow> js_value \<Rightarrow> js_value \<Rightarrow> bytes native_end" where
  "native_pbkdf2 R alloc hash_arg password salt iterations length_bits =
     (case derivation_of hash_arg password salt iterations length_bits of
        Inl message \<Rightarrow> NativeThrows (TypeErr message)
      | Inr d \<Rightarrow>
          if \<not> alloc (dv_length_bytes d) then ProcessAborts
          else NativeValue (rg_pbkdf2 R (dv_hash d) (dv_iterations d) (dv_salt d) (dv_password d) (dv_length_bytes d)))"

definition gcm_key :: "bytes \<Rightarrow> (string, bytes) result" where
  "gcm_key key =
     (if length key = 16 \<or> length key = 32 then Ok key
      else Err (''AES-GCM: the key is '' @ decimal (length key) @ '' bytes, not 16 or 32''))"

definition gcm_nonce :: "bytes \<Rightarrow> (string, bytes) result" where
  "gcm_nonce bs =
     (if length bs = 12 then Ok bs else Err (''AES-GCM: the iv is '' @ decimal (length bs) @ '' bytes, not 12''))"

definition gcm_args ::
    "bytes option \<Rightarrow> bytes option \<Rightarrow> bytes option \<Rightarrow> bytes option \<Rightarrow> (string, bytes \<times> bytes \<times> bytes \<times> bytes) result" where
  "gcm_args key_arg iv_arg data_arg aad_arg =
     (case key_arg of
        None \<Rightarrow> Err ''AES-GCM: argument 0 is not a Uint8Array''
      | Some key_bytes \<Rightarrow>
          (case gcm_key key_bytes of
             Inl e \<Rightarrow> Err e
           | Inr key \<Rightarrow>
               (case iv_arg of
                  None \<Rightarrow> Err ''AES-GCM: argument 1 is not a Uint8Array''
                | Some iv_bytes \<Rightarrow>
                    (case gcm_nonce iv_bytes of
                       Inl e \<Rightarrow> Err e
                     | Inr iv \<Rightarrow>
                         (case aad_arg of
                            None \<Rightarrow> Err ''AES-GCM: argument 3 is not a Uint8Array''
                          | Some aad \<Rightarrow>
                              (case data_arg of
                                 None \<Rightarrow> Err ''AES-GCM: argument 2 is not a Uint8Array''
                               | Some data \<Rightarrow> Ok (key, iv, data, aad)))))))"

definition native_gcm_seal :: "ring \<Rightarrow> bytes option \<Rightarrow> bytes option \<Rightarrow> bytes option \<Rightarrow> bytes option \<Rightarrow> bytes native_end" where
  "native_gcm_seal R key_arg iv_arg data_arg aad_arg =
     (case gcm_args key_arg iv_arg data_arg aad_arg of
        Inl e \<Rightarrow> NativeThrows (TypeErr e)
      | Inr (key, iv, data, aad) \<Rightarrow>
          (case rg_seal R key iv aad data of
             None \<Rightarrow> NativeThrows (PlainErr ''AES-GCM: the plaintext is too long'')
           | Some out \<Rightarrow> NativeValue out))"

definition native_gcm_open :: "ring \<Rightarrow> bytes option \<Rightarrow> bytes option \<Rightarrow> bytes option \<Rightarrow> bytes option \<Rightarrow> bytes native_end" where
  "native_gcm_open R key_arg iv_arg data_arg aad_arg =
     (case gcm_args key_arg iv_arg data_arg aad_arg of
        Inl e \<Rightarrow> NativeThrows (TypeErr e)
      | Inr (key, iv, data, aad) \<Rightarrow>
          (case rg_open R key iv aad data of
             None \<Rightarrow> NativeThrows (PlainErr ''AES-GCM: decryption failed'')
           | Some plain \<Rightarrow> NativeValue plain))"

section \<open>Scripts\<close>

text \<open>The algorithm argument: a string, or an object with the properties the scripts read.  A hash is given as a string
  or as an object with a name.  \<open>al_length\<close> is what reading \<open>length\<close> gives, which for a string is its own length.\<close>

record algo =
  al_name :: string
  al_is_string :: bool
  al_hash :: "string option"
  al_curve :: string
  al_length :: js_value
  al_salt :: source
  al_iterations :: js_value
  al_iv :: source
  al_aad :: "source option"
  al_tag :: js_value

datatype key_input = KeySource source | KeyText string

datatype 'a settled = Fulfilled 'a | Rejected thrown | Aborted

definition reject_error :: "string \<Rightarrow> crypto_state \<Rightarrow> crypto_state \<times> 'a settled" where
  "reject_error message s = (s, Rejected (PlainErr message))"

definition fulfil_bytes :: "bytes \<Rightarrow> crypto_state \<Rightarrow> crypto_state \<times> nat settled" where
  "fulfil_bytes bs s = (let (s, v) = new_buffer bs s in (s, Fulfilled (vw_buffer v)))"

definition fulfil_or :: "string \<Rightarrow> bytes option \<Rightarrow> crypto_state \<Rightarrow> crypto_state \<times> nat settled" where
  "fulfil_or message r s = (case r of Some bs \<Rightarrow> fulfil_bytes bs s | None \<Rightarrow> reject_error message s)"

definition fulfil_native :: "bytes native_end \<Rightarrow> crypto_state \<Rightarrow> crypto_state \<times> nat settled" where
  "fulfil_native r s =
     (case r of NativeValue bs \<Rightarrow> fulfil_bytes bs s | NativeThrows e \<Rightarrow> (s, Rejected e) | ProcessAborts \<Rightarrow> (s, Aborted))"

definition NOT_BYTES :: string where
  "NOT_BYTES = ''Data must be ArrayBuffer or Uint8Array''"

definition hash_name :: "algo \<Rightarrow> string" where
  "hash_name a = (if al_is_string a then ''SHA-256'' else case al_hash a of Some h \<Rightarrow> h | None \<Rightarrow> ''SHA-256'')"

definition subtle_digest :: "ring \<Rightarrow> algo \<Rightarrow> source \<Rightarrow> crypto_state \<Rightarrow> crypto_state \<times> nat settled" where
  "subtle_digest R a data s =
     (case as_uint8 s data of
        None \<Rightarrow> reject_error NOT_BYTES s
      | Some v \<Rightarrow> fulfil_or (''Unsupported algorithm: '' @ al_name a) (native_digest R (Some (al_name a)) (Some (view_bytes s v))) s)"

definition key_source :: "crypto_state \<Rightarrow> key_input \<Rightarrow> view option" where
  "key_source s k = (case k of KeySource v \<Rightarrow> as_uint8 s v | KeyText _ \<Rightarrow> None)"

subsection \<open>Keys\<close>

definition create_key :: "string \<Rightarrow> bool \<Rightarrow> string \<Rightarrow> string option \<Rightarrow> nat \<Rightarrow> string list \<Rightarrow> view \<Rightarrow> crypto_key" where
  "create_key key_type extractable name h len usages v =
     \<lparr>ck_type = key_type, ck_extractable = extractable, ck_name = name, ck_hash = h, ck_length = len, ck_usages = usages,
      ck_data = Some v, ck_public = None\<rparr>"

definition hmac_import ::
    "string \<Rightarrow> key_input \<Rightarrow> algo \<Rightarrow> bool \<Rightarrow> string list \<Rightarrow> crypto_state \<Rightarrow> crypto_state \<times> crypto_key settled" where
  "hmac_import fmt key_data a extractable usages s =
     (if fmt \<noteq> ''raw'' then reject_error (''Only '' @ [CHR 0x22] @ ''raw'' @ [CHR 0x22] @ '' format is supported'') s
      else if al_name a \<noteq> ''HMAC'' then reject_error ''Only HMAC algorithm is supported'' s
      else case key_source s key_data of
        None \<Rightarrow> reject_error ''Key data must be ArrayBuffer or Uint8Array'' s
      | Some v \<Rightarrow>
          (let key = create_key ''secret'' extractable ''HMAC'' (Some (hash_name a)) 0 usages v
           in (s\<lparr>cs_keys := hm_insert (cs_next_key s) key (cs_keys s), cs_next_key := Suc (cs_next_key s)\<rparr>, Fulfilled key)))"

definition ecdsa_import ::
    "string \<Rightarrow> key_input \<Rightarrow> algo \<Rightarrow> bool \<Rightarrow> string list \<Rightarrow> crypto_state \<Rightarrow> crypto_state \<times> crypto_key settled" where
  "ecdsa_import fmt key_data a extractable usages s =
     (if al_name a = ''ECDSA'' then
        (case key_source s key_data of
           None \<Rightarrow> reject_error ''Key data must be ArrayBuffer or Uint8Array'' s
         | Some v \<Rightarrow>
             if al_curve a \<noteq> [] \<and> al_curve a \<noteq> ''P-256'' then reject_error ''Only P-256 curve is supported'' s
             else if fmt = ''raw'' then (s, Fulfilled (create_key ''public'' extractable ''ECDSA'' None 0 usages v))
             else if fmt = ''pkcs8'' then (s, Fulfilled (create_key ''private'' extractable ''ECDSA'' None 0 usages v))
             else reject_error (''Only '' @ [CHR 0x22] @ ''raw'' @ [CHR 0x22] @ '' and '' @ [CHR 0x22] @ ''pkcs8'' @ [CHR 0x22] @
                    '' formats are supported for ECDSA'') s)
      else hmac_import fmt key_data a extractable usages s)"

definition rsa_import ::
    "string \<Rightarrow> key_input \<Rightarrow> algo \<Rightarrow> bool \<Rightarrow> string list \<Rightarrow> crypto_state \<Rightarrow> crypto_state \<times> crypto_key settled" where
  "rsa_import fmt key_data a extractable usages s =
     (if al_name a = ''RSASSA-PKCS1-v1_5'' then
        (case key_source s key_data of
           None \<Rightarrow> reject_error ''Key data must be ArrayBuffer or Uint8Array'' s
         | Some v \<Rightarrow>
             if fmt = ''pkcs8''
             then (s, Fulfilled (create_key ''private'' extractable ''RSASSA-PKCS1-v1_5'' (Some (hash_name a)) 0 usages v))
             else if fmt = ''spki'' \<or> fmt = ''raw''
             then (s, Fulfilled (create_key ''public'' extractable ''RSASSA-PKCS1-v1_5'' (Some (hash_name a)) 0 usages v))
             else reject_error (''Only '' @ [CHR 0x22] @ ''pkcs8'' @ [CHR 0x22] @ '' and '' @ [CHR 0x22] @ ''spki'' @ [CHR 0x22] @
                    '' formats are supported for RSA'') s)
      else ecdsa_import fmt key_data a extractable usages s)"

text \<open>\<open>encode\<close> is the text encoder.\<close>

definition pbkdf2_import ::
    "(string \<Rightarrow> bytes) \<Rightarrow> string \<Rightarrow> key_input \<Rightarrow> algo \<Rightarrow> bool \<Rightarrow> string list \<Rightarrow> crypto_state \<Rightarrow> crypto_state \<times> crypto_key settled" where
  "pbkdf2_import encode fmt key_data a extractable usages s =
     (if al_name a = ''PBKDF2'' then
        (if fmt \<noteq> ''raw''
         then reject_error (''Only '' @ [CHR 0x22] @ ''raw'' @ [CHR 0x22] @ '' format is supported for PBKDF2'') s
         else
           (let (s, bytes_view) =
              (case key_data of
                 KeyText t \<Rightarrow> (let (s, v) = new_buffer (encode t) s in (s, Some v))
               | KeySource src \<Rightarrow> (s, as_uint8 s src))
            in case bytes_view of
                 None \<Rightarrow> reject_error ''Key data must be ArrayBuffer, Uint8Array, or string'' s
               | Some v \<Rightarrow> (s, Fulfilled (create_key ''secret'' extractable ''PBKDF2'' None 0 usages v))))
      else rsa_import fmt key_data a extractable usages s)"

definition aes_import ::
    "(string \<Rightarrow> bytes) \<Rightarrow> string \<Rightarrow> key_input \<Rightarrow> algo \<Rightarrow> bool \<Rightarrow> string list \<Rightarrow> crypto_state \<Rightarrow> crypto_state \<times> crypto_key settled" where
  "aes_import encode fmt key_data a extractable usages s =
     (if al_name a \<noteq> ''AES-GCM'' then pbkdf2_import encode fmt key_data a extractable usages s
      else if fmt \<noteq> ''raw''
      then reject_error (''Only '' @ [CHR 0x22] @ ''raw'' @ [CHR 0x22] @ '' format is supported for AES-GCM'') s
      else case (case key_data of KeySource src \<Rightarrow> aes_bytes s src | KeyText _ \<Rightarrow> None) of
        None \<Rightarrow> (s, Rejected (TypeErr ''Expected an ArrayBuffer or a view''))
      | Some v \<Rightarrow>
          if vw_length v \<noteq> 16 \<and> vw_length v \<noteq> 32 then reject_error ''AES-GCM supports 128 and 256 bit keys'' s
          else (s, Fulfilled (create_key ''secret'' extractable ''AES-GCM'' None (vw_length v * 8) usages v)))"

text \<open>The guest's \<open>importKey\<close> is the last of the chain.\<close>

definition subtle_import_key ::
    "(string \<Rightarrow> bytes) \<Rightarrow> string \<Rightarrow> key_input \<Rightarrow> algo \<Rightarrow> bool \<Rightarrow> string list \<Rightarrow> crypto_state \<Rightarrow> crypto_state \<times> crypto_key settled" where
  "subtle_import_key = aes_import"

definition ecdsa_generate ::
    "ring \<Rightarrow> nat \<Rightarrow> algo \<Rightarrow> bool \<Rightarrow> string list \<Rightarrow> crypto_state \<Rightarrow> crypto_state \<times> (crypto_key \<times> crypto_key) settled" where
  "ecdsa_generate R rng a extractable usages s =
     (if al_name a = ''ECDSA'' then
        (if al_curve a \<noteq> [] \<and> al_curve a \<noteq> ''P-256'' then reject_error ''Only P-256 curve is supported'' s
         else case native_ecdsa_generate R rng of
           None \<Rightarrow> reject_error ''Key generation failed'' s
         | Some (private_bytes, public_bytes) \<Rightarrow>
             (let (s, private_view) = new_buffer private_bytes s;
                  (s, public_view) = new_buffer public_bytes s;
                  private_key = (create_key ''private'' extractable ''ECDSA'' None 0 (filter (\<lambda>u. u = ''sign'') usages) private_view)
                    \<lparr>ck_public := Some public_view\<rparr>;
                  public_key = create_key ''public'' True ''ECDSA'' None 0 (filter (\<lambda>u. u = ''verify'') usages) public_view
              in (s, Fulfilled (private_key, public_key))))
      else reject_error ''Only ECDSA algorithm is supported for generateKey'' s)"

definition aes_generate ::
    "ring \<Rightarrow> nat \<Rightarrow> algo \<Rightarrow> bool \<Rightarrow> string list \<Rightarrow> crypto_state \<Rightarrow> crypto_state \<times> crypto_key settled" where
  "aes_generate R rng a extractable usages s =
     (case (case al_length a of JUndefined \<Rightarrow> Some 256 | JNumber n \<Rightarrow> if n = 128 \<or> n = 256 then Some (nat n) else None | _ \<Rightarrow> None) of
        None \<Rightarrow> reject_error ''AES-GCM supports 128 and 256 bit keys'' s
      | Some len \<Rightarrow>
          (case rg_random R rng (len div 8) of
             None \<Rightarrow> (s, Rejected (DomErr ''OperationError'' ''the system RNG failed''))
           | Some bs \<Rightarrow>
               (let (s, v) = new_buffer bs s in (s, Fulfilled (create_key ''secret'' extractable ''AES-GCM'' None len usages v)))))"

datatype generated = OneKey crypto_key | KeyPair crypto_key crypto_key

definition subtle_generate_key ::
    "ring \<Rightarrow> nat \<Rightarrow> algo \<Rightarrow> bool \<Rightarrow> string list \<Rightarrow> crypto_state \<Rightarrow> crypto_state \<times> generated settled" where
  "subtle_generate_key R rng a extractable usages s =
     (if al_name a \<noteq> ''AES-GCM'' then
        (case ecdsa_generate R rng a extractable usages s of
           (s, Fulfilled (k, p)) \<Rightarrow> (s, Fulfilled (KeyPair k p))
         | (s, Rejected e) \<Rightarrow> (s, Rejected e)
         | (s, Aborted) \<Rightarrow> (s, Aborted))
      else
        (case aes_generate R rng a extractable usages s of
           (s, Fulfilled k) \<Rightarrow> (s, Fulfilled (OneKey k))
         | (s, Rejected e) \<Rightarrow> (s, Rejected e)
         | (s, Aborted) \<Rightarrow> (s, Aborted)))"

definition export_key :: "string \<Rightarrow> crypto_key \<Rightarrow> crypto_state \<Rightarrow> crypto_state \<times> nat settled" where
  "export_key fmt key s =
     (if fmt \<noteq> ''raw'' then reject_error (''Only '' @ [CHR 0x22] @ ''raw'' @ [CHR 0x22] @ '' format is supported for exportKey'') s
      else if \<not> ck_extractable key then reject_error ''Key is not extractable'' s
      else case ck_data key of
        None \<Rightarrow> (s, Rejected (TypeErr ''Expected an ArrayBuffer or a view''))
      | Some v \<Rightarrow> fulfil_bytes (view_bytes s v) s)"

subsection \<open>Signatures\<close>

text \<open>A key without a hash makes the script read a property of undefined.\<close>

definition NO_HASH :: thrown where
  "NO_HASH = TypeErr ''Cannot read properties of undefined''"

definition key_bytes :: "crypto_state \<Rightarrow> crypto_key \<Rightarrow> bytes option" where
  "key_bytes s key = map_option (view_bytes s) (ck_data key)"

definition hmac_sign :: "ring \<Rightarrow> algo \<Rightarrow> crypto_key \<Rightarrow> source \<Rightarrow> crypto_state \<Rightarrow> crypto_state \<times> nat settled" where
  "hmac_sign R a key data s =
     (if al_name a \<noteq> ''HMAC'' then reject_error ''Only HMAC algorithm is supported'' s
      else if ck_data key = None then reject_error ''Invalid key'' s
      else case as_uint8 s data of
        None \<Rightarrow> reject_error NOT_BYTES s
      | Some v \<Rightarrow>
          (case ck_hash key of
             None \<Rightarrow> (s, Rejected NO_HASH)
           | Some h \<Rightarrow> fulfil_or ''Sign failed'' (native_hmac_sign R (Some h) (key_bytes s key) (Some (view_bytes s v))) s))"

definition ecdsa_sign :: "ring \<Rightarrow> nat \<Rightarrow> algo \<Rightarrow> crypto_key \<Rightarrow> source \<Rightarrow> crypto_state \<Rightarrow> crypto_state \<times> nat settled" where
  "ecdsa_sign R rng a key data s =
     (if al_name a = ''ECDSA'' then
        (if ck_type key \<noteq> ''private'' \<or> ck_name key \<noteq> ''ECDSA'' then reject_error ''Invalid key for ECDSA signing'' s
         else case as_uint8 s data of
           None \<Rightarrow> reject_error NOT_BYTES s
         | Some v \<Rightarrow> fulfil_or ''ECDSA sign failed'' (native_ecdsa_sign R rng (key_bytes s key) (Some (view_bytes s v))) s)
      else hmac_sign R a key data s)"

definition subtle_sign :: "ring \<Rightarrow> nat \<Rightarrow> algo \<Rightarrow> crypto_key \<Rightarrow> source \<Rightarrow> crypto_state \<Rightarrow> crypto_state \<times> nat settled" where
  "subtle_sign R rng a key data s =
     (if al_name a = ''RSASSA-PKCS1-v1_5'' then
        (if ck_type key \<noteq> ''private'' \<or> ck_name key \<noteq> ''RSASSA-PKCS1-v1_5'' then reject_error ''Invalid key for RSA signing'' s
         else case as_uint8 s data of
           None \<Rightarrow> reject_error NOT_BYTES s
         | Some v \<Rightarrow>
             (case ck_hash key of
                None \<Rightarrow> (s, Rejected NO_HASH)
              | Some h \<Rightarrow> fulfil_or ''RSA sign failed'' (native_rsa_sign R rng (Some h) (key_bytes s key) (Some (view_bytes s v))) s))
      else ecdsa_sign R rng a key data s)"

text \<open>Verification changes nothing: the answer is the promise.\<close>

definition hmac_verify :: "ring \<Rightarrow> algo \<Rightarrow> crypto_key \<Rightarrow> source \<Rightarrow> source \<Rightarrow> crypto_state \<Rightarrow> bool settled" where
  "hmac_verify R a key signature data s =
     (if al_name a \<noteq> ''HMAC'' then Rejected (PlainErr ''Only HMAC algorithm is supported'')
      else if ck_data key = None then Rejected (PlainErr ''Invalid key'')
      else case as_uint8 s data of
        None \<Rightarrow> Rejected (PlainErr NOT_BYTES)
      | Some d \<Rightarrow>
          (case as_uint8 s signature of
             None \<Rightarrow> Rejected (PlainErr ''Signature must be ArrayBuffer or Uint8Array'')
           | Some sig \<Rightarrow>
               (case ck_hash key of
                  None \<Rightarrow> Rejected NO_HASH
                | Some h \<Rightarrow>
                    Fulfilled (native_hmac_verify R (Some h) (key_bytes s key) (Some (view_bytes s sig)) (Some (view_bytes s d))))))"

definition ecdsa_verify :: "ring \<Rightarrow> algo \<Rightarrow> crypto_key \<Rightarrow> source \<Rightarrow> source \<Rightarrow> crypto_state \<Rightarrow> bool settled" where
  "ecdsa_verify R a key signature data s =
     (if al_name a = ''ECDSA'' then
        (if ck_name key \<noteq> ''ECDSA'' then Rejected (PlainErr ''Invalid key for ECDSA verification'')
         else case as_uint8 s data of
           None \<Rightarrow> Rejected (PlainErr NOT_BYTES)
         | Some d \<Rightarrow>
             (case as_uint8 s signature of
                None \<Rightarrow> Rejected (PlainErr ''Signature must be ArrayBuffer or Uint8Array'')
              | Some sig \<Rightarrow>
                  (let public_view = (if ck_type key = ''private'' then ck_public key else ck_data key)
                   in Fulfilled (native_ecdsa_verify R (map_option (view_bytes s) public_view) (Some (view_bytes s sig)) (Some (view_bytes s d))))))
      else hmac_verify R a key signature data s)"

definition subtle_verify :: "ring \<Rightarrow> algo \<Rightarrow> crypto_key \<Rightarrow> source \<Rightarrow> source \<Rightarrow> crypto_state \<Rightarrow> bool settled" where
  "subtle_verify R a key signature data s =
     (if al_name a = ''RSASSA-PKCS1-v1_5'' then
        (if ck_name key \<noteq> ''RSASSA-PKCS1-v1_5'' then Rejected (PlainErr ''Invalid key for RSA verification'')
         else case as_uint8 s data of
           None \<Rightarrow> Rejected (PlainErr NOT_BYTES)
         | Some d \<Rightarrow>
             (case as_uint8 s signature of
                None \<Rightarrow> Rejected (PlainErr ''Signature must be ArrayBuffer or Uint8Array'')
              | Some sig \<Rightarrow>
                  (case ck_hash key of
                     None \<Rightarrow> Rejected NO_HASH
                   | Some h \<Rightarrow>
                       Fulfilled (native_rsa_verify R (Some h) (key_bytes s key) (Some (view_bytes s sig)) (Some (view_bytes s d))))))
      else ecdsa_verify R a key signature data s)"

subsection \<open>Derivation, encryption and random values\<close>

text \<open>\<open>low\<close> is whether a value that is not a number is falsy or compares below 1.\<close>

definition iterations_refused :: "(js_value \<Rightarrow> bool) \<Rightarrow> js_value \<Rightarrow> bool" where
  "iterations_refused low v =
     (case v of
        JNumber n \<Rightarrow> n < 1
      | JDouble bits \<Rightarrow>
          (case f64_trunc bits of
             Some n \<Rightarrow> n < 1
           | None \<Rightarrow> f64_fraction bits \<noteq> 0 \<or> f64_negative bits)
      | _ \<Rightarrow> low v)"

definition derive_bits ::
    "ring \<Rightarrow> (nat \<Rightarrow> bool) \<Rightarrow> (js_value \<Rightarrow> bool) \<Rightarrow> algo \<Rightarrow> crypto_key \<Rightarrow> js_value \<Rightarrow> crypto_state \<Rightarrow> crypto_state \<times> nat settled" where
  "derive_bits R alloc low a base_key length_bits s =
     (if al_name a \<noteq> ''PBKDF2'' then reject_error ''Only PBKDF2 algorithm is supported for deriveBits'' s
      else if ck_data base_key = None \<or> ck_name base_key \<noteq> ''PBKDF2'' then reject_error ''Invalid key for PBKDF2'' s
      else case (if al_is_string a then None else as_uint8 s (al_salt a)) of
        None \<Rightarrow> reject_error ''Salt must be ArrayBuffer or Uint8Array'' s
      | Some salt \<Rightarrow>
          if iterations_refused low (al_iterations a) then reject_error ''Iterations must be a positive number'' s
          else
            (case al_hash a of
               None \<Rightarrow> (s, Rejected NO_HASH)
             | Some h \<Rightarrow>
                 fulfil_native
                   (native_pbkdf2 R alloc (Some h) (key_bytes s base_key) (Some (view_bytes s salt)) (al_iterations a) length_bits) s))"

definition aes_gcm_args :: "algo \<Rightarrow> crypto_key \<Rightarrow> source \<Rightarrow> crypto_state \<Rightarrow> (thrown, view option \<times> view \<times> view \<times> bytes) result" where
  "aes_gcm_args a key data s =
     (if al_is_string a \<or> al_name a \<noteq> ''AES-GCM'' \<or> ck_name key \<noteq> ''AES-GCM''
      then Inl (PlainErr ''Only AES-GCM is supported for encrypt and decrypt'')
      else if al_tag a \<noteq> JUndefined \<and> al_tag a \<noteq> JNumber 128 then Inl (PlainErr ''Only a 128 bit AES-GCM tag is supported'')
      else case (case al_aad a of None \<Rightarrow> Some [] | Some src \<Rightarrow> map_option (view_bytes s) (aes_bytes s src)) of
        None \<Rightarrow> Inl (TypeErr ''Expected an ArrayBuffer or a view'')
      | Some aad \<Rightarrow>
          (case aes_bytes s (al_iv a) of
             None \<Rightarrow> Inl (TypeErr ''Expected an ArrayBuffer or a view'')
           | Some iv \<Rightarrow>
               (case aes_bytes s data of
                  None \<Rightarrow> Inl (TypeErr ''Expected an ArrayBuffer or a view'')
                | Some d \<Rightarrow> Inr (ck_data key, iv, d, aad))))"

definition subtle_encrypt :: "ring \<Rightarrow> algo \<Rightarrow> crypto_key \<Rightarrow> source \<Rightarrow> crypto_state \<Rightarrow> crypto_state \<times> nat settled" where
  "subtle_encrypt R a key data s =
     (case aes_gcm_args a key data s of
        Inl e \<Rightarrow> (s, Rejected e)
      | Inr (k, iv, d, aad) \<Rightarrow>
          fulfil_native (native_gcm_seal R (map_option (view_bytes s) k) (Some (view_bytes s iv)) (Some (view_bytes s d)) (Some aad)) s)"

definition subtle_decrypt :: "ring \<Rightarrow> algo \<Rightarrow> crypto_key \<Rightarrow> source \<Rightarrow> crypto_state \<Rightarrow> crypto_state \<times> nat settled" where
  "subtle_decrypt R a key data s =
     (case aes_gcm_args a key data s of
        Inl e \<Rightarrow> (s, Rejected e)
      | Inr (k, iv, d, aad) \<Rightarrow>
          fulfil_native (native_gcm_open R (map_option (view_bytes s) k) (Some (view_bytes s iv)) (Some (view_bytes s d)) (Some aad)) s)"

definition RANDOM_VALUES_QUOTA :: nat where
  "RANDOM_VALUES_QUOTA = 65536"

definition integer_view :: "source \<Rightarrow> view option" where
  "integer_view v = (case v of ByteView w \<Rightarrow> Some w | IntView w \<Rightarrow> Some w | _ \<Rightarrow> None)"

definition write_view :: "view \<Rightarrow> bytes \<Rightarrow> crypto_state \<Rightarrow> crypto_state" where
  "write_view w bs s =
     (let old = buffer_bytes s (vw_buffer w)
      in guest_write (vw_buffer w) (take (vw_offset w) old @ bs @ drop (vw_offset w + length bs) old) s)"

definition get_random_values :: "ring \<Rightarrow> nat \<Rightarrow> source \<Rightarrow> crypto_state \<Rightarrow> crypto_state \<times> source native_end" where
  "get_random_values R rng v s =
     (case integer_view v of
        None \<Rightarrow> (s, NativeThrows (DomErr ''TypeMismatchError'' ''crypto.getRandomValues expects an integer TypedArray''))
      | Some w \<Rightarrow>
          if RANDOM_VALUES_QUOTA < vw_length w
          then (s, NativeThrows (DomErr ''QuotaExceededError'' ''crypto.getRandomValues accepts at most 65536 bytes''))
          else
            (case rg_random R rng (vw_length w) of
               None \<Rightarrow> (s, NativeThrows (DomErr ''OperationError'' ''the system RNG failed''))
             | Some bs \<Rightarrow> (write_view w bs s, NativeValue v)))"

section \<open>Memory\<close>

definition in_memory :: "crypto_state \<Rightarrow> nat \<Rightarrow> bool" where
  "in_memory s b \<longleftrightarrow> b < length (cs_memory s)"

text \<open>A state that has every buffer of an earlier one, with the same bytes in the buffers of \<open>B\<close>.\<close>

definition extends :: "nat set \<Rightarrow> crypto_state \<Rightarrow> crypto_state \<Rightarrow> bool" where
  "extends B s s' \<longleftrightarrow>
     length (cs_memory s) \<le> length (cs_memory s') \<and> (\<forall>b\<in>B. in_memory s b \<longrightarrow> buffer_bytes s' b = buffer_bytes s b)"

lemma extends_view: "extends B s s' \<Longrightarrow> vw_buffer v \<in> B \<Longrightarrow> in_memory s (vw_buffer v) \<Longrightarrow> view_bytes s' v = view_bytes s v"
  by (simp add: extends_def view_bytes_def)

lemma extends_new [simp]: "extends B s (fst (new_buffer bs s))"
  by (simp add: extends_def new_buffer_def buffer_bytes_def in_memory_def nth_append)

lemma extends_trans: "extends B s t \<Longrightarrow> extends B t u \<Longrightarrow> extends B s u"
  by (auto simp: extends_def in_memory_def)

lemma extends_write: "b \<notin> B \<Longrightarrow> extends B s (guest_write b bs s)"
  unfolding extends_def guest_write_def buffer_bytes_def by (auto simp: nth_list_update_neq) (metis nth_list_update_neq)

text \<open>Whatever the guest writes to other buffers.\<close>

definition guest_writes :: "(nat \<times> bytes) list \<Rightarrow> crypto_state \<Rightarrow> crypto_state" where
  "guest_writes ws s = fold (\<lambda>(b, bs). guest_write b bs) ws s"

lemma extends_writes: "(\<forall>(b, bs)\<in>set ws. b \<notin> B) \<Longrightarrow> extends B s (guest_writes ws s)"
proof (induction ws arbitrary: s)
  case Nil
  show ?case by (simp add: guest_writes_def extends_def)
next
  case (Cons w ws)
  obtain b bs where w: "w = (b, bs)" by fastforce
  with Cons have "extends B s (guest_write b bs s)" "extends B (guest_write b bs s) (guest_writes ws (guest_write b bs s))"
    by (simp_all add: extends_write)
  then show ?case unfolding w guest_writes_def by (auto intro: extends_trans)
qed

lemma new_buffer_bytes [simp]:
  "buffer_bytes (fst (new_buffer bs s)) (vw_buffer (snd (new_buffer bs s))) = bs"
  "view_bytes (fst (new_buffer bs s)) (snd (new_buffer bs s)) = bs"
  "in_memory (fst (new_buffer bs s)) (vw_buffer (snd (new_buffer bs s)))"
  by (simp_all add: new_buffer_def buffer_bytes_def view_bytes_def in_memory_def)

lemma fulfil_bytesD:
  assumes "fulfil_bytes bs s = (s', Fulfilled b)"
  shows "s' = fst (new_buffer bs s) \<and> b = vw_buffer (snd (new_buffer bs s))"
  using assms by (auto simp: fulfil_bytes_def split: prod.splits)

lemma fulfil_orD:
  assumes "fulfil_or m r s = (s', Fulfilled b)"
  obtains bs where "r = Some bs" "s' = fst (new_buffer bs s)" "b = vw_buffer (snd (new_buffer bs s))"
  using assms by (auto simp: fulfil_or_def reject_error_def split: option.splits dest!: fulfil_bytesD)

lemma fulfil_nativeD:
  assumes "fulfil_native r s = (s', Fulfilled b)"
  obtains bs where "r = NativeValue bs" "s' = fst (new_buffer bs s)" "b = vw_buffer (snd (new_buffer bs s))"
  using assms by (cases r) (auto simp: fulfil_native_def dest!: fulfil_bytesD)

lemma whole_view [simp]:
  "as_uint8 s (ABuffer b) = Some \<lparr>vw_buffer = b, vw_offset = 0, vw_length = length (buffer_bytes s b)\<rparr>"
  "view_bytes s \<lparr>vw_buffer = b, vw_offset = 0, vw_length = length (buffer_bytes s b)\<rparr> = buffer_bytes s b"
  by (simp_all add: as_uint8_def view_bytes_def)

section \<open>Signatures and ciphers\<close>

text \<open>What the library documents of its primitives.\<close>

definition hmac_law :: "ring \<Rightarrow> bool" where
  "hmac_law R \<longleftrightarrow> (\<forall>h k d sig. rg_hmac_verify R h k d sig \<longleftrightarrow> sig = rg_hmac R h k d)"

definition ecdsa_law :: "ring \<Rightarrow> bool" where
  "ecdsa_law R \<longleftrightarrow>
     (\<forall>k p r d sig. rg_ecdsa_public R k = Some p \<longrightarrow> rg_ecdsa_sign R r k d = Some sig \<longrightarrow> rg_ecdsa_verify R p d sig)"

definition gcm_law :: "ring \<Rightarrow> bool" where
  "gcm_law R \<longleftrightarrow> (\<forall>k iv aad d c. rg_seal R k iv aad d = Some c \<longrightarrow> rg_open R k iv aad c = Some d)"

lemma generated_pair:
  assumes "subtle_generate_key R rng a x us s = (s', Fulfilled (KeyPair k p))"
  obtains kb pb where "al_name a = ''ECDSA''" "rg_ecdsa_public R kb = Some pb"
    "s' = fst (new_buffer pb (fst (new_buffer kb s)))"
    "ck_data k = Some (snd (new_buffer kb s))" "ck_type k = ''private''" "ck_name k = ''ECDSA''"
    "ck_data p = Some (snd (new_buffer pb (fst (new_buffer kb s))))" "ck_type p = ''public''" "ck_name p = ''ECDSA''"
  using assms
  by (auto simp: subtle_generate_key_def ecdsa_generate_def native_ecdsa_generate_def create_key_def reject_error_def Let_def
    split: prod.splits settled.splits if_splits option.splits)

lemma ecdsa_verify_whole:
  "al_name a = ''ECDSA'' \<Longrightarrow> ck_name p = ''ECDSA'' \<Longrightarrow> ck_type p = ''public'' \<Longrightarrow>
   subtle_verify R a p (ABuffer sig) (ABuffer b) s =
     Fulfilled (native_ecdsa_verify R (map_option (view_bytes s) (ck_data p)) (Some (buffer_bytes s sig)) (Some (buffer_bytes s b)))"
  by (simp add: subtle_verify_def ecdsa_verify_def)

text \<open>A library that is no good for secrets but keeps its laws.\<close>

definition sample_ring :: ring where
  "sample_ring =
     \<lparr>rg_digest = (\<lambda>_ d. d), rg_hmac = (\<lambda>_ k d. k @ d), rg_hmac_verify = (\<lambda>_ k d sig. sig = k @ d),
      rg_ecdsa_pkcs8 = (\<lambda>r. Some [of_nat r]), rg_ecdsa_public = (\<lambda>k. Some (k @ [0])), rg_ecdsa_sign = (\<lambda>_ k d. Some (k @ d)),
      rg_ecdsa_verify = (\<lambda>p d sig. sig = butlast p @ d), rg_rsa_sign = (\<lambda>_ _ k d. Some (k @ d)), rg_rsa_verify = (\<lambda>_ p d sig. sig = p @ d),
      rg_pbkdf2 = (\<lambda>_ _ _ _ n. replicate n 0), rg_seal = (\<lambda>_ _ _ d. Some (0 # d)),
      rg_open = (\<lambda>_ _ _ c. case c of [] \<Rightarrow> None | _ # d \<Rightarrow> Some d), rg_random = (\<lambda>_ n. Some (replicate n 0))\<rparr>"

definition sample_algo :: "string \<Rightarrow> algo" where
  "sample_algo name =
     \<lparr>al_name = name, al_is_string = False, al_hash = Some ''SHA-256'', al_curve = [], al_length = JUndefined, al_salt = ABuffer 0,
      al_iterations = JNumber 1, al_iv = NoBuffer, al_aad = None, al_tag = JUndefined\<rparr>"

definition sample_memory :: crypto_state where
  "sample_memory = \<lparr>cs_memory = [[9, 8], [7]], cs_keys = [], cs_next_key = 1\<rparr>"

text \<open>C25: What a generated key signs, its public key verifies.  With a pair from \<open>generateKey\<close> and the primitives of
  the library, a signature that \<open>sign\<close> answered for a buffer is accepted by \<open>verify\<close> for that buffer, whatever
  the guest wrote in between to other buffers that were there before the pair.\<close>

theorem signature_verifies:
  assumes "ecdsa_law R"
    and "subtle_generate_key R rng a x us s0 = (s1, Fulfilled (KeyPair k p))"
    and "in_memory s0 b" and "subtle_sign R rng' a k (ABuffer b) s1 = (s2, Fulfilled sig)"
    and "\<forall>(w, bs)\<in>set ws. w < length (cs_memory s0) \<and> w \<noteq> b"
  shows "subtle_verify R a p (ABuffer sig) (ABuffer b) (guest_writes ws s2) = Fulfilled True"
proof -
  from assms(2) obtain kb pb where g: "al_name a = ''ECDSA''" "rg_ecdsa_public R kb = Some pb"
    "s1 = fst (new_buffer pb (fst (new_buffer kb s0)))"
    "ck_data k = Some (snd (new_buffer kb s0))" "ck_type k = ''private''" "ck_name k = ''ECDSA''"
    "ck_data p = Some (snd (new_buffer pb (fst (new_buffer kb s0))))" "ck_type p = ''public''" "ck_name p = ''ECDSA''"
    by (rule generated_pair)
  have kb: "view_bytes s1 (snd (new_buffer kb s0)) = kb"
    unfolding g(3) using extends_view [OF extends_new [of UNIV]] by simp
  from assms(4) g(1,4-6) have "fulfil_or ''ECDSA sign failed''
      (native_ecdsa_sign R rng' (Some kb) (Some (buffer_bytes s1 b))) s1 = (s2, Fulfilled sig)"
    by (simp add: subtle_sign_def ecdsa_sign_def key_bytes_def kb)
  then obtain sb where sb: "rg_ecdsa_sign R rng' kb (buffer_bytes s1 b) = Some sb" "s2 = fst (new_buffer sb s1)"
    "sig = vw_buffer (snd (new_buffer sb s1))"
    by (auto simp: native_ecdsa_sign_def elim: fulfil_orD)
  let ?B = "{b} \<union> {n. length (cs_memory s0) \<le> n}"
  let ?s = "guest_writes ws s2" and ?v = "snd (new_buffer pb (fst (new_buffer kb s0)))"
  have w: "extends ?B s2 ?s" by (rule extends_writes) (use assms(5) in auto)
  have "view_bytes s2 ?v = pb" "in_memory s2 (vw_buffer ?v)"
    unfolding sb(2) g(3) by (auto simp: new_buffer_def view_bytes_def buffer_bytes_def in_memory_def nth_append)
  then have pb: "view_bytes ?s ?v = pb"
    using extends_view [OF w, of ?v] by (simp add: new_buffer_def)
  have "buffer_bytes s2 b = buffer_bytes s1 b" "in_memory s2 b"
    using assms(3) unfolding sb(2) g(3) by (auto simp: new_buffer_def buffer_bytes_def in_memory_def nth_append)
  then have b: "buffer_bytes ?s b = buffer_bytes s1 b" using w by (simp add: extends_def)
  have "buffer_bytes s2 sig = sb" "in_memory s2 sig" "sig \<in> ?B"
    unfolding sb(2,3) g(3) by (auto simp: new_buffer_def buffer_bytes_def in_memory_def nth_append)
  then have "buffer_bytes ?s sig = sb" using w by (auto simp: extends_def)
  with pb b have "subtle_verify R a p (ABuffer sig) (ABuffer b) ?s = Fulfilled (rg_ecdsa_verify R pb (buffer_bytes s1 b) sb)"
    by (simp add: ecdsa_verify_whole [OF g(1,9,8)] g(7) native_ecdsa_verify_def)
  moreover have "rg_ecdsa_verify R pb (buffer_bytes s1 b) sb"
    using assms(1) g(2) sb(1) unfolding ecdsa_law_def by blast
  ultimately show ?thesis by simp
qed

theorem signature_verifies_witness:
  "\<exists>s1 k p s2 sig. subtle_generate_key sample_ring 5 (sample_algo ''ECDSA'') True [''sign'', ''verify''] sample_memory = (s1, Fulfilled (KeyPair k p)) \<and>
     subtle_sign sample_ring 6 (sample_algo ''ECDSA'') k (ABuffer 0) s1 = (s2, Fulfilled sig) \<and>
     subtle_verify sample_ring (sample_algo ''ECDSA'') p (ABuffer sig) (ABuffer 0) (guest_writes [(1, [])] s2) = Fulfilled True"
proof -
  let ?a = "sample_algo ''ECDSA''"
  have law: "ecdsa_law sample_ring" by (simp add: ecdsa_law_def sample_ring_def)
  obtain s1 k p where g: "subtle_generate_key sample_ring 5 ?a True [''sign'', ''verify''] sample_memory = (s1, Fulfilled (KeyPair k p))"
    by (simp add: subtle_generate_key_def ecdsa_generate_def native_ecdsa_generate_def sample_algo_def sample_ring_def new_buffer_def)
  then obtain s2 sig where sg: "subtle_sign sample_ring 6 ?a k (ABuffer 0) s1 = (s2, Fulfilled sig)"
    by (rule generated_pair) (auto simp: subtle_sign_def ecdsa_sign_def sample_algo_def sample_ring_def key_bytes_def
      native_ecdsa_sign_def fulfil_or_def fulfil_bytes_def new_buffer_def)
  have "in_memory sample_memory 0" "\<forall>(w, bs)\<in>set [(1, [])]. w < length (cs_memory sample_memory) \<and> w \<noteq> 0"
    by (simp_all add: in_memory_def sample_memory_def)
  from signature_verifies [OF law g this(1) sg this(2)] g sg show ?thesis by blast
qed

text \<open>The buffer of a source is one the memory has.\<close>

definition known :: "crypto_state \<Rightarrow> source \<Rightarrow> bool" where
  "known s src =
     (case src of
        ABuffer b \<Rightarrow> in_memory s b
      | ByteView v \<Rightarrow> in_memory s (vw_buffer v)
      | IntView v \<Rightarrow> in_memory s (vw_buffer v)
      | OtherView v \<Rightarrow> in_memory s (vw_buffer v)
      | NoBuffer \<Rightarrow> True)"

lemma known_kept:
  assumes "extends UNIV s s'" "known s src"
  shows "aes_bytes s' src = aes_bytes s src" "aes_bytes s src = Some v \<Longrightarrow> view_bytes s' v = view_bytes s v"
  using assms extends_view [OF assms(1), of v] by (cases src; auto simp: known_def aes_bytes_def extends_def)+

lemma gcm_args_whole:
  "aes_gcm_args a key (ABuffer c) s = Inr (k, iv, d, aad) \<Longrightarrow> view_bytes s d = buffer_bytes s c"
  by (auto simp: aes_gcm_args_def aes_bytes_def split: if_splits option.splits)

text \<open>What is encrypted is decrypted.  With a primitive that opens what it sealed, decrypting the buffer that
  \<open>encrypt\<close> answered, with the same algorithm and key, answers a buffer with the bytes of the plaintext.\<close>

lemma decrypt_returns_plaintext:
  assumes "gcm_law R" and "subtle_encrypt R a key data s = (s1, Fulfilled c)" and "aes_bytes s data = Some d"
    and "known s data" "known s (al_iv a)" "\<forall>src. al_aad a = Some src \<longrightarrow> known s src"
    and "\<forall>v. ck_data key = Some v \<longrightarrow> in_memory s (vw_buffer v)"
  shows "\<exists>s2 b. subtle_decrypt R a key (ABuffer c) s1 = (s2, Fulfilled b) \<and> buffer_bytes s2 b = view_bytes s d"
proof -
  obtain k iv aad where args: "aes_gcm_args a key data s = Inr (k, iv, d, aad)" "k = ck_data key" "aes_bytes s (al_iv a) = Some iv"
    using assms(2,3) by (auto simp: subtle_encrypt_def aes_gcm_args_def split: sum.splits option.splits if_splits)
  with assms(2) obtain cb where sealed:
    "native_gcm_seal R (map_option (view_bytes s) k) (Some (view_bytes s iv)) (Some (view_bytes s d)) (Some aad) = NativeValue cb"
    "s1 = fst (new_buffer cb s)" "c = vw_buffer (snd (new_buffer cb s))"
    by (auto simp: subtle_encrypt_def elim: fulfil_nativeD)
  have e: "extends UNIV s s1" unfolding sealed(2) by simp
  have c: "buffer_bytes s1 c = cb" unfolding sealed(2,3) by simp
  have k: "map_option (view_bytes s1) k = map_option (view_bytes s) k"
    using assms(7) extends_view [OF e] by (cases k) (auto simp: args(2))
  have iv: "view_bytes s1 iv = view_bytes s iv" using known_kept [OF e assms(5)] args(3) by blast
  have aad: "map_option (view_bytes s1) (aes_bytes s1 src) = map_option (view_bytes s) (aes_bytes s src)" if "al_aad a = Some src" for src
    using known_kept [OF e, of src] assms(6) that by (cases "aes_bytes s src") auto
  have "\<exists>d'. aes_gcm_args a key (ABuffer c) s1 = Inr (k, iv, d', aad)"
    using args known_kept(1) [OF e assms(5)] aad
    by (auto simp: aes_gcm_args_def aes_bytes_def [of _ "ABuffer c"] split: if_splits option.splits)
  then obtain d' where d': "aes_gcm_args a key (ABuffer c) s1 = Inr (k, iv, d', aad)" "view_bytes s1 d' = cb"
    using gcm_args_whole c by blast
  have "native_gcm_open R (map_option (view_bytes s) k) (Some (view_bytes s iv)) (Some cb) (Some aad) = NativeValue (view_bytes s d)"
    using sealed(1) assms(1)
    by (auto simp: native_gcm_seal_def native_gcm_open_def gcm_args_def gcm_law_def split: sum.splits option.splits prod.splits)
  then have "subtle_decrypt R a key (ABuffer c) s1 = fulfil_bytes (view_bytes s d) s1"
    by (simp add: subtle_decrypt_def d' k iv fulfil_native_def)
  then show ?thesis by (auto simp: fulfil_bytes_def split: prod.splits) (metis fst_conv new_buffer_bytes(1) snd_conv)
qed

text \<open>An imported key is not a copy.  The key of a byte array is a view of the caller's memory: once the guest writes
  to its buffer, for instance to wipe the secret, \<open>sign\<close> uses the new bytes.\<close>

lemma imported_key_follows_buffer:
  assumes "subtle_import_key encode ''raw'' (KeySource (ByteView v)) a x us s = (s1, Fulfilled key)" "al_name a = ''HMAC''"
    and "hash_of (hash_name a) = Some h" and "in_memory s (vw_buffer v)" and "s2 = guest_write (vw_buffer v) bs s1"
  shows "subtle_sign R rng a key (ABuffer d) s2 =
    fulfil_bytes (rg_hmac R h (take (vw_length v) (drop (vw_offset v) bs)) (buffer_bytes s2 d)) s2"
proof -
  have key: "ck_data key = Some v" "ck_hash key = Some (hash_name a)" "cs_memory s1 = cs_memory s"
    using assms(1,2)
    by (auto simp: subtle_import_key_def aes_import_def pbkdf2_import_def rsa_import_def ecdsa_import_def hmac_import_def
      key_source_def as_uint8_def create_key_def Let_def)
  have "view_bytes s2 v = take (vw_length v) (drop (vw_offset v) bs)"
    using assms(4,5) key(3) by (simp add: view_bytes_def buffer_bytes_def guest_write_def in_memory_def)
  then show ?thesis
    using assms(2,3) key by (simp add: subtle_sign_def ecdsa_sign_def hmac_sign_def key_bytes_def native_hmac_sign_def fulfil_or_def)
qed

text \<open>C40: A public key passes for a secret.  \<open>verify\<close> with the name HMAC takes the public key of an RSA pair and
  accepts the HMAC under the bytes of that public key, which anyone can compute.\<close>

theorem public_key_is_hmac_secret:
  assumes "hmac_law R" and "subtle_import_key encode ''spki'' (KeySource (ABuffer b)) a x us s = (s1, Fulfilled key)"
    and "al_name a = ''RSASSA-PKCS1-v1_5''" and "hash_of (hash_name a) = Some h" and "al_name m = ''HMAC''"
  shows "subtle_verify R m key (ABuffer sig) (ABuffer d) s1 =
    Fulfilled (buffer_bytes s1 sig = rg_hmac R h (buffer_bytes s1 b) (buffer_bytes s1 d))"
proof -
  have key: "ck_data key = as_uint8 s1 (ABuffer b)" "ck_hash key = Some (hash_name a)"
    using assms(2,3)
    by (auto simp: subtle_import_key_def aes_import_def pbkdf2_import_def rsa_import_def key_source_def create_key_def)
  with assms(1,4,5) show ?thesis
    by (simp add: subtle_verify_def ecdsa_verify_def hmac_verify_def key_bytes_def native_hmac_verify_def hmac_law_def)
qed

theorem public_key_is_hmac_secret_witness:
  "\<exists>s1 key. subtle_import_key (\<lambda>_. []) ''spki'' (KeySource (ABuffer 1)) (sample_algo ''RSASSA-PKCS1-v1_5'') True []
       \<lparr>cs_memory = [[9], [7], [7, 9]], cs_keys = [], cs_next_key = 1\<rparr> = (s1, Fulfilled key) \<and>
     subtle_verify sample_ring (sample_algo ''HMAC'') key (ABuffer 2) (ABuffer 0) s1 = Fulfilled True"
proof -
  let ?s = "\<lparr>cs_memory = [[9], [7], [7, 9]], cs_keys = [], cs_next_key = 1\<rparr>" and ?a = "sample_algo ''RSASSA-PKCS1-v1_5''"
  obtain key where i: "subtle_import_key (\<lambda>_. []) ''spki'' (KeySource (ABuffer 1)) ?a True [] ?s = (?s, Fulfilled key)"
    by (simp add: subtle_import_key_def aes_import_def pbkdf2_import_def rsa_import_def key_source_def sample_algo_def)
  have h: "hmac_law sample_ring" "hash_of (hash_name ?a) = Some SHA256" "al_name ?a = ''RSASSA-PKCS1-v1_5''"
    "al_name (sample_algo ''HMAC'') = ''HMAC''"
    by (simp_all add: hmac_law_def sample_ring_def hash_of_def hash_name_def sample_algo_def to_uppercase_def upper_char_def)
  from public_key_is_hmac_secret [OF h(1) i h(3,2,4), of 2 0] i show ?thesis
    by (auto simp: sample_ring_def buffer_bytes_def)
qed

text \<open>C39: A guest can end the process.  \<open>deriveBits\<close> of 2 to the 63 bits asks for an exbibyte, before and outside
  every limit of the isolate, and an allocator that refuses it aborts the process with all its isolates.\<close>

theorem derive_bits_can_abort:
  assumes "subtle_import_key encode ''raw'' (KeyText secret) a x us s = (s1, Fulfilled key)" "al_name a = ''PBKDF2''"
    and "\<not> al_is_string a" "as_uint8 s1 (al_salt a) = Some salt" "al_iterations a = JNumber 1" "al_hash a = Some ''SHA-256''"
    and "\<not> alloc (2 ^ 60)"
  shows "derive_bits R alloc low a key (JNumber (2 ^ 63)) s1 = (s1, Aborted)"
proof -
  have key: "ck_name key = ''PBKDF2''" "ck_data key \<noteq> None"
    using assms(1,2)
    by (auto simp: subtle_import_key_def aes_import_def pbkdf2_import_def create_key_def split: prod.splits)
  then obtain v where v: "ck_data key = Some v" by blast
  have n: "number_as (2 ^ 64 - 1) (JNumber (2 ^ 63)) div 8 = 2 ^ 60" "number_as (2 ^ 32 - 1) (JNumber 1) = 1"
    "hash_of ''SHA-256'' = Some SHA256" "is_number (JNumber m)" for m
    by (simp_all add: number_as_def is_number_def hash_of_def to_uppercase_def upper_char_def)
  have "native_pbkdf2 R alloc (Some ''SHA-256'') (Some pw) (Some sl) (JNumber 1) (JNumber (2 ^ 63)) = ProcessAborts" for pw sl
    unfolding native_pbkdf2_def derivation_of_def option.case n using assms(7) by (simp add: is_number_def)
  with assms(2-6) key(1) v show ?thesis
    by (simp add: derive_bits_def iterations_refused_def key_bytes_def fulfil_native_def)
qed

theorem derive_bits_can_abort_witness:
  "\<exists>s1 key. subtle_import_key (\<lambda>_. []) ''raw'' (KeyText ''pw'') (sample_algo ''PBKDF2'') True [] sample_memory = (s1, Fulfilled key) \<and>
     derive_bits sample_ring (\<lambda>n. n < 2 ^ 48) (\<lambda>_. True) (sample_algo ''PBKDF2'') key (JNumber (2 ^ 63)) s1 = (s1, Aborted)"
proof -
  let ?a = "sample_algo ''PBKDF2''"
  obtain s1 key where i: "subtle_import_key (\<lambda>_. []) ''raw'' (KeyText ''pw'') ?a True [] sample_memory = (s1, Fulfilled key)"
    by (simp add: subtle_import_key_def aes_import_def pbkdf2_import_def sample_algo_def new_buffer_def)
  have h: "al_name ?a = ''PBKDF2''" "\<not> al_is_string ?a" "al_iterations ?a = JNumber 1" "al_hash ?a = Some ''SHA-256''"
    "as_uint8 s1 (al_salt ?a) = Some \<lparr>vw_buffer = 0, vw_offset = 0, vw_length = length (buffer_bytes s1 0)\<rparr>"
    by (simp_all add: sample_algo_def)
  from derive_bits_can_abort [OF i h(1,2,5,3,4), of "\<lambda>n. n < 2 ^ 48" sample_ring "\<lambda>_. True"] i show ?thesis by auto
qed

text \<open>Every HMAC key that was ever imported stays in the script's map.\<close>

lemma hmac_keys_are_kept:
  assumes "subtle_import_key encode fmt k a x us s = (s1, Fulfilled key)" "al_name a = ''HMAC''"
  shows "length (cs_keys s1) = Suc (length (hm_remove (cs_next_key s) (cs_keys s))) \<and> hm_get (cs_keys s1) (cs_next_key s) = Some key"
  using assms
  by (auto simp: subtle_import_key_def aes_import_def pbkdf2_import_def rsa_import_def ecdsa_import_def hmac_import_def hm_insert_def
    hm_get_def reject_error_def Let_def split: if_splits option.splits)

end
