(* ===== verification/Compression.thy ===== *)
theory Compression
  imports Js_Value Hash_Map
begin

text \<open>
  The compression streams of the guest, from \<open>src/src/runtime/bindings/compression.rs\<close>: a table of codecs that the
  guest names by id, and the operations that feed, finish and drop one.  The codecs themselves are the
  compression library's and arguments.
\<close>

section \<open>Codecs\<close>

datatype codec_kind = ZlibEncode | RawEncode | GzipEncode | ZlibDecode | RawDecode | GzipDecode

text \<open>A new writer, \<open>write_all\<close>, the output it holds so far and what is left of it without, and the end.\<close>

record 'w flate =
  fl_new :: "codec_kind \<Rightarrow> 'w"
  fl_write :: "codec_kind \<Rightarrow> 'w \<Rightarrow> bytes \<Rightarrow> (string, 'w) result"
  fl_take :: "'w \<Rightarrow> bytes \<times> 'w"
  fl_finish :: "codec_kind \<Rightarrow> 'w \<Rightarrow> (string, bytes) result"

type_synonym 'w codec = "codec_kind \<times> 'w"

definition codec_kind_of :: "string \<Rightarrow> bool \<Rightarrow> codec_kind option" where
  "codec_kind_of fmt decompress =
     (if fmt = ''deflate'' then Some (if decompress then ZlibDecode else ZlibEncode)
      else if fmt = ''deflate-raw'' then Some (if decompress then RawDecode else RawEncode)
      else if fmt = ''gzip'' then Some (if decompress then GzipDecode else GzipEncode)
      else None)"

definition codec_new :: "'w flate \<Rightarrow> string \<Rightarrow> bool \<Rightarrow> 'w codec option" where
  "codec_new F fmt decompress = map_option (\<lambda>k. (k, fl_new F k)) (codec_kind_of fmt decompress)"

definition codec_push :: "'w flate \<Rightarrow> bytes \<Rightarrow> 'w codec \<Rightarrow> (string, 'w codec \<times> bytes) result" where
  "codec_push F bs c =
     (case fl_write F (fst c) (snd c) bs of
        Inl e \<Rightarrow> Err e
      | Inr w \<Rightarrow> (let (out, w) = fl_take F w in Ok ((fst c, w), out)))"

definition codec_finish :: "'w flate \<Rightarrow> 'w codec \<Rightarrow> (string, bytes) result" where
  "codec_finish F c = fl_finish F (fst c) (snd c)"

section \<open>Operations\<close>

record 'w compression_state =
  co_codecs :: "(u32, 'w codec) hash_map"
  co_next_id :: u32

definition compression_new :: "'w compression_state" where
  "compression_new = \<lparr>co_codecs = [], co_next_id = 0\<rparr>"

datatype comp_result = CompId u32 | CompBytes bytes | CompUndefined | CompThrows string

definition comp_stream_id :: "js_value \<Rightarrow> u32 option" where
  "comp_stream_id v = (case v of JNumber n \<Rightarrow> if 0 \<le> n \<and> n < 2 ^ 32 then Some (word_of_int n) else None | _ \<Rightarrow> None)"

definition NOT_AN_ID :: string where
  "NOT_AN_ID = ''a compression stream op takes a stream id''"

definition CLOSED_STREAM :: string where
  "CLOSED_STREAM = ''the compression stream is already closed''"

text \<open>A format that does not convert to a string reads as the empty one.\<close>

definition compression_start ::
    "'w flate \<Rightarrow> string option \<Rightarrow> bool \<Rightarrow> 'w compression_state \<Rightarrow> 'w compression_state \<times> comp_result" where
  "compression_start F format_arg decompress s =
     (let fmt = (case format_arg of Some f \<Rightarrow> f | None \<Rightarrow> []) in
      case codec_new F fmt decompress of
        None \<Rightarrow> (s, CompThrows (''Unsupported compression format: '' @ [CHR 0x27] @ fmt @ [CHR 0x27]))
      | Some codec \<Rightarrow>
          (let i = co_next_id s + 1
           in (s\<lparr>co_next_id := i, co_codecs := hm_insert i codec (co_codecs s)\<rparr>, CompId i)))"

text \<open>The bytes are None when the argument is no buffer and no typed array.\<close>

definition compression_push ::
    "'w flate \<Rightarrow> js_value \<Rightarrow> bytes option \<Rightarrow> 'w compression_state \<Rightarrow> 'w compression_state \<times> comp_result" where
  "compression_push F id_arg bytes_arg s =
     (case comp_stream_id id_arg of
        None \<Rightarrow> (s, CompThrows NOT_AN_ID)
      | Some i \<Rightarrow>
          (case bytes_arg of
             None \<Rightarrow> (s, CompThrows ''a compression stream takes a BufferSource'')
           | Some bs \<Rightarrow>
               (case hm_get (co_codecs s) i of
                  None \<Rightarrow> (s, CompThrows CLOSED_STREAM)
                | Some codec \<Rightarrow>
                    (case codec_push F bs codec of
                       Inr (codec, out) \<Rightarrow> (s\<lparr>co_codecs := hm_insert i codec (co_codecs s)\<rparr>, CompBytes out)
                     | Inl err \<Rightarrow> (s\<lparr>co_codecs := hm_remove i (co_codecs s)\<rparr>, CompThrows (''compression failed: '' @ err))))))"

definition compression_finish :: "'w flate \<Rightarrow> js_value \<Rightarrow> 'w compression_state \<Rightarrow> 'w compression_state \<times> comp_result" where
  "compression_finish F id_arg s =
     (case comp_stream_id id_arg of
        None \<Rightarrow> (s, CompThrows NOT_AN_ID)
      | Some i \<Rightarrow>
          (let codec = hm_get (co_codecs s) i; s = s\<lparr>co_codecs := hm_remove i (co_codecs s)\<rparr>
           in case codec of
                None \<Rightarrow> (s, CompThrows CLOSED_STREAM)
              | Some c \<Rightarrow>
                  (case codec_finish F c of
                     Inr out \<Rightarrow> (s, CompBytes out)
                   | Inl err \<Rightarrow> (s, CompThrows (''compression failed: '' @ err)))))"

definition compression_drop :: "js_value \<Rightarrow> 'w compression_state \<Rightarrow> 'w compression_state \<times> comp_result" where
  "compression_drop id_arg s =
     (case comp_stream_id id_arg of
        None \<Rightarrow> (s, CompThrows NOT_AN_ID)
      | Some i \<Rightarrow> (s\<lparr>co_codecs := hm_remove i (co_codecs s)\<rparr>, CompUndefined))"

section \<open>Streams do not mix\<close>

datatype comp_op =
    CompStart "string option" bool
  | CompPush js_value "bytes option"
  | CompFinish js_value
  | CompDrop js_value

definition comp_op :: "'w flate \<Rightarrow> comp_op \<Rightarrow> 'w compression_state \<Rightarrow> 'w compression_state \<times> comp_result" where
  "comp_op F op s =
     (case op of
        CompStart fmt d \<Rightarrow> compression_start F fmt d s
      | CompPush v bs \<Rightarrow> compression_push F v bs s
      | CompFinish v \<Rightarrow> compression_finish F v s
      | CompDrop v \<Rightarrow> compression_drop v s)"

fun comp_run :: "'w flate \<Rightarrow> comp_op list \<Rightarrow> 'w compression_state \<Rightarrow> 'w compression_state \<times> comp_result list" where
  "comp_run F [] s = (s, [])"
| "comp_run F (op # ops) s = (let (s, r) = comp_op F op s; (s, rs) = comp_run F ops s in (s, r # rs))"

text \<open>The operations on one stream, and the stream alone: a codec of its own, or none.\<close>

definition addresses :: "u32 \<Rightarrow> comp_op \<Rightarrow> bool" where
  "addresses i op =
     (case op of
        CompStart _ _ \<Rightarrow> False
      | CompPush v _ \<Rightarrow> comp_stream_id v = Some i
      | CompFinish v \<Rightarrow> comp_stream_id v = Some i
      | CompDrop v \<Rightarrow> comp_stream_id v = Some i)"

definition alone_step :: "'w flate \<Rightarrow> comp_op \<Rightarrow> 'w codec option \<Rightarrow> 'w codec option \<times> comp_result" where
  "alone_step F op c =
     (case op of
        CompPush _ None \<Rightarrow> (c, CompThrows ''a compression stream takes a BufferSource'')
      | CompPush _ (Some bs) \<Rightarrow>
          (case c of
             None \<Rightarrow> (None, CompThrows CLOSED_STREAM)
           | Some codec \<Rightarrow>
               (case codec_push F bs codec of
                  Inr (codec, out) \<Rightarrow> (Some codec, CompBytes out)
                | Inl err \<Rightarrow> (None, CompThrows (''compression failed: '' @ err))))
      | CompFinish _ \<Rightarrow>
          (case c of
             None \<Rightarrow> (None, CompThrows CLOSED_STREAM)
           | Some codec \<Rightarrow>
               (None, case codec_finish F codec of Inr out \<Rightarrow> CompBytes out | Inl err \<Rightarrow> CompThrows (''compression failed: '' @ err)))
      | CompDrop _ \<Rightarrow> (None, CompUndefined)
      | CompStart _ _ \<Rightarrow> (c, CompUndefined))"

fun alone_run :: "'w flate \<Rightarrow> comp_op list \<Rightarrow> 'w codec option \<Rightarrow> comp_result list" where
  "alone_run F [] c = []"
| "alone_run F (op # ops) c = (let (c, r) = alone_step F op c in r # alone_run F ops c)"

lemma addressed_step:
  "addresses i op \<Longrightarrow>
   hm_get (co_codecs (fst (comp_op F op s))) i = fst (alone_step F op (hm_get (co_codecs s) i)) \<and>
   snd (comp_op F op s) = snd (alone_step F op (hm_get (co_codecs s) i)) \<and> co_next_id (fst (comp_op F op s)) = co_next_id s"
  by (cases op)
    (auto simp: addresses_def comp_op_def alone_step_def compression_push_def compression_finish_def compression_drop_def Let_def
      split: option.split sum.split)

text \<open>The other operations leave a stream alone, unless a new one gets its id.\<close>

lemma other_step:
  assumes "\<not> addresses i op" "unat i \<le> unat (co_next_id s)" "unat (co_next_id s) + 1 < 2 ^ 32"
  shows "hm_get (co_codecs (fst (comp_op F op s))) i = hm_get (co_codecs s) i \<and>
    unat (co_next_id s) \<le> unat (co_next_id (fst (comp_op F op s))) \<and> unat (co_next_id (fst (comp_op F op s))) \<le> unat (co_next_id s) + 1"
proof (cases op)
  case (CompStart fmt d)
  have "unat (co_next_id s + 1) = unat (co_next_id s) + 1" using assms(3) by (simp add: unat_word_ariths)
  then have "unat i \<noteq> unat (co_next_id s + 1)" "unat (co_next_id s + 1) = unat (co_next_id s) + 1" using assms(2) by auto
  then show ?thesis
    by (auto simp: CompStart comp_op_def compression_start_def Let_def split: option.split)
qed (use assms(1) in \<open>auto simp: addresses_def comp_op_def compression_push_def compression_finish_def compression_drop_def Let_def
      split: option.splits sum.split\<close>)

lemma comp_run_Cons: "snd (comp_run F (op # ops) s) = snd (comp_op F op s) # snd (comp_run F ops (fst (comp_op F op s)))"
  by (simp add: Let_def split: prod.split)

lemma alone_run_Cons: "alone_run F (op # ops) c = snd (alone_step F op c) # alone_run F ops (fst (alone_step F op c))"
  by (simp add: Let_def split: prod.split)

text \<open>What closes a stream, and what the operations on a closed one answer: a drop of it is nothing, the others throw.\<close>

definition closes :: "comp_op \<Rightarrow> comp_result \<Rightarrow> bool" where
  "closes op r \<longleftrightarrow>
     (case op of
        CompStart _ _ \<Rightarrow> False
      | CompPush _ bs \<Rightarrow> bs \<noteq> None \<and> (\<exists>e. r = CompThrows e)
      | CompFinish _ \<Rightarrow> True
      | CompDrop _ \<Rightarrow> True)"

definition closed_answer :: "comp_op \<Rightarrow> comp_result" where
  "closed_answer op =
     (case op of
        CompPush _ None \<Rightarrow> CompThrows ''a compression stream takes a BufferSource''
      | CompDrop _ \<Rightarrow> CompUndefined
      | _ \<Rightarrow> CompThrows CLOSED_STREAM)"

lemma closes_stream:
  "addresses i op \<Longrightarrow> closes op (snd (comp_op F op s)) \<Longrightarrow> hm_get (co_codecs (fst (comp_op F op s))) i = None"
  using addressed_step [of i op F s]
  by (cases op) (auto simp: addresses_def closes_def alone_step_def split: option.splits sum.splits)

lemma closed_step:
  "addresses i op \<Longrightarrow> hm_get (co_codecs s) i = None \<Longrightarrow>
   snd (comp_op F op s) = closed_answer op \<and> hm_get (co_codecs (fst (comp_op F op s))) i = None"
  using addressed_step [of i op F s]
  by (cases op) (auto simp: addresses_def alone_step_def closed_answer_def split: option.splits)

text \<open>What one operation leaves of the ids.\<close>

lemma ids_step:
  fixes i :: u32
  assumes "unat i \<le> unat (co_next_id s)" "unat (co_next_id s) + length (op # ops) < 2 ^ 32"
  shows "unat i \<le> unat (co_next_id (fst (comp_op F op s)))"
    "unat (co_next_id (fst (comp_op F op s))) + length ops < 2 ^ 32"
  using addressed_step [of i op F s] other_step [of i op s F] assms by (cases "addresses i op"; simp)+

lemma closed_run:
  "unat i \<le> unat (co_next_id s) \<Longrightarrow> unat (co_next_id s) + length ops < 2 ^ 32 \<Longrightarrow> hm_get (co_codecs s) i = None \<Longrightarrow>
   j < length ops \<Longrightarrow> addresses i (ops ! j) \<Longrightarrow> snd (comp_run F ops s) ! j = closed_answer (ops ! j)"
proof (induction ops arbitrary: s j)
  case (Cons op ops)
  note [simp del] = comp_run.simps(2)
  have "hm_get (co_codecs (fst (comp_op F op s))) i = None"
    using closed_step [of i op s F] other_step [of i op s F] Cons.prems by (cases "addresses i op") auto
  with Cons.IH [OF ids_step [OF Cons.prems(1,2)]] Cons.prems closed_step [of i op s F] show ?case
    by (cases j) (simp_all add: comp_run_Cons)
qed simp

lemma run_after_close:
  "unat i \<le> unat (co_next_id s) \<Longrightarrow> unat (co_next_id s) + length ops < 2 ^ 32 \<Longrightarrow> k < j \<Longrightarrow> j < length ops \<Longrightarrow>
   addresses i (ops ! k) \<Longrightarrow> closes (ops ! k) (snd (comp_run F ops s) ! k) \<Longrightarrow> addresses i (ops ! j) \<Longrightarrow>
   snd (comp_run F ops s) ! j = closed_answer (ops ! j)"
proof (induction ops arbitrary: s k j)
  case (Cons op ops)
  note [simp del] = comp_run.simps(2)
  obtain j' where j: "j = Suc j'" using Cons.prems(3) by (cases j) auto
  note ids = ids_step [OF Cons.prems(1,2), of F]
  show ?case
  proof (cases k)
    case 0
    then have "hm_get (co_codecs (fst (comp_op F op s))) i = None"
      using closes_stream [of i op F s] Cons.prems by (simp add: comp_run_Cons)
    from closed_run [OF ids this, of j' F] Cons.prems j show ?thesis by (simp add: comp_run_Cons)
  next
    case (Suc k')
    from Cons.IH [OF ids, of k' j'] Cons.prems j Suc show ?thesis by (simp add: comp_run_Cons)
  qed
qed simp

text \<open>C28: Compression streams do not mix.  As long as the 32-bit counter of ids does not wrap, and whatever the guest does
  with other streams in between, the answers to the operations on one stream are those of a codec of its own
  that is fed these operations alone.  After its end, its failure or its drop it is closed for good: to
  push to it and to finish it throw, and to drop it again is nothing.\<close>

theorem streams_do_not_mix:
  assumes "unat i \<le> unat (co_next_id s)" "unat (co_next_id s) + length ops < 2 ^ 32"
  shows "map snd (filter (\<lambda>(op, _). addresses i op) (zip ops (snd (comp_run F ops s)))) =
      alone_run F (filter (addresses i) ops) (hm_get (co_codecs s) i) \<and>
    (\<forall>k j. k < j \<and> j < length ops \<and> addresses i (ops ! k) \<and> closes (ops ! k) (snd (comp_run F ops s) ! k) \<and> addresses i (ops ! j) \<longrightarrow>
      snd (comp_run F ops s) ! j = closed_answer (ops ! j))"
proof
  show "map snd (filter (\<lambda>(op, _). addresses i op) (zip ops (snd (comp_run F ops s)))) =
      alone_run F (filter (addresses i) ops) (hm_get (co_codecs s) i)"
    using assms
  proof (induction ops arbitrary: s)
    case (Cons op ops)
    let ?s = "fst (comp_op F op s)"
    note [simp del] = comp_run.simps(2) alone_run.simps(2)
    note ids = ids_step [OF Cons.prems, of F]
    have n: "unat (co_next_id s) + 1 < 2 ^ 32" using Cons.prems(2) by simp
    show ?case
      using Cons.IH [OF ids] addressed_step [of i op F s] other_step [OF _ Cons.prems(1) n, of op F]
      by (cases "addresses i op") (simp_all add: comp_run_Cons alone_run_Cons)
  qed simp
qed (use run_after_close [OF assms] in blast)

text \<open>A library that emits each chunk as it comes, and refuses a zero.\<close>

definition plain_flate :: "bytes flate" where
  "plain_flate =
     \<lparr>fl_new = (\<lambda>_. []), fl_write = (\<lambda>_ w bs. if 0 \<in> set bs then Inl ''corrupt'' else Inr (w @ bs)), fl_take = (\<lambda>w. (w, [])),
      fl_finish = (\<lambda>_ w. Inr (w @ [255]))\<rparr>"

theorem streams_do_not_mix_witness:
  "let ops = [CompPush (JNumber 1) (Some [5]), CompPush (JNumber 2) (Some [0]), CompStart (Some ''gzip'') True, CompFinish (JNumber 1),
       CompPush (JNumber 1) (Some [6]), CompDrop (JNumber 1)];
     s = fst (comp_run plain_flate [CompStart (Some ''gzip'') False, CompStart (Some ''deflate'') True] compression_new) in
   map snd (filter (\<lambda>(op, _). addresses 1 op) (zip ops (snd (comp_run plain_flate ops s)))) =
     [CompBytes [5], CompBytes [255], CompThrows CLOSED_STREAM, CompUndefined]"
proof -
  let ?ops = "[CompPush (JNumber 1) (Some [5]), CompPush (JNumber 2) (Some [0]), CompStart (Some ''gzip'') True, CompFinish (JNumber 1),
       CompPush (JNumber 1) (Some [6]), CompDrop (JNumber 1)]"
  let ?s = "fst (comp_run plain_flate [CompStart (Some ''gzip'') False, CompStart (Some ''deflate'') True] compression_new)"
  have "co_next_id ?s = 2" "alone_run plain_flate (filter (addresses 1) ?ops) (hm_get (co_codecs ?s) 1) =
      [CompBytes [5], CompBytes [255], CompThrows CLOSED_STREAM, CompUndefined]" by code_simp+
  then show ?thesis
    using streams_do_not_mix [of 1 ?s ?ops plain_flate] unfolding Let_def by simp
qed

end
