(* ===== verification/Web_Api.thy ===== *)
theory Web_Api
  imports Js_Value
begin

text \<open>
  The smaller interfaces of the guest that are functions of their arguments: URLs (\<open>src/src/runtime/bindings/web_api.rs\<close>),
  the clock, the console (\<open>bindings/console.rs\<close>) and text encodings (\<open>runtime/text_encoding.rs\<close>).  The parser and
  the setters of the URL library, and the decoders of the encoding library, are arguments.
\<close>

section \<open>URLs\<close>

type_synonym port = "16 word"

text \<open>The library: parsing, joining, what is read of a URL, and the setters, which answer None when they refuse.\<close>

record 'u url_library =
  ul_parse :: "string \<Rightarrow> 'u option"
  ul_join :: "'u \<Rightarrow> string \<Rightarrow> 'u option"
  ul_href :: "'u \<Rightarrow> string"
  ul_origin :: "'u \<Rightarrow> string"
  ul_scheme :: "'u \<Rightarrow> string"
  ul_username :: "'u \<Rightarrow> string"
  ul_password :: "'u \<Rightarrow> string option"
  ul_host :: "'u \<Rightarrow> string option"
  ul_port :: "'u \<Rightarrow> port option"
  ul_path :: "'u \<Rightarrow> string"
  ul_query :: "'u \<Rightarrow> string option"
  ul_fragment :: "'u \<Rightarrow> string option"
  ul_opaque :: "'u \<Rightarrow> bool"
  ul_set_scheme :: "string \<Rightarrow> 'u \<Rightarrow> 'u option"
  ul_set_username :: "string \<Rightarrow> 'u \<Rightarrow> 'u option"
  ul_set_password :: "string option \<Rightarrow> 'u \<Rightarrow> 'u option"
  ul_set_host :: "string \<Rightarrow> 'u \<Rightarrow> 'u option"
  ul_set_port :: "port option \<Rightarrow> 'u \<Rightarrow> 'u option"
  ul_set_path :: "string \<Rightarrow> 'u \<Rightarrow> 'u"
  ul_set_query :: "string option \<Rightarrow> 'u \<Rightarrow> 'u"
  ul_set_fragment :: "string option \<Rightarrow> 'u \<Rightarrow> 'u"

record url_parts =
  up_href :: string
  up_origin :: string
  up_protocol :: string
  up_username :: string
  up_password :: string
  up_host :: string
  up_hostname :: string
  up_port :: string
  up_pathname :: string
  up_search :: string
  up_hash :: string

definition or_empty :: "string option \<Rightarrow> string" where
  "or_empty s = (case s of Some t \<Rightarrow> t | None \<Rightarrow> [])"

definition host_text :: "string \<Rightarrow> string \<Rightarrow> string" where
  "host_text hostname port = (if port = [] then hostname else hostname @ '':'' @ port)"

definition marked :: "string \<Rightarrow> string option \<Rightarrow> string" where
  "marked mark s = (case s of Some t \<Rightarrow> if t \<noteq> [] then mark @ t else [] | None \<Rightarrow> [])"

definition url_parts_of :: "'u url_library \<Rightarrow> 'u \<Rightarrow> url_parts" where
  "url_parts_of U url =
     (let port = (case ul_port U url of Some p \<Rightarrow> decimal (unat p) | None \<Rightarrow> []);
          hostname = or_empty (ul_host U url)
      in \<lparr>up_href = ul_href U url, up_origin = ul_origin U url, up_protocol = ul_scheme U url @ '':'',
          up_username = ul_username U url, up_password = or_empty (ul_password U url), up_host = host_text hostname port,
          up_hostname = hostname, up_port = port, up_pathname = ul_path U url, up_search = marked ''?'' (ul_query U url),
          up_hash = marked ''#'' (ul_fragment U url)\<rparr>)"

definition parse_url :: "'u url_library \<Rightarrow> string \<Rightarrow> string option \<Rightarrow> 'u option" where
  "parse_url U inp base =
     (case base of
        Some b \<Rightarrow> (case ul_parse U b of None \<Rightarrow> None | Some u \<Rightarrow> ul_join U u inp)
      | None \<Rightarrow> ul_parse U inp)"

text \<open>\<open>parse::<u16>\<close>: an optional plus, then at least one digit, and no more than the type holds.\<close>

definition is_digit :: "char \<Rightarrow> bool" where
  "is_digit c \<longleftrightarrow> 48 \<le> (of_char c :: nat) \<and> (of_char c :: nat) \<le> 57"

definition parse_u16 :: "string \<Rightarrow> port option" where
  "parse_u16 s =
     (let d = (case s of c # cs \<Rightarrow> if c = CHR ''+'' then cs else s | [] \<Rightarrow> []) in
      if d \<noteq> [] \<and> list_all is_digit d \<and> digits_value d < 2 ^ 16 then Some (of_nat (digits_value d)) else None)"

text \<open>The host setter: an IPv6 literal is bracketed, so the colon is looked for after the last bracket.\<close>

fun rfind_end :: "char \<Rightarrow> string \<Rightarrow> nat" where
  "rfind_end c [] = 0"
| "rfind_end c (x # xs) = (let n = rfind_end c xs in if 0 < n then Suc n else if x = c then 1 else 0)"

definition split_host :: "string \<Rightarrow> string \<times> string option" where
  "split_host v =
     (let host_end = rfind_end (CHR '']'') v; rest = drop host_end v in
      if CHR '':'' \<in> set rest
      then (take host_end v @ takeWhile (\<lambda>c. c \<noteq> CHR '':'') rest, Some (tl (dropWhile (\<lambda>c. c \<noteq> CHR '':'') rest)))
      else (v, None))"

definition strip_mark :: "char \<Rightarrow> string \<Rightarrow> string" where
  "strip_mark c v = (case v of x # xs \<Rightarrow> if x = c then xs else v | [] \<Rightarrow> [])"

definition non_empty :: "string \<Rightarrow> string option" where
  "non_empty v = (if v \<noteq> [] then Some v else None)"

definition or_kept :: "'u option \<Rightarrow> 'u \<Rightarrow> 'u" where
  "or_kept r u = (case r of Some u' \<Rightarrow> u' | None \<Rightarrow> u)"

definition apply_url_part :: "'u url_library \<Rightarrow> string \<Rightarrow> string \<Rightarrow> 'u \<Rightarrow> 'u" where
  "apply_url_part U part v url =
     (if part = ''protocol'' then or_kept (ul_set_scheme U (takeWhile (\<lambda>c. c \<noteq> CHR '':'') v) url) url
      else if part = ''username'' then or_kept (ul_set_username U v url) url
      else if part = ''password'' then or_kept (ul_set_password U (non_empty v) url) url
      else if part = ''host'' then
        (let (hostname, port) = split_host v in
         case ul_set_host U hostname url of
           None \<Rightarrow> url
         | Some url' \<Rightarrow>
             (case Option.bind port parse_u16 of
                Some p \<Rightarrow> or_kept (ul_set_port U (Some p) url') url'
              | None \<Rightarrow> url'))
      else if part = ''hostname'' then or_kept (ul_set_host U v url) url
      else if part = ''port'' then
        (if v = [] then or_kept (ul_set_port U None url) url
         else case parse_u16 v of Some p \<Rightarrow> or_kept (ul_set_port U (Some p) url) url | None \<Rightarrow> url)
      else if part = ''pathname'' then (if ul_opaque U url then url else ul_set_path U v url)
      else if part = ''search'' then ul_set_query U (non_empty (strip_mark (CHR ''?'') v)) url
      else if part = ''hash'' then ul_set_fragment U (non_empty (strip_mark (CHR ''#'') v)) url
      else url)"

definition url_parse :: "'u url_library \<Rightarrow> string \<Rightarrow> string option \<Rightarrow> url_parts option" where
  "url_parse U inp base = map_option (url_parts_of U) (parse_url U inp base)"

definition url_update :: "'u url_library \<Rightarrow> string \<Rightarrow> string \<Rightarrow> string \<Rightarrow> url_parts option" where
  "url_update U href part v = map_option (\<lambda>u. url_parts_of U (apply_url_part U part v u)) (parse_url U href None)"

section \<open>The clock and the console\<close>

text \<open>In microseconds, cut to tenths of a millisecond.\<close>

definition performance_now :: "nat \<Rightarrow> nat" where
  "performance_now elapsed = elapsed div 100 * 100"

datatype log_level = LogError | LogWarn | LogInfo | LogDebug | LogTrace

definition console_level :: "int \<Rightarrow> log_level" where
  "console_level level =
     (if level = 0 then LogError else if level = 1 then LogWarn else if level = 2 then LogInfo
      else if level = 3 then LogDebug else if level = 4 then LogTrace else LogInfo)"

datatype console_method = ConsoleLog | ConsoleInfo | ConsoleWarn | ConsoleError | ConsoleDebug | ConsoleTrace

text \<open>\<open>formatted\<close> are the arguments as strings, as \<open>JSON\<close> and the engine print them.\<close>

fun join_spaced :: "string list \<Rightarrow> string" where
  "join_spaced [] = []"
| "join_spaced [s] = s"
| "join_spaced (s # t # ts) = s @ '' '' @ join_spaced (t # ts)"

definition console_call :: "console_method \<Rightarrow> string list \<Rightarrow> log_level \<times> string" where
  "console_call m formatted =
     (console_level (case m of ConsoleLog \<Rightarrow> 2 | ConsoleInfo \<Rightarrow> 2 | ConsoleWarn \<Rightarrow> 1 | ConsoleError \<Rightarrow> 0 | ConsoleDebug \<Rightarrow> 3 | ConsoleTrace \<Rightarrow> 4),
      join_spaced formatted)"

section \<open>Text encodings\<close>

text \<open>The library: the encoding of a label, and a text with whether there were errors.\<close>

record 'e encodings =
  ec_for_label :: "string \<Rightarrow> 'e option"
  ec_decode :: "'e \<Rightarrow> bytes \<Rightarrow> string \<times> bool"

datatype decode_result = Decoded string | DecodeTypeError string | DecodeRangeError string

datatype decode_input = NoInput | BufferInput bytes | OtherInput

text \<open>The label is None when it is missing, undefined or does not convert to a string.\<close>

definition text_decode :: "'e encodings \<Rightarrow> decode_input \<Rightarrow> string option \<Rightarrow> bool \<Rightarrow> decode_result" where
  "text_decode E inp label_arg fatal =
     (case inp of
        NoInput \<Rightarrow> Decoded []
      | OtherInput \<Rightarrow> DecodeTypeError ''TextDecoder.decode: input must be a BufferSource''
      | BufferInput bs \<Rightarrow>
          (let label = (case label_arg of Some l \<Rightarrow> l | None \<Rightarrow> ''utf-8'') in
           case ec_for_label E label of
             None \<Rightarrow> DecodeRangeError (''TextDecoder: '' @ [CHR 0x27] @ label @ [CHR 0x27] @ '' is not a supported encoding'')
           | Some enc \<Rightarrow>
               (let (decoded, had_errors) = ec_decode E enc bs in
                if fatal \<and> had_errors then DecodeTypeError ''TextDecoder: invalid byte sequence''
                else Decoded decoded)))"

section \<open>What is read is written back\<close>

lemma decimal_digits: "list_all is_digit (decimal n) \<and> decimal n \<noteq> []"
proof (induction n rule: decimal.induct)
  case (1 n)
  have "is_digit (char_of (48 + m))" if "m < 10" for m :: nat
    using that by (simp add: is_digit_def)
  with 1 show ?case by (subst (1 2) decimal.simps) auto
qed

lemma digits_value_decimal: "digits_value (decimal n) = n"
proof (induction n rule: decimal.induct)
  case (1 n)
  then show ?case
    by (subst decimal.simps) (auto simp: digits_value_def)
qed

lemma parse_decimal: "parse_u16 (decimal (unat p)) = Some p"
proof -
  have "\<not> is_digit (CHR ''+'')" by (simp add: is_digit_def)
  then have "(case decimal (unat p) of c # cs \<Rightarrow> if c = CHR ''+'' then cs else decimal (unat p) | [] \<Rightarrow> []) = decimal (unat p)"
    using decimal_digits [of "unat p"] by (auto split: list.split)
  moreover have "unat p < 2 ^ 16" using unsigned_less [of p] by simp
  ultimately show ?thesis
    unfolding parse_u16_def Let_def using decimal_digits [of "unat p"] by (simp add: digits_value_decimal)
qed

lemma rfind_end_append: "c \<notin> set t \<Longrightarrow> rfind_end c (s @ t) = rfind_end c s"
proof -
  assume t: "c \<notin> set t"
  then have "rfind_end c t = 0" by (induction t) (auto simp: Let_def)
  then show ?thesis by (induction s) (simp_all add: Let_def)
qed

lemma rfind_end_le: "rfind_end c s \<le> length s"
  by (induction s) (simp_all add: Let_def)

text \<open>A host whose colons are all inside its brackets.\<close>

definition plain_host :: "string \<Rightarrow> bool" where
  "plain_host h \<longleftrightarrow> CHR '':'' \<notin> set (drop (rfind_end (CHR '']'') h) h)"

lemma split_host_text:
  assumes "plain_host h"
  shows "split_host (host_text h (decimal n)) = (h, Some (decimal n))" "split_host (host_text h []) = (h, None)"
proof -
  let ?e = "rfind_end (CHR '']'') h"
  have "CHR '']'' \<notin> set ('':'' @ decimal n)"
    using decimal_digits [of n] by (auto simp: is_digit_def list_all_iff)
  then have e: "rfind_end (CHR '']'') (h @ '':'' @ decimal n) = ?e" by (rule rfind_end_append)
  have d: "drop ?e (h @ '':'' @ decimal n) = drop ?e h @ '':'' @ decimal n" using rfind_end_le [of "CHR '']''" h] by simp
  have "takeWhile (\<lambda>c. c \<noteq> CHR '':'') (drop ?e h @ '':'' @ decimal n) = drop ?e h"
    "dropWhile (\<lambda>c. c \<noteq> CHR '':'') (drop ?e h @ '':'' @ decimal n) = '':'' @ decimal n"
    using assms by (auto simp: plain_host_def takeWhile_append dropWhile_append)
  then show "split_host (host_text h (decimal n)) = (h, Some (decimal n))"
    using decimal_digits [of n] rfind_end_le [of "CHR '']''" h] e d
    by (simp add: split_host_def host_text_def Let_def)
  show "split_host (host_text h []) = (h, None)"
    using assms by (simp add: split_host_def host_text_def plain_host_def Let_def)
qed

text \<open>Setting the host to what it reads as changes nothing, when setting a host or a port a URL has does not: the
  text of the host is taken apart where it was put together, brackets included.\<close>

lemma host_setter_restores:
  assumes "ul_host U url = Some h" "plain_host h" "ul_set_host U h url = Some url"
    "\<And>p. ul_port U url = Some p \<Longrightarrow> ul_set_port U (Some p) url = Some url"
  shows "apply_url_part U ''host'' (up_host (url_parts_of U url)) url = url"
  using assms split_host_text [OF assms(2)]
  by (cases "ul_port U url")
    (auto simp: apply_url_part_def url_parts_of_def or_empty_def or_kept_def parse_decimal Let_def)

text \<open>The same for the query and the fragment, which lose their mark.\<close>

lemma search_setter_restores:
  assumes "ul_query U url = Some q" "q \<noteq> []" "ul_set_query U (Some q) url = url"
  shows "apply_url_part U ''search'' (up_search (url_parts_of U url)) url = url"
  using assms by (simp add: apply_url_part_def url_parts_of_def marked_def strip_mark_def non_empty_def Let_def)

text \<open>A port with a plus sign is applied, and one with text after its digits is not.\<close>

lemma port_setter_grammar: "parse_u16 ''+80'' = Some 80" "parse_u16 ''80x'' = None"
  by (simp_all add: parse_u16_def is_digit_def digits_value_def)

text \<open>The clock never runs ahead and is never more than a tenth of a millisecond behind.\<close>

lemma performance_now_rounds: "performance_now t \<le> t" "t < performance_now t + 100" "performance_now t mod 100 = 0"
  by (simp_all add: performance_now_def)

end
