(* ===== verification/Context_Load.thy ===== *)
theory Context_Load
  imports Execution_Context Code_Cache Env_Script
begin

text \<open>
  Building an execution context and loading a script into it, from \<open>src/src/execution_context.rs\<close> and \<open>src/src/worker.rs\<close>: the
  limits of the load, the evaluation of a script or of a code cache, the environment, and the way of a context
  through the warm cache.  What V8 answers to a string, a compilation and a run is an argument.
\<close>

section \<open>Scripts\<close>

datatype worker_code = CodeJavaScript bytes | CodeSnapshot bytes | CodeOther

text \<open>Whether V8 holds a string, what compiling it with or without a cache gives, and what running the script
  gives.  A failure has the text of its exception, if there is one that converts.\<close>

record engine =
  eg_string :: "bytes \<Rightarrow> bool"
  eg_compile :: "bytes \<Rightarrow> bytes option \<Rightarrow> (string option, nat) result"
  eg_run :: "nat \<Rightarrow> (string option, unit) result"

definition message_or :: "string \<Rightarrow> string option \<Rightarrow> string" where
  "message_or fallback m = (case m of Some t \<Rightarrow> t | None \<Rightarrow> fallback)"

definition run_script :: "engine \<Rightarrow> nat \<Rightarrow> (termination_reason, unit) result" where
  "run_script V script =
     (case eg_run V script of Inr _ \<Rightarrow> Ok () | Inl m \<Rightarrow> Err (Exception (message_or ''Unknown runtime error'' m)))"

definition evaluate_script :: "engine \<Rightarrow> worker_code \<Rightarrow> (termination_reason, unit) result" where
  "evaluate_script V code =
     (case code of
        CodeJavaScript js \<Rightarrow>
          (if \<not> eg_string V js then Err (InitializationError ''Failed to create script string'')
           else case eg_compile V js None of
             Inl m \<Rightarrow> Err (Exception (''SyntaxError: '' @ message_or ''Unknown compile error'' m))
           | Inr script \<Rightarrow> run_script V script)
      | CodeSnapshot data \<Rightarrow>
          (case unpack_code_cache data of
             None \<Rightarrow> Err (InitializationError ''Failed to unpack code cache bundle'')
           | Some (source, cache_bytes) \<Rightarrow>
               if \<not> eg_string V source then Err (InitializationError ''Failed to create V8 string'')
               else case eg_compile V source (Some cache_bytes) of
                 Inl m \<Rightarrow> Err (Exception (message_or ''Failed to compile with code cache'' m))
               | Inr script \<Rightarrow> run_script V script)
      | CodeOther \<Rightarrow> Err (InitializationError ''V8 runtime only supports JavaScript code''))"

text \<open>\<open>evaluate\<close> of a context that is loaded: the same, with messages only.\<close>

definition evaluate_code :: "engine \<Rightarrow> worker_code \<Rightarrow> (string, unit) result" where
  "evaluate_code V code =
     (let run = (\<lambda>script. case eg_run V script of Inr _ \<Rightarrow> Ok () | Inl _ \<Rightarrow> Err ''Script execution failed'') in
      case code of
        CodeJavaScript js \<Rightarrow>
          (if \<not> eg_string V js then Err ''Failed to create V8 string''
           else case eg_compile V js None of Inl _ \<Rightarrow> Err ''Failed to compile script'' | Inr script \<Rightarrow> run script)
      | CodeSnapshot data \<Rightarrow>
          (case unpack_code_cache data of
             None \<Rightarrow> Err ''Failed to unpack code cache bundle''
           | Some (source, cache_bytes) \<Rightarrow>
               if \<not> eg_string V source then Err ''Failed to create V8 string''
               else case eg_compile V source (Some cache_bytes) of
                 Inl _ \<Rightarrow> Err ''Failed to compile with code cache''
               | Inr script \<Rightarrow> run script)
      | CodeOther \<Rightarrow> Err ''V8 runtime only supports JavaScript code'')"

section \<open>The environment\<close>

text \<open>The type of a binding as the host names it to the script.\<close>

definition binding_type_name :: "binding_kind \<Rightarrow> string" where
  "binding_type_name k =
     (case k of
        KindAssets \<Rightarrow> ''assets''
      | KindStorage \<Rightarrow> ''storage''
      | KindKv \<Rightarrow> ''kv''
      | KindDatabase \<Rightarrow> ''database''
      | KindD1 \<Rightarrow> ''d1''
      | KindWorker \<Rightarrow> ''worker''
      | KindImages \<Rightarrow> ''images''
      | KindDurableObject \<Rightarrow> ''durable_object''
      | KindInvoke \<Rightarrow> ''invoke'')"

text \<open>\<open>fits\<close> is whether V8 holds the call of the script with both arguments as a string.\<close>

definition setup_env ::
    "bool \<Rightarrow> (string \<times> string) list option \<Rightarrow> (string \<times> binding_kind) list \<Rightarrow> (string, (string, env_value) hash_map) result" where
  "setup_env fits env bindings =
     (if \<not> fits then Err ''Failed to create V8 string''
      else
        (let vars = (case env of Some vs \<Rightarrow> map (\<lambda>(k, v). (k, JString v)) vs | None \<Rightarrow> [])
         in case install_env vars (map (\<lambda>(n, k). (n, binding_type_name k)) bindings) of
              Inl _ \<Rightarrow> Err ''Runtime error''
            | Inr e \<Rightarrow> Ok e))"

section \<open>Loading\<close>

definition LOAD_CPU_TIME_MS :: u64 where
  "LOAD_CPU_TIME_MS = 400"

definition load_cpu_ms :: "u64 \<Rightarrow> u64" where
  "load_cpu_ms max_cpu_time_ms = (if max_cpu_time_ms = 0 then 0 else max max_cpu_time_ms LOAD_CPU_TIME_MS)"

text \<open>What a context begins with.\<close>

definition new_context :: "turn \<Rightarrow> watchdog \<Rightarrow> exec_context" where
  "new_context t wd =
     \<lparr>xc_waiter = None, xc_turn = t, xc_watchdog = wd, xc_cpu = None, xc_memory_hit = False, xc_aborted = False,
      xc_request_id = 0, xc_pending = None, xc_socket = None, xc_budget = None, xc_hit = False, xc_abort_at = None,
      xc_inbox = [], xc_inbox_open = True, xc_rx_waker = False, xc_woken = False, xc_timers = [],
      xc_streams = stream_manager_new, xc_tables = tables_new, xc_sent = []\<rparr>"

text \<open>What happens to the isolate while the script is evaluated: a termination, the limits hit and the deadlines fired.\<close>

record load_effect =
  le_terminating :: bool
  le_memory :: bool
  le_cpu :: bool
  le_fired :: "nat list"

text \<open>The steps before the script: each answers None, or what failed.\<close>

record load_setup =
  ls_dispatch :: "string option"
  ls_env :: "string option"
  ls_clear :: "string option"

definition cpu_was_terminated :: "cpu_enforcer option \<Rightarrow> bool" where
  "cpu_was_terminated cpu = (case cpu of None \<Rightarrow> False | Some ce \<Rightarrow> ce_terminated ce)"

text \<open>The evaluation in a turn of its own.\<close>

definition load_turn ::
    "u64 \<Rightarrow> nat option \<Rightarrow> nat option \<Rightarrow> load_effect \<Rightarrow> turn \<Rightarrow> watchdog \<Rightarrow> cpu_enforcer option \<Rightarrow>
     turn \<times> watchdog \<times> cpu_enforcer option \<times> bool" where
  "load_turn load cpu_start cpu_end f t wd cpu =
     (let (t, cpu) = guard_begin load cpu_start t cpu;
          t = t\<lparr>tn_terminating := (tn_terminating t \<or> le_terminating f), tn_memory_limit_hit := (tn_memory_limit_hit t \<or> le_memory f)\<rparr>;
          cpu = map_option (\<lambda>ce. ce\<lparr>ce_terminated := (ce_terminated ce \<or> le_cpu f)\<rparr>) cpu;
          wd = wd\<lparr>wd_flags := fold (\<lambda>i fs. fs[i := True]) (le_fired f) (wd_flags wd)\<rparr>;
          (t, cpu, memory_hit) = guard_drop cpu_end t cpu False
      in (t, wd, cpu, memory_hit))"

text \<open>The checks after it; \<open>swap\<close> reads and clears the flag of the isolate.\<close>

definition load_outcome ::
    "cpu_enforcer option \<Rightarrow> bool \<Rightarrow> bool \<Rightarrow> (termination_reason, unit) result \<Rightarrow> turn \<Rightarrow> turn \<times> (termination_reason, unit) result" where
  "load_outcome cpu wall_hit memory_hit evaluated t =
     (if cpu_was_terminated cpu then (t, Err CpuTimeLimit)
      else if wall_hit then (t, Err WallClockTimeout)
      else if memory_hit then (t, Err MemoryLimit)
      else if tn_memory_limit_hit t then (t\<lparr>tn_memory_limit_hit := False\<rparr>, Err MemoryLimit)
      else (t\<lparr>tn_memory_limit_hit := False\<rparr>, evaluated))"

definition new_with_pooled_isolate ::
    "event_env \<Rightarrow> nat option \<Rightarrow> nat option \<Rightarrow> load_setup \<Rightarrow> load_effect \<Rightarrow> engine \<Rightarrow> worker_code \<Rightarrow> turn \<Rightarrow> watchdog \<Rightarrow>
     turn \<times> watchdog \<times> (termination_reason, exec_context) result" where
  "new_with_pooled_isolate ev cpu_start cpu_end setup f V code t wd =
     (case ls_dispatch setup of
        Some e \<Rightarrow> (t, wd, Err (InitializationError (''Failed to install the dispatch: '' @ e)))
      | None \<Rightarrow>
     (case ls_env setup of
        Some e \<Rightarrow> (t, wd, Err (InitializationError (''Failed to setup env: '' @ e)))
      | None \<Rightarrow>
     (case ls_clear setup of
        Some e \<Rightarrow> (t, wd, Err (InitializationError ''the reset function''))
      | None \<Rightarrow>
          (let (wd, wall, _) = timeout_guard_new (ev_now ev) (ev_guard_now ev) 0 (ev_request_id ev) (ev_max_wall_ms ev) wd;
               cpu = map_option (target_new (ev_watchdog_alive ev))
                 (cpu_enforcer_new (ev_cpu_clock ev) (ev_timer_created ev) (load_cpu_ms (ev_max_cpu_ms ev)))
           in if cpu_was_terminated cpu then (t, tg_drop wall wd, Err CpuTimeLimit)
              else
                (let (t, wd, cpu, memory_hit) = load_turn (ev_request_id ev) cpu_start cpu_end f t wd cpu;
                     (t, outcome) = load_outcome cpu (was_triggered wall wd) memory_hit (evaluate_script V code) t;
                     wd = tg_drop wall wd
                 in (t, wd, map_sum id (\<lambda>_. new_context t wd) outcome))))))"

text \<open>\<open>into_parts\<close> keeps the request state and drops the rest, the unspent guards with it; \<open>from_cached\<close> makes a context of
  it for the next request.\<close>

definition into_parts :: "exec_context \<Rightarrow> exec_context" where
  "into_parts c = drop_budget c"

definition from_cached :: "async_waiter option \<Rightarrow> exec_context \<Rightarrow> exec_context" where
  "from_cached waiter c =
     c\<lparr>xc_waiter := waiter, xc_memory_hit := False, xc_budget := None, xc_request_id := 0, xc_socket := None\<rparr>"

text \<open>A single-use worker: an isolate of its own, and a context on it.\<close>

definition worker_new ::
    "event_env \<Rightarrow> nat option \<Rightarrow> nat option \<Rightarrow> load_setup \<Rightarrow> load_effect \<Rightarrow> engine \<Rightarrow> worker_code \<Rightarrow> watchdog \<Rightarrow>
     turn \<times> watchdog \<times> (termination_reason, exec_context) result" where
  "worker_new ev cpu_start cpu_end setup f V code wd = new_with_pooled_isolate ev cpu_start cpu_end setup f V code turn_new wd"

section \<open>What a load leaves\<close>

text \<open>The host never names a binding type that the script does not know.\<close>

lemma binding_type_known: "binding_kind_of (binding_type_name k) = Some k"
  by (cases k) (simp_all add: binding_kind_of_def binding_type_name_def)

lemma install_known: "\<exists>e. install_bindings (map (\<lambda>(n, k). (n, binding_type_name k)) bs) env = Inr e"
proof (induction bs arbitrary: env)
  case (Cons b bs)
  then show ?case by (cases b) (simp add: binding_type_known)
qed simp

lemma map_of_values: "map_of (map (\<lambda>(k, v). (k, g v)) xs) n = map_option g (map_of xs n)"
  by (induction xs) auto

lemma setup_env_installs:
  assumes "setup_env True env bindings = r"
  obtains e where "r = Inr e"
    "\<And>n k. map_of (rev bindings) n = Some k \<Longrightarrow> hm_get e n = Some (EnvBinding k n)"
    "\<And>n. map_of (rev bindings) n = None \<Longrightarrow>
       hm_get e n = map_option (\<lambda>v. EnvVariable (JString v)) (Option.bind env (\<lambda>vs. map_of (rev vs) n))"
proof -
  let ?vars = "case env of Some vs \<Rightarrow> map (\<lambda>(k, v). (k, JString v)) vs | None \<Rightarrow> []"
  let ?bs = "map (\<lambda>(n, k). (n, binding_type_name k)) bindings"
  obtain e where e: "install_env ?vars ?bs = Inr e"
    using install_known unfolding install_env_def by blast
  have bs: "map_of (rev ?bs) n = map_option binding_type_name (map_of (rev bindings) n)" for n
    by (simp add: rev_map map_of_values)
  have vars: "map_of (rev ?vars) n = map_option JString (Option.bind env (\<lambda>vs. map_of (rev vs) n))" for n
    by (cases env) (simp_all add: rev_map map_of_values)
  show thesis
  proof (rule that [of e])
    show "r = Inr e" using assms e by (simp add: setup_env_def)
    show "hm_get e n = Some (EnvBinding k n)" if "map_of (rev bindings) n = Some k" for n k
      unfolding install_env_get [OF e] bs that by (simp add: binding_type_known)
    show "hm_get e n = map_option (\<lambda>v. EnvVariable (JString v)) (Option.bind env (\<lambda>vs. map_of (rev vs) n))"
      if "map_of (rev bindings) n = None" for n
      unfolding install_env_get [OF e] bs that vars by (simp add: option.map_comp comp_def)
  qed
qed

text \<open>When a load goes over a limit.  There is a CPU limit if one is set, the clock of the thread reads and the timer was made; it
  is hit if nothing can watch it, if its signal came, or if the clock says so at the end.  The deadline of the load has the next
  flag of the watchdog.\<close>

definition load_cpu_hit :: "event_env \<Rightarrow> nat option \<Rightarrow> nat option \<Rightarrow> load_effect \<Rightarrow> bool" where
  "load_cpu_hit ev cpu_start cpu_end f \<longleftrightarrow>
     ev_max_cpu_ms ev \<noteq> 0 \<and> ev_cpu_clock ev \<noteq> None \<and> ev_timer_created ev \<and>
     (\<not> ev_watchdog_alive ev \<or> le_cpu f \<or>
      (\<exists>b e. cpu_start = Some b \<and> cpu_end = Some e \<and> unat (max (ev_max_cpu_ms ev) LOAD_CPU_TIME_MS) * 1000000 \<le> e - b))"

definition load_wall_hit :: "watchdog \<Rightarrow> load_effect \<Rightarrow> bool" where
  "load_wall_hit wd f \<longleftrightarrow> length (wd_flags wd) \<in> set (le_fired f)"

lemma fired_flags:
  "k < length fs \<Longrightarrow> fold (\<lambda>i fs. fs[i := True]) is fs ! k \<longleftrightarrow> fs ! k \<or> k \<in> set is"
proof (induction "is" arbitrary: fs)
  case (Cons i "is")
  then show ?case by (cases "i = k") auto
qed simp

lemma load_turn_effect:
  assumes "load_turn load cs ce f t wd cpu = (t', wd', cpu', hit)"
  shows "tn_holder t' = None" "\<not> tn_memory_limit_hit t'" "wd_deadlines wd' = wd_deadlines wd" "hit \<longleftrightarrow> tn_memory_limit_hit t \<or> le_memory f"
    "wd_flags wd' = fold (\<lambda>i fs. fs[i := True]) (le_fired f) (wd_flags wd)"
    "cpu' = map_option (\<lambda>c. end_turn ce ((begin_turn cs c)\<lparr>ce_terminated := ce_terminated c \<or> le_cpu f\<rparr>)) cpu"
  using assms
  by (cases cpu; auto simp: load_turn_def guard_begin_def guard_drop_def turn_begin_def turn_end_def begin_turn_def timer_arm_def timer_set_def
    Let_def split: if_splits)+

text \<open>What the enforcer of a load says before it and after it.\<close>

lemma load_cpu_effect:
  assumes "cpu = map_option (target_new (ev_watchdog_alive ev))
      (cpu_enforcer_new (ev_cpu_clock ev) (ev_timer_created ev) (load_cpu_ms (ev_max_cpu_ms ev)))"
    "cpu' = map_option (\<lambda>c. end_turn ce ((begin_turn cs c)\<lparr>ce_terminated := ce_terminated c \<or> le_cpu f\<rparr>)) cpu"
  shows "load_cpu_hit ev cs ce f \<longleftrightarrow> cpu_was_terminated cpu \<or> cpu_was_terminated cpu'"
proof -
  have "max m LOAD_CPU_TIME_MS \<noteq> 0" for m :: u64 by (auto simp: max_def LOAD_CPU_TIME_MS_def)
  then show ?thesis unfolding assms
    by (cases cs; cases ce)
      (auto simp: load_cpu_hit_def cpu_was_terminated_def cpu_enforcer_new_def load_cpu_ms_def target_new_def end_turn_def begin_turn_def
        timer_arm_def timer_disarm_def timer_set_def Let_def)
qed

lemma load_outcome_effect:
  assumes "load_outcome cpu w m r t = (t', out)" "tn_holder t = None" "\<not> tn_memory_limit_hit t"
  shows "tn_holder t' = None" "\<not> tn_memory_limit_hit t'"
    "out = (if cpu_was_terminated cpu then Inl CpuTimeLimit else if w then Inl WallClockTimeout else if m then Inl MemoryLimit else r)"
  using assms by (auto simp: load_outcome_def split: if_splits)

lemma guard_new_drop:
  assumes "timeout_guard_new now now' t req ms wd = (wd', g, n)" "\<forall>k\<in>dom (map_of (wd_deadlines wd)). snd k \<noteq> wd_next_key wd"
    "om_inv (wd_deadlines wd)" "wd_deadlines wd'' = wd_deadlines wd'"
  shows "map_of (wd_deadlines (tg_drop g wd'')) = map_of (wd_deadlines wd)"
proof (cases "ms = 0")
  case True
  with assms show ?thesis by (auto simp: timeout_guard_new_def tg_drop_def Let_def)
next
  case False
  let ?k = "(now + unat ms, wd_next_key wd)"
  have "map_of (wd_deadlines wd) ?k = None" using assms(2) by (force simp: domIff)
  then have "((map_of (wd_deadlines wd))(?k \<mapsto> e))(?k := None) = map_of (wd_deadlines wd)" for e by (simp add: fun_upd_idem)
  with False assms show ?thesis
    by (auto simp: timeout_guard_new_def tg_drop_def Let_def om_lookup_remove om_lookup_insert)
qed

text \<open>The flag of a new guard is its own, and is down.\<close>

lemma guard_new_flag:
  "timeout_guard_new now now' t req ms wd = (wd', g, n) \<Longrightarrow>
   tg_triggered g = length (wd_flags wd) \<and> wd_flags wd' = wd_flags wd @ [False]"
  by (auto simp: timeout_guard_new_def Let_def split: if_splits)

text \<open>C16: Loading a script leaves the isolate as it was, and a limit that was hit is what it answers.  Whatever the setup, the script and
  the limits did, afterwards no request has the turn, no memory limit is marked and the deadlines of the watchdog are
  those from before.  A setup that fails is an initialization error.  Otherwise the load answers the CPU limit if it was
  hit, else the deadline if it passed, else the memory limit if it was hit, else what the script's evaluation answers; so a
  context comes out only if the script ran to its end with no limit hit, as a new context in which nothing is
  pending.\<close>

theorem load_leaves_isolate_clean:
  assumes "new_with_pooled_isolate ev cs ce setup f V code t wd = (t', wd', r)" "tn_holder t = None" "\<not> tn_memory_limit_hit t"
    "om_inv (wd_deadlines wd)" "\<forall>k\<in>dom (map_of (wd_deadlines wd)). snd k \<noteq> wd_next_key wd"
  shows "tn_holder t' = None \<and> \<not> tn_memory_limit_hit t' \<and> map_of (wd_deadlines wd') = map_of (wd_deadlines wd) \<and>
    (if ls_dispatch setup \<noteq> None \<or> ls_env setup \<noteq> None \<or> ls_clear setup \<noteq> None then \<exists>e. r = Inl (InitializationError e)
     else r = (if load_cpu_hit ev cs ce f then Inl CpuTimeLimit
               else if load_wall_hit wd f then Inl WallClockTimeout
               else if le_memory f then Inl MemoryLimit
               else map_sum id (\<lambda>_. new_context t' wd') (evaluate_script V code)))"
proof (cases "ls_dispatch setup = None \<and> ls_env setup = None \<and> ls_clear setup = None")
  case False
  then show ?thesis using assms by (auto simp: new_with_pooled_isolate_def split: option.splits)
next
  case True
  obtain wd1 wall n where g: "timeout_guard_new (ev_now ev) (ev_guard_now ev) 0 (ev_request_id ev) (ev_max_wall_ms ev) wd = (wd1, wall, n)"
    by (cases "timeout_guard_new (ev_now ev) (ev_guard_now ev) 0 (ev_request_id ev) (ev_max_wall_ms ev) wd") auto
  let ?cpu = "map_option (target_new (ev_watchdog_alive ev)) (cpu_enforcer_new (ev_cpu_clock ev) (ev_timer_created ev) (load_cpu_ms (ev_max_cpu_ms ev)))"
  obtain t2 wd2 cpu2 hit where l: "load_turn (ev_request_id ev) cs ce f t wd1 ?cpu = (t2, wd2, cpu2, hit)" by (metis prod_cases4)
  obtain t3 out where o: "load_outcome cpu2 (was_triggered wall wd2) hit (evaluate_script V code) t2 = (t3, out)" by fastforce
  note le = load_turn_effect [OF l]
  note oe = load_outcome_effect [OF o le(1,2)]
  note cpu = load_cpu_effect [OF refl le(6)]
  have flag: "was_triggered wall wd2 \<longleftrightarrow> load_wall_hit wd f"
    using guard_new_flag [OF g] le(5) by (simp add: was_triggered_def load_wall_hit_def fired_flags)
  have r: "(t', wd', r) = (if cpu_was_terminated ?cpu then (t, tg_drop wall wd1, Inl CpuTimeLimit)
      else (t3, tg_drop wall wd2, map_sum id (\<lambda>_. new_context t3 (tg_drop wall wd2)) out))"
    using assms(1) True by (cases "cpu_was_terminated ?cpu") (auto simp: new_with_pooled_isolate_def g l o Let_def)
  have d: "map_of (wd_deadlines (tg_drop wall wd1)) = map_of (wd_deadlines wd)" "map_of (wd_deadlines (tg_drop wall wd2)) = map_of (wd_deadlines wd)"
    using guard_new_drop [OF g assms(5,4)] le(3) by simp_all
  show ?thesis
  proof (cases "cpu_was_terminated ?cpu")
    case True
    with r d assms(2,3) cpu \<open>ls_dispatch setup = None \<and> _\<close> show ?thesis by simp
  next
    case False
    with r have "t' = t3" "wd' = tg_drop wall wd2" "r = map_sum id (\<lambda>_. new_context t' wd') out" by simp_all
    with d(2) oe le(4) cpu False flag assms(3) \<open>ls_dispatch setup = None \<and> _\<close> show ?thesis by simp
  qed
qed

lemma cached_context_has_no_budget:
  "xc_budget (from_cached w (into_parts c)) = None \<and> xc_socket (from_cached w (into_parts c)) = None \<and>
   xc_tables (from_cached w (into_parts c)) = xc_tables c \<and>
   (\<forall>b key. xc_budget c = Some b \<and> tg_key (bg_wall b) = Some key \<longrightarrow>
      map_of (wd_deadlines (xc_watchdog (from_cached w (into_parts c)))) key = None)"
  by (auto simp: from_cached_def into_parts_def drop_budget_def drop_wall_guard_def tg_drop_def om_lookup_remove split: option.split)

definition load_env :: event_env where
  "load_env =
     \<lparr>ev_request_id = 3, ev_now = 10, ev_guard_now = 10, ev_cpu_clock = Some 0, ev_timer_created = True, ev_watchdog_alive = True,
      ev_max_wall_ms = 50, ev_max_cpu_ms = 0\<rparr>"

definition load_engine :: engine where
  "load_engine = \<lparr>eg_string = (\<lambda>_. True), eg_compile = (\<lambda>_ _. Inr 1), eg_run = (\<lambda>_. Inr ())\<rparr>"

theorem load_leaves_isolate_clean_witness:
  "\<exists>t wd c. new_with_pooled_isolate load_env (Some 0) (Some 5) \<lparr>ls_dispatch = None, ls_env = None, ls_clear = None\<rparr>
       \<lparr>le_terminating = False, le_memory = False, le_cpu = False, le_fired = []\<rparr> load_engine (CodeJavaScript []) turn_new watchdog_new =
       (t, wd, Inr c) \<and> tn_holder t = None \<and> map_of (wd_deadlines wd) = Map.empty \<and> c = new_context t wd"
proof -
  let ?p = "new_with_pooled_isolate load_env (Some 0) (Some 5) \<lparr>ls_dispatch = None, ls_env = None, ls_clear = None\<rparr>
       \<lparr>le_terminating = False, le_memory = False, le_cpu = False, le_fired = []\<rparr> load_engine (CodeJavaScript []) turn_new watchdog_new"
  have "is_ok (snd (snd ?p))" by code_simp
  then obtain t wd c where p: "?p = (t, wd, Inr c)" by (cases ?p) (auto simp: is_ok_iff)
  from load_leaves_isolate_clean [OF p] p show ?thesis
    by (auto simp: turn_new_def watchdog_new_def om_inv_def load_cpu_hit_def load_wall_hit_def load_env_def load_engine_def evaluate_script_def
        run_script_def)
qed

end
