(* ===== verification/Isolate.thy ===== *)
theory Isolate
  imports Turn Foreground
begin

text \<open>
  Isolates as the pool builds them, from \<open>src/src/v8_helpers.rs\<close> and \<open>src/src/locker_managed_isolate.rs\<close>: the parameters of the
  heap, the parts an isolate is made of, and the ArrayBuffers that V8 and native code give to a guest.
  Creating the V8 isolate itself is a call of V8.
\<close>

section \<open>Parameters\<close>

record runtime_limits =
  rl_heap_initial_mb :: usize
  rl_heap_max_mb :: usize

definition MAX_YOUNG_GENERATION :: usize where
  "MAX_YOUNG_GENERATION = 24 * 1024 * 1024"

record create_params =
  cp_heap_initial :: usize
  cp_heap_max :: usize
  cp_young :: usize
  cp_allocator :: custom_allocator

definition worker_create_params :: "runtime_limits \<Rightarrow> create_params" where
  "worker_create_params limits =
     (let heap_max = rl_heap_max_mb limits * 1024 * 1024
      in \<lparr>cp_heap_initial = rl_heap_initial_mb limits * 1024 * 1024, cp_heap_max = heap_max,
          cp_young = min MAX_YOUNG_GENERATION heap_max, cp_allocator = custom_allocator_new heap_max\<rparr>)"

section \<open>Isolates\<close>

text \<open>\<open>is_adopted\<close> are the sizes of the buffers whose memory came from native code.\<close>

record isolate =
  is_key :: nat
  is_queue :: nat
  is_turn :: turn
  is_heap :: heap_limit_state
  is_allocator :: custom_allocator
  is_adopted :: "usize list"
  is_pending_delta :: u64
  is_snapshot :: bool

definition locker_managed_isolate_new :: "nat \<Rightarrow> bool \<Rightarrow> runtime_limits \<Rightarrow> platform \<Rightarrow> platform \<times> isolate" where
  "locker_managed_isolate_new key snapshot limits p =
     (let params = worker_create_params limits; (p, queue) = pf_register key p
      in (p, \<lparr>is_key = key, is_queue = queue, is_turn = turn_new, is_heap = heap_limit_state_new (cp_heap_max params),
              is_allocator = cp_allocator params, is_adopted = [], is_pending_delta = 0, is_snapshot = snapshot\<rparr>))"

definition isolate_drop :: "isolate \<Rightarrow> platform \<Rightarrow> platform" where
  "isolate_drop i p = pf_forget (is_key i) (is_queue i) p"

section \<open>ArrayBuffers\<close>

text \<open>A buffer the guest allocates comes from the allocator; \<open>create_array_buffer_from_vec\<close> makes one of bytes that
  native code has, without a copy, and only an empty one comes from the allocator.\<close>

definition guest_allocates :: "usize \<Rightarrow> isolate \<Rightarrow> isolate \<times> bool" where
  "guest_allocates n i =
     (let (a, t, granted) = ca_allocate n (is_allocator i) (is_turn i) in (i\<lparr>is_allocator := a, is_turn := t\<rparr>, granted))"

definition create_array_buffer_from_vec :: "usize \<Rightarrow> isolate \<Rightarrow> isolate" where
  "create_array_buffer_from_vec len i =
     (if len = 0 then fst (guest_allocates 0 i) else i\<lparr>is_adopted := is_adopted i @ [len]\<rparr>)"

text \<open>Isolates built for the same limits agree in their bounds: the young generation fits into the heap, and the
  ArrayBuffers have a bound of the same size as the heap.\<close>

lemma create_params_bounds:
  "cp_young (worker_create_params l) \<le> cp_heap_max (worker_create_params l)"
  "ca_max (cp_allocator (worker_create_params l)) = cp_heap_max (worker_create_params l)"
  by (simp_all add: worker_create_params_def custom_allocator_new_def Let_def)

text \<open>A new isolate has a queue of its own, and once it is dropped its tasks are gone and the queue of another isolate
  at its address stays.\<close>

lemma dropped_isolate_forgets:
  assumes "locker_managed_isolate_new key snap l p = (p1, i)"
  shows "fg_ready (pf_queues (isolate_drop i p1) ! is_queue i) = [] \<and> hm_get (pf_table (isolate_drop i p1)) key = None"
  using assms
  by (auto simp: locker_managed_isolate_new_def pf_register_def isolate_drop_def pf_forget_def Let_def nth_list_update)

lemma adopted_run:
  "0 \<notin> set ns \<Longrightarrow>
   is_adopted (fold create_array_buffer_from_vec ns i) = is_adopted i @ ns \<and>
   is_allocator (fold create_array_buffer_from_vec ns i) = is_allocator i \<and>
   is_turn (fold create_array_buffer_from_vec ns i) = is_turn i"
  by (induction ns arbitrary: i) (auto simp: create_array_buffer_from_vec_def)

text \<open>Buffers from native code escape the memory limit.  However many buffers native functions hand to a guest,
  and whatever their sizes add up to, the allocator counts none of them: no limit is marked, and the
  guest's own allocations are granted as before.\<close>

lemma native_buffers_escape_limit:
  assumes "0 \<notin> set ns" "j = fold create_array_buffer_from_vec ns i"
  shows "live_bytes (is_adopted j) = live_bytes (is_adopted i) + live_bytes ns \<and>
    tn_memory_limit_hit (is_turn j) = tn_memory_limit_hit (is_turn i) \<and>
    snd (guest_allocates n j) = snd (guest_allocates n i)"
  using adopted_run [OF assms(1), of i] assms(2) by (simp add: live_bytes_def guest_allocates_def split: prod.split)

end
