(* ===== verification/Object_Storage.thy ===== *)
theory Object_Storage
  imports Object_Natives Object_Script
begin

text \<open>
  The rest of the script of a Durable Object, from \<open>src/src/js/durable_object.js\<close>, on the native functions it calls: the
  methods of \<open>state.storage\<close> with the operation each builds, alarms, attachments of sockets, and the
  sockets an object finds when it is built again.  What \<open>meant\<close> says of a method is its specification.
\<close>

section \<open>Calls\<close>

text \<open>The native state and the counters of the script.  \<open>gl_nan\<close> is whether the backlog is NaN, which it is once a
  native call answered no number.\<close>

record glue =
  gl_native :: native_state
  gl_script :: object_script
  gl_nan :: bool

definition glue_new :: "ws_id \<Rightarrow> glue" where
  "glue_new ws = \<lparr>gl_native = native_new ws, gl_script = object_script_new, gl_nan = False\<rparr>"

definition guarded_op :: "js_value \<Rightarrow> bool" where
  "guarded_op op \<longleftrightarrow>
     js_get op ''kind'' = JString ''write'' \<or> (case js_get op ''keys'' of JArray ks \<Rightarrow> ks \<noteq> [] | _ \<Rightarrow> False)"

definition js_count :: "js_value \<Rightarrow> nat option" where
  "js_count v = (case v of JNumber n \<Rightarrow> Some (nat n) | _ \<Rightarrow> None)"

text \<open>\<open>call\<close>, with the functions of the promise it makes; the result is the call in flight.\<close>

definition glue_call ::
    "conversions \<Rightarrow> (parsed_op \<Rightarrow> payload) \<Rightarrow> js_value \<Rightarrow> call_kind \<Rightarrow> guest_fn \<Rightarrow> guest_fn \<Rightarrow> glue \<Rightarrow>
     glue \<times> (js_exception, nat) result" where
  "glue_call C enc op kind f g s =
     (let o1 = gl_script s in
      if \<not> gl_nan s \<and> MAX_BACKLOG \<le> os_backlog o1 \<and> guarded_op op then (s, Err (RangeError BACKLOG_ERROR))
      else case native_object_storage C enc op (ArgFn f) (ArgFn g) (gl_native s) of
        (n, Throws e) \<Rightarrow> (s\<lparr>gl_native := n\<rparr>, Err e)
      | (n, Returns v) \<Rightarrow>
          (let bytes = (case js_count v of None \<Rightarrow> 0 | Some b \<Rightarrow> b)
           in (s\<lparr>gl_native := n, gl_nan := gl_nan s \<or> js_count v = None,
                 gl_script := o1\<lparr>os_backlog := os_backlog o1 + bytes,
                   os_flights := os_flights o1 @ [(os_next o1, \<lparr>fl_bytes = bytes, fl_kind = kind\<rparr>)], os_next := Suc (os_next o1)\<rparr>\<rparr>,
               Ok (os_next o1))))"

definition glue_read ::
    "conversions \<Rightarrow> (parsed_op \<Rightarrow> payload) \<Rightarrow> js_value \<Rightarrow> guest_fn \<Rightarrow> guest_fn \<Rightarrow> glue \<Rightarrow> glue \<times> (js_exception, nat) result" where
  "glue_read C enc op f g s =
     (case glue_call C enc op ReadCall f g s of
        (s, Inl e) \<Rightarrow> (s, Err e)
      | (s, Inr i) \<Rightarrow> (s\<lparr>gl_script := (gl_script s)\<lparr>os_reads := Suc (os_reads (gl_script s))\<rparr>\<rparr>, Ok i))"

definition glue_write ::
    "conversions \<Rightarrow> (parsed_op \<Rightarrow> payload) \<Rightarrow> js_value list \<Rightarrow> string list \<Rightarrow> bool \<Rightarrow> guest_fn \<Rightarrow> guest_fn \<Rightarrow> glue \<Rightarrow>
     glue \<times> (js_exception, nat) result" where
  "glue_write C enc puts deletes all f g s =
     glue_call C enc
       (JObject [(''kind'', JString ''write''), (''puts'', JArray puts), (''deletes'', JArray (map JString deletes)),
                 (''deleteAll'', JBool all)])
       TrackedCall f g s"

section \<open>Methods\<close>

text \<open>A method answers a promise of a call in flight, a rejected promise, or throws.\<close>

datatype call_result = CallPending nat | CallRejected js_exception | CallThrown js_exception

definition as_promise :: "glue \<times> (js_exception, nat) result \<Rightarrow> glue \<times> call_result" where
  "as_promise r = (fst r, case snd r of Inl e \<Rightarrow> CallRejected e | Inr i \<Rightarrow> CallPending i)"

definition or_throw :: "glue \<times> (js_exception, nat) result \<Rightarrow> glue \<times> call_result" where
  "or_throw r = (fst r, case snd r of Inl e \<Rightarrow> CallThrown e | Inr i \<Rightarrow> CallPending i)"

definition KEY_ERROR :: js_exception where
  "KEY_ERROR = TypeError ''Durable Object storage: a key is a string''"

definition key_of :: "js_value \<Rightarrow> string option" where
  "key_of v = (case v of JString k \<Rightarrow> Some k | _ \<Rightarrow> None)"

text \<open>The keys a guest names: an array of strings or one string.\<close>

definition keys_of :: "js_value \<Rightarrow> string list option" where
  "keys_of v = (case v of JArray ks \<Rightarrow> those (map key_of ks) | _ \<Rightarrow> map_option (\<lambda>k. [k]) (key_of v))"

definition entries_of :: "js_value \<Rightarrow> js_value \<Rightarrow> (string \<times> js_value) list" where
  "entries_of key_or_entries v = (case key_or_entries of JString k \<Rightarrow> [(k, v)] | _ \<Rightarrow> own_properties key_or_entries)"

definition js_storage_get ::
    "conversions \<Rightarrow> (parsed_op \<Rightarrow> payload) \<Rightarrow> js_value \<Rightarrow> guest_fn \<Rightarrow> guest_fn \<Rightarrow> glue \<Rightarrow> glue \<times> call_result" where
  "js_storage_get C enc keys f g s =
     (case keys_of keys of
        None \<Rightarrow> (s, CallRejected KEY_ERROR)
      | Some ks \<Rightarrow> as_promise (glue_read C enc (JObject [(''kind'', JString ''get''), (''keys'', JArray (map JString ks))]) f g s))"

definition js_storage_put ::
    "conversions \<Rightarrow> (parsed_op \<Rightarrow> payload) \<Rightarrow> js_value \<Rightarrow> js_value \<Rightarrow> guest_fn \<Rightarrow> guest_fn \<Rightarrow> glue \<Rightarrow> glue \<times> call_result" where
  "js_storage_put C enc key_or_entries v f g s =
     as_promise (glue_write C enc (map (\<lambda>(k, v). JArray [JString k, v]) (entries_of key_or_entries v)) [] False f g s)"

definition js_storage_delete ::
    "conversions \<Rightarrow> (parsed_op \<Rightarrow> payload) \<Rightarrow> js_value \<Rightarrow> guest_fn \<Rightarrow> guest_fn \<Rightarrow> glue \<Rightarrow> glue \<times> call_result" where
  "js_storage_delete C enc keys f g s =
     (case keys_of keys of
        None \<Rightarrow> (s, CallThrown KEY_ERROR)
      | Some ks \<Rightarrow> as_promise (glue_write C enc [] ks False f g s))"

text \<open>The engine's message for options that are null is cut short.\<close>

definition NULL_OPTIONS :: js_exception where
  "NULL_OPTIONS = TypeError ''Cannot read properties of null''"

definition js_storage_list ::
    "conversions \<Rightarrow> (parsed_op \<Rightarrow> payload) \<Rightarrow> js_value \<Rightarrow> guest_fn \<Rightarrow> guest_fn \<Rightarrow> glue \<Rightarrow> glue \<times> call_result" where
  "js_storage_list C enc options f g s =
     (if options = JNull then (s, CallRejected NULL_OPTIONS)
      else as_promise (glue_read C enc
        (JObject [(''kind'', JString ''list''), (''start'', js_get options ''start''), (''startAfter'', js_get options ''startAfter''),
                  (''end'', js_get options ''end''), (''prefix'', js_get options ''prefix''),
                  (''reverse'', JBool (js_get options ''reverse'' = JBool True)), (''limit'', js_get options ''limit'')]) f g s))"

definition js_storage_delete_all ::
    "conversions \<Rightarrow> (parsed_op \<Rightarrow> payload) \<Rightarrow> guest_fn \<Rightarrow> guest_fn \<Rightarrow> glue \<Rightarrow> glue \<times> call_result" where
  "js_storage_delete_all C enc f g s = as_promise (glue_write C enc [] [] True f g s)"

definition js_storage_sync ::
    "conversions \<Rightarrow> (parsed_op \<Rightarrow> payload) \<Rightarrow> guest_fn \<Rightarrow> guest_fn \<Rightarrow> glue \<Rightarrow> glue \<times> call_result" where
  "js_storage_sync C enc f g s =
     or_throw (glue_call C enc (JObject [(''kind'', JString ''get''), (''keys'', JArray [])]) PlainCall f g s)"

definition js_storage_get_alarm ::
    "conversions \<Rightarrow> (parsed_op \<Rightarrow> payload) \<Rightarrow> guest_fn \<Rightarrow> guest_fn \<Rightarrow> glue \<Rightarrow> glue \<times> call_result" where
  "js_storage_get_alarm C enc f g s = or_throw (glue_read C enc (JObject [(''kind'', JString ''getAlarm'')]) f g s)"

text \<open>The time of an alarm is a date, by its \<open>getTime\<close>, or a value.\<close>

datatype alarm_time = AlarmDate js_value | AlarmValue js_value

definition whole_time :: "alarm_time \<Rightarrow> int option" where
  "whole_time t =
     (case (case t of AlarmDate v \<Rightarrow> v | AlarmValue v \<Rightarrow> v) of JNumber n \<Rightarrow> Some n | JDouble bits \<Rightarrow> f64_trunc bits | _ \<Rightarrow> None)"

definition NO_ALARM :: js_exception where
  "NO_ALARM = TypeError ''the Durable Object class has no alarm() handler''"

definition BAD_ALARM :: js_exception where
  "BAD_ALARM = TypeError ''setAlarm() takes a Date or a time in milliseconds''"

definition js_storage_set_alarm ::
    "conversions \<Rightarrow> (parsed_op \<Rightarrow> payload) \<Rightarrow> bool \<Rightarrow> alarm_time \<Rightarrow> guest_fn \<Rightarrow> guest_fn \<Rightarrow> glue \<Rightarrow> glue \<times> call_result" where
  "js_storage_set_alarm C enc has_alarm t f g s =
     (if \<not> has_alarm then (s, CallRejected NO_ALARM)
      else case whole_time t of
        None \<Rightarrow> (s, CallRejected BAD_ALARM)
      | Some n \<Rightarrow> as_promise (glue_call C enc (JObject [(''kind'', JString ''setAlarm''), (''at'', JNumber n)]) TrackedCall f g s))"

definition js_storage_delete_alarm ::
    "conversions \<Rightarrow> (parsed_op \<Rightarrow> payload) \<Rightarrow> guest_fn \<Rightarrow> guest_fn \<Rightarrow> glue \<Rightarrow> glue \<times> call_result" where
  "js_storage_delete_alarm C enc f g s =
     as_promise (glue_call C enc (JObject [(''kind'', JString ''setAlarm''), (''at'', JNull)]) TrackedCall f g s)"

datatype storage_method =
    MGet js_value
  | MPut js_value js_value
  | MDelete js_value
  | MList js_value
  | MDeleteAll
  | MSync
  | MGetAlarm
  | MSetAlarm alarm_time
  | MDeleteAlarm

definition storage_method ::
    "conversions \<Rightarrow> (parsed_op \<Rightarrow> payload) \<Rightarrow> bool \<Rightarrow> storage_method \<Rightarrow> guest_fn \<Rightarrow> guest_fn \<Rightarrow> glue \<Rightarrow> glue \<times> call_result" where
  "storage_method C enc has_alarm m f g s =
     (case m of
        MGet keys \<Rightarrow> js_storage_get C enc keys f g s
      | MPut k v \<Rightarrow> js_storage_put C enc k v f g s
      | MDelete keys \<Rightarrow> js_storage_delete C enc keys f g s
      | MList options \<Rightarrow> js_storage_list C enc options f g s
      | MDeleteAll \<Rightarrow> js_storage_delete_all C enc f g s
      | MSync \<Rightarrow> js_storage_sync C enc f g s
      | MGetAlarm \<Rightarrow> js_storage_get_alarm C enc f g s
      | MSetAlarm t \<Rightarrow> js_storage_set_alarm C enc has_alarm t f g s
      | MDeleteAlarm \<Rightarrow> js_storage_delete_alarm C enc f g s)"

section \<open>What the methods mean\<close>

text \<open>The values of a write as the host gets them; None if one cannot be cloned.\<close>

definition cloned :: "conversions \<Rightarrow> (string \<times> js_value) list \<Rightarrow> (string \<times> bytes) list option" where
  "cloned C entries = those (map (\<lambda>(k, v). map_option (Pair k) (cv_clone C v)) entries)"

definition list_limit :: "conversions \<Rightarrow> js_value \<Rightarrow> u64 option" where
  "list_limit C v = (if is_nullish v then None else map_option as_u64 (number_value C v))"

definition list_bound :: "conversions \<Rightarrow> js_value \<Rightarrow> string option" where
  "list_bound C v = (if is_nullish v then None else Some (lossy_string C v))"

definition meant :: "conversions \<Rightarrow> bool \<Rightarrow> storage_method \<Rightarrow> (js_exception, parsed_op \<times> call_kind) result" where
  "meant C has_alarm m =
     (case m of
        MGet keys \<Rightarrow> (case keys_of keys of None \<Rightarrow> Err KEY_ERROR | Some ks \<Rightarrow> Ok (OpGet ks, ReadCall))
      | MPut k v \<Rightarrow> (case cloned C (entries_of k v) of None \<Rightarrow> Err Conversion | Some ps \<Rightarrow> Ok (OpWrite ps [] False, TrackedCall))
      | MDelete keys \<Rightarrow> (case keys_of keys of None \<Rightarrow> Err KEY_ERROR | Some ks \<Rightarrow> Ok (OpWrite [] ks False, TrackedCall))
      | MList options \<Rightarrow>
          if options = JNull then Err NULL_OPTIONS
          else Ok (OpList (list_bound C (js_get options ''start'')) (list_bound C (js_get options ''startAfter''))
                     (list_bound C (js_get options ''end'')) (list_bound C (js_get options ''prefix''))
                     (js_get options ''reverse'' = JBool True) (list_limit C (js_get options ''limit'')), ReadCall)
      | MDeleteAll \<Rightarrow> Ok (OpWrite [] [] True, TrackedCall)
      | MSync \<Rightarrow> Ok (OpGet [], PlainCall)
      | MGetAlarm \<Rightarrow> Ok (OpGetAlarm, ReadCall)
      | MSetAlarm t \<Rightarrow>
          if \<not> has_alarm then Err NO_ALARM
          else (case whole_time t of
                  None \<Rightarrow> Err BAD_ALARM
                | Some n \<Rightarrow> Ok (OpSetAlarm (Some (max (- (2 ^ 63)) (min (2 ^ 63 - 1) n))), TrackedCall))
      | MDeleteAlarm \<Rightarrow> Ok (OpSetAlarm None, TrackedCall))"

text \<open>The call of the counters that an operation is, and its size as JavaScript adds it up.\<close>

definition counted :: "parsed_op \<Rightarrow> bytes storage_call" where
  "counted p =
     (case p of
        OpGet ks \<Rightarrow> CallGet ks
      | OpList _ _ _ _ _ _ \<Rightarrow> CallList
      | OpWrite puts deletes all \<Rightarrow> CallWrite (map (\<lambda>(k, b). (k, Some b)) puts) deletes all
      | OpGetAlarm \<Rightarrow> CallGetAlarm
      | OpSetAlarm t \<Rightarrow> CallSetAlarm t)"

definition op_size :: "parsed_op \<Rightarrow> nat" where
  "op_size p = nat (f64_of_int (int (op_bytes p)))"

definition counters_after :: "parsed_op \<Rightarrow> call_kind \<Rightarrow> object_script \<Rightarrow> object_script" where
  "counters_after p kind o1 =
     fst (case kind of ReadCall \<Rightarrow> read_call (counted p) (op_size p) o1 | _ \<Rightarrow> storage_call (counted p) (op_size p) kind o1)"

definition refuses :: "parsed_op \<Rightarrow> glue \<Rightarrow> bool" where
  "refuses p s \<longleftrightarrow> MAX_BACKLOG \<le> os_backlog (gl_script s) \<and> (is_write (counted p) \<or> has_keys (counted p))"

text \<open>The native state once a storage operation is owed an answer.\<close>

definition owed :: "(parsed_op \<Rightarrow> payload) \<Rightarrow> parsed_op \<Rightarrow> guest_fn \<Rightarrow> guest_fn \<Rightarrow> native_state \<Rightarrow> native_state" where
  "owed enc p f g n =
     native_send (ObjectStorage (tb_next_id (nv_tables n)) (queue_op enc p))
       (n\<lparr>nv_tables := fst (register_callbacks_with_error f g (nv_tables n))\<rparr>)"

definition strings_kept :: "conversions \<Rightarrow> bool" where
  "strings_kept C \<longleftrightarrow> (\<forall>k. cv_to_string C (JString k) = Some k)"

subsection \<open>Parsing what the script builds\<close>

lemma lossy_kept [simp]: "strings_kept C \<Longrightarrow> lossy_string C (JString k) = k"
  by (simp add: strings_kept_def lossy_string_def)

lemma strings_of_kept [simp]: "strings_kept C \<Longrightarrow> js_strings C (Some (JArray (map JString ks))) = ks"
  by (simp add: js_strings_def map_idI)

lemma parse_entries:
  "strings_kept C \<Longrightarrow>
   parse_puts C (map (\<lambda>(k, v). JArray [JString k, v]) es) =
     (case cloned C es of None \<Rightarrow> ParseThrew Conversion | Some ps \<Rightarrow> Parsed ps)"
  by (induction es) (auto simp: cloned_def split: option.splits)

lemmas parse_defs = parse_storage_op_def string_field_def js_field_def js_get_def is_nullish_def is_true_field_def

lemma parse_get: "strings_kept C \<Longrightarrow> parse_storage_op C (JObject [(''kind'', JString ''get''), (''keys'', JArray (map JString ks))]) = Parsed (OpGet ks)"
  by (simp add: parse_defs)

lemma parse_write:
  "strings_kept C \<Longrightarrow>
   parse_storage_op C (JObject [(''kind'', JString ''write''), (''puts'', JArray (map (\<lambda>(k, v). JArray [JString k, v]) es)),
       (''deletes'', JArray (map JString ks)), (''deleteAll'', JBool all)]) =
     (case cloned C es of None \<Rightarrow> ParseThrew Conversion | Some ps \<Rightarrow> Parsed (OpWrite ps ks all))"
  by (simp add: parse_defs parse_entries split: option.split)

lemma parse_list:
  "strings_kept C \<Longrightarrow>
   parse_storage_op C (JObject [(''kind'', JString ''list''), (''start'', a), (''startAfter'', b), (''end'', c), (''prefix'', d),
       (''reverse'', JBool r), (''limit'', l)]) =
     Parsed (OpList (list_bound C a) (list_bound C b) (list_bound C c) (list_bound C d) r (list_limit C l))"
  by (simp add: parse_defs list_bound_def list_limit_def)

lemma parse_get_alarm: "strings_kept C \<Longrightarrow> parse_storage_op C (JObject [(''kind'', JString ''getAlarm'')]) = Parsed OpGetAlarm"
  by (simp add: parse_defs)

lemma parse_set_alarm:
  "strings_kept C \<Longrightarrow>
   parse_storage_op C (JObject [(''kind'', JString ''setAlarm''), (''at'', JNumber n)]) =
     Parsed (OpSetAlarm (Some (max (- (2 ^ 63)) (min (2 ^ 63 - 1) n))))"
  "strings_kept C \<Longrightarrow>
   parse_storage_op C (JObject [(''kind'', JString ''setAlarm''), (''at'', JNull)]) = Parsed (OpSetAlarm None)"
  by (simp_all add: parse_defs integer_value_def Let_def)

subsection \<open>A call on the counters\<close>

lemma native_parsed:
  "nv_installed n \<Longrightarrow> parse_storage_op C op = Parsed p \<Longrightarrow>
   native_object_storage C enc op (ArgFn f) (ArgFn g) n = (owed enc p f g n, Returns (js_int (int (op_bytes p))))"
  by (simp add: native_object_storage_def owe_answer_def resolve_reject_def owed_def register_callbacks_with_error_def
      register_callback_def Let_def)

lemma count_js_int [simp]: "js_count (js_int n) = Some (nat (f64_of_int n))"
  by (simp add: js_count_def js_int_def)

lemma glue_call_parsed:
  assumes "nv_installed (gl_native s)" "\<not> gl_nan s" "parse_storage_op C op = Parsed p"
    "guarded_op op \<longleftrightarrow> is_write (counted p) \<or> has_keys (counted p)"
  shows "glue_call C enc op kind f g s =
    (if refuses p s then (s, Inl (RangeError BACKLOG_ERROR))
     else (s\<lparr>gl_native := owed enc p f g (gl_native s), gl_script := fst (storage_call (counted p) (op_size p) kind (gl_script s))\<rparr>,
           Inr (os_next (gl_script s))))"
proof -
  have "s\<lparr>gl_native := n, gl_nan := False, gl_script := c\<rparr> = s\<lparr>gl_native := n, gl_script := c\<rparr>" for n c
    using assms(2) by (cases s) simp
  with assms show ?thesis
    by (auto simp: glue_call_def native_parsed refuses_def storage_call_def op_size_def Let_def)
qed

lemma glue_read_parsed:
  assumes "nv_installed (gl_native s)" "\<not> gl_nan s" "parse_storage_op C op = Parsed p"
    "guarded_op op \<longleftrightarrow> is_write (counted p) \<or> has_keys (counted p)"
  shows "glue_read C enc op f g s =
    (if refuses p s then (s, Inl (RangeError BACKLOG_ERROR))
     else (s\<lparr>gl_native := owed enc p f g (gl_native s), gl_script := counters_after p ReadCall (gl_script s)\<rparr>,
           Inr (os_next (gl_script s))))"
  by (simp add: glue_read_def glue_call_parsed [OF assms] counters_after_def read_call_def storage_call_def refuses_def)

lemma glue_write_effect:
  assumes "nv_installed (gl_native s)" "\<not> gl_nan s" "strings_kept C"
  shows "glue_write C enc (map (\<lambda>(k, v). JArray [JString k, v]) es) ks all f g s =
    (case cloned C es of
       None \<Rightarrow> (s, Inl (if MAX_BACKLOG \<le> os_backlog (gl_script s) then RangeError BACKLOG_ERROR else Conversion))
     | Some ps \<Rightarrow>
         if refuses (OpWrite ps ks all) s then (s, Inl (RangeError BACKLOG_ERROR))
         else (s\<lparr>gl_native := owed enc (OpWrite ps ks all) f g (gl_native s),
                 gl_script := counters_after (OpWrite ps ks all) TrackedCall (gl_script s)\<rparr>, Inr (os_next (gl_script s))))"
proof (cases "cloned C es")
  case None
  then have "parse_storage_op C (JObject [(''kind'', JString ''write''), (''puts'', JArray (map (\<lambda>(k, v). JArray [JString k, v]) es)),
      (''deletes'', JArray (map JString ks)), (''deleteAll'', JBool all)]) = ParseThrew Conversion"
    using parse_write [OF assms(3)] by simp
  then show ?thesis
    using None assms by (simp add: glue_write_def glue_call_def native_object_storage_def guarded_op_def js_get_def Let_def)
next
  case (Some ps)
  then have "parse_storage_op C (JObject [(''kind'', JString ''write''), (''puts'', JArray (map (\<lambda>(k, v). JArray [JString k, v]) es)),
      (''deletes'', JArray (map JString ks)), (''deleteAll'', JBool all)]) = Parsed (OpWrite ps ks all)"
    using parse_write [OF assms(3)] by simp
  from glue_call_parsed [OF assms(1,2) this] show ?thesis
    by (simp add: glue_write_def Some counters_after_def guarded_op_def js_get_def is_write_def counted_def)
qed

definition fails_with :: "call_result \<Rightarrow> js_exception \<Rightarrow> bool" where
  "fails_with r e \<longleftrightarrow> r = CallThrown e \<or> r = CallRejected e"

text \<open>One call of a method against its meaning.\<close>

lemma method_effect:
  assumes "nv_installed (gl_native s)" "\<not> gl_nan s" "strings_kept C"
  shows "case meant C has_alarm m of
      Inl e \<Rightarrow> fst (storage_method C enc has_alarm m f g s) = s \<and>
        (fails_with (snd (storage_method C enc has_alarm m f g s)) e \<or>
         MAX_BACKLOG \<le> os_backlog (gl_script s) \<and> fails_with (snd (storage_method C enc has_alarm m f g s)) (RangeError BACKLOG_ERROR))
    | Inr (p, kind) \<Rightarrow>
        if refuses p s
        then fst (storage_method C enc has_alarm m f g s) = s \<and> fails_with (snd (storage_method C enc has_alarm m f g s)) (RangeError BACKLOG_ERROR)
        else storage_method C enc has_alarm m f g s =
          (s\<lparr>gl_native := owed enc p f g (gl_native s), gl_script := counters_after p kind (gl_script s)\<rparr>,
           CallPending (os_next (gl_script s)))"
proof -
  note call = glue_call_parsed [OF assms(1,2)] glue_read_parsed [OF assms(1,2)]
  note written = glue_write_effect [OF assms]
  note written0 = written [where es = "[]", simplified]
  note parse = parse_get [OF assms(3)] parse_get [OF assms(3), where ks = "[]", simplified] parse_list [OF assms(3)] parse_get_alarm [OF assms(3)]
    parse_set_alarm [OF assms(3)]
  note defs = storage_method_def meant_def as_promise_def or_throw_def fails_with_def guarded_op_def js_get_def is_write_def has_keys_def
    counted_def counters_after_def refuses_def
  show ?thesis
  proof (cases m)
    case (MGet keys)
    then show ?thesis by (cases "keys_of keys") (simp_all add: defs js_storage_get_def call parse)
  next
    case (MPut k v)
    then show ?thesis by (cases "cloned C (entries_of k v)") (simp_all add: storage_method_def meant_def as_promise_def fails_with_def js_storage_put_def written)
  next
    case (MDelete keys)
    then show ?thesis
      by (cases "keys_of keys")
         (simp_all add: storage_method_def meant_def as_promise_def fails_with_def js_storage_delete_def written0 cloned_def)
  next
    case (MList options)
    then show ?thesis
      by (cases "options = JNull") (simp_all add: defs js_storage_list_def glue_read_parsed [OF assms(1,2) parse_list [OF assms(3)]])
  next
    case (MSetAlarm t)
    then show ?thesis by (cases has_alarm; cases "whole_time t") (simp_all add: defs js_storage_set_alarm_def call parse)
  qed (simp_all add: defs js_storage_delete_all_def js_storage_sync_def js_storage_get_alarm_def js_storage_delete_alarm_def written0
    cloned_def call parse)
qed

text \<open>A put under a key that is not a string is a write of nothing, which resolves.\<close>

lemma put_without_key_stores_nothing:
  assumes "nv_installed (gl_native s)" "\<not> gl_nan s" "strings_kept C" "os_backlog (gl_script s) < MAX_BACKLOG"
  shows "storage_method C enc has_alarm (MPut (JNumber n) v) f g s =
    (s\<lparr>gl_native := owed enc (OpWrite [] [] False) f g (gl_native s),
       gl_script := counters_after (OpWrite [] [] False) TrackedCall (gl_script s)\<rparr>, CallPending (os_next (gl_script s)))"
  using method_effect [OF assms(1-3), where m = "MPut (JNumber n) v" and enc = enc and f = f and g = g and has_alarm = has_alarm] assms(4)
  by (simp add: meant_def entries_of_def own_properties_def cloned_def refuses_def)

section \<open>Runs\<close>

text \<open>The methods a guest calls and the ends of its calls, in any order.\<close>

datatype glue_op = DoMethod storage_method guest_fn guest_fn | EndsCall nat "string option"

definition glue_step :: "conversions \<Rightarrow> (parsed_op \<Rightarrow> payload) \<Rightarrow> bool \<Rightarrow> glue_op \<Rightarrow> glue \<Rightarrow> glue" where
  "glue_step C enc has_alarm op s =
     (case op of
        DoMethod m f g \<Rightarrow> fst (storage_method C enc has_alarm m f g s)
      | EndsCall i error \<Rightarrow> s\<lparr>gl_script := settle_call i error (gl_script s)\<rparr>)"

definition glue_inv :: "glue \<Rightarrow> bool" where
  "glue_inv s \<longleftrightarrow> nv_installed (gl_native s) \<and> \<not> gl_nan s \<and> script_inv (gl_script s)"

lemma counters_after_inv: "script_inv o1 \<Longrightarrow> script_inv (counters_after p kind o1)"
  using script_step_inv [of o1 "DoRead (counted p) (op_size p)"]
  by (cases kind)
     (auto simp: counters_after_def script_step_def storage_call_def script_inv_def)

lemma glue_step_inv:
  assumes "strings_kept C" "glue_inv s"
  shows "glue_inv (glue_step C enc has_alarm op s)"
proof (cases op)
  case (DoMethod m f g)
  from assms have i: "nv_installed (gl_native s)" "\<not> gl_nan s" "script_inv (gl_script s)" by (simp_all add: glue_inv_def)
  from method_effect [OF i(1,2) assms(1), where has_alarm = has_alarm and m = m and enc = enc and f = f and g = g] i counters_after_inv [OF i(3)] show ?thesis
    by (auto simp: DoMethod glue_step_def glue_inv_def owed_def native_send_def split: sum.splits if_splits)
next
  case (EndsCall i error)
  with assms(2) show ?thesis by (simp add: glue_step_def glue_inv_def settle_call_inv)
qed

lemma glue_run_inv: "strings_kept C \<Longrightarrow> glue_inv (fold (glue_step C enc has_alarm) ops (glue_new ws))"
proof (rule fold_invariant)
  have "script_inv object_script_new" using script_run_inv [of "[]"] by simp
  then show "glue_inv (glue_new ws)" by (simp add: glue_inv_def glue_new_def native_new_def)
qed (rule glue_step_inv)

section \<open>Sockets that are found again\<close>

text \<open>A socket with its attachment.  \<open>structured\<close> is \<open>structuredClone\<close>, None if it throws.\<close>

definition serialize_attachment ::
    "conversions \<Rightarrow> (socket_op \<Rightarrow> payload) \<Rightarrow> (js_value \<Rightarrow> js_value option) \<Rightarrow> ws_id \<Rightarrow> js_value \<Rightarrow> js_value \<times> native_state \<Rightarrow>
     (js_value \<times> native_state) \<times> js_exception option" where
  "serialize_attachment C enc structured ws v s =
     (case native_object_socket_attachment C enc (ArgJs (js_int (uint ws))) v (snd s) of
        (n, Throws e) \<Rightarrow> ((fst s, n), Some e)
      | (n, Returns _) \<Rightarrow>
          if v = JUndefined then ((JNull, n), None)
          else (case structured v of None \<Rightarrow> ((fst s, n), Some Conversion) | Some w \<Rightarrow> ((w, n), None)))"

definition deserialize_attachment :: "(js_value \<Rightarrow> js_value option) \<Rightarrow> js_value \<Rightarrow> js_value option" where
  "deserialize_attachment structured attachment = structured attachment"

text \<open>The sockets an object starts with, from \<open>__nativeObjectSockets\<close>; an id reads as a number.\<close>

definition restore_sockets :: "held_socket list \<Rightarrow> script_sockets" where
  "restore_sockets held =
     fold (\<lambda>h s. (set_socket (unat (hs_id h)) \<lparr>ow_mode = ModeHandlers, ow_tags = hs_tags h, ow_open = True\<rparr> s)
             \<lparr>ss_sockets := set_add (unat (hs_id h)) (ss_sockets s)\<rparr>)
       held \<lparr>ss_objects = Map.empty, ss_sockets = [], ss_calls = [], ss_events = []\<rparr>"

definition get_tags :: "nat \<Rightarrow> script_sockets \<Rightarrow> (js_exception, string list) result" where
  "get_tags i s =
     (case ss_objects s i of
        Some w \<Rightarrow> if ow_mode w = ModeHandlers then Ok (ow_tags w) else Err (TypeError ''getTags() takes a socket accepted with acceptWebSocket()'')
      | None \<Rightarrow> Err (TypeError ''getTags() takes a socket accepted with acceptWebSocket()''))"

text \<open>The run of an alarm: \<open>handler\<close> is what \<open>alarm()\<close> does, its error message if it throws.\<close>

record alarm_run =
  ar_done :: bool
  ar_error :: "string option"

definition object_alarm :: "(nat \<Rightarrow> bool \<Rightarrow> string option) option \<Rightarrow> nat \<Rightarrow> alarm_run" where
  "object_alarm handler retry_count =
     (case handler of
        None \<Rightarrow> \<lparr>ar_done = True, ar_error = Some ''the Durable Object class has no alarm() handler''\<rparr>
      | Some h \<Rightarrow> \<lparr>ar_done = True, ar_error = h retry_count (0 < retry_count)\<rparr>)"

lemma restored_sockets:
  assumes "distinct (map hs_id held)"
  shows "ss_sockets (restore_sockets held) = map (unat \<circ> hs_id) held"
    and "h \<in> set held \<Longrightarrow> ss_objects (restore_sockets held) (unat (hs_id h)) = Some \<lparr>ow_mode = ModeHandlers, ow_tags = hs_tags h, ow_open = True\<rparr>"
proof -
  let ?P = "\<lambda>hs s. ss_sockets s = map (unat \<circ> hs_id) hs \<and>
    (\<forall>h \<in> set hs. ss_objects s (unat (hs_id h)) = Some \<lparr>ow_mode = ModeHandlers, ow_tags = hs_tags h, ow_open = True\<rparr>)"
  have "?P held (restore_sockets held)"
    using assms
  proof (induction held rule: rev_induct)
    case (snoc h hs)
    then have n: "hs_id h \<notin> hs_id ` set hs" and i: "?P hs (restore_sockets hs)" by auto
    let ?step = "\<lambda>s. (set_socket (unat (hs_id h)) \<lparr>ow_mode = ModeHandlers, ow_tags = hs_tags h, ow_open = True\<rparr> s)
      \<lparr>ss_sockets := set_add (unat (hs_id h)) (ss_sockets s)\<rparr>"
    have "restore_sockets (hs @ [h]) = ?step (restore_sockets hs)" by (simp add: restore_sockets_def)
    moreover have "\<forall>x \<in> set hs. unat (hs_id x) \<noteq> unat (hs_id h)" using n by (metis image_eqI word_unat_eq_iff)
    ultimately show ?case using i by (auto simp: set_socket_def set_add_def)
  qed (simp add: restore_sockets_def)
  then show "ss_sockets (restore_sockets held) = map (unat \<circ> hs_id) held"
    "h \<in> set held \<Longrightarrow> ss_objects (restore_sockets held) (unat (hs_id h)) = Some \<lparr>ow_mode = ModeHandlers, ow_tags = hs_tags h, ow_open = True\<rparr>"
    by auto
qed

text \<open>An object that is built again finds its sockets with their tags.\<close>

lemma sockets_found_again:
  assumes "distinct (map hs_id held)"
  shows "get_web_sockets (Some t) (restore_sockets held) = map (unat \<circ> hs_id) (filter (\<lambda>h. t \<in> set (hs_tags h)) held)"
    and "h \<in> set held \<Longrightarrow> get_tags (unat (hs_id h)) (restore_sockets held) = Ok (hs_tags h)"
proof -
  note r = restored_sockets [OF assms]
  show "get_web_sockets (Some t) (restore_sockets held) = map (unat \<circ> hs_id) (filter (\<lambda>h. t \<in> set (hs_tags h)) held)"
    unfolding get_web_sockets_def r(1) filter_map by (intro arg_cong [where f = "map _"] filter_cong) (simp_all add: r(2))
  show "h \<in> set held \<Longrightarrow> get_tags (unat (hs_id h)) (restore_sockets held) = Ok (hs_tags h)"
    by (simp add: get_tags_def r(2))
qed

section \<open>Properties\<close>

text \<open>C9: The storage methods send the host what they mean.  After any methods a guest called and any ends of its calls, a
  method either fails and leaves everything as it was, because of its arguments or because at least 32 MiB
  of its operations have not ended; or its operation is the one message that goes out, behind all before it,
  the functions of its promise are registered under its id, and its bytes count until it ends.\<close>

theorem storage_methods_reach_host:
  assumes "strings_kept C" "s = fold (glue_step C enc has_alarm) ops (glue_new ws)"
    "storage_method C enc has_alarm m f g s = (s', r)" "n = gl_native s" "i = tb_next_id (nv_tables n)"
  shows "case meant C has_alarm m of
      Inl e \<Rightarrow> s' = s \<and> (fails_with r e \<or> fails_with r (RangeError BACKLOG_ERROR) \<and> MAX_BACKLOG \<le> (\<Sum>p\<leftarrow>os_flights (gl_script s). fl_bytes (snd p)))
    | Inr (p, kind) \<Rightarrow>
        (case r of
           CallPending j \<Rightarrow>
             nv_sent (gl_native s') = nv_sent n @ [ObjectStorage i (queue_op enc p)] \<and>
             hm_get (tb_fetch (nv_tables (gl_native s'))) i = Some f \<and> hm_get (tb_fetch_error (nv_tables (gl_native s'))) i = Some g \<and>
             os_flights (gl_script s') = os_flights (gl_script s) @ [(j, \<lparr>fl_bytes = op_size p, fl_kind = kind\<rparr>)] \<and>
             os_backlog (gl_script s') = (\<Sum>p\<leftarrow>os_flights (gl_script s'). fl_bytes (snd p))
         | _ \<Rightarrow> s' = s \<and> fails_with r (RangeError BACKLOG_ERROR) \<and> MAX_BACKLOG \<le> (\<Sum>p\<leftarrow>os_flights (gl_script s). fl_bytes (snd p)))"
proof -
  have i: "nv_installed (gl_native s)" "\<not> gl_nan s" "script_inv (gl_script s)"
    using glue_run_inv [OF assms(1)] assms(2) by (simp_all add: glue_inv_def)
  have b: "os_backlog (gl_script s) = (\<Sum>p\<leftarrow>os_flights (gl_script s). fl_bytes (snd p))" using i(3) by (simp add: script_inv_def)
  have fl: "os_flights (counters_after p kind (gl_script s)) = os_flights (gl_script s) @ [(os_next (gl_script s), \<lparr>fl_bytes = op_size p, fl_kind = kind\<rparr>)]"
    if "\<not> refuses p s" for p kind
    using that by (cases kind) (auto simp: counters_after_def read_call_def storage_call_def refuses_def)
  have bk: "os_backlog (counters_after p kind (gl_script s)) = (\<Sum>q\<leftarrow>os_flights (counters_after p kind (gl_script s)). fl_bytes (snd q))" for p kind
    using counters_after_inv [OF i(3)] by (simp add: script_inv_def)
  note e = method_effect [OF i(1,2) assms(1), where has_alarm = has_alarm and m = m and enc = enc and f = f and g = g, unfolded assms(3) fst_conv snd_conv]
  show ?thesis
  proof (cases "meant C has_alarm m")
    case (Inl x)
    with e b show ?thesis by auto
  next
    case (Inr pk)
    obtain p kind where pk: "pk = (p, kind)" by fastforce
    show ?thesis
    proof (cases "refuses p s")
      case True
      with e b show ?thesis by (auto simp: Inr pk fails_with_def refuses_def)
    next
      case False
      with e fl [OF False] bk [of p kind] assms(4,5) show ?thesis
        by (auto simp: Inr pk owed_def native_send_def register_callbacks_with_error_def register_callback_def Let_def)
    qed
  qed
qed

definition sample_conversions :: conversions where
  "sample_conversions =
     \<lparr>cv_to_string = (\<lambda>v. case v of JString k \<Rightarrow> Some k | _ \<Rightarrow> None), cv_to_number = (\<lambda>_. None),
      cv_clone = (\<lambda>v. case v of JBytes b \<Rightarrow> Some b | _ \<Rightarrow> None), cv_unclone = (\<lambda>b. Some (JBytes b))\<rparr>"

lemma sample_kept: "strings_kept sample_conversions"
  by (simp add: strings_kept_def sample_conversions_def)

text \<open>A put and a get behind it: two messages in order, four bytes that wait, and a read.\<close>

theorem storage_methods_reach_host_witness:
  "\<exists>s s'. s = fold (glue_step sample_conversions (\<lambda>_. 0) True) [DoMethod (MPut (JString ''k'') (JBytes [1, 2])) 5 6] (glue_new 1) \<and>
     storage_method sample_conversions (\<lambda>_. 0) True (MGet (JArray [JString ''k''])) 7 8 s = (s', CallPending 1) \<and>
     nv_sent (gl_native s') = [ObjectStorage 1 (StorageWrite 0), ObjectStorage 2 (StorageRead 0)] \<and> os_backlog (gl_script s') = 4"
proof -
  let ?p = "MPut (JString ''k'') (JBytes [1, 2])" and ?m = "MGet (JArray [JString ''k''])" and ?new = "glue_new 1"
  let ?s = "fold (glue_step sample_conversions (\<lambda>_. 0) True) [DoMethod ?p 5 6] ?new"
  have means: "meant sample_conversions True ?p = Inr (OpWrite [(''k'', [1, 2])] [] False, TrackedCall)"
    "meant sample_conversions True ?m = Inr (OpGet [''k''], ReadCall)"
    by (simp_all add: meant_def keys_of_def key_of_def cloned_def entries_of_def sample_conversions_def)
  have size: "op_size (OpWrite [(''k'', [1, 2])] [] False) = 3" "op_size (OpGet [''k'']) = 1"
    by (simp_all add: op_size_def op_bytes_def f64_exact)
  have new: "nv_installed (gl_native ?new)" "\<not> gl_nan ?new" "gl_script ?new = object_script_new" "nv_sent (gl_native ?new) = []"
    "tb_next_id (nv_tables (gl_native ?new)) = 1"
    by (simp_all add: glue_new_def native_new_def tables_new_def)
  have s: "gl_script ?s = counters_after (OpWrite [(''k'', [1, 2])] [] False) TrackedCall object_script_new"
    "gl_native ?s = owed (\<lambda>_. 0) (OpWrite [(''k'', [1, 2])] [] False) 5 6 (gl_native ?new)" "\<not> gl_nan ?s"
    using method_effect [OF new(1,2) sample_kept, where has_alarm = True and m = ?p and enc = "\<lambda>_. 0" and f = 5 and g = 6] new(2,3)
    by (simp_all add: means refuses_def object_script_new_def MAX_BACKLOG_def glue_step_def)
  then have s': "nv_installed (gl_native ?s)" "os_backlog (gl_script ?s) = 3" "os_next (gl_script ?s) = 1"
    "nv_sent (gl_native ?s) = [ObjectStorage 1 (StorageWrite 0)]" "tb_next_id (nv_tables (gl_native ?s)) = 2"
    "map snd (os_flights (gl_script ?s)) = [\<lparr>fl_bytes = 3, fl_kind = TrackedCall\<rparr>]"
    using new
    by (simp_all add: owed_def native_send_def counters_after_def storage_call_def MAX_BACKLOG_def object_script_new_def size queue_op_def
        register_callbacks_with_error_def register_callback_def Let_def)
  obtain t where t: "storage_method sample_conversions (\<lambda>_. 0) True ?m 7 8 ?s = (t, CallPending 1)"
    using method_effect [OF s'(1) s(3) sample_kept, where has_alarm = True and m = ?m and enc = "\<lambda>_. 0" and f = 7 and g = 8] s'(2,3)
    by (simp add: means refuses_def MAX_BACKLOG_def)
  have "(\<Sum>p\<leftarrow>os_flights (gl_script ?s). fl_bytes (snd p)) = sum_list (map fl_bytes (map snd (os_flights (gl_script ?s))))" by (simp add: comp_def)
  with storage_methods_reach_host [OF sample_kept refl t refl refl] s' t show ?thesis
    by (intro exI [of _ ?s] exI [of _ t]) (simp add: means size queue_op_def)
qed

text \<open>C27: What \<open>serializeAttachment\<close> does, for every value.  Null and undefined take the attachment away.  A value that cannot be
  cloned throws, and so does one whose bytes are more than \<open>MAX_ATTACHMENT\<close>: then nothing is sent and the old attachment stays.  Every other
  value goes to the host as exactly its bytes, in one message behind all before it.  And if V8 reads a value back
  from its bytes as \<open>structuredClone\<close> copies it, then the attachment reads the same in this object and in one that is
  built again from the socket the host holds.\<close>

theorem attachment_found_again:
  assumes "\<forall>v b. cv_clone C v = Some b \<longrightarrow> cv_unclone C b = structured v \<and> structured v \<noteq> None" "structured JNull = Some JNull"
    "nv_installed n" "uint ws < 2 ^ 53" "serialize_attachment C enc structured ws v (a, n) = ((a', n'), r)"
    "sent = (\<lambda>b. nv_sent n' = nv_sent n @ [ObjectSocket (SocketOther (enc (SockAttachment ws b))) None])"
    "found_again = (\<lambda>b. deserialize_attachment structured
       (js_get (socket_entry C \<lparr>hs_id = ws, hs_tags = ts, hs_attachment = b\<rparr>) ''attachment''))"
  shows "if v = JNull \<or> v = JUndefined then r = None \<and> sent None \<and> deserialize_attachment structured a' = Some JNull \<and> found_again None = Some JNull
    else case cv_clone C v of
      None \<Rightarrow> r = Some Conversion \<and> a' = a \<and> n' = n
    | Some b \<Rightarrow>
        if MAX_ATTACHMENT < length b
        then r = Some (TypeError (''serializeAttachment: the attachment is '' @ decimal (length b) @ '' bytes, more than '' @ decimal MAX_ATTACHMENT)) \<and>
          a' = a \<and> n' = n
        else r = None \<and> sent (Some b) \<and> Some a' = structured v \<and> found_again (Some b) = deserialize_attachment structured a'"
proof -
  have "f64_of_int (uint ws) = uint ws" "min (2 ^ 64 - 1) (uint ws) = uint ws" using assms(4) by (auto intro: f64_exact)
  then have i: "socket_id (ArgJs (js_int (uint ws))) = Some ws"
    by (simp add: socket_id_def arg_number_def as_u64_def saturate_u64_def js_int_def)
  have e: "js_get (socket_entry C \<lparr>hs_id = ws, hs_tags = ts, hs_attachment = b\<rparr>) ''attachment'' =
      (case b of Some b \<Rightarrow> (case cv_unclone C b of Some v \<Rightarrow> v | None \<Rightarrow> JNull) | None \<Rightarrow> JNull)" for b
    by (simp add: socket_entry_def js_set_def js_get_def update_conv)
  have c: "cv_clone C v = Some b \<Longrightarrow> \<exists>w. cv_unclone C b = Some w \<and> structured v = Some w" for b using assms(1) by fastforce
  note defs = serialize_attachment_def native_object_socket_attachment_def send_socket_op_def native_send_def throw_type_error_def
    deserialize_attachment_def is_nullish_def i
  show ?thesis
  proof (cases "v = JNull \<or> v = JUndefined")
    case True
    then show ?thesis using assms(2,3,5) unfolding assms(6,7) e by (auto simp: defs split: if_splits)
  next
    case False
    then show ?thesis using assms(3,5) c unfolding assms(6,7) e
      by (cases "cv_clone C v") (auto simp: defs split: option.splits if_splits)
  qed
qed

theorem attachment_found_again_witness:
  "\<exists>a n b. serialize_attachment sample_conversions (\<lambda>_. 0) Some 1 (JBytes [1, 2]) (JNull, native_new 1) = ((a, n), None) \<and>
     nv_sent n = [ObjectSocket (SocketOther 0) None] \<and>
     deserialize_attachment Some (js_get (socket_entry sample_conversions \<lparr>hs_id = 1, hs_tags = [], hs_attachment = b\<rparr>) ''attachment'') =
     Some (JBytes [1, 2])"
proof -
  let ?v = "JBytes [1, 2]"
  have law: "\<forall>v b. cv_clone sample_conversions v = Some b \<longrightarrow> cv_unclone sample_conversions b = Some v \<and> Some v \<noteq> None"
    by (auto simp: sample_conversions_def split: js_value.splits)
  have n: "nv_installed (native_new 1)" "uint (1 :: ws_id) < 2 ^ 53" "nv_sent (native_new 1) = []" by (simp_all add: native_new_def)
  obtain a' n' r where r: "serialize_attachment sample_conversions (\<lambda>_. 0) Some 1 ?v (JNull, native_new 1) = ((a', n'), r)"
    by (metis surj_pair)
  have c: "cv_clone sample_conversions ?v = Some [1, 2]" "\<not> MAX_ATTACHMENT < length ([1, 2] :: bytes)"
    by (simp_all add: sample_conversions_def MAX_ATTACHMENT_def)
  from attachment_found_again [OF law refl n(1,2) r refl refl, where ts = "[]"] r n(3) c show ?thesis
    by (auto simp: deserialize_attachment_def)
qed

end
