(* ===== verification/Timer_World.thy ===== *)
theory Timer_World
  imports Timer_Script Event_Timers
begin

text \<open>
  Timers end to end: the script of the guest, the native functions it calls, the event loop they send to, and the
  callbacks that come back run beside each other.  Clocks are those of the event loop, in milliseconds.
\<close>

section \<open>The composed system\<close>

text \<open>\<open>tw_taken\<close> counts the callbacks that were delivered; \<open>tw_log\<close> lists the messages of the script and \<open>tw_runs\<close> the ids of the
  timer functions it ran, each with its time.\<close>

record 's timer_world =
  tw_script :: timer_script
  tw_loop :: "'s event_loop"
  tw_taken :: nat
  tw_log :: "(scheduler_message \<times> instant) list"
  tw_runs :: "(nat \<times> instant) list"

definition timer_world_new :: "native_state \<Rightarrow> 's \<Rightarrow> ws_id \<Rightarrow> 's timer_world" where
  "timer_world_new n host ws =
     \<lparr>tw_script = timer_script_new n, tw_loop = run_event_loop_start host ws, tw_taken = 0, tw_log = [], tw_runs = []\<rparr>"

text \<open>A turn of the guest: what it sent goes to the loop.\<close>

definition script_turn :: "(guest_fn \<Rightarrow> timer_op list \<times> bool) \<Rightarrow> timer_event \<Rightarrow> 's timer_world \<Rightarrow> 's timer_world" where
  "script_turn body ev w =
     (let t = timer_event body ev (tw_script w);
          ms = drop (length (nv_sent (ts_native (tw_script w)))) (nv_sent (ts_native t));
          rs = drop (length (ts_ran (tw_script w))) (ts_ran t);
          now = el_now (tw_loop w)
      in w\<lparr>tw_script := t, tw_loop := fold guest_send ms (tw_loop w), tw_log := tw_log w @ map (\<lambda>m. (m, now)) ms,
           tw_runs := tw_runs w @ map (\<lambda>r. (fst r, now)) rs\<rparr>)"

text \<open>The callback message of a timer.\<close>

definition timer_of :: "callback_message \<Rightarrow> callback_id option" where
  "timer_of m = (case m of ExecuteTimeout i \<Rightarrow> Some i | ExecuteInterval i \<Rightarrow> Some i | _ \<Rightarrow> None)"

definition deliver_next :: "(guest_fn \<Rightarrow> timer_op list \<times> bool) \<Rightarrow> 's timer_world \<Rightarrow> 's timer_world" where
  "deliver_next body w =
     (case timer_of (el_callbacks (tw_loop w) ! tw_taken w) of
        None \<Rightarrow> w\<lparr>tw_taken := Suc (tw_taken w)\<rparr>
      | Some i \<Rightarrow> script_turn body (TimerFires (unat i)) (w\<lparr>tw_taken := Suc (tw_taken w)\<rparr>))"

text \<open>The id a message schedules.\<close>

definition scheduled_id :: "scheduler_message \<Rightarrow> callback_id option" where
  "scheduled_id m =
     (case m of ScheduleTimeout i _ \<Rightarrow> Some i | ScheduleInterval i _ \<Rightarrow> Some i | ScheduleWritable i _ \<Rightarrow> Some i | _ \<Rightarrow> None)"

text \<open>The steps: guest code that is no timer runs, other bindings send messages, the loop or one of its tasks moves, the
  next callback is delivered.\<close>

inductive timer_step :: "'s object_host \<Rightarrow> (guest_fn \<Rightarrow> timer_op list \<times> bool) \<Rightarrow> 's timer_world \<Rightarrow> 's timer_world \<Rightarrow> bool" for h body where
  guest: "timer_step h body w (script_turn body (GuestRuns ops) w)"
| other: "scheduled_id m = None \<Longrightarrow> timer_step h body w (w\<lparr>tw_loop := guest_send m (tw_loop w)\<rparr>)"
| loop: "el_step h (tw_loop w) e \<Longrightarrow> length (el_inbox e) \<le> length (el_inbox (tw_loop w)) \<Longrightarrow> timer_step h body w (w\<lparr>tw_loop := e\<rparr>)"
| deliver: "tw_taken w < length (el_callbacks (tw_loop w)) \<Longrightarrow> timer_step h body w (deliver_next body w)"

section \<open>What a turn of the script sends\<close>

definition scheduled_ids :: "scheduler_message list \<Rightarrow> callback_id list" where
  "scheduled_ids ms = List.map_filter scheduled_id ms"

lemma scheduled_ids_simps [simp]:
  "scheduled_ids [] = []" "scheduled_ids (ms @ ns) = scheduled_ids ms @ scheduled_ids ns"
  "scheduled_ids (m # ms) = (case scheduled_id m of None \<Rightarrow> scheduled_ids ms | Some i \<Rightarrow> i # scheduled_ids ms)"
  by (simp_all add: scheduled_ids_def map_filter_def split: option.split)

text \<open>Each id the script takes goes out in one message that schedules it, in order.\<close>

definition sends_ids :: "timer_script \<Rightarrow> timer_script \<Rightarrow> bool" where
  "sends_ids t t' \<longleftrightarrow>
     ts_next t \<le> ts_next t' \<and>
     (\<exists>ms. nv_sent (ts_native t') = nv_sent (ts_native t) @ ms \<and> scheduled_ids ms = map of_nat [ts_next t..<ts_next t'])"

lemma sends_ids_refl: "ts_next t' = ts_next t \<Longrightarrow> ts_native t' = ts_native t \<Longrightarrow> sends_ids t t'"
  by (simp add: sends_ids_def)

lemma sends_ids_trans: "sends_ids t u \<Longrightarrow> sends_ids u v \<Longrightarrow> sends_ids t v"
  unfolding sends_ids_def
proof (elim conjE exE, intro conjI)
  fix ms ns
  assume a: "ts_next t \<le> ts_next u" "ts_next u \<le> ts_next v" "nv_sent (ts_native u) = nv_sent (ts_native t) @ ms"
    "nv_sent (ts_native v) = nv_sent (ts_native u) @ ns" "scheduled_ids ms = map of_nat [ts_next t..<ts_next u]"
    "scheduled_ids ns = map of_nat [ts_next u..<ts_next v]"
  then have "[ts_next t..<ts_next v] = [ts_next t..<ts_next u] @ [ts_next u..<ts_next v]"
    by (metis le_add_diff_inverse upt_add_eq_append)
  with a show "\<exists>ms. nv_sent (ts_native v) = nv_sent (ts_native t) @ ms \<and> scheduled_ids ms = map of_nat [ts_next t..<ts_next v]"
    by (intro exI [of _ "ms @ ns"]) simp
qed simp

lemma sends_ids_op: "sends_ids t (timer_op op t)"
  by (cases op)
     (auto simp: sends_ids_def timer_defs native_send_def native_schedule_timeout_def native_schedule_interval_def
        native_schedule_writable_def native_clear_timer_def scheduled_id_def split: js_value.split)

lemma sends_ids_ops: "sends_ids t (fold timer_op ops t)"
  by (induction ops arbitrary: t) (auto intro: sends_ids_refl sends_ids_trans sends_ids_op)

lemma sends_ids_call: "sends_ids t (fst (call_timer body i cb t))"
proof -
  have "sends_ids t (fold timer_op ops (u\<lparr>ts_ran := r\<rparr>))" if "ts_next u = ts_next t" "ts_native u = ts_native t" for u ops r
    using that by (auto intro: sends_ids_trans [OF sends_ids_refl sends_ids_ops])
  then show ?thesis
    by (cases cb) (auto simp: call_timer_def run_guest_def case_prod_beta async_context_set_def Let_def sends_ids_def)
qed

lemma sends_ids_event: "sends_ids t (timer_event body ev t)"
proof -
  have c: "sends_ids t (clear_async_context t)" by (rule sends_ids_refl) (simp_all add: clear_async_context_def async_context_set_def)
  have "sends_ids u (execute_timer body i u)" for i u
    using sends_ids_call [of u body i]
    by (auto simp: execute_timer_def case_prod_beta sends_ids_def split: option.split)
  then show ?thesis using c sends_ids_trans sends_ids_ops by (cases ev) (auto simp: timer_event_def Let_def)
qed

text \<open>A turn runs at most one timer function, the one of the message.\<close>

lemma event_ran:
  "\<exists>rs. ts_ran (timer_event body ev t) = ts_ran t @ rs \<and> (case ev of GuestRuns _ \<Rightarrow> rs = [] | TimerFires i \<Rightarrow> map fst rs \<in> {[], [i]})"
proof (cases ev)
  case (TimerFires i)
  show ?thesis
  proof (cases "hm_get (ts_callbacks (clear_async_context t)) i")
    case (Some cb)
    obtain u threw where c: "call_timer body i cb (clear_async_context t) = (u, threw)" by fastforce
    from call_timer_effect(2) [OF c] Some c TimerFires show ?thesis
      by (auto simp: timer_event_def execute_timer_def clear_async_context_def Let_def)
  qed (simp add: TimerFires timer_event_def execute_timer_def clear_async_context_def)
qed (simp add: timer_event_def clear_async_context_def)

section \<open>What a step of the loop does to timers\<close>

lemma inbox_sends [simp]:
  "el_inbox (fold guest_send ms e) = el_inbox e @ ms" "el_now (fold guest_send ms e) = el_now e"
  "el_timers (fold guest_send ms e) = el_timers e" "el_callbacks (fold guest_send ms e) = el_callbacks e"
  "el_tasks (fold guest_send ms e) = el_tasks e"
  by (induction ms arbitrary: e) (simp_all add: guest_send_def)

text \<open>A step that only ends tasks: what it sends for a timer is for a wait that ended.\<close>

definition quiet_step :: "'s event_loop \<Rightarrow> 's event_loop \<Rightarrow> bool" where
  "quiet_step e e' \<longleftrightarrow>
     el_inbox e' = el_inbox e \<and> el_timers e' = el_timers e \<and> el_now e \<le> el_now e' \<and>
     set (writables (el_tasks e')) \<subseteq> set (writables (el_tasks e)) \<and>
     (\<exists>ms. el_callbacks e' = el_callbacks e @ ms \<and>
        (\<forall>m \<in> set ms. timer_of m = None \<or> (\<exists>i \<in> set (writables (el_tasks e)). m = ExecuteTimeout i)))"

lemma quiet_view:
  assumes "timer_view e' = timer_view (callback_send m (end_task n e))" "timer_of m = None"
  shows "quiet_step e e'"
  using assms writables_remove_at [of n "el_tasks e"]
  by (auto simp: quiet_step_def timer_view_def callback_send_def end_task_def)

lemma answer_no_timer: "answer_of m = Some i \<Longrightarrow> timer_of m = None"
  by (auto simp: answer_of_def timer_of_def split: callback_message.splits)

lemma quiet_writable:
  assumes "n < length (el_tasks e)"
  shows "quiet_step e (end_writable n e)"
proof (cases "tk_kind (el_tasks e ! n)")
  case (KWritable j s c)
  from writable_listed [OF assms this] writables_remove_at [of n "el_tasks e"] show ?thesis
    by (cases c) (auto simp: end_writable_def KWritable quiet_step_def callback_send_def end_task_def Let_def)
qed (simp_all add: end_writable_def quiet_step_def)

lemma loop_step_cases:
  assumes "el_step h e e'" "length (el_inbox e') \<le> length (el_inbox e)"
  shows "quiet_step e e' \<or> e' = loop_message e \<or>
    (\<exists>n. n < length (el_timers e) \<and> t_due (el_timers e ! n) \<le> el_now e \<and> e' = loop_timer n e)"
  using assms
proof (induction rule: el_step.induct)
  case (send e m)
  then show ?case by (simp add: guest_send_def)
next
  case (queue e)
  have "timer_of m = None" if "m \<in> set (map (\<lambda>(i, r). ObjectStorageMsg i r) xs)" for m xs
    using that by (auto simp: timer_of_def)
  then have "quiet_step e (queue_run h e)"
    by (cases "el_pending e") (auto simp: quiet_step_def queue_run_def Let_def)
  then show ?case by blast
next
  case (cancelled n e i)
  have "timer_of (cancelled_answer (tk_kind (el_tasks e ! n)) i) = None" by (rule answer_no_timer) simp
  then show ?case using quiet_view by blast
next
  case (refused n e i)
  have "timer_of (FetchError i STORAGE_FAILED) = None" by (simp add: timer_of_def)
  then show ?case using quiet_view by blast
next
  case (answered n e i r)
  obtain m where "answer_of m = Some i" "timer_view (answer_result (el_tasks e ! n) i r (end_task n e)) = timer_view (callback_send m (end_task n e))"
    using view_answer_result by blast
  then show ?case using quiet_view answer_no_timer by blast
next
  case (read n e i stream sm r describe)
  have "timer_of (answer_read i r describe) = None" by (rule answer_no_timer) simp
  then show ?case using quiet_view [of "callback_send (answer_read i r describe) ((end_task n e)\<lparr>el_streams := sm\<rparr>)"]
    by (simp add: timer_view_def callback_send_def)
next
  case (writable n e)
  then show ?case using quiet_writable by blast
next
  case (other_task n e)
  then show ?case using writables_remove_at [of n "el_tasks e"] by (simp add: quiet_step_def end_task_def)
next
  case (socket_event e ws m)
  then show ?case by (simp add: quiet_step_def callback_send_def timer_of_def)
qed (auto simp: quiet_step_def)

lemma message_view:
  assumes "el_inbox e = m # rest"
  shows "el_inbox (loop_message e) = rest \<and> el_now (loop_message e) = el_now e \<and> el_callbacks (loop_message e) = el_callbacks e \<and>
    el_timers (loop_message e) = el_timers e @
      (case m of ScheduleTimeout i d \<Rightarrow> [create_timer i d False (el_now e)] | ScheduleInterval i d \<Rightarrow> [create_timer i d True (el_now e)] | _ \<Rightarrow> []) \<and>
    writables (el_tasks (loop_message e)) = writables (el_tasks e) @ (case m of ScheduleWritable i _ \<Rightarrow> [i] | _ \<Rightarrow> [])"
proof -
  let ?e = "e\<lparr>el_inbox := rest\<rparr>"
  have x: "timer_view (loop_message e) = timer_view (handle_message m ?e)" using assms by (simp add: loop_message_def)
  consider (t) i d where "m = ScheduleTimeout i d" | (i) i d where "m = ScheduleInterval i d" | (w) i s where "m = ScheduleWritable i s"
    | (c) i where "m = ClearTimer i"
    | (oth) "\<forall>j d. m \<noteq> ScheduleTimeout j d" "\<forall>j d. m \<noteq> ScheduleInterval j d" "\<forall>j s. m \<noteq> ScheduleWritable j s" "\<forall>j. m \<noteq> ClearTimer j"
    by (cases m) auto
  then show ?thesis
  proof cases
    case w
    with x show ?thesis
      by (auto simp: timer_view_def handle_groups Event_Loop.schedule_writable_def spawn_task_def writables_single Let_def split: option.splits)
  next
    case oth
    from view_message [OF this, of ?e] x have "timer_view (loop_message e) = timer_view ?e" by simp
    then show ?thesis using oth by (cases m) (auto simp: timer_view_def)
  qed (use x in \<open>auto simp: timer_view_def handle_groups schedule_timer_def\<close>)
qed

section \<open>Nothing fires early\<close>

text \<open>Whether the messages so far let a callback of an id come at a time; a wait for room can end at any time.\<close>

definition may_fire :: "(scheduler_message \<times> instant) list \<Rightarrow> callback_id \<Rightarrow> instant \<Rightarrow> bool" where
  "may_fire log i now \<longleftrightarrow>
     (\<exists>d set_at. ((ScheduleTimeout i d, set_at) \<in> set log \<or> (ScheduleInterval i d, set_at) \<in> set log) \<and> set_at + d \<le> now) \<or>
     (\<exists>stream set_at. (ScheduleWritable i stream, set_at) \<in> set log)"

definition timer_message :: "timer \<Rightarrow> scheduler_message" where
  "timer_message t = (if t_is_interval t then ScheduleInterval else ScheduleTimeout) (t_id t) (t_interval_ms t)"

definition undelivered :: "'s timer_world \<Rightarrow> callback_message list" where
  "undelivered w = drop (tw_taken w) (el_callbacks (tw_loop w))"

definition due_inv :: "'s timer_world \<Rightarrow> bool" where
  "due_inv w \<longleftrightarrow>
     (let e = tw_loop w; log = tw_log w in
      (\<forall>m \<in> set (el_inbox e). scheduled_id m \<noteq> None \<longrightarrow> (\<exists>set_at \<le> el_now e. (m, set_at) \<in> set log)) \<and>
      (\<forall>t \<in> set (el_timers e). \<exists>set_at. (timer_message t, set_at) \<in> set log \<and> set_at + t_interval_ms t \<le> t_due t) \<and>
      (\<forall>i \<in> set (writables (el_tasks e)). \<exists>stream set_at. (ScheduleWritable i stream, set_at) \<in> set log) \<and>
      (\<forall>m \<in> set (undelivered w). \<forall>i. timer_of m = Some i \<longrightarrow> may_fire log i (el_now e)) \<and>
      (\<forall>(j, now) \<in> set (tw_runs w). \<exists>i. j = unat i \<and> may_fire log i now) \<and>
      tw_taken w \<le> length (el_callbacks e))"

lemma may_fire_mono: "may_fire log i now \<Longrightarrow> now \<le> later \<Longrightarrow> may_fire (log @ newer) i later"
  unfolding may_fire_def by fastforce

lemma may_fire_append: "may_fire log i now \<Longrightarrow> may_fire (log @ newer) i now"
  by (erule may_fire_mono) simp

lemma may_fire_later: "may_fire log i now \<Longrightarrow> now \<le> later \<Longrightarrow> may_fire log i later"
  using may_fire_mono [of log i now later "[]"] by simp

lemma due_invI:
  assumes "\<And>m. m \<in> set (el_inbox (tw_loop w)) \<Longrightarrow> scheduled_id m \<noteq> None \<Longrightarrow> \<exists>set_at \<le> el_now (tw_loop w). (m, set_at) \<in> set (tw_log w)"
    "\<And>t. t \<in> set (el_timers (tw_loop w)) \<Longrightarrow> \<exists>set_at. (timer_message t, set_at) \<in> set (tw_log w) \<and> set_at + t_interval_ms t \<le> t_due t"
    "\<And>i. i \<in> set (writables (el_tasks (tw_loop w))) \<Longrightarrow> \<exists>stream set_at. (ScheduleWritable i stream, set_at) \<in> set (tw_log w)"
    "\<And>m i. m \<in> set (undelivered w) \<Longrightarrow> timer_of m = Some i \<Longrightarrow> may_fire (tw_log w) i (el_now (tw_loop w))"
    "\<And>j now. (j, now) \<in> set (tw_runs w) \<Longrightarrow> \<exists>i. j = unat i \<and> may_fire (tw_log w) i now"
    "tw_taken w \<le> length (el_callbacks (tw_loop w))"
  shows "due_inv w"
  using assms unfolding due_inv_def Let_def by blast

lemma due_invD:
  assumes "due_inv w"
  shows "m \<in> set (el_inbox (tw_loop w)) \<Longrightarrow> scheduled_id m \<noteq> None \<Longrightarrow> \<exists>set_at \<le> el_now (tw_loop w). (m, set_at) \<in> set (tw_log w)"
    "t \<in> set (el_timers (tw_loop w)) \<Longrightarrow> \<exists>set_at. (timer_message t, set_at) \<in> set (tw_log w) \<and> set_at + t_interval_ms t \<le> t_due t"
    "i \<in> set (writables (el_tasks (tw_loop w))) \<Longrightarrow> \<exists>stream set_at. (ScheduleWritable i stream, set_at) \<in> set (tw_log w)"
    "c \<in> set (undelivered w) \<Longrightarrow> timer_of c = Some i \<Longrightarrow> may_fire (tw_log w) i (el_now (tw_loop w))"
    "(j, now) \<in> set (tw_runs w) \<Longrightarrow> \<exists>i. j = unat i \<and> may_fire (tw_log w) i now"
    "tw_taken w \<le> length (el_callbacks (tw_loop w))"
  using assms unfolding due_inv_def Let_def by blast+

text \<open>A turn in the terms of what it sent and ran.\<close>

lemma script_turn_effect:
  obtains ms rs where
    "script_turn body ev w =
       w\<lparr>tw_script := timer_event body ev (tw_script w), tw_loop := fold guest_send ms (tw_loop w),
         tw_log := tw_log w @ map (\<lambda>m. (m, el_now (tw_loop w))) ms, tw_runs := tw_runs w @ map (\<lambda>j. (j, el_now (tw_loop w))) rs\<rparr>"
    "scheduled_ids ms = map of_nat [ts_next (tw_script w)..<ts_next (timer_event body ev (tw_script w))]"
    "ts_next (tw_script w) \<le> ts_next (timer_event body ev (tw_script w))"
    "case ev of GuestRuns _ \<Rightarrow> rs = [] | TimerFires i \<Rightarrow> rs \<in> {[], [i]}"
proof -
  obtain ms where "nv_sent (ts_native (timer_event body ev (tw_script w))) = nv_sent (ts_native (tw_script w)) @ ms"
    "scheduled_ids ms = map of_nat [ts_next (tw_script w)..<ts_next (timer_event body ev (tw_script w))]"
    "ts_next (tw_script w) \<le> ts_next (timer_event body ev (tw_script w))"
    using sends_ids_event [of "tw_script w" body ev] by (auto simp: sends_ids_def)
  moreover obtain rs where "ts_ran (timer_event body ev (tw_script w)) = ts_ran (tw_script w) @ rs"
    "case ev of GuestRuns _ \<Rightarrow> rs = [] | TimerFires i \<Rightarrow> map fst rs \<in> {[], [i]}"
    using event_ran by blast
  ultimately show ?thesis
    by (intro that [where ms = ms and rs = "map fst rs"]) (auto simp: script_turn_def Let_def comp_def split: timer_event.splits)
qed

lemma due_script_turn:
  assumes "due_inv w" "case ev of GuestRuns _ \<Rightarrow> True | TimerFires j \<Rightarrow> \<exists>i. j = unat i \<and> may_fire (tw_log w) i (el_now (tw_loop w))"
  shows "due_inv (script_turn body ev w)"
proof -
  obtain ms rs where t: "script_turn body ev w =
       w\<lparr>tw_script := timer_event body ev (tw_script w), tw_loop := fold guest_send ms (tw_loop w),
         tw_log := tw_log w @ map (\<lambda>m. (m, el_now (tw_loop w))) ms, tw_runs := tw_runs w @ map (\<lambda>j. (j, el_now (tw_loop w))) rs\<rparr>"
    and rs: "case ev of GuestRuns _ \<Rightarrow> rs = [] | TimerFires i \<Rightarrow> rs \<in> {[], [i]}"
    by (rule script_turn_effect)
  have r: "\<exists>i. j = unat i \<and> may_fire (tw_log w) i (el_now (tw_loop w))" if "j \<in> set rs" for j
    using that rs assms(2) by (auto split: timer_event.splits)
  have u: "undelivered (script_turn body ev w) = undelivered w" by (simp add: t undelivered_def)
  note d = due_invD [OF assms(1)]
  show ?thesis
  proof (rule due_invI)
    show "\<exists>i. j = unat i \<and> may_fire (tw_log (script_turn body ev w)) i now" if "(j, now) \<in> set (tw_runs (script_turn body ev w))" for j now
      using that r [of j] d(5) [of j now] unfolding t by (auto dest: may_fire_append)
    show "may_fire (tw_log (script_turn body ev w)) i (el_now (tw_loop (script_turn body ev w)))"
      if "m \<in> set (undelivered (script_turn body ev w))" "timer_of m = Some i" for m i
      using that d(4) [of m i] unfolding u by (auto simp: t dest: may_fire_append)
    show "\<exists>set_at \<le> el_now (tw_loop (script_turn body ev w)). (m, set_at) \<in> set (tw_log (script_turn body ev w))"
      if "m \<in> set (el_inbox (tw_loop (script_turn body ev w)))" "scheduled_id m \<noteq> None" for m
      using that d(1) [of m] by (auto simp: t)
    show "\<exists>set_at. (timer_message x, set_at) \<in> set (tw_log (script_turn body ev w)) \<and> set_at + t_interval_ms x \<le> t_due x"
      if "x \<in> set (el_timers (tw_loop (script_turn body ev w)))" for x
      using that d(2) [of x] by (auto simp: t)
    show "\<exists>stream set_at. (ScheduleWritable i stream, set_at) \<in> set (tw_log (script_turn body ev w))"
      if "i \<in> set (writables (el_tasks (tw_loop (script_turn body ev w))))" for i
      using that d(3) [of i] by (auto simp: t)
  qed (use d(6) in \<open>simp add: t\<close>)
qed

lemma due_deliver:
  assumes "due_inv w" "tw_taken w < length (el_callbacks (tw_loop w))"
  shows "due_inv (deliver_next body w)"
proof -
  let ?m = "el_callbacks (tw_loop w) ! tw_taken w" and ?w = "w\<lparr>tw_taken := Suc (tw_taken w)\<rparr>"
  have u: "undelivered w = ?m # undelivered ?w" using assms(2) by (simp add: undelivered_def Cons_nth_drop_Suc)
  then have w: "due_inv ?w" using assms by (auto simp: due_inv_def Let_def)
  show ?thesis
  proof (cases "timer_of ?m")
    case (Some i)
    then have "may_fire (tw_log w) i (el_now (tw_loop w))" using assms(1) u by (auto simp: due_inv_def Let_def)
    then show ?thesis using due_script_turn [OF w, of "TimerFires (unat i)"] Some by (auto simp: deliver_next_def)
  qed (use w in \<open>simp add: deliver_next_def\<close>)
qed

lemma due_quiet:
  assumes "due_inv w" "quiet_step (tw_loop w) e"
  shows "due_inv (w\<lparr>tw_loop := e\<rparr>)"
proof -
  from assms(2) obtain ms where q: "el_inbox e = el_inbox (tw_loop w)" "el_timers e = el_timers (tw_loop w)" "el_now (tw_loop w) \<le> el_now e"
    "set (writables (el_tasks e)) \<subseteq> set (writables (el_tasks (tw_loop w)))" "el_callbacks e = el_callbacks (tw_loop w) @ ms"
    "\<forall>m \<in> set ms. timer_of m = None \<or> (\<exists>i \<in> set (writables (el_tasks (tw_loop w))). m = ExecuteTimeout i)"
    by (auto simp: quiet_step_def)
  note d = due_invD [OF assms(1)]
  have f: "may_fire (tw_log w) i (el_now e)" if "m \<in> set ms" "timer_of m = Some i" for m i
    using that q(6) d(3) [of i] by (auto simp: may_fire_def timer_of_def)
  have u: "undelivered (w\<lparr>tw_loop := e\<rparr>) = undelivered w @ ms" using q(5) d(6) by (simp add: undelivered_def)
  show ?thesis
  proof (rule due_invI)
    show "may_fire (tw_log (w\<lparr>tw_loop := e\<rparr>)) i (el_now (tw_loop (w\<lparr>tw_loop := e\<rparr>)))"
      if "m \<in> set (undelivered (w\<lparr>tw_loop := e\<rparr>))" "timer_of m = Some i" for m i
      using that f [of m i] d(4) [of m i] may_fire_later [OF _ q(3)] unfolding u by auto
    show "\<exists>set_at \<le> el_now (tw_loop (w\<lparr>tw_loop := e\<rparr>)). (m, set_at) \<in> set (tw_log (w\<lparr>tw_loop := e\<rparr>))"
      if "m \<in> set (el_inbox (tw_loop (w\<lparr>tw_loop := e\<rparr>)))" "scheduled_id m \<noteq> None" for m
    proof -
      from that d(1) [of m] q(1) obtain set_at where "set_at \<le> el_now (tw_loop w)" "(m, set_at) \<in> set (tw_log w)" by auto
      then show ?thesis using q(3) by (intro exI [of _ set_at]) simp
    qed
  qed (use d(2,3,5,6) q(2,4,5) in auto)
qed

lemma due_message:
  assumes "due_inv w"
  shows "due_inv (w\<lparr>tw_loop := loop_message (tw_loop w)\<rparr>)"
proof (cases "el_inbox (tw_loop w)")
  case Nil
  then show ?thesis using assms by (simp add: loop_message_def due_inv_def undelivered_def Let_def)
next
  case (Cons m rest)
  have m: "scheduled_id m \<noteq> None \<Longrightarrow> \<exists>set_at \<le> el_now (tw_loop w). (m, set_at) \<in> set (tw_log w)"
    using assms Cons by (simp add: due_inv_def Let_def)
  have "\<forall>t \<in> set (case m of ScheduleTimeout i d \<Rightarrow> [create_timer i d False (el_now (tw_loop w))]
        | ScheduleInterval i d \<Rightarrow> [create_timer i d True (el_now (tw_loop w))] | _ \<Rightarrow> []).
      \<exists>set_at. (timer_message t, set_at) \<in> set (tw_log w) \<and> set_at + t_interval_ms t \<le> t_due t"
    "\<forall>i \<in> set (case m of ScheduleWritable i _ \<Rightarrow> [i] | _ \<Rightarrow> []). \<exists>stream set_at. (ScheduleWritable i stream, set_at) \<in> set (tw_log w)"
    using m by (cases m; fastforce simp: scheduled_id_def create_timer_def timer_message_def)+
  then show ?thesis
    using assms message_view [OF Cons] Cons unfolding due_inv_def Let_def undelivered_def by auto
qed

lemma due_timer:
  assumes "due_inv w" "n < length (el_timers (tw_loop w))" "t_due (el_timers (tw_loop w) ! n) \<le> el_now (tw_loop w)"
  shows "due_inv (w\<lparr>tw_loop := loop_timer n (tw_loop w)\<rparr>)"
proof -
  let ?e = "tw_loop w" and ?t = "el_timers (tw_loop w) ! n"
  obtain set_at where t: "(timer_message ?t, set_at) \<in> set (tw_log w)" "set_at + t_interval_ms ?t \<le> t_due ?t"
    using assms(1) nth_mem [OF assms(2)] unfolding due_inv_def Let_def by blast
  then have f: "may_fire (tw_log w) (t_id ?t) (el_now ?e)"
    using assms(3) by (fastforce simp: may_fire_def timer_message_def split: if_splits)
  have again: "t_is_interval ?t \<Longrightarrow> timer_message (create_timer (t_id ?t) (t_interval_ms ?t) True (el_now ?e)) = timer_message ?t"
    by (simp add: timer_message_def create_timer_def)
  have late: "set_at + t_interval_ms ?t \<le> el_now ?e + t_interval_ms ?t" using t(2) assms(3) by simp
  have fields: "el_now (loop_timer n ?e) = el_now ?e" "el_inbox (loop_timer n ?e) = el_inbox ?e" "el_tasks (loop_timer n ?e) = el_tasks ?e"
    by (simp_all add: loop_timer_def exit_check_def callback_send_def Let_def)
  have cb: "\<exists>ms. el_callbacks (loop_timer n ?e) = el_callbacks ?e @ ms \<and> (\<forall>m \<in> set ms. timer_of m = Some (t_id ?t))"
    by (auto simp: loop_timer_def exit_check_def callback_send_def timer_of_def Let_def)
  have tm: "\<forall>t \<in> set (el_timers (loop_timer n ?e)). t \<in> set (el_timers ?e) \<or>
      t_is_interval ?t \<and> t = create_timer (t_id ?t) (t_interval_ms ?t) True (el_now ?e)"
    using set_remove_at [of n "el_timers ?e"] by (auto simp: loop_timer_def exit_check_def callback_send_def Let_def)
  have timers: "\<forall>t \<in> set (el_timers (loop_timer n ?e)). \<exists>set_at. (timer_message t, set_at) \<in> set (tw_log w) \<and> set_at + t_interval_ms t \<le> t_due t"
  proof
    fix t assume "t \<in> set (el_timers (loop_timer n ?e))"
    with tm consider "t \<in> set (el_timers ?e)" | "t_is_interval ?t" "t = create_timer (t_id ?t) (t_interval_ms ?t) True (el_now ?e)" by blast
    then show "\<exists>set_at. (timer_message t, set_at) \<in> set (tw_log w) \<and> set_at + t_interval_ms t \<le> t_due t"
    proof cases
      case 1
      then show ?thesis using assms(1) by (auto simp: due_inv_def Let_def)
    next
      case 2
      with again t(1) late show ?thesis by (auto simp: create_timer_def)
    qed
  qed
  from cb obtain ms where ms: "el_callbacks (loop_timer n ?e) = el_callbacks ?e @ ms" "\<forall>m \<in> set ms. timer_of m = Some (t_id ?t)" by blast
  have "undelivered (w\<lparr>tw_loop := loop_timer n ?e\<rparr>) = undelivered w @ ms"
    using ms(1) assms(1) by (simp add: undelivered_def due_inv_def Let_def)
  then show ?thesis
    using assms(1) f timers ms fields unfolding due_inv_def Let_def by auto
qed

lemma due_step: "timer_step h body w w' \<Longrightarrow> due_inv w \<Longrightarrow> due_inv w'"
proof (induction rule: timer_step.induct)
  case (guest w ops)
  then show ?case by (simp add: due_script_turn)
next
  case (other m w)
  then show ?case by (auto simp: due_inv_def undelivered_def guest_send_def Let_def)
next
  case (loop w e)
  from loop_step_cases [OF loop(1,2)] loop(3) show ?case using due_quiet due_message due_timer by blast
next
  case (deliver w)
  then show ?case by (simp add: due_deliver)
qed

section \<open>A timeout fires once\<close>

text \<open>The ids in the log are those the script gave out, so none is scheduled twice.\<close>

definition log_inv :: "'s timer_world \<Rightarrow> bool" where
  "log_inv w \<longleftrightarrow> 1 \<le> ts_next (tw_script w) \<and> scheduled_ids (map fst (tw_log w)) = map of_nat [1..<ts_next (tw_script w)]"

lemma log_turn: "log_inv w \<Longrightarrow> log_inv (script_turn body ev w)"
proof -
  assume l: "log_inv w"
  obtain ms rs where t: "script_turn body ev w =
       w\<lparr>tw_script := timer_event body ev (tw_script w), tw_loop := fold guest_send ms (tw_loop w),
         tw_log := tw_log w @ map (\<lambda>m. (m, el_now (tw_loop w))) ms, tw_runs := tw_runs w @ map (\<lambda>j. (j, el_now (tw_loop w))) rs\<rparr>"
    and ms: "scheduled_ids ms = map of_nat [ts_next (tw_script w)..<ts_next (timer_event body ev (tw_script w))]"
    "ts_next (tw_script w) \<le> ts_next (timer_event body ev (tw_script w))"
    by (rule script_turn_effect)
  have "[1..<ts_next (timer_event body ev (tw_script w))] =
      [1..<ts_next (tw_script w)] @ [ts_next (tw_script w)..<ts_next (timer_event body ev (tw_script w))]"
    using l ms(2) by (metis le_add_diff_inverse log_inv_def upt_add_eq_append)
  then show ?thesis using l ms unfolding log_inv_def t by (simp add: comp_def)
qed

lemma next_turn: "ts_next (tw_script w) \<le> ts_next (tw_script (script_turn body ev w))"
  using sends_ids_event [of "tw_script w" body ev] by (simp add: script_turn_def sends_ids_def Let_def)

lemma log_step: "timer_step h body w w' \<Longrightarrow> log_inv w \<Longrightarrow> log_inv w' \<and> ts_next (tw_script w) \<le> ts_next (tw_script w')"
proof (induction rule: timer_step.induct)
  case (guest w ops)
  then show ?case by (simp add: log_turn next_turn)
next
  case (deliver w)
  have "log_inv (w\<lparr>tw_taken := Suc (tw_taken w)\<rparr>)" using deliver by (simp add: log_inv_def)
  moreover have "ts_next (tw_script w) \<le> ts_next (tw_script (script_turn body ev (w\<lparr>tw_taken := Suc (tw_taken w)\<rparr>)))" for ev
    using next_turn [of "w\<lparr>tw_taken := Suc (tw_taken w)\<rparr>"] by simp
  ultimately show ?case by (auto simp: deliver_next_def log_turn split: option.split)
qed (auto simp: log_inv_def)

lemma of_nat_distinct: "n \<le> 2 ^ 64 \<Longrightarrow> distinct (map (of_nat :: nat \<Rightarrow> callback_id) [m..<n])"
  by (auto simp: distinct_map inj_on_def word_of_nat_eq_iff take_bit_nat_eq_self)

lemma scheduled_unique:
  assumes "distinct (scheduled_ids (map fst log))" "(m, a) \<in> set log" "(n, b) \<in> set log" "scheduled_id m = Some i" "scheduled_id n = Some i"
  shows "m = n \<and> a = b"
  using assms
proof (induction log)
  case (Cons x log)
  have member: "i \<in> set (scheduled_ids (map fst log))" if "(k, c) \<in> set log" "scheduled_id k = Some i" for k c
    using that by (force simp: scheduled_ids_def map_filter_def)
  show ?case using Cons.IH Cons.prems member by (cases x) (auto split: option.splits)
qed simp

text \<open>All there is of an id: messages to the loop, timers, callbacks on their way, and runs.\<close>

definition pending_of :: "callback_id \<Rightarrow> 's timer_world \<Rightarrow> nat" where
  "pending_of i w =
     length (filter (\<lambda>m. scheduled_id m = Some i) (el_inbox (tw_loop w))) + length (timers_with i (el_timers (tw_loop w))) +
     length (filter (\<lambda>m. timer_of m = Some i) (undelivered w)) + length (filter (\<lambda>r. fst r = unat i) (tw_runs w))"

definition once_inv :: "callback_id \<Rightarrow> 's timer_world \<Rightarrow> bool" where
  "once_inv i w \<longleftrightarrow> (\<forall>d set_at. (ScheduleTimeout i d, set_at) \<in> set (tw_log w) \<longrightarrow> pending_of i w \<le> 1)"

lemma scheduled_count: "length (filter (\<lambda>m. scheduled_id m = Some i) ms) = count_list (scheduled_ids ms) i"
  by (induction ms) (auto split: option.split)

lemma distinct_count: "distinct xs \<Longrightarrow> count_list xs x = (if x \<in> set xs then 1 else 0)"
  by (induction xs) auto

lemma fired_in_log: "may_fire log i now \<Longrightarrow> i \<in> set (scheduled_ids (map fst log))"
proof -
  have "i \<in> set (scheduled_ids (map fst log))" if "(m, a) \<in> set log" "scheduled_id m = Some i" for m a
    using that by (force simp: scheduled_ids_def map_filter_def)
  then show "may_fire log i now \<Longrightarrow> ?thesis" by (fastforce simp: may_fire_def scheduled_id_def)
qed

lemma pending_in_log:
  assumes "due_inv w" "pending_of i w \<noteq> 0"
  shows "i \<in> set (scheduled_ids (map fst (tw_log w)))"
proof -
  note d = due_invD [OF assms(1)]
  have log: "i \<in> set (scheduled_ids (map fst (tw_log w)))" if "(m, a) \<in> set (tw_log w)" "scheduled_id m = Some i" for m a
    using that by (force simp: scheduled_ids_def map_filter_def)
  consider m where "m \<in> set (el_inbox (tw_loop w))" "scheduled_id m = Some i" | t where "t \<in> set (el_timers (tw_loop w))" "t_id t = i"
    | m where "m \<in> set (undelivered w)" "timer_of m = Some i" | now where "(unat i, now) \<in> set (tw_runs w)"
    using assms(2) by (auto simp: pending_of_def timers_with_def filter_empty_conv)
  then show ?thesis
  proof cases
    case (1 m)
    then show ?thesis using d(1) [of m] log by auto
  next
    case (2 t)
    then have "scheduled_id (timer_message t) = Some i" by (simp add: timer_message_def scheduled_id_def)
    then show ?thesis using d(2) [OF 2(1)] log by blast
  next
    case (3 m)
    then show ?thesis using d(4) fired_in_log by blast
  next
    case (4 now)
    then obtain j where "unat i = unat j" "may_fire (tw_log w) j now" using d(5) by blast
    then show ?thesis using fired_in_log by (metis word_unat_eq_iff)
  qed
qed

text \<open>A turn for a callback that has been counted.\<close>

lemma once_turn:
  assumes "due_inv w" "distinct (scheduled_ids (map fst (tw_log (script_turn body ev w))))"
    "\<forall>d a. (ScheduleTimeout i d, a) \<in> set (tw_log w) \<longrightarrow> pending_of i w + (if ev = TimerFires (unat i) then 1 else 0) \<le> 1"
    "\<forall>j. ev = TimerFires j \<longrightarrow> (\<exists>k. j = unat k \<and> k \<in> set (scheduled_ids (map fst (tw_log w))))"
  shows "once_inv i (script_turn body ev w)"
proof -
  obtain ms rs where t: "script_turn body ev w =
       w\<lparr>tw_script := timer_event body ev (tw_script w), tw_loop := fold guest_send ms (tw_loop w),
         tw_log := tw_log w @ map (\<lambda>m. (m, el_now (tw_loop w))) ms, tw_runs := tw_runs w @ map (\<lambda>j. (j, el_now (tw_loop w))) rs\<rparr>"
    and rs: "case ev of GuestRuns _ \<Rightarrow> rs = [] | TimerFires i \<Rightarrow> rs \<in> {[], [i]}"
    by (rule script_turn_effect)
  let ?old = "scheduled_ids (map fst (tw_log w))"
  have ids: "distinct (?old @ scheduled_ids ms)" using assms(2) by (simp add: t comp_def)
  have p: "pending_of i (script_turn body ev w) = pending_of i w + count_list (scheduled_ids ms) i + length (filter (\<lambda>j. j = unat i) rs)"
    by (simp add: t pending_of_def undelivered_def scheduled_count filter_map comp_def)
  have r: "length (filter (\<lambda>j. j = unat i) rs) \<le> (if ev = TimerFires (unat i) then 1 else 0)"
    using rs by (auto split: timer_event.splits)
  show ?thesis
    unfolding once_inv_def
  proof (intro allI impI)
    fix d a
    assume "(ScheduleTimeout i d, a) \<in> set (tw_log (script_turn body ev w))"
    then consider "(ScheduleTimeout i d, a) \<in> set (tw_log w)" | "ScheduleTimeout i d \<in> set ms" by (auto simp: t)
    then show "pending_of i (script_turn body ev w) \<le> 1"
    proof cases
      case 1
      then have "i \<in> set ?old" by (force simp: scheduled_ids_def map_filter_def scheduled_id_def)
      then have "count_list (scheduled_ids ms) i = 0" using ids by (auto simp: count_list_0_iff)
      then show ?thesis using p r assms(3) 1 by fastforce
    next
      case 2
      then have m: "i \<in> set (scheduled_ids ms)" by (force simp: scheduled_ids_def map_filter_def scheduled_id_def)
      then have n: "i \<notin> set ?old" "count_list (scheduled_ids ms) i = 1" using ids by (auto simp: distinct_count)
      then have "pending_of i w = 0" "ev \<noteq> TimerFires (unat i)"
        using pending_in_log [OF assms(1)] assms(4) by (blast, metis word_unat_eq_iff)
      then show ?thesis using p r n(2) by simp
    qed
  qed
qed

lemma once_deliver:
  assumes "due_inv w" "distinct (scheduled_ids (map fst (tw_log (deliver_next body w))))" "once_inv i w"
    "tw_taken w < length (el_callbacks (tw_loop w))"
  shows "once_inv i (deliver_next body w)"
proof -
  let ?m = "el_callbacks (tw_loop w) ! tw_taken w" and ?w = "w\<lparr>tw_taken := Suc (tw_taken w)\<rparr>"
  have u: "undelivered w = ?m # undelivered ?w" using assms(4) by (simp add: undelivered_def Cons_nth_drop_Suc)
  have w: "due_inv ?w" using assms(1,4) u by (auto simp: due_inv_def Let_def)
  have p: "pending_of i w = pending_of i ?w + (if timer_of ?m = Some i then 1 else 0)" using u by (simp add: pending_of_def)
  show ?thesis
  proof (cases "timer_of ?m")
    case None
    then show ?thesis using assms(3) p by (simp add: deliver_next_def once_inv_def)
  next
    case (Some k)
    have "may_fire (tw_log w) k (el_now (tw_loop w))" using due_invD(4) [OF assms(1), of ?m k] u Some by simp
    then have "k \<in> set (scheduled_ids (map fst (tw_log w)))" by (rule fired_in_log)
    moreover have "unat k = unat i \<Longrightarrow> k = i" by (simp add: word_unat_eq_iff)
    ultimately have "once_inv i (script_turn body (TimerFires (unat k)) ?w)"
      using assms(2,3) p Some by (intro once_turn [OF w]) (auto simp: deliver_next_def once_inv_def)
    then show ?thesis by (simp add: deliver_next_def Some)
  qed
qed

lemma once_loop:
  assumes "due_inv w" "distinct (scheduled_ids (map fst (tw_log w)))" "once_inv i w"
    "quiet_step (tw_loop w) e \<or> e = loop_message (tw_loop w) \<or> (\<exists>n. n < length (el_timers (tw_loop w)) \<and> e = loop_timer n (tw_loop w))"
  shows "once_inv i (w\<lparr>tw_loop := e\<rparr>)"
  unfolding once_inv_def
proof (intro allI impI)
  fix d a
  assume "(ScheduleTimeout i d, a) \<in> set (tw_log (w\<lparr>tw_loop := e\<rparr>))"
  then have l: "(ScheduleTimeout i d, a) \<in> set (tw_log w)" by simp
  have only: "m = ScheduleTimeout i d" if "(m, b) \<in> set (tw_log w)" "scheduled_id m = Some i" for m b
    using scheduled_unique [OF assms(2) that(1) l that(2)] by (simp add: scheduled_id_def)
  have p: "pending_of i w \<le> 1" using assms(3) l by (auto simp: once_inv_def)
  note d = due_invD [OF assms(1)]
  from assms(4) consider (q) "quiet_step (tw_loop w) e" | (m) "e = loop_message (tw_loop w)"
    | (t) n where "n < length (el_timers (tw_loop w))" "e = loop_timer n (tw_loop w)" by blast
  then show "pending_of i (w\<lparr>tw_loop := e\<rparr>) \<le> 1"
  proof cases
    case q
    then obtain ms where ms: "el_inbox e = el_inbox (tw_loop w)" "el_timers e = el_timers (tw_loop w)" "el_callbacks e = el_callbacks (tw_loop w) @ ms"
      "\<forall>m \<in> set ms. timer_of m = None \<or> (\<exists>i \<in> set (writables (el_tasks (tw_loop w))). m = ExecuteTimeout i)"
      by (auto simp: quiet_step_def)
    have "i \<notin> set (writables (el_tasks (tw_loop w)))" 
    proof
      assume "i \<in> set (writables (el_tasks (tw_loop w)))"
      then obtain s b where "(ScheduleWritable i s, b) \<in> set (tw_log w)" using d(3) by blast
      from only [OF this] show False by (simp add: scheduled_id_def)
    qed
    then have "filter (\<lambda>m. timer_of m = Some i) ms = []" using ms(4) by (auto simp: filter_empty_conv timer_of_def)
    then show ?thesis using ms(1-3) p d(6) by (simp add: pending_of_def undelivered_def)
  next
    case m
    show ?thesis
    proof (cases "el_inbox (tw_loop w)")
      case Nil
      then show ?thesis using p m by (simp add: pending_of_def undelivered_def loop_message_def)
    next
      case (Cons x rest)
      have "x = ScheduleTimeout i d" if "scheduled_id x = Some i" using d(1) [of x] Cons only that by auto
      then show ?thesis using message_view [OF Cons] m p Cons
        by (cases x) (auto simp: pending_of_def undelivered_def timers_with_def create_timer_def scheduled_id_def split: if_splits)
    qed
  next
    case (t n)
    let ?t = "el_timers (tw_loop w) ! n"
    have one: "length (timers_with i (el_timers (tw_loop w))) =
        length (timers_with i (remove_at n (el_timers (tw_loop w)))) + (if t_id ?t = i then 1 else 0)"
      using length_filter_remove_at [OF t(1), of "\<lambda>t. t_id t = i"] filter_remove_at_other [OF t(1), of "\<lambda>t. t_id t = i"]
      by (simp add: timers_with_def)
    have "\<not> t_is_interval ?t" if "t_id ?t = i"
    proof -
      obtain b where "(timer_message ?t, b) \<in> set (tw_log w)" using d(2) [OF nth_mem [OF t(1)]] by blast
      from only [OF this] that have "timer_message ?t = ScheduleTimeout i d" by (simp add: timer_message_def scheduled_id_def)
      then show ?thesis by (simp add: timer_message_def split: if_splits)
    qed
    then show ?thesis using p one d(6) t(2)
      by (auto simp: pending_of_def undelivered_def loop_timer_def exit_check_def callback_send_def timer_of_def timers_with_def
          create_timer_def Let_def)
  qed
qed

lemma once_step:
  assumes "timer_step h body w w'" "due_inv w" "distinct (scheduled_ids (map fst (tw_log w')))" "once_inv i w"
  shows "once_inv i w'"
  using assms
proof (induction rule: timer_step.induct)
  case (guest w ops)
  then show ?case by (intro once_turn) (auto simp: once_inv_def)
next
  case (other m w)
  then show ?case by (auto simp: once_inv_def pending_of_def undelivered_def guest_send_def)
next
  case (loop w e)
  from loop_step_cases [OF loop(1,2)] loop(3-5) show ?case by (intro once_loop) auto
next
  case (deliver w)
  then show ?case by (simp add: once_deliver)
qed

text \<open>Along a run, as long as the ids have not wrapped.\<close>

lemma world_run:
  assumes "(timer_step h body)\<^sup>*\<^sup>* (timer_world_new n host ws) w" "ts_next (tw_script w) \<le> 2 ^ 64"
  shows "due_inv w \<and> log_inv w \<and> once_inv i w"
  using assms
proof (induction rule: rtranclp_induct)
  case base
  show ?case
    by (simp add: timer_world_new_def due_inv_def log_inv_def once_inv_def undelivered_def run_event_loop_start_def timer_script_new_def
        writables_def map_filter_def)
next
  case (step w w')
  have l: "log_inv w \<Longrightarrow> log_inv w' \<and> ts_next (tw_script w) \<le> ts_next (tw_script w')" using log_step [OF step(2)] by blast
  have mono: "ts_next (tw_script w) \<le> ts_next (tw_script w')"
    using step(2) next_turn by (cases rule: timer_step.cases) (auto simp: deliver_next_def split: option.split intro: order_trans [OF _ next_turn])
  then have w: "due_inv w" "log_inv w" "once_inv i w" using step.IH step.prems by simp_all
  then have "log_inv w'" using l by blast
  then have "distinct (scheduled_ids (map fst (tw_log w')))" using of_nat_distinct [OF step.prems] by (simp add: log_inv_def)
  then show ?case using due_step once_step step(2) w \<open>log_inv w'\<close> by blast
qed

section \<open>Properties\<close>

text \<open>C23: A timeout fires once and not before its time.  Through the script, the native function, the event loop and the delivery of
  callbacks, in every interleaving with guest code, other messages, tasks and the clock: a function runs under
  an id only if the guest scheduled that id; under the id of a timeout at most one function ever runs, whether it throws or
  not; and a timeout or an interval never runs before the delay of the message that scheduled it has passed since it was set.\<close>

theorem timeout_fires_once_not_early:
  assumes "(timer_step h body)\<^sup>*\<^sup>* (timer_world_new n host ws) w" "ts_next (tw_script w) \<le> 2 ^ 64"
  shows "(\<forall>(j, now) \<in> set (tw_runs w). j < ts_next (tw_script w) \<and> (\<exists>i. j = unat i \<and> may_fire (tw_log w) i now)) \<and>
    (\<forall>i d set_at. (ScheduleTimeout i d, set_at) \<in> set (tw_log w) \<longrightarrow>
       length (filter (\<lambda>r. fst r = unat i) (tw_runs w)) \<le> 1 \<and> (\<forall>(j, now) \<in> set (tw_runs w). j = unat i \<longrightarrow> set_at + d \<le> now)) \<and>
    (\<forall>i d set_at. (ScheduleInterval i d, set_at) \<in> set (tw_log w) \<longrightarrow> (\<forall>(j, now) \<in> set (tw_runs w). j = unat i \<longrightarrow> set_at + d \<le> now))"
proof -
  have inv: "due_inv w" "log_inv w" "once_inv i w" for i using world_run [OF assms] by blast+
  then have dist: "distinct (scheduled_ids (map fst (tw_log w)))" using of_nat_distinct [OF assms(2)] by (simp add: log_inv_def)
  have runs: "\<exists>i. j = unat i \<and> may_fire (tw_log w) i now" if "(j, now) \<in> set (tw_runs w)" for j now
    using due_invD(5) [OF inv(1) that] .
  have known: "j < ts_next (tw_script w)" if "j = unat i" "may_fire (tw_log w) i now" for j i now
  proof -
    have "i \<in> set (map of_nat [1..<ts_next (tw_script w)])" using fired_in_log [OF that(2)] inv(2) by (simp add: log_inv_def)
    then obtain k where "k < ts_next (tw_script w)" "i = of_nat k" by auto
    then show ?thesis using that(1) assms(2) by (simp add: unat_of_nat take_bit_nat_eq_self)
  qed
  have early: "set_at + d \<le> now"
    if m: "(m, set_at) \<in> set (tw_log w)" "m = ScheduleTimeout i d \<or> m = ScheduleInterval i d" "(unat i, now) \<in> set (tw_runs w)" for m i d set_at now
  proof -
    obtain k where "unat i = unat k" "may_fire (tw_log w) k now" using runs [OF m(3)] by blast
    then have f: "may_fire (tw_log w) i now" by (metis word_unat_eq_iff)
    have "m' = m \<and> b = set_at" if "(m', b) \<in> set (tw_log w)" "scheduled_id m' = Some i" for m' b
      using scheduled_unique [OF dist that(1) m(1) that(2)] m(2) by (auto simp: scheduled_id_def)
    with f m(2) show ?thesis unfolding may_fire_def by (fastforce simp: scheduled_id_def)
  qed
  show ?thesis
  proof (intro conjI)
    show "\<forall>(j, now) \<in> set (tw_runs w). j < ts_next (tw_script w) \<and> (\<exists>i. j = unat i \<and> may_fire (tw_log w) i now)"
      using runs known by blast
    show "\<forall>i d set_at. (ScheduleTimeout i d, set_at) \<in> set (tw_log w) \<longrightarrow>
       length (filter (\<lambda>r. fst r = unat i) (tw_runs w)) \<le> 1 \<and> (\<forall>(j, now) \<in> set (tw_runs w). j = unat i \<longrightarrow> set_at + d \<le> now)"
      using inv(3) early by (fastforce simp: once_inv_def pending_of_def)
    show "\<forall>i d set_at. (ScheduleInterval i d, set_at) \<in> set (tw_log w) \<longrightarrow> (\<forall>(j, now) \<in> set (tw_runs w). j = unat i \<longrightarrow> set_at + d \<le> now)"
      using early by fastforce
  qed
qed

text \<open>A guest sets a timeout of 10, time passes, it fires, and its function runs at 10.\<close>

theorem timeout_fires_once_not_early_witness:
  "\<exists>w :: nat timer_world. (timer_step failing_host timer_bodies)\<^sup>*\<^sup>* (timer_world_new (native_new 1) 0 1) w \<and> tw_runs w = [(1, 10)] \<and>
     (ScheduleTimeout 1 10, 0) \<in> set (tw_log w) \<and> length (filter (\<lambda>r. fst r = unat (1 :: callback_id)) (tw_runs w)) \<le> 1"
proof -
  let ?w0 = "timer_world_new (native_new 1) 0 1 :: nat timer_world"
  let ?w1 = "script_turn timer_bodies (GuestRuns [SetsTimeout 7 (JNumber 10)]) ?w0"
  let ?w2 = "?w1\<lparr>tw_loop := loop_message (tw_loop ?w1)\<rparr>"
  let ?w3 = "?w2\<lparr>tw_loop := (tw_loop ?w2)\<lparr>el_now := el_now (tw_loop ?w2) + 10\<rparr>\<rparr>"
  let ?w4 = "?w3\<lparr>tw_loop := loop_timer 0 (tw_loop ?w3)\<rparr>"
  let ?w5 = "deliver_next timer_bodies ?w4"
  have "timer_step failing_host timer_bodies ?w0 ?w1" by (rule timer_step.guest)
  moreover have "timer_step failing_host timer_bodies ?w1 ?w2" by (rule timer_step.loop [OF el_step.message]) code_simp+
  moreover have "timer_step failing_host timer_bodies ?w2 ?w3" by (rule timer_step.loop [OF el_step.tick]) simp
  moreover have "timer_step failing_host timer_bodies ?w3 ?w4" by (rule timer_step.loop [OF el_step.timer]) code_simp+
  moreover have "timer_step failing_host timer_bodies ?w4 ?w5" by (rule timer_step.deliver) code_simp
  ultimately have reach: "(timer_step failing_host timer_bodies)\<^sup>*\<^sup>* ?w0 ?w5" by (meson converse_rtranclp_into_rtranclp rtranclp.rtrancl_refl)
  have w: "tw_runs ?w5 = [(1, 10)]" "tw_log ?w5 = [(ScheduleTimeout 1 10, 0), (ScheduleTimeout 2 5, 10)]" "ts_next (tw_script ?w5) = 3"
    by code_simp+
  from timeout_fires_once_not_early [OF reach] w have "length (filter (\<lambda>r. fst r = unat (1 :: callback_id)) (tw_runs ?w5)) \<le> 1" by simp
  with reach w show ?thesis by (intro exI [of _ ?w5]) simp
qed

end
