(* ===== verification/Cpu_Signals.thy ===== *)
theory Cpu_Signals
  imports Cpu_Enforcer Hash_Map
begin

text \<open>
  How a spent CPU budget reaches its request, from \<open>src/src/security/cpu_enforcer.rs\<close>: on Linux the table of timers that the
  signal thread looks a signal up in, on macOS the ticks of the watchdog over the slots of all threads.
  Creating a timer, reading a clock and the end of a thread are arguments.
\<close>

section \<open>Linux: timers and signals\<close>

text \<open>A target names its turn and its flag by position.  \<open>sw_signals\<close> are the signals the signal thread has not
  taken yet; \<open>sw_created\<close> records every timer with its target.\<close>

record cpu_target =
  cg_turn :: nat
  cg_request :: u64
  cg_flag :: nat

record signal_world =
  sw_next_key :: usize
  sw_targets :: "(usize, cpu_target) hash_map"
  sw_turns :: "turn list"
  sw_flags :: "bool list"
  sw_signals :: "usize list"
  sw_created :: "(usize \<times> cpu_target) list"

definition signal_world_new :: "nat \<Rightarrow> signal_world" where
  "signal_world_new isolates =
     \<lparr>sw_next_key = 1, sw_targets = [], sw_turns = replicate isolates turn_new, sw_flags = [], sw_signals = [], sw_created = []\<rparr>"

definition linux_timer_new :: "bool \<Rightarrow> nat \<Rightarrow> u64 \<Rightarrow> signal_world \<Rightarrow> signal_world \<times> usize option" where
  "linux_timer_new created turn request s =
     (let key = sw_next_key s;
          target = \<lparr>cg_turn = turn, cg_request = request, cg_flag = length (sw_flags s)\<rparr>;
          s = s\<lparr>sw_next_key := key + 1, sw_flags := sw_flags s @ [False]\<rparr>
      in if \<not> created then (s, None)
         else (s\<lparr>sw_targets := hm_insert key target (sw_targets s), sw_created := sw_created s @ [(key, target)]\<rparr>, Some key))"

definition linux_timer_drop :: "usize \<Rightarrow> signal_world \<Rightarrow> signal_world" where
  "linux_timer_drop key s = s\<lparr>sw_targets := hm_remove key (sw_targets s)\<rparr>"

text \<open>The signal thread with the next signal.\<close>

definition signal_thread :: "signal_world \<Rightarrow> signal_world" where
  "signal_thread s =
     (case sw_signals s of
        [] \<Rightarrow> s
      | key # rest \<Rightarrow>
          (let s = s\<lparr>sw_signals := rest\<rparr> in
           case hm_get (sw_targets s) key of
             None \<Rightarrow> s
           | Some g \<Rightarrow>
               if sw_flags s ! cg_flag g then s
               else s\<lparr>sw_flags := (sw_flags s)[cg_flag g := True],
                      sw_turns := (sw_turns s)[cg_turn g := fst (turn_terminate (cg_request g) (sw_turns s ! cg_turn g))]\<rparr>))"

text \<open>What happens around it: only a timer that is not deleted fires.\<close>

datatype signal_op = NewTimer bool nat u64 | DropTimer usize | SendsSignal usize | TakesSignal | BeginsTurn nat u64 | EndsTurn nat

definition signal_op :: "signal_op \<Rightarrow> signal_world \<Rightarrow> signal_world" where
  "signal_op op s =
     (case op of
        NewTimer created turn request \<Rightarrow> fst (linux_timer_new created turn request s)
      | DropTimer key \<Rightarrow> linux_timer_drop key s
      | SendsSignal key \<Rightarrow> if hm_get (sw_targets s) key = None then s else s\<lparr>sw_signals := sw_signals s @ [key]\<rparr>
      | TakesSignal \<Rightarrow> signal_thread s
      | BeginsTurn n request \<Rightarrow> s\<lparr>sw_turns := (sw_turns s)[n := turn_begin request (sw_turns s ! n)]\<rparr>
      | EndsTurn n \<Rightarrow> s\<lparr>sw_turns := (sw_turns s)[n := fst (turn_end (sw_turns s ! n))]\<rparr>)"

text \<open>Keys are not given twice, and the table holds timers that were created.\<close>

definition keys_inv :: "signal_world \<Rightarrow> bool" where
  "keys_inv s \<longleftrightarrow>
     distinct (map fst (sw_created s)) \<and> (\<forall>k \<in> set (map fst (sw_created s)). k < sw_next_key s) \<and>
     (\<forall>k g. hm_get (sw_targets s) k = Some g \<longrightarrow> (k, g) \<in> set (sw_created s)) \<and>
     (\<forall>k \<in> set (sw_signals s). k \<in> set (map fst (sw_created s)))"

lemma signal_thread_fields [simp]:
  "sw_created (signal_thread s) = sw_created s" "sw_next_key (signal_thread s) = sw_next_key s" "sw_targets (signal_thread s) = sw_targets s"
  by (auto simp: signal_thread_def Let_def split: list.split option.split)

lemma signal_thread_signals: "k \<in> set (sw_signals (signal_thread s)) \<Longrightarrow> k \<in> set (sw_signals s)"
  by (cases "sw_signals s") (auto simp: signal_thread_def Let_def split: option.splits if_splits)

lemma keys_step:
  assumes "keys_inv s" "unat (sw_next_key s) + 1 < 2 ^ 64"
  shows "keys_inv (signal_op op s) \<and> unat (sw_next_key (signal_op op s)) \<le> unat (sw_next_key s) + 1"
proof (cases op)
  case (NewTimer created turn request)
  have n: "unat (sw_next_key s + 1) = unat (sw_next_key s) + 1" using assms(2) by (simp add: unat_plus_one)
  then have "k < sw_next_key s \<Longrightarrow> k < sw_next_key s + 1" for k by (simp add: word_less_nat_alt)
  moreover have "sw_next_key s < sw_next_key s + 1" using n by (simp add: word_less_nat_alt)
  ultimately show ?thesis using assms(1) n NewTimer
    by (fastforce simp: signal_op_def linux_timer_new_def keys_inv_def Let_def)
next
  case TakesSignal
  then show ?thesis using assms(1) by (auto simp: signal_op_def keys_inv_def dest: signal_thread_signals)
qed (use assms(1) in \<open>force simp: signal_op_def linux_timer_drop_def keys_inv_def\<close>)+

lemma keys_run:
  "keys_inv s \<Longrightarrow> unat (sw_next_key s) + length ops < 2 ^ 64 \<Longrightarrow> keys_inv (fold signal_op ops s)"
proof (induction ops arbitrary: s)
  case (Cons op ops)
  have "unat (sw_next_key s) + 1 < 2 ^ 64" using Cons.prems(2) by simp
  from keys_step [OF Cons.prems(1) this, of op] Cons show ?case by simp
qed simp

text \<open>A signal stops its own request or nobody.  Whatever timers were made, fired and dropped before, and whichever requests
  have had their turn since: a signal that is taken changes nothing if its timer is gone or its request is marked
  already; else it marks the one request the timer was made for, and changes the turn of its isolate only if
  that request holds it.\<close>

lemma signal_hits_own_request:
  assumes "s = fold signal_op ops (signal_world_new isolates)" "length ops < 2 ^ 64 - 1" "sw_signals s = k # rest"
  shows "\<exists>!g. (k, g) \<in> set (sw_created s)"
    and "signal_thread s = s\<lparr>sw_signals := rest\<rparr> \<or>
      (\<exists>g. (k, g) \<in> set (sw_created s) \<and> hm_get (sw_targets s) k = Some g \<and> \<not> sw_flags s ! cg_flag g \<and>
        sw_flags (signal_thread s) = (sw_flags s)[cg_flag g := True] \<and>
        (\<forall>n < length (sw_turns s). sw_turns (signal_thread s) ! n \<noteq> sw_turns s ! n \<longrightarrow>
           n = cg_turn g \<and> tn_holder (sw_turns s ! n) = Some (cg_request g)))"
proof -
  have "keys_inv (signal_world_new isolates)" by (simp add: keys_inv_def signal_world_new_def)
  moreover have "unat (sw_next_key (signal_world_new isolates)) + length ops < 2 ^ 64" using assms(2) by (simp add: signal_world_new_def)
  ultimately have inv: "keys_inv s" using keys_run assms(1) by blast
  then have "k \<in> set (map fst (sw_created s))" "distinct (map fst (sw_created s))" using assms(3) by (auto simp: keys_inv_def)
  then show "\<exists>!g. (k, g) \<in> set (sw_created s)" by (auto dest: map_of_is_SomeI simp: eq_key_imp_eq_value)
  show "signal_thread s = s\<lparr>sw_signals := rest\<rparr> \<or>
      (\<exists>g. (k, g) \<in> set (sw_created s) \<and> hm_get (sw_targets s) k = Some g \<and> \<not> sw_flags s ! cg_flag g \<and>
        sw_flags (signal_thread s) = (sw_flags s)[cg_flag g := True] \<and>
        (\<forall>n < length (sw_turns s). sw_turns (signal_thread s) ! n \<noteq> sw_turns s ! n \<longrightarrow>
           n = cg_turn g \<and> tn_holder (sw_turns s ! n) = Some (cg_request g)))"
  proof (cases "hm_get (sw_targets s) k")
    case None
    then show ?thesis by (simp add: signal_thread_def assms(3))
  next
    case (Some g)
    then have "(k, g) \<in> set (sw_created s)" using inv by (simp add: keys_inv_def)
    moreover have "n = cg_turn g \<and> tn_holder (sw_turns s ! n) = Some (cg_request g)"
      if "(sw_turns s)[cg_turn g := fst (turn_terminate (cg_request g) (sw_turns s ! cg_turn g))] ! n \<noteq> sw_turns s ! n" for n
    proof -
      have n: "n = cg_turn g" using that by (metis nth_list_update_neq)
      moreover have "tn_holder (sw_turns s ! cg_turn g) = Some (cg_request g)"
      proof (rule ccontr)
        assume "tn_holder (sw_turns s ! cg_turn g) \<noteq> Some (cg_request g)"
        then show False using that n by (simp add: turn_terminate_def)
      qed
      ultimately show ?thesis by simp
    qed
    ultimately show ?thesis
      using Some by (cases "sw_flags s ! cg_flag g") (simp_all add: signal_thread_def assms(3) Let_def)
  qed
qed

section \<open>macOS: ticks of the watchdog\<close>

definition IDLE_TICKS :: nat where
  "IDLE_TICKS = 100"

text \<open>A slot as the watchdog finds it: whether its thread still has it, and the flag and turn of the request it is armed
  for.\<close>

record watched =
  wt_alive :: bool
  wt_slot :: cpu_slot
  wt_terminated :: bool
  wt_turn :: turn

definition watched_check :: "nat option \<Rightarrow> watched \<Rightarrow> watched \<times> bool" where
  "watched_check now w =
     (let (sl, terminated, t, armed) = slot_check now (wt_slot w) (wt_terminated w) (wt_turn w)
      in (w\<lparr>wt_slot := sl, wt_terminated := terminated, wt_turn := t\<rparr>, armed))"

text \<open>One tick: slots of ended threads go, the others are checked in order, each with the CPU time of its thread.  The
  answer is the number of idle ticks and whether the watchdog goes to park.\<close>

definition watchdog_tick :: "(watched \<Rightarrow> nat option) \<Rightarrow> watched list \<Rightarrow> nat \<Rightarrow> watched list \<times> nat \<times> bool" where
  "watchdog_tick clock slots idle =
     (let checked = map (\<lambda>w. watched_check (clock w) w) (filter wt_alive slots);
          idle = (if list_ex snd checked then 0 else idle + 1)
      in (map fst checked, idle, idle \<ge> IDLE_TICKS))"

text \<open>A tick cuts every armed turn that spent its budget, and the watchdog does not go to park while a live slot is
  armed.\<close>

lemma tick_cuts_spent_turns:
  assumes "w \<in> set slots" "wt_alive w" "sl_armed (wt_slot w) = Some a" "watchdog_tick clock slots idle = (slots', idle', parks)"
  shows "\<not> parks"
    and "clock w = Some now \<Longrightarrow> am_start a + am_budget a \<le> now \<Longrightarrow> tn_holder (wt_turn w) = Some (am_request a) \<Longrightarrow> \<not> wt_terminated w \<Longrightarrow>
      \<exists>w' \<in> set slots'. wt_terminated w' \<and> tn_terminating (wt_turn w')"
proof -
  have "snd (watched_check (clock w) w)"
    using assms(3) by (simp add: watched_check_def slot_check_def split: option.split)
  then have "list_ex snd (map (\<lambda>w. watched_check (clock w) w) (filter wt_alive slots))"
    using assms(1,2) by (auto simp: list_ex_iff)
  with assms(4) show "\<not> parks" by (auto simp: watchdog_tick_def IDLE_TICKS_def Let_def)
  assume "clock w = Some now" "am_start a + am_budget a \<le> now" "tn_holder (wt_turn w) = Some (am_request a)" "\<not> wt_terminated w"
  then have "wt_terminated (fst (watched_check (clock w) w)) \<and> tn_terminating (wt_turn (fst (watched_check (clock w) w)))"
    using assms(3) by (auto simp: watched_check_def slot_check_def turn_terminate_def saturating_sub_def)
  with assms(1,2,4) show "\<exists>w' \<in> set slots'. wt_terminated w' \<and> tn_terminating (wt_turn w')"
    by (force simp: watchdog_tick_def Let_def)
qed

end
