(* ===== verification/Spec2Isabelle.thy ===== *)
theory Spec2Isabelle
  imports Pool_Properties Guards Event_Timers Execution_Properties Object_Properties Object_Script
    Callback_Values Event_Readers External_Memory Code_Cache Native_Properties Stream_Body Fetch_Event
    WebSocket_Script Timer_Script Fetch_Script Env_Script Subtle_Crypto Compression Web_Api Context_Load
    Isolate Object_Storage Timer_World Cpu_Signals
begin

text \<open>
  A verification of the OpenWorkers V8 runtime, the crate under \<open>src/src\<close>.

  The program.  A request takes an isolate from a pool with a ceiling on isolates and on requests per isolate,
  waits for its turn on it, and runs the guest's JavaScript in an execution context.  What the guest asks for
  (fetches, storage, timers, sockets) goes as messages to an event loop, whose answers come back as callbacks.
  Limits on CPU, wall clock and memory can stop a turn from other threads.  A Durable Object is a context that
  lives across events, behind an input gate and an output gate.

  The theories, by part.
  \<^item> Shared: \<open>Prelude\<close> (standard library pieces, collections of facts), \<open>Hash_Map\<close> and \<open>Ordered_Map\<close> (the maps
    of the standard library, contract \<open>key_table\<close>), \<open>Channel\<close> (the bounded channel, contract \<open>bounded_fifo\<close>),
    \<open>Js_Value\<close> (plain JavaScript data, integers as doubles).
  \<^item> Pool: \<open>Pool_Policy\<close> (\<open>pool_policy.rs\<close>), \<open>Async_Waiter\<close> (\<open>async_waiter.rs\<close>), \<open>Concurrency_State\<close> and \<open>Pool\<close>
    (\<open>pool.rs\<close>, \<open>pool_common.rs\<close>), with \<open>Pool_Invariant\<close> and \<open>Pool_Properties\<close>: \<open>execute_pinned\<close> is cut at its awaits
    into steps, its future may be dropped at each, and the invariant holds in every interleaving of requests and for every
    answer of V8.
    \<open>Isolate\<close> (\<open>locker_managed_isolate.rs\<close>, \<open>v8_helpers.rs\<close>) is how an isolate is built and dropped.
  \<^item> Limits: \<open>Turn\<close> (\<open>security/turn.rs\<close>, \<open>heap_limit.rs\<close>, \<open>array_buffer_allocator.rs\<close>), \<open>Cpu_Enforcer\<close> and
    \<open>Cpu_Signals\<close> (\<open>cpu_enforcer.rs\<close>: the budget, the timers and signals of Linux, the watchdog of macOS),
    \<open>Timeout_Guard\<close>, and \<open>Guards\<close>, the step relation in which they run beside each other.
  \<^item> Event loop: \<open>Stream_Manager\<close>, \<open>Object_Queue\<close>, \<open>WebSocket\<close> and \<open>Event_Loop\<close> (\<open>runtime/stream_manager.rs\<close>,
    \<open>runtime/scheduler.rs\<close>).  \<open>Event_Ledger\<close> is its abstract specification, \<open>Event_Loop_Properties\<close> the simulation,
    \<open>Event_Timers\<close> the timers.
  \<^item> Context: \<open>Dispatch\<close> (\<open>runtime/dispatch.rs\<close>), \<open>Execution_Context\<close> (\<open>execution_context.rs\<close>: one poll of the event
    loop on every path, the phases of an event, reset) and \<open>Execution_Properties\<close>; \<open>Context_Load\<close> (loading a script
    under its limits, the cache of contexts, \<open>worker.rs\<close>), \<open>Fetch_Event\<close> (the phases of a fetch event as polls),
    \<open>Event_Readers\<close> (\<open>execution_helpers.rs\<close>), \<open>Foreground\<close> (\<open>platform.rs\<close>, and the event loops as far as they wait for
    tasks and turns).
  \<^item> Durable Objects: \<open>Durable_Object\<close> (\<open>execution_context/durable_object.rs\<close>), \<open>Object_Properties\<close>, \<open>Object_Script\<close> and
    \<open>Object_Storage\<close> (\<open>js/durable_object.js\<close>: the counters and transactions, then every method of the storage down to
    the message it sends, with \<open>meant\<close> as its specification).
  \<^item> Bindings: \<open>Native_Ops\<close>, \<open>Object_Natives\<close> and \<open>Native_Properties\<close> (the native functions of
    \<open>runtime/bindings\<close>, what each registers and sends), \<open>Callback_Values\<close> (\<open>runtime/callback_handlers.rs\<close>).
  \<^item> Guest scripts: \<open>Fetch_Script\<close> (\<open>bindings/fetch.rs\<close>, \<open>streams.rs\<close>, \<open>web_api.rs\<close>), \<open>Env_Script\<close> (\<open>js/env.js\<close>),
    \<open>Stream_Body\<close> (\<open>js/stream_body.js\<close>, with the host's pump and the client), \<open>WebSocket_Script\<close> (\<open>bindings/websocket.rs\<close>),
    \<open>Timer_Script\<close> (\<open>bindings/timers.rs\<close>, \<open>async_context.rs\<close>), \<open>Subtle_Crypto\<close> (\<open>runtime/crypto\<close>), \<open>Compression\<close>, and
    \<open>Web_Api\<close> (URLs, clock, console, text decoding).  \<open>Timer_World\<close> composes \<open>Timer_Script\<close>, the native functions,
    \<open>Event_Loop\<close> and the delivery of callbacks.
  \<^item> \<open>External_Memory\<close> (\<open>gc/external_memory.rs\<close>, \<open>gc/js_lock.rs\<close>) and \<open>Code_Cache\<close> (\<open>snapshot.rs\<close>).

  State and effects.  A struct is a record, shared state is passed along, and an async function is cut into the
  polls between its awaits.  What happens on other threads is a step of its own, so the theorems quantify over
  interleavings.  What the guest's JavaScript does, what V8 or the host answers, and code of other crates are
  arguments; JSON and conversions that run JavaScript are too, and so are the cryptographic primitives.  Where a
  theorem needs a law of such an argument, it is a hypothesis of that theorem, and its witness instantiates it.

  What is shown.
  \<^item> Pool: isolation of owners, ceilings, and the return of the slots of requests that run to their end.
  \<^item> Limits: a termination or a signal hits the request it is meant for, and loading a script leaves an isolate as
    it was.
  \<^item> Events: each operation is answered once and only in its own request, a native call settles or owes its promise, a
    fetch event answers once, polls give their turn back, and a parked poll is woken.
  \<^item> Objects: no event enters a closed input gate, no answer leaves before the writes made before it, transactions are
    atomic, with puts at their call and deletes at the end of their read, a storage method sends what it means, and attachments survive.
  \<^item> Guest scripts: a body arrives as its source gave it and, once written, in bounded time, bindings are capabilities, a timeout fires once and not
    early, sockets close for good, compression streams do not mix, forms and signatures round trip.
  \<^item> The code cache round trips and native memory is accounted exactly.
  \<^item> Defects, each a theorem or a lemma: a stale deadline, a reused stream id, a missed shutdown, an unsettled upgrade
    and an unsettled malformed write, a slot lost with a dropped request, a delete that is not awaited, a grace period without a timer, object tasks that wait, a socket accepted after
    its close, memory charged to another isolate, buffers outside the memory limit, an unbounded \<open>deriveBits\<close>,
    a public key taken for an HMAC secret, keys that follow their buffer, forms whose names inject.

  Bounds.  The loops of the object runner have the bound on rounds of the source (\<open>MAX_ROUNDS\<close>); \<open>admit_loop\<close>
  and \<open>drain_loop\<close> take fuel, and \<open>admit_loop_fuel\<close> and \<open>drain_loop_done\<close> show that it never ends them.  \<open>fg_run\<close> ends
  because the trees of tasks that post tasks are finite.  Counters that can wrap are words of their width; where a
  theorem needs that an id did not wrap, the number of steps is bounded in a hypothesis.

  Not modelled.  Calls of V8 that create isolates, contexts, platforms and snapshots or install functions, the slots of
  a context and the traced handles, whose guarantees are lifetimes and types; \<open>process_callbacks\<close>, which drains callbacks
  outside of a poll, and the native text encoder; system calls of the CPU timers; logging,
  statistics and printing; the URL parser, URL patterns, text encoders and codecs, which are libraries; benchmark
  programs and the build script.  The build with the V8 sandbox is left out.  Of JavaScript values,
  accessors, prototypes and the key \<open>__proto__\<close> are left out.  Panics on strings that V8 cannot hold are not modelled.
  The budget of the async library, which can make a receive answer pending early, is modelled for the mailbox of an object
  and not for the callback channels.  A chunk of a body whose buffer is detached or resized while it waits for room is not modelled.
\<close>

end
